(* ===== verification/Odbc_Prelude.thy ===== *)
theory Odbc_Prelude
imports Main "HOL-Library.Word"
begin

text \<open>
  Shared vocabulary of the development.

  \<^item> C character and integer types of the driver's only platform (Windows, 64 bit):
    \<open>SQLWCHAR\<close> is a 16 bit unit, \<open>SQLCHAR\<close> an unsigned 8 bit unit, \<open>SQLUBIGINT\<close> and
    \<open>SQLBIGINT\<close> are 64 bit words (read with \<open>unat\<close> and \<open>sint\<close>), casts to the narrower
    signed types are \<open>to_i16\<close> and \<open>to_i32\<close>.
  \<^item> \<open>wstr_st\<close> / \<open>cstr_st\<close> / \<open>xstr_st\<close> of driver/util.h: a string object is the list of
    the \<open>cnt\<close> units it counts; where the code also reads the unit after them, the
    operation takes that unit as an argument of its own.
  \<^item> reads and writes through a pointer into memory the code does not own return
    \<open>None\<close> when they leave it.
  \<^item> \<open>text_codec\<close>, the contract of an escaping scheme, and what follows from it for whole
    strings and for output truncated by a bounded buffer.
\<close>

section \<open>C types\<close>

type_synonym sqlwchar = "16 word"
type_synonym sqlchar = "8 word"
type_synonym u64 = "64 word"
type_synonym wstr = "sqlwchar list"
type_synonym cstr = "sqlchar list"

text \<open>\<open>xstr_st\<close>: the \<open>wide\<close> flag and the union it selects.\<close>

datatype xstr = WStr wstr | CStr cstr

text \<open>
  The value of \<open>wide ? wstr[i] : cstr[i]\<close>, after the integer promotion both
  branches undergo.
\<close>

fun units :: "xstr \<Rightarrow> nat list" where
  "units (WStr w) = map unat w"
| "units (CStr c) = map unat c"

fun xdrop :: "nat \<Rightarrow> xstr \<Rightarrow> xstr" where
  "xdrop n (WStr w) = WStr (drop n w)"
| "xdrop n (CStr c) = CStr (drop n c)"

definition to_i16 :: "int \<Rightarrow> int" where
  "to_i16 x = (x + 32768) mod 65536 - 32768"

definition to_i32 :: "int \<Rightarrow> int" where
  "to_i32 x = (x + 2147483648) mod 4294967296 - 2147483648"

definition to_u64 :: "int \<Rightarrow> int" where
  "to_u64 x = x mod 18446744073709551616"

definition to_i64 :: "int \<Rightarrow> int" where
  "to_i64 x = (x + 9223372036854775808) mod 18446744073709551616 - 9223372036854775808"

text \<open>Wide and narrow string literals: \<open>MK_WPTR("...")\<close> and \<open>"..."\<close>.\<close>

definition wlit :: "string \<Rightarrow> wstr" where
  "wlit s = map of_char s"

definition clit :: "string \<Rightarrow> cstr" where
  "clit s = map of_char s"

text \<open>\<open>errno\<close> after a failed conversion (\<open>ENONE\<close>: the call fails without setting it).\<close>

datatype c_errno = EINVAL | ERANGE | ENONE

datatype sqlreturn =
  SQL_SUCCESS | SQL_SUCCESS_WITH_INFO | SQL_NO_DATA | SQL_ERROR | SQL_INVALID_HANDLE

definition SQL_SUCCEEDED :: "sqlreturn \<Rightarrow> bool" where
  "SQL_SUCCEEDED r \<longleftrightarrow> r = SQL_SUCCESS \<or> r = SQL_SUCCESS_WITH_INFO"

lemma units_length: "length (units x) = (case x of WStr w \<Rightarrow> length w | CStr c \<Rightarrow> length c)"
  by (cases x) simp_all

lemma units_xdrop [simp]: "units (xdrop n x) = drop n (units x)"
  by (cases x) (simp_all add: drop_map)

lemma to_i16_id: "-32768 \<le> x \<Longrightarrow> x < 32768 \<Longrightarrow> to_i16 x = x"
  by (simp add: to_i16_def)

lemma to_i16_range: "-32768 \<le> to_i16 x \<and> to_i16 x \<le> 32767"
proof -
  have "0 \<le> (x + 32768) mod 65536" "(x + 32768) mod 65536 < 65536" by simp_all
  then show ?thesis by (simp add: to_i16_def)
qed

lemma to_i16_idem [simp]: "to_i16 (to_i16 x) = to_i16 x"
  using to_i16_range [of x] by (intro to_i16_id) auto

lemma length_wlit [simp]: "length (wlit s) = length s"
  by (simp add: wlit_def)

lemma length_clit [simp]: "length (clit s) = length s"
  by (simp add: clit_def)

lemma unat_of_char16: "unat (of_char c :: sqlwchar) = of_char c"
proof -
  have "unat (of_nat (of_char c) :: sqlwchar) = of_char c mod 2 ^ 16"
    by (simp only: unat_of_nat) simp
  moreover have "(of_char c :: nat) < 2 ^ 16"
    using nat_of_char_less_256 [of c] by (rule less_trans) simp
  ultimately show ?thesis by (simp only: of_nat_of_char mod_less)
qed
lemma of_char_wchar_eq [simp]: "((of_char c :: sqlwchar) = of_char d) = (c = d)"
proof -
  have "(of_char c :: sqlwchar) = of_char d \<longleftrightarrow> (of_char c :: nat) = of_char d"
    by (simp only: word_unat_eq_iff unat_of_char16)
  then show ?thesis by (simp only: of_char_eq_iff)
qed
lemma zero_in_wlit [simp]: "0 \<in> set (wlit s) \<longleftrightarrow> CHR 0x00 \<in> set s"
proof -
  have "(0 :: sqlwchar) = of_char c \<longleftrightarrow> c = CHR 0x00" for c
    using of_char_wchar_eq [of "CHR 0x00" c] by auto
  then show ?thesis by (auto simp: wlit_def image_iff)
qed
lemma wlit_eq [simp]: "wlit s = wlit t \<longleftrightarrow> s = t" 
  unfolding wlit_def by (rule inj_map_eq_map) (simp add: inj_def)

section \<open>Lists as memory\<close>

text \<open>One unit read or written through a pointer; \<open>None\<close> outside the object.\<close>

definition mem_read :: "'a list \<Rightarrow> nat \<Rightarrow> 'a option" where
  "mem_read m i = (if i < length m then Some (m ! i) else None)"

definition mem_write :: "'a list \<Rightarrow> nat \<Rightarrow> 'a \<Rightarrow> 'a list option" where
  "mem_write m i v = (if i < length m then Some (m[i := v]) else None)"

text \<open>A run of units written at consecutive addresses.\<close>

fun mem_write_list :: "'a list \<Rightarrow> nat \<Rightarrow> 'a list \<Rightarrow> 'a list option" where
  "mem_write_list m i [] = Some m"
| "mem_write_list m i (v # vs) =
     (case mem_write m i v of None \<Rightarrow> None | Some m' \<Rightarrow> mem_write_list m' (Suc i) vs)"

lemma mem_write_list_fits:
  "i + length vs \<le> length m \<Longrightarrow>
   mem_write_list m i vs = Some (take i m @ vs @ drop (i + length vs) m)"
proof (induction vs arbitrary: m i)
  case Nil
  then show ?case by simp
next
  case (Cons v vs)
  from Cons.prems have i: "i < length m" by simp
  have "take (Suc i) (m[i := v]) = take i m @ [v]"
    using i by (simp add: take_Suc_conv_app_nth)
  with Cons i show ?case by (simp add: mem_write_def)
qed

text \<open>\<open>strlen\<close> from an address on: \<open>None\<close> when no terminator follows.\<close>

fun mem_strlen :: "'a::zero list \<Rightarrow> nat option" where
  "mem_strlen [] = None"
| "mem_strlen (c # cs) = (if c = 0 then Some 0 else map_option Suc (mem_strlen cs))"

lemma mem_strlen_nts:
  "0 \<notin> set cs \<Longrightarrow> mem_strlen (cs @ 0 # rest) = Some (length cs)"
  by (induction cs) auto

section \<open>Escaping schemes\<close>

text \<open>
  An escaping scheme writes one source unit as a run of output units; a reader takes one
  source unit off the front of an output. The law is all the strings below need.
\<close>

fun decode_all :: "('b list \<Rightarrow> ('a \<times> 'b list) option) \<Rightarrow> nat \<Rightarrow> 'b list \<Rightarrow> 'a list option" where
  "decode_all dec n [] = Some []"
| "decode_all dec 0 (b # bs) = None"
| "decode_all dec (Suc n) (b # bs) =
     (case dec (b # bs) of
        None \<Rightarrow> None
      | Some (a, rest) \<Rightarrow> map_option ((#) a) (decode_all dec n rest))"

text \<open>
  A writer with room for \<open>room\<close> units stops at the first source unit whose run would
  not fit: \<open>fit_prefix\<close> is the part of the source it writes out.
\<close>

fun fit_prefix :: "('a \<Rightarrow> 'b list) \<Rightarrow> nat \<Rightarrow> 'a list \<Rightarrow> 'a list" where
  "fit_prefix enc room [] = []"
| "fit_prefix enc room (a # as) =
     (if length (enc a) \<le> room then a # fit_prefix enc (room - length (enc a)) as else [])"

locale text_codec =
  fixes enc :: "'a \<Rightarrow> 'b list"
    and dec :: "'b list \<Rightarrow> ('a \<times> 'b list) option"
  assumes dec_enc: "dec (enc a @ rest) = Some (a, rest)"
    and enc_nonempty: "enc a \<noteq> []"
begin

definition encode :: "'a list \<Rightarrow> 'b list" where
  "encode as = concat (map enc as)"

lemma encode_Nil: "encode [] = []"
  by (simp add: encode_def)

lemma encode_Cons: "encode (a # as) = enc a @ encode as"
  by (simp add: encode_def)

lemma encode_length_ge: "length as \<le> length (encode as)"
proof (induction as)
  case Nil
  then show ?case by simp
next
  case (Cons a as)
  have "1 \<le> length (enc a)" using enc_nonempty [of a] by (cases "enc a") auto
  with Cons show ?case by (simp add: encode_Cons)
qed

lemma decode_encode: "length as \<le> n \<Longrightarrow> decode_all dec n (encode as) = Some as"
proof (induction as arbitrary: n)
  case Nil
  then show ?case by (simp add: encode_Nil)
next
  case (Cons a as)
  then obtain m where m: "n = Suc m" "length as \<le> m" by (cases n) auto
  obtain b bs where b: "enc a = b # bs" using enc_nonempty [of a] by (cases "enc a") auto
  have "dec (b # bs @ encode as) = Some (a, encode as)"
    using dec_enc [of a "encode as"] by (simp add: b)
  with Cons.IH [OF m(2)] m(1) show ?case by (simp add: encode_Cons b)
qed

lemma encode_inj:
  assumes "encode as = encode bs"
  shows "as = bs"
proof -
  have "decode_all dec (length as + length bs) (encode as) = Some as"
    and "decode_all dec (length as + length bs) (encode bs) = Some bs"
    by (simp_all add: decode_encode)
  then show ?thesis unfolding assms by (metis option.inject)
qed

lemma fit_prefix_length: "length (encode (fit_prefix enc room as)) \<le> room"
proof (induction as arbitrary: room)
  case Nil
  then show ?case by (simp add: encode_Nil)
next
  case (Cons a as)
  show ?case
  proof (cases "length (enc a) \<le> room")
    case True
    with Cons.IH [of "room - length (enc a)"] show ?thesis
      by (simp add: encode_Cons)
  qed (simp add: encode_Nil)
qed

lemma fit_prefix_prefix: "\<exists>rest. as = fit_prefix enc room as @ rest"
  by (induction as arbitrary: room) auto

lemma fit_prefix_all: "length (encode as) \<le> room \<Longrightarrow> fit_prefix enc room as = as"
  by (induction as arbitrary: room) (auto simp: encode_Cons)

text \<open>A truncated output never ends inside an escape: it reads back as a prefix.\<close>

lemma decode_fit_prefix:
  "decode_all dec (length as) (encode (fit_prefix enc room as)) = Some (fit_prefix enc room as)"
proof -
  obtain rest where "as = fit_prefix enc room as @ rest" using fit_prefix_prefix by blast
  then have "length (fit_prefix enc room as) \<le> length as" by (metis length_append le_add1)
  then show ?thesis by (rule decode_encode)
qed

end

end
