(* ===== verification/Str_Numbers.thy ===== *)
theory Str_Numbers
imports Odbc_Prelude
begin

text \<open>
  Numbers in text: \<open>wstr2bool\<close>, \<open>str2ubigint\<close>, \<open>str2bigint\<close>, \<open>i64tot\<close> and \<open>ui64tot\<close> of
  driver/util.c, with the case-insensitive comparison they and the DSN code use.
\<close>

section \<open>Comparison\<close>

text \<open>\<open>towlower\<close> in the C locale, which the driver never leaves.\<close>

definition towlower :: "sqlwchar \<Rightarrow> sqlwchar" where
  "towlower c = (if 65 \<le> c \<and> c \<le> 90 then c + 32 else c)"

text \<open>\<open>None\<close> is a read past the end of either object.\<close>

fun wmemncasecmp :: "wstr \<Rightarrow> wstr \<Rightarrow> nat \<Rightarrow> int option" where
  "wmemncasecmp a b 0 = Some 0"
| "wmemncasecmp (x # a) (y # b) (Suc len) =
     (let diff = uint (towlower x) - uint (towlower y)
      in if diff \<noteq> 0 then Some diff else wmemncasecmp a b len)"
| "wmemncasecmp _ _ (Suc len) = None"

definition EQ_CASE_WSTR :: "wstr \<Rightarrow> wstr \<Rightarrow> bool" where
  "EQ_CASE_WSTR s1 s2 \<longleftrightarrow>
     length s1 = length s2 \<and> wmemncasecmp s1 s2 (length s1) = Some 0"

definition EQ_WSTR :: "wstr \<Rightarrow> wstr \<Rightarrow> bool" where
  "EQ_WSTR s1 s2 \<longleftrightarrow> length s1 = length s2 \<and> s1 = s2"

definition wstr2bool :: "wstr \<Rightarrow> bool" where
  "wstr2bool val =
     (if length val = 0 then False
      else if length val = 1 then \<not> EQ_CASE_WSTR val (wlit ''0'')
      else if length val = 2 then \<not> EQ_CASE_WSTR val (wlit ''no'')
      else if length val = 3 then \<not> EQ_CASE_WSTR val (wlit ''off'')
      else if length val = 5 then \<not> EQ_CASE_WSTR val (wlit ''false'')
      else True)"

lemma wmemncasecmp_eq_0:
  "length a = length b \<Longrightarrow>
   (wmemncasecmp a b (length a) = Some 0) = (map towlower a = map towlower b)"
  by (induction a b rule: list_induct2) (auto simp: Let_def uint_word_of_int_eq
      dest: word_uint_eqI)

lemma EQ_CASE_WSTR_iff: "EQ_CASE_WSTR a b \<longleftrightarrow> map towlower a = map towlower b"
  unfolding EQ_CASE_WSTR_def using wmemncasecmp_eq_0 map_eq_imp_length_eq by metis

lemma EQ_CASE_WSTR_refl [simp]: "EQ_CASE_WSTR a a"
  by (simp add: EQ_CASE_WSTR_iff)

lemma EQ_WSTR_iff [simp]: "EQ_WSTR a b \<longleftrightarrow> a = b"
  by (auto simp: EQ_WSTR_def)

text \<open>
  \<open>wmemncasecmp\<close> never reads past objects that hold \<open>len\<close> units, and tells
  apart exactly the strings that differ after folding.
\<close>

lemma wmemncasecmp_in_bounds:
  "len \<le> length a \<Longrightarrow> len \<le> length b \<Longrightarrow> wmemncasecmp a b len \<noteq> None"
  by (induction a b len rule: wmemncasecmp.induct) (auto simp: Let_def)

section \<open>Decimal values\<close>

definition dec_from :: "nat \<Rightarrow> nat list \<Rightarrow> nat" where
  "dec_from v ds = foldl (\<lambda>v d. 10 * v + d) v ds"

lemma dec_from_Nil [simp]: "dec_from v [] = v"
  and dec_from_Cons [simp]: "dec_from v (d # ds) = dec_from (10 * v + d) ds"
  and dec_from_snoc [simp]: "dec_from v (ds @ [d]) = 10 * dec_from v ds + d"
  by (simp_all add: dec_from_def)

lemma dec_from_ge: "v \<le> dec_from v ds"
proof (induction ds arbitrary: v)
  case Nil
  then show ?case by simp
next
  case (Cons d ds)
  have "v \<le> 10 * v + d" by simp
  also have "\<dots> \<le> dec_from (10 * v + d) ds" by (rule Cons.IH)
  finally show ?case by simp
qed

text \<open>The digits the C runtime's radix-10 conversions print, most significant first.\<close>

fun dec_digits :: "nat \<Rightarrow> nat list" where
  "dec_digits n = (if n < 10 then [n] else dec_digits (n div 10) @ [n mod 10])"

declare dec_digits.simps [simp del]

lemma dec_digits_value: "dec_from 0 (dec_digits n) = n"
proof (induction n rule: dec_digits.induct)
  case (1 n)
  then show ?case by (cases "n < 10") (simp_all add: dec_digits.simps [of n])
qed

lemma dec_digits_small: "d \<in> set (dec_digits n) \<Longrightarrow> d < 10"
proof (induction n rule: dec_digits.induct)
  case (1 n)
  then show ?case by (cases "n < 10") (auto simp: dec_digits.simps [of n])
qed

lemma dec_digits_nonempty [simp]: "dec_digits n \<noteq> []"
  by (subst dec_digits.simps) simp

section \<open>Parsing\<close>

definition ULLONG_MAX :: u64 where "ULLONG_MAX = 18446744073709551615"
definition ESODBC_PRECISION_UINT64 :: nat where "ESODBC_PRECISION_UINT64 = 20"

text \<open>
  The scanning loop, over the units that are left, with the code's loop variables
  \<open>i\<close>, \<open>digit\<close> and \<open>res\<close>. The difference \<open>wstr[i] - L'0'\<close> is an \<open>int\<close> and
  turns into a huge unsigned value when negative.
\<close>

fun str2ubigint_loop ::
    "bool \<Rightarrow> nat list \<Rightarrow> nat \<Rightarrow> u64 \<Rightarrow> u64 \<Rightarrow> c_errno + nat \<times> u64 \<times> u64" where
  "str2ubigint_loop strict [] i digit res = Inr (i, digit, res)"
| "str2ubigint_loop strict (c # cs) i digit res =
     (let digit = of_int (int c - 48) :: u64 in
      if digit < 0 \<or> 9 < digit then
        (if strict then Inl EINVAL else Inr (i, digit, res))
      else if i < ESODBC_PRECISION_UINT64 - 1 then
        str2ubigint_loop strict cs (Suc i) digit (res * 10 + digit)
      else if ULLONG_MAX div 10 < res then Inl ERANGE
      else let res = res * 10 in
        if ULLONG_MAX - res < digit then Inl ERANGE
        else str2ubigint_loop strict cs (Suc i) digit (res + digit))"

definition str2ubigint :: "xstr \<Rightarrow> bool \<Rightarrow> c_errno + nat \<times> u64" where
  "str2ubigint val strict =
     (case units val of
        [] \<Rightarrow> Inl EINVAL
      | c # _ \<Rightarrow>
          let digit = of_nat c :: u64;
              i = (if digit = 43 then 1 else 0)
          in case str2ubigint_loop strict (drop i (units val)) i digit 0 of
               Inl e \<Rightarrow> Inl e
             | Inr (i, digit, res) \<Rightarrow>
                 if length (units val) \<le> 1 \<and> digit = 43 then Inl ENONE
                 else Inr (i, res))"

text \<open>
  The signed variant: sign, then the unsigned scan of what follows it. The result word is
  read as two's complement; negating the magnitude \<open>2\<^sup>6\<^sup>3\<close> wraps to \<open>LLONG_MIN\<close>.
\<close>

definition str2bigint :: "xstr \<Rightarrow> bool \<Rightarrow> c_errno + nat \<times> u64" where
  "str2bigint val strict =
     (case units val of
        [] \<Rightarrow> Inl EINVAL
      | c # _ \<Rightarrow>
          let (negative, i) =
                (if c = 45 then (True, 1) else if c = 43 then (False, 1) else (False, 0))
          in case str2ubigint (xdrop i val) strict of
               Inl e \<Rightarrow> Inl e
             | Inr (ret, ull) \<Rightarrow>
                 if ret = 0 \<and> i \<noteq> 0 then Inl ENONE
                 else if negative then
                   (if 9223372036854775808 < ull then Inl ERANGE else Inr (ret + i, - ull))
                 else
                   (if 9223372036854775807 < ull then Inl ERANGE else Inr (ret + i, ull)))"

section \<open>Printing\<close>

text \<open>
  \<open>_ui64tow\<close>, \<open>_ui64toa\<close>, \<open>_i64tow\<close> and \<open>_i64toa\<close> with radix 10, returning the units
  before the terminator; their number is what the driver's functions return.
\<close>

definition mk_xstr :: "bool \<Rightarrow> nat list \<Rightarrow> xstr" where
  "mk_xstr wide us = (if wide then WStr (map of_nat us) else CStr (map of_nat us))"

definition ui64tot :: "u64 \<Rightarrow> bool \<Rightarrow> xstr" where
  "ui64tot n wide = mk_xstr wide (map ((+) 48) (dec_digits (unat n)))"

definition i64tot :: "u64 \<Rightarrow> bool \<Rightarrow> xstr" where
  "i64tot n wide =
     mk_xstr wide
       (if sint n < 0 then 45 # map ((+) 48) (dec_digits (nat (- sint n)))
        else map ((+) 48) (dec_digits (nat (sint n))))"

lemma units_mk_xstr:
  assumes "\<And>u. u \<in> set us \<Longrightarrow> u < 256"
  shows "units (mk_xstr wide us) = us"
proof -
  have "unat (of_nat u :: 16 word) = u" "unat (of_nat u :: 8 word) = u" if "u \<in> set us" for u
    using assms [OF that] by (simp_all add: unat_of_nat)
  then show ?thesis by (auto simp: mk_xstr_def intro!: map_idI)
qed

section \<open>Correctness of the scan\<close>

lemma digit_word: "d < 10 \<Longrightarrow> (of_int (int (48 + d) - 48) :: u64) = of_nat d"
  by simp

lemma u64_of_nat_less:
  "a < 2 ^ 64 \<Longrightarrow> b < 2 ^ 64 \<Longrightarrow> ((of_nat a :: u64) < of_nat b) = (a < b)"
  by (simp add: word_less_nat_alt unat_of_nat)

lemma u64_of_nat_eq:
  assumes "a < 2 ^ 64" "b < 2 ^ 64"
  shows "((of_nat a :: u64) = of_nat b) = (a = b)"
proof -
  have "unat (of_nat a :: u64) = a" "unat (of_nat b :: u64) = b"
    using assms by (simp_all add: unat_of_nat)
  then show ?thesis by metis
qed

lemma digit_not_rejected: "d < 10 \<Longrightarrow> \<not> ((of_nat d :: u64) < 0 \<or> 9 < (of_nat d :: u64))"
  using u64_of_nat_less [of 9 d] by simp

text \<open>A unit that is not a digit is rejected, whatever its position.\<close>

lemma nondigit_rejected:
  assumes "c < 2 ^ 16" and "c < 48 \<or> 57 < c"
  shows "9 < (of_int (int c - 48) :: u64)"
proof (cases "c < 48")
  case True
  have "int (2 ^ 64 + c - 48) = int c - 48 + 2 ^ 64" using True by simp
  then have "(of_nat (2 ^ 64 + c - 48) :: u64) = of_int (int c - 48 + 2 ^ 64)"
    by (metis of_int_of_nat_eq)
  also have "\<dots> = of_int (int c - 48)" by simp
  finally have eq: "(of_int (int c - 48) :: u64) = of_nat (2 ^ 64 + c - 48)" by (rule sym)
  have "(9::nat) < 2 ^ 64 + c - 48" "2 ^ 64 + c - 48 < (2::nat) ^ 64" using True by simp_all
  then have "(of_nat 9 :: u64) < of_nat (2 ^ 64 + c - 48)"
    by (subst u64_of_nat_less) simp_all
  then show ?thesis unfolding eq by simp
next
  case False
  with assms have "(of_int (int c - 48) :: u64) = of_nat (c - 48)" by (simp add: of_nat_diff)
  moreover have "9 < c - 48" "c - 48 < 2 ^ 64" using assms False by simp_all
  ultimately show ?thesis using u64_of_nat_less [of 9 "c - 48"] by simp
qed

declare str2ubigint_loop.simps(2) [simp del]

lemmas scan_step = str2ubigint_loop.simps(2) Let_def ESODBC_PRECISION_UINT64_def

text \<open>What the scan answers after the digits: more text stops it, or fails it when strict.\<close>

definition scan_end :: "bool \<Rightarrow> nat list \<Rightarrow> bool" where
  "scan_end strict rest \<longleftrightarrow> strict \<and> rest \<noteq> []"

definition digit_unit :: "nat \<Rightarrow> bool" where
  "digit_unit c \<longleftrightarrow> 48 \<le> c \<and> c \<le> 57"

lemma str2ubigint_loop_rest:
  assumes "\<And>c. c \<in> set rest \<Longrightarrow> c < 2 ^ 16"
    and "rest = [] \<or> \<not> digit_unit (hd rest)"
  shows "\<exists>digit'. (rest = [] \<longrightarrow> digit' = digit) \<and>
    str2ubigint_loop strict rest i digit res =
      (if scan_end strict rest then Inl EINVAL else Inr (i, digit', res))"
proof (cases rest)
  case Nil
  then show ?thesis by (simp add: scan_end_def)
next
  case (Cons c cs)
  with assms have "9 < (of_int (int c - 48) :: u64)"
    by (intro nondigit_rejected) (auto simp: digit_unit_def)
  with Cons show ?thesis by (simp add: scan_end_def scan_step)
qed

lemma step_no_overflow:
  assumes "v < 10 ^ i" and "i < 19" and "d < 10"
  shows "10 * v + d < (10::nat) ^ Suc i" and "10 * v + d < 2 ^ 64"
proof -
  show lt: "10 * v + d < (10::nat) ^ Suc i" using assms by simp
  have "(10::nat) ^ Suc i \<le> 10 ^ 19" using assms by (intro power_increasing) auto
  also have "\<dots> < 2 ^ 64" by simp
  finally show "10 * v + d < 2 ^ 64" using lt by linarith
qed

text \<open>
  The main loop fact. Below position 19 the unchecked steps cannot wrap, since the
  value read so far has at most as many digits as the position; from there on, the two
  guards let a step through exactly when its exact result fits 64 bits.
\<close>

lemma str2ubigint_loop_step:
  assumes "d < 10" and "v < 2 ^ 64" and "i \<le> 19 \<longrightarrow> v < 10 ^ i"
  shows "str2ubigint_loop strict ((48 + d) # cs) i digit (of_nat v) =
    (if 10 * v + d < 2 ^ 64
     then str2ubigint_loop strict cs (Suc i) (of_nat d) (of_nat (10 * v + d))
     else Inl ERANGE)"
proof -
  have keep: "(of_nat v * 10 + of_nat d :: u64) = of_nat (10 * v + d)" by simp
  show ?thesis
  proof (cases "i < 19")
    case True
    with assms step_no_overflow [of v i d] digit_not_rejected [OF assms(1)] show ?thesis
      by (simp add: scan_step mult.commute)
  next
    case False
    have g1: "(ULLONG_MAX div 10 < (of_nat v :: u64)) = (1844674407370955161 < v)"
      using u64_of_nat_less [of 1844674407370955161 v] assms(2)
      by (simp add: ULLONG_MAX_def word_div_def)
    show ?thesis
    proof (cases "1844674407370955161 < v")
      case True
      with False g1 digit_not_rejected [OF assms(1)] show ?thesis
        by (simp add: scan_step)
    next
      case le: False
      have sub: "ULLONG_MAX - of_nat v * 10 = (of_nat (18446744073709551615 - 10 * v) :: u64)"
        using le by (simp add: ULLONG_MAX_def of_nat_diff)
      have "(ULLONG_MAX - of_nat v * 10 < (of_nat d :: u64)) = (18446744073709551615 - 10 * v < d)"
        unfolding sub using assms(1) by (subst u64_of_nat_less) auto
      then have g2: "(ULLONG_MAX - of_nat v * 10 < (of_nat d :: u64)) = (\<not> 10 * v + d < 2 ^ 64)"
        using le by auto
      from False le g1 g2 digit_not_rejected [OF assms(1)] keep show ?thesis
        by (simp add: scan_step mult.commute)
    qed
  qed
qed

lemma str2ubigint_loop_digits:
  assumes "\<And>d. d \<in> set ds \<Longrightarrow> d < 10" and "\<And>c. c \<in> set rest \<Longrightarrow> c < 2 ^ 16"
    and "rest = [] \<or> \<not> digit_unit (hd rest)"
    and "v < 2 ^ 64" and "i \<le> 19 \<longrightarrow> v < 10 ^ i"
  shows "\<exists>digit'. (rest = [] \<longrightarrow> digit' = (if ds = [] then digit else of_nat (last ds))) \<and>
    str2ubigint_loop strict (map ((+) 48) ds @ rest) i digit (of_nat v) =
     (if dec_from v ds < 2 ^ 64
      then (if scan_end strict rest then Inl EINVAL
            else Inr (i + length ds, digit', of_nat (dec_from v ds)))
      else Inl ERANGE)"
  using assms
proof (induction ds arbitrary: v i digit)
  case Nil
  then show ?case
    using str2ubigint_loop_rest [OF Nil.prems(2,3), of digit strict i "of_nat v"]
    by (cases "scan_end strict rest") simp_all
next
  case (Cons d ds)
  show ?case
  proof (cases "10 * v + d < 2 ^ 64")
    case True
    have "Suc i \<le> 19 \<longrightarrow> 10 * v + d < 10 ^ Suc i"
      using Cons.prems step_no_overflow(1) [of v i d] by simp
    with Cons.IH [of "10 * v + d" "Suc i" "of_nat d"] Cons.prems True obtain digit' where
      "rest = [] \<longrightarrow> digit' = (if ds = [] then of_nat d else of_nat (last ds))"
      "str2ubigint_loop strict (map ((+) 48) ds @ rest) (Suc i) (of_nat d) (of_nat (10 * v + d)) =
       (if dec_from (10 * v + d) ds < 2 ^ 64
        then (if scan_end strict rest then Inl EINVAL
              else Inr (Suc i + length ds, digit', of_nat (dec_from (10 * v + d) ds)))
        else Inl ERANGE)"
      by auto
    with True Cons.prems show ?thesis
      by (intro exI [of _ digit']) (simp add: str2ubigint_loop_step del: of_nat_add of_nat_mult)
  next
    case False
    moreover have "10 * v + d \<le> dec_from (10 * v + d) ds" by (rule dec_from_ge)
    ultimately show ?thesis using Cons.prems
      by (intro exI [of _ "if ds = [] then of_nat d else of_nat (last ds)"])
        (simp add: str2ubigint_loop_step)
  qed
qed

section \<open>The conversions\<close>

text \<open>
  Any text with at least one digit, after an optional plus sign: the unsigned conversion
  answers the exact value and the number of units read, \<open>ERANGE\<close> exactly when the value
  needs more than 64 bits, and fails on trailing text only when strict.
\<close>

lemma str2ubigint_digits:
  assumes u: "units val = sign @ map ((+) 48) ds @ rest" and sign: "sign = [] \<or> sign = [43]"
    and ds: "ds \<noteq> []" "\<And>d. d \<in> set ds \<Longrightarrow> d < 10"
    and rest: "\<And>c. c \<in> set rest \<Longrightarrow> c < 2 ^ 16" "rest = [] \<or> \<not> digit_unit (hd rest)"
  shows "str2ubigint val strict =
    (if dec_from 0 ds < 2 ^ 64
     then (if scan_end strict rest then Inl EINVAL
           else Inr (length sign + length ds, of_nat (dec_from 0 ds)))
     else Inl ERANGE)"
proof -
  let ?i = "length sign"
  obtain c cs where c: "units val = c # cs" using u ds(1) by (metis append_is_Nil_conv list.exhaust map_is_Nil_conv)
  have i: "?i = (if sign = [43] then 1 else 0)" using sign by auto
  have c43: "((of_nat c :: u64) = 43) = (sign = [43])"
  proof (cases "sign = [43]")
    case True
    with c u show ?thesis by simp
  next
    case False
    with sign c u ds(1) have "c = 48 + hd ds" by (cases ds) auto
    moreover have "hd ds < 10" using ds by simp
    ultimately have "c < 2 ^ 64" "c \<noteq> 43" by simp_all
    then have "(of_nat c :: u64) \<noteq> of_nat 43" by (subst u64_of_nat_eq) simp_all
    with False show ?thesis by simp
  qed
  have dropped: "drop ?i (units val) = map ((+) 48) ds @ rest" using u by simp
  obtain digit' where d': "rest = [] \<longrightarrow> digit' = of_nat (last ds)" and
    loop: "str2ubigint_loop strict (map ((+) 48) ds @ rest) ?i (of_nat c) 0 =
      (if dec_from 0 ds < 2 ^ 64
       then (if scan_end strict rest then Inl EINVAL
             else Inr (?i + length ds, digit', of_nat (dec_from 0 ds)))
       else Inl ERANGE)"
    using str2ubigint_loop_digits [of ds rest 0 ?i "of_nat c" strict] ds rest sign by auto
  have "\<not> (length (units val) \<le> 1 \<and> digit' = 43)"
  proof
    assume a: "length (units val) \<le> 1 \<and> digit' = 43"
    with u ds(1) have "rest = []" by (cases ds) (auto simp: Suc_le_eq)
    with d' a have "(of_nat (last ds) :: u64) = 43" by simp
    moreover have "last ds < 10" using ds by simp
    ultimately show False using u64_of_nat_eq [of "last ds" 43] by simp
  qed
  with loop show ?thesis
    by (auto simp: str2ubigint_def c Let_def c43 i [symmetric] dropped [unfolded c])
qed

text \<open>Printing and reading back.\<close>

lemma units_ui64tot: "units (ui64tot n wide) = map ((+) 48) (dec_digits (unat n))"
  unfolding ui64tot_def by (rule units_mk_xstr) (auto dest: dec_digits_small)

lemma units_i64tot:
  "units (i64tot n wide) =
     (if sint n < 0 then 45 # map ((+) 48) (dec_digits (nat (- sint n)))
      else map ((+) 48) (dec_digits (nat (sint n))))"
  unfolding i64tot_def by (rule units_mk_xstr) (auto split: if_splits dest: dec_digits_small)

lemma str2ubigint_printed:
  assumes "units val = map ((+) 48) (dec_digits m)" and "m < 2 ^ 64"
  shows "str2ubigint val strict = Inr (length (dec_digits m), of_nat m)"
  using str2ubigint_digits [of val "[]" "dec_digits m" "[]" strict] assms
  by (simp add: dec_digits_value dec_digits_small scan_end_def)

lemma ui64_roundtrip:
  "str2ubigint (ui64tot n wide) strict = Inr (length (units (ui64tot n wide)), n)"
  using str2ubigint_printed [OF units_ui64tot, of n wide strict] unsigned_less [of n]
  by (simp add: units_ui64tot)

lemma sint_64_range: "- 9223372036854775808 \<le> sint (n :: u64)" "sint (n :: u64) \<le> 9223372036854775807"
  using sint_ge [of n] sint_lt [of n] by simp_all

lemma i64_roundtrip_nonneg:
  assumes "0 \<le> sint n"
  shows "str2bigint (i64tot n wide) strict = Inr (length (units (i64tot n wide)), n)"
proof -
  let ?m = "nat (sint n)"
  have m: "?m < 2 ^ 63" using sint_64_range(2) [of n] by simp
  have u: "units (i64tot n wide) = map ((+) 48) (dec_digits ?m)" using assms by (simp add: units_i64tot)
  obtain d ds where d: "dec_digits ?m = d # ds" by (metis dec_digits_nonempty neq_Nil_conv)
  then have "d < 10" using dec_digits_small [of d ?m] by simp
  have same: "xdrop 0 x = x" for x by (cases x) simp_all
  have "str2ubigint (i64tot n wide) strict = Inr (length (dec_digits ?m), of_nat ?m)"
    using str2ubigint_printed [OF u] m by simp
  moreover have "(of_nat ?m :: u64) = n" using assms by simp
  moreover have "\<not> (9223372036854775807 :: u64) < of_nat ?m"
    using u64_of_nat_less [of 9223372036854775807 ?m] m by simp
  ultimately show ?thesis using d \<open>d < 10\<close>
    by (simp add: str2bigint_def u same)
qed

lemma i64_roundtrip_neg:
  assumes "sint n < 0"
  shows "str2bigint (i64tot n wide) strict = Inr (length (units (i64tot n wide)), n)"
proof -
  let ?m = "nat (- sint n)"
  have m: "?m \<le> 2 ^ 63" using sint_64_range(1) [of n] by simp
  have u: "units (i64tot n wide) = 45 # map ((+) 48) (dec_digits ?m)" using assms by (simp add: units_i64tot)
  then have "units (xdrop 1 (i64tot n wide)) = map ((+) 48) (dec_digits ?m)" by simp
  then have "str2ubigint (xdrop 1 (i64tot n wide)) strict = Inr (length (dec_digits ?m), of_nat ?m)"
    using str2ubigint_printed m by simp
  moreover have "- (of_nat ?m :: u64) = n" using assms by simp
  moreover have "\<not> (9223372036854775808 :: u64) < of_nat ?m"
    using u64_of_nat_less [of 9223372036854775808 ?m] m by simp
  ultimately show ?thesis
    by (simp add: str2bigint_def u)
qed

section \<open>Properties\<close>

text \<open>
  C3: on any text that starts, after at most one plus sign, with a decimal digit, the
  unsigned conversion answers the exact value of the digits and the number of units it
  read; it fails with \<open>ERANGE\<close> exactly when that value does not fit 64 bits; what follows the
  digits stops the scan, and is an error only in strict mode. The unchecked arithmetic of
  the first nineteen positions never wraps.
\<close>

theorem str2ubigint_exact:
  assumes "units val = sign @ map ((+) 48) ds @ rest" and "sign = [] \<or> sign = [43]"
    and "ds \<noteq> []" and "\<forall>d \<in> set ds. d < 10"
    and "\<forall>c \<in> set rest. c < 2 ^ 16" and "rest = [] \<or> \<not> digit_unit (hd rest)"
  shows "str2ubigint val strict =
    (if dec_from 0 ds < 2 ^ 64
     then (if strict \<and> rest \<noteq> [] then Inl EINVAL
           else Inr (length sign + length ds, of_nat (dec_from 0 ds)))
     else Inl ERANGE)"
  using str2ubigint_digits [of val sign ds rest strict] assms by (simp add: scan_end_def)

theorem str2ubigint_exact_witness:
  "str2ubigint (WStr (wlit ''+18446744073709551615s'')) False =
     Inr (length ''+18446744073709551615'', 18446744073709551615) \<and>
   str2ubigint (CStr (clit ''18446744073709551616'')) True = Inl ERANGE"
  using str2ubigint_exact [of "WStr (wlit ''+18446744073709551615s'')" "[43]"
      "[1,8,4,4,6,7,4,4,0,7,3,7,0,9,5,5,1,6,1,5]" "[115]" False]
    str2ubigint_exact [of "CStr (clit ''18446744073709551616'')" "[]"
      "[1,8,4,4,6,7,4,4,0,7,3,7,0,9,5,5,1,6,1,6]" "[]" True]
  by (simp add: wlit_def clit_def digit_unit_def)

text \<open>
  C24: reading back what the driver prints returns the printed number and consumes the
  whole text, for every 64 bit value, signed (the minimum included) and unsigned, in both
  string widths and both modes.
\<close>

theorem bigint_roundtrip:
  "str2bigint (i64tot n wide) strict = Inr (length (units (i64tot n wide)), n) \<and>
   str2ubigint (ui64tot n wide) strict = Inr (length (units (ui64tot n wide)), n)"
  using i64_roundtrip_nonneg [of n wide strict] i64_roundtrip_neg [of n wide strict]
    ui64_roundtrip [of n wide strict] by linarith

text \<open>What the signed conversion accepts although it is no number: a second sign is
  swallowed by the unsigned scan, so "-+5" reads as minus five and "++5" as five in
  strict mode; and of "+a" the lenient unsigned scan reads one unit and the value zero,
  which the closing guard of \<open>str2ubigint\<close> means to prevent.
\<close>

theorem double_sign_accepted:
  "str2bigint (WStr (wlit ''-+5'')) True = Inr (3, - 5) \<and>
   str2bigint (WStr (wlit ''++5'')) True = Inr (3, 5) \<and>
   str2ubigint (WStr (wlit ''+a'')) False = Inr (1, 0)"
  by (simp add: wlit_def str2bigint_def str2ubigint_def scan_step)

end
