(* ===== verification/Str_Escape.thy ===== *)
theory Str_Escape
imports Odbc_Prelude
begin

unbundle bit_operations_syntax

text \<open>
  The two escaping routines of driver/util.c.

  \<^item> \<open>json_escape\<close> and \<open>json_escape_overlapping\<close> work on one memory block (a list of
    bytes) with source and destination given as positions in it, so that the second,
    which escapes a string into the buffer that holds it, is the same code as the first.
    Any access outside the block is \<open>None\<close>. The copy that moves the string to the end of
    its buffer is the driver's \<open>memcpy\<close>, which the Microsoft runtime implements for
    overlapping objects too (\<open>memmove\<close>); C itself leaves the overlapping case undefined.
  \<^item> \<open>metadata_id_escape\<close> escapes the pattern characters of catalog arguments.
\<close>

section \<open>JSON escaping\<close>

definition JSON_ESC_GEN_PREF :: cstr where
  "JSON_ESC_GEN_PREF = [92, 117, 48, 48]"

definition JSON_ESC_SEQ_SZ :: nat where
  "JSON_ESC_SEQ_SZ = length JSON_ESC_GEN_PREF + 2"

definition I16TOA :: "sqlchar \<Rightarrow> sqlchar" where
  "I16TOA x = (if 10 \<le> x then 65 + x - 10 else 48 + x)"

text \<open>The inner \<open>switch\<close>: the characters with a two-character escape, and its letter.\<close>

definition json_short :: "sqlchar \<Rightarrow> sqlchar option" where
  "json_short uchar =
     (if uchar = 8 then Some 98 else if uchar = 12 then Some 102
      else if uchar = 10 then Some 110 else if uchar = 13 then Some 114
      else if uchar = 9 then Some 116
      else if uchar = 34 \<or> uchar = 92 then Some uchar else None)"

fun json_escaped_len :: "cstr \<Rightarrow> nat" where
  "json_escaped_len [] = 0"
| "json_escaped_len (uchar # json) =
     (if uchar = 34 \<or> uchar = 92 \<or> uchar = 8 \<or> uchar = 12 \<or> uchar = 10 \<or> uchar = 13 \<or> uchar = 9
      then 2 else if 0x20 \<le> uchar then 1 else 6) + json_escaped_len json"

text \<open>
  The loop: \<open>src\<close> is \<open>jin + i\<close>, \<open>n\<close> the characters left, \<open>pos\<close> the write position
  in \<open>jout\<close>. Where the room is short the code ends the loop and returns \<open>pos\<close>.
\<close>

fun json_escape_loop :: "cstr \<Rightarrow> nat \<Rightarrow> nat \<Rightarrow> nat \<Rightarrow> nat \<Rightarrow> nat \<Rightarrow> (cstr \<times> nat) option" where
  "json_escape_loop mem src 0 jout outlen pos = Some (mem, pos)"
| "json_escape_loop mem src (Suc n) jout outlen pos =
     (case mem_read mem src of None \<Rightarrow> None | Some uchar \<Rightarrow>
      (case json_short uchar of
         Some c \<Rightarrow>
           if outlen \<le> pos + 1 then Some (mem, pos)
           else (case mem_write_list mem (jout + pos) [92, c] of None \<Rightarrow> None
                 | Some mem \<Rightarrow> json_escape_loop mem (Suc src) n jout outlen (pos + 2))
       | None \<Rightarrow>
           if 0x20 \<le> uchar then
             (if outlen \<le> pos then Some (mem, pos)
              else (case mem_write_list mem (jout + pos) [uchar] of None \<Rightarrow> None
                    | Some mem \<Rightarrow> json_escape_loop mem (Suc src) n jout outlen (pos + 1)))
           else
             (if outlen \<le> pos + 5 then Some (mem, pos)
              else (case mem_write_list mem (jout + pos)
                           (JSON_ESC_GEN_PREF @ [I16TOA (drop_bit 4 uchar), I16TOA (uchar AND 0xF)])
                    of None \<Rightarrow> None
                    | Some mem \<Rightarrow> json_escape_loop mem (Suc src) n jout outlen (pos + 6)))))"

definition json_escape ::
    "cstr \<Rightarrow> nat \<Rightarrow> nat \<Rightarrow> nat option \<Rightarrow> nat \<Rightarrow> (cstr \<times> nat) option" where
  "json_escape mem jin inlen jout outlen =
     (case (if inlen = 0 then mem_strlen (drop jin mem) else Some inlen) of
        None \<Rightarrow> None
      | Some inlen \<Rightarrow>
          (case jout of
             None \<Rightarrow> if jin + inlen \<le> length mem
                     then Some (mem, json_escaped_len (take inlen (drop jin mem))) else None
           | Some jout \<Rightarrow> json_escape_loop mem jin inlen jout outlen 0))"

definition json_escape_overlapping :: "cstr \<Rightarrow> nat \<Rightarrow> nat \<Rightarrow> nat \<Rightarrow> (cstr \<times> nat) option" where
  "json_escape_overlapping mem str inlen outlen =
     (if outlen < inlen \<or> length mem < str + inlen then None
      else let jin = str + (outlen - inlen) in
        case mem_write_list mem jin (take inlen (drop str mem)) of
          None \<Rightarrow> None
        | Some mem \<Rightarrow> json_escape mem jin inlen (Some str) outlen)"

subsection \<open>The escaping scheme it implements\<close>

definition json_esc1 :: "sqlchar \<Rightarrow> cstr" where
  "json_esc1 uchar =
     (case json_short uchar of
        Some c \<Rightarrow> [92, c]
      | None \<Rightarrow> if 0x20 \<le> uchar then [uchar]
                else JSON_ESC_GEN_PREF @ [I16TOA (drop_bit 4 uchar), I16TOA (uchar AND 0xF)])"

text \<open>A JSON reader's view of one character of a string (RFC 8259, bytes below 256).\<close>

definition hex_val :: "sqlchar \<Rightarrow> sqlchar" where
  "hex_val c = (if 65 \<le> c then c - 55 else c - 48)"

fun json_unesc1 :: "cstr \<Rightarrow> (sqlchar \<times> cstr) option" where
  "json_unesc1 [] = None"
| "json_unesc1 (c # rest) =
     (if c \<noteq> 92 then Some (c, rest)
      else case rest of
        [] \<Rightarrow> None
      | e # rest' \<Rightarrow>
          if e = 117 then
            (case rest' of z0 # z1 # h # l # rest'' \<Rightarrow> Some (hex_val h * 16 + hex_val l, rest'')
             | _ \<Rightarrow> None)
          else Some (if e = 98 then 8 else if e = 102 then 12 else if e = 110 then 10
                     else if e = 114 then 13 else if e = 116 then 9 else e, rest'))"

lemma hex_roundtrip:
  assumes "(c :: sqlchar) < 0x20"
  shows "hex_val (I16TOA (drop_bit 4 c)) * 16 + hex_val (I16TOA (c AND 0xF)) = c"
proof -
  have k: "unat c < 32" using assms by (simp add: word_less_nat_alt)
  have all: "\<forall>k \<in> set [0..<32]. hex_val (I16TOA (drop_bit 4 (of_nat k :: sqlchar))) * 16
      + hex_val (I16TOA (of_nat k AND 0xF)) = of_nat k"
    by code_simp
  have "unat c \<in> set [0..<32]" using k by simp
  from bspec [OF all this] show ?thesis by simp
qed

interpretation json: text_codec json_esc1 json_unesc1
proof
  fix a :: sqlchar and rest
  show "json_unesc1 (json_esc1 a @ rest) = Some (a, rest)"
    using hex_roundtrip [of a]
    by (auto simp: json_esc1_def json_short_def JSON_ESC_GEN_PREF_def not_le)
  show "json_esc1 a \<noteq> []"
    by (simp add: json_esc1_def JSON_ESC_GEN_PREF_def split: option.split)
qed

lemma length_json_esc1:
  "length (json_esc1 c) =
     (if c = 34 \<or> c = 92 \<or> c = 8 \<or> c = 12 \<or> c = 10 \<or> c = 13 \<or> c = 9
      then 2 else if 0x20 \<le> c then 1 else 6)"
  by (simp add: json_esc1_def json_short_def JSON_ESC_GEN_PREF_def)

lemma json_escaped_len_eq: "json_escaped_len cs = length (json.encode cs)"
  by (induction cs) (simp_all add: json.encode_Nil json.encode_Cons length_json_esc1)

subsection \<open>One step of the loop\<close>

lemma json_escape_loop_Suc:
  "json_escape_loop mem src (Suc n) jout outlen pos =
     (case mem_read mem src of None \<Rightarrow> None | Some uchar \<Rightarrow>
        if outlen < pos + length (json_esc1 uchar) then Some (mem, pos)
        else case mem_write_list mem (jout + pos) (json_esc1 uchar) of None \<Rightarrow> None
             | Some mem \<Rightarrow> json_escape_loop mem (Suc src) n jout outlen (pos + length (json_esc1 uchar)))"
  by (auto simp: json_esc1_def JSON_ESC_GEN_PREF_def eval_nat_numeral simp del: mem_write_list.simps
      split: option.split)

declare json_escape_loop.simps(2) [simp del]

text \<open>
  The reader stays ahead of the writer: for every part of the source that gets written,
  its escapes end at or before the first unread character.
\<close>

definition json_ahead :: "nat \<Rightarrow> nat \<Rightarrow> nat \<Rightarrow> cstr \<Rightarrow> nat \<Rightarrow> bool" where
  "json_ahead src w room cs n \<longleftrightarrow>
     (\<forall>k \<le> length (fit_prefix json_esc1 room cs). w + length (json.encode (take k cs)) \<le> src + k)"

lemma json_ahead_step:
  assumes "json_ahead src w room (c # cs) (Suc n)" and "length (json_esc1 c) \<le> room"
  shows "w + length (json_esc1 c) \<le> Suc src"
    and "json_ahead (Suc src) (w + length (json_esc1 c)) (room - length (json_esc1 c)) cs n"
proof -
  have fits: "fit_prefix json_esc1 room (c # cs) =
      c # fit_prefix json_esc1 (room - length (json_esc1 c)) cs"
    using assms(2) by simp
  have ahead: "w + (length (json_esc1 c) + length (json.encode (take k cs))) \<le> src + Suc k"
    if "k \<le> length (fit_prefix json_esc1 (room - length (json_esc1 c)) cs)" for k
  proof -
    have "Suc k \<le> length (fit_prefix json_esc1 room (c # cs))" using that fits by simp
    with assms(1) have "w + length (json.encode (take (Suc k) (c # cs))) \<le> src + Suc k"
      unfolding json_ahead_def by blast
    then show ?thesis by (simp add: json.encode_Cons)
  qed
  show "w + length (json_esc1 c) \<le> Suc src"
    using ahead [of 0] by (simp add: json.encode_Nil)
  show "json_ahead (Suc src) (w + length (json_esc1 c)) (room - length (json_esc1 c)) cs n"
    unfolding json_ahead_def using ahead by (simp add: add.assoc)
qed

lemma drop_after_write:
  "a + length e \<le> p \<Longrightarrow> a + length e \<le> length mem \<Longrightarrow>
   drop p (take a mem @ e @ drop (a + length e) mem) = drop p mem"
  by simp

lemma take_drop_before_write:
  "p + n \<le> a \<Longrightarrow> a \<le> length mem \<Longrightarrow>
   take n (drop p (take a mem @ e @ rest)) = take n (drop p mem)"
  by (simp add: take_drop)

lemma json_escape_loop_correct:
  assumes "src + n \<le> length mem" and "jout + outlen \<le> length mem" and "pos \<le> outlen"
    and "cs = take n (drop src mem)"
    and "src + n \<le> jout \<or> json_ahead src (jout + pos) (outlen - pos) cs n"
  shows "json_escape_loop mem src n jout outlen pos =
    (let out = json.encode (fit_prefix json_esc1 (outlen - pos) cs)
     in Some (take (jout + pos) mem @ out @ drop (jout + pos + length out) mem, pos + length out))"
  using assms
proof (induction n arbitrary: mem src pos cs)
  case 0
  then show ?case by (simp add: json.encode_Nil)
next
  case (Suc n)
  define c where "c = mem ! src"
  define rs where "rs = take n (drop (Suc src) mem)"
  have cs: "cs = c # rs" and rd: "mem_read mem src = Some c"
    using Suc.prems by (simp_all add: c_def rs_def mem_read_def Cons_nth_drop_Suc [symmetric])
  let ?e = "json_esc1 c" and ?w = "jout + pos"
  show ?case
  proof (cases "pos + length ?e \<le> outlen")
    case False
    then have "\<not> length ?e \<le> outlen - pos" using Suc.prems(3) by linarith
    with False show ?thesis by (simp add: json_escape_loop_Suc rd cs json.encode_Nil)
  next
    case True
    then have fits: "length ?e \<le> outlen - pos" by simp
    define mem' where "mem' = take ?w mem @ ?e @ drop (?w + length ?e) mem"
    have w: "?w + length ?e \<le> length mem" using True Suc.prems by simp
    have len: "length mem' = length mem" using w by (simp add: mem'_def)
    have read_on: "rs = take n (drop (Suc src) mem')
      \<and> (Suc src + n \<le> jout \<or> json_ahead (Suc src) (jout + (pos + length ?e)) (outlen - (pos + length ?e)) rs n)"
    proof (cases "src + Suc n \<le> jout")
      case before: True
      then have "take n (drop (Suc src) mem') = rs"
        unfolding mem'_def rs_def using w by (intro take_drop_before_write) auto
      with before show ?thesis by simp
    next
      case False
      then have "json_ahead src ?w (outlen - pos) (c # rs) (Suc n)" using Suc.prems cs by simp
      moreover have "length ?e \<le> outlen - pos" using True by simp
      ultimately have 1: "?w + length ?e \<le> Suc src"
        and 2: "json_ahead (Suc src) (?w + length ?e) (outlen - pos - length ?e) rs n"
        by (rule json_ahead_step)+
      have "drop (Suc src) mem' = drop (Suc src) mem"
        unfolding mem'_def using 1 w by (rule drop_after_write)
      with 2 show ?thesis by (simp add: rs_def add.assoc)
    qed
    have "json_escape_loop mem src (Suc n) jout outlen pos =
        json_escape_loop mem' (Suc src) n jout outlen (pos + length ?e)"
      using True w by (simp add: json_escape_loop_Suc rd mem_write_list_fits mem'_def)
    also have "\<dots> = (let out = json.encode (fit_prefix json_esc1 (outlen - (pos + length ?e)) rs)
       in Some (take (jout + (pos + length ?e)) mem' @ out @ drop (jout + (pos + length ?e) + length out) mem',
                pos + length ?e + length out))"
      by (rule Suc.IH) (use Suc.prems True len read_on in auto)
    also have "\<dots> = (let out = json.encode (fit_prefix json_esc1 (outlen - pos) cs)
       in Some (take ?w mem @ out @ drop (?w + length out) mem, pos + length out))"
      using True w fits by (simp add: Let_def cs json.encode_Cons mem'_def ac_simps)
    finally show ?thesis .
  qed
qed

subsection \<open>Disjoint and overlapping buffers\<close>

lemma json_ahead_disjoint:
  assumes "w + room \<le> src"
  shows "json_ahead src w room cs n"
  unfolding json_ahead_def
proof (intro allI impI)
  fix k assume k: "k \<le> length (fit_prefix json_esc1 room cs)"
  obtain rest where "cs = fit_prefix json_esc1 room cs @ rest"
    using json.fit_prefix_prefix by blast
  then have "take k cs = take k (fit_prefix json_esc1 room cs)"
    using k by (metis take_append diff_is_0_eq take_eq_Nil append_Nil2)
  moreover have "length (json.encode (take k xs)) \<le> length (json.encode xs)" for xs
    by (metis append_take_drop_id concat_append json.encode_def le_add1 length_append map_append)
  ultimately have "length (json.encode (take k cs)) \<le> room"
    using json.fit_prefix_length [of room cs] by (metis le_trans)
  with assms show "w + length (json.encode (take k cs)) \<le> src + k" by linarith
qed

text \<open>A source moved to the end of a buffer that can hold its escapes stays ahead.\<close>

lemma json_ahead_end:
  assumes "length (json.encode cs) \<le> outlen" and "length cs = n"
  shows "json_ahead (str + (outlen - n)) str outlen cs n"
  unfolding json_ahead_def
proof (intro allI impI)
  fix k assume "k \<le> length (fit_prefix json_esc1 outlen cs)"
  then have k: "k \<le> n" using json.fit_prefix_all [OF assms(1)] assms(2) by simp
  have "json.encode cs = json.encode (take k cs) @ json.encode (drop k cs)"
    by (metis append_take_drop_id concat_append json.encode_def map_append)
  moreover have "n - k \<le> length (json.encode (drop k cs))"
    using json.encode_length_ge [of "drop k cs"] assms(2) by simp
  ultimately show "str + length (json.encode (take k cs)) \<le> str + (outlen - n) + k"
    using assms k by simp
qed

lemma json_escape_buffer:
  assumes "0 < inlen" and "jin + inlen \<le> length mem" and "jout + outlen \<le> length mem"
    and "jin + inlen \<le> jout \<or> json_ahead jin jout outlen (take inlen (drop jin mem)) inlen"
  shows "json_escape mem jin inlen (Some jout) outlen =
    (let out = json.encode (fit_prefix json_esc1 outlen (take inlen (drop jin mem)))
     in Some (take jout mem @ out @ drop (jout + length out) mem, length out))"
  using json_escape_loop_correct [of jin inlen mem jout outlen 0] assms
  by (simp add: json_escape_def)

lemma json_escaped_len_bound: "json_escaped_len cs \<le> JSON_ESC_SEQ_SZ * length cs"
  by (induction cs) (auto simp: JSON_ESC_SEQ_SZ_def JSON_ESC_GEN_PREF_def)

lemma json_overlapping_result:
  assumes "0 < inlen" and "str + outlen \<le> length mem"
    and "json_escaped_len (take inlen (drop str mem)) \<le> outlen"
    and "inlen \<le> outlen"
  shows "\<exists>tl. json_escape_overlapping mem str inlen outlen =
     Some (take str mem @ json.encode (take inlen (drop str mem)) @ tl,
           json_escaped_len (take inlen (drop str mem))) \<and>
     drop (str + outlen) mem = drop (outlen - json_escaped_len (take inlen (drop str mem))) tl \<and>
     length tl + json_escaped_len (take inlen (drop str mem)) + str = length mem"
proof -
  define cs where "cs = take inlen (drop str mem)"
  let ?jin = "str + (outlen - inlen)"
  have cs: "length cs = inlen" "length (json.encode cs) \<le> outlen"
    using assms by (simp_all add: cs_def json_escaped_len_eq)
  define mem' where "mem' = take ?jin mem @ cs @ drop (?jin + inlen) mem"
  have moved: "mem_write_list mem ?jin cs = Some mem'"
    using assms cs mem_write_list_fits [of ?jin cs mem] by (simp add: mem'_def)
  have len: "length mem' = length mem" and src: "take inlen (drop ?jin mem') = cs"
    using assms cs by (simp_all add: mem'_def)
  have "json_escape mem' ?jin inlen (Some str) outlen =
      Some (take str mem' @ json.encode cs @ drop (str + length (json.encode cs)) mem',
            length (json.encode cs))"
    using json_escape_buffer [of inlen ?jin mem' str outlen] json_ahead_end [OF cs(2,1), of str]
      json.fit_prefix_all [OF cs(2)] assms len src by (simp add: Let_def)
  moreover have "take str mem' = take str mem" using assms by (simp add: mem'_def)
  moreover have "drop (str + outlen) mem' = drop (str + outlen) mem"
    using assms cs by (simp add: mem'_def)
  ultimately show ?thesis
    using assms moved cs(2) len
    by (intro exI [of _ "drop (str + length (json.encode cs)) mem'"])
      (simp add: json_escape_overlapping_def json_escaped_len_eq add.commute flip: cs_def)
qed

section \<open>Catalog pattern escaping\<close>

definition is_meta_char :: "sqlwchar \<Rightarrow> bool" where
  "is_meta_char c \<longleftrightarrow> c = 37 \<or> c = 95 \<or> c = 92"

text \<open>
  The loop of \<open>metadata_id_escape\<close> over the units from \<open>src->str[i]\<close> to the terminator
  included; \<open>out\<close> is what \<open>dst->str\<close> holds up to \<open>j\<close>. \<open>None\<close> is the early return.
\<close>

fun metadata_id_escape_loop ::
    "bool \<Rightarrow> nat \<Rightarrow> sqlwchar \<Rightarrow> wstr \<Rightarrow> wstr \<Rightarrow> bool \<Rightarrow> (wstr \<times> bool) option" where
  "metadata_id_escape_loop force cnt prev [] out ret = Some (out, ret)"
| "metadata_id_escape_loop force cnt prev (crr # src) out ret =
     (if is_meta_char crr then
        (if (prev = 92 \<or> cnt = 1) \<and> \<not> force then None
         else metadata_id_escape_loop force cnt crr src (out @ [92, crr]) True)
      else metadata_id_escape_loop force cnt crr src (out @ [crr]) ret)"

text \<open>\<open>nul\<close> is the unit at \<open>src->str[src->cnt]\<close>; the result is \<open>dst\<close> and the return value.\<close>

definition metadata_id_escape :: "wstr \<Rightarrow> sqlwchar \<Rightarrow> bool \<Rightarrow> wstr \<times> bool" where
  "metadata_id_escape src nul force =
     (case metadata_id_escape_loop force (length src) 0 (src @ [nul]) [] False of
        None \<Rightarrow> (src, False)
      | Some (out, ret) \<Rightarrow> (take (if 0 < length out then length out - 1 else 0) out, ret))"

definition meta_esc1 :: "sqlwchar \<Rightarrow> wstr" where
  "meta_esc1 c = (if is_meta_char c then [92, c] else [c])"

fun meta_unesc1 :: "wstr \<Rightarrow> (sqlwchar \<times> wstr) option" where
  "meta_unesc1 [] = None"
| "meta_unesc1 (c # rest) =
     (if c = 92 then (case rest of [] \<Rightarrow> None | e # rest' \<Rightarrow> Some (e, rest')) else Some (c, rest))"

lemma meta_esc1_special [simp]: "is_meta_char c \<Longrightarrow> meta_esc1 c = [92, c]"
  and meta_esc1_plain [simp]: "\<not> is_meta_char c \<Longrightarrow> meta_esc1 c = [c]"
  by (simp_all add: meta_esc1_def)

interpretation meta: text_codec meta_esc1 meta_unesc1
  by unfold_locales (auto simp: meta_esc1_def is_meta_char_def)

text \<open>An escape already present: an escape character right before a special one.\<close>

fun pre_escaped :: "sqlwchar \<Rightarrow> wstr \<Rightarrow> bool" where
  "pre_escaped prev [] \<longleftrightarrow> False"
| "pre_escaped prev (c # cs) \<longleftrightarrow> (prev = 92 \<and> is_meta_char c) \<or> pre_escaped c cs"

lemma metadata_id_escape_loop_eq:
  "metadata_id_escape_loop force cnt prev cs out ret =
     (if \<not> force \<and> (pre_escaped prev cs \<or> cnt = 1 \<and> (\<exists>c \<in> set cs. is_meta_char c)) then None
      else Some (out @ meta.encode cs, ret \<or> (\<exists>c \<in> set cs. is_meta_char c)))"
  by (induction force cnt prev cs out ret rule: metadata_id_escape_loop.induct)
    (auto simp: meta.encode_Nil meta.encode_Cons)

lemma meta_encode_snoc: "meta.encode (cs @ [c]) = meta.encode cs @ meta_esc1 c"
  by (simp add: meta.encode_def)

lemma pre_escaped_snoc_nul: "pre_escaped prev (cs @ [0]) = pre_escaped prev cs"
  by (induction cs arbitrary: prev) (auto simp: is_meta_char_def)

lemma metadata_id_escape_eq:
  "metadata_id_escape src 0 force =
     (if \<not> force \<and> (pre_escaped 0 src \<or> length src = 1 \<and> (\<exists>c \<in> set src. is_meta_char c))
      then (src, False) else (meta.encode src, \<exists>c \<in> set src. is_meta_char c))"
proof -
  have "\<not> is_meta_char 0" "meta_esc1 0 = [0]" by (simp_all add: is_meta_char_def meta_esc1_def)
  then show ?thesis
    by (auto simp: metadata_id_escape_def metadata_id_escape_loop_eq pre_escaped_snoc_nul
        meta_encode_snoc)
qed

lemma meta_encode_plain: "\<forall>c \<in> set cs. \<not> is_meta_char c \<Longrightarrow> meta.encode cs = cs"
  by (induction cs) (auto simp: meta.encode_Nil meta.encode_Cons)

lemma meta_encode_pre_escaped:
  "\<exists>c \<in> set cs. is_meta_char c \<Longrightarrow> pre_escaped prev (meta.encode cs)"
proof (induction cs arbitrary: prev)
  case Nil
  then show ?case by simp
next
  case (Cons c cs)
  then show ?case by (cases "is_meta_char c") (auto simp: meta.encode_Cons)
qed

section \<open>Properties\<close>

lemma json_escape_bounded_aux:
  assumes "0 < inlen" and "jin + inlen \<le> length mem" and "jout + outlen \<le> length mem"
    and "jin + inlen \<le> jout \<or> jout + outlen \<le> jin" and "cs = take inlen (drop jin mem)"
  shows "\<exists>k out. json_escape mem jin inlen (Some jout) outlen =
      Some (take jout mem @ out @ drop (jout + length out) mem, length out) \<and>
    length out \<le> outlen \<and>
    decode_all json_unesc1 inlen out = Some (take k cs) \<and>
    (json_escaped_len cs \<le> outlen \<longrightarrow> out = json.encode cs \<and> take k cs = cs)"
proof -
  define fp where "fp = fit_prefix json_esc1 outlen cs"
  obtain rest where rest: "cs = fp @ rest" using json.fit_prefix_prefix fp_def by blast
  then have tk: "take (length fp) cs = fp" and fp: "length fp \<le> inlen"
    using assms(2,5) by (simp_all, metis length_append length_take le_add1 min.bounded_iff)
  have "json_escape mem jin inlen (Some jout) outlen =
      Some (take jout mem @ json.encode fp @ drop (jout + length (json.encode fp)) mem,
            length (json.encode fp))"
    using json_escape_buffer [of inlen jin mem jout outlen]
      json_ahead_disjoint [of jout outlen jin cs inlen] assms
    by (auto simp: Let_def fp_def)
  moreover have "length (json.encode fp) \<le> outlen"
    unfolding fp_def by (rule json.fit_prefix_length)
  moreover have "decode_all json_unesc1 inlen (json.encode fp) = Some fp"
    using fp by (rule json.decode_encode)
  moreover have "json_escaped_len cs \<le> outlen \<longrightarrow> fp = cs"
    by (simp add: fp_def json_escaped_len_eq json.fit_prefix_all)
  ultimately show ?thesis using tk by (intro exI [of _ "length fp"] exI [of _ "json.encode fp"]) auto
qed

text \<open>
  C4: escaping into a separate buffer never writes outside the \<open>outlen\<close> bytes of the
  buffer nor reads outside the source, returns the number of bytes written, and what it
  writes always reads back (as JSON string content) to an initial part of the source: a
  short buffer truncates between escapes, never inside one. When the buffer holds
  \<open>json_escaped_len\<close> bytes, the whole source is written and exactly that many bytes used.
\<close>

theorem json_escape_bounded:
  assumes "0 < inlen" and "jin + inlen \<le> length mem" and "jout + outlen \<le> length mem"
    and "jin + inlen \<le> jout \<or> jout + outlen \<le> jin"
  shows "\<exists>k out. json_escape mem jin inlen (Some jout) outlen =
      Some (take jout mem @ out @ drop (jout + length out) mem, length out) \<and>
    length out \<le> outlen \<and>
    decode_all json_unesc1 inlen out = Some (take k (take inlen (drop jin mem))) \<and>
    (json_escaped_len (take inlen (drop jin mem)) \<le> outlen \<longrightarrow>
       length out = json_escaped_len (take inlen (drop jin mem)) \<and>
       decode_all json_unesc1 inlen out = Some (take inlen (drop jin mem)))"
proof -
  have "decode_all json_unesc1 inlen (json.encode (take inlen (drop jin mem))) =
      Some (take inlen (drop jin mem))"
    by (rule json.decode_encode) simp
  moreover from json_escape_bounded_aux [OF assms refl] obtain k out where
    "json_escape mem jin inlen (Some jout) outlen =
      Some (take jout mem @ out @ drop (jout + length out) mem, length out)"
    "length out \<le> outlen"
    "decode_all json_unesc1 inlen out = Some (take k (take inlen (drop jin mem)))"
    "json_escaped_len (take inlen (drop jin mem)) \<le> outlen \<longrightarrow>
      out = json.encode (take inlen (drop jin mem)) \<and>
      take k (take inlen (drop jin mem)) = take inlen (drop jin mem)"
    by blast
  ultimately show ?thesis
    by (intro exI [of _ k] exI [of _ out]) (auto simp: json_escaped_len_eq)
qed

theorem json_escape_bounded_witness:
  "\<exists>k out. json_escape (clit ''a'' @ [10] @ clit ''b....'') 0 3 (Some 3) 4 =
      Some (take 3 (clit ''a'' @ [10] @ clit ''b....'') @ out @
            drop (3 + length out) (clit ''a'' @ [10] @ clit ''b....''), length out) \<and>
    length out \<le> 4 \<and> decode_all json_unesc1 3 out = Some (take k (clit ''a'' @ [10] @ clit ''b''))"
  using json_escape_bounded [of 3 0 "clit ''a'' @ [10] @ clit ''b....''" 3 4]
  by (auto simp: clit_def)



text \<open>Escaping of catalog arguments. A forced escape can always be undone. An unforced one
  gives either the forced result or the argument unchanged (and then answers false), the
  latter exactly when the argument already has an escape in it or is a lone special
  character; hence escaping twice is the same as escaping once, so a name the driver has
  already escaped is never escaped again.
\<close>

theorem metadata_id_escape_correct:
  "decode_all meta_unesc1 (length src) (fst (metadata_id_escape src 0 True)) = Some src \<and>
   metadata_id_escape src 0 False =
     (if pre_escaped 0 src \<or> length src = 1 \<and> is_meta_char (hd src)
      then (src, False) else metadata_id_escape src 0 True) \<and>
   metadata_id_escape (fst (metadata_id_escape src 0 False)) 0 False =
     (fst (metadata_id_escape src 0 False), False)"
proof (intro conjI)
  show "decode_all meta_unesc1 (length src) (fst (metadata_id_escape src 0 True)) = Some src"
    by (simp add: metadata_id_escape_eq meta.decode_encode)
  have "length src = 1 \<Longrightarrow> (\<exists>c \<in> set src. is_meta_char c) = is_meta_char (hd src)"
    by (auto simp: length_Suc_conv)
  then show "metadata_id_escape src 0 False =
     (if pre_escaped 0 src \<or> length src = 1 \<and> is_meta_char (hd src)
      then (src, False) else metadata_id_escape src 0 True)"
    by (auto simp: metadata_id_escape_eq)
  let ?m = "\<exists>c \<in> set src. is_meta_char c"
  have "\<not> ?m \<Longrightarrow> meta.encode src = src" "?m \<Longrightarrow> pre_escaped 0 (meta.encode src)"
    by (rule meta_encode_plain, blast) (rule meta_encode_pre_escaped)
  then show "metadata_id_escape (fst (metadata_id_escape src 0 False)) 0 False =
     (fst (metadata_id_escape src 0 False), False)"
    by (cases ?m; cases "pre_escaped 0 src \<or> length src = 1") (simp_all add: metadata_id_escape_eq)
qed

end
