(* ===== verification/Str_Buffers.thy ===== *)
theory Str_Buffers
imports Odbc_Prelude
begin

text \<open>
  The string helpers of driver/util.c that work in place or copy between buffers: white
  space trimming (\<open>wltrim_ws\<close>, \<open>wrtrim_ws\<close>, \<open>trim_ws\<close>, \<open>wtrim_at\<close>), the ASCII copies
  \<open>ascii_w2c\<close> and \<open>ascii_c2w\<close>, \<open>wszmemcmp\<close>, \<open>wcsnstr\<close>, and the C library's \<open>wcsncpy\<close>
  they and the diagnostics rest on. \<open>iswspace\<close> and \<open>isspace\<close> follow the process locale
  and are arguments of the trims.
\<close>

section \<open>Trimming\<close>

fun wltrim_ws :: "(sqlwchar \<Rightarrow> bool) \<Rightarrow> wstr \<Rightarrow> wstr" where
  "wltrim_ws iswspace [] = []"
| "wltrim_ws iswspace (c # cs) = (if iswspace c then wltrim_ws iswspace cs else c # cs)"

text \<open>The right trim only lowers the count: \<open>cnt\<close> is what is left of it.\<close>

fun wrtrim_cnt :: "('c \<Rightarrow> bool) \<Rightarrow> 'c list \<Rightarrow> nat \<Rightarrow> nat" where
  "wrtrim_cnt iswspace wcrr 0 = 0"
| "wrtrim_cnt iswspace wcrr (Suc cnt) =
     (if iswspace (wcrr ! cnt) then wrtrim_cnt iswspace wcrr cnt else Suc cnt)"

definition wrtrim_ws :: "(sqlwchar \<Rightarrow> bool) \<Rightarrow> wstr \<Rightarrow> wstr" where
  "wrtrim_ws iswspace wstr = take (wrtrim_cnt iswspace wstr (length wstr)) wstr"

fun trim_ws_left :: "(sqlchar \<Rightarrow> bool) \<Rightarrow> cstr \<Rightarrow> cstr" where
  "trim_ws_left isspace [] = []"
| "trim_ws_left isspace (c # cs) = (if isspace c then trim_ws_left isspace cs else c # cs)"

definition trim_ws :: "(sqlchar \<Rightarrow> bool) \<Rightarrow> cstr \<Rightarrow> cstr" where
  "trim_ws isspace cstr =
     (let crr = trim_ws_left isspace cstr in take (wrtrim_cnt isspace crr (length crr)) crr)"

text \<open>The trimmed string and whether \<open>wchar\<close> was found; \<open>pos\<close> is the scan's position.\<close>

fun wtrim_at_loop :: "wstr \<Rightarrow> sqlwchar \<Rightarrow> nat \<Rightarrow> nat option" where
  "wtrim_at_loop [] wchar pos = None"
| "wtrim_at_loop (c # cs) wchar pos =
     (if c = wchar then Some pos else wtrim_at_loop cs wchar (Suc pos))"

definition wtrim_at :: "wstr \<Rightarrow> sqlwchar \<Rightarrow> wstr \<times> bool" where
  "wtrim_at wstr wchar =
     (case wtrim_at_loop wstr wchar 0 of
        Some pos \<Rightarrow> (take pos wstr, True) | None \<Rightarrow> (wstr, False))"

section \<open>Comparing and finding\<close>

text \<open>
  \<open>wszmemcmp\<close>: \<open>a\<close> and \<open>b\<close> are the memory from the two pointers on; \<open>None\<close> is a read
  past it.
\<close>

fun wszmemcmp :: "wstr \<Rightarrow> wstr \<Rightarrow> int \<Rightarrow> int option" where
  "wszmemcmp [] b count = None"
| "wszmemcmp (x # a) [] count = (if x = 0 \<and> count = 0 then Some 0 else None)"
| "wszmemcmp (x # a) (y # b) count =
     (if x \<noteq> 0 \<and> y \<noteq> 0 \<and> count \<noteq> 0 then
        (if uint x - uint y \<noteq> 0 then Some (uint x - uint y) else wszmemcmp a b (count - 1))
      else if count = 0 then Some 0 else Some (uint x - uint y))"

text \<open>\<open>wcsnstr\<close>: the offset of the result from \<open>hay\<close>, \<open>None\<close> for the null pointer.\<close>

fun wcsnstr :: "wstr \<Rightarrow> nat \<Rightarrow> sqlwchar \<Rightarrow> nat option" where
  "wcsnstr hay 0 needle = None"
| "wcsnstr [] (Suc len) needle = None"
| "wcsnstr (c # hay) (Suc len) needle =
     (if c = needle then Some 0 else map_option Suc (wcsnstr hay len needle))"

section \<open>Copying\<close>

text \<open>
  The common loop of \<open>ascii_w2c\<close> and \<open>ascii_c2w\<close>: \<open>bad\<close> is the range check, \<open>conv\<close> the
  cast. \<open>Inl\<close>: the early return, with the buffer as it is then; \<open>Inr\<close>: the buffer and \<open>i\<close>
  at the loop's end.
\<close>

function ascii_copy_loop ::
    "('s::zero \<Rightarrow> bool) \<Rightarrow> ('s \<Rightarrow> 'd) \<Rightarrow> 's list \<Rightarrow> 'd list \<Rightarrow> nat \<Rightarrow> nat
     \<Rightarrow> ('d list \<times> int + 'd list \<times> nat) option" where
  "ascii_copy_loop bad conv src dst chars i =
     (case mem_read src i of None \<Rightarrow> None | Some c \<Rightarrow>
      if bad c then Some (Inl (dst, - (int i + 1)))
      else (case mem_write dst i (conv c) of None \<Rightarrow> None | Some dst \<Rightarrow>
        if c \<noteq> 0 then
          (if Suc i < chars then ascii_copy_loop bad conv src dst chars (Suc i)
           else Some (Inr (dst, Suc i)))
        else Some (Inr (dst, i))))"
  by pat_completeness auto
termination by (relation "measure (\<lambda>(bad, conv, src, dst, chars, i). chars - i)") auto

declare ascii_copy_loop.simps [simp del]

definition ascii_w2c :: "wstr \<Rightarrow> cstr \<Rightarrow> nat \<Rightarrow> (cstr \<times> int) option" where
  "ascii_w2c src dst chars =
     (if chars < 1 then Some (dst, - 1)
      else (case ascii_copy_loop (\<lambda>c. 127 < c) ucast src dst chars 0 of
         None \<Rightarrow> None
       | Some (Inl r) \<Rightarrow> Some r
       | Some (Inr (dst, i)) \<Rightarrow>
           if chars \<le> i then map_option (\<lambda>dst. (dst, int i + 1)) (mem_write dst i 0)
           else Some (dst, int i + 1)))"

definition ascii_c2w :: "cstr \<Rightarrow> wstr \<Rightarrow> nat \<Rightarrow> (wstr \<times> int) option" where
  "ascii_c2w src dst chars =
     (if chars < 1 then Some (dst, - 1)
      else (case ascii_copy_loop (\<lambda>c. uint c < 0) ucast src dst chars 0 of
         None \<Rightarrow> None
       | Some (Inl r) \<Rightarrow> Some r
       | Some (Inr (dst, i)) \<Rightarrow>
           if chars \<le> i then map_option (\<lambda>dst. (dst, int i + 1)) (mem_write dst i 0)
           else Some (dst, int i + 1)))"

text \<open>
  \<open>wcsncpy\<close>: the \<open>n\<close> units it writes (the source up to its terminator, then zeros), read
  off the memory from the source pointer on.
\<close>

fun wcsncpy_units :: "wstr \<Rightarrow> nat \<Rightarrow> wstr option" where
  "wcsncpy_units src 0 = Some []"
| "wcsncpy_units [] (Suc n) = None"
| "wcsncpy_units (c # src) (Suc n) =
     (if c = 0 then Some (replicate (Suc n) 0) else map_option ((#) c) (wcsncpy_units src n))"

definition wcsncpy :: "wstr \<Rightarrow> nat \<Rightarrow> wstr \<Rightarrow> nat \<Rightarrow> wstr option" where
  "wcsncpy mem dest src n =
     (case wcsncpy_units src n of None \<Rightarrow> None | Some us \<Rightarrow> mem_write_list mem dest us)"

section \<open>Lemmas\<close>

lemma wltrim_ws_eq: "wltrim_ws f s = dropWhile f s"
  by (induction s) auto

lemma trim_ws_left_eq: "trim_ws_left f s = dropWhile f s"
  by (induction s) auto

lemma wrtrim_cnt_eq: "n \<le> length s \<Longrightarrow> take (wrtrim_cnt f s n) s = rev (dropWhile f (rev (take n s)))"
  by (induction n) (auto simp: take_Suc_conv_app_nth)

lemma wrtrim_ws_eq: "wrtrim_ws f s = rev (dropWhile f (rev s))"
  by (simp add: wrtrim_ws_def wrtrim_cnt_eq)

lemma trim_ws_eq: "trim_ws f s = rev (dropWhile f (rev (dropWhile f s)))"
  by (simp add: trim_ws_def trim_ws_left_eq wrtrim_cnt_eq)

text \<open>Dropping from both ends, in either order, leaves the stretch between the first and
  the last unit that stays.\<close>

lemma trim_both:
  "\<exists>a b. s = a @ rev (dropWhile f (rev (dropWhile f s))) @ b \<and> (\<forall>c \<in> set a \<union> set b. f c)"
proof -
  let ?l = "dropWhile f s"
  have "s = takeWhile f s @ rev (dropWhile f (rev ?l)) @ rev (takeWhile f (rev ?l))"
    by (metis rev_append rev_rev_ident takeWhile_dropWhile_id)
  moreover have "\<forall>c \<in> set (takeWhile f s) \<union> set (rev (takeWhile f (rev ?l))). f c"
    by (auto dest: set_takeWhileD)
  ultimately show ?thesis by blast
qed

lemma trim_both_ends:
  assumes "rev (dropWhile f (rev (dropWhile f s))) \<noteq> []"
  shows "\<not> f (hd (rev (dropWhile f (rev (dropWhile f s)))))"
    and "\<not> f (last (rev (dropWhile f (rev (dropWhile f s)))))"
proof -
  define l where "l = dropWhile f s"
  define r where "r = dropWhile f (rev l)"
  have r: "r \<noteq> []" using assms by (simp add: r_def l_def)
  have "\<not> f (hd r)" using hd_dropWhile [of f "rev l"] r by (simp add: r_def)
  then have "\<not> f (last (rev r))" using r by (simp add: last_rev)
  obtain pre where "rev l = pre @ r" unfolding r_def by (metis takeWhile_dropWhile_id)
  then have l: "l = rev r @ rev pre" by (metis rev_append rev_rev_ident)
  then have "l \<noteq> []" "hd l = hd (rev r)" using r by simp_all
  then have "\<not> f (hd (rev r))" using hd_dropWhile [of f s] unfolding l_def by metis
  with \<open>\<not> f (last (rev r))\<close>
  show "\<not> f (hd (rev (dropWhile f (rev (dropWhile f s)))))"
    and "\<not> f (last (rev (dropWhile f (rev (dropWhile f s)))))"
    by (simp_all add: r_def l_def)
qed

lemma trim_commute:
  "rev (dropWhile f (rev (dropWhile f s))) = dropWhile f (rev (dropWhile f (rev s)))"
proof (induction s)
  case (Cons c s)
  show ?case
  proof (cases "\<forall>x \<in> set s. f x")
    case True
    then have "dropWhile f s = []" "dropWhile f (rev s) = []" by simp_all
    then show ?thesis by (simp add: dropWhile_append del: dropWhile_eq_Nil_conv)
  next
    case False
    with Cons show ?thesis by (auto simp: dropWhile_append)
  qed
qed simp

lemma wtrim_at_loop_eq:
  "wtrim_at_loop s c pos = (if c \<in> set s then Some (pos + length (takeWhile (\<lambda>x. x \<noteq> c) s)) else None)"
  by (induction s arbitrary: pos) auto

lemma wtrim_at_eq: "wtrim_at s c = (takeWhile (\<lambda>x. x \<noteq> c) s, c \<in> set s)"
proof (cases "c \<in> set s")
  case True
  then show ?thesis
    by (simp add: wtrim_at_def wtrim_at_loop_eq) (metis takeWhile_eq_take)
next
  case False
  then have "takeWhile (\<lambda>x. x \<noteq> c) s = s" by (simp only: takeWhile_eq_all_conv) blast
  with False show ?thesis by (simp add: wtrim_at_def wtrim_at_loop_eq del: takeWhile_eq_all_conv)
qed

lemma wcsnstr_eq:
  "len \<le> length hay \<Longrightarrow> wcsnstr hay len c =
     (if c \<in> set (take len hay) then Some (length (takeWhile (\<lambda>x. x \<noteq> c) (take len hay))) else None)"
  by (induction hay len c rule: wcsnstr.induct) auto

lemma wcsncpy_units_nts:
  "0 \<notin> set s \<Longrightarrow> wcsncpy_units (s @ 0 # rest) n =
     Some (take n s @ replicate (n - length s) 0)"
proof (induction s arbitrary: n)
  case Nil
  then show ?case by (cases n) auto
next
  case (Cons c s)
  then show ?case by (cases n) auto
qed

lemma wcsncpy_units_prefix:
  "0 \<notin> set (take n s) \<Longrightarrow> n \<le> length s \<Longrightarrow> wcsncpy_units s n = Some (take n s)"
  by (induction s n rule: wcsncpy_units.induct) auto

text \<open>The copy loop on a source whose first \<open>n\<close> units pass the check and are not zero.\<close>

lemma ascii_copy_loop_prefix:
  assumes "i < n" and "n \<le> chars" and "n \<le> length src" and "n \<le> length dst"
    and "\<forall>j < n. \<not> bad (src ! j) \<and> src ! j \<noteq> 0"
  shows "ascii_copy_loop bad conv src dst chars i =
    (let dst' = take i dst @ map conv (drop i (take n src)) @ drop n dst
     in if n < chars then ascii_copy_loop bad conv src dst' chars n else Some (Inr (dst', n)))"
  using assms
proof (induction "n - i" arbitrary: i dst)
  case 0
  then show ?case by simp
next
  case (Suc k)
  have upd: "take (Suc i) (dst[i := v]) = take i dst @ [v]" for v
    using Suc.prems by (simp add: take_Suc_conv_app_nth)
  have src: "drop i (take n src) = src ! i # drop (Suc i) (take n src)"
    using Suc.prems by (simp add: Cons_nth_drop_Suc [symmetric])
  have step: "ascii_copy_loop bad conv src dst chars i =
      (if Suc i < chars then ascii_copy_loop bad conv src (dst[i := conv (src ! i)]) chars (Suc i)
       else Some (Inr (dst[i := conv (src ! i)], Suc i)))"
    using Suc.prems by (simp add: ascii_copy_loop.simps [of bad conv src dst] mem_read_def mem_write_def)
  show ?case
  proof (cases "Suc i < n")
    case True
    with Suc.prems Suc.hyps(1) [of "Suc i" "dst[i := conv (src ! i)]"] Suc.hyps(2)
    show ?thesis by (simp add: step upd src)
  next
    case False
    then have n: "n = Suc i" using Suc.prems by simp
    have "dst[i := conv (src ! i)] = take i dst @ conv (src ! i) # drop (Suc i) dst"
      using Suc.prems by (simp add: upd_conv_take_nth_drop)
    moreover have "drop i (take n src) = [src ! i]" using src n Suc.prems by simp
    ultimately show ?thesis using n Suc.prems by (simp add: step)
  qed
qed

text \<open>A terminated source, or one that fills \<open>chars\<close> units: the whole of it and a zero.\<close>

lemma ascii_copy_nts:
  assumes "0 \<notin> set s" and "\<forall>c \<in> set s. \<not> bad c" and "\<not> bad 0" and "length s < chars" and "chars \<noteq> 0"
    and "length s < length dst" and "conv 0 = 0"
  shows "ascii_copy_loop bad conv (s @ 0 # rest) dst chars 0 =
    Some (Inr (map conv s @ 0 # drop (Suc (length s)) dst, length s))"
proof -
  have stop: "ascii_copy_loop bad conv (s @ 0 # rest) d chars (length s) =
      Some (Inr (d[length s := 0], length s))" if "length s < length d" for d
    using that assms
    by (simp add: ascii_copy_loop.simps [of _ _ _ _ _ "length s"] mem_read_def mem_write_def nth_append)
  show ?thesis
  proof (cases s)
    case Nil
    with stop [of dst] assms show ?thesis by (cases dst) auto
  next
    case (Cons c s')
    have "\<forall>j < length s. \<not> bad ((s @ 0 # rest) ! j) \<and> (s @ 0 # rest) ! j \<noteq> 0"
      using assms by (auto simp: nth_append) (metis nth_mem)
    then have "ascii_copy_loop bad conv (s @ 0 # rest) dst chars 0 =
        ascii_copy_loop bad conv (s @ 0 # rest) (map conv s @ drop (length s) dst) chars (length s)"
      using ascii_copy_loop_prefix [of 0 "length s" chars "s @ 0 # rest" dst bad conv] assms Cons by simp
    also have "\<dots> = Some (Inr ((map conv s @ drop (length s) dst)[length s := 0], length s))"
      using assms by (intro stop) simp
    also have "(map conv s @ drop (length s) dst)[length s := 0] = map conv s @ 0 # drop (Suc (length s)) dst"
      using assms by (simp add: list_update_append Cons_nth_drop_Suc [symmetric])
    finally show ?thesis .
  qed
qed

lemma ascii_copy_full:
  assumes "0 \<notin> set s" and "\<forall>c \<in> set s. \<not> bad c" and "length s = chars" and "chars \<noteq> 0"
    and "chars \<le> length dst"
  shows "ascii_copy_loop bad conv (s @ rest) dst chars 0 =
    Some (Inr (map conv s @ drop chars dst, chars))"
proof -
  have "\<forall>j < chars. \<not> bad ((s @ rest) ! j) \<and> (s @ rest) ! j \<noteq> 0"
    using assms by (auto simp: nth_append) (metis nth_mem)
  then show ?thesis
    using ascii_copy_loop_prefix [of 0 chars chars "s @ rest" dst bad conv] assms by simp
qed

text \<open>A counted source with no terminator needs one more unit of room than it counts.\<close>

lemma ascii_c2w_full:
  assumes "0 \<notin> set s" and "s \<noteq> []" and "length s \<le> length dst"
  shows "ascii_c2w (s @ rest) dst (length s) =
    (if length s < length dst
     then Some (map ucast s @ 0 # drop (Suc (length s)) dst, int (length s) + 1) else None)"
proof -
  have "ascii_copy_loop (\<lambda>c. uint c < 0) ucast (s @ rest) dst (length s) 0 =
      Some (Inr (map ucast s @ drop (length s) dst, length s))"
    using assms by (intro ascii_copy_full) auto
  moreover have "drop (length s) dst = d # drop (Suc (length s)) dst"
    if "length s < length dst" "d = dst ! length s" for d
    using that by (simp add: Cons_nth_drop_Suc)
  ultimately show ?thesis
    using assms by (auto simp: ascii_c2w_def mem_write_def list_update_append Suc_le_eq)
qed

lemma ascii_c2w_nts:
  assumes "0 \<notin> set s" and "length s < chars" and "length s < length dst"
  shows "ascii_c2w (s @ 0 # rest) dst chars =
    Some (map ucast s @ 0 # drop (Suc (length s)) dst, int (length s) + 1)"
  using ascii_copy_nts [of s "\<lambda>c. uint c < 0" chars dst ucast rest] assms
  by (simp add: ascii_c2w_def)

lemma ascii_w2c_nts:
  assumes "0 \<notin> set s" and "\<forall>c \<in> set s. c \<le> 127" and "length s < chars" and "length s < length dst"
  shows "ascii_w2c (s @ 0 # rest) dst chars =
    Some (map ucast s @ 0 # drop (Suc (length s)) dst, int (length s) + 1)"
  using ascii_copy_nts [of s "\<lambda>c. 127 < c" chars dst ucast rest] assms
  by (simp add: ascii_w2c_def not_less)

lemma ascii_w2c_full:
  assumes "0 \<notin> set s" and "\<forall>c \<in> set s. c \<le> 127" and "s \<noteq> []" and "length s < length dst"
  shows "ascii_w2c (s @ rest) dst (length s) =
    Some (map ucast s @ 0 # drop (Suc (length s)) dst, int (length s) + 1)"
proof -
  have "ascii_copy_loop (\<lambda>c. 127 < c) ucast (s @ rest) dst (length s) 0 =
      Some (Inr (map ucast s @ drop (length s) dst, length s))"
    using assms by (intro ascii_copy_full) (auto simp: not_less)
  then show ?thesis
    using assms by (simp add: ascii_w2c_def mem_write_def list_update_append Suc_le_eq
        Cons_nth_drop_Suc [symmetric])
qed

lemma ascii_ucast:
  assumes "(c :: sqlwchar) \<le> 127"
  shows "ucast (ucast c :: sqlchar) = c"
proof -
  have "unat c < 256" using assms by (simp add: word_le_nat_alt)
  then show ?thesis
    by (simp add: unsigned_ucast_eq word_unat_eq_iff unat_word_ariths take_bit_eq_mod)
qed

section \<open>Properties\<close>

text \<open>Trimming both ends (\<open>wltrim_ws\<close> and \<open>wrtrim_ws\<close> in either order, \<open>trim_ws\<close> for the
  narrow strings) removes white space only and leaves a string that neither starts nor
  ends with one.
\<close>

theorem trim_both_correct:
  "wrtrim_ws f (wltrim_ws f s) = wltrim_ws f (wrtrim_ws f s) \<and>
   (\<exists>a b. s = a @ wrtrim_ws f (wltrim_ws f s) @ b \<and> (\<forall>c \<in> set a \<union> set b. f c)) \<and>
   (wrtrim_ws f (wltrim_ws f s) \<noteq> [] \<longrightarrow>
      \<not> f (hd (wrtrim_ws f (wltrim_ws f s))) \<and> \<not> f (last (wrtrim_ws f (wltrim_ws f s)))) \<and>
   (\<exists>a b. t = a @ trim_ws g t @ b \<and> (\<forall>c \<in> set a \<union> set b. g c)) \<and>
   (trim_ws g t \<noteq> [] \<longrightarrow> \<not> g (hd (trim_ws g t)) \<and> \<not> g (last (trim_ws g t)))"
proof (intro conjI)
  show "wrtrim_ws f (wltrim_ws f s) = wltrim_ws f (wrtrim_ws f s)"
    by (simp add: wrtrim_ws_eq wltrim_ws_eq trim_commute)
qed (insert trim_both [of s f] trim_both [of t g] trim_both_ends [of f s] trim_both_ends [of g t],
    auto simp: wrtrim_ws_eq wltrim_ws_eq trim_ws_eq)

theorem trim_both_correct_witness:
  "wrtrim_ws (\<lambda>c. c = 32) (wltrim_ws (\<lambda>c. c = 32) (wlit ''  a b '')) = wlit ''a b'' \<and>
   hd (wrtrim_ws (\<lambda>c. c = 32) (wltrim_ws (\<lambda>c. c = 32) (wlit ''  a b ''))) \<noteq> 32"
proof -
  have "wrtrim_ws (\<lambda>c. c = 32) (wltrim_ws (\<lambda>c. c = 32) (wlit ''  a b '')) = wlit ''a b''"
    by code_simp
  moreover have "wlit ''a b'' \<noteq> []" by (simp add: wlit_def)
  ultimately show ?thesis
    using trim_both_correct [of "\<lambda>c. c = 32" "wlit ''  a b ''" "[]" "\<lambda>c. c = 32"] by metis
qed

text \<open>\<open>ascii_w2c\<close> followed by \<open>ascii_c2w\<close> gives back every ASCII string, terminated or
  counted. Both write the string and one terminator, nothing behind it, and return the
  number of units written, provided the destination has room for one unit more than the
  string has.
\<close>

theorem ascii_roundtrip:
  assumes "\<forall>c \<in> set s. 0 < c \<and> c \<le> 127" and "length s < length dst" and "length s < length wdst"
    and "s \<noteq> [] \<and> chars = length s \<or> length s < chars \<and> rest = 0 # rest'"
  shows "ascii_w2c (s @ rest) dst chars =
      Some (map ucast s @ 0 # drop (Suc (length s)) dst, int (length s) + 1) \<and>
    ascii_c2w (map ucast s @ 0 # drop (Suc (length s)) dst) wdst chars =
      Some (s @ 0 # drop (Suc (length s)) wdst, int (length s) + 1)"
proof -
  have s: "0 \<notin> set s" "\<forall>c \<in> set s. c \<le> 127" using assms(1) by auto
  have undo: "map ucast (map ucast s :: cstr) = s"
    using s(2) by (simp add: map_idI ascii_ucast)
  have cs: "0 \<notin> set (map ucast s :: cstr)"
    using s(1) undo by (metis image_eqI list.set_map ucast_0)
  show ?thesis
    using assms ascii_w2c_nts [OF s] ascii_w2c_full [OF s, of dst rest]
      ascii_c2w_nts [OF cs] ascii_c2w_full [OF cs, of wdst] undo
    by auto
qed

theorem ascii_roundtrip_witness:
  "ascii_c2w (clit ''ab'' @ 0 # []) [0, 0, 7] 2 = Some (wlit ''ab'' @ [0], 3)"
  using ascii_roundtrip [of "wlit ''ab''" "[0, 0, 7]" "[0, 0, 7]" 2 "[]"]
  by (simp add: wlit_def clit_def)

end
