(* ===== verification/Diagnostics.thy ===== *)
theory Diagnostics
imports Str_Buffers "HOL-Library.Monad_Syntax"
begin

text \<open>
  driver/error.h and driver/error.c: the diagnostic states, their table of SQLSTATE codes,
  messages and return codes, and the operations that post one on a handle; and
  \<open>write_wstr\<close> of driver/util.c, which posts on one.

  The enumeration \<open>esodbc_state_et\<close> is its integer values. \<open>esodbc_diag\<close> is the record
  every handle's header holds; its \<open>text\<close> is the memory of the array, of
  \<open>SQL_MAX_MESSAGE_LENGTH\<close> units. The driver version in the messages' prefix is set by the
  build and is an argument. Text pointers are the memory from the pointer on; \<open>None\<close> is
  an access outside an object.
\<close>

section \<open>States and their table\<close>

type_synonym esodbc_state = nat
type_synonym esodbc_errors_st = "string \<times> string \<times> sqlreturn"

abbreviation (input) SQL_STATE_00000 :: esodbc_state where "SQL_STATE_00000 \<equiv> 0"
abbreviation (input) SQL_STATE_01000 :: esodbc_state where "SQL_STATE_01000 \<equiv> 1"
abbreviation (input) SQL_STATE_01001 :: esodbc_state where "SQL_STATE_01001 \<equiv> 2"
abbreviation (input) SQL_STATE_01002 :: esodbc_state where "SQL_STATE_01002 \<equiv> 3"
abbreviation (input) SQL_STATE_01003 :: esodbc_state where "SQL_STATE_01003 \<equiv> 4"
abbreviation (input) SQL_STATE_01004 :: esodbc_state where "SQL_STATE_01004 \<equiv> 5"
abbreviation (input) SQL_STATE_01006 :: esodbc_state where "SQL_STATE_01006 \<equiv> 6"
abbreviation (input) SQL_STATE_01007 :: esodbc_state where "SQL_STATE_01007 \<equiv> 7"
abbreviation (input) SQL_STATE_01S00 :: esodbc_state where "SQL_STATE_01S00 \<equiv> 8"
abbreviation (input) SQL_STATE_01S01 :: esodbc_state where "SQL_STATE_01S01 \<equiv> 9"
abbreviation (input) SQL_STATE_01S02 :: esodbc_state where "SQL_STATE_01S02 \<equiv> 10"
abbreviation (input) SQL_STATE_01S06 :: esodbc_state where "SQL_STATE_01S06 \<equiv> 11"
abbreviation (input) SQL_STATE_01S07 :: esodbc_state where "SQL_STATE_01S07 \<equiv> 12"
abbreviation (input) SQL_STATE_01S08 :: esodbc_state where "SQL_STATE_01S08 \<equiv> 13"
abbreviation (input) SQL_STATE_01S09 :: esodbc_state where "SQL_STATE_01S09 \<equiv> 14"
abbreviation (input) SQL_STATE_07001 :: esodbc_state where "SQL_STATE_07001 \<equiv> 15"
abbreviation (input) SQL_STATE_07002 :: esodbc_state where "SQL_STATE_07002 \<equiv> 16"
abbreviation (input) SQL_STATE_07005 :: esodbc_state where "SQL_STATE_07005 \<equiv> 17"
abbreviation (input) SQL_STATE_07006 :: esodbc_state where "SQL_STATE_07006 \<equiv> 18"
abbreviation (input) SQL_STATE_07009 :: esodbc_state where "SQL_STATE_07009 \<equiv> 19"
abbreviation (input) SQL_STATE_07S01 :: esodbc_state where "SQL_STATE_07S01 \<equiv> 20"
abbreviation (input) SQL_STATE_08001 :: esodbc_state where "SQL_STATE_08001 \<equiv> 21"
abbreviation (input) SQL_STATE_08002 :: esodbc_state where "SQL_STATE_08002 \<equiv> 22"
abbreviation (input) SQL_STATE_08003 :: esodbc_state where "SQL_STATE_08003 \<equiv> 23"
abbreviation (input) SQL_STATE_08004 :: esodbc_state where "SQL_STATE_08004 \<equiv> 24"
abbreviation (input) SQL_STATE_08007 :: esodbc_state where "SQL_STATE_08007 \<equiv> 25"
abbreviation (input) SQL_STATE_08S01 :: esodbc_state where "SQL_STATE_08S01 \<equiv> 26"
abbreviation (input) SQL_STATE_21S01 :: esodbc_state where "SQL_STATE_21S01 \<equiv> 27"
abbreviation (input) SQL_STATE_21S02 :: esodbc_state where "SQL_STATE_21S02 \<equiv> 28"
abbreviation (input) SQL_STATE_22001 :: esodbc_state where "SQL_STATE_22001 \<equiv> 29"
abbreviation (input) SQL_STATE_22002 :: esodbc_state where "SQL_STATE_22002 \<equiv> 30"
abbreviation (input) SQL_STATE_22003 :: esodbc_state where "SQL_STATE_22003 \<equiv> 31"
abbreviation (input) SQL_STATE_22007 :: esodbc_state where "SQL_STATE_22007 \<equiv> 32"
abbreviation (input) SQL_STATE_22008 :: esodbc_state where "SQL_STATE_22008 \<equiv> 33"
abbreviation (input) SQL_STATE_22012 :: esodbc_state where "SQL_STATE_22012 \<equiv> 34"
abbreviation (input) SQL_STATE_22015 :: esodbc_state where "SQL_STATE_22015 \<equiv> 35"
abbreviation (input) SQL_STATE_22018 :: esodbc_state where "SQL_STATE_22018 \<equiv> 36"
abbreviation (input) SQL_STATE_22019 :: esodbc_state where "SQL_STATE_22019 \<equiv> 37"
abbreviation (input) SQL_STATE_22025 :: esodbc_state where "SQL_STATE_22025 \<equiv> 38"
abbreviation (input) SQL_STATE_22026 :: esodbc_state where "SQL_STATE_22026 \<equiv> 39"
abbreviation (input) SQL_STATE_23000 :: esodbc_state where "SQL_STATE_23000 \<equiv> 40"
abbreviation (input) SQL_STATE_24000 :: esodbc_state where "SQL_STATE_24000 \<equiv> 41"
abbreviation (input) SQL_STATE_25000 :: esodbc_state where "SQL_STATE_25000 \<equiv> 42"
abbreviation (input) SQL_STATE_25S01 :: esodbc_state where "SQL_STATE_25S01 \<equiv> 43"
abbreviation (input) SQL_STATE_25S02 :: esodbc_state where "SQL_STATE_25S02 \<equiv> 44"
abbreviation (input) SQL_STATE_25S03 :: esodbc_state where "SQL_STATE_25S03 \<equiv> 45"
abbreviation (input) SQL_STATE_28000 :: esodbc_state where "SQL_STATE_28000 \<equiv> 46"
abbreviation (input) SQL_STATE_34000 :: esodbc_state where "SQL_STATE_34000 \<equiv> 47"
abbreviation (input) SQL_STATE_3C000 :: esodbc_state where "SQL_STATE_3C000 \<equiv> 48"
abbreviation (input) SQL_STATE_3D000 :: esodbc_state where "SQL_STATE_3D000 \<equiv> 49"
abbreviation (input) SQL_STATE_3F000 :: esodbc_state where "SQL_STATE_3F000 \<equiv> 50"
abbreviation (input) SQL_STATE_40001 :: esodbc_state where "SQL_STATE_40001 \<equiv> 51"
abbreviation (input) SQL_STATE_40002 :: esodbc_state where "SQL_STATE_40002 \<equiv> 52"
abbreviation (input) SQL_STATE_40003 :: esodbc_state where "SQL_STATE_40003 \<equiv> 53"
abbreviation (input) SQL_STATE_42000 :: esodbc_state where "SQL_STATE_42000 \<equiv> 54"
abbreviation (input) SQL_STATE_42S01 :: esodbc_state where "SQL_STATE_42S01 \<equiv> 55"
abbreviation (input) SQL_STATE_42S02 :: esodbc_state where "SQL_STATE_42S02 \<equiv> 56"
abbreviation (input) SQL_STATE_42S11 :: esodbc_state where "SQL_STATE_42S11 \<equiv> 57"
abbreviation (input) SQL_STATE_42S12 :: esodbc_state where "SQL_STATE_42S12 \<equiv> 58"
abbreviation (input) SQL_STATE_42S21 :: esodbc_state where "SQL_STATE_42S21 \<equiv> 59"
abbreviation (input) SQL_STATE_42S22 :: esodbc_state where "SQL_STATE_42S22 \<equiv> 60"
abbreviation (input) SQL_STATE_44000 :: esodbc_state where "SQL_STATE_44000 \<equiv> 61"
abbreviation (input) SQL_STATE_HY000 :: esodbc_state where "SQL_STATE_HY000 \<equiv> 62"
abbreviation (input) SQL_STATE_HY001 :: esodbc_state where "SQL_STATE_HY001 \<equiv> 63"
abbreviation (input) SQL_STATE_HY003 :: esodbc_state where "SQL_STATE_HY003 \<equiv> 64"
abbreviation (input) SQL_STATE_HY004 :: esodbc_state where "SQL_STATE_HY004 \<equiv> 65"
abbreviation (input) SQL_STATE_HY007 :: esodbc_state where "SQL_STATE_HY007 \<equiv> 66"
abbreviation (input) SQL_STATE_HY008 :: esodbc_state where "SQL_STATE_HY008 \<equiv> 67"
abbreviation (input) SQL_STATE_HY009 :: esodbc_state where "SQL_STATE_HY009 \<equiv> 68"
abbreviation (input) SQL_STATE_HY010 :: esodbc_state where "SQL_STATE_HY010 \<equiv> 69"
abbreviation (input) SQL_STATE_HY011 :: esodbc_state where "SQL_STATE_HY011 \<equiv> 70"
abbreviation (input) SQL_STATE_HY012 :: esodbc_state where "SQL_STATE_HY012 \<equiv> 71"
abbreviation (input) SQL_STATE_HY013 :: esodbc_state where "SQL_STATE_HY013 \<equiv> 72"
abbreviation (input) SQL_STATE_HY014 :: esodbc_state where "SQL_STATE_HY014 \<equiv> 73"
abbreviation (input) SQL_STATE_HY015 :: esodbc_state where "SQL_STATE_HY015 \<equiv> 74"
abbreviation (input) SQL_STATE_HY016 :: esodbc_state where "SQL_STATE_HY016 \<equiv> 75"
abbreviation (input) SQL_STATE_HY017 :: esodbc_state where "SQL_STATE_HY017 \<equiv> 76"
abbreviation (input) SQL_STATE_HY018 :: esodbc_state where "SQL_STATE_HY018 \<equiv> 77"
abbreviation (input) SQL_STATE_HY019 :: esodbc_state where "SQL_STATE_HY019 \<equiv> 78"
abbreviation (input) SQL_STATE_HY020 :: esodbc_state where "SQL_STATE_HY020 \<equiv> 79"
abbreviation (input) SQL_STATE_HY021 :: esodbc_state where "SQL_STATE_HY021 \<equiv> 80"
abbreviation (input) SQL_STATE_HY024 :: esodbc_state where "SQL_STATE_HY024 \<equiv> 81"
abbreviation (input) SQL_STATE_HY090 :: esodbc_state where "SQL_STATE_HY090 \<equiv> 82"
abbreviation (input) SQL_STATE_HY091 :: esodbc_state where "SQL_STATE_HY091 \<equiv> 83"
abbreviation (input) SQL_STATE_HY092 :: esodbc_state where "SQL_STATE_HY092 \<equiv> 84"
abbreviation (input) SQL_STATE_HY095 :: esodbc_state where "SQL_STATE_HY095 \<equiv> 85"
abbreviation (input) SQL_STATE_HY096 :: esodbc_state where "SQL_STATE_HY096 \<equiv> 86"
abbreviation (input) SQL_STATE_HY097 :: esodbc_state where "SQL_STATE_HY097 \<equiv> 87"
abbreviation (input) SQL_STATE_HY098 :: esodbc_state where "SQL_STATE_HY098 \<equiv> 88"
abbreviation (input) SQL_STATE_HY099 :: esodbc_state where "SQL_STATE_HY099 \<equiv> 89"
abbreviation (input) SQL_STATE_HY100 :: esodbc_state where "SQL_STATE_HY100 \<equiv> 90"
abbreviation (input) SQL_STATE_HY101 :: esodbc_state where "SQL_STATE_HY101 \<equiv> 91"
abbreviation (input) SQL_STATE_HY103 :: esodbc_state where "SQL_STATE_HY103 \<equiv> 92"
abbreviation (input) SQL_STATE_HY104 :: esodbc_state where "SQL_STATE_HY104 \<equiv> 93"
abbreviation (input) SQL_STATE_HY105 :: esodbc_state where "SQL_STATE_HY105 \<equiv> 94"
abbreviation (input) SQL_STATE_HY106 :: esodbc_state where "SQL_STATE_HY106 \<equiv> 95"
abbreviation (input) SQL_STATE_HY107 :: esodbc_state where "SQL_STATE_HY107 \<equiv> 96"
abbreviation (input) SQL_STATE_HY109 :: esodbc_state where "SQL_STATE_HY109 \<equiv> 97"
abbreviation (input) SQL_STATE_HY110 :: esodbc_state where "SQL_STATE_HY110 \<equiv> 98"
abbreviation (input) SQL_STATE_HY111 :: esodbc_state where "SQL_STATE_HY111 \<equiv> 99"
abbreviation (input) SQL_STATE_HY114 :: esodbc_state where "SQL_STATE_HY114 \<equiv> 100"
abbreviation (input) SQL_STATE_HYC00 :: esodbc_state where "SQL_STATE_HYC00 \<equiv> 101"
abbreviation (input) SQL_STATE_HYT00 :: esodbc_state where "SQL_STATE_HYT00 \<equiv> 102"
abbreviation (input) SQL_STATE_HYT01 :: esodbc_state where "SQL_STATE_HYT01 \<equiv> 103"
abbreviation (input) SQL_STATE_IM001 :: esodbc_state where "SQL_STATE_IM001 \<equiv> 104"
abbreviation (input) SQL_STATE_IM002 :: esodbc_state where "SQL_STATE_IM002 \<equiv> 105"
abbreviation (input) SQL_STATE_IM003 :: esodbc_state where "SQL_STATE_IM003 \<equiv> 106"
abbreviation (input) SQL_STATE_IM004 :: esodbc_state where "SQL_STATE_IM004 \<equiv> 107"
abbreviation (input) SQL_STATE_IM005 :: esodbc_state where "SQL_STATE_IM005 \<equiv> 108"
abbreviation (input) SQL_STATE_IM006 :: esodbc_state where "SQL_STATE_IM006 \<equiv> 109"
abbreviation (input) SQL_STATE_IM007 :: esodbc_state where "SQL_STATE_IM007 \<equiv> 110"
abbreviation (input) SQL_STATE_IM008 :: esodbc_state where "SQL_STATE_IM008 \<equiv> 111"
abbreviation (input) SQL_STATE_IM009 :: esodbc_state where "SQL_STATE_IM009 \<equiv> 112"
abbreviation (input) SQL_STATE_IM010 :: esodbc_state where "SQL_STATE_IM010 \<equiv> 113"
abbreviation (input) SQL_STATE_IM011 :: esodbc_state where "SQL_STATE_IM011 \<equiv> 114"
abbreviation (input) SQL_STATE_IM012 :: esodbc_state where "SQL_STATE_IM012 \<equiv> 115"
abbreviation (input) SQL_STATE_IM013 :: esodbc_state where "SQL_STATE_IM013 \<equiv> 116"
abbreviation (input) SQL_STATE_IM014 :: esodbc_state where "SQL_STATE_IM014 \<equiv> 117"
abbreviation (input) SQL_STATE_IM015 :: esodbc_state where "SQL_STATE_IM015 \<equiv> 118"
abbreviation (input) SQL_STATE_S1118 :: esodbc_state where "SQL_STATE_S1118 \<equiv> 119"

text \<open>The declared order of the enumerators with their names.\<close>

definition esodbc_state_et :: "(esodbc_state \<times> string) list" where
  "esodbc_state_et =
    [(SQL_STATE_00000, ''00000''), (SQL_STATE_01000, ''01000''), (SQL_STATE_01001, ''01001''),
     (SQL_STATE_01002, ''01002''), (SQL_STATE_01003, ''01003''), (SQL_STATE_01004, ''01004''),
     (SQL_STATE_01006, ''01006''), (SQL_STATE_01007, ''01007''), (SQL_STATE_01S00, ''01S00''),
     (SQL_STATE_01S01, ''01S01''), (SQL_STATE_01S02, ''01S02''), (SQL_STATE_01S06, ''01S06''),
     (SQL_STATE_01S07, ''01S07''), (SQL_STATE_01S08, ''01S08''), (SQL_STATE_01S09, ''01S09''),
     (SQL_STATE_07001, ''07001''), (SQL_STATE_07002, ''07002''), (SQL_STATE_07005, ''07005''),
     (SQL_STATE_07006, ''07006''), (SQL_STATE_07009, ''07009''), (SQL_STATE_07S01, ''07S01''),
     (SQL_STATE_08001, ''08001''), (SQL_STATE_08002, ''08002''), (SQL_STATE_08003, ''08003''),
     (SQL_STATE_08004, ''08004''), (SQL_STATE_08007, ''08007''), (SQL_STATE_08S01, ''08S01''),
     (SQL_STATE_21S01, ''21S01''), (SQL_STATE_21S02, ''21S02''), (SQL_STATE_22001, ''22001''),
     (SQL_STATE_22002, ''22002''), (SQL_STATE_22003, ''22003''), (SQL_STATE_22007, ''22007''),
     (SQL_STATE_22008, ''22008''), (SQL_STATE_22012, ''22012''), (SQL_STATE_22015, ''22015''),
     (SQL_STATE_22018, ''22018''), (SQL_STATE_22019, ''22019''), (SQL_STATE_22025, ''22025''),
     (SQL_STATE_22026, ''22026''), (SQL_STATE_23000, ''23000''), (SQL_STATE_24000, ''24000''),
     (SQL_STATE_25000, ''25000''), (SQL_STATE_25S01, ''25S01''), (SQL_STATE_25S02, ''25S02''),
     (SQL_STATE_25S03, ''25S03''), (SQL_STATE_28000, ''28000''), (SQL_STATE_34000, ''34000''),
     (SQL_STATE_3C000, ''3C000''), (SQL_STATE_3D000, ''3D000''), (SQL_STATE_3F000, ''3F000''),
     (SQL_STATE_40001, ''40001''), (SQL_STATE_40002, ''40002''), (SQL_STATE_40003, ''40003''),
     (SQL_STATE_42000, ''42000''), (SQL_STATE_42S01, ''42S01''), (SQL_STATE_42S02, ''42S02''),
     (SQL_STATE_42S11, ''42S11''), (SQL_STATE_42S12, ''42S12''), (SQL_STATE_42S21, ''42S21''),
     (SQL_STATE_42S22, ''42S22''), (SQL_STATE_44000, ''44000''), (SQL_STATE_HY000, ''HY000''),
     (SQL_STATE_HY001, ''HY001''), (SQL_STATE_HY003, ''HY003''), (SQL_STATE_HY004, ''HY004''),
     (SQL_STATE_HY007, ''HY007''), (SQL_STATE_HY008, ''HY008''), (SQL_STATE_HY009, ''HY009''),
     (SQL_STATE_HY010, ''HY010''), (SQL_STATE_HY011, ''HY011''), (SQL_STATE_HY012, ''HY012''),
     (SQL_STATE_HY013, ''HY013''), (SQL_STATE_HY014, ''HY014''), (SQL_STATE_HY015, ''HY015''),
     (SQL_STATE_HY016, ''HY016''), (SQL_STATE_HY017, ''HY017''), (SQL_STATE_HY018, ''HY018''),
     (SQL_STATE_HY019, ''HY019''), (SQL_STATE_HY020, ''HY020''), (SQL_STATE_HY021, ''HY021''),
     (SQL_STATE_HY024, ''HY024''), (SQL_STATE_HY090, ''HY090''), (SQL_STATE_HY091, ''HY091''),
     (SQL_STATE_HY092, ''HY092''), (SQL_STATE_HY095, ''HY095''), (SQL_STATE_HY096, ''HY096''),
     (SQL_STATE_HY097, ''HY097''), (SQL_STATE_HY098, ''HY098''), (SQL_STATE_HY099, ''HY099''),
     (SQL_STATE_HY100, ''HY100''), (SQL_STATE_HY101, ''HY101''), (SQL_STATE_HY103, ''HY103''),
     (SQL_STATE_HY104, ''HY104''), (SQL_STATE_HY105, ''HY105''), (SQL_STATE_HY106, ''HY106''),
     (SQL_STATE_HY107, ''HY107''), (SQL_STATE_HY109, ''HY109''), (SQL_STATE_HY110, ''HY110''),
     (SQL_STATE_HY111, ''HY111''), (SQL_STATE_HY114, ''HY114''), (SQL_STATE_HYC00, ''HYC00''),
     (SQL_STATE_HYT00, ''HYT00''), (SQL_STATE_HYT01, ''HYT01''), (SQL_STATE_IM001, ''IM001''),
     (SQL_STATE_IM002, ''IM002''), (SQL_STATE_IM003, ''IM003''), (SQL_STATE_IM004, ''IM004''),
     (SQL_STATE_IM005, ''IM005''), (SQL_STATE_IM006, ''IM006''), (SQL_STATE_IM007, ''IM007''),
     (SQL_STATE_IM008, ''IM008''), (SQL_STATE_IM009, ''IM009''), (SQL_STATE_IM010, ''IM010''),
     (SQL_STATE_IM011, ''IM011''), (SQL_STATE_IM012, ''IM012''), (SQL_STATE_IM013, ''IM013''),
     (SQL_STATE_IM014, ''IM014''), (SQL_STATE_IM015, ''IM015''), (SQL_STATE_S1118, ''S1118'')]"

text \<open>\<open>esodbc_errors[]\<close>, in four runs of rows.\<close>

definition esodbc_errors_class_00_08 :: "esodbc_errors_st list" where
  "esodbc_errors_class_00_08 =
    [(''00000'', ''Success'', SQL_SUCCESS),
     (''01000'', ''General warning'', SQL_SUCCESS_WITH_INFO),
     (''01001'', ''Cursor operation conflict'', SQL_SUCCESS_WITH_INFO),
     (''01002'', ''Disconnect error'', SQL_SUCCESS_WITH_INFO),
     (''01003'', ''NULL value eliminated in set function'', SQL_SUCCESS_WITH_INFO),
     (''01004'', ''String data, right-truncated'', SQL_SUCCESS_WITH_INFO),
     (''01006'', ''Privilege not revoked'', SQL_SUCCESS_WITH_INFO),
     (''01007'', ''Privilege not granted'', SQL_SUCCESS_WITH_INFO),
     (''01S00'', ''Invalid connection string attribute'', SQL_SUCCESS_WITH_INFO),
     (''01S01'', ''Error in row'', SQL_SUCCESS_WITH_INFO),
     (''01S02'', ''Option value changed'', SQL_SUCCESS_WITH_INFO),
     (''01S06'', ''Attempt to fetch before the result set returned the first rowset'', SQL_SUCCESS_WITH_INFO),
     (''01S07'', ''Fractional truncation'', SQL_SUCCESS_WITH_INFO),
     (''01S08'', ''Error saving File DSN'', SQL_SUCCESS_WITH_INFO),
     (''01S09'', ''Invalid keyword'', SQL_SUCCESS_WITH_INFO),
     (''07001'', ''Wrong number of parameters'', SQL_ERROR),
     (''07002'', ''COUNT field incorrect'', SQL_ERROR),
     (''07005'', ''Prepared statement not a cursor-specification'', SQL_ERROR),
     (''07006'', ''Restricted data type attribute violation'', SQL_ERROR),
     (''07009'', ''Invalid descriptor index'', SQL_ERROR),
     (''07S01'', ''Invalid use of default parameter'', SQL_ERROR),
     (''08001'', ''Client unable to establish connection'', SQL_ERROR),
     (''08002'', ''Connection name in use'', SQL_ERROR),
     (''08003'', ''Connection not open'', SQL_ERROR),
     (''08004'', ''Server rejected the connection'', SQL_ERROR),
     (''08007'', ''Connection failure during transaction'', SQL_ERROR),
     (''08S01'', ''Communication link failure'', SQL_ERROR)]"

definition esodbc_errors_class_21_44 :: "esodbc_errors_st list" where
  "esodbc_errors_class_21_44 =
    [(''21S01'', ''Insert value list does not match column list'', SQL_ERROR),
     (''21S02'', ''Degree of derived table does not match column list'', SQL_ERROR),
     (''22001'', ''String data, right-truncated'', SQL_ERROR),
     (''22002'', ''Indicator variable required but not supplied'', SQL_ERROR),
     (''22003'', ''Numeric value out of range'', SQL_ERROR),
     (''22007'', ''Invalid datetime format'', SQL_ERROR),
     (''22008'', ''Datetime field overflow'', SQL_ERROR),
     (''22012'', ''Division by zero'', SQL_ERROR),
     (''22015'', ''Interval field overflow'', SQL_ERROR),
     (''22018'', ''Invalid character value for cast specification'', SQL_ERROR),
     (''22019'', ''Invalid escape character'', SQL_ERROR),
     (''22025'', ''Invalid escape sequence'', SQL_ERROR),
     (''22026'', ''String data, length mismatch'', SQL_ERROR),
     (''23000'', ''Integrity constraint violation'', SQL_ERROR),
     (''24000'', ''Invalid cursor state'', SQL_ERROR),
     (''25000'', ''Invalid transaction state'', SQL_ERROR),
     (''25S01'', ''Transaction state'', SQL_ERROR),
     (''25S02'', ''Transaction is still active'', SQL_ERROR),
     (''25S03'', ''Transaction is rolled back'', SQL_ERROR),
     (''28000'', ''Invalid authorization specification'', SQL_ERROR),
     (''34000'', ''Invalid cursor name'', SQL_ERROR),
     (''3C000'', ''Duplicate cursor name'', SQL_ERROR),
     (''3D000'', ''Invalid catalog name'', SQL_ERROR),
     (''3F000'', ''Invalid schema name'', SQL_ERROR),
     (''40001'', ''Serialization failure'', SQL_ERROR),
     (''40002'', ''Integrity constraint violation'', SQL_ERROR),
     (''40003'', ''Statement completion unknown'', SQL_ERROR),
     (''42000'', ''Syntax error or access violation'', SQL_ERROR),
     (''42S01'', ''Base table or view already exists'', SQL_ERROR),
     (''42S02'', ''Base table or view not found'', SQL_ERROR),
     (''42S11'', ''Index already exists'', SQL_ERROR),
     (''42S12'', ''Index not found'', SQL_ERROR),
     (''42S21'', ''Column already exists'', SQL_ERROR),
     (''42S22'', ''Column not found'', SQL_ERROR),
     (''44000'', ''WITH CHECK OPTION violation'', SQL_ERROR)]"

definition esodbc_errors_class_HY :: "esodbc_errors_st list" where
  "esodbc_errors_class_HY =
    [(''HY000'', ''General error'', SQL_ERROR),
     (''HY001'', ''Memory allocation error'', SQL_ERROR),
     (''HY003'', ''Invalid application buffer type'', SQL_ERROR),
     (''HY004'', ''Invalid SQL data type'', SQL_ERROR),
     (''HY007'', ''Associated statement is not prepared'', SQL_ERROR),
     (''HY008'', ''Operation canceled'', SQL_ERROR),
     (''HY009'', ''Invalid use of null pointer'', SQL_ERROR),
     (''HY010'', ''Function sequence error'', SQL_ERROR),
     (''HY011'', ''Attribute cannot be set now'', SQL_ERROR),
     (''HY012'', ''Invalid transaction operation code'', SQL_ERROR),
     (''HY013'', ''Memory management error'', SQL_ERROR),
     (''HY014'', ''Limit on the number of handles exceeded'', SQL_ERROR),
     (''HY015'', ''No cursor name available'', SQL_ERROR),
     (''HY016'', ''Cannot modify an implementation row descriptor'', SQL_ERROR),
     (''HY017'', ''Invalid use of an automatically allocated descriptor handle'', SQL_ERROR),
     (''HY018'', ''Server declined cancel request'', SQL_ERROR),
     (''HY019'', ''Non-character and non-binary data sent in pieces'', SQL_ERROR),
     (''HY020'', ''Attempt to concatenate a null value'', SQL_ERROR),
     (''HY021'', ''Inconsistent descriptor information'', SQL_ERROR),
     (''HY024'', ''Invalid attribute value'', SQL_ERROR),
     (''HY090'', ''Invalid string or buffer length'', SQL_ERROR),
     (''HY091'', ''Invalid descriptor field identifier'', SQL_ERROR),
     (''HY092'', ''Invalid attribute/option identifier'', SQL_ERROR),
     (''HY095'', ''Function type out of range'', SQL_ERROR),
     (''HY096'', ''Invalid information type'', SQL_ERROR),
     (''HY097'', ''Column type out of range'', SQL_ERROR),
     (''HY098'', ''Scope type out of range'', SQL_ERROR),
     (''HY099'', ''Nullable type out of range'', SQL_ERROR),
     (''HY100'', ''Uniqueness option type out of range'', SQL_ERROR),
     (''HY101'', ''Accuracy option type out of range'', SQL_ERROR),
     (''HY103'', ''Invalid retrieval code'', SQL_ERROR),
     (''HY104'', ''Invalid precision or scale value'', SQL_ERROR),
     (''HY105'', ''Invalid parameter type'', SQL_ERROR),
     (''HY106'', ''Fetch type out of range'', SQL_ERROR),
     (''HY107'', ''Row value out of range'', SQL_ERROR),
     (''HY109'', ''Invalid cursor position'', SQL_ERROR),
     (''HY110'', ''Invalid driver completion'', SQL_ERROR),
     (''HY111'', ''Invalid bookmark value'', SQL_ERROR),
     (''HY114'', ''Driver does not support connection-level asynchronous function execution'', SQL_ERROR),
     (''HYC00'', ''Optional feature not implemented'', SQL_ERROR),
     (''HYT00'', ''Timeout expired'', SQL_ERROR),
     (''HYT01'', ''Connection timeout expired'', SQL_ERROR)]"

definition esodbc_errors_class_IM :: "esodbc_errors_st list" where
  "esodbc_errors_class_IM =
    [(''IM001'', ''Driver does not support this function'', SQL_ERROR),
     (''IM002'', ''Data source name not found and no default driver specified'', SQL_ERROR),
     (''IM003'', ''Specified driver could not be loaded'', SQL_ERROR),
     (''IM004'', ''Driver's SQLAllocHandle on SQL_HANDLE_ENV failed'', SQL_ERROR),
     (''IM005'', ''Driver's SQLAllocHandle on SQL_HANDLE_DBC failed'', SQL_ERROR),
     (''IM006'', ''Driver's SQLSetConnectAttr failed'', SQL_ERROR),
     (''IM007'', ''No data source or driver specified; dialog prohibited'', SQL_ERROR),
     (''IM008'', ''Dialog failed'', SQL_ERROR),
     (''IM009'', ''Unable to load translation DLL'', SQL_ERROR),
     (''IM010'', ''Data source name too long'', SQL_ERROR),
     (''IM011'', ''Driver name too long'', SQL_ERROR),
     (''IM012'', ''DRIVER keyword syntax error'', SQL_ERROR),
     (''IM013'', ''Trace file error'', SQL_ERROR),
     (''IM014'', ''Invalid name of File DSN'', SQL_ERROR),
     (''IM015'', ''Corrupt file data source'', SQL_ERROR),
     (''S1118'', ''Driver does not support asynchronous notification'', SQL_ERROR)]"

definition esodbc_errors :: "esodbc_errors_st list" where
  "esodbc_errors = esodbc_errors_class_00_08 @ esodbc_errors_class_21_44 @
     esodbc_errors_class_HY @ esodbc_errors_class_IM"

definition state_code :: "esodbc_errors_st \<Rightarrow> string" where
  "state_code = fst"
definition state_message :: "esodbc_errors_st \<Rightarrow> string" where
  "state_message e = fst (snd e)"
definition state_retcode :: "esodbc_errors_st \<Rightarrow> sqlreturn" where
  "state_retcode e = snd (snd e)"

section \<open>Posting\<close>

definition SQL_MAX_MESSAGE_LENGTH :: nat where "SQL_MAX_MESSAGE_LENGTH = 512"

record esodbc_diag =
  state :: esodbc_state
  diag_text :: wstr
  text_len :: nat
  native_code :: int
  row_number :: int
  column_number :: int

definition ESODBC_DIAG_PREFIX :: "wstr \<Rightarrow> wstr" where
  "ESODBC_DIAG_PREFIX ver = wlit ''[Elastic][EsODBC '' @ ver @ wlit '' Driver]''"

definition init_diagnostic :: "esodbc_diag \<Rightarrow> esodbc_diag option" where
  "init_diagnostic dest = do {
     t \<leftarrow> mem_write (diag_text dest) 0 0;
     Some (dest\<lparr>state := SQL_STATE_00000, diag_text := t, text_len := 0, native_code := 0,
       row_number := - 1, column_number := - 1\<rparr>) }"

definition RET_STATE :: "esodbc_state \<Rightarrow> sqlreturn option" where
  "RET_STATE s = map_option state_retcode (mem_read esodbc_errors s)"

definition post_diagnostic ::
    "wstr \<Rightarrow> esodbc_diag \<Rightarrow> esodbc_state \<Rightarrow> wstr option \<Rightarrow> int
     \<Rightarrow> (esodbc_diag \<times> sqlreturn) option" where
  "post_diagnostic ver dest st txt code = do {
     txt \<leftarrow> (case txt of
       None \<Rightarrow> map_option (\<lambda>e. wlit (state_message e) @ [0]) (mem_read esodbc_errors st)
     | Some t \<Rightarrow> Some t);
     tcnt \<leftarrow> mem_strlen txt;
     let dest = dest\<lparr>state := st, native_code := code\<rparr>;
     let ebufsz = SQL_MAX_MESSAGE_LENGTH;
     let pos = length (ESODBC_DIAG_PREFIX ver);
     t1 \<leftarrow> wcsncpy (diag_text dest) 0 (ESODBC_DIAG_PREFIX ver @ [0]) pos;
     dest \<leftarrow> (if ebufsz \<le> pos + tcnt then do {
         t2 \<leftarrow> wcsncpy t1 pos txt (ebufsz - (pos + 1));
         t3 \<leftarrow> mem_write t2 (ebufsz - 1) 0;
         Some (dest\<lparr>diag_text := t3, text_len := (ebufsz mod 65536) - 1\<rparr>) }
       else do {
         t2 \<leftarrow> wcsncpy t1 pos txt (tcnt + 1);
         Some (dest\<lparr>diag_text := t2, text_len := (pos + tcnt) mod 65536\<rparr>) });
     ret \<leftarrow> RET_STATE st;
     Some (dest, ret) }"

definition RET_HDIAGS :: "wstr \<Rightarrow> esodbc_diag \<Rightarrow> esodbc_state \<Rightarrow> (esodbc_diag \<times> sqlreturn) option" where
  "RET_HDIAGS ver hp s = post_diagnostic ver hp s None 0"

text \<open>\<open>wtext\<close> is the uninitialised array on the stack.\<close>

definition post_c_diagnostic ::
    "wstr \<Rightarrow> esodbc_diag \<Rightarrow> esodbc_state \<Rightarrow> cstr option \<Rightarrow> int \<Rightarrow> wstr
     \<Rightarrow> (esodbc_diag \<times> sqlreturn) option" where
  "post_c_diagnostic ver dest st txt code wtext =
     (case txt of
        Some s \<Rightarrow> do {
          (wtext, r) \<leftarrow> ascii_c2w s wtext SQL_MAX_MESSAGE_LENGTH;
          ptr \<leftarrow> (if r < 0 then mem_write wtext 0 0 else Some wtext);
          post_diagnostic ver dest st (Some ptr) code }
      | None \<Rightarrow> post_diagnostic ver dest st None code)"

definition post_row_diagnostic ::
    "wstr \<Rightarrow> esodbc_diag \<Rightarrow> esodbc_state \<Rightarrow> wstr option \<Rightarrow> int \<Rightarrow> int \<Rightarrow> int
     \<Rightarrow> (esodbc_diag \<times> sqlreturn) option" where
  "post_row_diagnostic ver dest st txt code nrow ncol =
     post_diagnostic ver (dest\<lparr>row_number := nrow, column_number := ncol\<rparr>) st txt code"

section \<open>Copying a string to the application\<close>

text \<open>
  \<open>src\<close> is the memory from \<open>src->str\<close> on and \<open>cnt\<close> its count; \<open>dest\<close> and \<open>usedp\<close> are
  \<open>None\<close> for the null pointer. The result: the diagnostic, the destination, the required
  size and the return code.
\<close>

definition write_wstr ::
    "wstr \<Rightarrow> esodbc_diag \<Rightarrow> wstr option \<Rightarrow> wstr \<Rightarrow> nat \<Rightarrow> int \<Rightarrow> int option
     \<Rightarrow> (esodbc_diag \<times> wstr option \<times> int option \<times> sqlreturn) option" where
  "write_wstr ver hnd dest src cnt avail usedp = do {
     let usedp = map_option (\<lambda>_. to_i16 (int cnt * 2)) usedp;
     (case dest of
        Some buf \<Rightarrow>
          if avail < 0 \<or> avail mod 2 \<noteq> 0 then do {
            (hnd, ret) \<leftarrow> RET_HDIAGS ver hnd SQL_STATE_HY090;
            Some (hnd, Some buf, usedp, ret) }
          else do {
            let wide_avail = nat (avail div 2);
            if wide_avail \<le> cnt then do {
              buf \<leftarrow> (if 0 < wide_avail then do {
                  buf \<leftarrow> wcsncpy buf 0 src (wide_avail - 1);
                  mem_write buf (wide_avail - 1) 0 }
                else Some buf);
              (hnd, ret) \<leftarrow> RET_HDIAGS ver hnd SQL_STATE_01004;
              Some (hnd, Some buf, usedp, ret) }
            else do {
              buf \<leftarrow> wcsncpy buf 0 src (cnt + 1);
              Some (hnd, Some buf, usedp, SQL_SUCCESS) } }
      | None \<Rightarrow> Some (hnd, None, usedp, SQL_SUCCESS)) }"

section \<open>Lemmas\<close>

lemma zero_prefix: "0 \<notin> set ver \<Longrightarrow> 0 \<notin> set (ESODBC_DIAG_PREFIX ver)"
  by (simp add: ESODBC_DIAG_PREFIX_def)

lemma set_ucast_nonzero:
  assumes "0 \<notin> set (s :: cstr)"
  shows "0 \<notin> set (map ucast s :: wstr)"
proof
  have "ucast c \<noteq> (0 :: sqlwchar)" if "c \<noteq> 0" for c :: sqlchar
  proof
    assume "ucast c = (0 :: sqlwchar)"
    then have "unat (ucast c :: sqlwchar) = 0" by simp
    moreover have "unat c < 2 ^ LENGTH(8)" by (rule unsigned_less)
    ultimately have "unat c = 0" by (simp add: unsigned_ucast_eq take_bit_eq_mod)
    with that show False by (simp add: unat_eq_0)
  qed
  moreover assume "0 \<in> set (map ucast s :: wstr)"
  ultimately show False using assms by (metis (no_types, lifting) imageE list.set_map)
qed

lemma esodbc_errors_length: "length esodbc_errors = 120"
  by code_simp

lemma messages_nonzero: "list_all (\<lambda>e. CHR 0x00 \<notin> set (state_message e)) esodbc_errors"
  by code_simp

lemma message_nonzero: "st < length esodbc_errors \<Longrightarrow> 0 \<notin> set (wlit (state_message (esodbc_errors ! st)))"
  using messages_nonzero unfolding list_all_length zero_in_wlit by blast

lemma wcsncpy_nts:
  "0 \<notin> set s \<Longrightarrow> n \<le> Suc (length s) \<Longrightarrow> i + n \<le> length mem \<Longrightarrow>
   wcsncpy mem i (s @ 0 # rest) n = Some (take i mem @ take n (s @ [0]) @ drop (i + n) mem)"
  by (auto simp: wcsncpy_def wcsncpy_units_nts mem_write_list_fits min_def le_Suc_eq)

lemma mem_strlen_nts1: "0 \<notin> set cs \<Longrightarrow> mem_strlen (cs @ [0]) = Some (length cs)"
  using mem_strlen_nts [of cs "[]"] by simp

text \<open>Both branches of \<open>post_diagnostic\<close> write the same thing: as much of the prefixed
  message as the array takes, and a terminator.\<close>

lemma post_diagnostic_text:
  assumes "length mem = 512" and "length p < 512" and "0 \<notin> set p" and "0 \<notin> set msg"
    and "out = take 511 (p @ msg)"
  shows "wcsncpy mem 0 (p @ [0]) (length p) = Some (p @ drop (length p) mem)"
    and "512 \<le> length p + length msg \<Longrightarrow>
      wcsncpy (p @ drop (length p) mem) (length p) (msg @ 0 # rest) (511 - length p)
        = Some (out @ [mem ! 511]) \<and> length out = 511"
    and "length p + length msg < 512 \<Longrightarrow>
      wcsncpy (p @ drop (length p) mem) (length p) (msg @ 0 # rest) (Suc (length msg))
        = Some (out @ 0 # drop (Suc (length out)) mem) \<and> out = p @ msg"
proof -
  show "wcsncpy mem 0 (p @ [0]) (length p) = Some (p @ drop (length p) mem)"
    using wcsncpy_nts [of p "length p" 0 mem "[]"] assms by simp
  have "drop 511 mem = [mem ! 511]"
    using assms(1) by (simp add: Cons_nth_drop_Suc [symmetric])
  then show "512 \<le> length p + length msg \<Longrightarrow>
      wcsncpy (p @ drop (length p) mem) (length p) (msg @ 0 # rest) (511 - length p)
        = Some (out @ [mem ! 511]) \<and> length out = 511"
    using wcsncpy_nts [of msg "511 - length p" "length p" "p @ drop (length p) mem" rest] assms
    by simp
  show "length p + length msg < 512 \<Longrightarrow>
      wcsncpy (p @ drop (length p) mem) (length p) (msg @ 0 # rest) (Suc (length msg))
        = Some (out @ 0 # drop (Suc (length out)) mem) \<and> out = p @ msg"
    using wcsncpy_nts [of msg "Suc (length msg)" "length p" "p @ drop (length p) mem" rest] assms
    by (simp add: add.commute)
qed

lemma post_diagnostic_eq:
  assumes "length (diag_text d) = 512" and "length (ESODBC_DIAG_PREFIX ver) < 512"
    and "0 \<notin> set ver" and "st < length esodbc_errors"
    and "txt = None \<and> msg = wlit (state_message (esodbc_errors ! st))
      \<or> txt = Some (msg @ 0 # rest) \<and> 0 \<notin> set msg"
    and "out = take 511 (ESODBC_DIAG_PREFIX ver @ msg)"
  shows "post_diagnostic ver d st txt code =
    Some (d\<lparr>state := st, native_code := code,
            diag_text := out @ 0 # drop (Suc (length out)) (diag_text d),
            text_len := length out\<rparr>,
          state_retcode (esodbc_errors ! st))"
proof -
  have msg: "0 \<notin> set msg" using assms(4,5) message_nonzero by blast
  obtain r where src: "(case txt of
       None \<Rightarrow> map_option (\<lambda>e. wlit (state_message e) @ [0]) (mem_read esodbc_errors st)
     | Some t \<Rightarrow> Some t) = Some (msg @ 0 # r)"
    using assms(4,5) by (auto simp: mem_read_def)
  note t = post_diagnostic_text [OF assms(1,2) zero_prefix [OF assms(3)] msg assms(6)]
  have ret: "RET_STATE st = Some (state_retcode (esodbc_errors ! st))"
    using assms(4) by (simp add: RET_STATE_def mem_read_def)
  show ?thesis
  proof (cases "512 \<le> length (ESODBC_DIAG_PREFIX ver) + length msg")
    case True
    from t(2) [OF this, of r]
    have "mem_write (out @ [diag_text d ! 511]) 511 0 = Some (out @ [0])"
      by (simp add: mem_write_def list_update_append)
    with True t(1) t(2) [OF True, of r] ret assms(1) show ?thesis
      unfolding post_diagnostic_def src
      by (simp add: mem_strlen_nts msg Let_def SQL_MAX_MESSAGE_LENGTH_def)
  next
    case False
    with t(1) t(3) [of r] ret show ?thesis
      unfolding post_diagnostic_def src
      by (simp add: mem_strlen_nts msg Let_def SQL_MAX_MESSAGE_LENGTH_def)
  qed
qed

section \<open>Properties\<close>

text \<open>The enumeration of the diagnostic states and the table of their codes, messages and
  return codes are in step: row \<open>i\<close> of the table has the code its enumerator is named
  after, no code appears twice, every code has the five characters of an SQLSTATE, and the
  return code of a row follows from its class: success for 00, success with information
  for 01, an error for the others.
\<close>

theorem esodbc_errors_in_sync:
  "map fst esodbc_state_et = [0..<length esodbc_errors] \<and>
   map state_code esodbc_errors = map snd esodbc_state_et \<and>
   distinct (map state_code esodbc_errors) \<and>
   list_all (\<lambda>e. length (state_code e) = 5 \<and>
     state_retcode e = (if take 2 (state_code e) = ''00'' then SQL_SUCCESS
       else if take 2 (state_code e) = ''01'' then SQL_SUCCESS_WITH_INFO else SQL_ERROR)) esodbc_errors"
  by (intro conjI; code_simp)

text \<open>
  C25: posting a diagnostic never writes outside the handle's text array: it stores the
  prefixed message (the state's default one if no text is given), truncated to what the
  array can hold, with a terminator and the right length; it sets the state and the native
  code, leaves the row and column alone and returns the state's return code.
\<close>

theorem post_diagnostic_correct:
  assumes "length (diag_text d) = SQL_MAX_MESSAGE_LENGTH"
    and "length (ESODBC_DIAG_PREFIX ver) < SQL_MAX_MESSAGE_LENGTH"
    and "0 \<notin> set ver" and "st < length esodbc_errors"
    and "txt = None \<and> msg = wlit (state_message (esodbc_errors ! st))
      \<or> txt = Some (msg @ 0 # rest) \<and> 0 \<notin> set msg"
  shows "\<exists>d'. post_diagnostic ver d st txt code = Some (d', state_retcode (esodbc_errors ! st)) \<and>
    take (text_len d') (diag_text d') =
      take (SQL_MAX_MESSAGE_LENGTH - 1) (ESODBC_DIAG_PREFIX ver @ msg) \<and>
    text_len d' = min (SQL_MAX_MESSAGE_LENGTH - 1) (length (ESODBC_DIAG_PREFIX ver @ msg)) \<and>
    diag_text d' ! text_len d' = 0 \<and> length (diag_text d') = SQL_MAX_MESSAGE_LENGTH \<and>
    state d' = st \<and> native_code d' = code \<and>
    row_number d' = row_number d \<and> column_number d' = column_number d"
  using post_diagnostic_eq [OF _ _ assms(3-5) refl, of d] assms(1,2)
  by (auto simp: SQL_MAX_MESSAGE_LENGTH_def nth_append min_def)

theorem post_diagnostic_correct_witness:
  "\<exists>d'. post_diagnostic (wlit ''1.0'') \<lparr>state = 0, diag_text = replicate 512 0, text_len = 0,
        native_code = 0, row_number = - 1, column_number = - 1\<rparr> SQL_STATE_HY001 None 7
      = Some (d', SQL_ERROR) \<and> native_code d' = 7 \<and>
    take (text_len d') (diag_text d') =
      wlit ''[Elastic][EsODBC 1.0 Driver]'' @ wlit ''Memory allocation error''"
proof -
  have row: "esodbc_errors ! SQL_STATE_HY001 = (''HY001'', ''Memory allocation error'', SQL_ERROR)"
    by code_simp
  have pre: "ESODBC_DIAG_PREFIX (wlit ''1.0'') = wlit ''[Elastic][EsODBC 1.0 Driver]''"
    by (simp add: ESODBC_DIAG_PREFIX_def wlit_def)
  have ver: "0 \<notin> set (wlit ''1.0'')" by (simp add: wlit_def)
  show ?thesis
    using post_diagnostic_correct [of "\<lparr>state = 0, diag_text = replicate 512 0, text_len = 0,
        native_code = 0, row_number = - 1, column_number = - 1\<rparr>" "wlit ''1.0''" SQL_STATE_HY001 None
        "wlit ''Memory allocation error''" "[]" 7] ver
    by (auto simp: pre row state_message_def state_retcode_def SQL_MAX_MESSAGE_LENGTH_def
        esodbc_errors_length)
qed

text \<open>A narrow message of 512 characters or more makes \<open>post_c_diagnostic\<close> write its
  terminator one unit past its own array; shorter ones are posted like wide ones.
\<close>

theorem post_c_diagnostic_overflow:
  assumes "length (diag_text d) = SQL_MAX_MESSAGE_LENGTH"
    and "length (ESODBC_DIAG_PREFIX ver) < SQL_MAX_MESSAGE_LENGTH"
    and "0 \<notin> set ver" and "st < length esodbc_errors" and "0 \<notin> set msg"
    and "length wtext = SQL_MAX_MESSAGE_LENGTH"
  shows "post_c_diagnostic ver d st (Some (msg @ 0 # rest)) code wtext =
    (if length msg < SQL_MAX_MESSAGE_LENGTH
     then post_diagnostic ver d st (Some (map ucast msg @ [0])) code else None)"
proof (cases "length msg < 512")
  case True
  have z: "0 \<notin> set (map ucast msg :: wstr)"
    using assms(5) by (rule set_ucast_nonzero)
  have "post_diagnostic ver d st (Some (map ucast msg @ 0 # r)) code =
      post_diagnostic ver d st (Some (map ucast msg @ [0])) code" for r
    using post_diagnostic_eq [of d ver st "Some (map ucast msg @ 0 # r)" "map ucast msg" r _ code]
      post_diagnostic_eq [of d ver st "Some (map ucast msg @ [0])" "map ucast msg" "[]" _ code]
      assms z by (simp add: SQL_MAX_MESSAGE_LENGTH_def)
  with True assms show ?thesis
    by (simp add: post_c_diagnostic_def SQL_MAX_MESSAGE_LENGTH_def ascii_c2w_nts)
next
  case False
  have split: "msg @ 0 # rest = take 512 msg @ (drop 512 msg @ 0 # rest)" by simp
  have "0 \<notin> set (take 512 msg)" using assms(5) by (meson in_set_takeD)
  moreover have len: "length (take 512 msg) = 512" "take 512 msg \<noteq> []" using False by auto
  ultimately have "ascii_c2w (msg @ 0 # rest) wtext 512 = None"
    using ascii_c2w_full [of "take 512 msg" wtext "drop 512 msg @ 0 # rest"] assms(6)
    unfolding split len by (simp add: SQL_MAX_MESSAGE_LENGTH_def)
  with False show ?thesis
    by (simp add: post_c_diagnostic_def SQL_MAX_MESSAGE_LENGTH_def)
qed

lemma write_wstr_result:
  assumes "0 \<notin> set s" and "nat (avail div 2) \<le> length buf"
    and "length (diag_text hnd) = SQL_MAX_MESSAGE_LENGTH"
    and "length (ESODBC_DIAG_PREFIX ver) < SQL_MAX_MESSAGE_LENGTH" and "0 \<notin> set ver"
  shows "\<exists>hnd' ret. write_wstr ver hnd (Some buf) (s @ 0 # rest) (length s) avail (Some u) =
      Some (hnd',
        Some (if 2 \<le> avail \<and> even avail
          then take (nat (avail div 2) - 1) s @ 0 # drop (min (nat (avail div 2)) (length s + 1)) buf
          else buf),
        Some (to_i16 (2 * int (length s))), ret) \<and>
    (if avail < 0 \<or> odd avail then ret = SQL_ERROR \<and> state hnd' = SQL_STATE_HY090
     else if 2 * int (length s) + 2 \<le> avail then ret = SQL_SUCCESS \<and> hnd' = hnd
     else ret = SQL_SUCCESS_WITH_INFO \<and> state hnd' = SQL_STATE_01004)"
proof -
  let ?w = "nat (avail div 2)"
  have diag: "\<exists>hnd'. RET_HDIAGS ver hnd st = Some (hnd', state_retcode (esodbc_errors ! st)) \<and> state hnd' = st"
    if "st < 120" for st
    using post_diagnostic_eq [of hnd ver st None _ "[]" _ 0] assms(3-5) that
    by (simp add: RET_HDIAGS_def SQL_MAX_MESSAGE_LENGTH_def esodbc_errors_length)
  have rows: "state_retcode (esodbc_errors ! SQL_STATE_HY090) = SQL_ERROR"
      "state_retcode (esodbc_errors ! SQL_STATE_01004) = SQL_SUCCESS_WITH_INFO"
    by code_simp+
  show ?thesis
  proof (cases "avail < 0 \<or> odd avail")
    case True
    with diag [of SQL_STATE_HY090] rows show ?thesis
      by (auto simp: write_wstr_def mult.commute odd_iff_mod_2_eq_one)
  next
    case False
    then obtain k where "avail = 2 * k" "0 \<le> k" by (auto elim: evenE)
    then obtain w where w: "avail = 2 * int w" by (metis nonneg_int_cases)
    show ?thesis
    proof (cases "w \<le> length s")
      case True
      have "wcsncpy buf 0 (s @ 0 # rest) (w - 1) = Some (take (w - 1) s @ drop (w - 1) buf)"
        using wcsncpy_nts [OF assms(1), of "w - 1" 0 buf rest] assms(2) w True by simp
      moreover have "mem_write (take (w - 1) s @ drop (w - 1) buf) (w - 1) 0 =
          Some (take (w - 1) s @ 0 # drop w buf)" if "0 < w"
      proof -
        have "drop (w - 1) buf = buf ! (w - 1) # drop w buf" "length (take (w - 1) s) = w - 1"
          using True assms(2) w that by (simp_all add: Cons_nth_drop_Suc [symmetric])
        then show ?thesis by (simp add: mem_write_def list_update_append)
      qed
      ultimately show ?thesis
        using diag [of SQL_STATE_01004] rows(2) True
        by (cases "w = 0") (auto simp: write_wstr_def w mult.commute min_def)
    next
      case False
      have "wcsncpy buf 0 (s @ 0 # rest) (Suc (length s)) = Some (s @ 0 # drop (Suc (length s)) buf)"
        using wcsncpy_nts [OF assms(1), of "Suc (length s)" 0 buf rest] assms(2) w False by simp
      moreover have "min w (Suc (length s)) = Suc (length s)" using False by simp
      ultimately show ?thesis using False by (simp add: write_wstr_def w mult.commute)
    qed
  qed
qed

text \<open>
  C26: copying a string to the application. With a valid (non-negative, even) size the
  buffer gets as many units as it has room for besides the terminator, then the
  terminator, and nothing past the size given is touched; the call succeeds when all of
  the string fits and otherwise posts 01004. The reported size is that of the whole
  string in bytes, cut to 16 bits. An invalid size leaves the buffer alone and posts HY090.
\<close>

theorem write_wstr_correct:
  assumes "0 \<notin> set s" and "nat (avail div 2) \<le> length buf"
    and "length (diag_text hnd) = SQL_MAX_MESSAGE_LENGTH"
    and "length (ESODBC_DIAG_PREFIX ver) < SQL_MAX_MESSAGE_LENGTH" and "0 \<notin> set ver"
  shows "\<exists>hnd' ret. write_wstr ver hnd (Some buf) (s @ 0 # rest) (length s) avail (Some u) =
      Some (hnd',
        Some (if 2 \<le> avail \<and> even avail
          then take (nat (avail div 2) - 1) s @ 0 # drop (min (nat (avail div 2)) (length s + 1)) buf
          else buf),
        Some (to_i16 (2 * int (length s))), ret) \<and>
    (if avail < 0 \<or> odd avail then ret = SQL_ERROR \<and> state hnd' = SQL_STATE_HY090
     else if 2 * int (length s) + 2 \<le> avail then ret = SQL_SUCCESS \<and> hnd' = hnd
     else ret = SQL_SUCCESS_WITH_INFO \<and> state hnd' = SQL_STATE_01004)"
  using write_wstr_result [OF assms] .

theorem write_wstr_correct_witness:
  "\<exists>hnd' ret. write_wstr [] \<lparr>state = 0, diag_text = replicate 512 0, text_len = 0,
        native_code = 0, row_number = - 1, column_number = - 1\<rparr> (Some [7, 7, 7, 7])
        (wlit ''abc'' @ [0]) (length ''abc'') 6 (Some 0) = Some (hnd', Some (wlit ''ab'' @ [0, 7]), Some 6, ret) \<and>
     ret = SQL_SUCCESS_WITH_INFO"
proof -
  have "length (ESODBC_DIAG_PREFIX []) < 512" by (simp add: ESODBC_DIAG_PREFIX_def)
  then show ?thesis
    using write_wstr_correct [of "wlit ''abc''" 6 "[7, 7, 7, 7]" "\<lparr>state = 0, diag_text = replicate 512 0,
      text_len = 0, native_code = 0, row_number = - 1, column_number = - 1\<rparr>" "[]" "[]" 0]
    by (auto simp: SQL_MAX_MESSAGE_LENGTH_def wlit_def to_i16_def)
qed

theorem post_c_diagnostic_overflow_witness:
  "post_c_diagnostic [] \<lparr>state = 0, diag_text = replicate 512 0, text_len = 0,
        native_code = 0, row_number = - 1, column_number = - 1\<rparr> SQL_STATE_HY000
        (Some (replicate 512 97 @ [0])) 0 (replicate 512 0) = None"
proof -
  have "length (ESODBC_DIAG_PREFIX []) < 512" by (simp add: ESODBC_DIAG_PREFIX_def)
  then show ?thesis
    using post_c_diagnostic_overflow [of "\<lparr>state = 0, diag_text = replicate 512 0,
      text_len = 0, native_code = 0, row_number = - 1, column_number = - 1\<rparr>" "[]" SQL_STATE_HY000
      "replicate 512 97" "replicate 512 0" "[]" 0]
    by (simp add: SQL_MAX_MESSAGE_LENGTH_def esodbc_errors_length)
qed

end
