(* ===== verification/Dsn_Attrs.thy ===== *)
theory Dsn_Attrs
imports Str_Numbers
begin

text \<open>
  The attributes of a connection (driver/dsn.h, first part of driver/dsn.c).

  \<open>esodbc_dsn_attrs_st\<close> is used by the code both as a struct and, by \<open>init_dsn_attrs\<close>, as
  the array of its first 37 members; here it is that array, the list of the members'
  strings in their declared order, with the member names as positions. A member owns
  \<open>ESODBC_DSN_MAX_ATTR_LEN\<close> units of \<open>buff\<close>, which \<open>dsn_attrs_ok\<close> keeps it within. The
  \<open>map\<close> tables of the code pair each keyword with the member of the same position.

  \<open>attr_store\<close> is the contract between the attributes and the code that fills them (the
  parsers, the defaults, the registry).
\<close>

section \<open>Keywords and members\<close>

definition ESODBC_DSN_MAX_ATTR_LEN :: nat where "ESODBC_DSN_MAX_ATTR_LEN = 768"
definition ESODBC_DSN_ATTRS_COUNT :: nat where "ESODBC_DSN_ATTRS_COUNT = 37"

type_synonym dsn_attrs = "wstr list"

definition ESODBC_DSN_keywords :: "string list" where
  "ESODBC_DSN_keywords =
    [''Driver'', ''Description'', ''DSN'', ''PWD'', ''UID'', ''APIKey'', ''SAVEFILE'',
     ''FILEDSN'', ''CloudID'', ''Server'', ''Port'', ''Secure'', ''CAPath'', ''Timeout'',
     ''Follow'', ''Catalog'', ''Packing'', ''Compression'', ''MaxFetchSize'',
     ''MaxBodySizeMB'', ''ApplyTZ'', ''EarlyExecution'', ''ScientificFloats'',
     ''VarcharLimit'', ''MultiFieldLenient'', ''AutoEscapePVA'', ''IndexIncludeFrozen'',
     ''ProxyEnabled'', ''ProxyType'', ''ProxyHost'', ''ProxyPort'', ''ProxyAuthEnabled'',
     ''ProxyAuthUID'', ''ProxyAuthPWD'', ''TraceEnabled'', ''TraceFile'', ''TraceLevel'']"

abbreviation (input) driver :: nat where "driver \<equiv> 0"
abbreviation (input) description :: nat where "description \<equiv> 1"
abbreviation (input) dsn :: nat where "dsn \<equiv> 2"
abbreviation (input) pwd :: nat where "pwd \<equiv> 3"
abbreviation (input) uid :: nat where "uid \<equiv> 4"
abbreviation (input) api_key :: nat where "api_key \<equiv> 5"
abbreviation (input) savefile :: nat where "savefile \<equiv> 6"
abbreviation (input) filedsn :: nat where "filedsn \<equiv> 7"
abbreviation (input) cloud_id :: nat where "cloud_id \<equiv> 8"
abbreviation (input) server :: nat where "server \<equiv> 9"
abbreviation (input) port :: nat where "port \<equiv> 10"
abbreviation (input) secure :: nat where "secure \<equiv> 11"
abbreviation (input) ca_path :: nat where "ca_path \<equiv> 12"
abbreviation (input) timeout :: nat where "timeout \<equiv> 13"
abbreviation (input) follow :: nat where "follow \<equiv> 14"
abbreviation (input) catalog :: nat where "catalog \<equiv> 15"
abbreviation (input) packing :: nat where "packing \<equiv> 16"
abbreviation (input) compression :: nat where "compression \<equiv> 17"
abbreviation (input) max_fetch_size :: nat where "max_fetch_size \<equiv> 18"
abbreviation (input) max_body_size :: nat where "max_body_size \<equiv> 19"
abbreviation (input) apply_tz :: nat where "apply_tz \<equiv> 20"
abbreviation (input) early_exec :: nat where "early_exec \<equiv> 21"
abbreviation (input) sci_floats :: nat where "sci_floats \<equiv> 22"
abbreviation (input) varchar_limit :: nat where "varchar_limit \<equiv> 23"
abbreviation (input) mfield_lenient :: nat where "mfield_lenient \<equiv> 24"
abbreviation (input) auto_esc_pva :: nat where "auto_esc_pva \<equiv> 25"
abbreviation (input) idx_inc_frozen :: nat where "idx_inc_frozen \<equiv> 26"
abbreviation (input) proxy_enabled :: nat where "proxy_enabled \<equiv> 27"
abbreviation (input) proxy_type :: nat where "proxy_type \<equiv> 28"
abbreviation (input) proxy_host :: nat where "proxy_host \<equiv> 29"
abbreviation (input) proxy_port :: nat where "proxy_port \<equiv> 30"
abbreviation (input) proxy_auth_enabled :: nat where "proxy_auth_enabled \<equiv> 31"
abbreviation (input) proxy_auth_uid :: nat where "proxy_auth_uid \<equiv> 32"
abbreviation (input) proxy_auth_pwd :: nat where "proxy_auth_pwd \<equiv> 33"
abbreviation (input) trace_enabled :: nat where "trace_enabled \<equiv> 34"
abbreviation (input) trace_file :: nat where "trace_file \<equiv> 35"
abbreviation (input) trace_level :: nat where "trace_level \<equiv> 36"

text \<open>The tables of keyword and member; the keyword of a member.\<close>

definition dsn_map :: "(wstr \<times> nat) list" where
  "dsn_map = zip (map wlit ESODBC_DSN_keywords) [0..<ESODBC_DSN_ATTRS_COUNT]"

definition DSN_KW :: "nat \<Rightarrow> wstr" where
  "DSN_KW i = wlit (ESODBC_DSN_keywords ! i)"

definition init_dsn_attrs :: dsn_attrs where
  "init_dsn_attrs = replicate ESODBC_DSN_ATTRS_COUNT []"

section \<open>Assignment\<close>

definition DSN_NOT_MATCHED :: int where "DSN_NOT_MATCHED = 0"
definition DSN_NOT_OVERWRITTEN :: int where "DSN_NOT_OVERWRITTEN = 1"
definition DSN_ASSIGNED :: int where "DSN_ASSIGNED = 2"
definition DSN_OVERWRITTEN :: int where "DSN_OVERWRITTEN = 3"

fun assign_dsn_attr_iter ::
    "(wstr \<times> nat) list \<Rightarrow> dsn_attrs \<Rightarrow> wstr \<Rightarrow> wstr \<Rightarrow> bool \<Rightarrow> dsn_attrs \<times> int" where
  "assign_dsn_attr_iter [] attrs keyword val overwrite = (attrs, DSN_NOT_MATCHED)"
| "assign_dsn_attr_iter ((kw, i) # iter) attrs keyword val overwrite =
     (if \<not> EQ_CASE_WSTR kw keyword then assign_dsn_attr_iter iter attrs keyword val overwrite
      else if length (attrs ! i) \<noteq> 0 then
        (if \<not> overwrite then (attrs, DSN_NOT_OVERWRITTEN)
         else (attrs[i := val], DSN_OVERWRITTEN))
      else (attrs[i := val], DSN_ASSIGNED))"

definition assign_dsn_attr ::
    "dsn_attrs \<Rightarrow> wstr \<Rightarrow> wstr \<Rightarrow> bool \<Rightarrow> dsn_attrs \<times> int" where
  "assign_dsn_attr attrs keyword val overwrite =
     (if ESODBC_DSN_MAX_ATTR_LEN < length val then (attrs, - 1)
      else assign_dsn_attr_iter dsn_map attrs keyword val overwrite)"

section \<open>Defaults\<close>

definition assign_default :: "nat \<times> string \<Rightarrow> dsn_attrs \<Rightarrow> dsn_attrs" where
  "assign_default d attrs = fst (assign_dsn_attr attrs (DSN_KW (fst d)) (wlit (snd d)) False)"

definition cloud_provided_defaults :: "(nat \<times> string) list" where
  "cloud_provided_defaults = [(server, ''127.0.0.1''), (port, ''9200''), (secure, ''1'')]"

definition common_defaults :: "(nat \<times> string) list" where
  "common_defaults =
    [(timeout, ''0''), (follow, ''true''), (packing, ''CBOR''), (compression, ''auto''),
     (max_fetch_size, ''0''), (max_body_size, ''100''), (apply_tz, ''false''),
     (early_exec, ''true''), (sci_floats, ''default''), (varchar_limit, ''0''),
     (mfield_lenient, ''true''), (auto_esc_pva, ''true''), (idx_inc_frozen, ''false''),
     (proxy_enabled, ''false''), (proxy_auth_enabled, ''false''),
     (trace_enabled, ''0''), (trace_level, ''WARN'')]"

definition assign_dsn_defaults :: "dsn_attrs \<Rightarrow> dsn_attrs" where
  "assign_dsn_defaults attrs =
     fold assign_default common_defaults
       (if length (attrs ! cloud_id) = 0 then fold assign_default cloud_provided_defaults attrs
        else attrs)"

section \<open>The contract of the attributes\<close>

text \<open>
  \<open>member kw\<close> is the attribute a keyword names, \<open>get s i\<close> the value an attribute holds
  (empty when unassigned), \<open>room\<close> the longest value.
\<close>

locale attr_store =
  fixes assign :: "'s \<Rightarrow> wstr \<Rightarrow> wstr \<Rightarrow> bool \<Rightarrow> 's \<times> int"
    and member :: "wstr \<Rightarrow> nat option"
    and get :: "'s \<Rightarrow> nat \<Rightarrow> wstr"
    and ok :: "'s \<Rightarrow> bool"
    and room :: nat
  assumes assign_ok: "ok s \<Longrightarrow> ok (fst (assign s kw v ow))"
    and assign_too_long: "room < length v \<Longrightarrow> assign s kw v ow = (s, - 1)"
    and get_assign: "ok s \<Longrightarrow> length v \<le> room \<Longrightarrow>
      get (fst (assign s kw v ow)) i =
        (if member kw = Some i \<and> (ow \<or> get s i = []) then v else get s i)"
    and assign_code: "ok s \<Longrightarrow> length v \<le> room \<Longrightarrow>
      snd (assign s kw v ow) = (case member kw of None \<Rightarrow> DSN_NOT_MATCHED
        | Some i \<Rightarrow> if get s i = [] then DSN_ASSIGNED
                   else if ow then DSN_OVERWRITTEN else DSN_NOT_OVERWRITTEN)"
    and ext: "ok s \<Longrightarrow> ok t \<Longrightarrow> (\<And>i. get s i = get t i) \<Longrightarrow> s = t"
begin

definition assigns :: "bool \<Rightarrow> (wstr \<times> wstr) list \<Rightarrow> 's \<Rightarrow> 's" where
  "assigns ow kvs s = fold (\<lambda>(kw, v) s. fst (assign s kw v ow)) kvs s"

lemma assigns_Nil [simp]: "assigns ow [] s = s"
  by (simp add: assigns_def)

lemma assigns_Cons [simp]: "assigns ow ((kw, v) # kvs) s = assigns ow kvs (fst (assign s kw v ow))"
  by (simp add: assigns_def)

lemma assigns_ok: "ok s \<Longrightarrow> ok (assigns ow kvs s)"
  by (induction kvs arbitrary: s) (auto simp: assign_ok)

lemma assigns_append: "assigns ow (xs @ ys) s = assigns ow ys (assigns ow xs s)"
  by (simp add: assigns_def)

lemma get_assigns_other:
  assumes "ok s" and "\<forall>(kw, v) \<in> set kvs. length v \<le> room \<and> member kw \<noteq> Some i"
  shows "get (assigns ow kvs s) i = get s i"
  using assms by (induction kvs arbitrary: s) (auto simp: get_assign assign_ok)

text \<open>With keywords of different attributes the order does not matter.\<close>

lemma get_assigns_distinct:
  assumes "ok s" and "\<forall>(kw, v) \<in> set kvs. length v \<le> room" and "distinct (map (member \<circ> fst) kvs)"
    and "(kw, v) \<in> set kvs" and "member kw = Some i"
  shows "get (assigns True kvs s) i = v"
  using assms
proof (induction kvs arbitrary: s)
  case (Cons kv kvs)
  obtain kw' v' where kv: "kv = (kw', v')" by (cases kv)
  let ?s = "fst (assign s kw' v' True)"
  have s: "ok ?s" using Cons.prems(1) by (rule assign_ok)
  show ?case
  proof (cases "(kw, v) = (kw', v')")
    case True
    then have "\<forall>(k, w) \<in> set kvs. length w \<le> room \<and> member k \<noteq> Some i"
      using Cons.prems kv by (auto simp: image_iff)
    with True Cons.prems kv s show ?thesis by (simp add: get_assigns_other get_assign)
  next
    case False
    with Cons kv s show ?thesis by auto
  qed
qed simp

lemma get_assigns_blank:
  assumes "ok s" and "\<forall>(kw, v) \<in> set kvs. length v \<le> room" and "distinct (map (member \<circ> fst) kvs)"
    and "(kw, v) \<in> set kvs" and "member kw = Some i" and "get s i = []"
  shows "get (assigns False kvs s) i = v"
  using assms
proof (induction kvs arbitrary: s)
  case (Cons kv kvs)
  obtain kw' v' where kv: "kv = (kw', v')" by (cases kv)
  let ?s = "fst (assign s kw' v' False)"
  have s: "ok ?s" using Cons.prems(1) by (rule assign_ok)
  show ?case
  proof (cases "(kw, v) = (kw', v')")
    case True
    then have "\<forall>(k, w) \<in> set kvs. length w \<le> room \<and> member k \<noteq> Some i"
      using Cons.prems kv by (auto simp: image_iff)
    with True Cons.prems kv s show ?thesis by (simp add: get_assigns_other get_assign)
  next
    case False
    then have in_kvs: "(kw, v) \<in> set kvs" using Cons.prems kv by auto
    then have "member kw' \<noteq> Some i" using Cons.prems kv by (auto simp: image_iff)
    then have "get ?s i = []" using Cons.prems kv by (simp add: get_assign)
    with Cons.IH [OF s] in_kvs Cons.prems kv show ?thesis by auto
  qed
qed simp

lemma get_assigns_keep:
  assumes "ok s" and "\<forall>(kw, v) \<in> set kvs. length v \<le> room" and "get s i \<noteq> []"
  shows "get (assigns False kvs s) i = get s i"
  using assms by (induction kvs arbitrary: s) (auto simp: get_assign assign_ok)

lemma get_assigns_set:
  assumes "ok s" and "\<forall>(kw, v) \<in> set kvs. length v \<le> room \<and> v \<noteq> []"
    and "(kw, v) \<in> set kvs" and "member kw = Some i"
  shows "get (assigns False kvs s) i \<noteq> []"
  using assms
proof (induction kvs arbitrary: s)
  case (Cons kv kvs)
  obtain kw' v' where kv: "kv = (kw', v')" by (cases kv)
  let ?s = "fst (assign s kw' v' False)"
  have s: "ok ?s" using Cons.prems(1) by (rule assign_ok)
  show ?case
  proof (cases "(kw, v) = (kw', v')")
    case True
    then have "get ?s i \<noteq> []" using Cons.prems kv by (simp add: get_assign)
    then have "get (assigns False kvs ?s) i = get ?s i"
      using Cons.prems s by (intro get_assigns_keep) auto
    with \<open>get ?s i \<noteq> []\<close> kv show ?thesis by simp
  next
    case False
    with Cons kv s show ?thesis by auto
  qed
qed simp

text \<open>Filling in the blanks a second time changes nothing.\<close>

lemma assigns_False_idem:
  assumes "ok s" and "\<forall>(kw, v) \<in> set kvs. length v \<le> room \<and> v \<noteq> []"
  shows "assigns False kvs (assigns False kvs s) = assigns False kvs s"
proof (rule ext)
  let ?t = "assigns False kvs s"
  show t: "ok ?t" using assms(1) by (rule assigns_ok)
  then show "ok (assigns False kvs ?t)" by (rule assigns_ok)
  have len: "\<forall>(kw, v) \<in> set kvs. length v \<le> room" using assms(2) by auto
  fix i
  show "get (assigns False kvs ?t) i = get ?t i"
  proof (cases "\<exists>(kw, v) \<in> set kvs. member kw = Some i")
    case True
    then obtain kw v where "(kw, v) \<in> set kvs" "member kw = Some i" by auto
    then have "get ?t i \<noteq> []" using assms by (intro get_assigns_set)
    then show ?thesis using t len by (intro get_assigns_keep)
  next
    case False
    then show ?thesis using t len by (intro get_assigns_other) auto
  qed
qed

end

section \<open>The model keeps the contract\<close>

definition dsn_attrs_ok :: "dsn_attrs \<Rightarrow> bool" where
  "dsn_attrs_ok attrs \<longleftrightarrow> length attrs = ESODBC_DSN_ATTRS_COUNT \<and>
     (\<forall>v \<in> set attrs. length v \<le> ESODBC_DSN_MAX_ATTR_LEN)"

definition dsn_get :: "dsn_attrs \<Rightarrow> nat \<Rightarrow> wstr" where
  "dsn_get attrs i = (if i < ESODBC_DSN_ATTRS_COUNT then attrs ! i else [])"

fun find_member :: "(wstr \<times> nat) list \<Rightarrow> wstr \<Rightarrow> nat option" where
  "find_member [] keyword = None"
| "find_member ((kw, i) # m) keyword =
     (if EQ_CASE_WSTR kw keyword then Some i else find_member m keyword)"

definition dsn_member :: "wstr \<Rightarrow> nat option" where
  "dsn_member keyword = find_member dsn_map keyword"

lemma assign_dsn_attr_iter_eq:
  "assign_dsn_attr_iter m attrs keyword val ow =
     (case find_member m keyword of None \<Rightarrow> (attrs, DSN_NOT_MATCHED)
      | Some i \<Rightarrow> if attrs ! i = [] then (attrs[i := val], DSN_ASSIGNED)
                 else if ow then (attrs[i := val], DSN_OVERWRITTEN)
                 else (attrs, DSN_NOT_OVERWRITTEN))"
  by (induction m attrs keyword val ow rule: assign_dsn_attr_iter.induct) auto

lemma find_member_in: "find_member m keyword = Some i \<Longrightarrow> i \<in> snd ` set m"
  by (induction m keyword rule: find_member.induct) (auto split: if_splits)

lemma dsn_map_members: "snd ` set dsn_map = {..<ESODBC_DSN_ATTRS_COUNT}"
proof -
  have "length ESODBC_DSN_keywords = ESODBC_DSN_ATTRS_COUNT" by code_simp
  then have "map snd dsn_map = [0..<ESODBC_DSN_ATTRS_COUNT]" by (simp add: dsn_map_def)
  then have "snd ` set dsn_map = set [0..<ESODBC_DSN_ATTRS_COUNT]" by (metis list.set_map)
  then show ?thesis by auto
qed

lemma dsn_member_bound: "dsn_member keyword = Some i \<Longrightarrow> i < ESODBC_DSN_ATTRS_COUNT"
  using find_member_in [of dsn_map keyword i] dsn_map_members by (auto simp: dsn_member_def)

interpretation dsn_store: attr_store assign_dsn_attr dsn_member dsn_get dsn_attrs_ok ESODBC_DSN_MAX_ATTR_LEN
proof
  fix s :: dsn_attrs and kw v :: wstr and ow i
  show "dsn_attrs_ok (fst (assign_dsn_attr s kw v ow))" if "dsn_attrs_ok s"
    using that by (auto simp: assign_dsn_attr_def assign_dsn_attr_iter_eq dsn_attrs_ok_def
        dest!: set_update_subset_insert [THEN subsetD] split: option.split)
  show "assign_dsn_attr s kw v ow = (s, - 1)" if "ESODBC_DSN_MAX_ATTR_LEN < length v"
    using that by (simp add: assign_dsn_attr_def)
  show "dsn_get (fst (assign_dsn_attr s kw v ow)) i =
      (if dsn_member kw = Some i \<and> (ow \<or> dsn_get s i = []) then v else dsn_get s i)"
    if "dsn_attrs_ok s" "length v \<le> ESODBC_DSN_MAX_ATTR_LEN"
    using that dsn_member_bound [of kw]
    by (auto simp: assign_dsn_attr_def assign_dsn_attr_iter_eq dsn_attrs_ok_def dsn_get_def
        dsn_member_def nth_list_update split: option.splits)
  show "snd (assign_dsn_attr s kw v ow) = (case dsn_member kw of None \<Rightarrow> DSN_NOT_MATCHED
      | Some i \<Rightarrow> if dsn_get s i = [] then DSN_ASSIGNED
                 else if ow then DSN_OVERWRITTEN else DSN_NOT_OVERWRITTEN)"
    if "dsn_attrs_ok s" "length v \<le> ESODBC_DSN_MAX_ATTR_LEN"
    using that dsn_member_bound [of kw]
    by (auto simp: assign_dsn_attr_def assign_dsn_attr_iter_eq dsn_get_def dsn_member_def
        split: option.splits)
next
  fix s t :: dsn_attrs
  assume "dsn_attrs_ok s" "dsn_attrs_ok t" and eq: "\<And>i. dsn_get s i = dsn_get t i"
  then have len: "length s = length t" "length t = ESODBC_DSN_ATTRS_COUNT"
    by (simp_all add: dsn_attrs_ok_def)
  have "s ! i = t ! i" if "i < length s" for i
    using eq [of i] that len by (simp add: dsn_get_def)
  with len(1) show "s = t" by (rule nth_equalityI)
qed

text \<open>No two keywords are equal when case is ignored, so each names its own member.\<close>

lemma keywords_distinct: "distinct (map (map towlower) (map wlit ESODBC_DSN_keywords))"
  by code_simp

lemma dsn_member_DSN_KW:
  "list_all (\<lambda>i. dsn_member (DSN_KW i) = Some i) [0..<ESODBC_DSN_ATTRS_COUNT]"
  by code_simp

lemma dsn_member_kw: "i < ESODBC_DSN_ATTRS_COUNT \<Longrightarrow> dsn_member (DSN_KW i) = Some i"
  using dsn_member_DSN_KW by (simp add: list_all_iff)

lemma find_member_fold:
  "map towlower kw = map towlower kw' \<Longrightarrow> find_member m kw = find_member m kw'"
  by (induction m kw rule: find_member.induct) (auto simp: EQ_CASE_WSTR_iff)

lemma find_member_eq: "find_member m kw = Some i \<Longrightarrow> \<exists>k. (k, i) \<in> set m \<and> EQ_CASE_WSTR k kw"
  by (induction m kw rule: find_member.induct) (auto split: if_splits)

lemma dsn_member_iff:
  "dsn_member kw = Some i \<longleftrightarrow> i < ESODBC_DSN_ATTRS_COUNT \<and> EQ_CASE_WSTR (DSN_KW i) kw"
proof
  assume m: "dsn_member kw = Some i"
  then obtain k where "(k, i) \<in> set dsn_map" "EQ_CASE_WSTR k kw"
    using find_member_eq unfolding dsn_member_def by blast
  moreover then have "k = DSN_KW i" by (auto simp: dsn_map_def set_zip DSN_KW_def)
  ultimately show "i < ESODBC_DSN_ATTRS_COUNT \<and> EQ_CASE_WSTR (DSN_KW i) kw"
    using dsn_member_bound [OF m] by simp
next
  assume i: "i < ESODBC_DSN_ATTRS_COUNT \<and> EQ_CASE_WSTR (DSN_KW i) kw"
  then have "dsn_member (DSN_KW i) = dsn_member kw"
    unfolding dsn_member_def by (intro find_member_fold) (simp add: EQ_CASE_WSTR_iff)
  with dsn_member_kw i show "dsn_member kw = Some i" by simp
qed

lemma init_dsn_attrs_ok: "dsn_attrs_ok init_dsn_attrs"
  by (simp add: dsn_attrs_ok_def init_dsn_attrs_def)

lemma dsn_get_init [simp]: "dsn_get init_dsn_attrs i = []"
  by (simp add: dsn_get_def init_dsn_attrs_def)

lemma assign_default_eq:
  "fold assign_default ds attrs =
     dsn_store.assigns False (map (\<lambda>(i, v). (DSN_KW i, wlit v)) ds) attrs"
  by (induction ds arbitrary: attrs) (auto simp: assign_default_def)

text \<open>The defaults that apply to given attributes.\<close>

definition dsn_defaults :: "dsn_attrs \<Rightarrow> (nat \<times> string) list" where
  "dsn_defaults attrs =
     (if dsn_get attrs cloud_id = [] then cloud_provided_defaults else []) @ common_defaults"

lemma assign_dsn_defaults_eq:
  "dsn_attrs_ok attrs \<Longrightarrow> assign_dsn_defaults attrs =
     dsn_store.assigns False (map (\<lambda>(i, v). (DSN_KW i, wlit v)) (dsn_defaults attrs)) attrs"
  by (auto simp: assign_dsn_defaults_def dsn_defaults_def assign_default_eq dsn_store.assigns_append
      dsn_get_def ESODBC_DSN_ATTRS_COUNT_def dsn_store.assigns_def)

lemma defaults_members:
  "list_all (\<lambda>(i, v). i < ESODBC_DSN_ATTRS_COUNT \<and> i \<noteq> cloud_id \<and> v \<noteq> [] \<and> length v \<le> 20)
     (cloud_provided_defaults @ common_defaults)"
  and defaults_distinct: "distinct (map fst (cloud_provided_defaults @ common_defaults))"
  by code_simp+

section \<open>Properties\<close>

text \<open>
  C27: assigning an attribute. The keyword is matched ignoring case against the 37 known
  ones; the member it names takes the value when it was empty or overwriting was asked
  for, and no other member changes. The code returned tells which of these happened. A
  value longer than the room of a member is refused, and members never outgrow their room.
\<close>

theorem assign_dsn_attr_correct:
  assumes "dsn_attrs_ok attrs"
  shows "dsn_attrs_ok (fst (assign_dsn_attr attrs keyword val overwrite)) \<and>
    (ESODBC_DSN_MAX_ATTR_LEN < length val \<longrightarrow> assign_dsn_attr attrs keyword val overwrite = (attrs, - 1)) \<and>
    (length val \<le> ESODBC_DSN_MAX_ATTR_LEN \<longrightarrow>
      (\<forall>i < ESODBC_DSN_ATTRS_COUNT.
        EQ_CASE_WSTR (DSN_KW i) keyword \<longrightarrow>
          assign_dsn_attr attrs keyword val overwrite =
            (if attrs ! i = [] then (attrs[i := val], DSN_ASSIGNED)
             else if overwrite then (attrs[i := val], DSN_OVERWRITTEN)
             else (attrs, DSN_NOT_OVERWRITTEN))) \<and>
      ((\<forall>i < ESODBC_DSN_ATTRS_COUNT. \<not> EQ_CASE_WSTR (DSN_KW i) keyword) \<longrightarrow>
          assign_dsn_attr attrs keyword val overwrite = (attrs, DSN_NOT_MATCHED)))"
proof (intro conjI)
  have eq: "assign_dsn_attr attrs keyword val overwrite =
      (case dsn_member keyword of None \<Rightarrow> (attrs, DSN_NOT_MATCHED)
      | Some i \<Rightarrow> if attrs ! i = [] then (attrs[i := val], DSN_ASSIGNED)
                 else if overwrite then (attrs[i := val], DSN_OVERWRITTEN)
                 else (attrs, DSN_NOT_OVERWRITTEN))" if "length val \<le> ESODBC_DSN_MAX_ATTR_LEN"
    using that by (simp add: assign_dsn_attr_def assign_dsn_attr_iter_eq dsn_member_def)
  show "length val \<le> ESODBC_DSN_MAX_ATTR_LEN \<longrightarrow>
      (\<forall>i < ESODBC_DSN_ATTRS_COUNT.
        EQ_CASE_WSTR (DSN_KW i) keyword \<longrightarrow>
          assign_dsn_attr attrs keyword val overwrite =
            (if attrs ! i = [] then (attrs[i := val], DSN_ASSIGNED)
             else if overwrite then (attrs[i := val], DSN_OVERWRITTEN)
             else (attrs, DSN_NOT_OVERWRITTEN))) \<and>
      ((\<forall>i < ESODBC_DSN_ATTRS_COUNT. \<not> EQ_CASE_WSTR (DSN_KW i) keyword) \<longrightarrow>
          assign_dsn_attr attrs keyword val overwrite = (attrs, DSN_NOT_MATCHED))"
  proof (intro impI conjI allI)
    fix i
    assume len: "length val \<le> ESODBC_DSN_MAX_ATTR_LEN"
      and "i < ESODBC_DSN_ATTRS_COUNT" "EQ_CASE_WSTR (DSN_KW i) keyword"
    then have "dsn_member keyword = Some i" by (simp add: dsn_member_iff)
    then show "assign_dsn_attr attrs keyword val overwrite =
            (if attrs ! i = [] then (attrs[i := val], DSN_ASSIGNED)
             else if overwrite then (attrs[i := val], DSN_OVERWRITTEN)
             else (attrs, DSN_NOT_OVERWRITTEN))"
      by (simp add: eq [OF len])
  next
    assume len: "length val \<le> ESODBC_DSN_MAX_ATTR_LEN"
      and "\<forall>i < ESODBC_DSN_ATTRS_COUNT. \<not> EQ_CASE_WSTR (DSN_KW i) keyword"
    then have "dsn_member keyword = None"
      using dsn_member_iff by (cases "dsn_member keyword") auto
    then show "assign_dsn_attr attrs keyword val overwrite = (attrs, DSN_NOT_MATCHED)"
      by (simp add: eq [OF len])
  qed
qed (simp_all add: dsn_store.assign_ok [OF assms] dsn_store.assign_too_long)

theorem assign_dsn_attr_correct_witness:
  "assign_dsn_attr init_dsn_attrs (wlit ''sERVER'') (wlit ''h'') False =
     (init_dsn_attrs[server := wlit ''h''], DSN_ASSIGNED)"
proof -
  have "EQ_CASE_WSTR (DSN_KW server) (wlit ''sERVER'')" by code_simp
  then show ?thesis
    using assign_dsn_attr_correct [OF init_dsn_attrs_ok, of "wlit ''sERVER''" "wlit ''h''" False]
    by (simp add: init_dsn_attrs_def ESODBC_DSN_ATTRS_COUNT_def ESODBC_DSN_MAX_ATTR_LEN_def)
qed


text \<open>Filling in the defaults. No attribute the user has set changes; afterwards every
  attribute that has a default has a value; server, port and security are left to the
  cloud ID when there is one; doing it again changes nothing.
\<close>

theorem assign_dsn_defaults_correct:
  assumes "dsn_attrs_ok attrs"
  shows "dsn_attrs_ok (assign_dsn_defaults attrs) \<and>
    (\<forall>i < ESODBC_DSN_ATTRS_COUNT. attrs ! i \<noteq> [] \<longrightarrow> assign_dsn_defaults attrs ! i = attrs ! i) \<and>
    list_all (\<lambda>(i, v). attrs ! i = [] \<longrightarrow> assign_dsn_defaults attrs ! i = wlit v) common_defaults \<and>
    list_all (\<lambda>(i, v). attrs ! i = [] \<longrightarrow>
      assign_dsn_defaults attrs ! i = (if attrs ! cloud_id = [] then wlit v else [])) cloud_provided_defaults \<and>
    assign_dsn_defaults (assign_dsn_defaults attrs) = assign_dsn_defaults attrs"
proof -
  let ?kvs = "map (\<lambda>(i, v). (DSN_KW i, wlit v)) (dsn_defaults attrs)"
  let ?t = "assign_dsn_defaults attrs"
  have sub: "set (dsn_defaults attrs) \<subseteq> set (cloud_provided_defaults @ common_defaults)"
    by (auto simp: dsn_defaults_def)
  have mem: "i < ESODBC_DSN_ATTRS_COUNT \<and> i \<noteq> cloud_id \<and> v \<noteq> [] \<and> length v \<le> 20"
    if "(i, v) \<in> set (dsn_defaults attrs)" for i v
    using subsetD [OF sub that] defaults_members by (auto simp: list_all_iff)
  have room: "\<forall>(kw, v) \<in> set ?kvs. length v \<le> ESODBC_DSN_MAX_ATTR_LEN"
    using mem by (fastforce simp: ESODBC_DSN_MAX_ATTR_LEN_def)
  have nonempty: "\<forall>(kw, v) \<in> set ?kvs. length v \<le> ESODBC_DSN_MAX_ATTR_LEN \<and> v \<noteq> []"
    using room mem by (auto simp: wlit_def)
  have "map (dsn_member \<circ> fst) ?kvs = map Some (map fst (dsn_defaults attrs))"
    using mem by (auto simp: dsn_member_kw)
  moreover have "distinct (map fst (dsn_defaults attrs))"
    using defaults_distinct by (simp add: dsn_defaults_def)
  then have "distinct (map Some (map fst (dsn_defaults attrs)))"
    by (subst distinct_map) simp
  ultimately have dist: "distinct (map (dsn_member \<circ> fst) ?kvs)"
    by (simp only:)
  have t: "?t = dsn_store.assigns False ?kvs attrs"
    using assms by (rule assign_dsn_defaults_eq)
  have ok: "dsn_attrs_ok ?t" unfolding t using assms by (rule dsn_store.assigns_ok)
  have set_v: "dsn_get ?t i = wlit v" if "(i, v) \<in> set (dsn_defaults attrs)" "dsn_get attrs i = []" for i v
    unfolding t using assms room dist _ _ that(2)
    by (rule dsn_store.get_assigns_blank) (use that mem dsn_member_kw in force)+
  have other: "dsn_get ?t i = dsn_get attrs i" if "i \<notin> fst ` set (dsn_defaults attrs)" for i
    unfolding t using assms
    by (rule dsn_store.get_assigns_other)
      (use that room mem in \<open>fastforce simp: dsn_member_kw image_iff\<close>)
  have "cloud_id \<notin> fst ` set (dsn_defaults attrs)" using mem by force
  then have "dsn_defaults ?t = dsn_defaults attrs" using other by (simp add: dsn_defaults_def)
  then have idem: "assign_dsn_defaults ?t = ?t"
    using assign_dsn_defaults_eq [OF ok] dsn_store.assigns_False_idem [OF assms nonempty] t by simp
  have keep: "dsn_get ?t i = dsn_get attrs i" if "dsn_get attrs i \<noteq> []" for i
    unfolding t using assms room that by (rule dsn_store.get_assigns_keep)
  have len: "length attrs = 37" "length ?t = 37"
    using assms ok by (simp_all add: dsn_attrs_ok_def ESODBC_DSN_ATTRS_COUNT_def)
  have bound: "i < 37" if "(i, v) \<in> set (cloud_provided_defaults @ common_defaults)" for i v
    using defaults_members that by (auto simp: list_all_iff ESODBC_DSN_ATTRS_COUNT_def)
  have get: "dsn_get a i = a ! i" if "i < 37" for a i
    using that by (simp add: dsn_get_def ESODBC_DSN_ATTRS_COUNT_def)
  show ?thesis
  proof (intro conjI ok idem)
    show "\<forall>i < ESODBC_DSN_ATTRS_COUNT. attrs ! i \<noteq> [] \<longrightarrow> ?t ! i = attrs ! i"
    proof (intro allI impI)
      fix i assume "i < ESODBC_DSN_ATTRS_COUNT" "attrs ! i \<noteq> []"
      with keep [of i] show "?t ! i = attrs ! i" by (simp add: get ESODBC_DSN_ATTRS_COUNT_def)
    qed
    show "list_all (\<lambda>(i, v). attrs ! i = [] \<longrightarrow> ?t ! i = wlit v) common_defaults"
    proof (clarsimp simp: list_all_iff)
      fix i v assume c: "(i, v) \<in> set common_defaults" "attrs ! i = []"
      then have "i < 37" using bound by auto
      with c set_v [of i v] show "?t ! i = wlit v" by (simp add: dsn_defaults_def get)
    qed
    show "list_all (\<lambda>(i, v). attrs ! i = [] \<longrightarrow>
        ?t ! i = (if attrs ! cloud_id = [] then wlit v else [])) cloud_provided_defaults"
    proof (clarsimp simp: list_all_iff, intro conjI impI)
      fix i v assume c: "(i, v) \<in> set cloud_provided_defaults" "attrs ! i = []"
      then have i: "i < 37" using bound by auto
      {
        assume "attrs ! cloud_id = []"
        with c i set_v [of i v] show "?t ! i = wlit v" by (simp add: dsn_defaults_def get)
      next
        assume "attrs ! cloud_id \<noteq> []"
        moreover have "i \<notin> fst ` set common_defaults"
          using c(1) defaults_distinct by (auto simp: image_iff) (metis disjoint_iff fst_conv image_eqI)
        ultimately show "?t ! i = []" using c i other [of i] by (simp add: dsn_defaults_def get)
      }
    qed
  qed
qed

theorem assign_dsn_defaults_correct_witness:
  "assign_dsn_defaults (assign_dsn_defaults (init_dsn_attrs[server := wlit ''h''])) =
     assign_dsn_defaults (init_dsn_attrs[server := wlit ''h'']) \<and>
   assign_dsn_defaults (init_dsn_attrs[server := wlit ''h'']) ! server = wlit ''h''"
proof -
  have "dsn_attrs_ok (init_dsn_attrs[server := wlit ''h''])" by code_simp
  then show ?thesis
    using assign_dsn_defaults_correct [of "init_dsn_attrs[server := wlit ''h'']"]
    by (simp add: init_dsn_attrs_def ESODBC_DSN_ATTRS_COUNT_def wlit_def)
qed

end
