(* ===== verification/Dsn_Parse.thy ===== *)
theory Dsn_Parse
imports Dsn_Attrs
begin

text \<open>
  The connection string parser of driver/dsn.c.

  A position in the string is the list of units from it up to the end the parser was
  given; advancing drops units. \<open>parse_connection_string\<close> gets the memory from its argument
  on: with a length it looks at that many units, without one at up to \<open>SHRT_MAX\<close> of them.
  It stops at the first terminator in any case.
\<close>

section \<open>Tokens\<close>

definition is_ws :: "sqlwchar \<Rightarrow> bool" where
  "is_ws c \<longleftrightarrow> c = 32 \<or> c = 9 \<or> c = 13 \<or> c = 10"

text \<open>The new position and whether it is returned (\<open>False\<close>: the null pointer is).\<close>

fun skip_ws :: "wstr \<Rightarrow> bool \<Rightarrow> wstr \<times> bool" where
  "skip_ws [] extended = ([], False)"
| "skip_ws (c # pos) extended =
     (if is_ws c then skip_ws pos extended
      else if c = 0 then (c # pos, False)
      else if c = 59 \<and> extended then skip_ws pos extended
      else (c # pos, True))"

text \<open>
  The loop of \<open>parse_token\<close>: \<open>n\<close> units have been read since \<open>start\<close>. \<open>None\<close> is an error
  return; the result is the position, the units read, the open braces and
  \<open>brace_escaped\<close>.
\<close>

fun parse_token_loop ::
    "bool \<Rightarrow> wstr \<Rightarrow> nat \<Rightarrow> nat \<Rightarrow> (wstr \<times> nat \<times> nat \<times> bool) option" where
  "parse_token_loop is_value [] n open_braces = Some ([], n, open_braces, False)"
| "parse_token_loop is_value (c # pos) n open_braces =
     (if c = 92 then
        (if \<not> is_value then None else parse_token_loop is_value pos (Suc n) open_braces)
      else if is_ws c \<or> c = 61 then
        (if 0 < open_braces \<or> is_value then parse_token_loop is_value pos (Suc n) open_braces
         else Some (c # pos, n, open_braces, False))
      else if c = 59 then
        (if 0 < open_braces then parse_token_loop is_value pos (Suc n) open_braces
         else if is_value then Some (c # pos, n, open_braces, False) else None)
      else if c = 0 then
        (if 0 < open_braces then None
         else if \<not> is_value then None else Some (c # pos, n, open_braces, False))
      else if c = 123 then
        (if n = 0 then parse_token_loop is_value pos (Suc n) (Suc open_braces)
         else if 0 < open_braces then None
         else parse_token_loop is_value pos (Suc n) open_braces)
      else if c = 125 then
        (if 0 < open_braces then Some (pos, Suc n, open_braces - 1, True)
         else parse_token_loop is_value pos (Suc n) open_braces)
      else parse_token_loop is_value pos (Suc n) open_braces)"

text \<open>The token and the position after it.\<close>

definition parse_token :: "bool \<Rightarrow> wstr \<Rightarrow> (wstr \<times> wstr) option" where
  "parse_token is_value start =
     (case parse_token_loop is_value start 0 0 of
        None \<Rightarrow> None
      | Some (pos, n, open_braces, brace_escaped) \<Rightarrow>
          if 0 < open_braces then None
          else Some (take (n - (if brace_escaped then 2 else 0))
                       (drop (if brace_escaped then 1 else 0) start), pos))"

fun parse_separator :: "wstr \<Rightarrow> wstr option" where
  "parse_separator [] = None"
| "parse_separator (c # pos) = (if c = 61 then Some pos else None)"

section \<open>Connection strings\<close>

lemma skip_ws_length: "skip_ws pos ext = (pos', r) \<Longrightarrow> length pos' \<le> length pos"
  by (induction pos ext rule: skip_ws.induct) (auto split: if_splits)

lemma parse_token_loop_length:
  "parse_token_loop v pos n ob = Some (pos', n', ob', be) \<Longrightarrow> length pos' \<le> length pos"
  by (induction v pos n ob rule: parse_token_loop.induct) (auto split: if_splits)

lemma parse_token_length: "parse_token v pos = Some (t, pos') \<Longrightarrow> length pos' \<le> length pos"
  by (auto simp: parse_token_def split: option.splits if_splits dest: parse_token_loop_length)

lemma parse_separator_length: "parse_separator pos = Some pos' \<Longrightarrow> length pos' < length pos"
  by (cases pos) (auto split: if_splits)

text \<open>The attributes after the loop from \<open>pos\<close> on, and what it returns.\<close>

function parse_connection_string_loop :: "dsn_attrs \<Rightarrow> wstr \<Rightarrow> dsn_attrs \<times> bool" where
  "parse_connection_string_loop attrs pos =
     (case skip_ws pos True of (pos, False) \<Rightarrow> (attrs, True) | (pos, True) \<Rightarrow>
      (case parse_token False pos of None \<Rightarrow> (attrs, False) | Some (keyword, pos) \<Rightarrow>
       (case skip_ws pos False of (pos, False) \<Rightarrow> (attrs, False) | (pos, True) \<Rightarrow>
        (case parse_separator pos of None \<Rightarrow> (attrs, False) | Some pos \<Rightarrow>
         (case skip_ws pos False of
            (pos, False) \<Rightarrow> parse_connection_string_loop attrs pos
          | (pos, True) \<Rightarrow>
              (case parse_token True pos of None \<Rightarrow> (attrs, False) | Some (val, pos) \<Rightarrow>
               (case assign_dsn_attr attrs keyword val True of (attrs, ret) \<Rightarrow>
                  if ret < 0 then (attrs, False)
                  else parse_connection_string_loop attrs pos)))))))"
  by pat_completeness auto
termination
  by (relation "measure (length \<circ> snd)")
    (auto dest!: skip_ws_length [OF sym] parse_token_length parse_separator_length)

declare parse_connection_string_loop.simps [simp del]

definition SQL_NTS :: int where "SQL_NTS = - 3"

definition parse_connection_string :: "dsn_attrs \<Rightarrow> wstr \<Rightarrow> int \<Rightarrow> dsn_attrs \<times> bool" where
  "parse_connection_string attrs szConnStrIn cchConnStrIn =
     parse_connection_string_loop attrs
       (take (if cchConnStrIn = SQL_NTS then 32767 else nat cchConnStrIn) szConnStrIn)"

text \<open>The list's memory from \<open>pos\<close> on; \<open>None\<close> when it has no end.\<close>

function parse_00_list :: "dsn_attrs \<Rightarrow> wstr \<Rightarrow> (dsn_attrs \<times> bool) option" where
  "parse_00_list attrs pos =
     (case pos of
        [] \<Rightarrow> None
      | c # _ \<Rightarrow>
          if c = 0 then Some (attrs, True)
          else (case mem_strlen pos of
             None \<Rightarrow> None
           | Some cnt \<Rightarrow>
               if 32767 < cnt then Some (attrs, False)
               else (case parse_connection_string attrs pos (to_i16 (int cnt)) of
                  (attrs, False) \<Rightarrow> Some (attrs, False)
                | (attrs, True) \<Rightarrow> parse_00_list attrs (drop (cnt + 1) pos))))"
  by pat_completeness auto
termination by (relation "measure (length \<circ> snd)") auto

declare parse_00_list.simps [simp del]

section \<open>Tokens that parse to themselves\<close>

definition kw_char :: "sqlwchar \<Rightarrow> bool" where
  "kw_char c \<longleftrightarrow> \<not> is_ws c \<and> c \<noteq> 0 \<and> c \<noteq> 59 \<and> c \<noteq> 61 \<and> c \<noteq> 92 \<and> c \<noteq> 123 \<and> c \<noteq> 125"

lemma parse_token_loop_kw:
  "\<forall>c \<in> set t. kw_char c \<Longrightarrow> parse_token_loop v (t @ r) n ob = parse_token_loop v r (n + length t) ob"
  by (induction t arbitrary: n) (auto simp: kw_char_def)

lemma parse_token_loop_plain:
  "\<forall>c \<in> set t. \<not> is_ws c \<and> c \<noteq> 0 \<and> c \<noteq> 59 \<and> c \<noteq> 61 \<Longrightarrow> 0 < n \<or> t = [] \<or> hd t \<noteq> 123 \<Longrightarrow>
   parse_token_loop True (t @ r) n 0 = parse_token_loop True r (n + length t) 0"
  by (induction t arbitrary: n) auto

lemma parse_token_loop_braced:
  "\<forall>c \<in> set t. c \<noteq> 0 \<and> c \<noteq> 123 \<and> c \<noteq> 125 \<Longrightarrow> 0 < n \<Longrightarrow>
   parse_token_loop True (t @ r) n (Suc 0) = parse_token_loop True r (n + length t) (Suc 0)"
  by (induction t arbitrary: n) auto

lemma parse_token_kw:
  "\<forall>c \<in> set kw. kw_char c \<Longrightarrow> parse_token False (kw @ 61 # r) = Some (kw, 61 # r)"
  by (simp add: parse_token_def parse_token_loop_kw is_ws_def)

text \<open>A value ends at the end of the string, at a \<open>;\<close> or at a terminator.\<close>

definition at_end :: "wstr \<Rightarrow> bool" where
  "at_end r \<longleftrightarrow> r = [] \<or> hd r = 59 \<or> hd r = 0"

lemma parse_token_plain:
  assumes "\<forall>c \<in> set t. \<not> is_ws c \<and> c \<noteq> 0 \<and> c \<noteq> 59 \<and> c \<noteq> 61" and "hd t \<noteq> 123" and "at_end r"
  shows "parse_token True (t @ r) = Some (t, r)"
proof -
  have "parse_token_loop True (t @ r) 0 0 = parse_token_loop True r (length t) 0"
    using parse_token_loop_plain [OF assms(1), of 0 r] assms(2) by simp
  also have "\<dots> = Some (r, length t, 0, False)"
    using assms(3) by (cases r) (auto simp: at_end_def is_ws_def)
  finally show ?thesis by (simp add: parse_token_def)
qed

lemma parse_token_braced:
  assumes "\<forall>c \<in> set t. c \<noteq> 0 \<and> c \<noteq> 123 \<and> c \<noteq> 125"
  shows "parse_token True (123 # t @ 125 # r) = Some (t, r)"
  using assms
  by (simp add: parse_token_def parse_token_loop_braced is_ws_def)

lemma skip_ws_stop: "\<not> is_ws c \<Longrightarrow> c \<noteq> 0 \<Longrightarrow> c \<noteq> 59 \<Longrightarrow> skip_ws (c # r) ext = (c # r, True)"
  by simp

end
