(* ===== verification/Dsn_Write.thy ===== *)
theory Dsn_Write
imports Dsn_Parse "HOL-Library.Monad_Syntax"
begin

text \<open>
  The writers of driver/dsn.c, \<open>write_connection_string\<close> and \<open>write_00_list\<close>, and their
  round trip with the parsers. Buffers are memory; \<open>None\<close> is a write outside of one.

  \<open>swprintf\<close> with a size follows the Microsoft runtime, as the code's comment has it: an
  output that does not fit is cut to the room there is, terminated, and a negative value
  is returned with \<open>errno\<close> left alone. A precision prints up to the first terminator.
\<close>

section \<open>Writing\<close>

definition needs_braces :: "wstr \<Rightarrow> bool" where
  "needs_braces token = list_ex (\<lambda>c. is_ws c \<or> c = 61 \<or> c = 59) token"

definition swprintf :: "wstr \<Rightarrow> nat \<Rightarrow> nat \<Rightarrow> wstr \<Rightarrow> wstr option" where
  "swprintf mem pos room tx =
     mem_write_list mem pos (if length tx < room then tx @ [0] else take (room - 1) tx @ [0])"

definition LWSTR :: "wstr \<Rightarrow> wstr" where
  "LWSTR = takeWhile (\<lambda>c. c \<noteq> 0)"

fun write_connection_string_iter ::
    "(wstr \<times> nat) list \<Rightarrow> dsn_attrs \<Rightarrow> wstr option \<Rightarrow> int \<Rightarrow> nat \<Rightarrow> (wstr option \<times> int) option" where
  "write_connection_string_iter [] attrs szConnStrOut cchConnStrOutMax pos =
     Some (szConnStrOut, int pos)"
| "write_connection_string_iter ((kw, i) # iter) attrs szConnStrOut cchConnStrOutMax pos =
     (let val = attrs ! i in
      if length val = 0 then
        write_connection_string_iter iter attrs szConnStrOut cchConnStrOutMax pos
      else do {
        let braces = (if needs_braces val then 2 else 0);
        szConnStrOut \<leftarrow> (case szConnStrOut of
          None \<Rightarrow> Some None
        | Some buf \<Rightarrow>
            if cchConnStrOutMax \<noteq> 0 \<and> to_i16 (int pos) < cchConnStrOutMax then
              map_option Some (swprintf buf pos (nat (to_u64 (cchConnStrOutMax - int pos)))
                (if braces \<noteq> 0 then LWSTR kw @ [61, 123] @ LWSTR val @ [125, 59]
                 else LWSTR kw @ [61] @ LWSTR val @ [59]))
            else Some (Some buf));
        write_connection_string_iter iter attrs szConnStrOut cchConnStrOutMax
          (pos + (length kw + 1 + length val + braces + 1)) })"

definition write_connection_string ::
    "dsn_attrs \<Rightarrow> wstr option \<Rightarrow> int \<Rightarrow> (wstr option \<times> int) option" where
  "write_connection_string attrs szConnStrOut cchConnStrOutMax =
     write_connection_string_iter dsn_map attrs szConnStrOut cchConnStrOutMax 0"

text \<open>
  The loop of \<open>write_00_list\<close>: \<open>Inl\<close> is the error return, \<open>Inr\<close> the buffer and position at
  the loop's end. The room check is in the unsigned \<open>size_t\<close>.
\<close>

fun write_00_list_iter ::
    "(wstr \<times> nat) list \<Rightarrow> dsn_attrs \<Rightarrow> wstr \<Rightarrow> nat \<Rightarrow> nat \<Rightarrow> (wstr + wstr \<times> nat) option" where
  "write_00_list_iter [] attrs list00 cnt00 pos = Some (Inr (list00, pos))"
| "write_00_list_iter ((kw, i) # iter) attrs list00 cnt00 pos =
     (let val = attrs ! i in
      if length val = 0 then write_00_list_iter iter attrs list00 cnt00 pos
      else
        let add_braces = needs_braces val in
        if to_u64 (int cnt00 - 1)
             < int (pos + length kw + 1 + (if add_braces then 2 else 0) + length val)
        then Some (Inl list00)
        else do {
          let entry = kw @ [61] @ (if add_braces then [123] else []) @ val @
            (if add_braces then [125] else []) @ [0];
          list00 \<leftarrow> mem_write_list list00 pos entry;
          write_00_list_iter iter attrs list00 cnt00 (pos + length entry) })"

definition write_00_list :: "dsn_attrs \<Rightarrow> wstr \<Rightarrow> nat \<Rightarrow> (wstr \<times> int) option" where
  "write_00_list attrs list00 cnt00 = do {
     r \<leftarrow> write_00_list_iter dsn_map attrs list00 cnt00 0;
     (case r of
        Inl list00 \<Rightarrow> Some (list00, - 1)
      | Inr (list00, pos) \<Rightarrow> do {
          list00 \<leftarrow> mem_write list00 pos 0;
          Some (list00, int (pos + 1)) }) }"

section \<open>What is written\<close>

text \<open>The text of an attribute, and of all the ones that have a value.\<close>

definition dsn_body :: "wstr \<Rightarrow> wstr \<Rightarrow> wstr" where
  "dsn_body kw val = kw @ [61] @ (if needs_braces val then [123] @ val @ [125] else val)"

definition dsn_entries :: "dsn_attrs \<Rightarrow> (wstr \<times> wstr) list" where
  "dsn_entries attrs = filter (\<lambda>(kw, v). v \<noteq> []) (map (\<lambda>(kw, i). (kw, attrs ! i)) dsn_map)"

definition dsn_text :: "sqlwchar \<Rightarrow> (wstr \<times> wstr) list \<Rightarrow> wstr" where
  "dsn_text sep es = concat (map (\<lambda>(kw, v). dsn_body kw v @ [sep]) es)"

definition connection_string :: "dsn_attrs \<Rightarrow> wstr" where
  "connection_string attrs = dsn_text 59 (dsn_entries attrs)"

definition list_00 :: "dsn_attrs \<Rightarrow> wstr" where
  "list_00 attrs = dsn_text 0 (dsn_entries attrs)"

lemma dsn_text_Nil [simp]: "dsn_text sep [] = []"
  by (simp add: dsn_text_def)

lemma dsn_text_Cons [simp]: "dsn_text sep ((kw, v) # es) = dsn_body kw v @ sep # dsn_text sep es"
  by (simp add: dsn_text_def)

lemma length_dsn_body:
  "length (dsn_body kw val) = length kw + 1 + length val + (if needs_braces val then 2 else 0)"
  by (simp add: dsn_body_def)

text \<open>
  A buffer of \<open>sz\<close> units after writing the parts of a text one by one: as much of the
  text as there is room for, and a terminator.
\<close>

definition cut_text :: "wstr \<Rightarrow> nat \<Rightarrow> wstr \<Rightarrow> wstr" where
  "cut_text buf sz tx =
     (if sz = 0 \<or> tx = [] then buf
      else take (sz - 1) tx @ 0 # drop (min sz (length tx + 1)) buf)"

lemma length_cut_text: "sz \<le> length buf \<Longrightarrow> length (cut_text buf sz tx) = length buf"
  by (auto simp: cut_text_def min_def)

lemma swprintf_cut:
  assumes "sz \<le> length buf" and "length tx < sz" and "more \<noteq> []"
  shows "swprintf (cut_text buf sz tx) (length tx) (sz - length tx) more =
    Some (cut_text buf sz (tx @ more))"
proof -
  let ?m = "cut_text buf sz tx"
  let ?out = "if length more < sz - length tx then more @ [0]
      else take (sz - length tx - 1) more @ [0]"
  have len: "length tx + length ?out \<le> length ?m" using assms by (auto simp: length_cut_text)
  have "take (length tx) ?m = tx" using assms by (simp add: cut_text_def)
  moreover have "drop (length tx + length ?out) ?m = drop (length tx + length ?out) buf"
    using assms by (auto simp: cut_text_def add.commute)
  ultimately have "swprintf ?m (length tx) (sz - length tx) more =
      Some (tx @ ?out @ drop (length tx + length ?out) buf)"
    using mem_write_list_fits [OF len] by (simp add: swprintf_def)
  also have "tx @ ?out @ drop (length tx + length ?out) buf = cut_text buf sz (tx @ more)"
  proof -
    have m: "min sz (length (tx @ more) + 1) = length tx + length ?out" using assms by auto
    show ?thesis unfolding cut_text_def m using assms by auto
  qed
  finally show ?thesis .
qed

lemma cut_text_more:
  "sz \<le> length tx \<Longrightarrow> cut_text buf sz (tx @ more) = cut_text buf sz tx"
  by (auto simp: cut_text_def min_def)

lemma LWSTR_id: "0 \<notin> set s \<Longrightarrow> LWSTR s = s"
  unfolding LWSTR_def by (subst takeWhile_eq_all_conv) auto

lemma write_connection_string_iter_eq:
  assumes "\<forall>(kw, i) \<in> set m. 0 \<notin> set kw \<and> 0 \<notin> set (attrs ! i)"
    and "es = filter (\<lambda>(kw, v). v \<noteq> []) (map (\<lambda>(kw, i). (kw, attrs ! i)) m)"
    and "length tx + length (dsn_text 59 es) < 32768" and "sz < 32768" and "sz \<le> length buf"
  shows "write_connection_string_iter m attrs (Some (cut_text buf sz tx)) (int sz) (length tx) =
    Some (Some (cut_text buf sz (tx @ dsn_text 59 es)), int (length (tx @ dsn_text 59 es)))"
  using assms
proof (induction m arbitrary: tx es)
  case Nil
  then show ?case by simp
next
  case (Cons kwi m)
  obtain kw i where kwi: "kwi = (kw, i)" by (cases kwi)
  show ?case
  proof (cases "attrs ! i = []")
    case True
    then show ?thesis using Cons.IH [OF _ refl, of tx] Cons.prems kwi by simp
  next
    case False
    let ?v = "attrs ! i" and ?more = "dsn_body kw (attrs ! i) @ [59]"
    define es' where "es' = filter (\<lambda>(kw, v). v \<noteq> []) (map (\<lambda>(kw, i). (kw, attrs ! i)) m)"
    have es: "es = (kw, ?v) # es'" using Cons.prems(2) kwi False by (simp add: es'_def)
    have nz: "0 \<notin> set kw" "0 \<notin> set ?v" using Cons.prems(1) kwi by auto
    have pos: "to_i16 (int (length tx)) = int (length tx)"
      using Cons.prems(3) by (intro to_i16_id) auto
    have body: "(if needs_braces ?v then LWSTR kw @ [61, 123] @ LWSTR ?v @ [125, 59]
        else LWSTR kw @ [61] @ LWSTR ?v @ [59]) = ?more"
      using nz by (simp add: LWSTR_id dsn_body_def)
    have IH: "write_connection_string_iter m attrs (Some (cut_text buf sz (tx @ ?more))) (int sz)
          (length (tx @ ?more)) =
        Some (Some (cut_text buf sz ((tx @ ?more) @ dsn_text 59 es')),
              int (length ((tx @ ?more) @ dsn_text 59 es')))"
      using Cons.prems(1,3-5) kwi unfolding es by (intro Cons.IH es'_def) auto
    have braces: "((if needs_braces ?v then 2 else 0 :: nat) \<noteq> 0) = needs_braces ?v" by simp
    have len: "length tx + (length kw + 1 + length ?v + (if needs_braces ?v then 2 else 0) + 1)
        = length (tx @ ?more)"
      by (simp add: length_dsn_body)
    have out: "(if int sz \<noteq> 0 \<and> to_i16 (int (length tx)) < int sz
        then map_option Some (swprintf (cut_text buf sz tx) (length tx)
               (nat (to_u64 (int sz - int (length tx)))) ?more)
        else Some (Some (cut_text buf sz tx))) = Some (Some (cut_text buf sz (tx @ ?more)))"
    proof (cases "length tx < sz")
      case True
      have "nat (to_u64 (int sz - int (length tx))) = sz - length tx"
        using True Cons.prems(4) by (simp add: to_u64_def nat_diff_distrib' flip: of_nat_diff)
      then show ?thesis
        using True swprintf_cut [OF Cons.prems(5) True, of ?more] by (simp add: pos)
    next
      case False
      then show ?thesis by (simp add: pos cut_text_more)
    qed
    have "write_connection_string_iter (kwi # m) attrs (Some (cut_text buf sz tx)) (int sz) (length tx)
      = write_connection_string_iter m attrs (Some (cut_text buf sz (tx @ ?more))) (int sz)
          (length (tx @ ?more))"
      unfolding kwi write_connection_string_iter.simps(2) Let_def braces option.case body out len
      using False by simp
    with IH es show ?thesis by simp
  qed
qed

text \<open>The 00-list, when it fits and when it does not.\<close>

lemma write_00_list_iter_eq:
  assumes "es = filter (\<lambda>(kw, v). v \<noteq> []) (map (\<lambda>(kw, i). (kw, attrs ! i)) m)"
    and "0 < cnt00" and "cnt00 < 2 ^ 63" and "length list00 = cnt00" and "pos \<le> cnt00"
  shows "if pos + length (dsn_text 0 es) \<le> cnt00
    then write_00_list_iter m attrs list00 cnt00 pos =
      Some (Inr (take pos list00 @ dsn_text 0 es @ drop (pos + length (dsn_text 0 es)) list00,
                 pos + length (dsn_text 0 es)))
    else \<exists>l. write_00_list_iter m attrs list00 cnt00 pos = Some (Inl l)"
  using assms
proof (induction m arbitrary: list00 pos es)
  case Nil
  then show ?case by simp
next
  case (Cons kwi m)
  obtain kw i where kwi: "kwi = (kw, i)" by (cases kwi)
  define es' where "es' = filter (\<lambda>(kw, v). v \<noteq> []) (map (\<lambda>(kw, i). (kw, attrs ! i)) m)"
  show ?case
  proof (cases "attrs ! i = []")
    case True
    then have "es = es'" using Cons.prems(1) kwi by (simp add: es'_def)
    then show ?thesis using Cons.IH [OF es'_def] Cons.prems(2-) True kwi by simp
  next
    case False
    let ?e = "dsn_body kw (attrs ! i) @ [0]"
    have es: "es = (kw, attrs ! i) # es'" using Cons.prems(1) kwi False by (simp add: es'_def)
    have entry: "kw @ [61] @ (if needs_braces (attrs ! i) then [123] else []) @ attrs ! i @
        (if needs_braces (attrs ! i) then [125] else []) @ [0] = ?e"
      by (simp add: dsn_body_def)
    have room: "to_u64 (int cnt00 - 1) < int (pos + length kw + 1 +
        (if needs_braces (attrs ! i) then 2 else 0) + length (attrs ! i)) \<longleftrightarrow> cnt00 < pos + length ?e"
      using Cons.prems(2,3) by (simp add: to_u64_def length_dsn_body) linarith
    show ?thesis
    proof (cases "pos + length ?e \<le> cnt00")
      case fits: True
      define list' where "list' = take pos list00 @ ?e @ drop (pos + length ?e) list00"
      have wr: "mem_write_list list00 pos ?e = Some list'"
        unfolding list'_def using fits Cons.prems(4) by (intro mem_write_list_fits) simp
      have step: "write_00_list_iter (kwi # m) attrs list00 cnt00 pos =
          write_00_list_iter m attrs list' cnt00 (pos + length ?e)"
        using False fits room wr unfolding kwi by (simp only: write_00_list_iter.simps Let_def entry) simp
      have pre: "take (pos + length ?e) list' = take pos list00 @ ?e"
        "drop (pos + length ?e + k) list' = drop (pos + length ?e + k) list00" for k
        using fits Cons.prems(4) by (simp_all add: list'_def ac_simps)
      have "length list' = cnt00" using fits Cons.prems(4) by (simp add: list'_def)
      from Cons.IH [OF es'_def Cons.prems(2,3) this fits] show ?thesis
        unfolding step pre es by (simp add: add.assoc split: if_split_asm)
    next
      case False
      then have "write_00_list_iter (kwi # m) attrs list00 cnt00 pos = Some (Inl list00)"
        using \<open>attrs ! i \<noteq> []\<close> room unfolding kwi by simp
      then show ?thesis using False unfolding es by simp
    qed
  qed
qed

section \<open>Reading back\<close>

text \<open>The values that survive: no terminator inside, no brace where braces are added, and
  no opening brace in front where they are not.\<close>

definition safe_value :: "wstr \<Rightarrow> bool" where
  "safe_value v \<longleftrightarrow> 0 \<notin> set v \<and>
     (if needs_braces v then 123 \<notin> set v \<and> 125 \<notin> set v else v = [] \<or> hd v \<noteq> 123)"

lemma not_needs_braces: "\<not> needs_braces v \<longleftrightarrow> (\<forall>c \<in> set v. \<not> is_ws c \<and> c \<noteq> 61 \<and> c \<noteq> 59)"
  by (auto simp: needs_braces_def list_ex_iff)

lemma parse_value:
  assumes "safe_value v" and "v \<noteq> []" and "at_end r"
  shows "skip_ws ((if needs_braces v then [123] @ v @ [125] else v) @ r) False =
      ((if needs_braces v then [123] @ v @ [125] else v) @ r, True)"
    and "parse_token True ((if needs_braces v then [123] @ v @ [125] else v) @ r) = Some (v, r)"
proof -
  obtain c v' where v: "v = c # v'" using assms(2) by (cases v) auto
  show "skip_ws ((if needs_braces v then [123] @ v @ [125] else v) @ r) False =
      ((if needs_braces v then [123] @ v @ [125] else v) @ r, True)"
    using assms(1) not_needs_braces [of v] by (auto simp: safe_value_def v is_ws_def)
  show "parse_token True ((if needs_braces v then [123] @ v @ [125] else v) @ r) = Some (v, r)"
  proof (cases "needs_braces v")
    case True
    then have "\<forall>c \<in> set v. c \<noteq> 0 \<and> c \<noteq> 123 \<and> c \<noteq> 125"
      using assms(1) unfolding safe_value_def by metis
    with True show ?thesis by (simp add: parse_token_braced)
  next
    case False
    then have "\<forall>c \<in> set v. \<not> is_ws c \<and> c \<noteq> 0 \<and> c \<noteq> 59 \<and> c \<noteq> 61" "hd v \<noteq> 123"
      using assms(1,2) not_needs_braces [of v] unfolding safe_value_def by metis+
    with False assms(3) show ?thesis by (simp add: parse_token_plain)
  qed
qed

text \<open>One written attribute is one assignment.\<close>

lemma parse_entry:
  assumes "\<forall>c \<in> set kw. kw_char c" and "kw \<noteq> []" and "safe_value v" and "v \<noteq> []"
    and "length v \<le> ESODBC_DSN_MAX_ATTR_LEN" and "at_end r" and "dsn_attrs_ok attrs"
  shows "parse_connection_string_loop attrs (dsn_body kw v @ r) =
    parse_connection_string_loop (fst (assign_dsn_attr attrs kw v True)) r"
proof -
  obtain k kw' where kw: "kw = k # kw'" "kw_char k" using assms(1,2) by (cases kw) auto
  have "skip_ws (dsn_body kw v @ r) True = (dsn_body kw v @ r, True)"
    using kw by (simp add: dsn_body_def kw_char_def)
  moreover have "dsn_body kw v @ r = kw @ 61 # (if needs_braces v then [123] @ v @ [125] else v) @ r"
    by (simp add: dsn_body_def)
  moreover have "\<not> snd (assign_dsn_attr attrs kw v True) < 0"
    using dsn_store.assign_code [OF assms(7,5), of kw True]
    by (auto simp: DSN_NOT_MATCHED_def DSN_ASSIGNED_def DSN_OVERWRITTEN_def split: option.split)
  ultimately show ?thesis
    using parse_token_kw [OF assms(1)] parse_value [OF assms(3,4,6)]
    by (cases "assign_dsn_attr attrs kw v True", subst parse_connection_string_loop.simps)
      (simp add: is_ws_def)
qed

text \<open>A string of attributes is their assignment one after the other.\<close>

definition entries_ok :: "(wstr \<times> wstr) list \<Rightarrow> bool" where
  "entries_ok es \<longleftrightarrow> (\<forall>(kw, v) \<in> set es. (\<forall>c \<in> set kw. kw_char c) \<and> kw \<noteq> [] \<and> safe_value v \<and> v \<noteq> [] \<and>
     length v \<le> ESODBC_DSN_MAX_ATTR_LEN)"

lemma parse_loop_semicolon:
  "parse_connection_string_loop attrs (59 # r) = parse_connection_string_loop attrs r"
  by (subst (1 2) parse_connection_string_loop.simps) (simp add: is_ws_def)

lemma parse_loop_end: "r = [] \<or> hd r = 0 \<Longrightarrow> parse_connection_string_loop attrs r = (attrs, True)"
  by (subst parse_connection_string_loop.simps) (cases r, auto simp: is_ws_def)

lemma parse_text:
  assumes "entries_ok es" and "dsn_attrs_ok attrs"
  shows "parse_connection_string_loop attrs (dsn_text 59 es @ r) =
    parse_connection_string_loop (dsn_store.assigns True es attrs) r"
  using assms
proof (induction es arbitrary: attrs)
  case (Cons e es)
  obtain kw v where e: "e = (kw, v)" by (cases e)
  have "parse_connection_string_loop attrs (dsn_body kw v @ 59 # dsn_text 59 es @ r) =
      parse_connection_string_loop (fst (assign_dsn_attr attrs kw v True)) (59 # dsn_text 59 es @ r)"
    using Cons.prems e by (intro parse_entry) (auto simp: entries_ok_def at_end_def)
  with Cons e show ?case
    by (simp add: parse_loop_semicolon entries_ok_def dsn_store.assign_ok)
qed simp

text \<open>Assigning the values of \<open>attrs\<close> to blank attributes gives \<open>attrs\<close>.\<close>

lemma dsn_map_nth: "dsn_map = map (\<lambda>i. (DSN_KW i, i)) [0..<ESODBC_DSN_ATTRS_COUNT]"
  by code_simp

lemma dsn_entries_eq:
  "dsn_entries attrs = map (\<lambda>i. (DSN_KW i, attrs ! i))
     (filter (\<lambda>i. attrs ! i \<noteq> []) [0..<ESODBC_DSN_ATTRS_COUNT])"
  by (simp add: dsn_entries_def dsn_map_nth filter_map comp_def)

lemma assign_entries:
  assumes "dsn_attrs_ok attrs"
  shows "dsn_store.assigns True (dsn_entries attrs) init_dsn_attrs = attrs"
proof (rule dsn_store.ext)
  let ?t = "dsn_store.assigns True (dsn_entries attrs) init_dsn_attrs"
  show "dsn_attrs_ok ?t" by (rule dsn_store.assigns_ok) (rule init_dsn_attrs_ok)
  show "dsn_attrs_ok attrs" by (rule assms)
  have room: "\<forall>(kw, v) \<in> set (dsn_entries attrs). length v \<le> ESODBC_DSN_MAX_ATTR_LEN"
    using assms by (auto simp: dsn_entries_eq dsn_attrs_ok_def)
  have "map (dsn_member \<circ> fst) (dsn_entries attrs) =
      map Some (filter (\<lambda>i. attrs ! i \<noteq> []) [0..<ESODBC_DSN_ATTRS_COUNT])"
    by (auto simp: dsn_entries_eq dsn_member_kw)
  then have dist: "distinct (map (dsn_member \<circ> fst) (dsn_entries attrs))"
    by (simp only:) (subst distinct_map, simp)
  fix i
  show "dsn_get ?t i = dsn_get attrs i"
  proof (cases "i < ESODBC_DSN_ATTRS_COUNT \<and> attrs ! i \<noteq> []")
    case True
    then have "(DSN_KW i, attrs ! i) \<in> set (dsn_entries attrs)" by (auto simp: dsn_entries_eq)
    then have "dsn_get ?t i = attrs ! i"
      using dsn_store.get_assigns_distinct [OF init_dsn_attrs_ok room dist] True
      by (simp add: dsn_member_kw)
    with True show ?thesis by (simp add: dsn_get_def)
  next
    case False
    then have "\<forall>(kw, v) \<in> set (dsn_entries attrs).
        length v \<le> ESODBC_DSN_MAX_ATTR_LEN \<and> dsn_member kw \<noteq> Some i"
      using room by (auto simp: dsn_entries_eq dsn_member_kw)
    then have "dsn_get ?t i = []"
      using dsn_store.get_assigns_other [OF init_dsn_attrs_ok] by simp
    with False show ?thesis by (auto simp: dsn_get_def)
  qed
qed

section \<open>Sizes\<close>

text \<open>All attributes at their longest, in braces, stay below \<open>SHRT_MAX\<close>.\<close>

lemma sum_list_filter_le: "sum_list (map f (filter P xs)) \<le> (sum_list (map f xs) :: nat)"
  by (induction xs) auto

lemma length_dsn_text:
  "length (dsn_text sep es) \<le> sum_list (map (\<lambda>(kw, v). length kw + length v + 4) es)"
  by (induction es) (auto simp: length_dsn_body)

lemma keyword_lengths: "list_all (\<lambda>kw. length kw \<le> 20) ESODBC_DSN_keywords"
  by code_simp

lemma length_DSN_KW:
  assumes "i < ESODBC_DSN_ATTRS_COUNT"
  shows "length (DSN_KW i) \<le> 20"
proof -
  have "length ESODBC_DSN_keywords = ESODBC_DSN_ATTRS_COUNT" by code_simp
  with assms keyword_lengths show ?thesis by (simp add: list_all_length DSN_KW_def)
qed

lemma length_entries_text:
  assumes "dsn_attrs_ok attrs"
  shows "length (dsn_text sep (dsn_entries attrs)) < 32768"
proof -
  have "length (dsn_text sep (dsn_entries attrs))
      \<le> sum_list (map (\<lambda>(kw, v). length kw + length v + 4) (dsn_entries attrs))"
    by (rule length_dsn_text)
  also have "\<dots> \<le> sum_list (map (\<lambda>(kw, v). length kw + length v + 4) (map (\<lambda>(kw, i). (kw, attrs ! i)) dsn_map))"
    unfolding dsn_entries_def by (rule sum_list_filter_le)
  also have "\<dots> \<le> sum_list (map (\<lambda>x. 792) dsn_map)"
    unfolding map_map
  proof (rule sum_list_mono)
    fix x assume "x \<in> set dsn_map"
    then obtain i where "x = (DSN_KW i, i)" "i < ESODBC_DSN_ATTRS_COUNT" by (auto simp: dsn_map_nth)
    then have "length (attrs ! i) \<le> 768"
      using assms by (simp add: dsn_attrs_ok_def ESODBC_DSN_MAX_ATTR_LEN_def)
    with \<open>x = (DSN_KW i, i)\<close> length_DSN_KW [OF \<open>i < ESODBC_DSN_ATTRS_COUNT\<close>]
    show "((\<lambda>(kw, v). length kw + length v + 4) \<circ> (\<lambda>(kw, i). (kw, attrs ! i))) x
        \<le> 792"
      by simp
  qed
  also have "\<dots> < 32768"
  proof -
    have "length dsn_map = 37" by (simp add: dsn_map_nth ESODBC_DSN_ATTRS_COUNT_def)
    then show ?thesis by (simp add: sum_list_triv)
  qed
  finally show ?thesis .
qed

lemma kw_char_of_char:
  assumes "c \<notin> set [CHR '' '', CHR 0x09, CHR 0x0D, CHR 0x0A, CHR 0x00, CHR '';'', CHR ''='',
    CHR 0x5C, CHR ''{'', CHR ''}'']"
  shows "kw_char (of_char c)"
proof -
  have "(of_char c :: sqlwchar) = of_char d \<longleftrightarrow> c = d" for d by (rule of_char_wchar_eq)
  from this [of "CHR '' ''"] this [of "CHR 0x09"] this [of "CHR 0x0D"] this [of "CHR 0x0A"]
    this [of "CHR 0x00"] this [of "CHR '';''"] this [of "CHR ''=''"] this [of "CHR 0x5C"]
    this [of "CHR ''{''"] this [of "CHR ''}''"]
  show ?thesis using assms by (simp add: kw_char_def is_ws_def)
qed

lemma keyword_chars:
  "list_all (\<lambda>kw. kw \<noteq> [] \<and> list_all (\<lambda>c. c \<notin> set [CHR '' '', CHR 0x09, CHR 0x0D, CHR 0x0A,
     CHR 0x00, CHR '';'', CHR ''='', CHR 0x5C, CHR ''{'', CHR ''}'']) kw) ESODBC_DSN_keywords"
  by code_simp

lemma DSN_KW_chars:
  assumes "i < ESODBC_DSN_ATTRS_COUNT"
  shows "\<forall>c \<in> set (DSN_KW i). kw_char c" and "DSN_KW i \<noteq> []"
proof -
  have "length ESODBC_DSN_keywords = ESODBC_DSN_ATTRS_COUNT" by code_simp
  then have "ESODBC_DSN_keywords ! i \<in> set ESODBC_DSN_keywords" using assms by simp
  then have "ESODBC_DSN_keywords ! i \<noteq> []"
    and "\<forall>c \<in> set (ESODBC_DSN_keywords ! i). kw_char (of_char c)"
    using keyword_chars kw_char_of_char by (simp_all only: list_all_iff) blast+
  then show "\<forall>c \<in> set (DSN_KW i). kw_char c" and "DSN_KW i \<noteq> []"
    by (auto simp: DSN_KW_def wlit_def)
qed

lemma entries_ok_attrs:
  assumes "dsn_attrs_ok attrs" and "\<forall>v \<in> set attrs. safe_value v"
  shows "entries_ok (dsn_entries attrs)"
proof -
  have "(\<forall>c \<in> set (DSN_KW i). kw_char c) \<and> DSN_KW i \<noteq> [] \<and> safe_value (attrs ! i) \<and>
      length (attrs ! i) \<le> ESODBC_DSN_MAX_ATTR_LEN" if "i < ESODBC_DSN_ATTRS_COUNT" for i
    using assms that DSN_KW_chars [OF that] by (auto simp: dsn_attrs_ok_def)
  then show ?thesis by (auto simp: entries_ok_def dsn_entries_eq)
qed

lemma write_connection_string_null:
  "write_connection_string_iter m attrs None sz pos =
     Some (None, int (pos + length (dsn_text 59
       (filter (\<lambda>(kw, v). v \<noteq> []) (map (\<lambda>(kw, i). (kw, attrs ! i)) m)))))"
proof (induction m arbitrary: pos)
  case (Cons kwi m)
  then show ?case by (cases kwi) (auto simp: Let_def length_dsn_body)
qed simp

lemma parse_00_text:
  assumes "entries_ok es" and "\<forall>(kw, v) \<in> set es. length (dsn_body kw v) < 32768" and "dsn_attrs_ok attrs"
  shows "parse_00_list attrs (dsn_text 0 es @ 0 # rest) = Some (dsn_store.assigns True es attrs, True)"
  using assms
proof (induction es arbitrary: attrs)
  case Nil
  then show ?case by (subst parse_00_list.simps) simp
next
  case (Cons e es)
  obtain kw v where e: "e = (kw, v)" by (cases e)
  let ?b = "dsn_body kw v" and ?a = "fst (assign_dsn_attr attrs kw v True)"
  have kwv: "\<forall>c \<in> set kw. kw_char c" "kw \<noteq> []" "safe_value v" "v \<noteq> []"
      "length v \<le> ESODBC_DSN_MAX_ATTR_LEN"
    using Cons.prems(1) e by (auto simp: entries_ok_def)
  have nz: "0 \<notin> set ?b"
    using kwv by (auto simp: dsn_body_def kw_char_def safe_value_def)
  obtain k b' where b: "?b = k # b'" using kwv(2) by (cases kw) (auto simp: dsn_body_def)
  have k: "k \<noteq> 0" using nz b by auto
  have len: "length ?b < 32768" using Cons.prems(2) e by auto
  have "to_i16 (int (length ?b)) = int (length ?b)" using len by (intro to_i16_id) auto
  then have "parse_connection_string attrs (?b @ 0 # dsn_text 0 es @ 0 # rest) (to_i16 (int (length ?b)))
      = parse_connection_string_loop attrs (?b @ [])"
    by (simp add: parse_connection_string_def SQL_NTS_def)
  also have "\<dots> = (?a, True)"
    using parse_entry [OF kwv _ Cons.prems(3), of "[]"] by (simp add: at_end_def parse_loop_end)
  finally have entry: "parse_connection_string attrs (?b @ 0 # dsn_text 0 es @ 0 # rest)
      (to_i16 (int (length ?b))) = (?a, True)" .
  have "parse_00_list attrs (?b @ 0 # dsn_text 0 es @ 0 # rest) =
      parse_00_list ?a (dsn_text 0 es @ 0 # rest)"
    using entry mem_strlen_nts [OF nz, of "dsn_text 0 es @ 0 # rest"] len k
    by (subst parse_00_list.simps) (simp add: b)
  also have "\<dots> = Some (dsn_store.assigns True es ?a, True)"
    using Cons.prems by (intro Cons.IH) (auto simp: entries_ok_def dsn_store.assign_ok)
  finally show ?case using e by simp
qed

text \<open>A concrete set of attributes.\<close>

definition sample_attrs :: dsn_attrs where
  "sample_attrs = init_dsn_attrs[server := wlit ''h 1'', port := wlit ''80'']"

lemma sample_attrs_facts:
  "dsn_attrs_ok sample_attrs" "\<forall>v \<in> set sample_attrs. safe_value v" "sample_attrs \<noteq> init_dsn_attrs"
  "connection_string sample_attrs = wlit ''Server={h 1};Port=80;''"
  "length (list_00 sample_attrs) = length ''Server={h 1};Port=80;''"
  by code_simp+

lemma sample_attrs_nonzero: "\<forall>v \<in> set sample_attrs. 0 \<notin> set v"
  using sample_attrs_facts(2) by (simp add: safe_value_def)

section \<open>Properties\<close>

text \<open>
  C28: writing a connection string. The buffer gets as much of the string as it has room
  for and a terminator, nothing past the size given is written, and the length returned is
  that of the whole string, also when it was cut or there was no buffer. The 16 bit
  positions the code compares never overflow: no set of attributes has a string of
  \<open>SHRT_MAX\<close> units or more.
\<close>

theorem write_connection_string_correct:
  assumes "dsn_attrs_ok attrs" and "\<forall>v \<in> set attrs. 0 \<notin> set v"
    and "sz < 32768" and "sz \<le> length buf"
  shows "length (connection_string attrs) < 32768 \<and>
    write_connection_string attrs None (int sz) = Some (None, int (length (connection_string attrs))) \<and>
    write_connection_string attrs (Some buf) (int sz) =
      Some (Some (if sz = 0 \<or> connection_string attrs = [] then buf
                  else take (sz - 1) (connection_string attrs) @ 0 #
                       drop (min sz (length (connection_string attrs) + 1)) buf),
            int (length (connection_string attrs)))"
proof (intro conjI)
  show len: "length (connection_string attrs) < 32768"
    unfolding connection_string_def using assms(1) by (rule length_entries_text)
  show "write_connection_string attrs None (int sz) = Some (None, int (length (connection_string attrs)))"
    by (simp add: write_connection_string_def write_connection_string_null connection_string_def
        dsn_entries_def)
  have "0 \<notin> set (DSN_KW i)" if "i < ESODBC_DSN_ATTRS_COUNT" for i
    using DSN_KW_chars(1) [OF that] unfolding kw_char_def by blast
  then have "\<forall>(kw, i) \<in> set dsn_map. 0 \<notin> set kw \<and> 0 \<notin> set (attrs ! i)"
    using assms(1,2) by (auto simp: dsn_map_nth dsn_attrs_ok_def)
  from write_connection_string_iter_eq [OF this dsn_entries_def, of "[]" sz buf] len assms(3,4)
  show "write_connection_string attrs (Some buf) (int sz) =
      Some (Some (if sz = 0 \<or> connection_string attrs = [] then buf
                  else take (sz - 1) (connection_string attrs) @ 0 #
                       drop (min sz (length (connection_string attrs) + 1)) buf),
            int (length (connection_string attrs)))"
    by (simp add: write_connection_string_def connection_string_def cut_text_def)
qed

theorem write_connection_string_correct_witness:
  "write_connection_string sample_attrs (Some (replicate 8 7)) (int 5) =
     Some (Some (wlit ''Serv'' @ 0 # [7, 7, 7]), int (length ''Server={h 1};Port=80;''))"
  using write_connection_string_correct [OF sample_attrs_facts(1) sample_attrs_nonzero, of 5 "replicate 8 7"]
  by (simp add: sample_attrs_facts wlit_def eval_nat_numeral)

text \<open>
  C7: a connection string the driver writes reads back to the same attributes, read by its
  length or up to its terminator, when it fits the buffer and no value has a terminator or
  a misplaced brace (\<open>safe_value\<close>).
\<close>

theorem connection_string_roundtrip:
  assumes "dsn_attrs_ok attrs" and "\<forall>v \<in> set attrs. safe_value v" and "attrs \<noteq> init_dsn_attrs"
    and "length (connection_string attrs) < sz" and "sz < 32768" and "sz \<le> length buf"
  shows "\<exists>out n. write_connection_string attrs (Some buf) (int sz) = Some (Some out, n) \<and>
    parse_connection_string init_dsn_attrs out n = (attrs, True) \<and>
    parse_connection_string init_dsn_attrs out SQL_NTS = (attrs, True)"
proof -
  let ?cs = "connection_string attrs"
  have es: "entries_ok (dsn_entries attrs)" using assms(1,2) by (rule entries_ok_attrs)
  have "dsn_entries attrs \<noteq> []"
    using assign_entries [OF assms(1)] assms(3) by (metis dsn_store.assigns_Nil)
  then have ne: "?cs \<noteq> []" by (cases "dsn_entries attrs") (auto simp: connection_string_def)
  have "\<forall>v \<in> set attrs. 0 \<notin> set v" using assms(2) by (simp add: safe_value_def)
  then have wr: "write_connection_string attrs (Some buf) (int sz) =
      Some (Some (?cs @ 0 # drop (length ?cs + 1) buf), int (length ?cs))"
  proof -
    have "min sz (length ?cs + 1) = length ?cs + 1" using assms(4) by simp
    then show ?thesis
      using write_connection_string_correct [OF assms(1) \<open>\<forall>v \<in> set attrs. 0 \<notin> set v\<close> assms(5,6)]
        ne assms(4) by simp
  qed
  have parse: "parse_connection_string_loop init_dsn_attrs (?cs @ r) = (attrs, True)"
    if "r = [] \<or> hd r = 0" for r
    using parse_text [OF es init_dsn_attrs_ok, of r] parse_loop_end [OF that]
      assign_entries [OF assms(1)] by (simp add: connection_string_def)
  have "parse_connection_string init_dsn_attrs (?cs @ 0 # drop (length ?cs + 1) buf) (int (length ?cs))
      = (attrs, True)"
    using parse [of "[]"] by (simp add: parse_connection_string_def SQL_NTS_def)
  moreover have "take 32767 (?cs @ 0 # d) = ?cs @ 0 # take (32767 - length ?cs - 1) d" for d
  proof -
    obtain k where "32767 - length ?cs = Suc k" using assms(4,5) by (cases "32767 - length ?cs") auto
    then show ?thesis by simp
  qed
  then have "parse_connection_string init_dsn_attrs (?cs @ 0 # drop (length ?cs + 1) buf) SQL_NTS
      = (attrs, True)"
    using parse by (simp add: parse_connection_string_def)
  ultimately show ?thesis using wr by blast
qed

theorem connection_string_roundtrip_witness:
  "\<exists>out n. write_connection_string sample_attrs (Some (replicate 30 0)) (int 30) = Some (Some out, n) \<and>
    parse_connection_string init_dsn_attrs out n = (sample_attrs, True) \<and>
    parse_connection_string init_dsn_attrs out SQL_NTS = (sample_attrs, True)"
  using sample_attrs_facts by (intro connection_string_roundtrip) simp_all

text \<open>Writing the doubly terminated list. When the list and its final terminator fit, they
  are written and their length returned; when the list alone is too long, -1 is; but when
  the list fills the buffer exactly, the final terminator is written one unit past its end.
\<close>

theorem write_00_list_correct:
  assumes "0 < cnt00" and "cnt00 < 2 ^ 63" and "length list00 = cnt00"
  shows "(length (list_00 attrs) < cnt00 \<longrightarrow> write_00_list attrs list00 cnt00 =
      Some (list_00 attrs @ 0 # drop (length (list_00 attrs) + 1) list00,
            int (length (list_00 attrs) + 1))) \<and>
    (length (list_00 attrs) = cnt00 \<longrightarrow> write_00_list attrs list00 cnt00 = None) \<and>
    (cnt00 < length (list_00 attrs) \<longrightarrow>
      (\<exists>l. write_00_list attrs list00 cnt00 = Some (l, - 1)))"
proof -
  let ?t = "list_00 attrs"
  note iter = write_00_list_iter_eq [OF dsn_entries_def assms, of 0 attrs]
  have "drop (length ?t) list00 = list00 ! length ?t # drop (Suc (length ?t)) list00"
    if "length ?t < cnt00"
    using that assms(3) by (simp add: Cons_nth_drop_Suc)
  with iter assms show ?thesis
    by (auto simp: write_00_list_def list_00_def mem_write_def list_update_append split: if_splits)
qed

theorem write_00_list_correct_witness:
  "write_00_list sample_attrs (replicate (length ''Server={h 1};Port=80;'') 0)
     (length ''Server={h 1};Port=80;'') = None"
  using write_00_list_correct [of "length ''Server={h 1};Port=80;''"
      "replicate (length ''Server={h 1};Port=80;'') 0" sample_attrs]
  by (simp add: sample_attrs_facts)

text \<open>A doubly terminated list of safe values reads back to the same attributes.
\<close>

theorem list_00_roundtrip:
  assumes "dsn_attrs_ok attrs" and "\<forall>v \<in> set attrs. safe_value v"
    and "length (list_00 attrs) < cnt00" and "cnt00 < 2 ^ 63" and "length list00 = cnt00"
  shows "\<exists>out n. write_00_list attrs list00 cnt00 = Some (out, n) \<and>
    parse_00_list init_dsn_attrs out = Some (attrs, True)"
proof -
  have es: "entries_ok (dsn_entries attrs)" using assms(1,2) by (rule entries_ok_attrs)
  have "\<forall>(kw, v) \<in> set (dsn_entries attrs). length (dsn_body kw v) < 32768"
  proof (clarify)
    fix kw v assume "(kw, v) \<in> set (dsn_entries attrs)"
    then obtain i where i: "kw = DSN_KW i" "v = attrs ! i" "i < ESODBC_DSN_ATTRS_COUNT"
      by (auto simp: dsn_entries_eq)
    then have "length v \<le> ESODBC_DSN_MAX_ATTR_LEN" using assms(1) by (simp add: dsn_attrs_ok_def)
    with i length_DSN_KW [of i] show "length (dsn_body kw v) < 32768"
      by (simp add: length_dsn_body ESODBC_DSN_MAX_ATTR_LEN_def)
  qed
  then have "parse_00_list init_dsn_attrs (list_00 attrs @ 0 # d) = Some (attrs, True)" for d
    using parse_00_text [OF es _ init_dsn_attrs_ok] assign_entries [OF assms(1)]
    by (simp add: list_00_def)
  moreover have "0 < cnt00" using assms(3) by simp
  ultimately show ?thesis
    using write_00_list_correct [of cnt00 list00 attrs] assms(3-5) by auto
qed

theorem list_00_roundtrip_witness:
  "\<exists>out n. write_00_list sample_attrs (replicate 30 0) 30 = Some (out, n) \<and>
    parse_00_list init_dsn_attrs out = Some (sample_attrs, True)"
  using sample_attrs_facts by (intro list_00_roundtrip) simp_all

text \<open>Braces are not escaped: a value with both a blank and a closing brace is lost.\<close>

lemma brace_value_lost:
  "connection_string (init_dsn_attrs[description := wlit ''a }b'']) = wlit ''Description={a }b};'' \<and>
   snd (parse_connection_string init_dsn_attrs
     (connection_string (init_dsn_attrs[description := wlit ''a }b''])) 19) = False"
  by (rule conjI; code_simp)

end
