(* ===== verification/Dsn_Memory.thy ===== *)
theory Dsn_Memory
imports Dsn_Attrs "HOL-Library.Monad_Syntax"
begin

text \<open>
  \<open>esodbc_dsn_attrs_st\<close> as it lies in memory: the counts of the 37 members and the array
  \<open>buff\<close> their strings point into, one stretch of \<open>ESODBC_DSN_MAX_ATTR_LEN\<close> units each.
  \<open>assign_dsn_attr\<close> copies into the stretch and sets the count. The list of values of
  \<open>Dsn_Attrs\<close> is an abstraction of this state (\<open>dsn_abs\<close>), which the operations refine.

  Some of the driver's calls hand over a member's bare pointer and so rely on a terminator
  after the value, which nothing writes: \<open>dsn_str\<close> is what such a call sees.
\<close>

record esodbc_dsn_attrs_st =
  cnts :: "nat list"
  buff :: wstr

abbreviation (input) attr_pos :: "nat \<Rightarrow> nat" where
  "attr_pos i \<equiv> i * ESODBC_DSN_MAX_ATTR_LEN"

definition init_dsn_attrs_st :: esodbc_dsn_attrs_st where
  "init_dsn_attrs_st =
     \<lparr>cnts = replicate ESODBC_DSN_ATTRS_COUNT 0,
      buff = replicate (ESODBC_DSN_ATTRS_COUNT * ESODBC_DSN_MAX_ATTR_LEN) 0\<rparr>"

fun assign_dsn_attr_st_iter ::
    "(wstr \<times> nat) list \<Rightarrow> esodbc_dsn_attrs_st \<Rightarrow> wstr \<Rightarrow> wstr \<Rightarrow> bool
     \<Rightarrow> (esodbc_dsn_attrs_st \<times> int) option" where
  "assign_dsn_attr_st_iter [] attrs keyword val overwrite = Some (attrs, DSN_NOT_MATCHED)"
| "assign_dsn_attr_st_iter ((kw, i) # iter) attrs keyword val overwrite =
     (if \<not> EQ_CASE_WSTR kw keyword then assign_dsn_attr_st_iter iter attrs keyword val overwrite
      else if cnts attrs ! i \<noteq> 0 \<and> \<not> overwrite then Some (attrs, DSN_NOT_OVERWRITTEN)
      else do {
        let ret = (if cnts attrs ! i \<noteq> 0 then DSN_OVERWRITTEN else DSN_ASSIGNED);
        b \<leftarrow> mem_write_list (buff attrs) (attr_pos i) val;
        Some (attrs\<lparr>cnts := (cnts attrs)[i := length val], buff := b\<rparr>, ret) })"

definition assign_dsn_attr_st ::
    "esodbc_dsn_attrs_st \<Rightarrow> wstr \<Rightarrow> wstr \<Rightarrow> bool \<Rightarrow> (esodbc_dsn_attrs_st \<times> int) option" where
  "assign_dsn_attr_st attrs keyword val overwrite =
     (if ESODBC_DSN_MAX_ATTR_LEN < length val then Some (attrs, - 1)
      else assign_dsn_attr_st_iter dsn_map attrs keyword val overwrite)"

section \<open>Abstraction\<close>

definition dsn_val :: "esodbc_dsn_attrs_st \<Rightarrow> nat \<Rightarrow> wstr" where
  "dsn_val s i = take (cnts s ! i) (drop (attr_pos i) (buff s))"

definition dsn_abs :: "esodbc_dsn_attrs_st \<Rightarrow> dsn_attrs" where
  "dsn_abs s = map (dsn_val s) [0..<ESODBC_DSN_ATTRS_COUNT]"

definition dsn_st_ok :: "esodbc_dsn_attrs_st \<Rightarrow> bool" where
  "dsn_st_ok s \<longleftrightarrow> length (cnts s) = ESODBC_DSN_ATTRS_COUNT \<and>
     length (buff s) = ESODBC_DSN_ATTRS_COUNT * ESODBC_DSN_MAX_ATTR_LEN \<and>
     (\<forall>n \<in> set (cnts s). n \<le> ESODBC_DSN_MAX_ATTR_LEN)"

text \<open>A string read from the member's pointer on.\<close>

definition dsn_str :: "esodbc_dsn_attrs_st \<Rightarrow> nat \<Rightarrow> wstr" where
  "dsn_str s i = takeWhile (\<lambda>c. c \<noteq> 0) (drop (attr_pos i) (buff s))"

text \<open>What is left of a member's stretch after its value is zero.\<close>

definition tail_zero :: "esodbc_dsn_attrs_st \<Rightarrow> nat \<Rightarrow> bool" where
  "tail_zero s i \<longleftrightarrow> (\<forall>j < ESODBC_DSN_MAX_ATTR_LEN. cnts s ! i \<le> j \<longrightarrow> buff s ! (attr_pos i + j) = 0)"

lemma assign_dsn_attr_st_iter_eq:
  "assign_dsn_attr_st_iter m s keyword val ow =
     (case find_member m keyword of None \<Rightarrow> Some (s, DSN_NOT_MATCHED)
      | Some i \<Rightarrow>
          if cnts s ! i \<noteq> 0 \<and> \<not> ow then Some (s, DSN_NOT_OVERWRITTEN)
          else map_option (\<lambda>b. (s\<lparr>cnts := (cnts s)[i := length val], buff := b\<rparr>,
              if cnts s ! i \<noteq> 0 then DSN_OVERWRITTEN else DSN_ASSIGNED))
            (mem_write_list (buff s) (attr_pos i) val))"
  by (induction m s keyword val ow rule: assign_dsn_attr_st_iter.induct)
    (auto simp: Let_def split: option.split Option.bind_split)

text \<open>Stretches of different members do not meet.\<close>

lemma stretch_room:
  assumes "i < n" and "len \<le> room"
  shows "i * room + len \<le> n * (room :: nat)"
proof -
  have "i * room + len \<le> Suc i * room" using assms(2) by simp
  also have "\<dots> \<le> n * room" using assms(1) by (intro mult_right_mono) auto
  finally show ?thesis .
qed

lemma stretch_disjoint:
  assumes "i \<noteq> j"
  shows "i * room + room \<le> j * room \<or> j * room + room \<le> i * (room :: nat)"
  using stretch_room [of i j room room] stretch_room [of j i room room] assms
  by (cases "i < j") auto

lemma nth_copied:
  assumes "p + length v \<le> length b" and "k < length b"
  shows "(take p b @ v @ drop (p + length v) b) ! k =
    (if p \<le> k \<and> k < p + length v then v ! (k - p) else b ! k)"
  using assms by (auto simp: nth_append min_def)

lemma dsn_val_nth:
  assumes "dsn_st_ok s" and "i < ESODBC_DSN_ATTRS_COUNT"
  shows "length (dsn_val s i) = cnts s ! i"
    and "j < cnts s ! i \<Longrightarrow> dsn_val s i ! j = buff s ! (attr_pos i + j)"
proof -
  have "cnts s ! i \<le> ESODBC_DSN_MAX_ATTR_LEN" using assms by (simp add: dsn_st_ok_def)
  then have "attr_pos i + cnts s ! i \<le> length (buff s)"
    using stretch_room [OF assms(2)] assms(1) by (simp add: dsn_st_ok_def)
  then show "length (dsn_val s i) = cnts s ! i"
    and "j < cnts s ! i \<Longrightarrow> dsn_val s i ! j = buff s ! (attr_pos i + j)"
    by (simp_all add: dsn_val_def)
qed

text \<open>The copy of \<open>assign_dsn_attr\<close> changes the member's value and no other.\<close>

lemma assign_copy:
  assumes "dsn_st_ok s" and "i < ESODBC_DSN_ATTRS_COUNT" and "length v \<le> ESODBC_DSN_MAX_ATTR_LEN"
    and "s' = s\<lparr>cnts := (cnts s)[i := length v],
           buff := take (attr_pos i) (buff s) @ v @ drop (attr_pos i + length v) (buff s)\<rparr>"
  shows "mem_write_list (buff s) (attr_pos i) v = Some (buff s')"
    and "dsn_st_ok s'"
    and "j < ESODBC_DSN_ATTRS_COUNT \<Longrightarrow> dsn_val s' j = (if j = i then v else dsn_val s j)"
    and "i \<noteq> j \<Longrightarrow> j < ESODBC_DSN_ATTRS_COUNT \<Longrightarrow> k < ESODBC_DSN_MAX_ATTR_LEN \<Longrightarrow>
      buff s' ! (attr_pos j + k) = buff s ! (attr_pos j + k)"
    and "k < ESODBC_DSN_MAX_ATTR_LEN \<Longrightarrow> buff s' ! (attr_pos i + k) =
      (if k < length v then v ! k else buff s ! (attr_pos i + k))"
proof -
  have room: "attr_pos i + length v \<le> length (buff s)"
    using stretch_room [OF assms(2,3)] assms(1) by (simp add: dsn_st_ok_def)
  then show "mem_write_list (buff s) (attr_pos i) v = Some (buff s')"
    by (simp add: assms(4) mem_write_list_fits)
  have buff': "buff s' = take (attr_pos i) (buff s) @ v @ drop (attr_pos i + length v) (buff s)"
    and cnts': "cnts s' = (cnts s)[i := length v]"
    by (simp_all add: assms(4))
  have len: "length (buff s') = length (buff s)" using room by (simp add: buff')
  show ok': "dsn_st_ok s'"
    using assms(1,3) len set_update_subset_insert [of "cnts s" i "length v"]
    by (auto simp: dsn_st_ok_def cnts')
  have in_buff: "attr_pos j + k < length (buff s)"
    if "j < ESODBC_DSN_ATTRS_COUNT" "k < ESODBC_DSN_MAX_ATTR_LEN" for j k
    using stretch_room [OF that(1), of "Suc k" ESODBC_DSN_MAX_ATTR_LEN] that(2) assms(1)
    by (simp add: dsn_st_ok_def)
  show other: "buff s' ! (attr_pos j + k) = buff s ! (attr_pos j + k)"
    if "i \<noteq> j" "j < ESODBC_DSN_ATTRS_COUNT" "k < ESODBC_DSN_MAX_ATTR_LEN" for j k
    using nth_copied [OF room in_buff [OF that(2,3)]] stretch_disjoint [OF that(1), of ESODBC_DSN_MAX_ATTR_LEN] that(3) assms(3)
    unfolding buff' by (auto simp: not_le)
  show same: "buff s' ! (attr_pos i + k) = (if k < length v then v ! k else buff s ! (attr_pos i + k))"
    if "k < ESODBC_DSN_MAX_ATTR_LEN" for k
    using nth_copied [OF room in_buff [OF assms(2) that]] unfolding buff' by auto
  show "dsn_val s' j = (if j = i then v else dsn_val s j)" if j: "j < ESODBC_DSN_ATTRS_COUNT"
  proof (cases "j = i")
    case True
    have "dsn_val s' i = v"
    proof (rule nth_equalityI)
      show "length (dsn_val s' i) = length v"
        using dsn_val_nth(1) [OF ok' assms(2)] assms(1,2) by (simp add: cnts' dsn_st_ok_def)
      fix k assume "k < length (dsn_val s' i)"
      then have k: "k < cnts s' ! i" using dsn_val_nth(1) [OF ok' assms(2)] by simp
      then have "k < length v" using assms(1,2) by (simp add: cnts' dsn_st_ok_def)
      then show "dsn_val s' i ! k = v ! k"
        using dsn_val_nth(2) [OF ok' assms(2) k] same [of k] assms(3) by simp
    qed
    with True show ?thesis by simp
  next
    case False
    have cnt: "cnts s' ! j = cnts s ! j" using False by (simp add: cnts')
    have "cnts s ! j \<le> ESODBC_DSN_MAX_ATTR_LEN" using assms(1) j by (simp add: dsn_st_ok_def)
    then have "dsn_val s' j = dsn_val s j"
      using dsn_val_nth [OF ok' j] dsn_val_nth [OF assms(1) j] other [of j] False j cnt
      by (intro nth_equalityI) auto
    with False show ?thesis by simp
  qed
qed

lemma dsn_abs_nth: "i < ESODBC_DSN_ATTRS_COUNT \<Longrightarrow> dsn_abs s ! i = dsn_val s i"
  by (simp add: dsn_abs_def)

lemma dsn_abs_ok: "dsn_st_ok s \<Longrightarrow> dsn_attrs_ok (dsn_abs s)"
  using dsn_val_nth(1) [of s] by (auto simp: dsn_attrs_ok_def dsn_abs_def dsn_st_ok_def)

text \<open>What an assignment does to the state, by its return code.\<close>

lemma assign_dsn_attr_st_cases:
  assumes "dsn_st_ok s" and "assign_dsn_attr_st s kw v ow = Some (s', r)"
  obtains "s' = s" "r \<le> DSN_NOT_OVERWRITTEN"
  | i where "dsn_member kw = Some i" "i < ESODBC_DSN_ATTRS_COUNT" "length v \<le> ESODBC_DSN_MAX_ATTR_LEN"
      "s' = s\<lparr>cnts := (cnts s)[i := length v],
         buff := take (attr_pos i) (buff s) @ v @ drop (attr_pos i + length v) (buff s)\<rparr>"
      "r = (if cnts s ! i \<noteq> 0 then DSN_OVERWRITTEN else DSN_ASSIGNED)"
proof (cases "ESODBC_DSN_MAX_ATTR_LEN < length v")
  case True
  with assms(2) that(1) show ?thesis
    by (simp add: assign_dsn_attr_st_def DSN_NOT_OVERWRITTEN_def)
next
  case False
  show ?thesis
  proof (cases "dsn_member kw")
    case None
    with False assms(2) that(1) show ?thesis
      by (simp add: assign_dsn_attr_st_def assign_dsn_attr_st_iter_eq dsn_member_def
          DSN_NOT_OVERWRITTEN_def DSN_NOT_MATCHED_def)
  next
    case (Some i)
    have i: "i < ESODBC_DSN_ATTRS_COUNT" using Some by (rule dsn_member_bound)
    have v: "length v \<le> ESODBC_DSN_MAX_ATTR_LEN" using False by simp
    from assign_copy(1) [OF assms(1) i v refl] False assms(2) Some that(1) that(2) [OF Some i v]
    show ?thesis
      by (simp add: assign_dsn_attr_st_def assign_dsn_attr_st_iter_eq dsn_member_def split: if_splits)
  qed
qed

lemma assign_dsn_attr_st_Some:
  assumes "dsn_st_ok s"
  shows "\<exists>s' r. assign_dsn_attr_st s kw v ow = Some (s', r)"
  using assign_copy(1) [OF assms dsn_member_bound _ refl, of kw _ v]
  by (auto simp: assign_dsn_attr_st_def assign_dsn_attr_st_iter_eq dsn_member_def split: option.split)

lemma assign_dsn_attr_st_abs:
  assumes "dsn_st_ok s" and st: "assign_dsn_attr_st s keyword val overwrite = Some (s', r)"
  shows "dsn_st_ok s' \<and> assign_dsn_attr (dsn_abs s) keyword val overwrite = (dsn_abs s', r)"
proof (cases "length val \<le> ESODBC_DSN_MAX_ATTR_LEN \<and> dsn_member keyword \<noteq> None")
  case False
  then have "s' = s" "assign_dsn_attr (dsn_abs s) keyword val overwrite = (dsn_abs s, r)"
    using st by (auto simp: assign_dsn_attr_st_def assign_dsn_attr_st_iter_eq assign_dsn_attr_def
        assign_dsn_attr_iter_eq dsn_member_def split: if_splits)
  with assms show ?thesis by blast
next
  case True
  then obtain i where m: "dsn_member keyword = Some i" and v: "length val \<le> ESODBC_DSN_MAX_ATTR_LEN"
    by blast
  have i: "i < ESODBC_DSN_ATTRS_COUNT" using m by (rule dsn_member_bound)
  have blank: "cnts s ! i = 0 \<longleftrightarrow> dsn_abs s ! i = []"
    using dsn_val_nth(1) [OF assms(1) i] by (auto simp: dsn_abs_nth [OF i])
  let ?s = "s\<lparr>cnts := (cnts s)[i := length val],
       buff := take (attr_pos i) (buff s) @ val @ drop (attr_pos i + length val) (buff s)\<rparr>"
  note copy = assign_copy [OF assms(1) i v refl]
  have "dsn_abs ?s = (dsn_abs s)[i := val]"
    using copy(3) i by (intro nth_equalityI) (auto simp: dsn_abs_def nth_list_update)
  with copy(1,2) m v blank assms show ?thesis
    by (auto simp: assign_dsn_attr_st_def assign_dsn_attr_st_iter_eq assign_dsn_attr_def
        assign_dsn_attr_iter_eq dsn_member_def split: if_splits)
qed

lemma dsn_str_eq:
  assumes "dsn_st_ok s" and "i < ESODBC_DSN_ATTRS_COUNT" and "length w < ESODBC_DSN_MAX_ATTR_LEN"
    and "0 \<notin> set w" and "\<forall>k < length w. buff s ! (attr_pos i + k) = w ! k"
    and "buff s ! (attr_pos i + length w) = 0"
  shows "dsn_str s i = w"
proof -
  let ?d = "drop (attr_pos i) (buff s)"
  have len: "length w < length ?d"
    using stretch_room [OF assms(2), of "Suc (length w)" ESODBC_DSN_MAX_ATTR_LEN] assms(1,3)
    by (simp add: dsn_st_ok_def)
  have "take (length w) ?d = w" using assms(5) len by (intro nth_equalityI) auto
  moreover have "?d ! length w = 0" using assms(6) len by simp
  ultimately have "?d = w @ 0 # drop (Suc (length w)) ?d"
    using id_take_nth_drop [OF len] by metis
  then have "takeWhile (\<lambda>c. c \<noteq> 0) ?d = takeWhile (\<lambda>c. c \<noteq> 0) (w @ 0 # drop (Suc (length w)) ?d)"
    by metis
  also have "\<dots> = w" using assms(4) by (subst takeWhile_append2) auto
  finally show ?thesis by (simp add: dsn_str_def)
qed

lemma dsn_str_assigned:
  assumes "dsn_st_ok s" and "i < ESODBC_DSN_ATTRS_COUNT" and "length v < ESODBC_DSN_MAX_ATTR_LEN"
    and "cnts s ! i < ESODBC_DSN_MAX_ATTR_LEN" and "tail_zero s i" and "0 \<notin> set v" and "0 \<notin> set (dsn_val s i)"
    and "s' = s\<lparr>cnts := (cnts s)[i := length v],
           buff := take (attr_pos i) (buff s) @ v @ drop (attr_pos i + length v) (buff s)\<rparr>"
  shows "dsn_str s' i = v @ drop (length v) (dsn_val s i)"
proof (rule dsn_str_eq)
  let ?w = "v @ drop (length v) (dsn_val s i)"
  have v: "length v \<le> ESODBC_DSN_MAX_ATTR_LEN" using assms(3) by simp
  note copy = assign_copy [OF assms(1,2) v assms(8)]
  note val = dsn_val_nth [OF assms(1,2)]
  show "dsn_st_ok s'" by (rule copy(2))
  show "i < ESODBC_DSN_ATTRS_COUNT" by (rule assms(2))
  show w: "length ?w < ESODBC_DSN_MAX_ATTR_LEN" using assms(3,4) val(1) by simp
  show "0 \<notin> set ?w" using assms(6,7) by (auto dest: in_set_dropD)
  show "\<forall>k < length ?w. buff s' ! (attr_pos i + k) = ?w ! k"
  proof (intro allI impI)
    fix k assume k: "k < length ?w"
    then have "buff s' ! (attr_pos i + k) = (if k < length v then v ! k else buff s ! (attr_pos i + k))"
      using copy(5) w by simp
    with k val show "buff s' ! (attr_pos i + k) = ?w ! k" by (auto simp: nth_append)
  qed
  have "length v \<le> length ?w" "cnts s ! i \<le> length ?w" using val(1) by auto
  then show "buff s' ! (attr_pos i + length ?w) = 0"
    using copy(5) [OF w] w assms(5) unfolding tail_zero_def by (metis not_le)
qed

lemma dsn_str_tail_zero:
  assumes "dsn_st_ok s" and "i < ESODBC_DSN_ATTRS_COUNT" and "cnts s ! i < ESODBC_DSN_MAX_ATTR_LEN"
    and "tail_zero s i" and "0 \<notin> set (dsn_val s i)"
  shows "dsn_str s i = dsn_val s i"
  using assms dsn_val_nth [OF assms(1,2)]
  by (intro dsn_str_eq) (auto simp: tail_zero_def)

text \<open>The pointer of a member after an assignment to it, and after one to another member.\<close>

lemma assign_dsn_attr_st_str:
  assumes "dsn_st_ok s" and "assign_dsn_attr_st s keyword val overwrite = Some (s', r)"
    and "i < ESODBC_DSN_ATTRS_COUNT" and "tail_zero s i" and "cnts s' ! i < ESODBC_DSN_MAX_ATTR_LEN"
    and "cnts s ! i < ESODBC_DSN_MAX_ATTR_LEN"
    and "0 \<notin> set (dsn_val s i)" and "0 \<notin> set val"
  shows "tail_zero s' i \<and> dsn_val s' i = dsn_val s i \<and> dsn_str s' i = dsn_val s i \<and>
      (r = DSN_OVERWRITTEN \<longrightarrow> dsn_member keyword \<noteq> Some i) \<or>
    dsn_member keyword = Some i \<and> dsn_val s' i = val \<and>
      dsn_str s' i = val @ drop (length val) (dsn_val s i) \<and>
      (r = DSN_ASSIGNED \<and> tail_zero s' i \<and> dsn_val s i = [] \<or> r = DSN_OVERWRITTEN)"
  using assms(1,2)
proof (cases rule: assign_dsn_attr_st_cases)
  case 1
  then show ?thesis
    using dsn_str_tail_zero [OF assms(1,3,6,4,7)] assms(4)
    by (simp add: DSN_OVERWRITTEN_def DSN_NOT_OVERWRITTEN_def)
next
  case (2 m)
  note copy = assign_copy [OF assms(1) 2(2,3,4)]
  show ?thesis
  proof (cases "m = i")
    case True
    have cnt: "cnts s' ! i = length val"
      using assms(1,3) 2(4) True by (simp add: dsn_st_ok_def)
    have str: "dsn_str s' i = val @ drop (length val) (dsn_val s i)"
      using dsn_str_assigned [OF assms(1,3) _ assms(6,4,8,7)] assms(5) 2(4) True cnt by simp
    have val: "dsn_val s' i = val" using copy(3) [OF assms(3)] True by simp
    have "tail_zero s' i" if "cnts s ! i = 0"
      using copy(5) assms(4) that cnt True by (auto simp: tail_zero_def)
    moreover have "dsn_val s i = []" if "cnts s ! i = 0"
      using dsn_val_nth(1) [OF assms(1,3)] that by simp
    ultimately show ?thesis
      using str val 2(1,5) True by (cases "cnts s ! i = 0") simp_all
  next
    case False
    moreover have "cnts s' ! i = cnts s ! i" using 2(4) False by simp
    then have "tail_zero s' i" "dsn_val s' i = dsn_val s i"
      using copy(4) [OF False assms(3)] copy(3) [OF assms(3)] assms(4) False
      by (auto simp: tail_zero_def)
    moreover from this have "dsn_str s' i = dsn_val s' i"
      using dsn_str_tail_zero [OF copy(2) assms(3,5)] assms(7) by simp
    ultimately show ?thesis using 2(1) by simp
  qed
qed

section \<open>Properties\<close>

text \<open>
  C20: \<open>assign_dsn_attr\<close> on the structure in memory never writes outside it and does to the
  values of the members what the assignment on the list of values does, with the same
  return code.
\<close>

theorem assign_dsn_attr_refines:
  assumes "dsn_st_ok s"
  shows "\<exists>s' r. assign_dsn_attr_st s keyword val overwrite = Some (s', r) \<and> dsn_st_ok s' \<and>
    assign_dsn_attr (dsn_abs s) keyword val overwrite = (dsn_abs s', r)"
  using assign_dsn_attr_st_Some [OF assms] assign_dsn_attr_st_abs [OF assms] by blast

lemma init_dsn_attrs_st_ok: "dsn_st_ok init_dsn_attrs_st"
  by (simp add: dsn_st_ok_def init_dsn_attrs_st_def)

lemma dsn_abs_init: "dsn_abs init_dsn_attrs_st = init_dsn_attrs"
  by (rule nth_equalityI)
    (simp_all add: dsn_abs_def dsn_val_def init_dsn_attrs_st_def init_dsn_attrs_def)

theorem assign_dsn_attr_refines_witness:
  "\<exists>s'. assign_dsn_attr_st init_dsn_attrs_st (wlit ''port'') (wlit ''80'') False = Some (s', DSN_ASSIGNED) \<and>
    dsn_abs s' = init_dsn_attrs[port := wlit ''80'']"
proof -
  have "assign_dsn_attr init_dsn_attrs (wlit ''port'') (wlit ''80'') False =
      (init_dsn_attrs[port := wlit ''80''], DSN_ASSIGNED)"
    by code_simp
  then show ?thesis
    using assign_dsn_attr_refines [OF init_dsn_attrs_st_ok, of "wlit ''port''" "wlit ''80''" False]
    by (auto simp: dsn_abs_init)
qed


text \<open>A member's bare pointer. As long as values are only put into blank members, a call
  that gets the pointer alone sees the value. Overwriting a value with a shorter one leaves
  the rest of the old one in place, and such a call sees the new value run on into it.
\<close>

theorem dsn_pointer_reads:
  assumes "dsn_st_ok s" and "assign_dsn_attr_st s keyword val overwrite = Some (s', r)"
    and "i < ESODBC_DSN_ATTRS_COUNT" and "tail_zero s i" and "cnts s' ! i < ESODBC_DSN_MAX_ATTR_LEN"
    and "cnts s ! i < ESODBC_DSN_MAX_ATTR_LEN"
    and "0 \<notin> set (dsn_val s i)" and "0 \<notin> set val"
  shows "(r \<noteq> DSN_OVERWRITTEN \<longrightarrow> tail_zero s' i \<and> dsn_str s' i = dsn_val s' i) \<and>
    (r = DSN_OVERWRITTEN \<and> EQ_CASE_WSTR (DSN_KW i) keyword \<longrightarrow>
      dsn_val s' i = val \<and> dsn_str s' i = val @ drop (length val) (dsn_val s i))"
  using assign_dsn_attr_st_str [OF assms] assms(3)
  by (auto simp: dsn_member_iff DSN_OVERWRITTEN_def DSN_ASSIGNED_def)

theorem dsn_pointer_reads_witness:
  "\<exists>s s'. assign_dsn_attr_st init_dsn_attrs_st (wlit ''Server'') (wlit ''abc'') True = Some (s, DSN_ASSIGNED) \<and>
    assign_dsn_attr_st s (wlit ''Server'') (wlit ''x'') True = Some (s', DSN_OVERWRITTEN) \<and>
    dsn_val s' server = wlit ''x'' \<and> dsn_str s' server = wlit ''xbc''"
proof -
  define upd where "upd s v = s\<lparr>cnts := (cnts s)[server := length v],
      buff := take (attr_pos server) (buff s) @ v @ drop (attr_pos server + length v) (buff s)\<rparr>"
    for s :: esodbc_dsn_attrs_st and v
  have m: "find_member dsn_map (wlit ''Server'') = Some server" by code_simp
  have kw: "EQ_CASE_WSTR (DSN_KW server) (wlit ''Server'')" by code_simp
  have server: "server < ESODBC_DSN_ATTRS_COUNT" by (simp add: ESODBC_DSN_ATTRS_COUNT_def)
  have assign: "assign_dsn_attr_st s (wlit ''Server'') v True =
      Some (upd s v, if cnts s ! server \<noteq> 0 then DSN_OVERWRITTEN else DSN_ASSIGNED)"
    if "dsn_st_ok s" "length v \<le> ESODBC_DSN_MAX_ATTR_LEN" for s v
    using assign_copy(1) [OF that(1) server that(2) refl] that(2)
    by (simp add: assign_dsn_attr_st_def assign_dsn_attr_st_iter_eq m upd_def)
  define s where "s = upd init_dsn_attrs_st (wlit ''abc'')"
  have len: "length (wlit ''abc'') \<le> ESODBC_DSN_MAX_ATTR_LEN" "length (wlit ''x'') \<le> ESODBC_DSN_MAX_ATTR_LEN"
    by (simp_all add: ESODBC_DSN_MAX_ATTR_LEN_def)
  note copy = assign_copy [OF init_dsn_attrs_st_ok server len(1) s_def [unfolded upd_def]]
  have cnt: "cnts s ! server = 3" "cnts (upd s (wlit ''x'')) ! server = 1"
    by (simp_all add: s_def upd_def init_dsn_attrs_st_def ESODBC_DSN_ATTRS_COUNT_def)
  have tail: "tail_zero s server"
    unfolding tail_zero_def cnt
  proof (intro allI impI)
    fix j assume j: "j < ESODBC_DSN_MAX_ATTR_LEN" "3 \<le> j"
    have "attr_pos server + j < ESODBC_DSN_ATTRS_COUNT * ESODBC_DSN_MAX_ATTR_LEN"
      using stretch_room [OF server, of "Suc j" ESODBC_DSN_MAX_ATTR_LEN] j(1) by simp
    then show "buff s ! (attr_pos server + j) = 0"
      using copy(5) [OF j(1)] j(2) by (simp add: init_dsn_attrs_st_def)
  qed
  have val: "dsn_val s server = wlit ''abc''" using copy(3) [OF server] by simp
  have first: "assign_dsn_attr_st init_dsn_attrs_st (wlit ''Server'') (wlit ''abc'') True = Some (s, DSN_ASSIGNED)"
    using assign [OF init_dsn_attrs_st_ok len(1)]
    by (simp add: s_def init_dsn_attrs_st_def ESODBC_DSN_ATTRS_COUNT_def)
  have second: "assign_dsn_attr_st s (wlit ''Server'') (wlit ''x'') True =
      Some (upd s (wlit ''x''), DSN_OVERWRITTEN)"
    using assign [OF copy(2) len(2)] cnt by simp
  have "dsn_val (upd s (wlit ''x'')) server = wlit ''x'' \<and>
      dsn_str (upd s (wlit ''x'')) server = wlit ''x'' @ drop (length (wlit ''x'')) (wlit ''abc'')"
    using dsn_pointer_reads [OF copy(2) second server tail] kw val cnt
    by (simp add: ESODBC_DSN_MAX_ATTR_LEN_def)
  with first second show ?thesis by (auto simp: wlit_def)
qed

end
