(* ===== verification/Dsn_System.thy ===== *)
theory Dsn_System
imports Dsn_Memory
begin

text \<open>
  The system information of a data source (driver/dsn.c): \<open>system_dsn_exists\<close>,
  \<open>load_system_dsn\<close> and \<open>write_system_dsn\<close>. The installer library they call is a
  parameter: \<open>getp section entry default size\<close> stands for
  \<open>SQLGetPrivateProfileStringW\<close> on \<open>ODBC.INI\<close> (the buffer it leaves and its result),
  \<open>putp reg section entry value\<close> for \<open>SQLWritePrivateProfileStringW\<close> (the registry it leaves
  and whether it succeeded); a null pointer is \<open>None\<close>.
\<close>

type_synonym get_profile = "wstr \<Rightarrow> wstr option \<Rightarrow> wstr \<Rightarrow> nat \<Rightarrow> wstr \<times> int"
type_synonym 'r put_profile = "'r \<Rightarrow> wstr \<Rightarrow> wstr \<Rightarrow> wstr option \<Rightarrow> 'r \<times> bool"

definition system_dsn_exists :: "get_profile \<Rightarrow> wstr \<Rightarrow> int" where
  "system_dsn_exists getp name =
     (case getp name None [92] ESODBC_DSN_MAX_ATTR_LEN of (kbuff, res) \<Rightarrow>
        if res < 0 then - 1 else if res = 0 \<or> kbuff ! 0 \<noteq> 92 then 1 else 0)"

section \<open>Loading\<close>

text \<open>\<open>pos\<close> is the memory of the key list from the current key on.\<close>

function load_system_dsn_iter ::
    "get_profile \<Rightarrow> esodbc_dsn_attrs_st \<Rightarrow> bool \<Rightarrow> wstr \<Rightarrow> (esodbc_dsn_attrs_st \<times> int) option" where
  "load_system_dsn_iter getp attrs overwrite pos =
     (case pos of
        [] \<Rightarrow> None
      | c # _ \<Rightarrow>
          if c = 0 then Some (attrs, 1)
          else (case mem_strlen pos of
             None \<Rightarrow> None
           | Some cnt \<Rightarrow>
               if EQ_CASE_WSTR (take cnt pos) (DSN_KW driver) then
                 load_system_dsn_iter getp attrs overwrite (drop (cnt + 1) pos)
               else
                 (case getp (dsn_str attrs dsn) (Some (take cnt pos)) [] ESODBC_DSN_MAX_ATTR_LEN of
                    (buf, res) \<Rightarrow>
                      if res < 0 then Some (attrs, - 1)
                      else (case assign_dsn_attr_st attrs (take cnt pos) (take (nat res) buf) overwrite of
                         None \<Rightarrow> None
                       | Some (attrs, ret) \<Rightarrow>
                           if ret < 0 then Some (attrs, 0)
                           else load_system_dsn_iter getp attrs overwrite (drop (cnt + 1) pos)))))"
  by pat_completeness auto
termination by (relation "measure (\<lambda>(_, _, _, pos). length pos)") auto

declare load_system_dsn_iter.simps [simp del]

definition load_system_dsn ::
    "get_profile \<Rightarrow> esodbc_dsn_attrs_st \<Rightarrow> bool \<Rightarrow> (esodbc_dsn_attrs_st \<times> int) option" where
  "load_system_dsn getp attrs overwrite =
     (case getp (dsn_str attrs dsn) None [] (ESODBC_DSN_ATTRS_COUNT * ESODBC_DSN_MAX_ATTR_LEN) of
        (kbuff, res) \<Rightarrow>
          if res < 0 then Some (attrs, - 1) else load_system_dsn_iter getp attrs overwrite kbuff)"

section \<open>Writing\<close>

text \<open>The members of \<open>new\<close> and \<open>old\<close> in the rows of the table.\<close>

definition write_system_dsn_map :: "(nat \<times> nat) list" where
  "write_system_dsn_map =
    [(description, description), (pwd, pwd), (uid, uid), (api_key, api_key),
     (cloud_id, cloud_id), (server, server), (port, port), (secure, secure),
     (ca_path, ca_path), (timeout, timeout), (follow, follow), (catalog, catalog),
     (packing, packing), (compression, packing), (max_fetch_size, max_fetch_size),
     (max_body_size, max_body_size), (apply_tz, apply_tz), (early_exec, early_exec),
     (sci_floats, sci_floats), (varchar_limit, varchar_limit), (mfield_lenient, mfield_lenient),
     (auto_esc_pva, auto_esc_pva), (idx_inc_frozen, idx_inc_frozen),
     (proxy_enabled, proxy_enabled), (proxy_type, proxy_type), (proxy_host, proxy_host),
     (proxy_port, proxy_port), (proxy_auth_enabled, proxy_auth_enabled),
     (proxy_auth_uid, proxy_auth_uid), (proxy_auth_pwd, proxy_auth_pwd),
     (trace_enabled, trace_enabled), (trace_file, trace_file), (trace_level, trace_level)]"

fun write_system_dsn_iter ::
    "'r put_profile \<Rightarrow> 'r \<Rightarrow> esodbc_dsn_attrs_st \<Rightarrow> esodbc_dsn_attrs_st option \<Rightarrow> (nat \<times> nat) list
     \<Rightarrow> 'r \<times> bool" where
  "write_system_dsn_iter putp reg new_attrs old_attrs [] = (reg, True)"
| "write_system_dsn_iter putp reg new_attrs old_attrs ((new, old) # iter) =
     (case old_attrs of
        Some old_attrs' \<Rightarrow>
          if EQ_WSTR (dsn_val new_attrs new) (dsn_val old_attrs' old) then
            write_system_dsn_iter putp reg new_attrs old_attrs iter
          else
            (case putp reg (dsn_str new_attrs dsn) (DSN_KW new)
                    (if cnts new_attrs ! new \<noteq> 0 then Some (dsn_str new_attrs new) else None) of
               (reg, False) \<Rightarrow> (reg, False)
             | (reg, True) \<Rightarrow> write_system_dsn_iter putp reg new_attrs old_attrs iter)
      | None \<Rightarrow>
          if cnts new_attrs ! new \<noteq> 0 then
            (case putp reg (dsn_str new_attrs dsn) (DSN_KW new) (Some (dsn_str new_attrs new)) of
               (reg, False) \<Rightarrow> (reg, False)
             | (reg, True) \<Rightarrow> write_system_dsn_iter putp reg new_attrs old_attrs iter)
          else write_system_dsn_iter putp reg new_attrs old_attrs iter)"

definition write_system_dsn ::
    "'r put_profile \<Rightarrow> 'r \<Rightarrow> esodbc_dsn_attrs_st \<Rightarrow> esodbc_dsn_attrs_st option \<Rightarrow> 'r \<times> bool" where
  "write_system_dsn putp reg new_attrs old_attrs =
     write_system_dsn_iter putp reg new_attrs old_attrs write_system_dsn_map"

section \<open>Lemmas\<close>

lemma DSN_KW_inj:
  assumes "i < ESODBC_DSN_ATTRS_COUNT" and "j < ESODBC_DSN_ATTRS_COUNT" and "DSN_KW i = DSN_KW j"
  shows "i = j"
  using dsn_member_kw [OF assms(1)] dsn_member_kw [OF assms(2)] assms(3) by (metis option.inject)

text \<open>What the documented behaviour of a write says of a later look-up \<open>lk\<close>.\<close>

definition put_spec :: "'r put_profile \<Rightarrow> ('r \<Rightarrow> wstr \<Rightarrow> wstr \<Rightarrow> wstr option) \<Rightarrow> bool" where
  "put_spec putp lk \<longleftrightarrow> (\<forall>reg sec ent v reg'. putp reg sec ent v = (reg', True) \<longrightarrow>
     (\<forall>s e. lk reg' s e = (if s = sec \<and> e = ent then v else lk reg s e)))"

text \<open>The value a row leaves in the registry that held \<open>before\<close>.\<close>

definition row_result ::
    "esodbc_dsn_attrs_st \<Rightarrow> esodbc_dsn_attrs_st option \<Rightarrow> nat \<times> nat \<Rightarrow> wstr option \<Rightarrow> wstr option" where
  "row_result new_attrs old_attrs row before =
     (case old_attrs of
        None \<Rightarrow> if cnts new_attrs ! fst row = 0 then before else Some (dsn_str new_attrs (fst row))
      | Some o' \<Rightarrow>
          if dsn_val new_attrs (fst row) = dsn_val o' (snd row) then before
          else if cnts new_attrs ! fst row = 0 then None else Some (dsn_str new_attrs (fst row)))"

lemma write_system_dsn_iter_step:
  assumes "put_spec putp lk"
    and "write_system_dsn_iter putp reg na oa (row # iter) = (reg', True)"
  obtains reg1 where "write_system_dsn_iter putp reg1 na oa iter = (reg', True)"
    and "\<And>s e. lk reg1 s e = (if s = dsn_str na dsn \<and> e = DSN_KW (fst row)
           then row_result na oa row (lk reg s e) else lk reg s e)"
proof -
  have put: "lk r1 s e = (if s = sec \<and> e = ent then v else lk r s e)"
    if "putp r sec ent v = (r1, True)" for r sec ent v r1 s e
    by (rule assms(1) [unfolded put_spec_def, rule_format, OF that])
  obtain i j where row: "row = (i, j)" by (cases row)
  let ?v = "if cnts na ! i \<noteq> 0 then Some (dsn_str na i) else None"
  let ?writes = "case oa of None \<Rightarrow> cnts na ! i \<noteq> 0 | Some o' \<Rightarrow> dsn_val na i \<noteq> dsn_val o' j"
  show thesis
  proof (cases ?writes)
    case False
    with assms(2) that [of reg] show ?thesis
      unfolding row by (cases oa) (simp_all add: row_result_def)
  next
    case True
    obtain r1 done' where p: "putp reg (dsn_str na dsn) (DSN_KW i) ?v = (r1, done')"
      by (cases "putp reg (dsn_str na dsn) (DSN_KW i) ?v")
    have "done' \<and> write_system_dsn_iter putp r1 na oa iter = (reg', True)"
      using assms(2) True p unfolding row by (cases oa; cases done') (simp_all split: if_splits)
    moreover from this have "\<And>s e. lk r1 s e = (if s = dsn_str na dsn \<and> e = DSN_KW i then ?v else lk reg s e)"
      using p by (intro put) simp
    moreover have "row_result na oa (i, j) b = ?v" for b
      using True by (cases oa) (auto simp: row_result_def)
    ultimately show ?thesis using that [of r1] unfolding row by simp
  qed
qed

lemma write_system_dsn_iter_correct:
  assumes "put_spec putp lk" and "distinct (map fst m)" and "\<forall>row \<in> set m. fst row < ESODBC_DSN_ATTRS_COUNT"
    and "write_system_dsn_iter putp reg na oa m = (reg', True)"
  shows "\<forall>row \<in> set m. lk reg' (dsn_str na dsn) (DSN_KW (fst row)) =
      row_result na oa row (lk reg (dsn_str na dsn) (DSN_KW (fst row)))"
    and "s \<noteq> dsn_str na dsn \<or> (\<forall>row \<in> set m. e \<noteq> DSN_KW (fst row)) \<Longrightarrow> lk reg' s e = lk reg s e"
proof -
  have "(\<forall>row \<in> set m. lk reg' (dsn_str na dsn) (DSN_KW (fst row)) =
      row_result na oa row (lk reg (dsn_str na dsn) (DSN_KW (fst row)))) \<and>
    (\<forall>s e. s \<noteq> dsn_str na dsn \<or> (\<forall>row \<in> set m. e \<noteq> DSN_KW (fst row)) \<longrightarrow> lk reg' s e = lk reg s e)"
    using assms(2-4)
  proof (induction m arbitrary: reg)
    case Nil
    then show ?case by simp
  next
    case (Cons row m)
    obtain reg1
      where rest: "write_system_dsn_iter putp reg1 na oa m = (reg', True)"
        and lk1: "\<And>s e. lk reg1 s e = (if s = dsn_str na dsn \<and> e = DSN_KW (fst row)
           then row_result na oa row (lk reg s e) else lk reg s e)"
      by (rule write_system_dsn_iter_step [OF assms(1) Cons.prems(3)]) (rule that)
    have IH: "\<forall>row \<in> set m. lk reg' (dsn_str na dsn) (DSN_KW (fst row)) =
        row_result na oa row (lk reg1 (dsn_str na dsn) (DSN_KW (fst row)))"
      "\<forall>s e. s \<noteq> dsn_str na dsn \<or> (\<forall>row \<in> set m. e \<noteq> DSN_KW (fst row)) \<longrightarrow> lk reg' s e = lk reg1 s e"
      using Cons.IH [OF _ _ rest] Cons.prems(1,2) by simp_all
    have ne: "DSN_KW (fst row') \<noteq> DSN_KW (fst row)" if "row' \<in> set m" for row'
    proof
      assume "DSN_KW (fst row') = DSN_KW (fst row)"
      then have "fst row' = fst row" using that Cons.prems(2) by (intro DSN_KW_inj) auto
      moreover have "fst row \<notin> fst ` set m" using Cons.prems(1) by simp
      ultimately show False using that by (metis image_eqI)
    qed
    have "lk reg' (dsn_str na dsn) (DSN_KW (fst row)) = lk reg1 (dsn_str na dsn) (DSN_KW (fst row))"
      using IH(2) ne by metis
    then have head: "lk reg' (dsn_str na dsn) (DSN_KW (fst row)) =
        row_result na oa row (lk reg (dsn_str na dsn) (DSN_KW (fst row)))"
      using lk1 by simp
    have tail: "lk reg' (dsn_str na dsn) (DSN_KW (fst r)) =
        row_result na oa r (lk reg (dsn_str na dsn) (DSN_KW (fst r)))" if "r \<in> set m" for r
      using IH(1) lk1 ne [OF that] that by simp
    have "lk reg' s e = lk reg s e"
      if "s \<noteq> dsn_str na dsn \<or> (\<forall>row \<in> set (row # m). e \<noteq> DSN_KW (fst row))" for s e
      using IH(2) lk1 [of s e] that by (metis list.set_intros)
    with head tail show ?case by auto
  qed
  then show "\<forall>row \<in> set m. lk reg' (dsn_str na dsn) (DSN_KW (fst row)) =
      row_result na oa row (lk reg (dsn_str na dsn) (DSN_KW (fst row)))"
    and "s \<noteq> dsn_str na dsn \<or> (\<forall>row \<in> set m. e \<noteq> DSN_KW (fst row)) \<Longrightarrow> lk reg' s e = lk reg s e"
    by blast+
qed

text \<open>The registry holds, under a name, the values of a set of attributes (of none at all).\<close>

definition reg_mirrors ::
    "('r \<Rightarrow> wstr \<Rightarrow> wstr \<Rightarrow> wstr option) \<Rightarrow> 'r \<Rightarrow> wstr \<Rightarrow> esodbc_dsn_attrs_st option \<Rightarrow> nat \<Rightarrow> bool" where
  "reg_mirrors lk reg name s i \<longleftrightarrow> lk reg name (DSN_KW i) =
     (case s of None \<Rightarrow> None | Some s \<Rightarrow> if dsn_val s i = [] then None else Some (dsn_val s i))"

lemma write_map_facts:
  "distinct (map fst write_system_dsn_map)"
  "list_all (\<lambda>(i, j). i < ESODBC_DSN_ATTRS_COUNT \<and> j = (if i = compression then packing else i)) write_system_dsn_map"
  by code_simp+

text \<open>
  Loading: the key list is the keys, each terminated, then a terminator; the values come
  with their lengths.
\<close>

lemma assigns_getp_fold:
  "fold (\<lambda>(k, v) a. fst (assign_dsn_attr a k v ow)) kvs a = dsn_store.assigns ow kvs a"
  by (simp add: dsn_store.assigns_def)

text \<open>An assignment to another member leaves the pointer of the name alone.\<close>

definition terminated :: "esodbc_dsn_attrs_st \<Rightarrow> nat \<Rightarrow> bool" where
  "terminated s i \<longleftrightarrow> (\<exists>j < ESODBC_DSN_MAX_ATTR_LEN. buff s ! (attr_pos i + j) = 0)"

lemma terminated_str:
  assumes "terminated s i"
  obtains w where "length w < ESODBC_DSN_MAX_ATTR_LEN" "0 \<notin> set w"
    "\<forall>k < length w. buff s ! (attr_pos i + k) = w ! k" "buff s ! (attr_pos i + length w) = 0"
proof -
  define j where "j = (LEAST j. buff s ! (attr_pos i + j) = 0)"
  obtain n where n: "n < ESODBC_DSN_MAX_ATTR_LEN" "buff s ! (attr_pos i + n) = 0"
    using assms unfolding terminated_def by blast
  have "j \<le> n" unfolding j_def using n(2) by (rule Least_le)
  then have j: "j < ESODBC_DSN_MAX_ATTR_LEN" using n(1) by simp
  have z: "buff s ! (attr_pos i + j) = 0" unfolding j_def using n(2) by (rule LeastI)
  have nz: "buff s ! (attr_pos i + k) \<noteq> 0" if "k < j" for k
    using that unfolding j_def by (rule not_less_Least)
  show thesis
    by (rule that [of "map (\<lambda>k. buff s ! (attr_pos i + k)) [0..<j]"]) (use j z nz in force)+
qed

lemma assign_other_str:
  assumes "dsn_st_ok s" and "assign_dsn_attr_st s k v ow = Some (s', r)"
    and "dsn_member k \<noteq> Some i" and "i < ESODBC_DSN_ATTRS_COUNT" and "terminated s i"
  shows "dsn_str s' i = dsn_str s i \<and> terminated s' i"
  using assms(1,2)
proof (cases rule: assign_dsn_attr_st_cases)
  case 1
  with assms(5) show ?thesis by simp
next
  case (2 m)
  then have "m \<noteq> i" using assms(3) by auto
  note copy = assign_copy [OF assms(1) 2(2,3,4)]
  obtain w where w: "length w < ESODBC_DSN_MAX_ATTR_LEN" "0 \<notin> set w"
    "\<forall>k < length w. buff s ! (attr_pos i + k) = w ! k" "buff s ! (attr_pos i + length w) = 0"
    using assms(5) by (rule terminated_str)
  have "dsn_str s i = w" using assms(1,4) w by (rule dsn_str_eq)
  moreover have w': "\<forall>k < length w. buff s' ! (attr_pos i + k) = w ! k" "buff s' ! (attr_pos i + length w) = 0"
    using copy(4) [OF \<open>m \<noteq> i\<close> assms(4)] w by auto
  then have "dsn_str s' i = w" using copy(2) assms(4) w(1,2) by (intro dsn_str_eq)
  ultimately show ?thesis using w' w(1) unfolding terminated_def by metis
qed

lemma load_system_dsn_iter_correct:
  assumes "dsn_st_ok s" and "terminated s dsn"
    and "\<forall>(k, v) \<in> set kvs. k \<noteq> [] \<and> 0 \<notin> set k \<and> dsn_member k \<noteq> Some dsn \<and>
      length v \<le> ESODBC_DSN_MAX_ATTR_LEN \<and>
      (\<exists>junk. getp (dsn_str s dsn) (Some k) [] ESODBC_DSN_MAX_ATTR_LEN = (v @ junk, int (length v)))"
  shows "\<exists>s'. load_system_dsn_iter getp s ow (concat (map (\<lambda>(k, v). k @ [0]) kvs) @ 0 # rest) = Some (s', 1) \<and>
    dsn_st_ok s' \<and>
    dsn_abs s' = dsn_store.assigns ow (filter (\<lambda>(k, v). \<not> EQ_CASE_WSTR k (DSN_KW driver)) kvs) (dsn_abs s)"
  using assms
proof (induction kvs arbitrary: s)
  case Nil
  then show ?case by (subst load_system_dsn_iter.simps) simp
next
  case (Cons kv kvs)
  obtain k v where kv: "kv = (k, v)" by (cases kv)
  let ?tl = "concat (map (\<lambda>(k, v). k @ [0]) kvs) @ 0 # rest"
  have k: "k \<noteq> []" "0 \<notin> set k" "dsn_member k \<noteq> Some dsn" "length v \<le> ESODBC_DSN_MAX_ATTR_LEN"
    using Cons.prems(3) kv by auto
  obtain junk where get: "getp (dsn_str s dsn) (Some k) [] ESODBC_DSN_MAX_ATTR_LEN = (v @ junk, int (length v))"
    using Cons.prems(3) kv by auto
  obtain c k' where ck: "k = c # k'" "c \<noteq> 0" using k(1,2) by (cases k) auto
  have len: "mem_strlen (k @ 0 # ?tl) = Some (length k)" using k(2) by (rule mem_strlen_nts)
  note step = load_system_dsn_iter.simps [of getp s ow "k @ 0 # ?tl"]
  show ?case
  proof (cases "EQ_CASE_WSTR k (DSN_KW driver)")
    case True
    have "load_system_dsn_iter getp s ow (k @ 0 # ?tl) = load_system_dsn_iter getp s ow ?tl"
      using step True len ck by simp
    with Cons.IH [OF Cons.prems(1,2)] Cons.prems(3) True kv show ?thesis by simp
  next
    case False
    obtain s1 r where s1: "assign_dsn_attr_st s k v ow = Some (s1, r)"
      using assign_dsn_attr_st_Some [OF Cons.prems(1)] by blast
    have abs1: "dsn_st_ok s1" "dsn_abs s1 = fst (assign_dsn_attr (dsn_abs s) k v ow)"
      "r = snd (assign_dsn_attr (dsn_abs s) k v ow)"
      using assign_dsn_attr_st_abs [OF Cons.prems(1) s1] by simp_all
    have r: "\<not> r < 0"
      using dsn_store.assign_code [OF dsn_abs_ok [OF Cons.prems(1)] k(4), of k ow] abs1(3)
      by (auto simp: DSN_NOT_MATCHED_def DSN_ASSIGNED_def DSN_OVERWRITTEN_def DSN_NOT_OVERWRITTEN_def
          split: option.splits)
    have dsn: "dsn < ESODBC_DSN_ATTRS_COUNT" by (simp add: ESODBC_DSN_ATTRS_COUNT_def)
    have str: "dsn_str s1 dsn = dsn_str s dsn" "terminated s1 dsn"
      using assign_other_str [OF Cons.prems(1) s1 k(3) dsn Cons.prems(2)] by auto
    have "load_system_dsn_iter getp s ow (k @ 0 # ?tl) = load_system_dsn_iter getp s1 ow ?tl"
      using step False len ck get s1 r by simp
    with Cons.IH [OF abs1(1) str(2)] Cons.prems(3) False kv str(1) abs1(2) show ?thesis by simp
  qed
qed

section \<open>Properties\<close>

text \<open>Writing a data source. When every write succeeds and the registry held the old
  attributes (none, if there were none), it holds the new ones afterwards: new values
  written, cleared ones deleted, equal ones left; and nothing else in the registry changes.
  This needs the members' pointers to give their values, and it excludes one case, in which
  the code errs: the new compression setting differs from the old one but equals the old
  packing setting, to which the table compares it. Then the old setting stays.
\<close>

theorem write_system_dsn_correct:
  assumes "put_spec putp lk" and "write_system_dsn putp reg na oa = (reg', True)"
    and "dsn_st_ok na" and "\<forall>i \<in> fst ` set write_system_dsn_map. dsn_str na i = dsn_val na i"
    and "\<forall>i \<in> fst ` set write_system_dsn_map. reg_mirrors lk reg (dsn_str na dsn) oa i"
  shows "(\<forall>i \<in> fst ` set write_system_dsn_map.
      (case oa of Some o' \<Rightarrow> i = compression \<and> dsn_val na compression = dsn_val o' packing | None \<Rightarrow> False) \<or>
      reg_mirrors lk reg' (dsn_str na dsn) (Some na) i) \<and>
    (case oa of Some o' \<Rightarrow> dsn_val na compression = dsn_val o' packing \<longrightarrow>
       reg_mirrors lk reg' (dsn_str na dsn) oa compression | None \<Rightarrow> True) \<and>
    (\<forall>s e. s \<noteq> dsn_str na dsn \<or> (\<forall>i \<in> fst ` set write_system_dsn_map. e \<noteq> DSN_KW i) \<longrightarrow>
       lk reg' s e = lk reg s e)"
proof -
  have bound: "\<forall>row \<in> set write_system_dsn_map. fst row < ESODBC_DSN_ATTRS_COUNT"
    using write_map_facts(2) by (auto simp: list_all_iff)
  have old: "j = (if i = compression then packing else i)" if "(i, j) \<in> set write_system_dsn_map" for i j
    using write_map_facts(2) that by (auto simp: list_all_iff)
  note w = write_system_dsn_iter_correct [OF assms(1) write_map_facts(1) bound
      assms(2) [unfolded write_system_dsn_def]]
  have result: "lk reg' (dsn_str na dsn) (DSN_KW i) =
      row_result na oa (i, if i = compression then packing else i) (lk reg (dsn_str na dsn) (DSN_KW i))"
    if "i \<in> fst ` set write_system_dsn_map" for i
    using w(1) old that by force
  have comp: "compression \<in> fst ` set write_system_dsn_map" by (simp add: write_system_dsn_map_def)
  have blank: "cnts na ! i = 0 \<longleftrightarrow> dsn_val na i = []" if "i \<in> fst ` set write_system_dsn_map" for i
    using dsn_val_nth(1) [OF assms(3), of i] bound that by auto
  have 1: "(case oa of Some o' \<Rightarrow> i = compression \<and> dsn_val na compression = dsn_val o' packing | None \<Rightarrow> False) \<or>
      reg_mirrors lk reg' (dsn_str na dsn) (Some na) i" if i: "i \<in> fst ` set write_system_dsn_map" for i
  proof -
    have "dsn_str na i = dsn_val na i" "reg_mirrors lk reg (dsn_str na dsn) oa i"
      using assms(4,5) i by blast+
    note facts = this result [OF i] blank [OF i]
    show ?thesis
    proof (cases oa)
      case None
      with facts show ?thesis by (simp add: reg_mirrors_def row_result_def)
    next
      case (Some o')
      show ?thesis
      proof (cases "dsn_val na i = dsn_val o' (if i = compression then packing else i)")
        case False
        with facts Some show ?thesis by (simp add: reg_mirrors_def row_result_def)
      next
        case True
        show ?thesis
        proof (cases "i = compression")
          case False
          with True have "dsn_val na i = dsn_val o' i" by simp
          with facts Some False show ?thesis by (simp add: reg_mirrors_def row_result_def)
        qed (use True Some in simp)
      qed
    qed
  qed
  have 2: "case oa of Some o' \<Rightarrow> dsn_val na compression = dsn_val o' packing \<longrightarrow>
       reg_mirrors lk reg' (dsn_str na dsn) oa compression | None \<Rightarrow> True"
    using result [OF comp] bspec [OF assms(5) comp]
    by (cases oa) (simp_all add: reg_mirrors_def row_result_def)
  have 3: "lk reg' s e = lk reg s e"
    if "s \<noteq> dsn_str na dsn \<or> (\<forall>i \<in> fst ` set write_system_dsn_map. e \<noteq> DSN_KW i)" for s e
    using w(2) [of s e] that by simp
  show ?thesis
    by (intro conjI ballI allI impI 1 2 3)
qed

text \<open>A registry that is a function, and one data source written to it.\<close>

definition fun_put :: "(wstr \<Rightarrow> wstr \<Rightarrow> wstr option) put_profile" where
  "fun_put reg sec ent v = (\<lambda>s e. if s = sec \<and> e = ent then v else reg s e, True)"

lemma fun_put_spec: "put_spec fun_put (\<lambda>reg. reg)"
  by (auto simp: put_spec_def fun_put_def)

lemma fun_put_succeeds: "snd (write_system_dsn_iter fun_put reg na oa m)"
proof (induction m arbitrary: reg)
  case (Cons row m)
  then show ?case by (cases row; cases oa) (auto simp: fun_put_def)
qed simp

lemma sample_st:
  obtains s where "dsn_st_ok s"
    and "\<And>i. i < ESODBC_DSN_ATTRS_COUNT \<Longrightarrow> dsn_str s i = dsn_val s i"
    and "\<And>i. i < ESODBC_DSN_ATTRS_COUNT \<Longrightarrow> dsn_val s i = (if i = server then wlit ''abc'' else [])"
proof -
  have m: "dsn_member (wlit ''Server'') = Some server" by code_simp
  have init: "tail_zero init_dsn_attrs_st i" "cnts init_dsn_attrs_st ! i = 0" "dsn_val init_dsn_attrs_st i = []"
    if "i < ESODBC_DSN_ATTRS_COUNT" for i
  proof -
    show "cnts init_dsn_attrs_st ! i = 0" using that by (simp add: init_dsn_attrs_st_def)
    then show "dsn_val init_dsn_attrs_st i = []" by (simp add: dsn_val_def)
    show "tail_zero init_dsn_attrs_st i"
      using stretch_room [OF that, of "Suc _" ESODBC_DSN_MAX_ATTR_LEN]
      by (auto simp: tail_zero_def init_dsn_attrs_st_def Suc_le_eq)
  qed
  obtain s r where s: "assign_dsn_attr_st init_dsn_attrs_st (wlit ''Server'') (wlit ''abc'') True = Some (s, r)"
    using assign_dsn_attr_st_Some [OF init_dsn_attrs_st_ok] by blast
  from assign_dsn_attr_st_abs [OF init_dsn_attrs_st_ok s] have ok: "dsn_st_ok s"
    and abs: "dsn_abs s = fst (assign_dsn_attr init_dsn_attrs (wlit ''Server'') (wlit ''abc'') True)"
    by (simp_all add: dsn_abs_init)
  have abs: "dsn_abs s = init_dsn_attrs[server := wlit ''abc'']"
    unfolding abs by code_simp
  have val: "dsn_val s i = (if i = server then wlit ''abc'' else [])" if "i < ESODBC_DSN_ATTRS_COUNT" for i
    using dsn_abs_nth [OF that, of s] that
    by (simp add: abs init_dsn_attrs_def nth_list_update ESODBC_DSN_ATTRS_COUNT_def split: if_splits)
  have "dsn_str s i = dsn_val s i" if "i < ESODBC_DSN_ATTRS_COUNT" for i
  proof -
    have "cnts s ! i < ESODBC_DSN_MAX_ATTR_LEN"
      using dsn_val_nth(1) [OF ok that] val [OF that]
      by (simp add: ESODBC_DSN_MAX_ATTR_LEN_def split: if_splits)
    with assign_dsn_attr_st_str [OF init_dsn_attrs_st_ok s that init(1) [OF that]] init [OF that]
    show ?thesis by (auto simp: ESODBC_DSN_MAX_ATTR_LEN_def)
  qed
  with ok val that show thesis by blast
qed

theorem write_system_dsn_correct_witness:
  "\<exists>s reg'. write_system_dsn fun_put (\<lambda>_ _. None) s None = (reg', True) \<and>
    reg' (dsn_str s dsn) (DSN_KW server) = Some (wlit ''abc'') \<and> reg' (dsn_str s dsn) (DSN_KW port) = None"
proof -
  obtain s where s: "dsn_st_ok s"
    "\<And>i. i < ESODBC_DSN_ATTRS_COUNT \<Longrightarrow> dsn_str s i = dsn_val s i"
    "\<And>i. i < ESODBC_DSN_ATTRS_COUNT \<Longrightarrow> dsn_val s i = (if i = server then wlit ''abc'' else [])"
    using sample_st by blast
  obtain reg' where reg': "write_system_dsn fun_put (\<lambda>_ _. None) s None = (reg', True)"
    using fun_put_succeeds by (metis prod.collapse write_system_dsn_def)
  have rows: "\<forall>i \<in> fst ` set write_system_dsn_map. i < ESODBC_DSN_ATTRS_COUNT"
    using write_map_facts(2) by (auto simp: list_all_iff)
  have in_map: "server \<in> fst ` set write_system_dsn_map" "port \<in> fst ` set write_system_dsn_map"
    by (simp_all add: write_system_dsn_map_def)
  have ptr: "\<forall>i \<in> fst ` set write_system_dsn_map. dsn_str s i = dsn_val s i"
    using rows s(2) by blast
  have none: "\<forall>i \<in> fst ` set write_system_dsn_map.
      reg_mirrors (\<lambda>reg. reg) (\<lambda>_ _. None) (dsn_str s dsn) None i"
    by (simp add: reg_mirrors_def)
  from write_system_dsn_correct [OF fun_put_spec reg' s(1) ptr none]
  have "\<forall>i \<in> fst ` set write_system_dsn_map. reg_mirrors (\<lambda>reg. reg) reg' (dsn_str s dsn) (Some s) i"
    by simp
  then have "reg_mirrors (\<lambda>reg. reg) reg' (dsn_str s dsn) (Some s) server"
    "reg_mirrors (\<lambda>reg. reg) reg' (dsn_str s dsn) (Some s) port"
    using in_map by blast+
  then have "reg' (dsn_str s dsn) (DSN_KW server) = Some (wlit ''abc'')" "reg' (dsn_str s dsn) (DSN_KW port) = None"
    using s(3) rows in_map by (simp_all add: reg_mirrors_def wlit_def)
  with reg' show ?thesis by blast
qed

text \<open>Loading a data source assigns, in the order of the stored keys, every stored value
  but the driver's; when not asked to overwrite, it only fills members that were blank.
  The key list and the values are those the installer library returns for the name, which
  needs a terminator behind it in its member.
\<close>

theorem load_system_dsn_correct:
  assumes "dsn_st_ok s" and "terminated s dsn"
    and "getp (dsn_str s dsn) None [] (ESODBC_DSN_ATTRS_COUNT * ESODBC_DSN_MAX_ATTR_LEN) =
      (concat (map (\<lambda>(k, v). k @ [0]) kvs) @ 0 # rest, n)" and "0 \<le> n"
    and "\<forall>(k, v) \<in> set kvs. k \<noteq> [] \<and> 0 \<notin> set k \<and> dsn_member k \<noteq> Some dsn \<and>
      length v \<le> ESODBC_DSN_MAX_ATTR_LEN \<and>
      (\<exists>junk. getp (dsn_str s dsn) (Some k) [] ESODBC_DSN_MAX_ATTR_LEN = (v @ junk, int (length v)))"
  shows "\<exists>s'. load_system_dsn getp s ow = Some (s', 1) \<and> dsn_st_ok s' \<and>
    dsn_abs s' = fold (\<lambda>(k, v) a. fst (assign_dsn_attr a k v ow))
      (filter (\<lambda>(k, v). \<not> EQ_CASE_WSTR k (DSN_KW driver)) kvs) (dsn_abs s) \<and>
    (\<forall>i < ESODBC_DSN_ATTRS_COUNT. \<not> ow \<and> dsn_val s i \<noteq> [] \<longrightarrow> dsn_val s' i = dsn_val s i)"
proof -
  let ?kvs = "filter (\<lambda>(k, v). \<not> EQ_CASE_WSTR k (DSN_KW driver)) kvs"
  from load_system_dsn_iter_correct [of s kvs getp ow rest, OF assms(1,2,5)] assms(3,4) obtain s'
    where s': "load_system_dsn getp s ow = Some (s', 1)" "dsn_st_ok s'"
      "dsn_abs s' = dsn_store.assigns ow ?kvs (dsn_abs s)"
    unfolding load_system_dsn_def by fastforce
  have "dsn_val s' i = dsn_val s i" if "i < ESODBC_DSN_ATTRS_COUNT" "\<not> ow" "dsn_val s i \<noteq> []" for i
  proof -
    have "dsn_get (dsn_store.assigns False ?kvs (dsn_abs s)) i = dsn_get (dsn_abs s) i"
      using assms(5) that(1,3)
      by (intro dsn_store.get_assigns_keep dsn_abs_ok assms(1)) (auto simp: dsn_get_def dsn_abs_nth)
    moreover have "dsn_abs s' = dsn_store.assigns False ?kvs (dsn_abs s)" using s'(3) that(2) by simp
    ultimately have "dsn_get (dsn_abs s') i = dsn_get (dsn_abs s) i" by metis
    then show ?thesis using that(1) by (simp add: dsn_get_def dsn_abs_nth)
  qed
  with s' show ?thesis by (auto simp: assigns_getp_fold)
qed

theorem load_system_dsn_correct_witness:
  "\<exists>s'. load_system_dsn (\<lambda>sec ent d n. case ent of None \<Rightarrow> (wlit ''Port'' @ 0 # [0], 5)
      | Some k \<Rightarrow> (wlit ''80'', 2)) init_dsn_attrs_st False = Some (s', 1) \<and>
    dsn_abs s' = init_dsn_attrs[port := wlit ''80'']"
proof -
  let ?getp = "\<lambda>(sec :: wstr) ent (d :: wstr) (n :: nat). case ent of None \<Rightarrow> (wlit ''Port'' @ 0 # [0], 5 :: int)
      | Some (k :: wstr) \<Rightarrow> (wlit ''80'', 2)"
  let ?kvs = "[(wlit ''Port'', wlit ''80'')]"
  have ne: "\<not> EQ_CASE_WSTR (wlit ''Port'') (DSN_KW driver)" "dsn_member (wlit ''Port'') = Some port"
    by code_simp+
  have one: "fst (assign_dsn_attr init_dsn_attrs (wlit ''Port'') (wlit ''80'') False) = init_dsn_attrs[port := wlit ''80'']"
    by code_simp
  have "terminated init_dsn_attrs_st dsn"
    by (auto simp: terminated_def init_dsn_attrs_st_def ESODBC_DSN_ATTRS_COUNT_def
        ESODBC_DSN_MAX_ATTR_LEN_def intro!: exI [of _ 0])
  moreover have "wlit ''Port'' \<noteq> []" by (simp add: wlit_def)
  ultimately show ?thesis
    using load_system_dsn_correct [OF init_dsn_attrs_st_ok, of ?getp ?kvs "[]" 5 False] ne one
    by (auto simp: dsn_abs_init ESODBC_DSN_MAX_ATTR_LEN_def)
qed

end
