(* ===== verification/Desc_Types.thy ===== *)
theory Desc_Types
imports Odbc_Prelude
begin

text \<open>
  Data type identifiers and their classification (driver/handles.c, driver/handles.h,
  driver/defs.h): the verbose type and subcode of a concise one, the meta types of SQL and
  C types, and the SQL type the driver takes for a C type.

  The identifiers are the integers of the ODBC headers, which give one value several names
  (\<open>SQL_C_NUMERIC\<close> is \<open>SQL_NUMERIC\<close>, \<open>SQL_C_FLOAT\<close> is \<open>SQL_REAL\<close>); the code relies on
  these equalities, so they are kept.
\<close>

section \<open>Identifiers\<close>

abbreviation (input) SQL_CHAR :: int where "SQL_CHAR \<equiv> 1"
abbreviation (input) SQL_NUMERIC :: int where "SQL_NUMERIC \<equiv> 2"
abbreviation (input) SQL_DECIMAL :: int where "SQL_DECIMAL \<equiv> 3"
abbreviation (input) SQL_INTEGER :: int where "SQL_INTEGER \<equiv> 4"
abbreviation (input) SQL_SMALLINT :: int where "SQL_SMALLINT \<equiv> 5"
abbreviation (input) SQL_FLOAT :: int where "SQL_FLOAT \<equiv> 6"
abbreviation (input) SQL_REAL :: int where "SQL_REAL \<equiv> 7"
abbreviation (input) SQL_DOUBLE :: int where "SQL_DOUBLE \<equiv> 8"
abbreviation (input) SQL_DATETIME :: int where "SQL_DATETIME \<equiv> 9"
abbreviation (input) SQL_INTERVAL :: int where "SQL_INTERVAL \<equiv> 10"
abbreviation (input) SQL_VARCHAR :: int where "SQL_VARCHAR \<equiv> 12"
abbreviation (input) SQL_LONGVARCHAR :: int where "SQL_LONGVARCHAR \<equiv> - 1"
abbreviation (input) SQL_BINARY :: int where "SQL_BINARY \<equiv> - 2"
abbreviation (input) SQL_VARBINARY :: int where "SQL_VARBINARY \<equiv> - 3"
abbreviation (input) SQL_LONGVARBINARY :: int where "SQL_LONGVARBINARY \<equiv> - 4"
abbreviation (input) SQL_BIGINT :: int where "SQL_BIGINT \<equiv> - 5"
abbreviation (input) SQL_TINYINT :: int where "SQL_TINYINT \<equiv> - 6"
abbreviation (input) SQL_BIT :: int where "SQL_BIT \<equiv> - 7"
abbreviation (input) SQL_WCHAR :: int where "SQL_WCHAR \<equiv> - 8"
abbreviation (input) SQL_WVARCHAR :: int where "SQL_WVARCHAR \<equiv> - 9"
abbreviation (input) SQL_WLONGVARCHAR :: int where "SQL_WLONGVARCHAR \<equiv> - 10"
abbreviation (input) SQL_GUID :: int where "SQL_GUID \<equiv> - 11"
abbreviation (input) SQL_TYPE_DATE :: int where "SQL_TYPE_DATE \<equiv> 91"
abbreviation (input) SQL_TYPE_TIME :: int where "SQL_TYPE_TIME \<equiv> 92"
abbreviation (input) SQL_TYPE_TIMESTAMP :: int where "SQL_TYPE_TIMESTAMP \<equiv> 93"
abbreviation (input) SQL_CODE_DATE :: int where "SQL_CODE_DATE \<equiv> 1"
abbreviation (input) SQL_CODE_TIME :: int where "SQL_CODE_TIME \<equiv> 2"
abbreviation (input) SQL_CODE_TIMESTAMP :: int where "SQL_CODE_TIMESTAMP \<equiv> 3"
abbreviation (input) SQL_CODE_YEAR :: int where "SQL_CODE_YEAR \<equiv> 1"
abbreviation (input) SQL_CODE_MONTH :: int where "SQL_CODE_MONTH \<equiv> 2"
abbreviation (input) SQL_CODE_DAY :: int where "SQL_CODE_DAY \<equiv> 3"
abbreviation (input) SQL_CODE_HOUR :: int where "SQL_CODE_HOUR \<equiv> 4"
abbreviation (input) SQL_CODE_MINUTE :: int where "SQL_CODE_MINUTE \<equiv> 5"
abbreviation (input) SQL_CODE_SECOND :: int where "SQL_CODE_SECOND \<equiv> 6"
abbreviation (input) SQL_CODE_YEAR_TO_MONTH :: int where "SQL_CODE_YEAR_TO_MONTH \<equiv> 7"
abbreviation (input) SQL_CODE_DAY_TO_HOUR :: int where "SQL_CODE_DAY_TO_HOUR \<equiv> 8"
abbreviation (input) SQL_CODE_DAY_TO_MINUTE :: int where "SQL_CODE_DAY_TO_MINUTE \<equiv> 9"
abbreviation (input) SQL_CODE_DAY_TO_SECOND :: int where "SQL_CODE_DAY_TO_SECOND \<equiv> 10"
abbreviation (input) SQL_CODE_HOUR_TO_MINUTE :: int where "SQL_CODE_HOUR_TO_MINUTE \<equiv> 11"
abbreviation (input) SQL_CODE_HOUR_TO_SECOND :: int where "SQL_CODE_HOUR_TO_SECOND \<equiv> 12"
abbreviation (input) SQL_CODE_MINUTE_TO_SECOND :: int where "SQL_CODE_MINUTE_TO_SECOND \<equiv> 13"
abbreviation (input) SQL_INTERVAL_YEAR :: int where "SQL_INTERVAL_YEAR \<equiv> 101"
abbreviation (input) SQL_INTERVAL_MONTH :: int where "SQL_INTERVAL_MONTH \<equiv> 102"
abbreviation (input) SQL_INTERVAL_DAY :: int where "SQL_INTERVAL_DAY \<equiv> 103"
abbreviation (input) SQL_INTERVAL_HOUR :: int where "SQL_INTERVAL_HOUR \<equiv> 104"
abbreviation (input) SQL_INTERVAL_MINUTE :: int where "SQL_INTERVAL_MINUTE \<equiv> 105"
abbreviation (input) SQL_INTERVAL_SECOND :: int where "SQL_INTERVAL_SECOND \<equiv> 106"
abbreviation (input) SQL_INTERVAL_YEAR_TO_MONTH :: int where "SQL_INTERVAL_YEAR_TO_MONTH \<equiv> 107"
abbreviation (input) SQL_INTERVAL_DAY_TO_HOUR :: int where "SQL_INTERVAL_DAY_TO_HOUR \<equiv> 108"
abbreviation (input) SQL_INTERVAL_DAY_TO_MINUTE :: int where "SQL_INTERVAL_DAY_TO_MINUTE \<equiv> 109"
abbreviation (input) SQL_INTERVAL_DAY_TO_SECOND :: int where "SQL_INTERVAL_DAY_TO_SECOND \<equiv> 110"
abbreviation (input) SQL_INTERVAL_HOUR_TO_MINUTE :: int where "SQL_INTERVAL_HOUR_TO_MINUTE \<equiv> 111"
abbreviation (input) SQL_INTERVAL_HOUR_TO_SECOND :: int where "SQL_INTERVAL_HOUR_TO_SECOND \<equiv> 112"
abbreviation (input) SQL_INTERVAL_MINUTE_TO_SECOND :: int where "SQL_INTERVAL_MINUTE_TO_SECOND \<equiv> 113"
abbreviation (input) SQL_C_CHAR :: int where "SQL_C_CHAR \<equiv> 1"
abbreviation (input) SQL_C_WCHAR :: int where "SQL_C_WCHAR \<equiv> - 8"
abbreviation (input) SQL_C_LONG :: int where "SQL_C_LONG \<equiv> 4"
abbreviation (input) SQL_C_SHORT :: int where "SQL_C_SHORT \<equiv> 5"
abbreviation (input) SQL_C_FLOAT :: int where "SQL_C_FLOAT \<equiv> 7"
abbreviation (input) SQL_C_DOUBLE :: int where "SQL_C_DOUBLE \<equiv> 8"
abbreviation (input) SQL_C_NUMERIC :: int where "SQL_C_NUMERIC \<equiv> 2"
abbreviation (input) SQL_C_DEFAULT :: int where "SQL_C_DEFAULT \<equiv> 99"
abbreviation (input) SQL_C_TYPE_DATE :: int where "SQL_C_TYPE_DATE \<equiv> 91"
abbreviation (input) SQL_C_TYPE_TIME :: int where "SQL_C_TYPE_TIME \<equiv> 92"
abbreviation (input) SQL_C_TYPE_TIMESTAMP :: int where "SQL_C_TYPE_TIMESTAMP \<equiv> 93"
abbreviation (input) SQL_C_BINARY :: int where "SQL_C_BINARY \<equiv> - 2"
abbreviation (input) SQL_C_BIT :: int where "SQL_C_BIT \<equiv> - 7"
abbreviation (input) SQL_C_SBIGINT :: int where "SQL_C_SBIGINT \<equiv> - 25"
abbreviation (input) SQL_C_UBIGINT :: int where "SQL_C_UBIGINT \<equiv> - 27"
abbreviation (input) SQL_C_TINYINT :: int where "SQL_C_TINYINT \<equiv> - 6"
abbreviation (input) SQL_C_SLONG :: int where "SQL_C_SLONG \<equiv> - 16"
abbreviation (input) SQL_C_SSHORT :: int where "SQL_C_SSHORT \<equiv> - 15"
abbreviation (input) SQL_C_STINYINT :: int where "SQL_C_STINYINT \<equiv> - 26"
abbreviation (input) SQL_C_ULONG :: int where "SQL_C_ULONG \<equiv> - 18"
abbreviation (input) SQL_C_USHORT :: int where "SQL_C_USHORT \<equiv> - 17"
abbreviation (input) SQL_C_UTINYINT :: int where "SQL_C_UTINYINT \<equiv> - 28"
abbreviation (input) SQL_C_GUID :: int where "SQL_C_GUID \<equiv> - 11"
abbreviation (input) SQL_C_INTERVAL_YEAR :: int where "SQL_C_INTERVAL_YEAR \<equiv> 101"
abbreviation (input) SQL_C_INTERVAL_MONTH :: int where "SQL_C_INTERVAL_MONTH \<equiv> 102"
abbreviation (input) SQL_C_INTERVAL_DAY :: int where "SQL_C_INTERVAL_DAY \<equiv> 103"
abbreviation (input) SQL_C_INTERVAL_HOUR :: int where "SQL_C_INTERVAL_HOUR \<equiv> 104"
abbreviation (input) SQL_C_INTERVAL_MINUTE :: int where "SQL_C_INTERVAL_MINUTE \<equiv> 105"
abbreviation (input) SQL_C_INTERVAL_SECOND :: int where "SQL_C_INTERVAL_SECOND \<equiv> 106"
abbreviation (input) SQL_C_INTERVAL_YEAR_TO_MONTH :: int where "SQL_C_INTERVAL_YEAR_TO_MONTH \<equiv> 107"
abbreviation (input) SQL_C_INTERVAL_DAY_TO_HOUR :: int where "SQL_C_INTERVAL_DAY_TO_HOUR \<equiv> 108"
abbreviation (input) SQL_C_INTERVAL_DAY_TO_MINUTE :: int where "SQL_C_INTERVAL_DAY_TO_MINUTE \<equiv> 109"
abbreviation (input) SQL_C_INTERVAL_DAY_TO_SECOND :: int where "SQL_C_INTERVAL_DAY_TO_SECOND \<equiv> 110"
abbreviation (input) SQL_C_INTERVAL_HOUR_TO_MINUTE :: int where "SQL_C_INTERVAL_HOUR_TO_MINUTE \<equiv> 111"
abbreviation (input) SQL_C_INTERVAL_HOUR_TO_SECOND :: int where "SQL_C_INTERVAL_HOUR_TO_SECOND \<equiv> 112"
abbreviation (input) SQL_C_INTERVAL_MINUTE_TO_SECOND :: int where "SQL_C_INTERVAL_MINUTE_TO_SECOND \<equiv> 113"
abbreviation (input) ESODBC_SQL_BOOLEAN :: int where "ESODBC_SQL_BOOLEAN \<equiv> 16"
abbreviation (input) ESODBC_SQL_NULL :: int where "ESODBC_SQL_NULL \<equiv> 0"
abbreviation (input) ESODBC_SQL_UNSUPPORTED :: int where "ESODBC_SQL_UNSUPPORTED \<equiv> 1111"
abbreviation (input) ESODBC_SQL_OBJECT :: int where "ESODBC_SQL_OBJECT \<equiv> 2002"
abbreviation (input) ES_TEXT_TO_SQL :: int where "ES_TEXT_TO_SQL \<equiv> - 9"
abbreviation (input) ES_VARCHAR_SQL :: int where "ES_VARCHAR_SQL \<equiv> 12"
abbreviation (input) ES_WVARCHAR_SQL :: int where "ES_WVARCHAR_SQL \<equiv> - 9"
abbreviation (input) ES_SHORT_TO_SQL :: int where "ES_SHORT_TO_SQL \<equiv> 5"
abbreviation (input) ES_INTEGER_TO_SQL :: int where "ES_INTEGER_TO_SQL \<equiv> 4"
abbreviation (input) ES_FLOAT_TO_SQL :: int where "ES_FLOAT_TO_SQL \<equiv> 7"
abbreviation (input) ES_DOUBLE_TO_SQL :: int where "ES_DOUBLE_TO_SQL \<equiv> 8"
abbreviation (input) ES_BYTE_TO_SQL :: int where "ES_BYTE_TO_SQL \<equiv> - 6"
abbreviation (input) ES_LONG_TO_SQL :: int where "ES_LONG_TO_SQL \<equiv> - 5"
abbreviation (input) ES_BINARY_TO_SQL :: int where "ES_BINARY_TO_SQL \<equiv> - 2"

datatype desc_type_et =
  DESC_TYPE_ANON | DESC_TYPE_ARD | DESC_TYPE_IRD | DESC_TYPE_APD | DESC_TYPE_IPD

definition DESC_TYPE_IS_APPLICATION :: "desc_type_et \<Rightarrow> bool" where
  "DESC_TYPE_IS_APPLICATION t \<longleftrightarrow> t = DESC_TYPE_ARD \<or> t = DESC_TYPE_APD"
definition DESC_TYPE_IS_IMPLEMENTATION :: "desc_type_et \<Rightarrow> bool" where
  "DESC_TYPE_IS_IMPLEMENTATION t \<longleftrightarrow> t = DESC_TYPE_IRD \<or> t = DESC_TYPE_IPD"
definition DESC_TYPE_IS_RECORD :: "desc_type_et \<Rightarrow> bool" where
  "DESC_TYPE_IS_RECORD t \<longleftrightarrow> t = DESC_TYPE_ARD \<or> t = DESC_TYPE_IRD"
definition DESC_TYPE_IS_PARAMETER :: "desc_type_et \<Rightarrow> bool" where
  "DESC_TYPE_IS_PARAMETER t \<longleftrightarrow> t = DESC_TYPE_APD \<or> t = DESC_TYPE_IPD"

datatype esodbc_metatype_et =
  METATYPE_UNKNOWN | METATYPE_EXACT_NUMERIC | METATYPE_FLOAT_NUMERIC | METATYPE_STRING
  | METATYPE_BIN | METATYPE_DATE_TIME | METATYPE_INTERVAL_WSEC | METATYPE_INTERVAL_WOSEC
  | METATYPE_BIT | METATYPE_UID | METATYPE_MAX

section \<open>Verbose types and subcodes\<close>

definition concise_to_type_code :: "int \<Rightarrow> int \<times> int" where
  "concise_to_type_code concise =
    (if concise = SQL_TYPE_DATE then (SQL_DATETIME, SQL_CODE_DATE)
     else if concise = SQL_TYPE_TIME then (SQL_DATETIME, SQL_CODE_TIME)
     else if concise = SQL_TYPE_TIMESTAMP then (SQL_DATETIME, SQL_CODE_TIMESTAMP)
     else if concise = SQL_INTERVAL_MONTH then (SQL_INTERVAL, SQL_CODE_MONTH)
     else if concise = SQL_INTERVAL_YEAR then (SQL_INTERVAL, SQL_CODE_YEAR)
     else if concise = SQL_INTERVAL_YEAR_TO_MONTH then (SQL_INTERVAL, SQL_CODE_YEAR_TO_MONTH)
     else if concise = SQL_INTERVAL_DAY then (SQL_INTERVAL, SQL_CODE_DAY)
     else if concise = SQL_INTERVAL_HOUR then (SQL_INTERVAL, SQL_CODE_HOUR)
     else if concise = SQL_INTERVAL_MINUTE then (SQL_INTERVAL, SQL_CODE_MINUTE)
     else if concise = SQL_INTERVAL_SECOND then (SQL_INTERVAL, SQL_CODE_SECOND)
     else if concise = SQL_INTERVAL_DAY_TO_HOUR then (SQL_INTERVAL, SQL_CODE_DAY_TO_HOUR)
     else if concise = SQL_INTERVAL_DAY_TO_MINUTE then (SQL_INTERVAL, SQL_CODE_DAY_TO_MINUTE)
     else if concise = SQL_INTERVAL_DAY_TO_SECOND then (SQL_INTERVAL, SQL_CODE_DAY_TO_SECOND)
     else if concise = SQL_INTERVAL_HOUR_TO_MINUTE then (SQL_INTERVAL, SQL_CODE_HOUR_TO_MINUTE)
     else if concise = SQL_INTERVAL_HOUR_TO_SECOND then (SQL_INTERVAL, SQL_CODE_HOUR_TO_SECOND)
     else if concise = SQL_INTERVAL_MINUTE_TO_SECOND then (SQL_INTERVAL, SQL_CODE_MINUTE_TO_SECOND)
     else (concise, 0))"

section \<open>Meta types\<close>

definition sqltype_to_meta :: "int \<Rightarrow> esodbc_metatype_et" where
  "sqltype_to_meta concise =
    (if concise \<in> set [SQL_CHAR, SQL_VARCHAR, SQL_LONGVARCHAR, SQL_WCHAR, SQL_WVARCHAR, SQL_WLONGVARCHAR] then METATYPE_STRING
     else if concise \<in> set [SQL_BINARY, SQL_VARBINARY, SQL_LONGVARBINARY] then METATYPE_BIN
     else if concise \<in> set [SQL_DECIMAL, SQL_INTEGER, SQL_NUMERIC, SQL_SMALLINT, SQL_TINYINT, SQL_BIGINT] then METATYPE_EXACT_NUMERIC
     else if concise \<in> set [SQL_REAL, SQL_FLOAT, SQL_DOUBLE] then METATYPE_FLOAT_NUMERIC
     else if concise \<in> set [SQL_TYPE_DATE, SQL_TYPE_TIME, SQL_TYPE_TIMESTAMP] then METATYPE_DATE_TIME
     else if concise \<in> set [SQL_INTERVAL_YEAR, SQL_INTERVAL_MONTH, SQL_INTERVAL_DAY, SQL_INTERVAL_HOUR,
          SQL_INTERVAL_MINUTE, SQL_INTERVAL_YEAR_TO_MONTH, SQL_INTERVAL_DAY_TO_HOUR,
          SQL_INTERVAL_DAY_TO_MINUTE, SQL_INTERVAL_HOUR_TO_MINUTE] then METATYPE_INTERVAL_WOSEC
     else if concise \<in> set [SQL_INTERVAL_SECOND, SQL_INTERVAL_DAY_TO_SECOND, SQL_INTERVAL_HOUR_TO_SECOND,
          SQL_INTERVAL_MINUTE_TO_SECOND] then METATYPE_INTERVAL_WSEC
     else if concise = SQL_GUID then METATYPE_UID
     else if concise \<in> set [SQL_BIT, ESODBC_SQL_BOOLEAN] then METATYPE_BIT
     else if concise = ESODBC_SQL_NULL then METATYPE_MAX
     else METATYPE_UNKNOWN)"

definition sqlctype_to_meta :: "int \<Rightarrow> esodbc_metatype_et" where
  "sqlctype_to_meta concise =
    (if concise \<in> set [SQL_C_CHAR, SQL_C_WCHAR] then METATYPE_STRING
     else if concise = SQL_C_BINARY then METATYPE_BIN
     else if concise \<in> set [SQL_C_SHORT, SQL_C_SSHORT, SQL_C_USHORT, SQL_C_LONG, SQL_C_SLONG, SQL_C_ULONG,
          SQL_C_TINYINT, SQL_C_STINYINT, SQL_C_UTINYINT, SQL_C_SBIGINT, SQL_C_UBIGINT,
          SQL_C_NUMERIC]
       then METATYPE_EXACT_NUMERIC
     else if concise \<in> set [SQL_C_FLOAT, SQL_C_DOUBLE] then METATYPE_FLOAT_NUMERIC
     else if concise \<in> set [SQL_C_TYPE_DATE, SQL_C_TYPE_TIME, SQL_C_TYPE_TIMESTAMP] then METATYPE_DATE_TIME
     else if concise \<in> set [SQL_C_INTERVAL_YEAR, SQL_C_INTERVAL_MONTH, SQL_C_INTERVAL_DAY, SQL_C_INTERVAL_HOUR,
          SQL_C_INTERVAL_MINUTE, SQL_C_INTERVAL_YEAR_TO_MONTH, SQL_C_INTERVAL_DAY_TO_HOUR,
          SQL_C_INTERVAL_DAY_TO_MINUTE, SQL_C_INTERVAL_HOUR_TO_MINUTE] then METATYPE_INTERVAL_WOSEC
     else if concise \<in> set [SQL_C_INTERVAL_SECOND, SQL_C_INTERVAL_DAY_TO_SECOND, SQL_C_INTERVAL_HOUR_TO_SECOND,
          SQL_C_INTERVAL_MINUTE_TO_SECOND] then METATYPE_INTERVAL_WSEC
     else if concise = SQL_C_BIT then METATYPE_BIT
     else if concise = SQL_C_GUID then METATYPE_UID
     else if concise = SQL_C_DEFAULT then METATYPE_MAX
     else METATYPE_UNKNOWN)"

definition concise_to_meta :: "int \<Rightarrow> desc_type_et \<Rightarrow> esodbc_metatype_et" where
  "concise_to_meta concise_type desc_type =
    (case desc_type of
       DESC_TYPE_ARD \<Rightarrow> sqlctype_to_meta concise_type
     | DESC_TYPE_APD \<Rightarrow> sqlctype_to_meta concise_type
     | DESC_TYPE_IRD \<Rightarrow> sqltype_to_meta concise_type
     | DESC_TYPE_IPD \<Rightarrow> sqltype_to_meta concise_type
     | DESC_TYPE_ANON \<Rightarrow> METATYPE_UNKNOWN)"

section \<open>The SQL type of a C type\<close>

definition sqlctype_to_es :: "int \<Rightarrow> int" where
  "sqlctype_to_es c_concise =
    (if c_concise \<in> set [SQL_C_CHAR, SQL_C_WCHAR] then ES_TEXT_TO_SQL
     else if c_concise \<in> set [SQL_C_SHORT, SQL_C_SSHORT, SQL_C_USHORT] then ES_SHORT_TO_SQL
     else if c_concise \<in> set [SQL_C_LONG, SQL_C_SLONG, SQL_C_ULONG] then ES_INTEGER_TO_SQL
     else if c_concise = SQL_C_FLOAT then ES_FLOAT_TO_SQL
     else if c_concise = SQL_C_DOUBLE then ES_DOUBLE_TO_SQL
     else if c_concise \<in> set [SQL_C_BIT, SQL_C_TINYINT, SQL_C_STINYINT, SQL_C_UTINYINT] then ES_BYTE_TO_SQL
     else if c_concise \<in> set [SQL_C_SBIGINT, SQL_C_UBIGINT] then ES_LONG_TO_SQL
     else if c_concise = SQL_C_BINARY then ES_BINARY_TO_SQL
     else if c_concise \<in> set [SQL_C_TYPE_DATE, SQL_C_TYPE_TIME, SQL_C_TYPE_TIMESTAMP, SQL_C_NUMERIC, SQL_C_GUID,
          SQL_C_INTERVAL_YEAR, SQL_C_INTERVAL_MONTH, SQL_C_INTERVAL_DAY, SQL_C_INTERVAL_HOUR,
          SQL_C_INTERVAL_MINUTE, SQL_C_INTERVAL_SECOND, SQL_C_INTERVAL_YEAR_TO_MONTH,
          SQL_C_INTERVAL_DAY_TO_HOUR, SQL_C_INTERVAL_DAY_TO_MINUTE,
          SQL_C_INTERVAL_DAY_TO_SECOND, SQL_C_INTERVAL_HOUR_TO_MINUTE,
          SQL_C_INTERVAL_HOUR_TO_SECOND, SQL_C_INTERVAL_MINUTE_TO_SECOND] then c_concise
     else 0)"

section \<open>Lemmas\<close>

text \<open>Every identifier a table mentions; outside of these the tables have their defaults.\<close>

definition known_sql_types :: "int list" where
  "known_sql_types = [- 11 .. 16] @ [91 .. 93] @ [101 .. 113]"

definition known_c_types :: "int list" where
  "known_c_types = [- 28 .. 8] @ [91 .. 93] @ [99] @ [101 .. 113]"

lemma unknown_sql_type:
  "t \<notin> set known_sql_types \<Longrightarrow>
   sqltype_to_meta t = METATYPE_UNKNOWN \<and> concise_to_type_code t = (t, 0)"
  by (simp add: known_sql_types_def sqltype_to_meta_def concise_to_type_code_def) presburger

lemma unknown_c_type:
  "c \<notin> set known_c_types \<Longrightarrow> sqlctype_to_meta c = METATYPE_UNKNOWN \<and> sqlctype_to_es c = 0"
  by (simp add: known_c_types_def sqlctype_to_meta_def sqlctype_to_es_def) presburger

text \<open>A property of the tables is checked on the identifiers they mention.\<close>

lemma sql_type_cases:
  assumes "list_all P known_sql_types"
    and "\<And>t. sqltype_to_meta t = METATYPE_UNKNOWN \<Longrightarrow> concise_to_type_code t = (t, 0) \<Longrightarrow> P t"
  shows "P t"
  using assms unknown_sql_type [of t] by (cases "t \<in> set known_sql_types") (auto simp: list_all_iff)

lemma c_type_cases:
  assumes "list_all P known_c_types"
    and "\<And>c. sqlctype_to_meta c = METATYPE_UNKNOWN \<Longrightarrow> sqlctype_to_es c = 0 \<Longrightarrow> P c"
  shows "P c"
  using assms unknown_c_type [of c] by (cases "c \<in> set known_c_types") (auto simp: list_all_iff)

text \<open>The concise type back from the verbose one and the subcode.\<close>

definition type_code_to_concise :: "int \<times> int \<Rightarrow> int" where
  "type_code_to_concise tc =
     (if snd tc = 0 then fst tc else if fst tc = SQL_DATETIME then 90 + snd tc else 100 + snd tc)"

lemma type_code_to_concise: "type_code_to_concise (concise_to_type_code t) = t"
  by (simp add: type_code_to_concise_def concise_to_type_code_def)

section \<open>Properties\<close>

text \<open>The verbose type and subcode determine the concise type; the subcode is positive for
  exactly the datetime and interval types, whose verbose types are \<open>SQL_DATETIME\<close> and
  \<open>SQL_INTERVAL\<close>; every other type is its own verbose type.
\<close>

theorem concise_to_type_code_inj:
  "inj concise_to_type_code \<and>
   (sqltype_to_meta t = METATYPE_DATE_TIME) = (fst (concise_to_type_code t) = SQL_DATETIME \<and> 0 < snd (concise_to_type_code t)) \<and>
   (sqltype_to_meta t \<in> {METATYPE_INTERVAL_WSEC, METATYPE_INTERVAL_WOSEC}) =
     (fst (concise_to_type_code t) = SQL_INTERVAL \<and> 0 < snd (concise_to_type_code t)) \<and>
   (snd (concise_to_type_code t) = 0) = (concise_to_type_code t = (t, 0))"
proof (intro conjI)
  show "inj concise_to_type_code"
    using type_code_to_concise by (rule inj_on_inverseI)
  show "(sqltype_to_meta t = METATYPE_DATE_TIME) =
      (fst (concise_to_type_code t) = SQL_DATETIME \<and> 0 < snd (concise_to_type_code t))"
    by (rule sql_type_cases, code_simp) simp
  show "(sqltype_to_meta t \<in> {METATYPE_INTERVAL_WSEC, METATYPE_INTERVAL_WOSEC}) =
      (fst (concise_to_type_code t) = SQL_INTERVAL \<and> 0 < snd (concise_to_type_code t))"
    by (rule sql_type_cases, code_simp) simp
  show "(snd (concise_to_type_code t) = 0) = (concise_to_type_code t = (t, 0))"
    by (rule sql_type_cases, code_simp) simp
qed

text \<open>The C type table and the SQL type table agree. A C type the driver knows has a SQL
  type of the same class (a bit is taken for a tiny integer), except \<open>SQL_C_DEFAULT\<close>, which
  has none; in particular every numeric C type has one, which the consistency check of a
  record relies on. The identifiers of datetimes and intervals are the same on both sides.
\<close>

theorem sqlctype_to_es_class:
  "(sqlctype_to_meta c = METATYPE_UNKNOWN \<longrightarrow> sqlctype_to_es c = 0) \<and>
   (sqlctype_to_meta c = METATYPE_MAX \<longrightarrow> sqlctype_to_es c = 0) \<and>
   (sqlctype_to_meta c \<notin> {METATYPE_UNKNOWN, METATYPE_MAX} \<longrightarrow>
      sqltype_to_meta (sqlctype_to_es c) =
        (if sqlctype_to_meta c = METATYPE_BIT then METATYPE_EXACT_NUMERIC else sqlctype_to_meta c)) \<and>
   (sqlctype_to_meta c \<in> {METATYPE_DATE_TIME, METATYPE_INTERVAL_WSEC, METATYPE_INTERVAL_WOSEC} \<longrightarrow>
      sqlctype_to_es c = c)"
  by (rule c_type_cases, code_simp) simp

theorem sqlctype_to_es_class_witness:
  "sqltype_to_meta (sqlctype_to_es SQL_C_UBIGINT) = METATYPE_EXACT_NUMERIC"
  using sqlctype_to_es_class [of SQL_C_UBIGINT] by (simp add: sqlctype_to_meta_def)

end
