(* ===== verification/Desc_Records.thy ===== *)
theory Desc_Records
imports Desc_Types Diagnostics
begin

text \<open>
  Descriptors and their records (driver/handles.h, driver/handles.c): initialisation, the
  record array and its count, the buffer and access checks, and the consistency check.

  Pointers are their integer values, 0 the null pointer, when the code only stores or
  compares them; the strings a record owns are \<open>None\<close> when their pointer is null. \<open>count\<close> and
  \<open>recs\<close> are separate, as in the code; \<open>desc_ok\<close> ties them. What the allocator does is an
  argument: it fails, leaves the block where it is, or moves it. A use of the old block
  after a move is \<open>None\<close>.
\<close>

section \<open>State\<close>

record esodbc_estype =
  et_type_name :: wstr
  data_type :: int
  column_size :: int
  et_literal_prefix :: wstr
  et_literal_suffix :: wstr
  et_nullable :: int
  et_case_sensitive :: int
  et_searchable :: int
  et_unsigned_attribute :: int
  et_fixed_prec_scale :: int
  et_auto_unique_value :: int
  et_local_type_name :: wstr
  et_maximum_scale :: int
  et_sql_data_type :: int
  et_sql_datetime_sub :: int
  et_num_prec_radix :: int
  et_interval_precision :: int
  et_meta_type :: esodbc_metatype_et
  et_display_size :: int

record esodbc_rec =
  meta_type :: esodbc_metatype_et
  es_type :: "esodbc_estype option"
  concise_type :: int
  rec_type :: int
  datetime_interval_code :: int
  data_ptr :: int
  base_column_name :: "wstr option"
  base_table_name :: "wstr option"
  catalog_name :: "wstr option"
  rec_label :: "wstr option"
  rec_name :: "wstr option"
  schema_name :: "wstr option"
  table_name :: "wstr option"
  indicator_ptr :: int
  octet_length_ptr :: int
  octet_length :: int
  rec_length :: int
  datetime_interval_precision :: int
  num_prec_radix :: int
  parameter_type :: int
  precision :: int
  rowver :: int
  scale :: int
  unnamed :: int
  updatable :: int

record esodbc_desc =
  desc_diag :: esodbc_diag
  desc_type :: desc_type_et
  alloc_type :: int
  array_size :: int
  array_status_ptr :: int
  bind_offset_ptr :: int
  bind_type :: int
  count :: int
  rows_processed_ptr :: int
  recs :: "esodbc_rec list"

definition REC_IS_BOUND :: "esodbc_rec \<Rightarrow> bool" where
  "REC_IS_BOUND rec \<longleftrightarrow> data_ptr rec \<noteq> 0 \<or> indicator_ptr rec \<noteq> 0 \<or> octet_length_ptr rec \<noteq> 0"

text \<open>The identifiers of the fields; \<open>SQL_DESC_OTHER\<close> is any the code does not name.\<close>

datatype desc_field =
    SQL_DESC_COUNT | SQL_DESC_TYPE | SQL_DESC_LENGTH | SQL_DESC_OCTET_LENGTH_PTR
  | SQL_DESC_PRECISION | SQL_DESC_SCALE | SQL_DESC_DATETIME_INTERVAL_CODE | SQL_DESC_NULLABLE
  | SQL_DESC_INDICATOR_PTR | SQL_DESC_DATA_PTR | SQL_DESC_NAME | SQL_DESC_UNNAMED
  | SQL_DESC_OCTET_LENGTH | SQL_DESC_ALLOC_TYPE | SQL_DESC_ARRAY_SIZE
  | SQL_DESC_ARRAY_STATUS_PTR | SQL_DESC_AUTO_UNIQUE_VALUE | SQL_DESC_BASE_COLUMN_NAME
  | SQL_DESC_BASE_TABLE_NAME | SQL_DESC_BIND_OFFSET_PTR | SQL_DESC_BIND_TYPE
  | SQL_DESC_CASE_SENSITIVE | SQL_DESC_CATALOG_NAME | SQL_DESC_CONCISE_TYPE
  | SQL_DESC_DATETIME_INTERVAL_PRECISION | SQL_DESC_DISPLAY_SIZE | SQL_DESC_FIXED_PREC_SCALE
  | SQL_DESC_LABEL | SQL_DESC_LITERAL_PREFIX | SQL_DESC_LITERAL_SUFFIX
  | SQL_DESC_LOCAL_TYPE_NAME | SQL_DESC_NUM_PREC_RADIX | SQL_DESC_PARAMETER_TYPE
  | SQL_DESC_ROWS_PROCESSED_PTR | SQL_DESC_ROWVER | SQL_DESC_SCHEMA_NAME
  | SQL_DESC_SEARCHABLE | SQL_DESC_TYPE_NAME | SQL_DESC_TABLE_NAME | SQL_DESC_UNSIGNED
  | SQL_DESC_UPDATABLE | SQL_DESC_OTHER int

datatype access_mode = O_RDONLY | O_RDWR

datatype alloc = ALLOC_FAILS | ALLOC_IN_PLACE | ALLOC_MOVES

section \<open>Checks\<close>

abbreviation (input) SQL_NTS_LEN :: int where "SQL_NTS_LEN \<equiv> - 3"
abbreviation (input) SQL_IS_POINTER :: int where "SQL_IS_POINTER \<equiv> - 4"
abbreviation (input) SQL_IS_UINTEGER :: int where "SQL_IS_UINTEGER \<equiv> - 5"
abbreviation (input) SQL_IS_INTEGER :: int where "SQL_IS_INTEGER \<equiv> - 6"
abbreviation (input) SQL_IS_SMALLINT :: int where "SQL_IS_SMALLINT \<equiv> - 8"
abbreviation (input) SQL_DESC_ALLOC_AUTO :: int where "SQL_DESC_ALLOC_AUTO \<equiv> 1"
abbreviation (input) SQL_DESC_ALLOC_USER :: int where "SQL_DESC_ALLOC_USER \<equiv> 2"

definition ESODBC_MAX_IDENTIFIER_LEN :: int where "ESODBC_MAX_IDENTIFIER_LEN = 32767"

text \<open>\<open>%\<close> with \<open>sizeof\<close> converts the signed length to \<open>size_t\<close> first.\<close>

definition check_buff :: "desc_field \<Rightarrow> int \<Rightarrow> int \<Rightarrow> bool \<Rightarrow> esodbc_state" where
  "check_buff field_id buff buff_len writable =
    (if field_id \<in> set [SQL_DESC_BASE_COLUMN_NAME, SQL_DESC_BASE_TABLE_NAME, SQL_DESC_CATALOG_NAME,
          SQL_DESC_LABEL, SQL_DESC_LITERAL_PREFIX, SQL_DESC_LITERAL_SUFFIX,
          SQL_DESC_LOCAL_TYPE_NAME, SQL_DESC_NAME, SQL_DESC_SCHEMA_NAME, SQL_DESC_TABLE_NAME,
          SQL_DESC_TYPE_NAME] then
       (if buff_len < 0 \<and> buff_len \<noteq> SQL_NTS_LEN then SQL_STATE_HY090
        else if to_u64 buff_len mod 2 \<noteq> 0 then SQL_STATE_HY090
        else if \<not> writable \<and> ESODBC_MAX_IDENTIFIER_LEN < buff_len then SQL_STATE_22001
        else SQL_STATE_00000)
     else if writable \<and> buff = 0 then SQL_STATE_HY090
     else if field_id \<in> set [SQL_DESC_INDICATOR_PTR, SQL_DESC_OCTET_LENGTH_PTR,
          SQL_DESC_BIND_OFFSET_PTR, SQL_DESC_ROWS_PROCESSED_PTR, SQL_DESC_ARRAY_STATUS_PTR] then
       (if 0 < buff_len then SQL_STATE_HY090 else SQL_STATE_00000)
     else if field_id = SQL_DESC_DATA_PTR then
       (if buff_len \<noteq> SQL_IS_POINTER \<and> buff_len < 0 then SQL_STATE_HY090 else SQL_STATE_00000)
     else if \<not> writable then SQL_STATE_00000
     else if field_id \<in> set [SQL_DESC_BIND_TYPE, SQL_DESC_AUTO_UNIQUE_VALUE,
          SQL_DESC_CASE_SENSITIVE, SQL_DESC_DATETIME_INTERVAL_PRECISION, SQL_DESC_NUM_PREC_RADIX,
          SQL_DESC_DISPLAY_SIZE, SQL_DESC_OCTET_LENGTH] then
       (if buff_len \<noteq> SQL_IS_INTEGER then SQL_STATE_HY090 else SQL_STATE_00000)
     else if field_id \<in> set [SQL_DESC_ARRAY_SIZE, SQL_DESC_LENGTH] then
       (if buff_len \<noteq> SQL_IS_UINTEGER then SQL_STATE_HY090 else SQL_STATE_00000)
     else if field_id \<in> set [SQL_DESC_ALLOC_TYPE, SQL_DESC_COUNT, SQL_DESC_CONCISE_TYPE,
          SQL_DESC_DATETIME_INTERVAL_CODE, SQL_DESC_FIXED_PREC_SCALE, SQL_DESC_NULLABLE,
          SQL_DESC_PARAMETER_TYPE, SQL_DESC_PRECISION, SQL_DESC_ROWVER, SQL_DESC_SCALE,
          SQL_DESC_SEARCHABLE, SQL_DESC_TYPE, SQL_DESC_UNNAMED, SQL_DESC_UNSIGNED,
          SQL_DESC_UPDATABLE] then
       (if buff_len \<noteq> SQL_IS_SMALLINT then SQL_STATE_HY090 else SQL_STATE_00000)
     else SQL_STATE_HY091)"

definition check_access :: "desc_type_et \<Rightarrow> desc_field \<Rightarrow> access_mode \<Rightarrow> bool" where
  "check_access dt field_id mode =
    (if dt = DESC_TYPE_ANON then False
     else if field_id = SQL_DESC_ALLOC_TYPE then mode = O_RDONLY
     else if field_id = SQL_DESC_ARRAY_STATUS_PTR then True
     else if field_id = SQL_DESC_ROWS_PROCESSED_PTR then DESC_TYPE_IS_IMPLEMENTATION dt
     else if field_id = SQL_DESC_PARAMETER_TYPE then dt = DESC_TYPE_IPD
     else if field_id \<in> set [SQL_DESC_ARRAY_SIZE, SQL_DESC_BIND_OFFSET_PTR, SQL_DESC_BIND_TYPE,
          SQL_DESC_INDICATOR_PTR, SQL_DESC_OCTET_LENGTH_PTR] then
       DESC_TYPE_IS_APPLICATION dt
     else if field_id = SQL_DESC_DATA_PTR then dt \<noteq> DESC_TYPE_IRD
     else if field_id \<in> set [SQL_DESC_AUTO_UNIQUE_VALUE, SQL_DESC_BASE_COLUMN_NAME,
          SQL_DESC_BASE_TABLE_NAME, SQL_DESC_DISPLAY_SIZE, SQL_DESC_CATALOG_NAME, SQL_DESC_LABEL,
          SQL_DESC_LITERAL_PREFIX, SQL_DESC_LITERAL_SUFFIX, SQL_DESC_SCHEMA_NAME,
          SQL_DESC_SEARCHABLE, SQL_DESC_TABLE_NAME, SQL_DESC_UPDATABLE] then
       dt = DESC_TYPE_ARD \<and> mode = O_RDONLY
     else if field_id \<in> set [SQL_DESC_CASE_SENSITIVE, SQL_DESC_FIXED_PREC_SCALE,
          SQL_DESC_LOCAL_TYPE_NAME, SQL_DESC_NULLABLE, SQL_DESC_ROWVER, SQL_DESC_UNSIGNED,
          SQL_DESC_TYPE_NAME] then
       mode = O_RDONLY \<and> DESC_TYPE_IS_IMPLEMENTATION dt
     else if field_id \<in> set [SQL_DESC_NAME, SQL_DESC_UNNAMED] then
       dt = DESC_TYPE_IPD \<or> dt = DESC_TYPE_IRD \<and> mode = O_RDONLY
     else if field_id \<in> set [SQL_DESC_COUNT, SQL_DESC_CONCISE_TYPE,
          SQL_DESC_DATETIME_INTERVAL_CODE, SQL_DESC_DATETIME_INTERVAL_PRECISION, SQL_DESC_LENGTH,
          SQL_DESC_NUM_PREC_RADIX, SQL_DESC_OCTET_LENGTH, SQL_DESC_PRECISION, SQL_DESC_SCALE,
          SQL_DESC_TYPE] then
       (case dt of
          DESC_TYPE_ARD \<Rightarrow> True | DESC_TYPE_APD \<Rightarrow> True | DESC_TYPE_IPD \<Rightarrow> True
        | DESC_TYPE_IRD \<Rightarrow> mode = O_RDONLY | DESC_TYPE_ANON \<Rightarrow> False)
     else False)"

section \<open>Records and their count\<close>

definition free_rec_fields :: "esodbc_rec \<Rightarrow> esodbc_rec" where
  "free_rec_fields rec = rec\<lparr>base_column_name := None, base_table_name := None,
     catalog_name := None, rec_label := None, rec_name := None, schema_name := None,
     table_name := None\<rparr>"

definition zero_rec :: esodbc_rec where
  "zero_rec = \<lparr>meta_type = METATYPE_UNKNOWN, es_type = None, concise_type = 0, rec_type = 0,
     datetime_interval_code = 0, data_ptr = 0, base_column_name = None, base_table_name = None,
     catalog_name = None, rec_label = None, rec_name = None, schema_name = None,
     table_name = None, indicator_ptr = 0, octet_length_ptr = 0, octet_length = 0,
     rec_length = 0, datetime_interval_precision = 0, num_prec_radix = 0, parameter_type = 0,
     precision = 0, rowver = 0, scale = 0, unnamed = 0, updatable = 0\<rparr>"

definition init_rec :: "desc_type_et \<Rightarrow> esodbc_rec" where
  "init_rec dt =
     (if dt = DESC_TYPE_IPD then zero_rec\<lparr>parameter_type := 1\<rparr> else zero_rec)"

definition free_desc_recs :: "esodbc_desc \<Rightarrow> esodbc_desc" where
  "free_desc_recs desc = desc\<lparr>recs := [], count := 0\<rparr>"

definition RET_DESC :: "wstr \<Rightarrow> esodbc_desc \<Rightarrow> esodbc_state \<Rightarrow> (esodbc_desc \<times> sqlreturn) option" where
  "RET_DESC ver desc st = do {
     (d, ret) \<leftarrow> RET_HDIAGS ver (desc_diag desc) st;
     Some (desc\<lparr>desc_diag := d\<rparr>, ret) }"

definition RET_DESC_TEXT ::
    "wstr \<Rightarrow> esodbc_desc \<Rightarrow> esodbc_state \<Rightarrow> string \<Rightarrow> (esodbc_desc \<times> sqlreturn) option" where
  "RET_DESC_TEXT ver desc st txt = do {
     (d, ret) \<leftarrow> post_diagnostic ver (desc_diag desc) st (Some (wlit txt @ [0])) 0;
     Some (desc\<lparr>desc_diag := d\<rparr>, ret) }"

definition ESODBC_MAX_DESC_COUNT :: int where "ESODBC_MAX_DESC_COUNT = 32767"

text \<open>
  When the array shrinks, the code frees the strings of the records from \<open>new_count - 1\<close> on,
  through the old pointer: in a block that stayed in place this empties the last record
  that is kept.
\<close>

definition update_rec_count ::
    "wstr \<Rightarrow> alloc \<Rightarrow> esodbc_desc \<Rightarrow> int \<Rightarrow> (esodbc_desc \<times> sqlreturn) option" where
  "update_rec_count ver al desc new_count =
    (if new_count < 0 then RET_DESC ver desc SQL_STATE_07009
     else if count desc = new_count then Some (desc, SQL_SUCCESS)
     else if ESODBC_MAX_DESC_COUNT < new_count then RET_DESC ver desc SQL_STATE_07009
     else if new_count = 0 then
       Some ((free_desc_recs desc)\<lparr>count := new_count, recs := []\<rparr>, SQL_SUCCESS)
     else if al = ALLOC_FAILS then RET_DESC ver desc SQL_STATE_HY001
     else if new_count < count desc then
       (if al = ALLOC_MOVES then None
        else Some (desc\<lparr>count := new_count,
            recs := take (nat new_count - 1) (recs desc) @ [free_rec_fields (recs desc ! (nat new_count - 1))]\<rparr>,
          SQL_SUCCESS))
     else
       Some (desc\<lparr>count := new_count,
           recs := recs desc @ replicate (nat (new_count - count desc)) (init_rec (desc_type desc))\<rparr>,
         SQL_SUCCESS))"

text \<open>The record's position (\<open>None\<close>: the null pointer).\<close>

definition get_record ::
    "wstr \<Rightarrow> alloc \<Rightarrow> esodbc_desc \<Rightarrow> int \<Rightarrow> bool \<Rightarrow> (esodbc_desc \<times> nat option) option" where
  "get_record ver al desc rec_no grow =
    (if count desc < rec_no then
       (if \<not> grow then Some (desc, None)
        else do {
          (desc, ret) \<leftarrow> update_rec_count ver al desc rec_no;
          Some (desc, if SQL_SUCCEEDED ret then Some (nat rec_no - 1) else None) })
     else Some (desc, Some (nat rec_no - 1)))"

fun count_bound_from :: "esodbc_rec list \<Rightarrow> nat \<Rightarrow> nat" where
  "count_bound_from rs 0 = 0"
| "count_bound_from rs (Suc i) = (if \<not> REC_IS_BOUND (rs ! i) then count_bound_from rs i else Suc i)"

definition count_bound :: "esodbc_desc \<Rightarrow> int" where
  "count_bound desc = int (count_bound_from (recs desc) (nat (count desc)))"

text \<open>The header of a descriptor is the memory that \<open>memset\<close> cleared.\<close>

definition init_desc :: "desc_type_et \<Rightarrow> int \<Rightarrow> esodbc_desc option" where
  "init_desc ty alloc_ty = do {
     diag \<leftarrow> init_diagnostic \<lparr>state = 0, diag_text = replicate SQL_MAX_MESSAGE_LENGTH 0, text_len = 0,
       native_code = 0, row_number = 0, column_number = 0\<rparr>;
     Some \<lparr>desc_diag = diag,
       desc_type = (if alloc_ty = SQL_DESC_ALLOC_USER then DESC_TYPE_ANON else ty),
       alloc_type = alloc_ty, array_size = 1, array_status_ptr = 0, bind_offset_ptr = 0,
       bind_type = 0, count = 0, rows_processed_ptr = 0, recs = []\<rparr> }"

section \<open>Defaults and consistency\<close>

definition set_defaults_from_meta_type :: "esodbc_rec \<Rightarrow> esodbc_rec" where
  "set_defaults_from_meta_type rec =
    (case meta_type rec of
       METATYPE_STRING \<Rightarrow> rec\<lparr>rec_length := 1, precision := 0\<rparr>
     | METATYPE_DATE_TIME \<Rightarrow>
         if datetime_interval_code rec = SQL_CODE_DATE \<or> datetime_interval_code rec = SQL_CODE_TIME
         then rec\<lparr>precision := 0\<rparr>
         else if datetime_interval_code rec = SQL_CODE_TIMESTAMP then rec\<lparr>precision := 6\<rparr> else rec
     | METATYPE_INTERVAL_WSEC \<Rightarrow> rec\<lparr>precision := 6, datetime_interval_precision := 2\<rparr>
     | METATYPE_INTERVAL_WOSEC \<Rightarrow> rec\<lparr>datetime_interval_precision := 2\<rparr>
     | METATYPE_EXACT_NUMERIC \<Rightarrow>
         if concise_type rec = SQL_DECIMAL \<or> concise_type rec = SQL_NUMERIC
         then rec\<lparr>scale := 0, precision := 19\<rparr> else rec
     | METATYPE_FLOAT_NUMERIC \<Rightarrow>
         if concise_type rec = SQL_FLOAT then rec\<lparr>precision := 16\<rparr> else rec
     | _ \<Rightarrow> rec)"

text \<open>The types of the connection the check consults; a pointer not set yet is \<open>None\<close>.\<close>

record dbc_types =
  es_types :: "esodbc_estype list"
  max_varchar_type :: "esodbc_estype option"
  max_float_type :: "esodbc_estype option"

fun lookup_es_type_iter ::
    "esodbc_estype list \<Rightarrow> esodbc_estype option \<Rightarrow> int \<Rightarrow> int \<Rightarrow> esodbc_estype option option" where
  "lookup_es_type_iter [] maxf es_t col_size = Some None"
| "lookup_es_type_iter (e # es) maxf es_t col_size =
    (if data_type e = es_t then
       (if col_size \<le> 0 then Some (Some e)
        else if to_i32 col_size \<le> column_size e then Some (Some e)
        else if es_t = SQL_DOUBLE then
          (case maxf of
             None \<Rightarrow> None
           | Some m \<Rightarrow> if column_size e = column_size m then Some (Some m)
                      else lookup_es_type_iter es maxf es_t col_size)
        else lookup_es_type_iter es maxf es_t col_size)
     else lookup_es_type_iter es maxf es_t col_size)"

definition lookup_es_type :: "dbc_types \<Rightarrow> int \<Rightarrow> int \<Rightarrow> esodbc_estype option option" where
  "lookup_es_type dbc es_t col_size =
    (if es_t = ES_VARCHAR_SQL \<or> es_t = ES_WVARCHAR_SQL then Some (max_varchar_type dbc)
     else lookup_es_type_iter (es_types dbc) (max_float_type dbc) es_t col_size)"

text \<open>
  The bound of a numeric record's precision: \<open>Inl\<close> is the function's early result, and
  \<open>Inl None\<close> its early \<open>break\<close>. The outer \<open>None\<close> is a null or wrong pointer followed; the
  connection is reached through the descriptor's parent, and is \<open>None\<close> when that is not a
  statement.
\<close>

definition numeric_column_size ::
    "dbc_types option \<Rightarrow> desc_type_et \<Rightarrow> esodbc_rec \<Rightarrow> (bool option + int) option" where
  "numeric_column_size dbc dt rec =
    (case es_type rec of
       Some e \<Rightarrow> Some (Inr (column_size e))
     | None \<Rightarrow>
         (case dbc of
            None \<Rightarrow> None
          | Some dbc \<Rightarrow>
              if concise_type rec = SQL_FLOAT then
                (case max_float_type dbc of None \<Rightarrow> None | Some m \<Rightarrow> Some (Inr (column_size m)))
              else
                let ct = (if DESC_TYPE_IS_APPLICATION dt then sqlctype_to_es (concise_type rec)
                          else concise_type rec) in
                if es_types dbc = [] then Some (Inl None)
                else (case lookup_es_type dbc ct 0 of
                    None \<Rightarrow> None
                  | Some None \<Rightarrow> Some (Inl (Some False))
                  | Some (Some e) \<Rightarrow> Some (Inr (column_size e)))))"

definition ivl_lead_prec :: "int \<Rightarrow> int" where
  "ivl_lead_prec ct =
    (if ct = SQL_INTERVAL_YEAR then int (length ''-2147483647'')
     else if ct = SQL_INTERVAL_MONTH then int (length ''-2147483647'')
     else if ct = SQL_INTERVAL_DAY then int (length ''-106751991167300'')
     else if ct = SQL_INTERVAL_HOUR then int (length ''-2562047788015215'')
     else if ct = SQL_INTERVAL_MINUTE then int (length ''-153722867280912930'')
     else if ct = SQL_INTERVAL_SECOND then int (length ''-9223372036854775807'')
     else - 1)"

definition consistency_check :: "dbc_types option \<Rightarrow> desc_type_et \<Rightarrow> esodbc_rec \<Rightarrow> bool option" where
  "consistency_check dbc dt rec =
    (if meta_type rec = METATYPE_UNKNOWN then Some False
     else if (rec_type rec, datetime_interval_code rec) \<noteq> concise_to_type_code (concise_type rec)
       then Some False
     else
       let prec_ok = (0 \<le> precision rec \<and> precision rec \<le> 9);
           numeric = (case numeric_column_size dbc dt rec of
               None \<Rightarrow> None
             | Some (Inl None) \<Rightarrow> Some True
             | Some (Inl (Some b)) \<Rightarrow> Some b
             | Some (Inr sz) \<Rightarrow> Some (\<not> (precision rec < 0 \<or> sz < precision rec)))
       in (case meta_type rec of
         METATYPE_EXACT_NUMERIC \<Rightarrow>
           if concise_type rec \<noteq> SQL_NUMERIC \<and> concise_type rec \<noteq> SQL_DECIMAL then
             (if scale rec \<noteq> 0 then Some False else numeric)
           else Some True
       | METATYPE_FLOAT_NUMERIC \<Rightarrow> numeric
       | METATYPE_DATE_TIME \<Rightarrow>
           if concise_type rec = SQL_TYPE_DATE then Some True
           else if SQL_INTERVAL_MONTH < concise_type rec \<and>
             concise_type rec \<noteq> SQL_INTERVAL_YEAR_TO_MONTH \<and> \<not> prec_ok then Some False
           else Some True
       | mt \<Rightarrow>
           if mt = METATYPE_INTERVAL_WSEC \<or> mt = METATYPE_INTERVAL_WOSEC then
             (if SQL_INTERVAL_MONTH < concise_type rec \<and>
                concise_type rec \<noteq> SQL_INTERVAL_YEAR_TO_MONTH \<and> \<not> prec_ok then Some False
              else
                let max_prec = ivl_lead_prec (concise_type rec) in
                Some (\<not> (0 < max_prec \<and> (datetime_interval_precision rec < 0 \<or>
                   max_prec < datetime_interval_precision rec))))
           else Some True))"

section \<open>Invariant\<close>

text \<open>The header's diagnostic can be posted on: its array is whole and the prefix fits it.\<close>

definition diag_ok :: "wstr \<Rightarrow> esodbc_diag \<Rightarrow> bool" where
  "diag_ok ver d \<longleftrightarrow> length (diag_text d) = SQL_MAX_MESSAGE_LENGTH \<and>
     length (ESODBC_DIAG_PREFIX ver) < SQL_MAX_MESSAGE_LENGTH \<and> 0 \<notin> set ver"

text \<open>The diagnostic after posting a state with its own message, or with a text.\<close>

definition posted :: "wstr \<Rightarrow> esodbc_diag \<Rightarrow> esodbc_state \<Rightarrow> wstr \<Rightarrow> esodbc_diag" where
  "posted ver d st msg =
    (let out = take (SQL_MAX_MESSAGE_LENGTH - 1) (ESODBC_DIAG_PREFIX ver @ msg) in
     d\<lparr>state := st, native_code := 0, diag_text := out @ 0 # drop (Suc (length out)) (diag_text d),
       text_len := length out\<rparr>)"

abbreviation default_message :: "esodbc_state \<Rightarrow> wstr" where
  "default_message st \<equiv> wlit (state_message (esodbc_errors ! st))"

definition rec_ok :: "desc_type_et \<Rightarrow> esodbc_rec \<Rightarrow> bool" where
  "rec_ok dt rec \<longleftrightarrow>
     meta_type rec \<noteq> METATYPE_UNKNOWN \<longrightarrow> meta_type rec = concise_to_meta (concise_type rec) dt"

text \<open>A descriptor is well formed: the count is that of the records and within its type's
  bounds, and no record has a meta type that is not its data type's.\<close>

definition desc_ok :: "wstr \<Rightarrow> esodbc_desc \<Rightarrow> bool" where
  "desc_ok ver desc \<longleftrightarrow> diag_ok ver (desc_diag desc) \<and> count desc = int (length (recs desc)) \<and>
     count desc \<le> ESODBC_MAX_DESC_COUNT \<and> (\<forall>rec\<in>set (recs desc). rec_ok (desc_type desc) rec)"

lemma state_posted [simp]: "state (posted ver d st msg) = st"
  by (simp add: posted_def Let_def)

lemma diag_ok_posted [simp]: "diag_ok ver d \<Longrightarrow> diag_ok ver (posted ver d st msg)"
  by (auto simp: diag_ok_def posted_def Let_def SQL_MAX_MESSAGE_LENGTH_def min_def)

lemma RET_HDIAGS_ok:
  "diag_ok ver d \<Longrightarrow> st < 120 \<Longrightarrow>
    RET_HDIAGS ver d st = Some (posted ver d st (default_message st), state_retcode (esodbc_errors ! st))"
  using post_diagnostic_eq [of d ver st None "default_message st" "[]" _ 0, OF _ _ _ _ _ refl]
  by (simp add: RET_HDIAGS_def diag_ok_def SQL_MAX_MESSAGE_LENGTH_def posted_def Let_def esodbc_errors_length)

lemma RET_DESC_ok:
  "diag_ok ver (desc_diag desc) \<Longrightarrow> st < 120 \<Longrightarrow>
   RET_DESC ver desc st =
     Some (desc\<lparr>desc_diag := posted ver (desc_diag desc) st (default_message st)\<rparr>,
       state_retcode (esodbc_errors ! st))"
  using post_diagnostic_eq [of "desc_diag desc" ver st None "default_message st" "[]" _ 0,
      OF _ _ _ _ _ refl]
  by (simp add: RET_DESC_def RET_HDIAGS_def diag_ok_def SQL_MAX_MESSAGE_LENGTH_def posted_def
      Let_def esodbc_errors_length)

lemma RET_DESC_TEXT_ok:
  "diag_ok ver (desc_diag desc) \<Longrightarrow> st < 120 \<Longrightarrow> CHR 0x00 \<notin> set s \<Longrightarrow>
   RET_DESC_TEXT ver desc st s =
     Some (desc\<lparr>desc_diag := posted ver (desc_diag desc) st (wlit s)\<rparr>,
       state_retcode (esodbc_errors ! st))"
  using post_diagnostic_eq [of "desc_diag desc" ver st "Some (wlit s @ [0])" "wlit s" "[]" _ 0,
      OF _ _ _ _ _ refl]
  by (simp add: RET_DESC_TEXT_def diag_ok_def SQL_MAX_MESSAGE_LENGTH_def posted_def
      Let_def esodbc_errors_length)

lemma retcode_error:
  "state_retcode (esodbc_errors ! SQL_STATE_07009) = SQL_ERROR"
  "state_retcode (esodbc_errors ! SQL_STATE_HY001) = SQL_ERROR"
  "state_retcode (esodbc_errors ! SQL_STATE_HY003) = SQL_ERROR"
  "state_retcode (esodbc_errors ! SQL_STATE_HY004) = SQL_ERROR"
  "state_retcode (esodbc_errors ! SQL_STATE_HY021) = SQL_ERROR"
  "state_retcode (esodbc_errors ! SQL_STATE_HY090) = SQL_ERROR"
  "state_retcode (esodbc_errors ! SQL_STATE_HY091) = SQL_ERROR"
  "state_retcode (esodbc_errors ! SQL_STATE_HY092) = SQL_ERROR"
  "state_retcode (esodbc_errors ! SQL_STATE_HYC00) = SQL_ERROR"
  "state_retcode (esodbc_errors ! SQL_STATE_22001) = SQL_ERROR"
  "state_retcode (esodbc_errors ! SQL_STATE_01S02) = SQL_SUCCESS_WITH_INFO"
  by code_simp+

lemma rec_ok_init [simp]: "rec_ok dt (init_rec dt')"
  by (simp add: rec_ok_def init_rec_def zero_rec_def)

lemma rec_ok_free [simp]: "rec_ok dt (free_rec_fields rec) = rec_ok dt rec"
  by (simp add: rec_ok_def free_rec_fields_def)

lemma desc_ok_posted [simp]:
  "desc_ok ver desc \<Longrightarrow> desc_ok ver (desc\<lparr>desc_diag := posted ver (desc_diag desc) st msg\<rparr>)"
  by (simp add: desc_ok_def)

section \<open>Lemmas\<close>

lemma desc_okD:
  "desc_ok ver desc \<Longrightarrow> count desc = int (length (recs desc))"
  "desc_ok ver desc \<Longrightarrow> length (recs desc) \<le> 32767"
  "desc_ok ver desc \<Longrightarrow> diag_ok ver (desc_diag desc)"
  "desc_ok ver desc \<Longrightarrow> rec \<in> set (recs desc) \<Longrightarrow> rec_ok (desc_type desc) rec"
  by (auto simp: desc_ok_def ESODBC_MAX_DESC_COUNT_def)

lemma update_rec_count_invalid:
  assumes "desc_ok ver desc" and "n < 0 \<or> ESODBC_MAX_DESC_COUNT < n"
  shows "update_rec_count ver al desc n =
    Some (desc\<lparr>desc_diag := posted ver (desc_diag desc) SQL_STATE_07009
      (default_message SQL_STATE_07009)\<rparr>, SQL_ERROR)"
  using assms desc_okD(1,2) [OF assms(1)]
  by (auto simp: update_rec_count_def RET_DESC_ok desc_okD(3) retcode_error
      ESODBC_MAX_DESC_COUNT_def)

lemma update_rec_count_fails:
  assumes "desc_ok ver desc" and "0 < n" "n \<le> ESODBC_MAX_DESC_COUNT" "n \<noteq> count desc"
  shows "update_rec_count ver ALLOC_FAILS desc n =
    Some (desc\<lparr>desc_diag := posted ver (desc_diag desc) SQL_STATE_HY001
      (default_message SQL_STATE_HY001)\<rparr>, SQL_ERROR)"
  using assms by (simp add: update_rec_count_def RET_DESC_ok desc_okD(3) retcode_error)

lemma update_rec_count_grows:
  assumes "desc_ok ver desc" and "count desc \<le> n" "n \<le> ESODBC_MAX_DESC_COUNT" "al \<noteq> ALLOC_FAILS"
  shows "update_rec_count ver al desc n =
    Some (desc\<lparr>count := n, recs := recs desc @
      replicate (nat n - length (recs desc)) (init_rec (desc_type desc))\<rparr>, SQL_SUCCESS)"
  using assms desc_okD(1) [OF assms(1)]
  by (auto simp: update_rec_count_def free_desc_recs_def nat_diff_distrib)

lemma update_rec_count_same:
  "desc_ok ver desc \<Longrightarrow> update_rec_count ver al desc (count desc) = Some (desc, SQL_SUCCESS)"
  using desc_okD(1) [of ver desc] by (simp add: update_rec_count_def)

lemma update_rec_count_zero:
  "desc_ok ver desc \<Longrightarrow>
   update_rec_count ver al desc 0 = Some (desc\<lparr>count := 0, recs := []\<rparr>, SQL_SUCCESS)"
  using desc_okD(1) [of ver desc]
  by (auto simp: update_rec_count_def free_desc_recs_def ESODBC_MAX_DESC_COUNT_def)

lemma update_rec_count_shrinks:
  assumes "desc_ok ver desc" and "0 < n" "n < count desc"
  shows "update_rec_count ver ALLOC_IN_PLACE desc n =
      Some (desc\<lparr>count := n, recs := take (nat n - 1) (recs desc) @
        [free_rec_fields (recs desc ! (nat n - 1))]\<rparr>, SQL_SUCCESS)"
    and "update_rec_count ver ALLOC_MOVES desc n = None"
  using assms desc_okD(1,2) [OF assms(1)]
  by (auto simp: update_rec_count_def ESODBC_MAX_DESC_COUNT_def)

lemma update_rec_count_ok:
  assumes ok: "desc_ok ver desc" and "al = ALLOC_MOVES \<Longrightarrow> n \<le> 0 \<or> count desc \<le> n"
  shows "\<exists>desc' ret. update_rec_count ver al desc n = Some (desc', ret) \<and> desc_ok ver desc' \<and>
    desc_type desc' = desc_type desc \<and> alloc_type desc' = alloc_type desc \<and>
    (SQL_SUCCEEDED ret \<longrightarrow> count desc' = n \<and> state (desc_diag desc') = state (desc_diag desc)) \<and>
    (\<not> SQL_SUCCEEDED ret \<longrightarrow> recs desc' = recs desc \<and>
      (state (desc_diag desc') = SQL_STATE_07009 \<or> state (desc_diag desc') = SQL_STATE_HY001))"
proof -
  note cnt = desc_okD(1) [OF ok]
  consider "n < 0 \<or> ESODBC_MAX_DESC_COUNT < n" | "n = count desc" | "n = 0"
    | "0 < n" "n \<le> ESODBC_MAX_DESC_COUNT" "n \<noteq> count desc" "al = ALLOC_FAILS"
    | "count desc \<le> n" "n \<le> ESODBC_MAX_DESC_COUNT" "al \<noteq> ALLOC_FAILS"
    | "0 < n" "n < count desc" "al = ALLOC_IN_PLACE"
    using assms(2) by (cases al) (force simp: not_less not_le)+
  then show ?thesis
  proof cases
    case 1
    then show ?thesis
      using ok by (simp add: update_rec_count_invalid SQL_SUCCEEDED_def)
  next
    case 2
    then show ?thesis
      using ok by (simp add: update_rec_count_same SQL_SUCCEEDED_def)
  next
    case 3
    then show ?thesis
      using ok by (simp add: update_rec_count_zero SQL_SUCCEEDED_def desc_ok_def ESODBC_MAX_DESC_COUNT_def)
  next
    case 4
    then show ?thesis
      using ok by (simp add: update_rec_count_fails SQL_SUCCEEDED_def)
  next
    case 5
    then show ?thesis
      using ok cnt by (auto simp: update_rec_count_grows SQL_SUCCEEDED_def desc_ok_def)
  next
    case 6
    then have "recs desc ! (nat n - 1) \<in> set (recs desc)"
      using cnt by (intro nth_mem) simp
    with 6 show ?thesis
      using ok cnt by (auto simp: update_rec_count_shrinks SQL_SUCCEEDED_def desc_ok_def
          ESODBC_MAX_DESC_COUNT_def dest: in_set_takeD)
  qed
qed

lemma take_update_last:
  "0 < n \<Longrightarrow> n \<le> length xs \<Longrightarrow> (take n xs)[n - Suc 0 := x] = take (n - Suc 0) xs @ [x]"
  by (cases n) (simp_all add: take_Suc_conv_app_nth list_update_append)

lemma get_record_ok:
  assumes "desc_ok ver desc" and "0 < rec_no" and "rec_no \<le> ESODBC_MAX_DESC_COUNT"
  shows "\<exists>new r. get_record ver al desc rec_no True = Some (new, r) \<and> desc_ok ver new \<and>
    desc_type new = desc_type desc \<and> alloc_type new = alloc_type desc \<and>
    (\<forall>i. r = Some i \<longrightarrow> i = nat rec_no - 1 \<and> i < length (recs new) \<and>
      new = desc\<lparr>count := max (count desc) rec_no, recs := recs desc @
        replicate (nat rec_no - length (recs desc)) (init_rec (desc_type desc))\<rparr>) \<and>
    (r = None \<longrightarrow> state (desc_diag new) = SQL_STATE_HY001 \<and> al = ALLOC_FAILS \<and>
      count desc < rec_no \<and> recs new = recs desc)"
proof -
  note cnt = desc_okD(1) [OF assms(1)]
  consider "rec_no \<le> count desc" | "count desc < rec_no" "al = ALLOC_FAILS"
    | "count desc < rec_no" "al \<noteq> ALLOC_FAILS"
    by linarith
  then show ?thesis
  proof cases
    case 1
    then show ?thesis using assms cnt by (auto simp: get_record_def)
  next
    case 2
    then show ?thesis
      using assms by (simp add: get_record_def update_rec_count_fails SQL_SUCCEEDED_def)
  next
    case 3
    define new where "new = desc\<lparr>count := rec_no, recs := recs desc @
        replicate (nat rec_no - length (recs desc)) (init_rec (desc_type desc))\<rparr>"
    have upd: "update_rec_count ver al desc rec_no = Some (new, SQL_SUCCESS)"
      using 3 assms by (simp add: update_rec_count_grows new_def)
    have "desc_ok ver new"
      using assms 3 cnt by (auto simp: new_def desc_ok_def)
    moreover have "get_record ver al desc rec_no True = Some (new, Some (nat rec_no - 1))"
      using 3 upd by (simp add: get_record_def SQL_SUCCEEDED_def)
    ultimately show ?thesis
      using 3 cnt assms(2) by (simp add: new_def nat_less_iff)
  qed
qed

text \<open>The highest bound record.\<close>

lemma count_bound_from_le: "count_bound_from rs n \<le> n"
  by (induction n) (auto intro: le_SucI)

lemma count_bound_from_above:
  "count_bound_from rs n \<le> i \<Longrightarrow> i < n \<Longrightarrow> \<not> REC_IS_BOUND (rs ! i)"
  by (induction n) (auto simp: less_Suc_eq split: if_splits)

lemma count_bound_from_bound:
  "0 < count_bound_from rs n \<Longrightarrow> REC_IS_BOUND (rs ! (count_bound_from rs n - 1))"
  by (induction n) (auto split: if_splits)

section \<open>Properties\<close>

text \<open>The access matrix the comment above \<open>check_access\<close> gives: per field, its rights in an
  ARD, an APD, an IRD and an IPD.\<close>

definition access_matrix :: "(desc_field \<times> string \<times> string \<times> string \<times> string) list" where
  "access_matrix =
    [(SQL_DESC_ALLOC_TYPE, ''r'', ''r'', ''r'', ''r''),
     (SQL_DESC_ARRAY_STATUS_PTR, ''rw'', ''rw'', ''rw'', ''rw''),
     (SQL_DESC_ROWS_PROCESSED_PTR, '''', '''', ''rw'', ''rw''),
     (SQL_DESC_PARAMETER_TYPE, '''', '''', '''', ''rw''),
     (SQL_DESC_ARRAY_SIZE, ''rw'', ''rw'', '''', ''''),
     (SQL_DESC_BIND_OFFSET_PTR, ''rw'', ''rw'', '''', ''''),
     (SQL_DESC_BIND_TYPE, ''rw'', ''rw'', '''', ''''),
     (SQL_DESC_DATA_PTR, ''rw'', ''rw'', '''', ''rw''),
     (SQL_DESC_INDICATOR_PTR, ''rw'', ''rw'', '''', ''''),
     (SQL_DESC_OCTET_LENGTH_PTR, ''rw'', ''rw'', '''', ''''),
     (SQL_DESC_AUTO_UNIQUE_VALUE, '''', '''', ''r'', ''''),
     (SQL_DESC_BASE_COLUMN_NAME, '''', '''', ''r'', ''''),
     (SQL_DESC_BASE_TABLE_NAME, '''', '''', ''r'', ''''),
     (SQL_DESC_DISPLAY_SIZE, '''', '''', ''r'', ''''),
     (SQL_DESC_CATALOG_NAME, '''', '''', ''r'', ''''),
     (SQL_DESC_LABEL, '''', '''', ''r'', ''''),
     (SQL_DESC_LITERAL_PREFIX, '''', '''', ''r'', ''''),
     (SQL_DESC_LITERAL_SUFFIX, '''', '''', ''r'', ''''),
     (SQL_DESC_SCHEMA_NAME, '''', '''', ''r'', ''''),
     (SQL_DESC_SEARCHABLE, '''', '''', ''r'', ''''),
     (SQL_DESC_TABLE_NAME, '''', '''', ''r'', ''''),
     (SQL_DESC_UPDATABLE, '''', '''', ''r'', ''''),
     (SQL_DESC_CASE_SENSITIVE, '''', '''', ''r'', ''r''),
     (SQL_DESC_FIXED_PREC_SCALE, '''', '''', ''r'', ''r''),
     (SQL_DESC_LOCAL_TYPE_NAME, '''', '''', ''r'', ''r''),
     (SQL_DESC_NULLABLE, '''', '''', ''r'', ''r''),
     (SQL_DESC_ROWVER, '''', '''', ''r'', ''r''),
     (SQL_DESC_UNSIGNED, '''', '''', ''r'', ''r''),
     (SQL_DESC_TYPE_NAME, '''', '''', ''r'', ''r''),
     (SQL_DESC_NAME, '''', '''', ''r'', ''rw''),
     (SQL_DESC_UNNAMED, '''', '''', ''r'', ''rw''),
     (SQL_DESC_COUNT, ''rw'', ''rw'', ''r'', ''rw''),
     (SQL_DESC_CONCISE_TYPE, ''rw'', ''rw'', ''r'', ''rw''),
     (SQL_DESC_DATETIME_INTERVAL_CODE, ''rw'', ''rw'', ''r'', ''rw''),
     (SQL_DESC_DATETIME_INTERVAL_PRECISION, ''rw'', ''rw'', ''r'', ''rw''),
     (SQL_DESC_LENGTH, ''rw'', ''rw'', ''r'', ''rw''),
     (SQL_DESC_NUM_PREC_RADIX, ''rw'', ''rw'', ''r'', ''rw''),
     (SQL_DESC_OCTET_LENGTH, ''rw'', ''rw'', ''r'', ''rw''),
     (SQL_DESC_PRECISION, ''rw'', ''rw'', ''r'', ''rw''),
     (SQL_DESC_SCALE, ''rw'', ''rw'', ''r'', ''rw''),
     (SQL_DESC_TYPE, ''rw'', ''rw'', ''r'', ''rw'')]"

definition access_column :: "desc_type_et \<Rightarrow> string \<times> string \<times> string \<times> string \<Rightarrow> string" where
  "access_column dt row = (case row of (ard, apd, ird, ipd) \<Rightarrow>
     (case dt of DESC_TYPE_ARD \<Rightarrow> ard | DESC_TYPE_APD \<Rightarrow> apd | DESC_TYPE_IRD \<Rightarrow> ird
      | DESC_TYPE_IPD \<Rightarrow> ipd | DESC_TYPE_ANON \<Rightarrow> []))"

definition grants :: "desc_type_et \<Rightarrow> desc_field \<Rightarrow> string" where
  "grants dt f = (if check_access dt f O_RDONLY then ''r'' else []) @
     (if check_access dt f O_RDWR then ''w'' else [])"

text \<open>\<open>check_access\<close> grants what the matrix of its documentation grants, for every field and
  kind of descriptor, but for the twelve fields of the result's meta data: the matrix lets
  them be read in an IRD, and the code in an ARD. A field without a row, and a descriptor
  not yet tied to a statement, has no rights.
\<close>

theorem check_access_matrix:
  "list_all (\<lambda>(f, row). list_all (\<lambda>dt.
       grants dt f =
         (if row = ([], [], ''r'', []) then (if dt = DESC_TYPE_ARD then ''r'' else [])
          else access_column dt row))
     [DESC_TYPE_ANON, DESC_TYPE_ARD, DESC_TYPE_IRD, DESC_TYPE_APD, DESC_TYPE_IPD]) access_matrix \<and>
   list_all (\<lambda>f. \<not> check_access dt f mode) [SQL_DESC_OTHER i] \<and>
   \<not> check_access DESC_TYPE_ANON f mode"
proof (intro conjI)
  show "list_all (\<lambda>(f, row). list_all (\<lambda>dt.
       grants dt f =
         (if row = ([], [], ''r'', []) then (if dt = DESC_TYPE_ARD then ''r'' else [])
          else access_column dt row))
     [DESC_TYPE_ANON, DESC_TYPE_ARD, DESC_TYPE_IRD, DESC_TYPE_APD, DESC_TYPE_IPD]) access_matrix"
    by code_simp
  show "list_all (\<lambda>f. \<not> check_access dt f mode) [SQL_DESC_OTHER i]"
    by (simp add: check_access_def)
  show "\<not> check_access DESC_TYPE_ANON f mode"
    by (simp add: check_access_def)
qed


text \<open>A descriptor to run the operations on: an ARD of two records, the first bound and named.\<close>

definition sample_rec :: esodbc_rec where
  "sample_rec = zero_rec\<lparr>meta_type := METATYPE_STRING, concise_type := SQL_C_CHAR,
     rec_type := SQL_C_CHAR, data_ptr := 4096, rec_label := Some (wlit ''a'')\<rparr>"

definition sample_desc :: esodbc_desc where
  "sample_desc = \<lparr>desc_diag = \<lparr>state = 0, diag_text = replicate 512 0, text_len = 0,
       native_code = 0, row_number = - 1, column_number = - 1\<rparr>,
     desc_type = DESC_TYPE_ARD, alloc_type = SQL_DESC_ALLOC_AUTO, array_size = 1,
     array_status_ptr = 0, bind_offset_ptr = 0, bind_type = 0, count = 2, rows_processed_ptr = 0,
     recs = [sample_rec, zero_rec]\<rparr>"

lemma sample_desc_ok: "desc_ok (wlit ''1.0'') sample_desc"
  by (simp add: desc_ok_def sample_desc_def diag_ok_def SQL_MAX_MESSAGE_LENGTH_def rec_ok_def
      sample_rec_def zero_rec_def concise_to_meta_def sqlctype_to_meta_def ESODBC_DIAG_PREFIX_def
      ESODBC_MAX_DESC_COUNT_def)


text \<open>Asking for a record past the count makes the array grow to it, with every record
  already there kept; the position returned is inside the array, the record at it the one
  asked for. Without \<open>grow\<close>, or when the allocation fails, there is no record and the
  records stay as they were.
\<close>

theorem get_record_correct:
  assumes "desc_ok ver desc" and "0 < rec_no" and "rec_no \<le> ESODBC_MAX_DESC_COUNT"
  shows "\<exists>desc' r. get_record ver al desc rec_no grow = Some (desc', r) \<and> desc_ok ver desc' \<and>
    take (length (recs desc)) (recs desc') = recs desc \<and>
    (case r of
       Some i \<Rightarrow> i = nat rec_no - 1 \<and> i < length (recs desc') \<and>
         count desc' = max (count desc) rec_no \<and>
         (count desc < rec_no \<longrightarrow> recs desc' ! i = init_rec (desc_type desc)) \<and>
         desc_diag desc' = desc_diag desc
     | None \<Rightarrow> count desc < rec_no \<and> (\<not> grow \<or> al = ALLOC_FAILS) \<and> recs desc' = recs desc \<and>
         (grow \<longrightarrow> state (desc_diag desc') = SQL_STATE_HY001))"
proof (cases grow)
  case True
  obtain new r where "get_record ver al desc rec_no True = Some (new, r)" "desc_ok ver new"
      "\<forall>i. r = Some i \<longrightarrow> i = nat rec_no - 1 \<and> i < length (recs new) \<and>
        new = desc\<lparr>count := max (count desc) rec_no, recs := recs desc @
          replicate (nat rec_no - length (recs desc)) (init_rec (desc_type desc))\<rparr>"
      "r = None \<longrightarrow> state (desc_diag new) = SQL_STATE_HY001 \<and> al = ALLOC_FAILS \<and>
        count desc < rec_no \<and> recs new = recs desc"
    using get_record_ok [OF assms] by blast
  with True desc_okD(1) [OF assms(1)] show ?thesis
    by (cases r) (auto simp: nth_append)
next
  case False
  then show ?thesis
    using assms desc_okD(1) [OF assms(1)] by (auto simp: get_record_def)
qed

theorem get_record_correct_witness:
  "\<exists>desc'. get_record (wlit ''1.0'') ALLOC_MOVES sample_desc 3 True = Some (desc', Some 2) \<and>
    count desc' = 3 \<and> take 2 (recs desc') = [sample_rec, zero_rec]"
  using get_record_correct [OF sample_desc_ok, of 3 ALLOC_MOVES True]
  by (auto simp: sample_desc_def ESODBC_MAX_DESC_COUNT_def numeral_2_eq_2 split: option.splits)

end
