(* ===== verification/Desc_SetField.thy ===== *)
theory Desc_SetField
imports Desc_Records
begin

text \<open>
  \<open>EsSQLSetDescFieldW\<close> of driver/handles.c: setting a field of a descriptor's header or of
  one of its records, with the side effects the ODBC specification attaches to it: growing
  the record array, unbinding a record whose attributes change, checking the consistency of
  a record that is bound, deriving types and defaults, lowering the count when the highest
  record is unbound.

  The value is the integer in \<open>ValuePtr\<close>, which the function casts to the field's type. For
  the string fields \<open>buf\<close> is the memory \<open>ValuePtr\<close> points at. The two \<open>alloc\<close> arguments are
  the outcome of the allocation of the records and of a string.
\<close>

section \<open>Header fields\<close>

definition ESODBC_MAX_ROW_ARRAY_SIZE :: int where "ESODBC_MAX_ROW_ARRAY_SIZE = 65535"

definition is_header_field :: "desc_field \<Rightarrow> bool" where
  "is_header_field f \<longleftrightarrow> f \<in> set [SQL_DESC_ARRAY_SIZE, SQL_DESC_ARRAY_STATUS_PTR,
     SQL_DESC_BIND_OFFSET_PTR, SQL_DESC_BIND_TYPE, SQL_DESC_COUNT, SQL_DESC_ROWS_PROCESSED_PTR]"

definition set_array_size ::
    "wstr \<Rightarrow> esodbc_desc \<Rightarrow> int \<Rightarrow> (esodbc_desc \<times> sqlreturn) option" where
  "set_array_size ver desc ulen =
    (if DESC_TYPE_IS_RECORD (desc_type desc) then
       (if ESODBC_MAX_ROW_ARRAY_SIZE < ulen then
          RET_DESC ver (desc\<lparr>array_size := ESODBC_MAX_ROW_ARRAY_SIZE\<rparr>) SQL_STATE_01S02
        else if ulen < 1 then RET_DESC ver desc SQL_STATE_HY092
        else Some (desc\<lparr>array_size := ulen\<rparr>, SQL_SUCCESS))
     else if 1 < ulen then RET_DESC_TEXT ver desc SQL_STATE_HYC00 ''Parameter arrays not implemented''
     else Some (desc\<lparr>array_size := ulen\<rparr>, SQL_SUCCESS))"

definition set_header_field ::
    "wstr \<Rightarrow> alloc \<Rightarrow> esodbc_desc \<Rightarrow> desc_field \<Rightarrow> int \<Rightarrow> (esodbc_desc \<times> sqlreturn) option" where
  "set_header_field ver al desc f val =
    (if f = SQL_DESC_ARRAY_SIZE then set_array_size ver desc (to_u64 val)
     else if f = SQL_DESC_ARRAY_STATUS_PTR then Some (desc\<lparr>array_status_ptr := val\<rparr>, SQL_SUCCESS)
     else if f = SQL_DESC_BIND_OFFSET_PTR then Some (desc\<lparr>bind_offset_ptr := val\<rparr>, SQL_SUCCESS)
     else if f = SQL_DESC_BIND_TYPE then
       Some (desc\<lparr>bind_type := to_i32 val\<rparr>, SQL_SUCCESS)
     else if f = SQL_DESC_COUNT then update_rec_count ver al desc (to_i16 val)
     else Some (desc\<lparr>rows_processed_ptr := val\<rparr>, SQL_SUCCESS))"

section \<open>Record fields\<close>

definition upd_rec :: "esodbc_desc \<Rightarrow> nat \<Rightarrow> esodbc_rec \<Rightarrow> esodbc_desc" where
  "upd_rec desc i rec = desc\<lparr>recs := (recs desc)[i := rec]\<rparr>"

definition set_verbose_type ::
    "wstr \<Rightarrow> esodbc_desc \<Rightarrow> nat \<Rightarrow> int \<Rightarrow> (esodbc_desc \<times> sqlreturn) option" where
  "set_verbose_type ver desc i ty =
    (let rec = recs desc ! i; (chk_type, chk_code) = concise_to_type_code (concise_type rec) in
     if chk_type \<noteq> ty \<or> chk_code \<noteq> datetime_interval_code rec \<or> datetime_interval_code rec = 0
     then RET_DESC ver desc SQL_STATE_HY021
     else Some (upd_rec desc i (rec\<lparr>rec_type := ty\<rparr>), SQL_SUCCESS))"

definition with_concise_type :: "desc_type_et \<Rightarrow> esodbc_rec \<Rightarrow> int \<Rightarrow> esodbc_rec" where
  "with_concise_type dt rec ty =
    rec\<lparr>concise_type := ty, rec_type := fst (concise_to_type_code ty),
        datetime_interval_code := snd (concise_to_type_code ty), meta_type := concise_to_meta ty dt\<rparr>"

definition set_concise_type ::
    "wstr \<Rightarrow> esodbc_desc \<Rightarrow> nat \<Rightarrow> int \<Rightarrow> (esodbc_desc \<times> sqlreturn) option" where
  "set_concise_type ver desc i ty =
    (let rec = with_concise_type (desc_type desc) (recs desc ! i) ty in
     if meta_type rec = METATYPE_UNKNOWN then
       RET_DESC ver (upd_rec desc i rec)
         (if DESC_TYPE_IS_APPLICATION (desc_type desc) then SQL_STATE_HY003 else SQL_STATE_HY004)
     else Some (upd_rec desc i (set_defaults_from_meta_type rec), SQL_SUCCESS))"

definition set_data_ptr ::
    "wstr \<Rightarrow> dbc_types option \<Rightarrow> alloc \<Rightarrow> esodbc_desc \<Rightarrow> nat \<Rightarrow> int \<Rightarrow> int
     \<Rightarrow> (esodbc_desc \<times> sqlreturn) option" where
  "set_data_ptr ver dbc al desc i rec_no val =
    (let rec = (recs desc ! i)\<lparr>data_ptr := val\<rparr>; desc = upd_rec desc i rec in
     if data_ptr rec \<noteq> 0 then
       (if desc_type desc \<noteq> DESC_TYPE_IRD then
          (case consistency_check dbc (desc_type desc) rec of
             None \<Rightarrow> None
           | Some False \<Rightarrow> RET_DESC ver desc SQL_STATE_HY021
           | Some True \<Rightarrow> Some (desc, SQL_SUCCESS))
        else Some (desc, SQL_SUCCESS))
     else if DESC_TYPE_IS_APPLICATION (desc_type desc) \<and> \<not> REC_IS_BOUND rec \<and> rec_no = count desc \<and>
         count_bound desc \<noteq> count desc
       then update_rec_count ver al desc (count_bound desc)
     else Some (desc, SQL_SUCCESS))"

definition is_string_field :: "desc_field \<Rightarrow> bool" where
  "is_string_field f \<longleftrightarrow> f \<in> set [SQL_DESC_BASE_COLUMN_NAME, SQL_DESC_BASE_TABLE_NAME,
     SQL_DESC_CATALOG_NAME, SQL_DESC_LABEL, SQL_DESC_SCHEMA_NAME, SQL_DESC_TABLE_NAME]"

definition with_string :: "esodbc_rec \<Rightarrow> desc_field \<Rightarrow> wstr option \<Rightarrow> esodbc_rec" where
  "with_string rec f s =
    (if f = SQL_DESC_BASE_COLUMN_NAME then rec\<lparr>base_column_name := s\<rparr>
     else if f = SQL_DESC_BASE_TABLE_NAME then rec\<lparr>base_table_name := s\<rparr>
     else if f = SQL_DESC_CATALOG_NAME then rec\<lparr>catalog_name := s\<rparr>
     else if f = SQL_DESC_LABEL then rec\<lparr>rec_label := s\<rparr>
     else if f = SQL_DESC_SCHEMA_NAME then rec\<lparr>schema_name := s\<rparr>
     else rec\<lparr>table_name := s\<rparr>)"

definition set_string_field ::
    "wstr \<Rightarrow> alloc \<Rightarrow> esodbc_desc \<Rightarrow> nat \<Rightarrow> desc_field \<Rightarrow> int \<Rightarrow> wstr \<Rightarrow> int
     \<Rightarrow> (esodbc_desc \<times> sqlreturn) option" where
  "set_string_field ver al desc i f val buf buff_len = do {
     wlen \<leftarrow> (if buff_len = SQL_NTS_LEN then (if val \<noteq> 0 then mem_strlen buf else Some 0)
              else Some (nat buff_len));
     let desc = upd_rec desc i (with_string (recs desc ! i) f None);
     if val = 0 then Some (desc, SQL_SUCCESS)
     else if al = ALLOC_FAILS then RET_DESC ver desc SQL_STATE_HY001
     else if length buf < wlen then None
     else Some (upd_rec desc i (with_string (recs desc ! i) f (Some (take wlen buf))), SQL_SUCCESS) }"

definition set_rec_field ::
    "wstr \<Rightarrow> dbc_types option \<Rightarrow> alloc \<Rightarrow> alloc \<Rightarrow> esodbc_desc \<Rightarrow> nat \<Rightarrow> int \<Rightarrow> desc_field \<Rightarrow> int \<Rightarrow> wstr \<Rightarrow> int
     \<Rightarrow> (esodbc_desc \<times> sqlreturn) option" where
  "set_rec_field ver dbc al sal desc i rec_no f val buf buff_len =
    (let rec = recs desc ! i;
         done = (\<lambda>rec. Some (upd_rec desc i rec, SQL_SUCCESS)) in
     if f = SQL_DESC_TYPE then
       (if to_i16 val = SQL_DATETIME \<or> to_i16 val = SQL_INTERVAL
        then set_verbose_type ver desc i (to_i16 val)
        else set_concise_type ver desc i (to_i16 val))
     else if f = SQL_DESC_CONCISE_TYPE then set_concise_type ver desc i (to_i16 val)
     else if f = SQL_DESC_DATA_PTR then set_data_ptr ver dbc al desc i rec_no val
     else if f = SQL_DESC_NAME then
       RET_DESC_TEXT ver desc SQL_STATE_HYC00 ''stored procedure params not supported''
     else if is_string_field f then set_string_field ver sal desc i f val buf buff_len
     else if f = SQL_DESC_INDICATOR_PTR then done (rec\<lparr>indicator_ptr := val\<rparr>)
     else if f = SQL_DESC_OCTET_LENGTH_PTR then done (rec\<lparr>octet_length_ptr := val\<rparr>)
     else if f = SQL_DESC_OCTET_LENGTH then done (rec\<lparr>octet_length := to_i64 val\<rparr>)
     else if f = SQL_DESC_LENGTH then done (rec\<lparr>rec_length := to_u64 val\<rparr>)
     else if f = SQL_DESC_DATETIME_INTERVAL_CODE then
       done (rec\<lparr>datetime_interval_code := to_i16 val\<rparr>)
     else if f = SQL_DESC_PARAMETER_TYPE then done (rec\<lparr>parameter_type := to_i16 val\<rparr>)
     else if f = SQL_DESC_PRECISION then done (rec\<lparr>precision := to_i16 val\<rparr>)
     else if f = SQL_DESC_ROWVER then done (rec\<lparr>rowver := to_i16 val\<rparr>)
     else if f = SQL_DESC_SCALE then done (rec\<lparr>scale := to_i16 val\<rparr>)
     else if f = SQL_DESC_UNNAMED then
       (if to_i16 val = 0 then RET_DESC ver desc SQL_STATE_HY091
        else done (rec\<lparr>unnamed := to_i16 val\<rparr>))
     else if f = SQL_DESC_UPDATABLE then done (rec\<lparr>updatable := to_i16 val\<rparr>)
     else if f = SQL_DESC_DATETIME_INTERVAL_PRECISION then
       done (rec\<lparr>datetime_interval_precision := to_i32 val\<rparr>)
     else if f = SQL_DESC_NUM_PREC_RADIX then done (rec\<lparr>num_prec_radix := to_i32 val\<rparr>)
     else RET_DESC ver desc SQL_STATE_HY091)"

section \<open>The function\<close>

definition EsSQLSetDescFieldW ::
    "wstr \<Rightarrow> dbc_types option \<Rightarrow> alloc \<Rightarrow> alloc \<Rightarrow> esodbc_desc \<Rightarrow> int \<Rightarrow> desc_field \<Rightarrow> int \<Rightarrow> wstr \<Rightarrow> int
     \<Rightarrow> (esodbc_desc \<times> sqlreturn) option" where
  "EsSQLSetDescFieldW ver dbc al sal desc rec_no f val buf buff_len =
    (if \<not> check_access (desc_type desc) f O_RDWR then RET_DESC ver desc SQL_STATE_HY091
     else if check_buff f val buff_len False \<noteq> SQL_STATE_00000 then
       RET_DESC ver desc (check_buff f val buff_len False)
     else if is_header_field f then set_header_field ver al desc f val
     else if rec_no < 0 then
       RET_DESC_TEXT ver desc SQL_STATE_07009 ''Negative record number provided with record field''
     else if rec_no = 0 then RET_DESC_TEXT ver desc SQL_STATE_07009 ''Unsupported record number 0''
     else do {
       (desc, r) \<leftarrow> get_record ver al desc rec_no True;
       case r of
         None \<Rightarrow> map_option (Pair desc) (RET_STATE (state (desc_diag desc)))
       | Some i \<Rightarrow>
           let desc = (if f \<noteq> SQL_DESC_DATA_PTR then upd_rec desc i ((recs desc ! i)\<lparr>data_ptr := 0\<rparr>)
                       else desc) in
           set_rec_field ver dbc al sal desc i rec_no f val buf buff_len })"

section \<open>Lemmas\<close>

lemma upd_rec_simps [simp]:
  "desc_type (upd_rec desc i rec) = desc_type desc" "alloc_type (upd_rec desc i rec) = alloc_type desc"
  "count (upd_rec desc i rec) = count desc"
  "desc_diag (upd_rec desc i rec) = desc_diag desc"
  "recs (upd_rec desc i rec) = (recs desc)[i := rec]"
  by (simp_all add: upd_rec_def)

lemma upd_rec_ok [simp]:
  "desc_ok ver desc \<Longrightarrow> rec_ok (desc_type desc) rec \<Longrightarrow> desc_ok ver (upd_rec desc i rec)"
  by (auto simp: desc_ok_def dest: set_update_subset_insert [THEN subsetD])

lemma rec_ok_data_ptr [simp]: "rec_ok dt (rec\<lparr>data_ptr := p\<rparr>) = rec_ok dt rec"
  by (simp add: rec_ok_def)

lemma set_defaults_simps [simp]:
  "meta_type (set_defaults_from_meta_type rec) = meta_type rec"
  "concise_type (set_defaults_from_meta_type rec) = concise_type rec"
  "rec_type (set_defaults_from_meta_type rec) = rec_type rec"
  "datetime_interval_code (set_defaults_from_meta_type rec) = datetime_interval_code rec"
  "data_ptr (set_defaults_from_meta_type rec) = data_ptr rec"
  "es_type (set_defaults_from_meta_type rec) = es_type rec"
  by (auto simp: set_defaults_from_meta_type_def split: esodbc_metatype_et.splits)

lemma with_concise_type_simps [simp]:
  "meta_type (with_concise_type dt rec ty) = concise_to_meta ty dt"
  "concise_type (with_concise_type dt rec ty) = ty"
  "rec_type (with_concise_type dt rec ty) = fst (concise_to_type_code ty)"
  "datetime_interval_code (with_concise_type dt rec ty) = snd (concise_to_type_code ty)"
  "data_ptr (with_concise_type dt rec ty) = data_ptr rec"
  "es_type (with_concise_type dt rec ty) = es_type rec"
  "precision (with_concise_type dt rec ty) = precision rec"
  "scale (with_concise_type dt rec ty) = scale rec"
  "datetime_interval_precision (with_concise_type dt rec ty) = datetime_interval_precision rec"
  by (simp_all add: with_concise_type_def)

lemma rec_ok_with_concise_type [simp]: "rec_ok dt (with_concise_type dt rec ty)"
  "rec_ok dt (set_defaults_from_meta_type (with_concise_type dt rec ty))"
  by (simp_all add: rec_ok_def)

lemma check_buff_state: "check_buff f val len w < 120"
  by (simp add: check_buff_def)

text \<open>A look-up that does not ask for a size never compares with the largest float type.\<close>

lemma lookup_es_type_iter_any: "\<exists>r. lookup_es_type_iter es maxf t 0 = Some r"
  by (induction es) auto

text \<open>The descriptor belongs to a statement of a connection whose float type is known.\<close>

definition types_ok :: "dbc_types option \<Rightarrow> bool" where
  "types_ok dbc \<longleftrightarrow> (case dbc of None \<Rightarrow> False | Some t \<Rightarrow> max_float_type t \<noteq> None)"

lemma consistency_check_defined:
  assumes "types_ok dbc"
  shows "\<exists>b. consistency_check dbc dt rec = Some b"
proof -
  obtain ty where ty: "dbc = Some ty" "max_float_type ty \<noteq> None"
    using assms by (auto simp: types_ok_def split: option.splits)
  have "\<exists>r. lookup_es_type ty t 0 = Some r" for t
    using lookup_es_type_iter_any by (auto simp: lookup_es_type_def)
  then obtain L where "\<And>t. lookup_es_type ty t 0 = Some (L t)"
    by metis
  then have "\<exists>r. numeric_column_size dbc dt rec = Some r"
    using ty by (auto simp: numeric_column_size_def Let_def split: option.splits)
  then obtain r where r: "numeric_column_size dbc dt rec = Some r" ..
  then have "\<exists>b. (case numeric_column_size dbc dt rec of
      None \<Rightarrow> None | Some (Inl None) \<Rightarrow> Some True | Some (Inl (Some b)) \<Rightarrow> Some b
      | Some (Inr sz) \<Rightarrow> Some (\<not> (precision rec < 0 \<or> sz < precision rec))) = Some b"
    by (auto split: sum.split option.split)
  then obtain b where b: "(case numeric_column_size dbc dt rec of
      None \<Rightarrow> None | Some (Inl None) \<Rightarrow> Some True | Some (Inl (Some b)) \<Rightarrow> Some b
      | Some (Inr sz) \<Rightarrow> Some (\<not> (precision rec < 0 \<or> sz < precision rec))) = Some b" ..
  have "consistency_check dbc dt rec \<noteq> None"
    unfolding consistency_check_def Let_def b by (cases "meta_type rec") (simp_all del: not_None_eq)
  then show ?thesis by simp
qed

lemma consistency_check_data_ptr [simp]:
  "consistency_check dbc dt (rec\<lparr>data_ptr := p\<rparr>) = consistency_check dbc dt rec"
proof (cases rec)
  case fields
  show ?thesis
    unfolding consistency_check_def numeric_column_size_def fields esodbc_rec.simps ..
qed

text \<open>What an operation on a well formed descriptor may do: it returns, and keeps it well
  formed and of its type.\<close>

definition keeps_ok :: "wstr \<Rightarrow> esodbc_desc \<Rightarrow> (esodbc_desc \<times> sqlreturn) option \<Rightarrow> bool" where
  "keeps_ok ver desc res \<longleftrightarrow> (\<exists>desc' ret. res = Some (desc', ret) \<and> desc_ok ver desc' \<and>
     desc_type desc' = desc_type desc \<and> alloc_type desc' = alloc_type desc)"

lemma keeps_okI [simp]:
  "keeps_ok ver desc (Some (desc', ret)) = (desc_ok ver desc' \<and> desc_type desc' = desc_type desc \<and> alloc_type desc' = alloc_type desc)"
  by (simp add: keeps_ok_def)

lemma keeps_ok_RET_DESC:
  "desc_ok ver desc' \<Longrightarrow> desc_type desc' = desc_type desc \<Longrightarrow> alloc_type desc' = alloc_type desc \<Longrightarrow> st < 120 \<Longrightarrow>
   keeps_ok ver desc (RET_DESC ver desc' st)"
  by (simp add: RET_DESC_ok desc_okD(3))

lemma keeps_ok_RET_DESC_TEXT:
  "desc_ok ver desc' \<Longrightarrow> desc_type desc' = desc_type desc \<Longrightarrow> alloc_type desc' = alloc_type desc \<Longrightarrow> st < 120 \<Longrightarrow> CHR 0x00 \<notin> set s \<Longrightarrow>
   keeps_ok ver desc (RET_DESC_TEXT ver desc' st s)"
  by (simp add: RET_DESC_TEXT_ok desc_okD(3))

lemma keeps_ok_update_rec_count:
  "desc_ok ver desc' \<Longrightarrow> desc_type desc' = desc_type desc \<Longrightarrow> alloc_type desc' = alloc_type desc \<Longrightarrow>
   al \<noteq> ALLOC_MOVES \<Longrightarrow>
   keeps_ok ver desc (update_rec_count ver al desc' n)"
  using update_rec_count_ok [of ver desc' al n] by (auto simp: keeps_ok_def)

lemmas keeps_ok_intros = keeps_ok_RET_DESC keeps_ok_RET_DESC_TEXT keeps_ok_update_rec_count

lemma set_header_field_ok:
  "desc_ok ver desc \<Longrightarrow> al \<noteq> ALLOC_MOVES \<or> f \<noteq> SQL_DESC_COUNT \<Longrightarrow>
   keeps_ok ver desc (set_header_field ver al desc f val)"
  by (auto simp: set_header_field_def set_array_size_def desc_ok_def intro!: keeps_ok_intros)

lemma set_verbose_type_ok:
  "desc_ok ver desc \<Longrightarrow> i < length (recs desc) \<Longrightarrow> keeps_ok ver desc (set_verbose_type ver desc i ty)"
  using desc_okD(4) [of ver desc "recs desc ! i"]
  by (auto simp: set_verbose_type_def Let_def rec_ok_def split: prod.splits
      intro!: keeps_ok_intros upd_rec_ok)

lemma set_concise_type_ok:
  "desc_ok ver desc \<Longrightarrow> keeps_ok ver desc (set_concise_type ver desc i ty)"
  by (auto simp: set_concise_type_def Let_def intro!: keeps_ok_intros)

lemma set_data_ptr_ok:
  assumes "desc_ok ver desc" "i < length (recs desc)" "al \<noteq> ALLOC_MOVES" "types_ok dbc \<or> val = 0"
  shows "keeps_ok ver desc (set_data_ptr ver dbc al desc i rec_no val)"
proof -
  have ok: "desc_ok ver (upd_rec desc i ((recs desc ! i)\<lparr>data_ptr := val\<rparr>))"
    using assms desc_okD(4) [OF assms(1)] by simp
  show ?thesis
  proof (cases "val = 0")
    case True
    then show ?thesis
      using ok assms(3) by (auto simp: set_data_ptr_def Let_def intro!: keeps_ok_intros)
  next
    case False
    then obtain C where "\<And>dt rec. consistency_check dbc dt rec = Some (C dt rec)"
      using consistency_check_defined assms(4) by metis
    then show ?thesis
      using False ok assms(3) by (auto simp: set_data_ptr_def Let_def split: option.splits bool.splits
          intro!: keeps_ok_intros)
  qed
qed

lemma set_rec_field_ok:
  assumes ok: "desc_ok ver desc" "i < length (recs desc)"
    and "al \<noteq> ALLOC_MOVES \<or> f \<noteq> SQL_DESC_DATA_PTR"
      "types_ok dbc \<or> f \<noteq> SQL_DESC_DATA_PTR \<or> val = 0"
    and "\<not> is_string_field f"
  shows "keeps_ok ver desc (set_rec_field ver dbc al sal desc i rec_no f val buf buff_len)"
proof -
  have rec: "rec_ok (desc_type desc) (recs desc ! i)"
    using ok by (simp add: desc_okD(4))
  show ?thesis
  proof (cases "f \<in> set [SQL_DESC_TYPE, SQL_DESC_CONCISE_TYPE, SQL_DESC_DATA_PTR]")
    case True
    then show ?thesis
      using assms(3,4) set_verbose_type_ok [OF ok] set_concise_type_ok [OF ok(1)]
        set_data_ptr_ok [OF ok]
      by (auto simp: set_rec_field_def)
  next
    case False
    then show ?thesis
      using assms(5) rec ok(1)
      by (auto simp: set_rec_field_def Let_def rec_ok_def intro!: keeps_ok_intros upd_rec_ok)
  qed
qed

section \<open>Properties\<close>

lemma writable_not_string: "check_access dt f O_RDWR \<Longrightarrow> \<not> is_string_field f"
  by (cases dt) (auto simp: is_string_field_def check_access_def)

lemma set_desc_field_keeps:
  assumes "desc_ok ver desc" and "rec_no \<le> ESODBC_MAX_DESC_COUNT"
    and "al \<noteq> ALLOC_MOVES \<or> f \<noteq> SQL_DESC_COUNT \<and> f \<noteq> SQL_DESC_DATA_PTR"
    and "types_ok dbc \<or> f \<noteq> SQL_DESC_DATA_PTR \<or> val = 0"
  shows "keeps_ok ver desc (EsSQLSetDescFieldW ver dbc al sal desc rec_no f val buf buff_len)"
proof (cases "check_access (desc_type desc) f O_RDWR \<and>
    check_buff f val buff_len False = SQL_STATE_00000 \<and> \<not> is_header_field f \<and> 0 < rec_no")
  case False
  then show ?thesis
    using set_header_field_ok [OF assms(1), of al f val] assms(1,3) check_buff_state
    by (auto simp: EsSQLSetDescFieldW_def intro!: keeps_ok_intros)
next
  case True
  obtain new r where get: "get_record ver al desc rec_no True = Some (new, r)" "desc_ok ver new"
      "desc_type new = desc_type desc" "alloc_type new = alloc_type desc"
      "\<And>i. r = Some i \<Longrightarrow> i < length (recs new)"
      "r = None \<Longrightarrow> state (desc_diag new) = SQL_STATE_HY001"
    using get_record_ok [OF assms(1) _ assms(2), of al] True by blast
  show ?thesis
  proof (cases r)
    case None
    with True get show ?thesis
      by (simp add: EsSQLSetDescFieldW_def RET_STATE_def mem_read_def esodbc_errors_length)
  next
    case (Some i)
    define cur where "cur = (if f \<noteq> SQL_DESC_DATA_PTR
        then upd_rec new i ((recs new ! i)\<lparr>data_ptr := 0\<rparr>) else new)"
    have "desc_ok ver cur" "i < length (recs cur)" "desc_type cur = desc_type desc"
        "alloc_type cur = alloc_type desc"
      using get(2-5) Some desc_okD(4) [OF get(2)] by (auto simp: cur_def)
    moreover have "al \<noteq> ALLOC_MOVES \<or> f \<noteq> SQL_DESC_DATA_PTR"
      using assms(3) by blast
    ultimately have "keeps_ok ver cur (set_rec_field ver dbc al sal cur i rec_no f val buf buff_len)"
      using assms(4) True writable_not_string by (intro set_rec_field_ok) auto
    with True Some get(1) \<open>desc_type cur = desc_type desc\<close> \<open>alloc_type cur = alloc_type desc\<close>
    show ?thesis
      by (auto simp: EsSQLSetDescFieldW_def Let_def cur_def keeps_ok_def)
  qed
qed


lemma set_existing_record:
  assumes "check_access (desc_type desc) f O_RDWR" and "check_buff f val buff_len False = SQL_STATE_00000"
    and "\<not> is_header_field f" and "0 < rec_no" and "rec_no \<le> count desc" and "i = nat rec_no - 1"
  shows "EsSQLSetDescFieldW ver dbc al sal desc rec_no f val buf buff_len =
    set_rec_field ver dbc al sal
      (if f \<noteq> SQL_DESC_DATA_PTR then upd_rec desc i ((recs desc ! i)\<lparr>data_ptr := 0\<rparr>) else desc)
      i rec_no f val buf buff_len"
  using assms by (simp add: EsSQLSetDescFieldW_def get_record_def Let_def)

lemma set_data_ptr_field:
  assumes "desc_type desc \<in> {DESC_TYPE_ARD, DESC_TYPE_APD, DESC_TYPE_IPD}"
    and "0 \<le> buff_len \<or> buff_len = SQL_IS_POINTER" and "0 < rec_no" and "rec_no \<le> count desc"
  shows "EsSQLSetDescFieldW ver dbc al sal desc rec_no SQL_DESC_DATA_PTR val buf buff_len =
    set_data_ptr ver dbc al desc (nat rec_no - 1) rec_no val"
  using assms
  by (subst set_existing_record [OF _ _ _ _ _ refl])
    (auto simp: check_access_def check_buff_def is_header_field_def set_rec_field_def)

text \<open>A connection with one type per numeric class, and the sample descriptor bound to it.\<close>

definition sample_estype :: "int \<Rightarrow> esodbc_estype" where
  "sample_estype t = \<lparr>et_type_name = wlit ''T'', data_type = t, column_size = 17,
     et_literal_prefix = [], et_literal_suffix = [], et_nullable = 1, et_case_sensitive = 0,
     et_searchable = 2, et_unsigned_attribute = 0, et_fixed_prec_scale = 0,
     et_auto_unique_value = 0, et_local_type_name = [], et_maximum_scale = 0, et_sql_data_type = t, et_sql_datetime_sub = 0,
     et_num_prec_radix = 10, et_interval_precision = 0, et_meta_type = sqltype_to_meta t,
     et_display_size = 18\<rparr>"

definition sample_types :: dbc_types where
  "sample_types = \<lparr>es_types = map sample_estype
      [SQL_INTEGER, SQL_SMALLINT, SQL_TINYINT, SQL_BIGINT, SQL_REAL, SQL_DOUBLE],
    max_varchar_type = None, max_float_type = Some (sample_estype SQL_DOUBLE)\<rparr>"


text \<open>Binding a record's data buffer succeeds exactly when the record's fields are
  consistent, and fails with HY021 otherwise. In both cases the pointer is stored: a failed
  binding leaves the record bound to the buffer it refused.
\<close>

theorem bind_record_checked:
  assumes "desc_ok ver desc" and "desc_type desc \<in> {DESC_TYPE_ARD, DESC_TYPE_APD, DESC_TYPE_IPD}"
    and "0 < rec_no" and "rec_no \<le> count desc" and "p \<noteq> 0"
    and "0 \<le> buff_len \<or> buff_len = SQL_IS_POINTER"
    and "consistency_check dbc (desc_type desc) (recs desc ! (nat rec_no - 1)) = Some ok"
  shows "\<exists>desc' ret.
    EsSQLSetDescFieldW ver dbc al sal desc rec_no SQL_DESC_DATA_PTR p buf buff_len = Some (desc', ret) \<and>
    ret = (if ok then SQL_SUCCESS else SQL_ERROR) \<and>
    state (desc_diag desc') = (if ok then state (desc_diag desc) else SQL_STATE_HY021) \<and>
    recs desc' = (recs desc)[nat rec_no - 1 := (recs desc ! (nat rec_no - 1))\<lparr>data_ptr := p\<rparr>]"
proof -
  let ?i = "nat rec_no - 1"
  define bound where "bound = upd_rec desc ?i ((recs desc ! ?i)\<lparr>data_ptr := p\<rparr>)"
  have "diag_ok ver (desc_diag bound)"
    using desc_okD(3) [OF assms(1)] by (simp add: bound_def)
  then have post: "RET_DESC ver bound SQL_STATE_HY021 =
      Some (bound\<lparr>desc_diag := posted ver (desc_diag bound) SQL_STATE_HY021
        (default_message SQL_STATE_HY021)\<rparr>, SQL_ERROR)"
    by (simp add: RET_DESC_ok retcode_error)
  have "set_data_ptr ver dbc al desc ?i rec_no p =
      (if ok then Some (bound, SQL_SUCCESS) else RET_DESC ver bound SQL_STATE_HY021)"
    using assms(2,5,7) by (auto simp: set_data_ptr_def bound_def Let_def)
  then show ?thesis
    unfolding set_data_ptr_field [OF assms(2,6,3,4)] by (simp add: post) (simp add: bound_def)
qed

theorem bind_record_checked_witness:
  "\<exists>desc' ret. EsSQLSetDescFieldW (wlit ''1.0'') (Some sample_types) ALLOC_FAILS ALLOC_FAILS sample_desc 2
      SQL_DESC_DATA_PTR 4096 [] 8 = Some (desc', SQL_ERROR) \<and>
    state (desc_diag desc') = SQL_STATE_HY021 \<and> data_ptr (recs desc' ! 1) = 4096"
proof -
  have "consistency_check (Some sample_types) (desc_type sample_desc) (recs sample_desc ! (nat 2 - 1)) = Some False"
    by (simp add: consistency_check_def sample_desc_def zero_rec_def)
  from bind_record_checked [OF sample_desc_ok _ _ _ _ _ this, where p = 4096 and buff_len = 8
      and buf = "[]" and al = ALLOC_FAILS and sal = ALLOC_FAILS]
  show ?thesis by (auto simp: sample_desc_def)
qed

lemma count_bound_unbound_last:
  assumes "count desc = int (Suc i)" and "\<not> REC_IS_BOUND (recs desc ! i)"
  shows "count_bound desc \<le> int i"
  using assms count_bound_from_le [of "recs desc" i] by (simp add: count_bound_def nat_add_distrib)

text \<open>Unbinding the highest record of an application descriptor lowers the count to the
  highest record that is still bound (0 if none is); records above it were not bound, and
  those kept keep their bindings and types.
\<close>

theorem unbind_lowers_count:
  assumes ok: "desc_ok ver desc" and app: "DESC_TYPE_IS_APPLICATION (desc_type desc)"
    and "count desc = int (Suc i)"
    and "indicator_ptr (recs desc ! i) = 0" and "octet_length_ptr (recs desc ! i) = 0"
    and "0 \<le> buff_len"
  shows "\<exists>desc'. EsSQLSetDescFieldW ver dbc ALLOC_IN_PLACE sal desc (count desc) SQL_DESC_DATA_PTR 0 buf buff_len
      = Some (desc', SQL_SUCCESS) \<and>
    desc_ok ver desc' \<and> count desc' < count desc \<and>
    (0 < count desc' \<longrightarrow> REC_IS_BOUND (recs desc' ! (nat (count desc') - 1))) \<and>
    (\<forall>j<i. count desc' \<le> int j \<longrightarrow> \<not> REC_IS_BOUND (recs desc ! j)) \<and>
    (\<forall>j<nat (count desc'). free_rec_fields (recs desc' ! j) = free_rec_fields (recs desc ! j))"
proof -
  define new where "new = upd_rec desc i ((recs desc ! i)\<lparr>data_ptr := 0\<rparr>)"
  define n where "n = count_bound new"
  have len: "length (recs desc) = Suc i"
    using desc_okD(1) [OF ok] assms(3) by simp
  have new_ok: "desc_ok ver new" and new_recs: "recs new = (recs desc)[i := (recs desc ! i)\<lparr>data_ptr := 0\<rparr>]"
    and new_count: "count new = int (Suc i)"
    using ok assms(3) len desc_okD(4) [OF ok, of "recs desc ! i"] by (simp_all add: new_def)
  have unbound: "\<not> REC_IS_BOUND (recs new ! i)"
    using assms(4,5) len by (simp add: new_recs REC_IS_BOUND_def)
  have n: "0 \<le> n" "n \<le> int i"
    using count_bound_unbound_last [OF new_count unbound] by (simp_all add: n_def count_bound_def)
  have above: "\<not> REC_IS_BOUND (recs new ! j)" if "n \<le> int j" "j < Suc i" for j
    using that new_count count_bound_from_above [of "recs new" "Suc i" j]
    by (simp add: n_def count_bound_def nat_add_distrib del: count_bound_from.simps)
  have top: "REC_IS_BOUND (recs new ! (nat n - 1))" if "0 < n"
    using that new_count count_bound_from_bound [of "recs new" "Suc i"]
    by (simp add: n_def count_bound_def nat_add_distrib del: count_bound_from.simps)
  have call: "EsSQLSetDescFieldW ver dbc ALLOC_IN_PLACE sal desc (count desc) SQL_DESC_DATA_PTR 0 buf buff_len
      = update_rec_count ver ALLOC_IN_PLACE new n"
    using app assms(3,6) unbound n new_recs new_count len
    by (subst set_data_ptr_field)
      (auto simp: set_data_ptr_def Let_def DESC_TYPE_IS_APPLICATION_def new_def n_def nat_add_distrib)
  have removed: "\<forall>j<i. n \<le> int j \<longrightarrow> \<not> REC_IS_BOUND (recs desc ! j)"
  proof (intro allI impI)
    fix j assume "j < i" "n \<le> int j"
    then show "\<not> REC_IS_BOUND (recs desc ! j)"
      using above [of j] new_recs by simp
  qed
  show ?thesis
  proof (cases "n = 0")
    case True
    define none where "none = new\<lparr>count := 0, recs := []\<rparr>"
    have upd: "update_rec_count ver ALLOC_IN_PLACE new n = Some (none, SQL_SUCCESS)"
      using update_rec_count_zero [OF new_ok] True by (simp add: none_def)
    have "desc_ok ver none" "count none = 0"
      using desc_okD(3) [OF new_ok] by (simp_all add: none_def desc_ok_def ESODBC_MAX_DESC_COUNT_def)
    then show ?thesis
      unfolding call upd using removed True assms(3) by simp
  next
    case False
    define kept where "kept = new\<lparr>count := n,
      recs := take (nat n - 1) (recs new) @ [free_rec_fields (recs new ! (nat n - 1))]\<rparr>"
    have upd: "update_rec_count ver ALLOC_IN_PLACE new n = Some (kept, SQL_SUCCESS)"
      using update_rec_count_shrinks(1) [OF new_ok, of n] False n new_count by (simp add: kept_def)
    have ok': "desc_ok ver kept"
      using update_rec_count_ok [OF new_ok, of ALLOC_IN_PLACE n] upd by simp
    have cnt: "count kept = n" by (simp add: kept_def)
    have last: "recs kept ! (nat n - 1) = free_rec_fields (recs new ! (nat n - 1))"
      using n len new_recs by (simp add: kept_def nth_append)
    have bound: "REC_IS_BOUND (recs kept ! (nat n - 1))"
      using top False n(1) unfolding last by (simp add: REC_IS_BOUND_def free_rec_fields_def)
    have same: "\<forall>j<nat n. free_rec_fields (recs kept ! j) = free_rec_fields (recs desc ! j)"
    proof (intro allI impI)
      fix j assume "j < nat n"
      then show "free_rec_fields (recs kept ! j) = free_rec_fields (recs desc ! j)"
        using n len new_recs
        by (cases "j = nat n - 1") (auto simp: kept_def nth_append free_rec_fields_def)
    qed
    have "n < count desc"
      using n(2) assms(3) by simp
    with ok' bound removed same have "desc_ok ver kept \<and> count kept < count desc \<and>
      (0 < count kept \<longrightarrow> REC_IS_BOUND (recs kept ! (nat (count kept) - 1))) \<and>
      (\<forall>j<i. count kept \<le> int j \<longrightarrow> \<not> REC_IS_BOUND (recs desc ! j)) \<and>
      (\<forall>j<nat (count kept). free_rec_fields (recs kept ! j) = free_rec_fields (recs desc ! j))"
      unfolding cnt by blast
    then show ?thesis
      unfolding call upd by blast
  qed
qed

theorem unbind_lowers_count_witness:
  "\<exists>desc'. EsSQLSetDescFieldW (wlit ''1.0'') (Some sample_types) ALLOC_IN_PLACE ALLOC_FAILS sample_desc 2
      SQL_DESC_DATA_PTR 0 [] 0 = Some (desc', SQL_SUCCESS) \<and> count desc' < 2"
  using unbind_lowers_count [OF sample_desc_ok, of 1 0 "Some sample_types" ALLOC_FAILS "[]"]
  by (auto simp: sample_desc_def DESC_TYPE_IS_APPLICATION_def zero_rec_def)

text \<open>The connection's types cover what a numeric record can ask for.\<close>

definition numeric_es_types :: "int list" where
  "numeric_es_types = [SQL_INTEGER, SQL_SMALLINT, SQL_TINYINT, SQL_BIGINT, SQL_REAL, SQL_DOUBLE]"

definition types_loaded :: "dbc_types \<Rightarrow> bool" where
  "types_loaded dbc \<longleftrightarrow>
    (case max_float_type dbc of None \<Rightarrow> False | Some m \<Rightarrow> 16 \<le> column_size m) \<and>
    list_all (\<lambda>t. case lookup_es_type dbc t 0 of
      Some (Some e) \<Rightarrow> 0 \<le> column_size e | _ \<Rightarrow> False) numeric_es_types"

definition is_numeric_meta :: "esodbc_metatype_et \<Rightarrow> bool" where
  "is_numeric_meta mt \<longleftrightarrow> mt = METATYPE_EXACT_NUMERIC \<or> mt = METATYPE_FLOAT_NUMERIC"

lemma numeric_c_type:
  "is_numeric_meta (sqlctype_to_meta c) \<longrightarrow> c = SQL_C_NUMERIC \<or>
     c \<noteq> SQL_FLOAT \<and> c \<noteq> SQL_DECIMAL \<and> sqlctype_to_es c \<in> set numeric_es_types"
  by (rule c_type_cases, code_simp) (simp add: is_numeric_meta_def)

lemma numeric_sql_type:
  "is_numeric_meta (sqltype_to_meta t) \<longrightarrow>
     t \<in> {SQL_NUMERIC, SQL_DECIMAL} \<and> sqltype_to_meta t = METATYPE_EXACT_NUMERIC \<or>
     t = SQL_FLOAT \<and> sqltype_to_meta t = METATYPE_FLOAT_NUMERIC \<or>
     t \<notin> {SQL_NUMERIC, SQL_DECIMAL, SQL_FLOAT} \<and> t \<in> set numeric_es_types"
  by (rule sql_type_cases, code_simp) (simp add: is_numeric_meta_def)

lemma lead_prec: "ivl_lead_prec t = - 1 \<or> 11 \<le> ivl_lead_prec t"
  by (simp add: ivl_lead_prec_def)

text \<open>The record a fresh one becomes when its type is set.\<close>

definition typed_rec :: "desc_type_et \<Rightarrow> int \<Rightarrow> esodbc_rec" where
  "typed_rec dt ty = set_defaults_from_meta_type (with_concise_type dt (init_rec dt) ty)"

lemma typed_rec_simps [simp]:
  "meta_type (typed_rec dt ty) = concise_to_meta ty dt"
  "concise_type (typed_rec dt ty) = ty"
  "rec_type (typed_rec dt ty) = fst (concise_to_type_code ty)"
  "datetime_interval_code (typed_rec dt ty) = snd (concise_to_type_code ty)"
  "es_type (typed_rec dt ty) = None" "data_ptr (typed_rec dt ty) = 0"
  by (simp_all add: typed_rec_def init_rec_def zero_rec_def)

lemma typed_rec_unfold:
  "typed_rec dt ty = set_defaults_from_meta_type (with_concise_type dt (init_rec dt) ty)"
  "precision (init_rec dt) = 0" "scale (init_rec dt) = 0" "datetime_interval_precision (init_rec dt) = 0"
  by (simp_all add: typed_rec_def init_rec_def zero_rec_def)

lemma typed_rec_precision:
  "precision (typed_rec dt ty) = (case concise_to_meta ty dt of
     METATYPE_DATE_TIME \<Rightarrow> if snd (concise_to_type_code ty) = SQL_CODE_TIMESTAMP then 6 else 0
   | METATYPE_INTERVAL_WSEC \<Rightarrow> 6
   | METATYPE_EXACT_NUMERIC \<Rightarrow> if ty = SQL_DECIMAL \<or> ty = SQL_NUMERIC then 19 else 0
   | METATYPE_FLOAT_NUMERIC \<Rightarrow> if ty = SQL_FLOAT then 16 else 0
   | _ \<Rightarrow> 0)"
  by (cases "concise_to_meta ty dt") (simp_all add: typed_rec_unfold set_defaults_from_meta_type_def)

lemma typed_rec_scale: "scale (typed_rec dt ty) = 0"
  by (cases "concise_to_meta ty dt") (simp_all add: typed_rec_unfold set_defaults_from_meta_type_def)

lemma typed_rec_interval_precision:
  "datetime_interval_precision (typed_rec dt ty) =
    (if concise_to_meta ty dt \<in> {METATYPE_INTERVAL_WSEC, METATYPE_INTERVAL_WOSEC} then 2 else 0)"
  by (cases "concise_to_meta ty dt") (simp_all add: typed_rec_unfold set_defaults_from_meta_type_def)

lemmas typed_rec_defaults = typed_rec_precision typed_rec_scale typed_rec_interval_precision

lemma typed_rec_numeric:
  assumes "types_loaded dbc" and "dt \<noteq> DESC_TYPE_ANON" and "is_numeric_meta (concise_to_meta ty dt)"
    and "ty \<noteq> SQL_NUMERIC" and "ty \<noteq> SQL_DECIMAL"
  shows "numeric_column_size (Some dbc) dt (typed_rec dt ty) = Some (Inl None) \<or>
    (\<exists>sz. numeric_column_size (Some dbc) dt (typed_rec dt ty) = Some (Inr sz) \<and>
      precision (typed_rec dt ty) \<le> sz)"
proof -
  have types: "\<exists>e. lookup_es_type dbc t 0 = Some (Some e) \<and> 0 \<le> column_size e"
    if "t \<in> set numeric_es_types" for t
  proof -
    have "case lookup_es_type dbc t 0 of Some (Some e) \<Rightarrow> 0 \<le> column_size e | _ \<Rightarrow> False"
      using assms(1) that unfolding types_loaded_def list_all_iff by blast
    then show ?thesis by (cases "lookup_es_type dbc t 0") (auto split: option.splits)
  qed
  have maxf: "\<exists>m. max_float_type dbc = Some m \<and> 16 \<le> column_size m"
    using assms(1) by (auto simp: types_loaded_def split: option.splits)
  consider (app) "DESC_TYPE_IS_APPLICATION dt" "ty \<noteq> SQL_FLOAT" "sqlctype_to_es ty \<in> set numeric_es_types"
    | (impl) "\<not> DESC_TYPE_IS_APPLICATION dt" "ty \<noteq> SQL_FLOAT" "ty \<in> set numeric_es_types"
    | (float) "ty = SQL_FLOAT" "concise_to_meta ty dt = METATYPE_FLOAT_NUMERIC"
    using assms(2-5) numeric_c_type [of ty] numeric_sql_type [of ty]
    by (cases dt) (auto simp: concise_to_meta_def DESC_TYPE_IS_APPLICATION_def)
  then show ?thesis
  proof cases
    case app
    with types [OF app(3)] assms(3-5) show ?thesis
      by (auto simp: numeric_column_size_def typed_rec_defaults is_numeric_meta_def)
  next
    case impl
    with types [OF impl(3)] assms(3-5) show ?thesis
      by (auto simp: numeric_column_size_def typed_rec_defaults is_numeric_meta_def)
  next
    case float
    with maxf show ?thesis
      by (auto simp: numeric_column_size_def typed_rec_defaults)
  qed
qed

lemma typed_rec_consistent:
  assumes "types_loaded dbc" and "dt \<noteq> DESC_TYPE_ANON" and "concise_to_meta ty dt \<noteq> METATYPE_UNKNOWN"
  shows "consistency_check (Some dbc) dt (typed_rec dt ty) = Some True"
proof (cases "is_numeric_meta (concise_to_meta ty dt) \<and> ty \<noteq> SQL_NUMERIC \<and> ty \<noteq> SQL_DECIMAL")
  case True
  then have "0 \<le> precision (typed_rec dt ty)"
    by (auto simp: typed_rec_defaults is_numeric_meta_def)
  with True typed_rec_numeric [OF assms(1,2), of ty]
  have num: "(case numeric_column_size (Some dbc) dt (typed_rec dt ty) of
      None \<Rightarrow> None | Some (Inl None) \<Rightarrow> Some True | Some (Inl (Some b)) \<Rightarrow> Some b
      | Some (Inr sz) \<Rightarrow> Some (\<not> (precision (typed_rec dt ty) < 0 \<or> sz < precision (typed_rec dt ty))))
    = Some True"
    by auto
  show ?thesis
    unfolding consistency_check_def Let_def num
    using True by (auto simp: typed_rec_defaults is_numeric_meta_def)
next
  case False
  have "concise_to_meta SQL_NUMERIC dt \<noteq> METATYPE_FLOAT_NUMERIC"
    "concise_to_meta SQL_DECIMAL dt \<noteq> METATYPE_FLOAT_NUMERIC"
    by (cases dt; simp add: concise_to_meta_def sqlctype_to_meta_def sqltype_to_meta_def)+
  with False assms(3) lead_prec [of ty] show ?thesis
    by (cases "concise_to_meta ty dt")
      (auto simp: consistency_check_def Let_def typed_rec_defaults is_numeric_meta_def)
qed

lemma set_concise_type_field:
  assumes "desc_type desc \<in> {DESC_TYPE_ARD, DESC_TYPE_APD, DESC_TYPE_IPD}"
    and "desc_ok ver desc" and "rec_no = count desc + 1" and "rec_no \<le> ESODBC_MAX_DESC_COUNT"
    and "al \<noteq> ALLOC_FAILS" and "to_i16 ty = ty"
    and "concise_to_meta ty (desc_type desc) \<noteq> METATYPE_UNKNOWN"
  shows "EsSQLSetDescFieldW ver dbc al sal desc rec_no SQL_DESC_CONCISE_TYPE ty buf buff_len =
    Some (desc\<lparr>count := rec_no, recs := recs desc @ [typed_rec (desc_type desc) ty]\<rparr>, SQL_SUCCESS)"
proof -
  have len: "nat rec_no - 1 = length (recs desc)" "nat (count desc) = length (recs desc)"
      "0 < rec_no" "nat rec_no - length (recs desc) = 1"
    using desc_okD(1) [OF assms(2)] assms(3) by auto
  have "update_rec_count ver al desc rec_no =
      Some (desc\<lparr>count := rec_no, recs := recs desc @ [init_rec (desc_type desc)]\<rparr>, SQL_SUCCESS)"
    using update_rec_count_grows [OF assms(2), of rec_no al] assms(3-5) len(4) by simp
  then have get: "get_record ver al desc rec_no True =
      Some (desc\<lparr>count := rec_no, recs := recs desc @ [init_rec (desc_type desc)]\<rparr>, Some (length (recs desc)))"
    using assms(3) len by (simp add: get_record_def SQL_SUCCEEDED_def)
  have fresh: "(init_rec dt)\<lparr>data_ptr := 0\<rparr> = init_rec dt" for dt
    by (simp add: init_rec_def zero_rec_def)
  show ?thesis
    using assms(1,6,7) len(3)
    by (auto simp: EsSQLSetDescFieldW_def check_access_def check_buff_def is_header_field_def get
        set_rec_field_def set_concise_type_def upd_rec_def typed_rec_def fresh Let_def)
qed

text \<open>
  C32: setting a data type the driver knows and then the data buffer binds a new record: on an
  ARD, APD or IPD of a connection whose types are loaded, the defaults \<open>EsSQLSetDescFieldW\<close>
  gives the type's length, precision and scale pass its own consistency check, for every type.
\<close>

theorem type_then_bind:
  assumes "desc_ok ver desc" and "desc_type desc \<in> {DESC_TYPE_ARD, DESC_TYPE_APD, DESC_TYPE_IPD}"
    and "rec_no = count desc + 1" and "rec_no \<le> ESODBC_MAX_DESC_COUNT" and "al \<noteq> ALLOC_FAILS"
    and "to_i16 ty = ty" and "concise_to_meta ty (desc_type desc) \<noteq> METATYPE_UNKNOWN"
    and "types_loaded dbc" and "p \<noteq> 0" and "0 \<le> buff_len"
  shows "\<exists>typed bound.
    EsSQLSetDescFieldW ver (Some dbc) al sal desc rec_no SQL_DESC_CONCISE_TYPE ty [] 0 = Some (typed, SQL_SUCCESS) \<and>
    EsSQLSetDescFieldW ver (Some dbc) al sal typed rec_no SQL_DESC_DATA_PTR p [] buff_len
      = Some (bound, SQL_SUCCESS) \<and>
    desc_ok ver bound \<and> count bound = rec_no \<and>
    recs bound = recs desc @ [(typed_rec (desc_type desc) ty)\<lparr>data_ptr := p\<rparr>]"
proof -
  let ?rec = "typed_rec (desc_type desc) ty"
  define typed where "typed = desc\<lparr>count := rec_no, recs := recs desc @ [?rec]\<rparr>"
  define bound where "bound = upd_rec typed (length (recs desc)) (?rec\<lparr>data_ptr := p\<rparr>)"
  have set: "EsSQLSetDescFieldW ver (Some dbc) al sal desc rec_no SQL_DESC_CONCISE_TYPE ty [] 0 =
      Some (typed, SQL_SUCCESS)"
    using set_concise_type_field [OF assms(2,1,3-7)] by (simp add: typed_def)
  have len: "nat rec_no - 1 = length (recs desc)" "0 < rec_no"
    using desc_okD(1) [OF assms(1)] assms(3) by auto
  have "consistency_check (Some dbc) (desc_type desc) ?rec = Some True"
    using assms(2,7,8) by (intro typed_rec_consistent) auto
  then have bind: "EsSQLSetDescFieldW ver (Some dbc) al sal typed rec_no SQL_DESC_DATA_PTR p [] buff_len
      = Some (bound, SQL_SUCCESS)"
    using assms(2,9,10) len by (subst set_data_ptr_field)
      (auto simp: typed_def bound_def set_data_ptr_def Let_def)
  have "rec_ok (desc_type desc) ?rec" by (simp add: typed_rec_def)
  then have "desc_ok ver bound"
    using assms(1,3,4) by (auto simp: bound_def typed_def desc_ok_def)
  with set bind show ?thesis by (auto simp: bound_def typed_def)
qed

theorem type_then_bind_witness:
  "\<exists>typed bound.
    EsSQLSetDescFieldW (wlit ''1.0'') (Some sample_types) ALLOC_MOVES ALLOC_FAILS sample_desc 3
      SQL_DESC_CONCISE_TYPE SQL_C_TYPE_TIMESTAMP [] 0 = Some (typed, SQL_SUCCESS) \<and>
    EsSQLSetDescFieldW (wlit ''1.0'') (Some sample_types) ALLOC_MOVES ALLOC_FAILS typed 3
      SQL_DESC_DATA_PTR 4096 [] 16 = Some (bound, SQL_SUCCESS) \<and> count bound = 3"
proof -
  have loaded: "types_loaded sample_types"
    by (simp add: sample_types_def sample_estype_def types_loaded_def numeric_es_types_def
        lookup_es_type_def)
  have known: "concise_to_meta SQL_C_TYPE_TIMESTAMP (desc_type sample_desc) \<noteq> METATYPE_UNKNOWN"
    by (simp add: sample_desc_def concise_to_meta_def sqlctype_to_meta_def)
  have count: "3 = count sample_desc + 1" and dt: "desc_type sample_desc \<in> {DESC_TYPE_ARD, DESC_TYPE_APD, DESC_TYPE_IPD}"
    by (simp_all add: sample_desc_def)
  show ?thesis
    using type_then_bind [OF sample_desc_ok dt count _ _ _ known loaded, of ALLOC_MOVES 4096 16 ALLOC_FAILS]
    by (fastforce simp: ESODBC_MAX_DESC_COUNT_def to_i16_def)
qed

lemma RET_DESC_frame:
  "RET_DESC ver desc st = Some (desc', ret) \<Longrightarrow> recs desc' = recs desc \<and> count desc' = count desc"
  "RET_DESC_TEXT ver desc st s = Some (desc', ret) \<Longrightarrow> recs desc' = recs desc \<and> count desc' = count desc"
  by (auto simp: RET_DESC_def RET_DESC_TEXT_def split: Option.bind_splits)

text \<open>What setting a field other than the data pointer may change: one record, and in it
  not the data pointer, nor the other deferred pointers unless they are the field.\<close>

definition touches_only :: "esodbc_desc \<Rightarrow> nat \<Rightarrow> desc_field \<Rightarrow> esodbc_desc \<Rightarrow> bool" where
  "touches_only desc i f desc' \<longleftrightarrow> count desc' = count desc \<and>
    (\<exists>rec. recs desc' = (recs desc)[i := rec] \<and> data_ptr rec = data_ptr (recs desc ! i) \<and>
      (f \<noteq> SQL_DESC_INDICATOR_PTR \<longrightarrow> indicator_ptr rec = indicator_ptr (recs desc ! i)) \<and>
      (f \<noteq> SQL_DESC_OCTET_LENGTH_PTR \<longrightarrow> octet_length_ptr rec = octet_length_ptr (recs desc ! i)))"

lemma touches_only_id: "recs desc' = recs desc \<Longrightarrow> count desc' = count desc \<Longrightarrow> touches_only desc i f desc'"
  unfolding touches_only_def by (intro conjI exI [of _ "recs desc ! i"]) auto

lemma touches_only_upd:
  assumes "recs desc' = (recs desc)[i := rec]" and "count desc' = count desc"
    and "data_ptr rec = data_ptr (recs desc ! i)"
    and "f \<noteq> SQL_DESC_INDICATOR_PTR \<Longrightarrow> indicator_ptr rec = indicator_ptr (recs desc ! i)"
    and "f \<noteq> SQL_DESC_OCTET_LENGTH_PTR \<Longrightarrow> octet_length_ptr rec = octet_length_ptr (recs desc ! i)"
  shows "touches_only desc i f desc'"
  using assms by (auto simp: touches_only_def)

lemma set_defaults_pointers [simp]:
  "indicator_ptr (set_defaults_from_meta_type rec) = indicator_ptr rec"
  "octet_length_ptr (set_defaults_from_meta_type rec) = octet_length_ptr rec"
  by (auto simp: set_defaults_from_meta_type_def split: esodbc_metatype_et.splits)

lemma with_concise_type_pointers [simp]:
  "indicator_ptr (with_concise_type dt rec ty) = indicator_ptr rec"
  "octet_length_ptr (with_concise_type dt rec ty) = octet_length_ptr rec"
  by (simp_all add: with_concise_type_def)

lemma set_type_touches_only:
  "set_verbose_type ver desc i ty = Some (desc', ret) \<Longrightarrow> touches_only desc i f desc'"
  "set_concise_type ver desc i ty = Some (desc', ret) \<Longrightarrow> touches_only desc i f desc'"
  by (auto simp: set_verbose_type_def set_concise_type_def Let_def split: prod.splits if_splits
      dest!: RET_DESC_frame intro: touches_only_id touches_only_upd)

lemma set_rec_field_touches_only:
  assumes "set_rec_field ver dbc al sal desc i rec_no f val buf buff_len = Some (desc', ret)"
    and "f \<noteq> SQL_DESC_DATA_PTR" and "\<not> is_string_field f"
  shows "touches_only desc i f desc'"
proof (cases "f \<in> set [SQL_DESC_TYPE, SQL_DESC_CONCISE_TYPE]")
  case True
  with assms show ?thesis
    by (auto simp: set_rec_field_def Let_def split: if_splits intro: set_type_touches_only)
next
  case False
  have upd: "touches_only desc i f (upd_rec desc i rec)"
    if "data_ptr rec = data_ptr (recs desc ! i)"
      "f \<noteq> SQL_DESC_INDICATOR_PTR \<Longrightarrow> indicator_ptr rec = indicator_ptr (recs desc ! i)"
      "f \<noteq> SQL_DESC_OCTET_LENGTH_PTR \<Longrightarrow> octet_length_ptr rec = octet_length_ptr (recs desc ! i)"
    for rec f
    using that by (auto intro!: touches_only_upd)
  from False assms show ?thesis
    unfolding set_rec_field_def Let_def
    by (auto split: if_splits dest!: RET_DESC_frame intro: touches_only_id intro!: upd)
qed

text \<open>Setting a field of a record other than its data pointer unbinds the record's data
  buffer, and only that: the count and every other record stay as they were, and so do the
  record's other deferred pointers, unless one of them is the field set.
\<close>

theorem set_field_unbinds:
  assumes "EsSQLSetDescFieldW ver dbc al sal desc rec_no f val buf buff_len = Some (desc', ret)"
    and "check_access (desc_type desc) f O_RDWR" and "check_buff f val buff_len False = SQL_STATE_00000"
    and "\<not> is_header_field f" and "f \<noteq> SQL_DESC_DATA_PTR"
    and "desc_ok ver desc" and "0 < rec_no" and "rec_no \<le> count desc"
  shows "data_ptr (recs desc' ! (nat rec_no - 1)) = 0 \<and> count desc' = count desc \<and>
    length (recs desc') = length (recs desc) \<and>
    (\<forall>j. j \<noteq> nat rec_no - 1 \<longrightarrow> recs desc' ! j = recs desc ! j) \<and>
    (f \<noteq> SQL_DESC_INDICATOR_PTR \<longrightarrow>
      indicator_ptr (recs desc' ! (nat rec_no - 1)) = indicator_ptr (recs desc ! (nat rec_no - 1))) \<and>
    (f \<noteq> SQL_DESC_OCTET_LENGTH_PTR \<longrightarrow>
      octet_length_ptr (recs desc' ! (nat rec_no - 1)) = octet_length_ptr (recs desc ! (nat rec_no - 1)))"
proof -
  let ?i = "nat rec_no - 1"
  define cur where "cur = upd_rec desc ?i ((recs desc ! ?i)\<lparr>data_ptr := 0\<rparr>)"
  have i: "?i < length (recs desc)"
    using assms(7,8) desc_okD(1) [OF assms(6)] by simp
  have "set_rec_field ver dbc al sal cur ?i rec_no f val buf buff_len = Some (desc', ret)"
    using assms(1,5) set_existing_record [OF assms(2-4,7,8) refl] by (simp add: cur_def)
  from set_rec_field_touches_only [OF this assms(5) writable_not_string [OF assms(2)]]
  obtain rec where rec: "recs desc' = (recs cur)[?i := rec]" "count desc' = count cur"
      "data_ptr rec = data_ptr (recs cur ! ?i)"
      "f \<noteq> SQL_DESC_INDICATOR_PTR \<Longrightarrow> indicator_ptr rec = indicator_ptr (recs cur ! ?i)"
      "f \<noteq> SQL_DESC_OCTET_LENGTH_PTR \<Longrightarrow> octet_length_ptr rec = octet_length_ptr (recs cur ! ?i)"
    by (auto simp: touches_only_def)
  have "recs desc' = (recs desc)[?i := rec]"
    using rec(1) by (simp add: cur_def)
  with rec(2-5) i show ?thesis by (simp add: cur_def)
qed

theorem set_field_unbinds_witness:
  "\<exists>desc' ret. EsSQLSetDescFieldW (wlit ''1.0'') (Some sample_types) ALLOC_FAILS ALLOC_FAILS sample_desc 1
      SQL_DESC_PRECISION 3 [] 0 = Some (desc', ret) \<and>
    data_ptr (recs desc' ! 0) = 0 \<and> recs desc' ! 1 = zero_rec"
proof -
  define desc' where "desc' = upd_rec sample_desc 0 (sample_rec\<lparr>data_ptr := 0, precision := 3\<rparr>)"
  have run: "EsSQLSetDescFieldW (wlit ''1.0'') (Some sample_types) ALLOC_FAILS ALLOC_FAILS sample_desc 1
      SQL_DESC_PRECISION 3 [] 0 = Some (desc', SQL_SUCCESS)"
    by (simp add: EsSQLSetDescFieldW_def check_access_def check_buff_def is_header_field_def
        get_record_def set_rec_field_def is_string_field_def to_i16_def upd_rec_def sample_desc_def desc'_def)
  then show ?thesis
    using set_field_unbinds [OF run _ _ _ _ sample_desc_ok]
    by (auto simp: check_access_def check_buff_def is_header_field_def sample_desc_def)
qed

end
