(* ===== verification/Desc_GetField.thy ===== *)
theory Desc_GetField
imports Desc_SetField
begin

text \<open>
  \<open>EsSQLGetDescFieldW\<close> of driver/handles.c, and the round trip with
  \<open>EsSQLSetDescFieldW\<close>.

  The result is the descriptor (only its diagnostic may change), the value stored through
  \<open>ValuePtr\<close> at the width of the field's C type, the one stored through
  \<open>StringLengthPtr\<close>, and the return code; \<open>None\<close> is a null pointer followed, or a write past
  the application's buffer of \<open>BufferLength\<close> bytes. Assertions are those of a release build:
  not evaluated.
\<close>

section \<open>Values\<close>

datatype desc_value =
    SMALLINT int | INTEGER int | UINTEGER int | LEN int | ULEN int | POINTER int | BYTES cstr

definition wbytes :: "wstr \<Rightarrow> cstr" where
  "wbytes s = concat (map (\<lambda>u. [ucast u, ucast (drop_bit 8 u)]) s)"

type_synonym get_result = "(esodbc_desc \<times> desc_value option \<times> int option \<times> sqlreturn) option"

definition get_done :: "esodbc_desc \<Rightarrow> desc_value \<Rightarrow> get_result" where
  "get_done desc v = Some (desc, Some v, None, SQL_SUCCESS)"

definition get_failed :: "(esodbc_desc \<times> sqlreturn) option \<Rightarrow> get_result" where
  "get_failed res = map_option (\<lambda>(desc, ret). (desc, None, None, ret)) res"

section \<open>Header fields and defaults\<close>

definition get_header_field :: "esodbc_desc \<Rightarrow> desc_field \<Rightarrow> desc_value" where
  "get_header_field desc f =
    (if f = SQL_DESC_ALLOC_TYPE then SMALLINT (alloc_type desc)
     else if f = SQL_DESC_ARRAY_SIZE then ULEN (array_size desc)
     else if f = SQL_DESC_ARRAY_STATUS_PTR then POINTER (array_status_ptr desc)
     else if f = SQL_DESC_BIND_OFFSET_PTR then POINTER (bind_offset_ptr desc)
     else if f = SQL_DESC_BIND_TYPE then UINTEGER (bind_type desc mod 4294967296)
     else if f = SQL_DESC_COUNT then SMALLINT (count desc)
     else POINTER (rows_processed_ptr desc))"

definition get_rec_default :: "desc_field \<Rightarrow> int \<Rightarrow> desc_value option" where
  "get_rec_default f buff_len =
    (if f = SQL_DESC_CONCISE_TYPE \<or> f = SQL_DESC_TYPE then Some (SMALLINT SQL_C_DEFAULT)
     else if f = SQL_DESC_PARAMETER_TYPE then Some (SMALLINT 1)
     else if buff_len = SQL_IS_INTEGER then Some (INTEGER 0)
     else if buff_len = SQL_IS_UINTEGER then Some (ULEN 0)
     else if buff_len = SQL_IS_SMALLINT then Some (SMALLINT 0)
     else None)"

section \<open>Record fields\<close>

text \<open>The string of a field (\<open>None\<close>: a null \<open>es_type\<close>); an unset one counts 0 units.\<close>

definition get_string :: "esodbc_rec \<Rightarrow> desc_field \<Rightarrow> wstr option option" where
  "get_string rec f =
    (if f = SQL_DESC_BASE_COLUMN_NAME then Some (Some (case_option [] id (base_column_name rec)))
     else if f = SQL_DESC_BASE_TABLE_NAME then Some (Some (case_option [] id (base_table_name rec)))
     else if f = SQL_DESC_CATALOG_NAME then Some (Some (case_option [] id (catalog_name rec)))
     else if f = SQL_DESC_LABEL then Some (Some (case_option [] id (rec_label rec)))
     else if f = SQL_DESC_NAME then Some (Some (case_option [] id (rec_name rec)))
     else if f = SQL_DESC_SCHEMA_NAME then Some (Some (case_option [] id (schema_name rec)))
     else if f = SQL_DESC_TABLE_NAME then Some (Some (case_option [] id (table_name rec)))
     else if f = SQL_DESC_LITERAL_PREFIX then Some (map_option et_literal_prefix (es_type rec))
     else if f = SQL_DESC_LITERAL_SUFFIX then Some (map_option et_literal_suffix (es_type rec))
     else if f = SQL_DESC_LOCAL_TYPE_NAME then Some (map_option et_local_type_name (es_type rec))
     else if f = SQL_DESC_TYPE_NAME then Some (map_option et_type_name (es_type rec))
     else None)"

text \<open>\<open>cnt\<close> counts units; \<open>memcpy\<close> takes it for bytes, whatever the buffer's size.\<close>

definition get_string_field ::
    "wstr \<Rightarrow> esodbc_desc \<Rightarrow> wstr option \<Rightarrow> int \<Rightarrow> int \<Rightarrow> bool \<Rightarrow> get_result" where
  "get_string_field ver desc s buff buff_len has_len = do {
     s \<leftarrow> s;
     if \<not> has_len then get_failed (RET_DESC ver desc SQL_STATE_HY009)
     else if buff = 0 then Some (desc, None, Some (to_i32 (int (length s))), SQL_SUCCESS)
     else if buff_len < int (length s) then None
     else Some (desc, Some (BYTES (take (length s) (wbytes s))), Some (to_i32 (int (length s))),
            SQL_SUCCESS) }"

text \<open>The others: \<open>None\<close> if the field has no value, \<open>Some None\<close> if \<open>es_type\<close> is null.\<close>

definition get_rec_value :: "desc_type_et \<Rightarrow> esodbc_rec \<Rightarrow> desc_field \<Rightarrow> desc_value option option" where
  "get_rec_value dt rec f =
    (let et = (\<lambda>sel. map_option sel (es_type rec)) in
     if f = SQL_DESC_DATA_PTR then Some (Some (POINTER (data_ptr rec)))
     else if f = SQL_DESC_INDICATOR_PTR then Some (Some (POINTER (indicator_ptr rec)))
     else if f = SQL_DESC_OCTET_LENGTH_PTR then Some (Some (POINTER (octet_length_ptr rec)))
     else if f = SQL_DESC_DISPLAY_SIZE then Some (et (LEN \<circ> et_display_size))
     else if f = SQL_DESC_OCTET_LENGTH then Some (Some (LEN (octet_length rec)))
     else if f = SQL_DESC_LENGTH then Some (Some (ULEN (rec_length rec)))
     else if f = SQL_DESC_CONCISE_TYPE then Some (Some (SMALLINT (concise_type rec)))
     else if f = SQL_DESC_TYPE then Some (Some (SMALLINT (rec_type rec)))
     else if f = SQL_DESC_DATETIME_INTERVAL_CODE then
       Some (Some (SMALLINT (datetime_interval_code rec)))
     else if f = SQL_DESC_PARAMETER_TYPE then Some (Some (SMALLINT (parameter_type rec)))
     else if f = SQL_DESC_ROWVER then Some (Some (SMALLINT (rowver rec)))
     else if f = SQL_DESC_UNNAMED then Some (Some (SMALLINT (unnamed rec)))
     else if f = SQL_DESC_PRECISION then
       Some (if dt = DESC_TYPE_IRD then et (\<lambda>e. SMALLINT (to_i16 (column_size e)))
             else Some (SMALLINT (precision rec)))
     else if f = SQL_DESC_SCALE then
       Some (if dt = DESC_TYPE_IRD then et (SMALLINT \<circ> et_maximum_scale)
             else Some (SMALLINT (scale rec)))
     else if f = SQL_DESC_FIXED_PREC_SCALE then Some (et (SMALLINT \<circ> et_fixed_prec_scale))
     else if f = SQL_DESC_NULLABLE then Some (et (SMALLINT \<circ> et_nullable))
     else if f = SQL_DESC_SEARCHABLE then Some (et (SMALLINT \<circ> et_searchable))
     else if f = SQL_DESC_UNSIGNED then Some (et (SMALLINT \<circ> et_unsigned_attribute))
     else if f = SQL_DESC_UPDATABLE then Some (Some (SMALLINT (updatable rec)))
     else if f = SQL_DESC_DATETIME_INTERVAL_PRECISION then
       Some (if DESC_TYPE_IS_IMPLEMENTATION dt then et (INTEGER \<circ> et_interval_precision)
             else Some (INTEGER (datetime_interval_precision rec)))
     else if f = SQL_DESC_NUM_PREC_RADIX then
       Some (if DESC_TYPE_IS_IMPLEMENTATION dt then et (INTEGER \<circ> et_num_prec_radix)
             else Some (INTEGER (num_prec_radix rec)))
     else if f = SQL_DESC_AUTO_UNIQUE_VALUE then Some (et (INTEGER \<circ> et_auto_unique_value))
     else if f = SQL_DESC_CASE_SENSITIVE then Some (et (INTEGER \<circ> et_case_sensitive))
     else None)"

definition get_rec_field ::
    "wstr \<Rightarrow> esodbc_desc \<Rightarrow> esodbc_rec \<Rightarrow> desc_field \<Rightarrow> int \<Rightarrow> int \<Rightarrow> bool \<Rightarrow> get_result" where
  "get_rec_field ver desc rec f buff buff_len has_len =
    (case get_string rec f of
       Some s \<Rightarrow> get_string_field ver desc s buff buff_len has_len
     | None \<Rightarrow>
         (case get_rec_value (desc_type desc) rec f of
            Some v \<Rightarrow> Option.bind v (get_done desc)
          | None \<Rightarrow> get_failed (RET_DESC ver desc SQL_STATE_HY091)))"

section \<open>The function\<close>

text \<open>A record number within the count reads a record; the array has as many.\<close>

definition EsSQLGetDescFieldW ::
    "wstr \<Rightarrow> esodbc_desc \<Rightarrow> int \<Rightarrow> desc_field \<Rightarrow> int \<Rightarrow> int \<Rightarrow> bool \<Rightarrow> get_result" where
  "EsSQLGetDescFieldW ver desc rec_no f buff buff_len has_len =
    (if \<not> check_access (desc_type desc) f O_RDONLY then
       get_failed (RET_DESC_TEXT ver desc SQL_STATE_01000 ''field type not defined for descriptor'')
     else if check_buff f buff buff_len True \<noteq> SQL_STATE_00000 then
       get_failed (RET_DESC ver desc (check_buff f buff buff_len True))
     else if is_header_field f \<or> f = SQL_DESC_ALLOC_TYPE then
       get_done desc (get_header_field desc f)
     else if rec_no < 0 then
       get_failed (RET_DESC_TEXT ver desc SQL_STATE_07009
         ''Negative record number provided with record field'')
     else if rec_no = 0 then
       get_failed (RET_DESC_TEXT ver desc SQL_STATE_07009 ''Unsupported record number 0'')
     else do {
       (desc, r) \<leftarrow> get_record ver ALLOC_FAILS desc rec_no False;
       case r of
         None \<Rightarrow> Some (desc, get_rec_default f buff_len, None, SQL_SUCCESS)
       | Some i \<Rightarrow> do {
           rec \<leftarrow> mem_read (recs desc) i;
           get_rec_field ver desc rec f buff buff_len has_len } })"

section \<open>Properties\<close>

text \<open>The fields \<open>EsSQLSetDescFieldW\<close> stores in a record with no check, the cast each value
  undergoes, and the \<open>BufferLength\<close> its type is asked for with.\<close>

definition plain_fields :: "desc_field list" where
  "plain_fields = [SQL_DESC_OCTET_LENGTH, SQL_DESC_LENGTH, SQL_DESC_DATETIME_INTERVAL_CODE,
     SQL_DESC_PRECISION, SQL_DESC_SCALE, SQL_DESC_DATETIME_INTERVAL_PRECISION,
     SQL_DESC_NUM_PREC_RADIX, SQL_DESC_INDICATOR_PTR, SQL_DESC_OCTET_LENGTH_PTR]"

definition stored_as :: "desc_field \<Rightarrow> int \<Rightarrow> desc_value" where
  "stored_as f val =
    (if f = SQL_DESC_OCTET_LENGTH then LEN (to_i64 val)
     else if f = SQL_DESC_LENGTH then ULEN (to_u64 val)
     else if f \<in> set [SQL_DESC_DATETIME_INTERVAL_CODE, SQL_DESC_PRECISION, SQL_DESC_SCALE]
       then SMALLINT (to_i16 val)
     else if f \<in> set [SQL_DESC_DATETIME_INTERVAL_PRECISION, SQL_DESC_NUM_PREC_RADIX]
       then INTEGER (to_i32 val)
     else POINTER val)"

definition value_buff_len :: "desc_field \<Rightarrow> int" where
  "value_buff_len f =
    (if f = SQL_DESC_LENGTH then SQL_IS_UINTEGER
     else if f \<in> set [SQL_DESC_OCTET_LENGTH, SQL_DESC_DATETIME_INTERVAL_PRECISION, SQL_DESC_NUM_PREC_RADIX]
       then SQL_IS_INTEGER
     else if f \<in> set [SQL_DESC_DATETIME_INTERVAL_CODE, SQL_DESC_PRECISION, SQL_DESC_SCALE]
       then SQL_IS_SMALLINT
     else SQL_IS_POINTER)"

lemma plain_field_checks:
  assumes "f \<in> set plain_fields" and "DESC_TYPE_IS_APPLICATION dt"
  shows "check_access dt f mode" and "\<not> is_header_field f" and "f \<noteq> SQL_DESC_ALLOC_TYPE"
    and "f \<noteq> SQL_DESC_DATA_PTR" and "get_string rec f = None"
    and "check_buff f val (value_buff_len f) False = SQL_STATE_00000"
    and "buff \<noteq> 0 \<Longrightarrow> check_buff f buff (value_buff_len f) True = SQL_STATE_00000"
  using assms
  by (cases dt; auto simp: plain_fields_def DESC_TYPE_IS_APPLICATION_def check_access_def
      is_header_field_def get_string_def check_buff_def value_buff_len_def)+

lemma plain_field_value:
  assumes "f \<in> set plain_fields" and "DESC_TYPE_IS_APPLICATION (desc_type desc)"
    and "i < length (recs desc)"
  shows "\<exists>rec. set_rec_field ver dbc al sal desc i rec_no f val buf buff_len = Some (upd_rec desc i rec, SQL_SUCCESS) \<and>
    get_rec_value (desc_type desc) rec f = Some (Some (stored_as f val))"
proof -
  have "\<not> is_string_field f" and impl: "\<not> DESC_TYPE_IS_IMPLEMENTATION (desc_type desc)"
      and ird: "desc_type desc \<noteq> DESC_TYPE_IRD"
    using assms(1,2)
    by (auto simp: plain_fields_def is_string_field_def DESC_TYPE_IS_APPLICATION_def
        DESC_TYPE_IS_IMPLEMENTATION_def)
  then show ?thesis
    using assms(1) unfolding plain_fields_def
    by (auto simp: set_rec_field_def get_rec_value_def stored_as_def Let_def)
qed

text \<open>What is set can be read back. On an application descriptor every field of a record
  that is stored unchecked reads back as the value cast to the field's type, whether it
  fitted or not, and reading changes nothing.
\<close>

theorem set_get_roundtrip:
  assumes "desc_ok ver desc" and "DESC_TYPE_IS_APPLICATION (desc_type desc)"
    and "f \<in> set plain_fields" and "0 < rec_no" and "rec_no \<le> count desc" and "buff \<noteq> 0"
  shows "\<exists>desc'. EsSQLSetDescFieldW ver dbc al sal desc rec_no f val buf (value_buff_len f)
      = Some (desc', SQL_SUCCESS) \<and>
    EsSQLGetDescFieldW ver desc' rec_no f buff (value_buff_len f) has_len
      = Some (desc', Some (stored_as f val), None, SQL_SUCCESS)"
proof -
  let ?i = "nat rec_no - 1"
  define cur where "cur = upd_rec desc ?i ((recs desc ! ?i)\<lparr>data_ptr := 0\<rparr>)"
  note checks = plain_field_checks [OF assms(3,2)]
  have i: "?i < length (recs cur)" "?i < length (recs desc)" "desc_type cur = desc_type desc"
    using assms(4,5) desc_okD(1) [OF assms(1)] by (simp_all add: cur_def)
  obtain rec where rec: "set_rec_field ver dbc al sal cur ?i rec_no f val buf (value_buff_len f) =
        Some (upd_rec cur ?i rec, SQL_SUCCESS)"
      "get_rec_value (desc_type desc) rec f = Some (Some (stored_as f val))"
    using plain_field_value [OF assms(3), of cur ?i] assms(2) i(1,3) by fastforce
  have set: "EsSQLSetDescFieldW ver dbc al sal desc rec_no f val buf (value_buff_len f) =
      Some (upd_rec cur ?i rec, SQL_SUCCESS)"
    using set_existing_record [OF checks(1,6,2) assms(4,5) refl] checks(4) rec(1) by (simp add: cur_def)
  have "get_rec_field ver (upd_rec cur ?i rec) rec f buff (value_buff_len f) has_len =
      Some (upd_rec cur ?i rec, Some (stored_as f val), None, SQL_SUCCESS)"
    using rec(2) i(3) checks(5) [of rec] by (simp add: get_rec_field_def get_done_def)
  moreover have "get_record ver ALLOC_FAILS (upd_rec cur ?i rec) rec_no False =
      Some (upd_rec cur ?i rec, Some ?i)"
    using assms(5) by (simp add: get_record_def cur_def)
  ultimately have "EsSQLGetDescFieldW ver (upd_rec cur ?i rec) rec_no f buff (value_buff_len f) has_len =
      Some (upd_rec cur ?i rec, Some (stored_as f val), None, SQL_SUCCESS)"
    using i checks(1) [of O_RDONLY] checks(2,3) checks(7) [OF assms(6)] assms(4)
    by (simp add: EsSQLGetDescFieldW_def mem_read_def)
  with set show ?thesis by blast
qed

theorem set_get_roundtrip_witness:
  "\<exists>desc'. EsSQLSetDescFieldW (wlit ''1.0'') (Some sample_types) ALLOC_FAILS ALLOC_FAILS sample_desc 2
      SQL_DESC_PRECISION 65539 [] SQL_IS_SMALLINT = Some (desc', SQL_SUCCESS) \<and>
    EsSQLGetDescFieldW (wlit ''1.0'') desc' 2 SQL_DESC_PRECISION 4096 SQL_IS_SMALLINT False
      = Some (desc', Some (SMALLINT 3), None, SQL_SUCCESS)"
  using set_get_roundtrip [OF sample_desc_ok, of SQL_DESC_PRECISION 2 4096 "Some sample_types" ALLOC_FAILS
      ALLOC_FAILS 65539 "[]" False]
  by (simp add: sample_desc_def DESC_TYPE_IS_APPLICATION_def plain_fields_def value_buff_len_def
      stored_as_def to_i16_def)

text \<open>The fields the driver takes from the type of an Elasticsearch column.\<close>

definition estype_fields :: "desc_field list" where
  "estype_fields = [SQL_DESC_AUTO_UNIQUE_VALUE, SQL_DESC_DISPLAY_SIZE, SQL_DESC_LITERAL_PREFIX,
     SQL_DESC_LITERAL_SUFFIX, SQL_DESC_SEARCHABLE]"

lemma estype_field_null:
  assumes "f \<in> set estype_fields" and "es_type rec = None"
  shows "get_string rec f = Some None \<or> get_string rec f = None \<and> get_rec_value dt rec f = Some None"
proof -
  have "f = SQL_DESC_AUTO_UNIQUE_VALUE \<or> f = SQL_DESC_DISPLAY_SIZE \<or> f = SQL_DESC_LITERAL_PREFIX \<or>
      f = SQL_DESC_LITERAL_SUFFIX \<or> f = SQL_DESC_SEARCHABLE"
    using assms(1) by (simp add: estype_fields_def)
  then show ?thesis
    using assms(2) by (elim disjE) (simp_all add: get_string_def get_rec_value_def)
qed

text \<open>The fields of a result column's type cannot be read where they are and are read where
  they are not. On an IRD, whose records have a type, reading one gives no value and 01000.
  On an ARD, whose records have none, reading one of an existing record follows the null
  pointer; past the count it gives the default.
\<close>

theorem get_estype_field:
  assumes "desc_ok ver desc" and "f \<in> set estype_fields" and "0 < rec_no"
    and "check_buff f buff buff_len True = SQL_STATE_00000"
  shows "(desc_type desc = DESC_TYPE_IRD \<longrightarrow>
      EsSQLGetDescFieldW ver desc rec_no f buff buff_len has_len =
        Some (desc\<lparr>desc_diag := posted ver (desc_diag desc) SQL_STATE_01000
            (wlit ''field type not defined for descriptor'')\<rparr>, None, None, SQL_SUCCESS_WITH_INFO)) \<and>
    (desc_type desc = DESC_TYPE_ARD \<and> rec_no \<le> count desc \<and>
        es_type (recs desc ! (nat rec_no - 1)) = None \<longrightarrow>
      EsSQLGetDescFieldW ver desc rec_no f buff buff_len has_len = None) \<and>
    (desc_type desc = DESC_TYPE_ARD \<and> count desc < rec_no \<longrightarrow>
      EsSQLGetDescFieldW ver desc rec_no f buff buff_len has_len =
        Some (desc, get_rec_default f buff_len, None, SQL_SUCCESS))"
proof (intro conjI impI)
  have row: "state_retcode (esodbc_errors ! SQL_STATE_01000) = SQL_SUCCESS_WITH_INFO"
    by code_simp
  assume "desc_type desc = DESC_TYPE_IRD"
  then have "\<not> check_access (desc_type desc) f O_RDONLY"
    using assms(2) by (auto simp: estype_fields_def check_access_def)
  then show "EsSQLGetDescFieldW ver desc rec_no f buff buff_len has_len =
      Some (desc\<lparr>desc_diag := posted ver (desc_diag desc) SQL_STATE_01000
        (wlit ''field type not defined for descriptor'')\<rparr>, None, None, SQL_SUCCESS_WITH_INFO)"
    using desc_okD(3) [OF assms(1)]
    by (simp add: EsSQLGetDescFieldW_def RET_DESC_TEXT_ok get_failed_def row [simplified])
next
  assume ard: "desc_type desc = DESC_TYPE_ARD \<and> rec_no \<le> count desc \<and>
    es_type (recs desc ! (nat rec_no - 1)) = None"
  have "check_access DESC_TYPE_ARD f O_RDONLY" "\<not> is_header_field f" "f \<noteq> SQL_DESC_ALLOC_TYPE"
    using assms(2) by (auto simp: estype_fields_def check_access_def is_header_field_def)
  moreover from ard have "es_type (recs desc ! (nat rec_no - 1)) = None" by blast
  then have "get_rec_field ver desc (recs desc ! (nat rec_no - 1)) f buff buff_len has_len = None"
    by (rule disjE [OF estype_field_null [OF assms(2), of _ "desc_type desc"]])
      (simp_all add: get_rec_field_def get_string_field_def)
  ultimately show "EsSQLGetDescFieldW ver desc rec_no f buff buff_len has_len = None"
    using ard assms(3,4) by (simp add: EsSQLGetDescFieldW_def get_record_def mem_read_def)
next
  assume ard: "desc_type desc = DESC_TYPE_ARD \<and> count desc < rec_no"
  have "check_access DESC_TYPE_ARD f O_RDONLY" "\<not> is_header_field f" "f \<noteq> SQL_DESC_ALLOC_TYPE"
    using assms(2) by (auto simp: estype_fields_def check_access_def is_header_field_def)
  then show "EsSQLGetDescFieldW ver desc rec_no f buff buff_len has_len =
      Some (desc, get_rec_default f buff_len, None, SQL_SUCCESS)"
    using ard assms(3,4) by (simp add: EsSQLGetDescFieldW_def get_record_def)
qed

theorem get_estype_field_witness:
  "EsSQLGetDescFieldW (wlit ''1.0'') sample_desc 1 SQL_DESC_SEARCHABLE 4096 SQL_IS_SMALLINT True = None"
  using get_estype_field [OF sample_desc_ok, of SQL_DESC_SEARCHABLE 1 4096 SQL_IS_SMALLINT True]
  by (simp add: estype_fields_def check_buff_def sample_desc_def sample_rec_def zero_rec_def)

text \<open>A name is copied by half: \<open>cnt\<close> bytes are \<open>cnt div 2\<close> units, and none terminates it.\<close>

lemma get_name_half:
  "EsSQLGetDescFieldW (wlit ''1.0'') (sample_desc\<lparr>desc_type := DESC_TYPE_IPD,
      recs := [sample_rec\<lparr>rec_name := Some (wlit ''ab'')\<rparr>, zero_rec]\<rparr>) 1 SQL_DESC_NAME 4096 8 True
    = Some (sample_desc\<lparr>desc_type := DESC_TYPE_IPD,
      recs := [sample_rec\<lparr>rec_name := Some (wlit ''ab'')\<rparr>, zero_rec]\<rparr>,
        Some (BYTES (wbytes (wlit ''a''))), Some 2, SQL_SUCCESS)"
  by (simp add: EsSQLGetDescFieldW_def check_access_def check_buff_def is_header_field_def
      get_record_def mem_read_def get_rec_field_def get_string_def get_string_field_def sample_desc_def
      to_i32_def to_u64_def wbytes_def wlit_def)

end
