(* ===== verification/Handles.thy ===== *)
theory Handles
imports Desc_GetField
begin

text \<open>
  Handles (driver/handles.c, driver/handles.h): environments, connections, statements and
  descriptors, their allocation and release, and the attributes of environments and
  statements.

  The heap maps the number of a block to the handle in it; a block that is not allocated, or
  was freed, is \<open>None\<close>, and so is an operation that follows a pointer to one. A pointer to a
  descriptor is to a block of its own, or to one of the four that a statement embeds.
  \<open>malloc\<close>'s answer is an argument: the block, or \<open>None\<close>. Of the connection only what
  these operations use is modelled; of a result set only whether it is there and whether it has
  a cursor, and closing the cursor on the server is a parameter.
\<close>

section \<open>State\<close>

datatype member = WHOLE | I_ARD | I_IRD | I_APD | I_IPD
datatype ptr = NULL | PTR nat member

record esodbc_env =
  env_diag :: esodbc_diag
  env_version :: int

record esodbc_dbc =
  dbc_diag :: esodbc_diag
  dbc_env :: ptr
  dbc_metadata_id :: int
  dbc_types :: dbc_types

record esodbc_stmt =
  stmt_diag :: esodbc_diag
  stmt_dbc :: ptr
  u8sql :: "cstr option"
  ard :: ptr
  ird :: ptr
  apd :: ptr
  ipd :: ptr
  i_ard :: esodbc_desc
  i_ird :: esodbc_desc
  i_apd :: esodbc_desc
  i_ipd :: esodbc_desc
  bookmarks :: int
  metadata_id :: int
  max_length :: int
  query_timeout :: int
  has_resultset :: bool
  has_cursor :: bool
  nset :: nat
  tv_rows :: nat
  sql2c_conversion :: int
  early_executed :: bool
  gd_col :: int
  gd_ctype :: int
  gd_offt :: int

text \<open>A descriptor's parent is the handle it was allocated on.\<close>

datatype handle =
  ENV esodbc_env | DBC esodbc_dbc | STMT esodbc_stmt | DESC ptr esodbc_desc

type_synonym heap = "nat \<Rightarrow> handle option"

definition get_stmt :: "heap \<Rightarrow> nat \<Rightarrow> esodbc_stmt option" where
  "get_stmt h b = (case h b of Some (STMT s) \<Rightarrow> Some s | _ \<Rightarrow> None)"

definition put_stmt :: "heap \<Rightarrow> nat \<Rightarrow> esodbc_stmt \<Rightarrow> heap" where
  "put_stmt h b s = h(b \<mapsto> STMT s)"

fun member_desc :: "member \<Rightarrow> esodbc_stmt \<Rightarrow> esodbc_desc option" where
  "member_desc WHOLE s = None"
| "member_desc I_ARD s = Some (i_ard s)"
| "member_desc I_IRD s = Some (i_ird s)"
| "member_desc I_APD s = Some (i_apd s)"
| "member_desc I_IPD s = Some (i_ipd s)"

fun with_member :: "member \<Rightarrow> esodbc_stmt \<Rightarrow> esodbc_desc \<Rightarrow> esodbc_stmt" where
  "with_member WHOLE s d = s"
| "with_member I_ARD s d = s\<lparr>i_ard := d\<rparr>"
| "with_member I_IRD s d = s\<lparr>i_ird := d\<rparr>"
| "with_member I_APD s d = s\<lparr>i_apd := d\<rparr>"
| "with_member I_IPD s d = s\<lparr>i_ipd := d\<rparr>"

fun get_desc :: "heap \<Rightarrow> ptr \<Rightarrow> esodbc_desc option" where
  "get_desc h NULL = None"
| "get_desc h (PTR b m) =
    (case h b of Some (DESC par d) \<Rightarrow> if m = WHOLE then Some d else None
     | Some (STMT s) \<Rightarrow> member_desc m s | _ \<Rightarrow> None)"

fun put_desc :: "heap \<Rightarrow> ptr \<Rightarrow> esodbc_desc \<Rightarrow> heap" where
  "put_desc h NULL d = h"
| "put_desc h (PTR b m) d =
    (case h b of Some (DESC par _) \<Rightarrow> h(b \<mapsto> DESC par d)
     | Some (STMT s) \<Rightarrow> h(b \<mapsto> STMT (with_member m s d)) | _ \<Rightarrow> h)"

text \<open>\<open>hdr.parent\<close>, under the names \<open>env\<close>, \<open>dbc\<close> and \<open>stmt\<close> of one union.\<close>

fun hdr_parent :: "heap \<Rightarrow> ptr \<Rightarrow> ptr option" where
  "hdr_parent h NULL = None"
| "hdr_parent h (PTR b m) =
    (case h b of
       None \<Rightarrow> None
     | Some (ENV e) \<Rightarrow> Some NULL
     | Some (DBC c) \<Rightarrow> Some (dbc_env c)
     | Some (STMT s) \<Rightarrow> Some (if m = WHOLE then stmt_dbc s else PTR b WHOLE)
     | Some (DESC par d) \<Rightarrow> Some par)"

text \<open>\<open>HDRH(HDRH(desc)->stmt)->dbc\<close>, \<open>None\<close> if what is there is not a connection.\<close>

definition desc_dbc :: "heap \<Rightarrow> ptr \<Rightarrow> dbc_types option" where
  "desc_dbc h p = do {
     st \<leftarrow> hdr_parent h p;
     c \<leftarrow> hdr_parent h st;
     case c of PTR b WHOLE \<Rightarrow> (case h b of Some (DBC dbc) \<Rightarrow> Some (dbc_types dbc) | _ \<Rightarrow> None)
     | _ \<Rightarrow> None }"

section \<open>Diagnostics of a statement, calls on a descriptor\<close>

definition RET_STMT :: "wstr \<Rightarrow> heap \<Rightarrow> nat \<Rightarrow> esodbc_state \<Rightarrow> (heap \<times> sqlreturn) option" where
  "RET_STMT ver h b st = do {
     s \<leftarrow> get_stmt h b;
     (d, ret) \<leftarrow> RET_HDIAGS ver (stmt_diag s) st;
     Some (put_stmt h b (s\<lparr>stmt_diag := d\<rparr>), ret) }"

definition RET_STMT_TEXT ::
    "wstr \<Rightarrow> heap \<Rightarrow> nat \<Rightarrow> esodbc_state \<Rightarrow> string \<Rightarrow> (heap \<times> sqlreturn) option" where
  "RET_STMT_TEXT ver h b st msg = do {
     s \<leftarrow> get_stmt h b;
     (d, ret) \<leftarrow> post_diagnostic ver (stmt_diag s) st (Some (wlit msg @ [0])) 0;
     Some (put_stmt h b (s\<lparr>stmt_diag := d\<rparr>), ret) }"

definition HDIAG_COPY :: "heap \<Rightarrow> ptr \<Rightarrow> nat \<Rightarrow> heap option" where
  "HDIAG_COPY h p b = do {
     d \<leftarrow> get_desc h p;
     s \<leftarrow> get_stmt h b;
     Some (put_stmt h b (s\<lparr>stmt_diag := desc_diag d\<rparr>)) }"

text \<open>A call of \<open>EsSQLSetDescFieldW\<close> with a value that is not a string.\<close>

definition set_desc_field ::
    "wstr \<Rightarrow> alloc \<Rightarrow> heap \<Rightarrow> ptr \<Rightarrow> int \<Rightarrow> desc_field \<Rightarrow> int \<Rightarrow> int \<Rightarrow> (heap \<times> sqlreturn) option" where
  "set_desc_field ver al h p rec_no f val len = do {
     d \<leftarrow> get_desc h p;
     (d, ret) \<leftarrow> EsSQLSetDescFieldW ver (desc_dbc h p) al ALLOC_FAILS d rec_no f val [] len;
     Some (put_desc h p d, ret) }"

definition NO_REC_NR :: int where "NO_REC_NR = - 1"

section \<open>Environment attributes\<close>

datatype env_attr =
    SQL_ATTR_CONNECTION_POOLING | SQL_ATTR_CP_MATCH | SQL_ATTR_ODBC_VERSION | SQL_ATTR_OUTPUT_NTS
  | SQL_ATTR_ENV_OTHER int

definition RET_ENV_TEXT ::
    "wstr \<Rightarrow> esodbc_env \<Rightarrow> esodbc_state \<Rightarrow> string \<Rightarrow> (esodbc_env \<times> sqlreturn) option" where
  "RET_ENV_TEXT ver env st msg = do {
     (d, ret) \<leftarrow> post_diagnostic ver (env_diag env) st (Some (wlit msg @ [0])) 0;
     Some (env\<lparr>env_diag := d\<rparr>, ret) }"

definition EsSQLSetEnvAttr ::
    "wstr \<Rightarrow> esodbc_env \<Rightarrow> env_attr \<Rightarrow> int \<Rightarrow> (esodbc_env \<times> sqlreturn) option" where
  "EsSQLSetEnvAttr ver env attr val =
    (case attr of
       SQL_ATTR_CONNECTION_POOLING \<Rightarrow>
         RET_ENV_TEXT ver env SQL_STATE_HYC00 ''Connection pooling not supported''
     | SQL_ATTR_CP_MATCH \<Rightarrow>
         RET_ENV_TEXT ver env SQL_STATE_HYC00 ''Connection pooling not supported''
     | SQL_ATTR_ODBC_VERSION \<Rightarrow>
         if val = 2 \<or> val = 3 \<or> val = 380
         then Some (env\<lparr>env_version := val\<rparr>, SQL_SUCCESS)
         else RET_ENV_TEXT ver env SQL_STATE_HYC00 ''application version not supported''
     | SQL_ATTR_OUTPUT_NTS \<Rightarrow>
         if val \<noteq> 1
         then RET_ENV_TEXT ver env SQL_STATE_HYC00 ''Driver always returns null terminated strings''
         else Some (env, SQL_SUCCESS)
     | SQL_ATTR_ENV_OTHER _ \<Rightarrow> RET_ENV_TEXT ver env SQL_STATE_HY024 ''Unsupported attribute value'')"

definition EsSQLGetEnvAttr ::
    "wstr \<Rightarrow> esodbc_env \<Rightarrow> env_attr \<Rightarrow> (esodbc_env \<times> int option \<times> sqlreturn) option" where
  "EsSQLGetEnvAttr ver env attr =
    (case attr of
       SQL_ATTR_ODBC_VERSION \<Rightarrow> Some (env, Some (env_version env), SQL_SUCCESS)
     | SQL_ATTR_OUTPUT_NTS \<Rightarrow> Some (env, Some 1, SQL_SUCCESS)
     | SQL_ATTR_ENV_OTHER _ \<Rightarrow>
         map_option (\<lambda>(env, ret). (env, None, ret))
           (RET_ENV_TEXT ver env SQL_STATE_HY024 ''Unsupported attribute value'')
     | _ \<Rightarrow>
         map_option (\<lambda>(env, ret). (env, None, ret))
           (RET_ENV_TEXT ver env SQL_STATE_HYC00 ''Connection pooling not yet supported''))"

section \<open>Statement attributes\<close>

datatype stmt_attr =
    SQL_ATTR_USE_BOOKMARKS | SQL_ATTR_ROW_BIND_OFFSET_PTR | SQL_ATTR_PARAM_BIND_OFFSET_PTR
  | SQL_ATTR_ROW_ARRAY_SIZE | SQL_ATTR_PARAMSET_SIZE | SQL_ATTR_ROW_BIND_TYPE
  | SQL_ATTR_PARAM_BIND_TYPE | SQL_ATTR_ROW_STATUS_PTR | SQL_ATTR_PARAM_STATUS_PTR
  | SQL_ATTR_ROW_OPERATION_PTR | SQL_ATTR_PARAM_OPERATION_PTR | SQL_ATTR_ROWS_FETCHED_PTR
  | SQL_ATTR_PARAMS_PROCESSED_PTR | SQL_ATTR_APP_ROW_DESC | SQL_ATTR_APP_PARAM_DESC
  | SQL_ATTR_IMP_ROW_DESC | SQL_ATTR_IMP_PARAM_DESC | SQL_ATTR_ROW_NUMBER | SQL_ATTR_METADATA_ID
  | SQL_ATTR_ASYNC_ENABLE | SQL_ATTR_ASYNC_STMT_EVENT | SQL_ATTR_MAX_LENGTH
  | SQL_ATTR_QUERY_TIMEOUT | SQL_ATTR_CURSOR_TYPE | SQL_ATTR_NOSCAN | SQL_ATTR_CONCURRENCY
  | SQL_ATTR_MAX_ROWS | SQL_ATTR_CURSOR_SENSITIVITY | SQL_ATTR_CURSOR_SCROLLABLE
  | SQL_ATTR_RETRIEVE_DATA | SQL_ATTR_OTHER int

text \<open>The attributes that are header fields of one of the statement's descriptors.\<close>

definition attr_field :: "stmt_attr \<Rightarrow> ((esodbc_stmt \<Rightarrow> ptr) \<times> desc_field) option" where
  "attr_field attr =
    (case attr of
       SQL_ATTR_ROW_BIND_OFFSET_PTR \<Rightarrow> Some (ard, SQL_DESC_BIND_OFFSET_PTR)
     | SQL_ATTR_PARAM_BIND_OFFSET_PTR \<Rightarrow> Some (apd, SQL_DESC_BIND_OFFSET_PTR)
     | SQL_ATTR_ROW_ARRAY_SIZE \<Rightarrow> Some (ard, SQL_DESC_ARRAY_SIZE)
     | SQL_ATTR_PARAMSET_SIZE \<Rightarrow> Some (apd, SQL_DESC_ARRAY_SIZE)
     | SQL_ATTR_ROW_BIND_TYPE \<Rightarrow> Some (ard, SQL_DESC_BIND_TYPE)
     | SQL_ATTR_PARAM_BIND_TYPE \<Rightarrow> Some (apd, SQL_DESC_BIND_TYPE)
     | SQL_ATTR_ROW_STATUS_PTR \<Rightarrow> Some (ird, SQL_DESC_ARRAY_STATUS_PTR)
     | SQL_ATTR_PARAM_STATUS_PTR \<Rightarrow> Some (ipd, SQL_DESC_ARRAY_STATUS_PTR)
     | SQL_ATTR_ROW_OPERATION_PTR \<Rightarrow> Some (ard, SQL_DESC_ARRAY_STATUS_PTR)
     | SQL_ATTR_PARAM_OPERATION_PTR \<Rightarrow> Some (apd, SQL_DESC_ARRAY_STATUS_PTR)
     | SQL_ATTR_ROWS_FETCHED_PTR \<Rightarrow> Some (ird, SQL_DESC_ROWS_PROCESSED_PTR)
     | SQL_ATTR_PARAMS_PROCESSED_PTR \<Rightarrow> Some (ipd, SQL_DESC_ROWS_PROCESSED_PTR)
     | _ \<Rightarrow> None)"

text \<open>The attributes with one supported value, and the state of a request for another.\<close>

definition attr_fixed :: "stmt_attr \<Rightarrow> (int \<times> esodbc_state) option" where
  "attr_fixed attr =
    (case attr of
       SQL_ATTR_CURSOR_TYPE \<Rightarrow> Some (0, SQL_STATE_01S02)
     | SQL_ATTR_CONCURRENCY \<Rightarrow> Some (1, SQL_STATE_01S02)
     | SQL_ATTR_MAX_ROWS \<Rightarrow> Some (0, SQL_STATE_01S02)
     | SQL_ATTR_RETRIEVE_DATA \<Rightarrow> Some (1, SQL_STATE_01S02)
     | SQL_ATTR_CURSOR_SENSITIVITY \<Rightarrow> Some (0, SQL_STATE_HYC00)
     | SQL_ATTR_CURSOR_SCROLLABLE \<Rightarrow> Some (0, SQL_STATE_HYC00)
     | _ \<Rightarrow> None)"

definition set_attr_field ::
    "wstr \<Rightarrow> alloc \<Rightarrow> heap \<Rightarrow> nat \<Rightarrow> ptr \<Rightarrow> desc_field \<Rightarrow> int \<Rightarrow> int \<Rightarrow> (heap \<times> sqlreturn) option" where
  "set_attr_field ver al h b desc f val len = do {
     (h, ret) \<leftarrow> set_desc_field ver al h desc NO_REC_NR f val len;
     h \<leftarrow> (if ret \<noteq> SQL_SUCCESS then HDIAG_COPY h desc b else Some h);
     Some (h, ret) }"

text \<open>\<open>hv\<close> is \<open>ValuePtr\<close> taken for a descriptor handle.\<close>

definition set_app_row_desc :: "wstr \<Rightarrow> heap \<Rightarrow> nat \<Rightarrow> ptr \<Rightarrow> (heap \<times> sqlreturn) option" where
  "set_app_row_desc ver h b hv = do {
     s \<leftarrow> get_stmt h b;
     if hv = ard s then Some (h, SQL_SUCCESS)
     else if hv = PTR b I_ARD \<or> hv = NULL then
       Some (put_stmt h b (s\<lparr>ard := PTR b I_ARD\<rparr>), SQL_SUCCESS)
     else do {
       d \<leftarrow> get_desc h hv;
       if alloc_type d = SQL_DESC_ALLOC_AUTO then RET_STMT ver h b SQL_STATE_HY017
       else if desc_type d = DESC_TYPE_ANON \<or> desc_type d = DESC_TYPE_ARD then do {
         let h = put_desc h hv (d\<lparr>desc_type := DESC_TYPE_ARD\<rparr>);
         s \<leftarrow> get_stmt h b;
         Some (put_stmt h b (s\<lparr>ard := hv\<rparr>), SQL_SUCCESS) }
       else RET_STMT ver h b SQL_STATE_HY024 } }"

text \<open>The bounds of \<open>max_length\<close> (an upper bound of 0 is none), and its value within them.\<close>

definition ESODBC_LO_MAX_LENGTH :: int where "ESODBC_LO_MAX_LENGTH = 0"
definition ESODBC_UP_MAX_LENGTH :: int where "ESODBC_UP_MAX_LENGTH = 0"

definition bounded_max_length :: "int \<Rightarrow> int" where
  "bounded_max_length ulen =
    (if ulen < ESODBC_LO_MAX_LENGTH then ESODBC_LO_MAX_LENGTH
     else if ESODBC_UP_MAX_LENGTH \<noteq> 0 \<and> ESODBC_UP_MAX_LENGTH < ulen then ESODBC_UP_MAX_LENGTH
     else ulen)"

definition EsSQLSetStmtAttrW ::
    "wstr \<Rightarrow> alloc \<Rightarrow> heap \<Rightarrow> nat \<Rightarrow> stmt_attr \<Rightarrow> int \<Rightarrow> ptr \<Rightarrow> int \<Rightarrow> (heap \<times> sqlreturn) option" where
  "EsSQLSetStmtAttrW ver al h b attr val hv len = do {
     s \<leftarrow> get_stmt h b;
     case attr_field attr of
       Some (desc, f) \<Rightarrow> set_attr_field ver al h b (desc s) f val len
     | None \<Rightarrow>
     case attr_fixed attr of
       Some (supported, st) \<Rightarrow>
         if to_u64 val \<noteq> supported then RET_STMT ver h b st else Some (h, SQL_SUCCESS)
     | None \<Rightarrow>
     (case attr of
        SQL_ATTR_USE_BOOKMARKS \<Rightarrow>
          if to_u64 val \<noteq> 0
          then RET_STMT_TEXT ver h b SQL_STATE_HYC00 ''bookmarks are not supported by driver''
          else Some (h, SQL_SUCCESS)
      | SQL_ATTR_APP_ROW_DESC \<Rightarrow> set_app_row_desc ver h b hv
      | SQL_ATTR_APP_PARAM_DESC \<Rightarrow> Some (h, SQL_SUCCESS)
      | SQL_ATTR_IMP_ROW_DESC \<Rightarrow> RET_STMT ver h b SQL_STATE_HY017
      | SQL_ATTR_IMP_PARAM_DESC \<Rightarrow> RET_STMT ver h b SQL_STATE_HY017
      | SQL_ATTR_ROW_NUMBER \<Rightarrow> RET_STMT ver h b SQL_STATE_HY024
      | SQL_ATTR_METADATA_ID \<Rightarrow>
          Some (put_stmt h b (s\<lparr>metadata_id := to_u64 val\<rparr>), SQL_SUCCESS)
      | SQL_ATTR_ASYNC_ENABLE \<Rightarrow>
          if to_u64 val = 1 then RET_STMT ver h b SQL_STATE_HYC00 else Some (h, SQL_SUCCESS)
      | SQL_ATTR_ASYNC_STMT_EVENT \<Rightarrow> RET_STMT ver h b SQL_STATE_S1118
      | SQL_ATTR_MAX_LENGTH \<Rightarrow>
          let ulen = bounded_max_length (to_u64 val);
              h = put_stmt h b (s\<lparr>max_length := ulen\<rparr>) in
          if ulen \<noteq> to_u64 val then RET_STMT ver h b SQL_STATE_01S02 else Some (h, SQL_SUCCESS)
      | SQL_ATTR_QUERY_TIMEOUT \<Rightarrow>
          Some (put_stmt h b (s\<lparr>query_timeout := to_u64 val\<rparr>), SQL_SUCCESS)
      | SQL_ATTR_NOSCAN \<Rightarrow> Some (h, SQL_SUCCESS)
      | _ \<Rightarrow> RET_STMT ver h b SQL_STATE_HY092) }"

text \<open>The value read: a descriptor handle or an unsigned integer.\<close>

datatype attr_value = HANDLE ptr | NUMBER int

definition EsSQLGetStmtAttrW ::
    "wstr \<Rightarrow> heap \<Rightarrow> nat \<Rightarrow> stmt_attr \<Rightarrow> int \<Rightarrow> (heap \<times> attr_value option \<times> sqlreturn) option" where
  "EsSQLGetStmtAttrW ver h b attr buff = do {
     s \<leftarrow> get_stmt h b;
     let done = (\<lambda>v. Some (h, Some v, SQL_SUCCESS));
     let array_size_of = (\<lambda>desc. do {
       d \<leftarrow> get_desc h desc;
       (d, v, _, ret) \<leftarrow> EsSQLGetDescFieldW ver d NO_REC_NR SQL_DESC_ARRAY_SIZE buff SQL_IS_UINTEGER False;
       let h = put_desc h desc d;
       h \<leftarrow> (if ret \<noteq> SQL_SUCCESS then HDIAG_COPY h desc b else Some h);
       Some (h, (case v of Some (ULEN n) \<Rightarrow> Some (NUMBER n) | _ \<Rightarrow> None), ret) });
     (case attr of
        SQL_ATTR_APP_ROW_DESC \<Rightarrow> done (HANDLE (ard s))
      | SQL_ATTR_APP_PARAM_DESC \<Rightarrow> done (HANDLE (apd s))
      | SQL_ATTR_IMP_ROW_DESC \<Rightarrow> done (HANDLE (ird s))
      | SQL_ATTR_IMP_PARAM_DESC \<Rightarrow> done (HANDLE (ipd s))
      | SQL_ATTR_METADATA_ID \<Rightarrow> done (NUMBER (metadata_id s))
      | SQL_ATTR_ASYNC_ENABLE \<Rightarrow> done (NUMBER 0)
      | SQL_ATTR_MAX_LENGTH \<Rightarrow> done (NUMBER (max_length s))
      | SQL_ATTR_QUERY_TIMEOUT \<Rightarrow> done (NUMBER (query_timeout s))
      | SQL_ATTR_ROW_NUMBER \<Rightarrow> done (NUMBER (int (tv_rows s)))
      | SQL_ATTR_CURSOR_TYPE \<Rightarrow> done (NUMBER 0)
      | SQL_ATTR_ROW_ARRAY_SIZE \<Rightarrow> array_size_of (ard s)
      | SQL_ATTR_PARAMSET_SIZE \<Rightarrow> array_size_of (apd s)
      | SQL_ATTR_USE_BOOKMARKS \<Rightarrow> done (NUMBER 0)
      | SQL_ATTR_NOSCAN \<Rightarrow> done (NUMBER 0)
      | SQL_ATTR_CONCURRENCY \<Rightarrow> done (NUMBER 1)
      | SQL_ATTR_MAX_ROWS \<Rightarrow> done (NUMBER 0)
      | SQL_ATTR_CURSOR_SENSITIVITY \<Rightarrow> done (NUMBER 0)
      | SQL_ATTR_CURSOR_SCROLLABLE \<Rightarrow> done (NUMBER 0)
      | SQL_ATTR_RETRIEVE_DATA \<Rightarrow> done (NUMBER 1)
      | _ \<Rightarrow> map_option (\<lambda>(h, ret). (h, None, ret)) (RET_STMT ver h b SQL_STATE_HY092)) }"
section \<open>Clearing, freeing, closing\<close>

datatype free_option =
  SQL_CLOSE | SQL_DROP | SQL_UNBIND | SQL_RESET_PARAMS | ESODBC_SQL_CLOSE | SQL_FREE_OTHER int

definition STMT_GD_RESET :: "esodbc_stmt \<Rightarrow> esodbc_stmt" where
  "STMT_GD_RESET s = s\<lparr>gd_col := - 1, gd_ctype := 0, gd_offt := 0\<rparr>"

definition STMT_ROW_CNT_RESET :: "esodbc_stmt \<Rightarrow> esodbc_stmt" where
  "STMT_ROW_CNT_RESET s = s\<lparr>nset := 0, tv_rows := 0\<rparr>"

definition clear_resultset :: "esodbc_stmt \<Rightarrow> bool \<Rightarrow> esodbc_stmt" where
  "clear_resultset s on_close =
    (let s = s\<lparr>has_resultset := False, has_cursor := False\<rparr> in
     STMT_GD_RESET (if on_close then STMT_ROW_CNT_RESET s else s))"

definition detach_sql :: "esodbc_stmt \<Rightarrow> esodbc_stmt" where
  "detach_sql s = s\<lparr>u8sql := None\<rparr>"

text \<open>\<open>cl\<close> is what closing the cursor on the server does to the statement.\<close>

definition clear_ird_results :: "(esodbc_stmt \<Rightarrow> esodbc_stmt) \<Rightarrow> bool \<Rightarrow> esodbc_stmt \<Rightarrow> esodbc_stmt" where
  "clear_ird_results cl reinit s =
    (let s = (if has_cursor s then cl s else s) in
     if has_resultset s then clear_resultset s reinit else s)"

definition clear_desc ::
    "(esodbc_stmt \<Rightarrow> esodbc_stmt) \<Rightarrow> heap \<Rightarrow> ptr \<Rightarrow> bool \<Rightarrow> heap option" where
  "clear_desc cl h p reinit = do {
     d \<leftarrow> get_desc h p;
     h \<leftarrow> (if desc_type d = DESC_TYPE_IRD then
             (case hdr_parent h p of
                Some (PTR b WHOLE) \<Rightarrow>
                  map_option (\<lambda>s. put_stmt h b (clear_ird_results cl reinit s)) (get_stmt h b)
              | _ \<Rightarrow> None)
           else Some h);
     d \<leftarrow> get_desc h p;
     let d = (if recs d \<noteq> [] then free_desc_recs d else d);
     d \<leftarrow> (if reinit then init_desc (desc_type d) (alloc_type d) else Some d);
     Some (put_desc h p d) }"

definition free_stmt_count ::
    "wstr \<Rightarrow> alloc \<Rightarrow> heap \<Rightarrow> ptr \<Rightarrow> (heap \<times> sqlreturn) option" where
  "free_stmt_count ver al h p = set_desc_field ver al h p NO_REC_NR SQL_DESC_COUNT 0 SQL_IS_SMALLINT"

definition reset_params :: "wstr \<Rightarrow> alloc \<Rightarrow> heap \<Rightarrow> nat \<Rightarrow> (heap \<times> sqlreturn) option" where
  "reset_params ver al h b = do {
     s \<leftarrow> get_stmt h b;
     d \<leftarrow> init_diagnostic (stmt_diag s);
     let h = put_stmt h b (s\<lparr>stmt_diag := d\<rparr>);
     (h, ret) \<leftarrow> free_stmt_count ver al h (apd s);
     h \<leftarrow> (if \<not> SQL_SUCCEEDED ret then HDIAG_COPY h (ard s) b else Some h);
     (h, ret) \<leftarrow> free_stmt_count ver al h (ipd s);
     h \<leftarrow> (if \<not> SQL_SUCCEEDED ret then HDIAG_COPY h (ird s) b else Some h);
     s \<leftarrow> get_stmt h b;
     ret \<leftarrow> RET_STATE (state (stmt_diag s));
     Some (h, ret) }"

definition EsSQLFreeStmt ::
    "wstr \<Rightarrow> (esodbc_stmt \<Rightarrow> esodbc_stmt) \<Rightarrow> alloc \<Rightarrow> heap \<Rightarrow> nat \<Rightarrow> free_option \<Rightarrow> (heap \<times> sqlreturn) option" where
  "EsSQLFreeStmt ver cl al h b opt = do {
     s \<leftarrow> get_stmt h b;
     (case opt of
        SQL_DROP \<Rightarrow> Some (h, SQL_SUCCESS)
      | SQL_UNBIND \<Rightarrow> do {
          (h, ret) \<leftarrow> free_stmt_count ver al h (ard s);
          h \<leftarrow> (if ret \<noteq> SQL_SUCCESS then HDIAG_COPY h (ard s) b else Some h);
          Some (h, ret) }
      | ESODBC_SQL_CLOSE \<Rightarrow>
          map_option (\<lambda>h. (h, SQL_SUCCESS))
            (clear_desc cl (put_stmt h b (detach_sql s)) (ird s) True)
      | SQL_CLOSE \<Rightarrow> map_option (\<lambda>h. (h, SQL_SUCCESS)) (clear_desc cl h (ird s) True)
      | SQL_RESET_PARAMS \<Rightarrow> reset_params ver al h b
      | SQL_FREE_OTHER _ \<Rightarrow> RET_STMT ver h b SQL_STATE_HY092) }"

definition EsSQLCloseCursor ::
    "wstr \<Rightarrow> (esodbc_stmt \<Rightarrow> esodbc_stmt) \<Rightarrow> alloc \<Rightarrow> heap \<Rightarrow> nat \<Rightarrow> (heap \<times> sqlreturn) option" where
  "EsSQLCloseCursor ver cl al h b = do {
     s \<leftarrow> get_stmt h b;
     if \<not> has_resultset s then RET_STMT ver h b SQL_STATE_24000
     else EsSQLFreeStmt ver cl al h b SQL_CLOSE }"

section \<open>Allocating and freeing handles\<close>

datatype handle_type =
  SQL_HANDLE_ENV | SQL_HANDLE_DBC | SQL_HANDLE_STMT | SQL_HANDLE_DESC | SQL_HANDLE_SENV
| SQL_HANDLE_OTHER int

definition no_diag :: esodbc_diag where
  "no_diag = \<lparr>state = 0, diag_text = replicate SQL_MAX_MESSAGE_LENGTH 0, text_len = 0,
     native_code = 0, row_number = 0, column_number = 0\<rparr>"

definition init_env :: "esodbc_env option" where
  "init_env = map_option (\<lambda>d. \<lparr>env_diag = d, env_version = 0\<rparr>) (init_diagnostic no_diag)"

definition init_dbc :: "ptr \<Rightarrow> esodbc_dbc option" where
  "init_dbc env = map_option (\<lambda>d. \<lparr>dbc_diag = d, dbc_env = env, dbc_metadata_id = 0,
     dbc_types = \<lparr>es_types = [], max_varchar_type = None, max_float_type = None\<rparr>\<rparr>)
     (init_diagnostic no_diag)"

definition init_stmt :: "heap \<Rightarrow> nat \<Rightarrow> ptr \<Rightarrow> esodbc_stmt option" where
  "init_stmt h b dbc = do {
     meta_id \<leftarrow> (case dbc of PTR c WHOLE \<Rightarrow>
         (case h c of Some (DBC d) \<Rightarrow> Some (dbc_metadata_id d) | _ \<Rightarrow> None) | _ \<Rightarrow> None);
     diag \<leftarrow> init_diagnostic no_diag;
     a_row \<leftarrow> init_desc DESC_TYPE_ARD SQL_DESC_ALLOC_AUTO;
     i_row \<leftarrow> init_desc DESC_TYPE_IRD SQL_DESC_ALLOC_AUTO;
     a_par \<leftarrow> init_desc DESC_TYPE_APD SQL_DESC_ALLOC_AUTO;
     i_par \<leftarrow> init_desc DESC_TYPE_IPD SQL_DESC_ALLOC_AUTO;
     Some \<lparr>stmt_diag = diag, stmt_dbc = dbc, u8sql = None,
       ard = PTR b I_ARD, ird = PTR b I_IRD, apd = PTR b I_APD, ipd = PTR b I_IPD,
       i_ard = a_row, i_ird = i_row, i_apd = a_par, i_ipd = i_par,
       bookmarks = 0, metadata_id = meta_id, max_length = 0, query_timeout = 0,
       has_resultset = False, has_cursor = False, nset = 0, tv_rows = 0, sql2c_conversion = 0,
       early_executed = False, gd_col = 0, gd_ctype = 0, gd_offt = 0\<rparr> }"

text \<open>Posting on the handle given as input, which may be of any kind.\<close>

definition RET_HANDLE ::
    "wstr \<Rightarrow> heap \<Rightarrow> ptr \<Rightarrow> esodbc_state \<Rightarrow> wstr option \<Rightarrow> (heap \<times> sqlreturn) option" where
  "RET_HANDLE ver h p st msg =
    (case p of
       PTR b WHOLE \<Rightarrow>
         (case h b of
            Some (ENV e) \<Rightarrow>
              map_option (\<lambda>(d, ret). (h(b \<mapsto> ENV (e\<lparr>env_diag := d\<rparr>)), ret))
                (post_diagnostic ver (env_diag e) st msg 0)
          | Some (DBC c) \<Rightarrow>
              map_option (\<lambda>(d, ret). (h(b \<mapsto> DBC (c\<lparr>dbc_diag := d\<rparr>)), ret))
                (post_diagnostic ver (dbc_diag c) st msg 0)
          | _ \<Rightarrow> None)
     | _ \<Rightarrow> None)"

text \<open>The handle \<open>malloc\<close>'s block gets.\<close>

definition new_handle :: "heap \<Rightarrow> handle_type \<Rightarrow> ptr \<Rightarrow> nat \<Rightarrow> handle option" where
  "new_handle h ty input b =
    (case ty of
       SQL_HANDLE_ENV \<Rightarrow> map_option ENV init_env
     | SQL_HANDLE_DBC \<Rightarrow> map_option DBC (init_dbc input)
     | SQL_HANDLE_STMT \<Rightarrow> map_option STMT (init_stmt h b input)
     | SQL_HANDLE_DESC \<Rightarrow> map_option (DESC input) (init_desc DESC_TYPE_ANON SQL_DESC_ALLOC_USER)
     | _ \<Rightarrow> None)"

text \<open>\<open>out\<close> tells whether \<open>OutputHandle\<close> is given; what is stored there is the second
  component (\<open>None\<close>: nothing).\<close>

definition EsSQLAllocHandle ::
    "wstr \<Rightarrow> nat option \<Rightarrow> heap \<Rightarrow> handle_type \<Rightarrow> ptr \<Rightarrow> bool \<Rightarrow> (heap \<times> ptr option \<times> sqlreturn) option" where
  "EsSQLAllocHandle ver block h ty input out =
    (let fail = (\<lambda>st. map_option (\<lambda>ret. (h, None, ret)) (RET_STATE st)) in
     if \<not> out then fail SQL_STATE_HY009
     else if ty \<noteq> SQL_HANDLE_ENV \<and> input = NULL then fail SQL_STATE_HY009
     else
       (case ty of
          SQL_HANDLE_SENV \<Rightarrow> fail SQL_STATE_HYC00
        | SQL_HANDLE_OTHER _ \<Rightarrow> Some (h, None, SQL_INVALID_HANDLE)
        | _ \<Rightarrow> do {
            no_version \<leftarrow> (if ty = SQL_HANDLE_DBC then
                (case input of PTR e WHOLE \<Rightarrow>
                   (case h e of Some (ENV env) \<Rightarrow> Some (env_version env = 0) | _ \<Rightarrow> None) | _ \<Rightarrow> None)
              else Some False);
            if no_version then
              map_option (\<lambda>(h, ret). (h, None, ret))
                (RET_HANDLE ver h input SQL_STATE_HY010 (Some (wlit ''enviornment has no version set'' @ [0])))
            else
              (case block of
                 Some b \<Rightarrow> map_option (\<lambda>new. (h(b \<mapsto> new), Some (PTR b WHOLE), SQL_SUCCESS))
                   (new_handle h ty input b)
               | None \<Rightarrow>
                   if input \<noteq> NULL
                   then map_option (\<lambda>(h, ret). (h, Some NULL, ret)) (RET_HANDLE ver h input SQL_STATE_HY001 None)
                   else map_option (\<lambda>ret. (h, Some NULL, ret)) (RET_STATE SQL_STATE_HY001)) }))"

definition free_handle_stmt :: "(esodbc_stmt \<Rightarrow> esodbc_stmt) \<Rightarrow> heap \<Rightarrow> nat \<Rightarrow> heap option" where
  "free_handle_stmt cl h b = do {
     s \<leftarrow> get_stmt h b;
     let h = put_stmt h b (detach_sql s);
     h \<leftarrow> clear_desc cl h (ard s) False;
     h \<leftarrow> clear_desc cl h (ird s) False;
     h \<leftarrow> clear_desc cl h (apd s) False;
     clear_desc cl h (ipd s) False }"

definition EsSQLFreeHandle ::
    "(esodbc_stmt \<Rightarrow> esodbc_stmt) \<Rightarrow> heap \<Rightarrow> handle_type \<Rightarrow> ptr \<Rightarrow> (heap \<times> sqlreturn) option" where
  "EsSQLFreeHandle cl h ty p =
    (case p of
       NULL \<Rightarrow> map_option (\<lambda>ret. (h, ret)) (RET_STATE SQL_STATE_HY009)
     | PTR b m \<Rightarrow>
         (case ty of
            SQL_HANDLE_SENV \<Rightarrow> map_option (\<lambda>ret. (h, ret)) (RET_STATE SQL_STATE_HYC00)
          | SQL_HANDLE_OTHER _ \<Rightarrow> Some (h, SQL_INVALID_HANDLE)
          | _ \<Rightarrow> do {
              h \<leftarrow> (case ty of
                SQL_HANDLE_STMT \<Rightarrow> free_handle_stmt cl h b
              | SQL_HANDLE_DESC \<Rightarrow> clear_desc cl h p False
              | _ \<Rightarrow> Some h);
              if m = WHOLE \<and> h b \<noteq> None then Some (h(b := None), SQL_SUCCESS) else None }))"

end
