(* ===== verification/Handles_Steps.thy ===== *)
theory Handles_Steps
imports Handles
begin

text \<open>
  The handles as a state machine: what a heap of handles keeps, through any sequence of
  calls of the API on them, and what follows for the calls that a reachable heap can answer.
\<close>

section \<open>Well formed heaps\<close>

definition ver_ok :: "wstr \<Rightarrow> bool" where
  "ver_ok ver \<longleftrightarrow> length (ESODBC_DIAG_PREFIX ver) < SQL_MAX_MESSAGE_LENGTH \<and> 0 \<notin> set ver"

text \<open>A connection that is connected: its types are known.\<close>

definition conn_ok :: "heap \<Rightarrow> ptr \<Rightarrow> bool" where
  "conn_ok h p \<longleftrightarrow> (case p of PTR c WHOLE \<Rightarrow>
     (case h c of Some (DBC d) \<Rightarrow> max_float_type (dbc_types d) \<noteq> None | _ \<Rightarrow> False) | _ \<Rightarrow> False)"

text \<open>A descriptor the application allocated and made an ARD.\<close>

definition user_ard :: "heap \<Rightarrow> ptr \<Rightarrow> bool" where
  "user_ard h p \<longleftrightarrow> (case p of PTR c WHOLE \<Rightarrow>
     (case h c of Some (DESC par d) \<Rightarrow> desc_type d = DESC_TYPE_ARD | _ \<Rightarrow> False) | _ \<Rightarrow> False)"

definition embedded_ok :: "wstr \<Rightarrow> desc_type_et \<Rightarrow> esodbc_desc \<Rightarrow> bool" where
  "embedded_ok ver dt d \<longleftrightarrow>
     desc_ok ver d \<and> desc_type d = dt \<and> alloc_type d = SQL_DESC_ALLOC_AUTO"

text \<open>
  A statement's implicit descriptors have the types of their roles; the IRD, APD and IPD are
  always the implicit ones, the ARD is that or a live explicit one.
\<close>

definition stmt_ok :: "wstr \<Rightarrow> heap \<Rightarrow> nat \<Rightarrow> esodbc_stmt \<Rightarrow> bool" where
  "stmt_ok ver h b s \<longleftrightarrow> diag_ok ver (stmt_diag s) \<and> conn_ok h (stmt_dbc s) \<and>
     embedded_ok ver DESC_TYPE_ARD (i_ard s) \<and> embedded_ok ver DESC_TYPE_IRD (i_ird s) \<and>
     embedded_ok ver DESC_TYPE_APD (i_apd s) \<and> embedded_ok ver DESC_TYPE_IPD (i_ipd s) \<and>
     (ard s = PTR b I_ARD \<or> user_ard h (ard s)) \<and>
     ird s = PTR b I_IRD \<and> apd s = PTR b I_APD \<and> ipd s = PTR b I_IPD"

definition handle_ok :: "wstr \<Rightarrow> heap \<Rightarrow> nat \<Rightarrow> handle \<Rightarrow> bool" where
  "handle_ok ver h b x \<longleftrightarrow>
    (case x of
       ENV e \<Rightarrow> diag_ok ver (env_diag e)
     | DBC d \<Rightarrow> diag_ok ver (dbc_diag d)
     | STMT s \<Rightarrow> stmt_ok ver h b s
     | DESC par d \<Rightarrow> desc_ok ver d \<and> alloc_type d = SQL_DESC_ALLOC_USER \<and>
         (desc_type d = DESC_TYPE_ANON \<or> desc_type d = DESC_TYPE_ARD))"

definition heap_ok :: "wstr \<Rightarrow> heap \<Rightarrow> bool" where
  "heap_ok ver h \<longleftrightarrow> ver_ok ver \<and> (\<forall>b x. h b = Some x \<longrightarrow> handle_ok ver h b x)"

text \<open>The change from one heap to another keeps what the handles rely on of each other.\<close>

definition evolves :: "heap \<Rightarrow> heap \<Rightarrow> bool" where
  "evolves h h' \<longleftrightarrow> (\<forall>p. conn_ok h p \<longrightarrow> conn_ok h' p) \<and> (\<forall>p. user_ard h p \<longrightarrow> user_ard h' p)"

lemma handle_ok_evolves: "evolves h h' \<Longrightarrow> handle_ok ver h b x \<Longrightarrow> handle_ok ver h' b x"
  by (auto simp: evolves_def handle_ok_def stmt_ok_def split: handle.splits)

lemma heap_ok_upd:
  assumes "heap_ok ver h" and "evolves h (h(b \<mapsto> x))" and "handle_ok ver h b x"
  shows "heap_ok ver (h(b \<mapsto> x))"
  using assms handle_ok_evolves [OF assms(2)] by (auto simp: heap_ok_def)

lemma conn_ok_upd:
  "conn_ok (h(b \<mapsto> x)) p =
    (if p = PTR b WHOLE then (case x of DBC d \<Rightarrow> max_float_type (dbc_types d) \<noteq> None | _ \<Rightarrow> False)
     else conn_ok h p)"
  by (auto simp: conn_ok_def split: ptr.splits member.splits)

lemma user_ard_upd:
  "user_ard (h(b \<mapsto> x)) p =
    (if p = PTR b WHOLE then (case x of DESC par d \<Rightarrow> desc_type d = DESC_TYPE_ARD | _ \<Rightarrow> False)
     else user_ard h p)"
  by (auto simp: user_ard_def split: ptr.splits member.splits)

lemma evolves_upd:
  assumes "conn_ok h (PTR b WHOLE) \<Longrightarrow> conn_ok (h(b \<mapsto> x)) (PTR b WHOLE)"
    and "user_ard h (PTR b WHOLE) \<Longrightarrow> user_ard (h(b \<mapsto> x)) (PTR b WHOLE)"
  shows "evolves h (h(b \<mapsto> x))"
  using assms by (auto simp: evolves_def conn_ok_upd user_ard_upd)

lemma evolves_stmt: "h b = None \<or> (\<exists>s. h b = Some (STMT s)) \<Longrightarrow> evolves h (h(b \<mapsto> x))"
  by (intro evolves_upd) (auto simp: conn_ok_def user_ard_def)

lemma evolves_desc:
  "h b = Some (DESC par d) \<Longrightarrow> (desc_type d = DESC_TYPE_ARD \<Longrightarrow> desc_type d' = DESC_TYPE_ARD) \<Longrightarrow>
   evolves h (h(b \<mapsto> DESC par d'))"
  by (intro evolves_upd) (auto simp: conn_ok_def user_ard_def)

lemma heap_okD: "heap_ok ver h \<Longrightarrow> h b = Some x \<Longrightarrow> handle_ok ver h b x"
  by (simp add: heap_ok_def)

lemma get_stmt_Some: "get_stmt h b = Some s \<longleftrightarrow> h b = Some (STMT s)"
  by (auto simp: get_stmt_def split: option.splits handle.splits)

lemma heap_ok_stmt: "heap_ok ver h \<Longrightarrow> get_stmt h b = Some s \<Longrightarrow> stmt_ok ver h b s"
  by (auto simp: get_stmt_Some handle_ok_def dest: heap_okD)

lemma put_stmt_ok:
  assumes "heap_ok ver h" and "get_stmt h b = Some s" and "stmt_ok ver h b s'"
  shows "heap_ok ver (put_stmt h b s')"
  using assms unfolding put_stmt_def
  by (intro heap_ok_upd evolves_stmt) (auto simp: get_stmt_Some handle_ok_def)

section \<open>Descriptors in a heap\<close>

lemma get_desc_cases:
  assumes "get_desc h p = Some d"
  obtains (user) b par where "p = PTR b WHOLE" "h b = Some (DESC par d)"
    | (embedded) b m s where "p = PTR b m" "h b = Some (STMT s)" "member_desc m s = Some d"
  using assms by (cases p) (auto split: option.splits handle.splits if_splits)

text \<open>The type the descriptor of a pointer must have.\<close>

fun member_type :: "member \<Rightarrow> desc_type_et" where
  "member_type I_ARD = DESC_TYPE_ARD" | "member_type I_IRD = DESC_TYPE_IRD"
| "member_type I_APD = DESC_TYPE_APD" | "member_type I_IPD = DESC_TYPE_IPD"
| "member_type WHOLE = DESC_TYPE_ANON"

lemma stmt_member_ok:
  "stmt_ok ver h b s \<Longrightarrow> member_desc m s = Some d \<Longrightarrow> embedded_ok ver (member_type m) d"
  by (cases m) (auto simp: stmt_ok_def)

lemma with_member_ok:
  assumes "stmt_ok ver h b s" and "member_desc m s = Some d" and "embedded_ok ver (member_type m) d'"
  shows "stmt_ok ver h b (with_member m s d')"
  using assms by (cases m) (auto simp: stmt_ok_def)

lemma get_desc_ok:
  assumes "heap_ok ver h" and "get_desc h p = Some d"
  shows "desc_ok ver d"
  using assms(2)
proof (cases rule: get_desc_cases)
  case (user b par)
  then show ?thesis using heap_okD [OF assms(1), of b] by (auto simp: handle_ok_def)
next
  case (embedded b m s)
  then have "stmt_ok ver h b s"
    using heap_okD [OF assms(1), of b] by (auto simp: handle_ok_def)
  with embedded show ?thesis using stmt_member_ok by (auto simp: embedded_ok_def)
qed

lemma put_desc_ok:
  assumes "heap_ok ver h" and "get_desc h p = Some d" and "desc_ok ver d'"
    and "desc_type d' = desc_type d" and "alloc_type d' = alloc_type d"
  shows "heap_ok ver (put_desc h p d')"
  using assms(2)
proof (cases rule: get_desc_cases)
  case (user b par)
  then have "evolves h (h(b \<mapsto> DESC par d'))"
    using assms(4) by (intro evolves_desc) auto
  moreover have "handle_ok ver h b (DESC par d')"
    using heap_okD [OF assms(1) user(2)] assms(3-5) by (simp add: handle_ok_def)
  ultimately show ?thesis
    using heap_ok_upd [OF assms(1)] user by simp
next
  case (embedded b m s)
  have s: "stmt_ok ver h b s"
    using heap_okD [OF assms(1) embedded(2)] by (simp add: handle_ok_def)
  from stmt_member_ok [OF s embedded(3)] assms(3-5)
  have "stmt_ok ver h b (with_member m s d')"
    by (intro with_member_ok [OF s embedded(3)]) (simp add: embedded_ok_def)
  then show ?thesis
    using put_stmt_ok [OF assms(1), of b s] embedded by (simp add: put_stmt_def get_stmt_Some)
qed

section \<open>Calls\<close>

text \<open>A pointer to a descriptor that is there.\<close>

definition live :: "heap \<Rightarrow> ptr \<Rightarrow> bool" where
  "live h p \<longleftrightarrow> (\<exists>d. get_desc h p = Some d)"

lemma member_desc_defined: "(\<exists>d. member_desc m s = Some d) \<longleftrightarrow> m \<noteq> WHOLE"
  by (cases m) auto

lemma live_simps [simp]:
  "\<not> live h NULL"
  "live h (PTR b m) \<longleftrightarrow> (case h b of Some (DESC par d) \<Rightarrow> m = WHOLE | Some (STMT s) \<Rightarrow> m \<noteq> WHOLE | _ \<Rightarrow> False)"
  using member_desc_defined by (auto simp: live_def split: option.splits handle.splits)

text \<open>What a call may do to the heap: every statement keeps its four pointers, and every
  descriptor that was there still is.\<close>

definition grows :: "heap \<Rightarrow> heap \<Rightarrow> bool" where
  "grows h h' \<longleftrightarrow>
    (\<forall>b s. get_stmt h b = Some s \<longrightarrow> (\<exists>s'. get_stmt h' b = Some s' \<and>
       ard s' = ard s \<and> ird s' = ird s \<and> apd s' = apd s \<and> ipd s' = ipd s)) \<and>
    (\<forall>p. live h p \<longrightarrow> live h' p)"

lemma grows_refl [simp]: "grows h h"
  by (simp add: grows_def)

lemma growsD:
  "grows h h' \<Longrightarrow> get_stmt h b = Some s \<Longrightarrow> \<exists>s'. get_stmt h' b = Some s' \<and>
     ard s' = ard s \<and> ird s' = ird s \<and> apd s' = apd s \<and> ipd s' = ipd s"
  "grows h h' \<Longrightarrow> live h p \<Longrightarrow> live h' p"
  by (simp_all add: grows_def)

lemma grows_trans:
  assumes "grows h h'" and "grows h' h''"
  shows "grows h h''"
  unfolding grows_def
proof (intro conjI allI impI)
  fix b s assume "get_stmt h b = Some s"
  from growsD(1) [OF assms(1) this] growsD(1) [OF assms(2)]
  show "\<exists>s'. get_stmt h'' b = Some s' \<and>
      ard s' = ard s \<and> ird s' = ird s \<and> apd s' = apd s \<and> ipd s' = ipd s"
    by fastforce
next
  fix p assume "live h p"
  then show "live h'' p" using assms growsD(2) by blast
qed

lemma put_stmt_live:
  "get_stmt h b = Some s \<Longrightarrow> live (put_stmt h b s') p \<longleftrightarrow> live h p"
  by (cases p) (auto simp: put_stmt_def get_stmt_Some)

lemma get_put_stmt [simp]: "get_stmt (put_stmt h b s) c = (if c = b then Some s else get_stmt h c)"
  by (simp add: get_stmt_def put_stmt_def)

lemma grows_put_stmt:
  assumes "get_stmt h b = Some s"
    and "ard s' = ard s" "ird s' = ird s" "apd s' = apd s" "ipd s' = ipd s"
  shows "grows h (put_stmt h b s')"
  using assms put_stmt_live [OF assms(1), of s'] by (auto simp: grows_def)

lemma with_member_pointers [simp]:
  "ard (with_member m s d) = ard s" "ird (with_member m s d) = ird s"
  "apd (with_member m s d) = apd s" "ipd (with_member m s d) = ipd s"
  "stmt_diag (with_member m s d) = stmt_diag s"
  by (cases m; simp)+

lemma grows_put_desc:
  assumes "get_desc h p = Some d"
  shows "grows h (put_desc h p d')"
  using assms
proof (cases rule: get_desc_cases)
  case (user b par)
  have "live (h(b \<mapsto> DESC par d')) q" if "live h q" for q
    using that user(2) by (cases q) auto
  then show ?thesis
    using user by (auto simp: grows_def get_stmt_Some)
next
  case (embedded b m s)
  then have "put_desc h p d' = put_stmt h b (with_member m s d')" "get_stmt h b = Some s"
    by (auto simp: put_stmt_def get_stmt_Some)
  then show ?thesis using grows_put_stmt [of h b s] by simp
qed

text \<open>A call returns, to a well formed heap.\<close>

definition call_ok :: "wstr \<Rightarrow> heap \<Rightarrow> (heap \<times> sqlreturn) option \<Rightarrow> bool" where
  "call_ok ver h res \<longleftrightarrow> (\<exists>h' ret. res = Some (h', ret) \<and> heap_ok ver h' \<and> grows h h')"

lemma call_okI [simp]: "call_ok ver h (Some (h', ret)) \<longleftrightarrow> heap_ok ver h' \<and> grows h h'"
  by (simp add: call_ok_def)

lemma call_ok_None [simp]: "\<not> call_ok ver h None"
  by (simp add: call_ok_def)

lemma call_okE:
  assumes "call_ok ver h res"
  obtains h' ret where "res = Some (h', ret)" "heap_ok ver h'" "grows h h'"
  using assms by (auto simp: call_ok_def)

text \<open>A call that goes on after another.\<close>

lemma call_ok_bind:
  assumes "call_ok ver h res"
    and "\<And>h' ret. heap_ok ver h' \<Longrightarrow> grows h h' \<Longrightarrow> call_ok ver h' (f (h', ret))"
  shows "call_ok ver h (Option.bind res f)"
proof -
  from assms(1) obtain h' ret where h': "res = Some (h', ret)" "heap_ok ver h'" "grows h h'"
    by (rule call_okE)
  from assms(2) [OF h'(2,3), of ret] obtain h'' ret' where
    "f (h', ret) = Some (h'', ret')" "heap_ok ver h''" "grows h' h''"
    by (rule call_okE)
  then show ?thesis using h' grows_trans by auto
qed

lemma post_ok:
  "diag_ok ver d \<Longrightarrow> st < 120 \<Longrightarrow>
   post_diagnostic ver d st None 0 = Some (posted ver d st (default_message st), state_retcode (esodbc_errors ! st))"
  "diag_ok ver d \<Longrightarrow> st < 120 \<Longrightarrow> CHR 0x00 \<notin> set s \<Longrightarrow>
   post_diagnostic ver d st (Some (wlit s @ [0])) 0 =
     Some (posted ver d st (wlit s), state_retcode (esodbc_errors ! st))"
  using RET_DESC_ok [of ver "sample_desc\<lparr>desc_diag := d\<rparr>" st]
    RET_DESC_TEXT_ok [of ver "sample_desc\<lparr>desc_diag := d\<rparr>" st s]
  by (auto simp: RET_DESC_def RET_DESC_TEXT_def RET_HDIAGS_def sample_desc_def split: Option.bind_splits)

lemma stmt_ok_with_diag: "stmt_ok ver h b s \<Longrightarrow> diag_ok ver d \<Longrightarrow> stmt_ok ver h b (s\<lparr>stmt_diag := d\<rparr>)"
  by (simp add: stmt_ok_def)

lemma RET_STMT_call:
  assumes "heap_ok ver h" and "get_stmt h b = Some s" and "st < 120"
  shows "call_ok ver h (RET_STMT ver h b st)"
    and "CHR 0x00 \<notin> set msg \<Longrightarrow> call_ok ver h (RET_STMT_TEXT ver h b st msg)"
proof -
  have s: "stmt_ok ver h b s" and d: "diag_ok ver (stmt_diag s)"
    using heap_ok_stmt [OF assms(1,2)] by (auto simp: stmt_ok_def)
  have ok: "heap_ok ver (put_stmt h b (s\<lparr>stmt_diag := posted ver (stmt_diag s) st m\<rparr>)) \<and>
      grows h (put_stmt h b (s\<lparr>stmt_diag := posted ver (stmt_diag s) st m\<rparr>))" for m
    using put_stmt_ok [OF assms(1,2) stmt_ok_with_diag [OF s]] grows_put_stmt [OF assms(2)] d by simp
  show "call_ok ver h (RET_STMT ver h b st)"
    using ok post_ok(1) [OF d assms(3)] assms(2) by (simp add: RET_STMT_def RET_HDIAGS_def)
  show "call_ok ver h (RET_STMT_TEXT ver h b st msg)" if "CHR 0x00 \<notin> set msg"
    using ok post_ok(2) [OF d assms(3) that] assms(2) by (simp add: RET_STMT_TEXT_def)
qed

lemma HDIAG_COPY_call:
  assumes "heap_ok ver h" and "get_stmt h b = Some s" and "live h p"
  shows "\<exists>h'. HDIAG_COPY h p b = Some h' \<and> heap_ok ver h' \<and> grows h h'"
proof -
  obtain d where d: "get_desc h p = Some d"
    using assms(3) by (auto simp: live_def)
  have "diag_ok ver (desc_diag d)"
    using get_desc_ok [OF assms(1) d] by (rule desc_okD(3))
  then have "heap_ok ver (put_stmt h b (s\<lparr>stmt_diag := desc_diag d\<rparr>))"
    using put_stmt_ok [OF assms(1,2) stmt_ok_with_diag [OF heap_ok_stmt [OF assms(1,2)]]] by simp
  then show ?thesis
    using assms(2) d grows_put_stmt [OF assms(2)] by (simp add: HDIAG_COPY_def)
qed

section \<open>Setting a field of a descriptor in the heap\<close>

text \<open>A descriptor that a statement embeds reaches its connection's types.\<close>

lemma embedded_types_ok:
  assumes "heap_ok ver h" and "get_desc h (PTR b m) = Some d" and "m \<noteq> WHOLE"
  shows "types_ok (desc_dbc h (PTR b m))"
proof -
  obtain s where s: "h b = Some (STMT s)"
    using assms(2,3) by (auto split: option.splits handle.splits if_splits)
  then have "conn_ok h (stmt_dbc s)"
    using heap_ok_stmt [OF assms(1), of b s] by (simp add: get_stmt_Some stmt_ok_def)
  with s assms(3) show ?thesis
    by (auto simp: conn_ok_def desc_dbc_def types_ok_def split: ptr.splits member.splits option.splits handle.splits)
qed

lemma set_desc_field_call:
  assumes "heap_ok ver h" and "live h p" and "rec_no \<le> ESODBC_MAX_DESC_COUNT" and "al \<noteq> ALLOC_MOVES"
    and "f = SQL_DESC_DATA_PTR \<Longrightarrow> val \<noteq> 0 \<Longrightarrow> \<exists>b m. p = PTR b m \<and> m \<noteq> WHOLE"
  shows "call_ok ver h (set_desc_field ver al h p rec_no f val len)"
proof -
  obtain d where d: "get_desc h p = Some d"
    using assms(2) by (auto simp: live_def)
  have "types_ok (desc_dbc h p) \<or> f \<noteq> SQL_DESC_DATA_PTR \<or> val = 0"
    using assms(5) d embedded_types_ok [OF assms(1)] by blast
  then have "keeps_ok ver d (EsSQLSetDescFieldW ver (desc_dbc h p) al ALLOC_FAILS d rec_no f val [] len)"
    using set_desc_field_keeps [OF get_desc_ok [OF assms(1) d] assms(3), of al f] assms(4) by blast
  then obtain d' ret where d': "EsSQLSetDescFieldW ver (desc_dbc h p) al ALLOC_FAILS d rec_no f val [] len
      = Some (d', ret)" "desc_ok ver d'" "desc_type d' = desc_type d" "alloc_type d' = alloc_type d"
    unfolding keeps_ok_def by blast
  then show ?thesis
    using d put_desc_ok [OF assms(1) d d'(2-4)] grows_put_desc [OF d] by (simp add: set_desc_field_def)
qed

lemma stmt_pointers_live:
  assumes "heap_ok ver h" and "get_stmt h b = Some s"
  shows "live h (ard s)" and "live h (ird s)" and "live h (apd s)" and "live h (ipd s)"
proof -
  have s: "stmt_ok ver h b s" "h b = Some (STMT s)"
    using heap_ok_stmt [OF assms] assms(2) by (simp_all add: get_stmt_Some)
  then show "live h (ird s)" "live h (apd s)" "live h (ipd s)"
    by (simp_all add: stmt_ok_def)
  from s show "live h (ard s)"
    by (auto simp: stmt_ok_def user_ard_def split: ptr.splits member.splits option.splits handle.splits)
qed

text \<open>Calling on a descriptor of the statement, and copying its diagnostic if that failed.\<close>

lemma set_then_copy_call:
  assumes "heap_ok ver h" and "get_stmt h b = Some s" and "live h p" and "live h q"
    and "al \<noteq> ALLOC_MOVES" and "f \<noteq> SQL_DESC_DATA_PTR"
  shows "call_ok ver h (do {
     (h, ret) \<leftarrow> set_desc_field ver al h p NO_REC_NR f val len;
     h \<leftarrow> (if C ret then HDIAG_COPY h q b else Some h);
     Some (h, ret) })"
proof (rule call_ok_bind, goal_cases)
  case 1
  show ?case
    using set_desc_field_call [OF assms(1,3), of NO_REC_NR al f val len] assms(5,6)
    by (simp add: NO_REC_NR_def ESODBC_MAX_DESC_COUNT_def)
next
  case (2 h' ret)
  obtain s' where "get_stmt h' b = Some s'"
    using growsD(1) [OF 2(2) assms(2)] by blast
  with HDIAG_COPY_call [OF 2(1) this growsD(2) [OF 2(2) assms(4)]] 2(1)
  show ?case by auto
qed

lemma set_attr_field_call:
  assumes "heap_ok ver h" and "get_stmt h b = Some s" and "live h p" and "al \<noteq> ALLOC_MOVES"
    and "f \<noteq> SQL_DESC_DATA_PTR"
  shows "call_ok ver h (set_attr_field ver al h b p f val len)"
  unfolding set_attr_field_def using set_then_copy_call [OF assms(1-3,3-5)] .

section \<open>Resetting\<close>

definition reset_diag :: "esodbc_diag \<Rightarrow> esodbc_diag" where
  "reset_diag d = d\<lparr>state := SQL_STATE_00000, diag_text := (diag_text d)[0 := 0], text_len := 0,
     native_code := 0, row_number := - 1, column_number := - 1\<rparr>"

lemma reset_diag_ok:
  assumes "diag_ok ver d"
  shows "init_diagnostic d = Some (reset_diag d)" and "diag_ok ver (reset_diag d)"
  using assms
  by (auto simp: init_diagnostic_def reset_diag_def diag_ok_def mem_write_def SQL_MAX_MESSAGE_LENGTH_def)

lemma no_diag_ok: "ver_ok ver \<Longrightarrow> diag_ok ver no_diag"
  by (simp add: diag_ok_def no_diag_def ver_ok_def)

text \<open>A descriptor as it is allocated, and one without records.\<close>

definition new_desc :: "desc_type_et \<Rightarrow> int \<Rightarrow> esodbc_desc" where
  "new_desc ty al = \<lparr>desc_diag = reset_diag no_diag,
     desc_type = (if al = SQL_DESC_ALLOC_USER then DESC_TYPE_ANON else ty), alloc_type = al,
     array_size = 1, array_status_ptr = 0, bind_offset_ptr = 0, bind_type = 0, count = 0,
     rows_processed_ptr = 0, recs = []\<rparr>"

lemma new_desc_ok:
  assumes "ver_ok ver"
  shows "init_desc ty al = Some (new_desc ty al)" and "desc_ok ver (new_desc ty al)"
  using reset_diag_ok [OF no_diag_ok [OF assms]]
  by (simp_all add: init_desc_def new_desc_def no_diag_def desc_ok_def ESODBC_MAX_DESC_COUNT_def)

lemma new_desc_simps [simp]:
  "desc_type (new_desc ty al) = (if al = SQL_DESC_ALLOC_USER then DESC_TYPE_ANON else ty)"
  "alloc_type (new_desc ty al) = al" "recs (new_desc ty al) = []" "count (new_desc ty al) = 0"
  "array_status_ptr (new_desc ty al) = 0" "rows_processed_ptr (new_desc ty al) = 0"
  by (simp_all add: new_desc_def)

lemma free_desc_recs_ok:
  "desc_ok ver d \<Longrightarrow> desc_ok ver (free_desc_recs d)"
  "desc_type (free_desc_recs d) = desc_type d" "alloc_type (free_desc_recs d) = alloc_type d"
  by (simp_all add: desc_ok_def free_desc_recs_def ESODBC_MAX_DESC_COUNT_def)

lemma free_desc_recs_empty: "desc_ok ver d \<Longrightarrow> recs d = [] \<Longrightarrow> free_desc_recs d = d"
  by (simp add: desc_ok_def free_desc_recs_def)

text \<open>Asking for no records always works where records may be asked for.\<close>

lemma check_access_count: "dt \<noteq> DESC_TYPE_IRD \<Longrightarrow> dt \<noteq> DESC_TYPE_ANON \<Longrightarrow> check_access dt SQL_DESC_COUNT O_RDWR"
  by (cases dt) (simp_all add: check_access_def)

lemma set_count_zero:
  assumes "desc_ok ver d" and "desc_type d \<noteq> DESC_TYPE_IRD" and "desc_type d \<noteq> DESC_TYPE_ANON"
  shows "EsSQLSetDescFieldW ver dbc al sal d r SQL_DESC_COUNT 0 buf SQL_IS_SMALLINT =
    Some (free_desc_recs d, SQL_SUCCESS)"
proof -
  have "update_rec_count ver al d 0 = Some (free_desc_recs d, SQL_SUCCESS)"
    using assms(1) by (auto simp: update_rec_count_def free_desc_recs_def desc_ok_def ESODBC_MAX_DESC_COUNT_def)
  then show ?thesis
    using check_access_count [OF assms(2,3)]
    by (simp add: EsSQLSetDescFieldW_def check_buff_def is_header_field_def set_header_field_def to_i16_def)
qed

lemma free_stmt_count_eq:
  assumes "heap_ok ver h" and "get_desc h p = Some d" and "desc_type d \<noteq> DESC_TYPE_IRD"
    and "desc_type d \<noteq> DESC_TYPE_ANON"
  shows "free_stmt_count ver al h p = Some (put_desc h p (free_desc_recs d), SQL_SUCCESS)"
  using set_count_zero [OF get_desc_ok [OF assms(1,2)] assms(3,4)] assms(2)
  by (simp add: free_stmt_count_def set_desc_field_def)

section \<open>Freeing a statement's bindings, parameters and results\<close>

text \<open>Closing the cursor on the server at most posts a diagnostic on the statement.\<close>

definition cl_ok :: "wstr \<Rightarrow> (esodbc_stmt \<Rightarrow> esodbc_stmt) \<Rightarrow> bool" where
  "cl_ok ver cl \<longleftrightarrow>
    (\<forall>s. diag_ok ver (stmt_diag s) \<longrightarrow> (\<exists>d. diag_ok ver d \<and> cl s = s\<lparr>stmt_diag := d\<rparr>))"

lemma clear_ird_results_ok:
  assumes "cl_ok ver cl" and "stmt_ok ver h b s"
  shows "stmt_ok ver h b (clear_ird_results cl re s)"
    and "ard (clear_ird_results cl re s) = ard s" and "ird (clear_ird_results cl re s) = ird s"
    and "apd (clear_ird_results cl re s) = apd s" and "ipd (clear_ird_results cl re s) = ipd s"
    and "i_ird (clear_ird_results cl re s) = i_ird s"
    and "\<not> has_resultset (clear_ird_results cl re s)"
proof -
  have "diag_ok ver (stmt_diag s)"
    using assms(2) by (simp add: stmt_ok_def)
  with assms(1) obtain d where "diag_ok ver d" "cl s = s\<lparr>stmt_diag := d\<rparr>"
    unfolding cl_ok_def by blast
  note defs = this assms(2) [unfolded stmt_ok_def] clear_ird_results_def clear_resultset_def STMT_GD_RESET_def
    STMT_ROW_CNT_RESET_def Let_def stmt_ok_def
  show "stmt_ok ver h b (clear_ird_results cl re s)"
    and "ard (clear_ird_results cl re s) = ard s" and "ird (clear_ird_results cl re s) = ird s"
    and "apd (clear_ird_results cl re s) = apd s" and "ipd (clear_ird_results cl re s) = ipd s"
    and "i_ird (clear_ird_results cl re s) = i_ird s"
    and "\<not> has_resultset (clear_ird_results cl re s)"
    by (simp_all add: defs)
qed

text \<open>The statement with its results gone, and its IRD as it was when the statement was allocated.\<close>

definition closed :: "(esodbc_stmt \<Rightarrow> esodbc_stmt) \<Rightarrow> esodbc_stmt \<Rightarrow> esodbc_stmt" where
  "closed cl s = (clear_ird_results cl True s)\<lparr>i_ird := new_desc DESC_TYPE_IRD SQL_DESC_ALLOC_AUTO\<rparr>"

lemma put_put_stmt: "put_stmt (put_stmt h b s) b s' = put_stmt h b s'"
  by (simp add: put_stmt_def)

lemma clear_ird_eq:
  assumes "heap_ok ver h" and "cl_ok ver cl" and "get_stmt h b = Some s"
  shows "clear_desc cl h (PTR b I_IRD) True = Some (put_stmt h b (closed cl s))"
proof -
  have s: "stmt_ok ver h b s" and hs: "h b = Some (STMT s)"
    using heap_ok_stmt [OF assms(1,3)] assms(3) by (simp_all add: get_stmt_Some)
  have "embedded_ok ver DESC_TYPE_IRD (i_ird s)" and "ver_ok ver"
    using s assms(1) by (simp_all add: stmt_ok_def heap_ok_def)
  then show ?thesis
    using hs assms(3) clear_ird_results_ok(6) [OF assms(2) s] new_desc_ok(1)
    by (simp add: clear_desc_def put_stmt_def embedded_ok_def closed_def free_desc_recs_def Let_def)
qed

lemma closed_ok:
  assumes "heap_ok ver h" and "cl_ok ver cl" and "get_stmt h b = Some s"
  shows "heap_ok ver (put_stmt h b (closed cl s))" and "grows h (put_stmt h b (closed cl s))"
proof -
  note ok = clear_ird_results_ok [OF assms(2) heap_ok_stmt [OF assms(1,3)]]
  have "ver_ok ver" using assms(1) by (simp add: heap_ok_def)
  then have "embedded_ok ver DESC_TYPE_IRD (new_desc DESC_TYPE_IRD SQL_DESC_ALLOC_AUTO)"
    using new_desc_ok(2) by (simp add: embedded_ok_def)
  then have "stmt_ok ver h b (closed cl s)"
    using ok(1)[of True] by (simp add: closed_def stmt_ok_def)
  then show "heap_ok ver (put_stmt h b (closed cl s))"
    by (rule put_stmt_ok [OF assms(1,3)])
  show "grows h (put_stmt h b (closed cl s))"
    using ok by (intro grows_put_stmt [OF assms(3)]) (simp_all add: closed_def)
qed

text \<open>The statement without parameters.\<close>

definition without_params :: "esodbc_stmt \<Rightarrow> esodbc_stmt" where
  "without_params s = s\<lparr>stmt_diag := reset_diag (stmt_diag s),
     i_apd := free_desc_recs (i_apd s), i_ipd := free_desc_recs (i_ipd s)\<rparr>"

lemma reset_params_eq:
  assumes "heap_ok ver h" and "get_stmt h b = Some s"
  shows "reset_params ver al h b = Some (put_stmt h b (without_params s), SQL_SUCCESS)"
proof -
  let ?s1 = "s\<lparr>stmt_diag := reset_diag (stmt_diag s)\<rparr>"
  let ?s2 = "?s1\<lparr>i_apd := free_desc_recs (i_apd s)\<rparr>"
  have s: "stmt_ok ver h b s" and d: "diag_ok ver (stmt_diag s)"
    using heap_ok_stmt [OF assms] by (simp_all add: stmt_ok_def)
  have ty: "desc_type (i_apd s) = DESC_TYPE_APD" "desc_type (i_ipd s) = DESC_TYPE_IPD"
    "apd s = PTR b I_APD" "ipd s = PTR b I_IPD"
    using s by (simp_all add: stmt_ok_def embedded_ok_def)
  have h1: "heap_ok ver (put_stmt h b ?s1)"
    using put_stmt_ok [OF assms stmt_ok_with_diag [OF s reset_diag_ok(2) [OF d]]] .
  have "free_stmt_count ver al (put_stmt h b ?s1) (PTR b I_APD) =
      Some (put_stmt h b ?s2, SQL_SUCCESS)"
    using free_stmt_count_eq [OF h1, of "PTR b I_APD" "i_apd s"] ty by (simp add: put_stmt_def)
  moreover have "stmt_ok ver h b ?s2"
    using with_member_ok [OF stmt_ok_with_diag [OF s reset_diag_ok(2) [OF d]], of I_APD "i_apd s"
        "free_desc_recs (i_apd s)"] s free_desc_recs_ok by (simp add: stmt_ok_def embedded_ok_def)
  then have "heap_ok ver (put_stmt h b ?s2)"
    by (rule put_stmt_ok [OF assms])
  then have "free_stmt_count ver al (put_stmt h b ?s2) (PTR b I_IPD) =
      Some (put_stmt h b (without_params s), SQL_SUCCESS)"
    using free_stmt_count_eq [of ver "put_stmt h b ?s2" "PTR b I_IPD" "i_ipd s"] ty
    by (simp add: put_stmt_def without_params_def)
  moreover have "RET_STATE 0 = Some SQL_SUCCESS"
    by code_simp
  then have "RET_STATE (state (reset_diag d)) = Some SQL_SUCCESS" for d
    by (simp add: reset_diag_def)
  ultimately show ?thesis
    using assms(2) reset_diag_ok(1) [OF d] ty
    by (simp add: reset_params_def without_params_def SQL_SUCCEEDED_def)
qed

section \<open>The calls on a statement keep the heap well formed\<close>

definition returns_ok :: "wstr \<Rightarrow> (heap \<times> sqlreturn) option \<Rightarrow> bool" where
  "returns_ok ver res \<longleftrightarrow> (\<exists>h' ret. res = Some (h', ret) \<and> heap_ok ver h')"

lemma returns_okI [simp]: "returns_ok ver (Some (h', ret)) \<longleftrightarrow> heap_ok ver h'"
  by (simp add: returns_ok_def)

lemma call_returns_ok: "call_ok ver h res \<Longrightarrow> returns_ok ver res"
  by (auto simp: call_ok_def)

text \<open>The statement closed, detached from its query or not.\<close>

lemma close_call:
  assumes "heap_ok ver h" and "get_stmt h b = Some s" and "cl_ok ver cl"
  shows "call_ok ver h (map_option (\<lambda>h. (h, SQL_SUCCESS)) (clear_desc cl h (ird s) True))"
    and "call_ok ver h (map_option (\<lambda>h. (h, SQL_SUCCESS))
      (clear_desc cl (put_stmt h b (detach_sql s)) (ird s) True))"
proof -
  have s: "stmt_ok ver h b s" and i: "ird s = PTR b I_IRD"
    using heap_ok_stmt [OF assms(1,2)] by (simp_all add: stmt_ok_def)
  then show "call_ok ver h (map_option (\<lambda>h. (h, SQL_SUCCESS)) (clear_desc cl h (ird s) True))"
    using clear_ird_eq [OF assms(1,3,2)] closed_ok [OF assms(1,3,2)] by simp
  let ?h = "put_stmt h b (detach_sql s)"
  have "stmt_ok ver h b (detach_sql s)"
    using s by (simp add: stmt_ok_def detach_sql_def)
  then have h1: "heap_ok ver ?h" "grows h ?h" "get_stmt ?h b = Some (detach_sql s)"
    using put_stmt_ok [OF assms(1,2)] grows_put_stmt [OF assms(2)] by (simp_all add: detach_sql_def)
  from clear_ird_eq [OF h1(1) assms(3) h1(3)] closed_ok [OF h1(1) assms(3) h1(3)] grows_trans [OF h1(2)]
  show "call_ok ver h (map_option (\<lambda>h. (h, SQL_SUCCESS))
      (clear_desc cl (put_stmt h b (detach_sql s)) (ird s) True))"
    using i by simp
qed

lemma free_stmt_call:
  assumes "heap_ok ver h" and "get_stmt h b = Some s" and "cl_ok ver cl" and "al \<noteq> ALLOC_MOVES"
  shows "call_ok ver h (EsSQLFreeStmt ver cl al h b opt)"
proof (cases opt)
  case SQL_CLOSE
  then show ?thesis using close_call(1) [OF assms(1-3)] assms(2) by (simp add: EsSQLFreeStmt_def)
next
  case ESODBC_SQL_CLOSE
  then show ?thesis using close_call(2) [OF assms(1-3)] assms(2) by (simp add: EsSQLFreeStmt_def)
next
  case SQL_UNBIND
  have "call_ok ver h (do {
     (h, ret) \<leftarrow> set_desc_field ver al h (ard s) NO_REC_NR SQL_DESC_COUNT 0 SQL_IS_SMALLINT;
     h \<leftarrow> (if ret \<noteq> SQL_SUCCESS then HDIAG_COPY h (ard s) b else Some h);
     Some (h, ret) })"
    using stmt_pointers_live(1) [OF assms(1,2)] assms(4)
    by (intro set_then_copy_call [OF assms(1,2)]) simp_all
  with SQL_UNBIND assms(2) show ?thesis by (simp add: EsSQLFreeStmt_def free_stmt_count_def)
next
  case SQL_RESET_PARAMS
  have "stmt_ok ver h b (without_params s)"
    using heap_ok_stmt [OF assms(1,2)] free_desc_recs_ok reset_diag_ok(2)
    by (simp add: stmt_ok_def embedded_ok_def without_params_def)
  then have "heap_ok ver (put_stmt h b (without_params s)) \<and> grows h (put_stmt h b (without_params s))"
    using put_stmt_ok [OF assms(1,2)] grows_put_stmt [OF assms(2)] by (simp add: without_params_def)
  then show ?thesis
    using SQL_RESET_PARAMS reset_params_eq [OF assms(1,2)] assms(2) by (simp add: EsSQLFreeStmt_def)
next
  case (SQL_FREE_OTHER n)
  then show ?thesis using RET_STMT_call(1) [OF assms(1,2)] assms(2) by (simp add: EsSQLFreeStmt_def)
qed (use assms in \<open>simp add: EsSQLFreeStmt_def\<close>)

lemma close_cursor_call:
  assumes "heap_ok ver h" and "get_stmt h b = Some s" and "cl_ok ver cl" and "al \<noteq> ALLOC_MOVES"
  shows "call_ok ver h (EsSQLCloseCursor ver cl al h b)"
  using free_stmt_call [OF assms] RET_STMT_call(1) [OF assms(1,2)] assms(2)
  by (simp add: EsSQLCloseCursor_def)

text \<open>A descriptor of no type has no typed record, so it can be given one. Making a descriptor the
  statement's ARD does.\<close>

lemma desc_ok_typed:
  "desc_ok ver d \<Longrightarrow> desc_type d = DESC_TYPE_ANON \<or> desc_type d = ty \<Longrightarrow>
   desc_ok ver (d\<lparr>desc_type := ty\<rparr>)"
  by (auto simp: desc_ok_def rec_ok_def concise_to_meta_def)

lemma set_app_row_desc_ok:
  assumes "heap_ok ver h" and "get_stmt h b = Some s" and "hv = NULL \<or> live h hv"
  shows "returns_ok ver (set_app_row_desc ver h b hv)"
proof (cases "hv = ard s \<or> hv = PTR b I_ARD \<or> hv = NULL")
  case True
  have "stmt_ok ver h b (s\<lparr>ard := PTR b I_ARD\<rparr>)"
    using heap_ok_stmt [OF assms(1,2)] by (simp add: stmt_ok_def)
  with True show ?thesis
    using assms(1,2) put_stmt_ok [OF assms(1,2)] by (auto simp: set_app_row_desc_def)
next
  case other: False
  then obtain d where d: "get_desc h hv = Some d"
    using assms(3) by (auto simp: live_def)
  show ?thesis
  proof (cases "alloc_type d \<noteq> SQL_DESC_ALLOC_AUTO \<and> (desc_type d = DESC_TYPE_ANON \<or> desc_type d = DESC_TYPE_ARD)")
    case False
    then show ?thesis
      using other d assms(2) call_returns_ok [OF RET_STMT_call(1) [OF assms(1,2)]]
      by (auto simp: set_app_row_desc_def)
  next
    case True
    from d obtain c par where c: "hv = PTR c WHOLE" "h c = Some (DESC par d)"
    proof (cases rule: get_desc_cases)
      case (embedded c m s')
      then have "alloc_type d = SQL_DESC_ALLOC_AUTO"
        using heap_okD [OF assms(1) embedded(2)] stmt_member_ok [OF _ embedded(3)]
        by (fastforce simp: handle_ok_def embedded_ok_def)
      with True show ?thesis by simp
    qed
    let ?h = "h(c \<mapsto> DESC par (d\<lparr>desc_type := DESC_TYPE_ARD\<rparr>))"
    have "handle_ok ver h c (DESC par (d\<lparr>desc_type := DESC_TYPE_ARD\<rparr>))"
      using heap_okD [OF assms(1) c(2)] by (simp add: handle_ok_def desc_ok_typed)
    then have h1: "heap_ok ver ?h"
      using c(2) by (intro heap_ok_upd [OF assms(1)] evolves_desc) simp_all
    have s1: "get_stmt ?h b = Some s"
      using assms(2) c(2) by (auto simp: get_stmt_def)
    have "stmt_ok ver ?h b (s\<lparr>ard := hv\<rparr>)"
      using heap_ok_stmt [OF h1 s1] c(1) by (simp add: stmt_ok_def user_ard_upd)
    then have "heap_ok ver (put_stmt ?h b (s\<lparr>ard := hv\<rparr>))"
      by (rule put_stmt_ok [OF h1 s1])
    then show ?thesis
      using other d True c s1 assms(2) by (simp add: set_app_row_desc_def)
  qed
qed


lemma attr_field_live:
  assumes "heap_ok ver h" and "get_stmt h b = Some s" and "attr_field attr = Some (desc, f)"
  shows "live h (desc s)" and "f \<noteq> SQL_DESC_DATA_PTR" and "is_header_field f"
  using assms(3) stmt_pointers_live [OF assms(1,2)]
  by (auto simp: attr_field_def is_header_field_def split: stmt_attr.splits)

lemma attr_fixed_state: "attr_fixed attr = Some (v, st) \<Longrightarrow> st < 120"
  by (auto simp: attr_fixed_def split: stmt_attr.splits)

lemma put_attr_call:
  assumes "heap_ok ver h" and "get_stmt h b = Some s"
  shows "call_ok ver h (Some (put_stmt h b (s\<lparr>metadata_id := n\<rparr>), SQL_SUCCESS))"
    and "call_ok ver h (Some (put_stmt h b (s\<lparr>max_length := n\<rparr>), SQL_SUCCESS))"
    and "call_ok ver h (Some (put_stmt h b (s\<lparr>query_timeout := n\<rparr>), SQL_SUCCESS))"
proof -
  have "stmt_ok ver h b (s\<lparr>metadata_id := n\<rparr>)" "stmt_ok ver h b (s\<lparr>max_length := n\<rparr>)"
    "stmt_ok ver h b (s\<lparr>query_timeout := n\<rparr>)"
    using heap_ok_stmt [OF assms] by (simp_all add: stmt_ok_def)
  then show "call_ok ver h (Some (put_stmt h b (s\<lparr>metadata_id := n\<rparr>), SQL_SUCCESS))"
    "call_ok ver h (Some (put_stmt h b (s\<lparr>max_length := n\<rparr>), SQL_SUCCESS))"
    "call_ok ver h (Some (put_stmt h b (s\<lparr>query_timeout := n\<rparr>), SQL_SUCCESS))"
    using put_stmt_ok [OF assms] grows_put_stmt [OF assms(2)] by simp_all
qed

lemma set_stmt_attr_returns:
  assumes "heap_ok ver h" and "get_stmt h b = Some s" and "al \<noteq> ALLOC_MOVES"
    and "hv = NULL \<or> live h hv"
  shows "returns_ok ver (EsSQLSetStmtAttrW ver al h b attr val hv len)"
proof -
  note post = RET_STMT_call [OF assms(1,2), THEN call_returns_ok]
  note put = put_attr_call [OF assms(1,2), THEN call_returns_ok]
  consider (field) desc f where "attr_field attr = Some (desc, f)"
    | (fixed) v st where "attr_field attr = None" "attr_fixed attr = Some (v, st)"
    | (long) "attr = SQL_ATTR_MAX_LENGTH"
    | (own) "attr_field attr = None" "attr_fixed attr = None" "attr \<noteq> SQL_ATTR_MAX_LENGTH"
    by (cases "attr_field attr"; cases "attr_fixed attr") auto
  then show ?thesis
  proof cases
    case field
    show ?thesis
      using set_attr_field_call [OF assms(1,2) attr_field_live(1) [OF assms(1,2) field] assms(3)
          attr_field_live(2) [OF assms(1,2) field], THEN call_returns_ok] assms(2) field
      by (simp add: EsSQLSetStmtAttrW_def)
  next
    case fixed
    then show ?thesis
      using post(1) attr_fixed_state [OF fixed(2)] assms(1,2) by (simp add: EsSQLSetStmtAttrW_def)
  next
    case long
    then have "heap_ok ver (put_stmt h b (s\<lparr>max_length := n\<rparr>))" for n
      using put(2) by simp
    from RET_STMT_call(1) [OF this, THEN call_returns_ok] this
    have "returns_ok ver (RET_STMT ver (put_stmt h b (s\<lparr>max_length := n\<rparr>)) b SQL_STATE_01S02)"
      "heap_ok ver (put_stmt h b (s\<lparr>max_length := n\<rparr>))" for n
      by simp_all
    with long show ?thesis
      using assms(2) by (simp add: EsSQLSetStmtAttrW_def attr_field_def attr_fixed_def Let_def)
  next
    case own
    then show ?thesis
      using post put set_app_row_desc_ok [OF assms(1,2,4)] assms(1,2)
      by (cases attr) (simp_all add: EsSQLSetStmtAttrW_def attr_field_def attr_fixed_def Let_def)
  qed
qed

end
