(* ===== verification/Handles_Api.thy ===== *)
theory Handles_Api
imports Handles_Steps
begin

text \<open>
  The calls an application makes through the driver manager, as steps between heaps, and what
  holds in every heap they lead to. The driver manager sees to it that a call gets a handle of
  its kind that is still allocated, that statements are allocated on connections that are
  connected, and that a connection with statements is not freed. It does not know which
  descriptor a statement uses, so freeing one in use is looked at apart, after the steps.
\<close>

section \<open>Allocation\<close>

lemma new_handle_ok:
  assumes "heap_ok ver h" and "h b = None" and "ty = SQL_HANDLE_STMT \<Longrightarrow> conn_ok h input"
    and "new_handle h ty input b = Some x"
  shows "heap_ok ver (h(b \<mapsto> x))"
proof -
  have v: "ver_ok ver" using assms(1) by (simp add: heap_ok_def)
  note diag = reset_diag_ok [OF no_diag_ok [OF v]]
  note desc = new_desc_ok [OF v]
  have ev: "evolves h (h(b \<mapsto> x))"
    using assms(2) by (intro evolves_stmt) simp
  have "handle_ok ver h b x"
  proof (cases ty)
    case SQL_HANDLE_STMT
    then have "conn_ok h input" "map_option STMT (init_stmt h b input) = Some x"
      using assms(3,4) by (simp_all add: new_handle_def)
    then show ?thesis
      using diag desc
      by (auto simp: handle_ok_def stmt_ok_def embedded_ok_def init_stmt_def conn_ok_def
          split: ptr.splits member.splits option.splits handle.splits)
  qed (use assms(4) diag desc in
      \<open>auto simp: new_handle_def init_env_def init_dbc_def handle_ok_def\<close>)
  with ev show ?thesis by (intro heap_ok_upd [OF assms(1)])
qed

lemma RET_HANDLE_ok:
  assumes "heap_ok ver h" and "RET_HANDLE ver h p st msg = Some (h', ret)"
    and "msg = None \<or> (\<exists>s. msg = Some (wlit s @ [0]) \<and> CHR 0x00 \<notin> set s)" and "st < 120"
  shows "heap_ok ver h'"
proof -
  have post: "\<exists>m. post_diagnostic ver d st msg 0 = Some (posted ver d st m, state_retcode (esodbc_errors ! st))"
    if "diag_ok ver d" for d
    using assms(3) post_ok [OF that assms(4)] by auto
  obtain b where p: "p = PTR b WHOLE"
    using assms(2) by (auto simp: RET_HANDLE_def split: ptr.splits member.splits)
  consider (env) e where "h b = Some (ENV e)" | (dbc) c where "h b = Some (DBC c)"
    using assms(2) p by (auto simp: RET_HANDLE_def split: option.splits handle.splits)
  then show ?thesis
  proof cases
    case env
    then have d: "diag_ok ver (env_diag e)"
      using heap_okD [OF assms(1)] by (force simp: handle_ok_def)
    with post obtain m where "h' = h(b \<mapsto> ENV (e\<lparr>env_diag := posted ver (env_diag e) st m\<rparr>))"
      using assms(2) p env by (fastforce simp: RET_HANDLE_def)
    then show ?thesis
      using d env by (auto intro!: heap_ok_upd [OF assms(1)] evolves_upd simp: handle_ok_def conn_ok_def user_ard_def)
  next
    case dbc
    then have d: "diag_ok ver (dbc_diag c)"
      using heap_okD [OF assms(1)] by (force simp: handle_ok_def)
    with post obtain m where "h' = h(b \<mapsto> DBC (c\<lparr>dbc_diag := posted ver (dbc_diag c) st m\<rparr>))"
      using assms(2) p dbc by (fastforce simp: RET_HANDLE_def)
    then show ?thesis
      using d dbc by (auto intro!: heap_ok_upd [OF assms(1)] evolves_upd simp: handle_ok_def conn_ok_def user_ard_def)
  qed
qed

lemma alloc_handle_ok:
  assumes "heap_ok ver h" and "\<And>b. block = Some b \<Longrightarrow> h b = None"
    and "ty = SQL_HANDLE_STMT \<Longrightarrow> conn_ok h input"
    and "EsSQLAllocHandle ver block h ty input out = Some (h', p, ret)"
  shows "heap_ok ver h'"
proof -
  consider (same) "h' = h"
    | (posted) st msg where "RET_HANDLE ver h input st msg = Some (h', ret)" "st < 120"
        "msg = None \<or> (\<exists>s. msg = Some (wlit s @ [0]) \<and> CHR 0x00 \<notin> set s)"
    | (new) b x where "block = Some b" "new_handle h ty input b = Some x" "h' = h(b \<mapsto> x)"
    using assms(4)
    by (fastforce simp: EsSQLAllocHandle_def Let_def
        split: if_splits option.splits ptr.splits member.splits handle_type.splits handle.splits Option.bind_splits)
  then show ?thesis
  proof cases
    case new
    then show ?thesis using new_handle_ok [OF assms(1) assms(2) [OF new(1)] assms(3)] by simp
  qed (use assms(1) RET_HANDLE_ok [OF assms(1)] in auto)
qed

section \<open>Freeing\<close>

lemma put_desc_cleared:
  assumes "heap_ok ver h" and "get_desc h p = Some d"
  shows "heap_ok ver (put_desc h p (if recs d \<noteq> [] then free_desc_recs d else d))"
    and "grows h (put_desc h p (if recs d \<noteq> [] then free_desc_recs d else d))"
  using put_desc_ok [OF assms] free_desc_recs_ok get_desc_ok [OF assms] grows_put_desc [OF assms(2)]
  by simp_all

lemma clear_desc_live:
  assumes "heap_ok ver h" and "live h p" and "cl_ok ver cl"
  shows "\<exists>h'. clear_desc cl h p False = Some h' \<and> heap_ok ver h' \<and> grows h h'"
proof -
  obtain d where d: "get_desc h p = Some d"
    using assms(2) by (auto simp: live_def)
  show ?thesis
  proof (cases "desc_type d = DESC_TYPE_IRD")
    case False
    then show ?thesis
      using d put_desc_cleared [OF assms(1) d] by (simp add: clear_desc_def)
  next
    case True
    from d obtain b s where s: "p = PTR b I_IRD" "h b = Some (STMT s)"
    proof (cases rule: get_desc_cases)
      case (user b par)
      then show ?thesis using True heap_okD [OF assms(1)] by (force simp: handle_ok_def)
    next
      case (embedded b m s)
      then have "desc_type d = member_type m"
        using stmt_member_ok [OF _ embedded(3)] heap_okD [OF assms(1)]
        by (fastforce simp: handle_ok_def embedded_ok_def)
      with True embedded that show ?thesis by (cases m) auto
    qed
    let ?s = "clear_ird_results cl False s"
    have st: "get_stmt h b = Some s" using s by (simp add: get_stmt_Some)
    note ok = clear_ird_results_ok [OF assms(3) heap_ok_stmt [OF assms(1) st]]
    have h1: "heap_ok ver (put_stmt h b ?s)" "grows h (put_stmt h b ?s)"
      using put_stmt_ok [OF assms(1) st ok(1)] grows_put_stmt [OF st] ok by simp_all
    have d1: "get_desc (put_stmt h b ?s) p = Some (i_ird s)"
      using s ok(6) by (simp add: put_stmt_def)
    have par: "hdr_parent h p = Some (PTR b WHOLE)"
      using s by simp
    have "clear_desc cl h p False =
        Some (put_desc (put_stmt h b ?s) p (if recs (i_ird s) \<noteq> [] then free_desc_recs (i_ird s) else i_ird s))"
      using d d1 True st par by (simp add: clear_desc_def Let_def del: get_desc.simps put_desc.simps hdr_parent.simps)
    then show ?thesis
      using put_desc_cleared [OF h1(1) d1] grows_trans [OF h1(2)] by blast
  qed
qed

lemma free_handle_stmt_ok:
  assumes "heap_ok ver h" and "get_stmt h b = Some s" and "cl_ok ver cl"
  shows "\<exists>h'. free_handle_stmt cl h b = Some h' \<and> heap_ok ver h' \<and> grows h h'"
proof -
  let ?h0 = "put_stmt h b (detach_sql s)"
  have "stmt_ok ver h b (detach_sql s)"
    using heap_ok_stmt [OF assms(1,2)] by (simp add: stmt_ok_def detach_sql_def)
  then have h0: "heap_ok ver ?h0" "grows h ?h0"
    using put_stmt_ok [OF assms(1,2)] grows_put_stmt [OF assms(2)] by (simp_all add: detach_sql_def)
  note live = stmt_pointers_live [OF assms(1,2)]
  obtain h1 where h1: "clear_desc cl ?h0 (ard s) False = Some h1" "heap_ok ver h1" "grows h h1"
    using clear_desc_live [OF h0(1) growsD(2) [OF h0(2) live(1)] assms(3)] grows_trans [OF h0(2)] by blast
  obtain h2 where h2: "clear_desc cl h1 (ird s) False = Some h2" "heap_ok ver h2" "grows h h2"
    using clear_desc_live [OF h1(2) growsD(2) [OF h1(3) live(2)] assms(3)] grows_trans [OF h1(3)] by blast
  obtain h3 where h3: "clear_desc cl h2 (apd s) False = Some h3" "heap_ok ver h3" "grows h h3"
    using clear_desc_live [OF h2(2) growsD(2) [OF h2(3) live(3)] assms(3)] grows_trans [OF h2(3)] by blast
  obtain h4 where h4: "clear_desc cl h3 (ipd s) False = Some h4" "heap_ok ver h4" "grows h h4"
    using clear_desc_live [OF h3(2) growsD(2) [OF h3(3) live(4)] assms(3)] grows_trans [OF h3(3)] by blast
  show ?thesis
    using h1 h2 h3 h4 assms(2) by (simp add: free_handle_stmt_def)
qed

text \<open>A block that no other handle refers to can go.\<close>

definition unreferenced :: "heap \<Rightarrow> nat \<Rightarrow> bool" where
  "unreferenced h b \<longleftrightarrow>
    (\<forall>c s. get_stmt h c = Some s \<longrightarrow> ard s \<noteq> PTR b WHOLE \<and> stmt_dbc s \<noteq> PTR b WHOLE)"

lemma drop_block_ok:
  assumes "heap_ok ver h" and "unreferenced h b"
  shows "heap_ok ver (h(b := None))"
proof -
  have conn: "conn_ok (h(b := None)) p = (p \<noteq> PTR b WHOLE \<and> conn_ok h p)"
    and user: "user_ard (h(b := None)) p = (p \<noteq> PTR b WHOLE \<and> user_ard h p)" for p
    by (auto simp: conn_ok_def user_ard_def split: ptr.splits member.splits)
  have "handle_ok ver (h(b := None)) c x" if "h c = Some x" for c x
  proof (cases x)
    case (STMT s)
    then have "ard s \<noteq> PTR b WHOLE \<and> stmt_dbc s \<noteq> PTR b WHOLE"
      using assms(2) that by (auto simp: unreferenced_def get_stmt_Some)
    then show ?thesis
      using STMT heap_okD [OF assms(1) that] by (auto simp: handle_ok_def stmt_ok_def conn user)
  qed (use heap_okD [OF assms(1) that] in \<open>simp_all add: handle_ok_def\<close>)
  then show ?thesis
    using assms(1) by (simp add: heap_ok_def)
qed

lemma stmt_unreferenced:
  assumes "heap_ok ver h" and "get_stmt h b = Some s"
  shows "unreferenced h b"
  unfolding unreferenced_def
proof (intro allI impI)
  fix c s' assume "get_stmt h c = Some s'"
  then have "stmt_ok ver h c s'" by (rule heap_ok_stmt [OF assms(1)])
  then show "ard s' \<noteq> PTR b WHOLE \<and> stmt_dbc s' \<noteq> PTR b WHOLE"
    using assms(2) by (auto simp: stmt_ok_def conn_ok_def user_ard_def get_stmt_Some)
qed

lemma free_stmt_handle_ok:
  assumes "heap_ok ver h" and "get_stmt h b = Some s" and "cl_ok ver cl"
  shows "\<exists>h'. EsSQLFreeHandle cl h SQL_HANDLE_STMT (PTR b WHOLE) = Some (h', SQL_SUCCESS) \<and>
    heap_ok ver h' \<and> h' b = None"
proof -
  obtain h1 where h1: "free_handle_stmt cl h b = Some h1" "heap_ok ver h1" "grows h h1"
    using free_handle_stmt_ok [OF assms] by blast
  obtain s1 where s1: "get_stmt h1 b = Some s1"
    using growsD(1) [OF h1(3) assms(2)] by blast
  have "heap_ok ver (h1(b := None))"
    by (rule drop_block_ok [OF h1(2) stmt_unreferenced [OF h1(2) s1]])
  then show ?thesis
    using h1(1) s1 by (simp add: EsSQLFreeHandle_def get_stmt_Some)
qed

section \<open>Steps and reachable heaps\<close>

inductive api_step :: "wstr \<Rightarrow> heap \<Rightarrow> heap \<Rightarrow> bool" for ver where
  alloc_handle: "EsSQLAllocHandle ver block h ty input out = Some (h', p, ret) \<Longrightarrow>
    (\<And>b. block = Some b \<Longrightarrow> h b = None) \<Longrightarrow> (ty = SQL_HANDLE_STMT \<Longrightarrow> conn_ok h input) \<Longrightarrow>
    api_step ver h h'"
| connect: "h b = Some (DBC c) \<Longrightarrow> max_float_type types \<noteq> None \<Longrightarrow>
    api_step ver h (h(b \<mapsto> DBC (c\<lparr>dbc_types := types\<rparr>)))"
| set_env_attr: "h b = Some (ENV e) \<Longrightarrow> EsSQLSetEnvAttr ver e attr val = Some (e', ret) \<Longrightarrow>
    api_step ver h (h(b \<mapsto> ENV e'))"
| set_stmt_attr: "get_stmt h b = Some s \<Longrightarrow> hv = NULL \<or> live h hv \<Longrightarrow> al \<noteq> ALLOC_MOVES \<Longrightarrow>
    EsSQLSetStmtAttrW ver al h b attr val hv len = Some (h', ret) \<Longrightarrow> api_step ver h h'"
| set_field: "live h p \<Longrightarrow> rec_no \<le> ESODBC_MAX_DESC_COUNT \<Longrightarrow> al \<noteq> ALLOC_MOVES \<Longrightarrow>
    (f = SQL_DESC_DATA_PTR \<Longrightarrow> val \<noteq> 0 \<Longrightarrow> \<exists>b m. p = PTR b m \<and> m \<noteq> WHOLE) \<Longrightarrow>
    set_desc_field ver al h p rec_no f val len = Some (h', ret) \<Longrightarrow> api_step ver h h'"
| free_stmt: "get_stmt h b = Some s \<Longrightarrow> cl_ok ver cl \<Longrightarrow> al \<noteq> ALLOC_MOVES \<Longrightarrow>
    EsSQLFreeStmt ver cl al h b opt = Some (h', ret) \<Longrightarrow> api_step ver h h'"
| close_cursor: "get_stmt h b = Some s \<Longrightarrow> cl_ok ver cl \<Longrightarrow> al \<noteq> ALLOC_MOVES \<Longrightarrow>
    EsSQLCloseCursor ver cl al h b = Some (h', ret) \<Longrightarrow> api_step ver h h'"
| free_stmt_handle: "get_stmt h b = Some s \<Longrightarrow> cl_ok ver cl \<Longrightarrow>
    EsSQLFreeHandle cl h SQL_HANDLE_STMT (PTR b WHOLE) = Some (h', ret) \<Longrightarrow> api_step ver h h'"
| free_desc_handle: "h b = Some (DESC par d) \<Longrightarrow> unreferenced h b \<Longrightarrow> cl_ok ver cl \<Longrightarrow>
    EsSQLFreeHandle cl h SQL_HANDLE_DESC (PTR b WHOLE) = Some (h', ret) \<Longrightarrow> api_step ver h h'"
| free_dbc_handle: "h b = Some (DBC c) \<Longrightarrow> unreferenced h b \<Longrightarrow>
    EsSQLFreeHandle cl h SQL_HANDLE_DBC (PTR b WHOLE) = Some (h', ret) \<Longrightarrow> api_step ver h h'"
| free_env_handle: "h b = Some (ENV e) \<Longrightarrow>
    EsSQLFreeHandle cl h SQL_HANDLE_ENV (PTR b WHOLE) = Some (h', ret) \<Longrightarrow> api_step ver h h'"

inductive reachable :: "wstr \<Rightarrow> heap \<Rightarrow> bool" for ver where
  start: "reachable ver (\<lambda>_. None)"
| step: "reachable ver h \<Longrightarrow> api_step ver h h' \<Longrightarrow> reachable ver h'"

inductive_cases api_stepE: "api_step ver h h'"

lemma set_env_attr_ok:
  assumes "diag_ok ver (env_diag e)" and "EsSQLSetEnvAttr ver e attr val = Some (e', ret)"
  shows "diag_ok ver (env_diag e')"
proof -
  have post: "\<exists>m. post_diagnostic ver (env_diag e) st (Some (wlit s @ [0])) 0 =
      Some (posted ver (env_diag e) st m, state_retcode (esodbc_errors ! st))"
    if "st < 120" "CHR 0x00 \<notin> set s" for st s
    using post_ok(2) [OF assms(1) that] by blast
  have with_text: "diag_ok ver (env_diag e')"
    if "RET_ENV_TEXT ver e st s = Some (e', ret)" "st < 120" "CHR 0x00 \<notin> set s" for st s
    using that(1) post [OF that(2,3)] assms(1) by (auto simp: RET_ENV_TEXT_def)
  show ?thesis
    using assms by (auto simp: EsSQLSetEnvAttr_def split: env_attr.splits if_splits intro: with_text)
qed

lemma returns_okD: "returns_ok ver res \<Longrightarrow> res = Some (h', ret) \<Longrightarrow> heap_ok ver h'"
  by (simp add: returns_ok_def)

text \<open>Freeing a descriptor, a connection or an environment that no statement refers to.\<close>

lemma free_block_ok:
  assumes "heap_ok ver h" and "h b = Some x" and "unreferenced h b" and "cl_ok ver cl \<or> ty \<noteq> SQL_HANDLE_DESC"
    and "case x of ENV e \<Rightarrow> ty = SQL_HANDLE_ENV | DBC c \<Rightarrow> ty = SQL_HANDLE_DBC
      | DESC par d \<Rightarrow> ty = SQL_HANDLE_DESC | STMT s \<Rightarrow> False"
    and "EsSQLFreeHandle cl h ty (PTR b WHOLE) = Some (h', ret)"
  shows "heap_ok ver h'"
proof (cases x)
  case (DESC par d)
  then have ty: "ty = SQL_HANDLE_DESC" and d: "get_desc h (PTR b WHOLE) = Some d"
    using assms(2,5) by simp_all
  let ?h = "put_desc h (PTR b WHOLE) (if recs d \<noteq> [] then free_desc_recs d else d)"
  have "desc_type d \<noteq> DESC_TYPE_IRD"
    using heap_okD [OF assms(1,2)] DESC by (auto simp: handle_ok_def)
  then have "clear_desc cl h (PTR b WHOLE) False = Some ?h"
    using d by (simp add: clear_desc_def Let_def del: get_desc.simps put_desc.simps)
  then have "h' = ?h(b := None)"
    using assms(6) ty by (simp add: EsSQLFreeHandle_def split: if_splits)
  moreover have "?h(b := None) = h(b := None)"
    using assms(2) DESC by auto
  ultimately show ?thesis
    using drop_block_ok [OF assms(1,3)] by simp
qed (use assms(5,6) drop_block_ok [OF assms(1,3)] in \<open>auto simp: EsSQLFreeHandle_def split: if_splits\<close>)

lemma env_unreferenced: "heap_ok ver h \<Longrightarrow> h b = Some (ENV e) \<Longrightarrow> unreferenced h b"
  by (auto simp: unreferenced_def conn_ok_def user_ard_def stmt_ok_def dest!: heap_ok_stmt)

lemma api_step_ok:
  assumes "api_step ver h h'" and "heap_ok ver h"
  shows "heap_ok ver h'"
  using assms(1)
proof cases
  case alloc_handle
  then show ?thesis using alloc_handle_ok [OF assms(2)] by blast
next
  case (connect b c types)
  then have "evolves h h'" "handle_ok ver h b (DBC (c\<lparr>dbc_types := types\<rparr>))"
    using heap_okD [OF assms(2) connect(2)]
    by (auto intro!: evolves_upd simp: handle_ok_def conn_ok_def user_ard_def)
  with connect(1) show ?thesis using heap_ok_upd [OF assms(2)] by simp
next
  case (set_env_attr b e attr val e' ret)
  then have "evolves h h'" "handle_ok ver h b (ENV e')"
    using heap_okD [OF assms(2) set_env_attr(2)] set_env_attr_ok
    by (auto intro!: evolves_upd simp: handle_ok_def conn_ok_def user_ard_def)
  with set_env_attr(1) show ?thesis using heap_ok_upd [OF assms(2)] by simp
next
  case set_stmt_attr
  then show ?thesis using set_stmt_attr_returns [OF assms(2)] returns_okD by blast
next
  case set_field
  show ?thesis
    by (rule returns_okD [OF call_returns_ok [OF set_desc_field_call [OF assms(2) set_field(1-4)]] set_field(5)])
next
  case free_stmt
  then show ?thesis using free_stmt_call [OF assms(2)] call_returns_ok returns_okD by blast
next
  case close_cursor
  then show ?thesis using close_cursor_call [OF assms(2)] call_returns_ok returns_okD by blast
next
  case free_stmt_handle
  then show ?thesis using free_stmt_handle_ok [OF assms(2)] by fastforce
next
  case free_desc_handle
  show ?thesis
    by (rule free_block_ok [OF assms(2) free_desc_handle(1,2) _ _ free_desc_handle(4)])
      (use free_desc_handle in simp_all)
next
  case free_dbc_handle
  show ?thesis
    by (rule free_block_ok [OF assms(2) free_dbc_handle(1,2) _ _ free_dbc_handle(3)]) simp_all
next
  case free_env_handle
  show ?thesis
    by (rule free_block_ok [OF assms(2) free_env_handle(1) env_unreferenced [OF assms(2)] _ _ free_env_handle(2)])
      (use free_env_handle in simp_all)
qed

lemma reachable_ok: "reachable ver h \<Longrightarrow> ver_ok ver \<Longrightarrow> heap_ok ver h"
  by (induction rule: reachable.induct) (auto simp: heap_ok_def [of ver "\<lambda>_. None"] intro: api_step_ok)

text \<open>A statement on a connection, from nothing: environment, version, connection, connecting.\<close>

lemma sample_reachable:
  "\<exists>h s. reachable (wlit ''1.0'') h \<and> get_stmt h 2 = Some s \<and> i_ard s = new_desc DESC_TYPE_ARD SQL_DESC_ALLOC_AUTO \<and>
    ard s = PTR 2 I_ARD \<and> i_apd s = new_desc DESC_TYPE_APD SQL_DESC_ALLOC_AUTO \<and>
    i_ipd s = new_desc DESC_TYPE_IPD SQL_DESC_ALLOC_AUTO \<and> desc_dbc h (PTR 2 I_ARD) = Some sample_types \<and>
    h 3 = None \<and> (\<exists>c. h 1 = Some (DBC c))"
proof -
  define v where "v = wlit ''1.0''"
  define dg where "dg = reset_diag no_diag"
  define e where "e n = \<lparr>env_diag = dg, env_version = n\<rparr>" for n :: int
  define d where "d t = \<lparr>dbc_diag = dg, dbc_env = PTR 0 WHOLE, dbc_metadata_id = 0, dbc_types = t\<rparr>" for t
  let ?none = "\<lparr>es_types = [], max_varchar_type = None, max_float_type = None\<rparr>"
  have v: "ver_ok v"
    by (simp add: v_def ver_ok_def) code_simp
  have dg: "init_diagnostic no_diag = Some dg"
    using reset_diag_ok(1) [OF no_diag_ok [OF v]] by (simp add: dg_def)
  let ?h0 = "(\<lambda>_. None)(0 \<mapsto> ENV (e 0))" let ?h1 = "?h0(0 \<mapsto> ENV (e 3))"
  let ?h2 = "?h1(1 \<mapsto> DBC (d ?none))" let ?h3 = "?h2(1 \<mapsto> DBC (d sample_types))"
  have a0: "api_step v (\<lambda>_. None) ?h0"
    using dg by (intro alloc_handle [of _ "Some 0" _ SQL_HANDLE_ENV NULL True])
      (simp_all add: EsSQLAllocHandle_def new_handle_def init_env_def e_def)
  have a1: "api_step v ?h0 ?h1"
    by (intro set_env_attr [of _ _ "e 0" _ SQL_ATTR_ODBC_VERSION 3]) (simp_all add: EsSQLSetEnvAttr_def e_def)
  have a2: "api_step v ?h1 ?h2"
    using dg by (intro alloc_handle [of _ "Some 1" _ SQL_HANDLE_DBC "PTR 0 WHOLE" True])
      (simp_all add: EsSQLAllocHandle_def new_handle_def init_dbc_def e_def d_def)
  have a3: "api_step v ?h2 ?h3"
    using connect [of ?h2 1 "d ?none" sample_types v] by (simp add: sample_types_def d_def)
  note r3 = reachable.step [OF reachable.step [OF reachable.step [OF reachable.step [OF reachable.start a0] a1] a2] a3]
  note i = new_desc_ok(1) [OF v]
  obtain s where s: "init_stmt ?h3 2 (PTR 1 WHOLE) = Some s" "ard s = PTR 2 I_ARD"
      "i_ard s = new_desc DESC_TYPE_ARD SQL_DESC_ALLOC_AUTO" "i_apd s = new_desc DESC_TYPE_APD SQL_DESC_ALLOC_AUTO"
      "i_ipd s = new_desc DESC_TYPE_IPD SQL_DESC_ALLOC_AUTO" "stmt_dbc s = PTR 1 WHOLE"
    using dg i by (auto simp: init_stmt_def d_def)
  have "api_step v ?h3 (?h3(2 \<mapsto> STMT s))"
    using s(1) by (intro alloc_handle [of _ "Some 2" _ SQL_HANDLE_STMT "PTR 1 WHOLE" True])
      (simp_all add: EsSQLAllocHandle_def new_handle_def conn_ok_def d_def sample_types_def)
  with r3 have "reachable v (?h3(2 \<mapsto> STMT s))"
    by (rule reachable.step)
  then show ?thesis
    using s unfolding v_def by (intro exI [of _ "?h3(2 \<mapsto> STMT s)"] exI [of _ s]) (simp add: get_stmt_def desc_dbc_def d_def)
qed

lemma sample_ver_ok: "ver_ok (wlit ''1.0'')"
  by (simp add: ver_ok_def) code_simp

lemma sample_cl_ok: "cl_ok ver (\<lambda>s. s)"
  unfolding cl_ok_def
proof (intro allI impI)
  fix s :: esodbc_stmt
  assume "diag_ok ver (stmt_diag s)"
  then show "\<exists>d. diag_ok ver d \<and> s = s\<lparr>stmt_diag := d\<rparr>"
    by (intro exI [of _ "stmt_diag s"]) simp
qed

section \<open>Properties\<close>






text \<open>An explicitly allocated descriptor freed while it is a statement's ARD. The driver frees it
  and leaves the pointer, so the next use of the statement's ARD follows a pointer to freed memory:
  unbinding the columns, setting or getting the row array size, freeing the statement. Had the
  statement been given back its own ARD, as the comment in the code asks for, the heap would be one
  where no call gets stuck.\<close>
theorem freed_descriptor_dangles:
  assumes "heap_ok ver h" and "get_stmt h b = Some s" and "ard s = PTR c WHOLE" and "cl_ok ver cl"
    and "al \<noteq> ALLOC_MOVES"
  shows "\<exists>h'. EsSQLFreeHandle cl h SQL_HANDLE_DESC (PTR c WHOLE) = Some (h', SQL_SUCCESS) \<and>
    get_stmt h' b = Some s \<and> get_desc h' (ard s) = None \<and>
    EsSQLFreeStmt ver cl al h' b SQL_UNBIND = None \<and>
    EsSQLSetStmtAttrW ver al h' b SQL_ATTR_ROW_ARRAY_SIZE val NULL 0 = None \<and>
    EsSQLGetStmtAttrW ver h' b SQL_ATTR_ROW_ARRAY_SIZE buf = None \<and>
    EsSQLFreeHandle cl h' SQL_HANDLE_STMT (PTR b WHOLE) = None \<and>
    heap_ok ver (put_stmt h b (s\<lparr>ard := PTR b I_ARD\<rparr>))"
proof -
  obtain par d where c: "h c = Some (DESC par d)" "desc_type d = DESC_TYPE_ARD"
    using heap_ok_stmt [OF assms(1,2)] assms(3)
    by (auto simp: stmt_ok_def user_ard_def split: option.splits handle.splits)
  let ?d = "if recs d \<noteq> [] then free_desc_recs d else d"
  have d: "get_desc h (PTR c WHOLE) = Some d" using c by simp
  then have "clear_desc cl h (PTR c WHOLE) False = Some (put_desc h (PTR c WHOLE) ?d)"
    using c(2) by (simp add: clear_desc_def Let_def del: get_desc.simps put_desc.simps)
  then have free: "EsSQLFreeHandle cl h SQL_HANDLE_DESC (PTR c WHOLE) = Some (h(c := None), SQL_SUCCESS)"
    using c(1) by (simp add: EsSQLFreeHandle_def)
  have s': "get_stmt (h(c := None)) b = Some s"
    using assms(2) c(1) by (auto simp: get_stmt_def)
  have "stmt_ok ver h b (s\<lparr>ard := PTR b I_ARD\<rparr>)"
    using heap_ok_stmt [OF assms(1,2)] by (simp add: stmt_ok_def)
  then have "heap_ok ver (put_stmt h b (s\<lparr>ard := PTR b I_ARD\<rparr>))"
    by (rule put_stmt_ok [OF assms(1,2)])
  then show ?thesis
    using free s' assms(3)
    by (intro exI [of _ "h(c := None)"])
      (simp add: EsSQLFreeStmt_def free_stmt_count_def set_desc_field_def EsSQLSetStmtAttrW_def
        attr_field_def set_attr_field_def EsSQLGetStmtAttrW_def EsSQLFreeHandle_def free_handle_stmt_def
        clear_desc_def put_stmt_def)
qed

text \<open>An explicit descriptor made the ARD of the sample statement.\<close>

lemma sample_explicit:
  "\<exists>h s. reachable (wlit ''1.0'') h \<and> get_stmt h 2 = Some s \<and> ard s = PTR 3 WHOLE"
proof -
  define v where "v = wlit ''1.0''"
  obtain h s c where h: "reachable v h" "get_stmt h 2 = Some s" "ard s = PTR 2 I_ARD" "h 3 = None"
      "h 1 = Some (DBC c)"
    using sample_reachable unfolding v_def by blast
  have i: "init_desc ty al = Some (new_desc ty al)" for ty al
    using new_desc_ok(1) [OF sample_ver_ok] by (simp add: v_def)
  let ?h1 = "h(3 \<mapsto> DESC (PTR 1 WHOLE) (new_desc DESC_TYPE_ANON SQL_DESC_ALLOC_USER))"
  have "api_step v h ?h1"
    using i h(4) by (intro alloc_handle [of _ "Some 3" _ SQL_HANDLE_DESC "PTR 1 WHOLE" True])
      (simp_all add: EsSQLAllocHandle_def new_handle_def)
  with h(1) have r1: "reachable v ?h1" by (rule reachable.step)
  let ?h2 = "?h1(3 \<mapsto> DESC (PTR 1 WHOLE) ((new_desc DESC_TYPE_ANON SQL_DESC_ALLOC_USER)\<lparr>desc_type := DESC_TYPE_ARD\<rparr>))"
  let ?h3 = "put_stmt ?h2 2 (s\<lparr>ard := PTR 3 WHOLE\<rparr>)"
  have s1: "get_stmt ?h1 2 = Some s" "get_stmt ?h2 2 = Some s"
    using h(2) by (simp_all add: get_stmt_def)
  have "EsSQLSetStmtAttrW v ALLOC_FAILS ?h1 2 SQL_ATTR_APP_ROW_DESC 0 (PTR 3 WHOLE) 0 = Some (?h3, SQL_SUCCESS)"
    using s1 h(3) by (simp add: EsSQLSetStmtAttrW_def attr_field_def attr_fixed_def set_app_row_desc_def)
  from reachable.step [OF r1 set_stmt_attr [OF s1(1) _ _ this]] show ?thesis
    unfolding v_def by (intro exI [of _ ?h3] exI [of _ "s\<lparr>ard := PTR 3 WHOLE\<rparr>"]) simp
qed

lemma freed_descriptor_dangles_witness:
  "\<exists>h h' s. get_stmt h 2 = Some s \<and> ard s = PTR 3 WHOLE \<and>
    EsSQLFreeHandle (\<lambda>s. s) h SQL_HANDLE_DESC (PTR 3 WHOLE) = Some (h', SQL_SUCCESS) \<and>
    EsSQLFreeStmt (wlit ''1.0'') (\<lambda>s. s) ALLOC_FAILS h' 2 SQL_UNBIND = None"
proof -
  obtain h s where h: "reachable (wlit ''1.0'') h" "get_stmt h 2 = Some s" "ard s = PTR 3 WHOLE"
    using sample_explicit by blast
  from freed_descriptor_dangles [OF reachable_ok [OF h(1) sample_ver_ok] h(2,3) sample_cl_ok,
      of ALLOC_FAILS] h(2,3)
  show ?thesis by blast
qed

text \<open>An explicitly allocated descriptor is a child of a connection, but a descriptor's parent is
  taken for a statement: the connection it looks for is that connection's environment. So binding a
  numeric column through such a descriptor reads the data types of an environment, for every
  numeric type but the packed decimal ones. Through the statement's own ARD the connection is found.\<close>
theorem explicit_descriptor_wrong_parent:
  assumes "h c = Some (DESC (PTR k WHOLE) d)" and "desc_type d = DESC_TYPE_ARD"
    and "h k = Some (DBC conn)" and "dbc_env conn = PTR e WHOLE" and "h e = Some (ENV env)"
    and "0 < n" and "n \<le> count d" and "recs d ! (nat n - 1) = rec" and "es_type rec = None"
    and "(rec_type rec, datetime_interval_code rec) = concise_to_type_code (concise_type rec)"
    and "meta_type rec = METATYPE_FLOAT_NUMERIC \<or> meta_type rec = METATYPE_EXACT_NUMERIC \<and>
      concise_type rec \<noteq> SQL_NUMERIC \<and> concise_type rec \<noteq> SQL_DECIMAL \<and> scale rec = 0"
    and "val \<noteq> 0"
  shows "desc_dbc h (PTR c WHOLE) = None \<and>
    set_desc_field ver al h (PTR c WHOLE) n SQL_DESC_DATA_PTR val 0 = None \<and>
    (\<forall>b s. h b = Some (STMT s) \<and> stmt_dbc s = PTR k WHOLE \<longrightarrow>
      desc_dbc h (PTR b I_ARD) = Some (dbc_types conn))"
proof -
  have no: "desc_dbc h (PTR c WHOLE) = None"
    using assms(1,3-5) by (simp add: desc_dbc_def)
  have "consistency_check None DESC_TYPE_ARD (rec\<lparr>data_ptr := val\<rparr>) = None"
    unfolding consistency_check_data_ptr using assms(9-11)
    by (auto simp: consistency_check_def numeric_column_size_def Let_def)
  then have "set_data_ptr ver None al d (nat n - 1) n val = None"
    using assms(2,8,12) by (simp add: set_data_ptr_def Let_def)
  then have "set_desc_field ver al h (PTR c WHOLE) n SQL_DESC_DATA_PTR val 0 = None"
    using no assms(1,2,6,7) set_data_ptr_field [of d 0 n ver None al ALLOC_FAILS val "[]"]
    by (simp add: set_desc_field_def)
  then show ?thesis
    using no assms(3) by (auto simp: desc_dbc_def)
qed

lemma explicit_descriptor_wrong_parent_witness:
  "set_desc_field (wlit ''1.0'') ALLOC_FAILS
    ((\<lambda>_. None)(0 \<mapsto> ENV \<lparr>env_diag = no_diag, env_version = 3\<rparr>,
      1 \<mapsto> DBC \<lparr>dbc_diag = no_diag, dbc_env = PTR 0 WHOLE, dbc_metadata_id = 0, dbc_types = sample_types\<rparr>,
      3 \<mapsto> DESC (PTR 1 WHOLE) (sample_desc\<lparr>count := 1, recs := [typed_rec DESC_TYPE_ARD SQL_C_SLONG]\<rparr>)))
    (PTR 3 WHOLE) 1 SQL_DESC_DATA_PTR 4096 0 = None"
proof -
  let ?h = "(\<lambda>_. None)(0 \<mapsto> ENV \<lparr>env_diag = no_diag, env_version = 3\<rparr>,
      1 \<mapsto> DBC \<lparr>dbc_diag = no_diag, dbc_env = PTR 0 WHOLE, dbc_metadata_id = 0, dbc_types = sample_types\<rparr>,
      3 \<mapsto> DESC (PTR 1 WHOLE) (sample_desc\<lparr>count := 1, recs := [typed_rec DESC_TYPE_ARD SQL_C_SLONG]\<rparr>))"
  have m: "concise_to_meta SQL_C_SLONG DESC_TYPE_ARD = METATYPE_EXACT_NUMERIC"
    by code_simp
  have "scale (typed_rec DESC_TYPE_ARD SQL_C_SLONG) = 0"
    using m by (simp add: typed_rec_def set_defaults_from_meta_type_def with_concise_type_def init_rec_def zero_rec_def)
  with m show ?thesis
    using explicit_descriptor_wrong_parent [of ?h 3 1 "sample_desc\<lparr>count := 1, recs := [typed_rec DESC_TYPE_ARD SQL_C_SLONG]\<rparr>"
      "\<lparr>dbc_diag = no_diag, dbc_env = PTR 0 WHOLE, dbc_metadata_id = 0, dbc_types = sample_types\<rparr>" 0
      "\<lparr>env_diag = no_diag, env_version = 3\<rparr>" 1 "typed_rec DESC_TYPE_ARD SQL_C_SLONG" 4096]
    by (simp add: sample_desc_def)
qed

section \<open>Statement attributes read back\<close>

lemma retcode_attr:
  "state_retcode (esodbc_errors ! SQL_STATE_01S02) \<noteq> SQL_SUCCESS"
  "state_retcode (esodbc_errors ! SQL_STATE_HYC00) \<noteq> SQL_SUCCESS"
  "state_retcode (esodbc_errors ! SQL_STATE_HY017) \<noteq> SQL_SUCCESS"
  "state_retcode (esodbc_errors ! SQL_STATE_HY024) \<noteq> SQL_SUCCESS"
  "state_retcode (esodbc_errors ! SQL_STATE_HY092) \<noteq> SQL_SUCCESS"
  by code_simp+

lemma RET_STMT_ret:
  assumes "heap_ok ver h" and "get_stmt h b = Some s" and "st < 120"
  shows "RET_STMT ver h b st = Some (h', ret) \<Longrightarrow> ret = state_retcode (esodbc_errors ! st)"
    and "CHR 0x00 \<notin> set m \<Longrightarrow> RET_STMT_TEXT ver h b st m = Some (h', ret) \<Longrightarrow> ret = state_retcode (esodbc_errors ! st)"
proof -
  have d: "diag_ok ver (stmt_diag s)"
    using heap_ok_stmt [OF assms(1,2)] by (simp add: stmt_ok_def)
  show "ret = state_retcode (esodbc_errors ! st)" if "RET_STMT ver h b st = Some (h', ret)"
    using that post_ok(1) [OF d assms(3)] assms(2) by (simp add: RET_STMT_def RET_HDIAGS_def)
  show "ret = state_retcode (esodbc_errors ! st)"
    if "CHR 0x00 \<notin> set m" "RET_STMT_TEXT ver h b st m = Some (h', ret)"
    using that post_ok(2) [OF d assms(3) that(1)] assms(2) by (simp add: RET_STMT_TEXT_def)
qed

lemma bounded_max_length_id: "0 \<le> n \<Longrightarrow> bounded_max_length n = n"
  by (simp add: bounded_max_length_def ESODBC_LO_MAX_LENGTH_def ESODBC_UP_MAX_LENGTH_def)

lemma put_desc_again:
  assumes "get_desc h p = Some d"
  shows "get_desc (put_desc h p d') p = Some d'" and "put_desc (put_desc h p d') p d'' = put_desc h p d''"
proof -
  have "get_desc (put_desc h p d') p = Some d' \<and> put_desc (put_desc h p d') p d'' = put_desc h p d''"
    using assms
  proof (cases rule: get_desc_cases)
    case (embedded b m s)
    then show ?thesis by (cases m) simp_all
  qed simp
  then show "get_desc (put_desc h p d') p = Some d'" "put_desc (put_desc h p d') p d'' = put_desc h p d''"
    by simp_all
qed

text \<open>An array size that was accepted is the one that is read.\<close>

lemma array_size_roundtrip:
  assumes "heap_ok ver h" and "get_desc h p = Some d" and "DESC_TYPE_IS_APPLICATION (desc_type d)" and "buf \<noteq> 0"
    and "set_attr_field ver al h b p SQL_DESC_ARRAY_SIZE val len = Some (h', SQL_SUCCESS)"
  shows "h' = put_desc h p (d\<lparr>array_size := to_u64 val\<rparr>)"
    and "EsSQLGetDescFieldW ver (d\<lparr>array_size := to_u64 val\<rparr>) NO_REC_NR SQL_DESC_ARRAY_SIZE buf
      SQL_IS_UINTEGER False = Some (d\<lparr>array_size := to_u64 val\<rparr>, Some (ULEN (to_u64 val)), None, SQL_SUCCESS)"
proof -
  have acc: "check_access (desc_type d) SQL_DESC_ARRAY_SIZE m" for m
    using assms(3) by (auto simp: check_access_def DESC_TYPE_IS_APPLICATION_def)
  note dg = desc_okD(3) [OF get_desc_ok [OF assms(1,2)]]
  have "set_array_size ver d (to_u64 val) = Some (d', SQL_SUCCESS) \<Longrightarrow> d' = d\<lparr>array_size := to_u64 val\<rparr>" for d'
    using dg retcode_attr by (auto simp: set_array_size_def RET_DESC_ok RET_DESC_TEXT_ok split: if_splits)
  then show "h' = put_desc h p (d\<lparr>array_size := to_u64 val\<rparr>)"
    using assms(2,5) acc
    by (auto simp: set_attr_field_def set_desc_field_def EsSQLSetDescFieldW_def check_buff_def
        is_header_field_def set_header_field_def split: Option.bind_splits)
  show "EsSQLGetDescFieldW ver (d\<lparr>array_size := to_u64 val\<rparr>) NO_REC_NR SQL_DESC_ARRAY_SIZE buf
      SQL_IS_UINTEGER False = Some (d\<lparr>array_size := to_u64 val\<rparr>, Some (ULEN (to_u64 val)), None, SQL_SUCCESS)"
    using acc assms(4)
    by (simp add: EsSQLGetDescFieldW_def check_buff_def is_header_field_def get_done_def get_header_field_def)
qed

lemma to_u64_nonneg: "0 \<le> to_u64 n"
  by (simp add: to_u64_def)

lemma own_attr_roundtrip:
  assumes "heap_ok ver h" and "get_stmt h b = Some s"
    and "attr \<in> {SQL_ATTR_METADATA_ID, SQL_ATTR_MAX_LENGTH, SQL_ATTR_QUERY_TIMEOUT}"
    and "EsSQLSetStmtAttrW ver al h b attr val hv len = Some (h', SQL_SUCCESS)"
  shows "EsSQLGetStmtAttrW ver h' b attr buf = Some (h', Some (NUMBER (to_u64 val)), SQL_SUCCESS)"
  using assms(2-4) bounded_max_length_id [OF to_u64_nonneg]
  by (auto simp: EsSQLSetStmtAttrW_def EsSQLGetStmtAttrW_def attr_field_def attr_fixed_def Let_def)

lemma fixed_attr_roundtrip:
  assumes "heap_ok ver h" and "get_stmt h b = Some s"
    and "attr_fixed attr \<noteq> None \<or> attr = SQL_ATTR_USE_BOOKMARKS"
    and "EsSQLSetStmtAttrW ver al h b attr val hv len = Some (h', SQL_SUCCESS)"
  shows "EsSQLGetStmtAttrW ver h' b attr buf = Some (h', Some (NUMBER (to_u64 val)), SQL_SUCCESS)"
proof -
  note ret = RET_STMT_ret [OF assms(1,2)]
  have "RET_STMT ver h b st \<noteq> Some (h', SQL_SUCCESS)"
    if "st = SQL_STATE_01S02 \<or> st = SQL_STATE_HYC00" for st
    using ret(1) [of st h' SQL_SUCCESS] retcode_attr that by auto
  moreover have "RET_STMT_TEXT ver h b SQL_STATE_HYC00 ''bookmarks are not supported by driver'' \<noteq>
      Some (h', SQL_SUCCESS)"
    using ret(2) [of SQL_STATE_HYC00 "''bookmarks are not supported by driver''" h' SQL_SUCCESS]
      retcode_attr by auto
  ultimately show ?thesis
    using assms(2-4)
    by (cases attr) (auto simp: EsSQLSetStmtAttrW_def EsSQLGetStmtAttrW_def attr_field_def attr_fixed_def
        split: if_splits)
qed

lemma array_attr_roundtrip:
  assumes "heap_ok ver h" and "get_stmt h b = Some s"
    and "attr = SQL_ATTR_ROW_ARRAY_SIZE \<and> p = ard s \<or> attr = SQL_ATTR_PARAMSET_SIZE \<and> p = apd s" and "buf \<noteq> 0"
    and "EsSQLSetStmtAttrW ver al h b attr val hv len = Some (h', SQL_SUCCESS)"
  shows "EsSQLGetStmtAttrW ver h' b attr buf = Some (h', Some (NUMBER (to_u64 val)), SQL_SUCCESS)"
proof -
  have s: "stmt_ok ver h b s" "h b = Some (STMT s)"
    using heap_ok_stmt [OF assms(1,2)] assms(2) by (simp_all add: get_stmt_Some)
  obtain d where d: "get_desc h p = Some d"
    using stmt_pointers_live [OF assms(1,2)] assms(3) by (auto simp: live_def)
  have ty: "DESC_TYPE_IS_APPLICATION (desc_type d)"
    using s d assms(3)
    by (auto simp: stmt_ok_def embedded_ok_def user_ard_def DESC_TYPE_IS_APPLICATION_def
        split: ptr.splits member.splits option.splits handle.splits)
  have "set_attr_field ver al h b p SQL_DESC_ARRAY_SIZE val len = Some (h', SQL_SUCCESS)"
    using assms(2,3,5) by (auto simp: EsSQLSetStmtAttrW_def attr_field_def)
  note rt = array_size_roundtrip [OF assms(1) d ty assms(4) this]
  obtain s' where "get_stmt h' b = Some s'" "ard s' = ard s" "apd s' = apd s"
    using growsD(1) [OF grows_put_desc [OF d] assms(2)] rt(1) by blast
  then show ?thesis
    using assms(3) rt(2) put_desc_again [OF d] rt(1)
    by (auto simp: EsSQLGetStmtAttrW_def Let_def)
qed



end
