(* ===== verification/Conv_Compat.thy ===== *)
theory Conv_Compat
imports Handles_Api
begin

text \<open>
  Which conversions are allowed (driver/convert.c): the matrix of SQL and C types, the look-up
  in it, and the check of the bound columns or of a parameter before any data is converted.
  The matrix is filled by nested loops over lists of types; a pair is set if one of the loops
  reaches it. A look-up outside the matrix is \<open>None\<close>.
\<close>

section \<open>The matrix\<close>

definition ESSQL_TYPE_MIN :: int where "ESSQL_TYPE_MIN = SQL_GUID"
definition ESSQL_TYPE_MAX :: int where "ESSQL_TYPE_MAX = SQL_INTERVAL_MINUTE_TO_SECOND"
definition ESSQL_C_TYPE_MIN :: int where "ESSQL_C_TYPE_MIN = SQL_C_UTINYINT"
definition ESSQL_C_TYPE_MAX :: int where "ESSQL_C_TYPE_MAX = SQL_C_INTERVAL_MINUTE_TO_SECOND"

definition block_idx_sql :: "int list" where
  "block_idx_sql = [SQL_CHAR, SQL_VARCHAR, SQL_LONGVARCHAR, SQL_WCHAR, SQL_WVARCHAR, SQL_WLONGVARCHAR,
     SQL_DECIMAL, SQL_NUMERIC, SQL_BIT, ESODBC_SQL_BOOLEAN, SQL_TINYINT, SQL_SMALLINT, SQL_INTEGER,
     SQL_BIGINT, SQL_REAL, SQL_FLOAT, SQL_DOUBLE]"

definition block_idx_csql :: "int list" where
  "block_idx_csql = [SQL_C_CHAR, SQL_C_WCHAR, SQL_C_BIT, SQL_C_NUMERIC, SQL_C_STINYINT, SQL_C_UTINYINT,
     SQL_C_TINYINT, SQL_C_SBIGINT, SQL_C_UBIGINT, SQL_C_SSHORT, SQL_C_USHORT, SQL_C_SHORT, SQL_C_SLONG,
     SQL_C_ULONG, SQL_C_LONG, SQL_C_FLOAT, SQL_C_DOUBLE, SQL_C_BINARY]"

definition to_csql_interval_all :: "int list" where
  "to_csql_interval_all =
    [SQL_CHAR, SQL_VARCHAR, SQL_LONGVARCHAR, SQL_WCHAR, SQL_WVARCHAR, SQL_WLONGVARCHAR]"

definition to_csql_interval_single :: "int list" where
  "to_csql_interval_single =
    [SQL_DECIMAL, SQL_NUMERIC, SQL_TINYINT, SQL_SMALLINT, SQL_INTEGER, SQL_BIGINT]"

definition from_sql_interval_all :: "int list" where
  "from_sql_interval_all = [SQL_C_CHAR, SQL_C_WCHAR]"

definition from_sql_interval_single :: "int list" where
  "from_sql_interval_single = [SQL_C_BIT, SQL_C_NUMERIC, SQL_C_STINYINT, SQL_C_UTINYINT, SQL_C_TINYINT,
     SQL_C_SBIGINT, SQL_C_UBIGINT, SQL_C_SSHORT, SQL_C_USHORT, SQL_C_SHORT, SQL_C_SLONG, SQL_C_ULONG,
     SQL_C_LONG]"

definition sql_interval_single :: "int list" where
  "sql_interval_single = [SQL_INTERVAL_YEAR, SQL_INTERVAL_MONTH, SQL_INTERVAL_DAY, SQL_INTERVAL_HOUR,
     SQL_INTERVAL_MINUTE, SQL_INTERVAL_SECOND]"

definition sql_interval :: "int list" where
  "sql_interval = [SQL_INTERVAL_YEAR, SQL_INTERVAL_MONTH, SQL_INTERVAL_DAY, SQL_INTERVAL_HOUR,
     SQL_INTERVAL_MINUTE, SQL_INTERVAL_SECOND, SQL_INTERVAL_YEAR_TO_MONTH, SQL_INTERVAL_DAY_TO_HOUR,
     SQL_INTERVAL_DAY_TO_MINUTE, SQL_INTERVAL_DAY_TO_SECOND, SQL_INTERVAL_HOUR_TO_MINUTE,
     SQL_INTERVAL_HOUR_TO_SECOND, SQL_INTERVAL_MINUTE_TO_SECOND]"

definition csql_interval_single :: "int list" where
  "csql_interval_single = [SQL_C_INTERVAL_YEAR, SQL_C_INTERVAL_MONTH, SQL_C_INTERVAL_DAY,
     SQL_C_INTERVAL_HOUR, SQL_C_INTERVAL_MINUTE, SQL_C_INTERVAL_SECOND]"

definition csql_interval :: "int list" where
  "csql_interval = [SQL_C_INTERVAL_YEAR, SQL_C_INTERVAL_MONTH, SQL_C_INTERVAL_DAY, SQL_C_INTERVAL_HOUR,
     SQL_C_INTERVAL_MINUTE, SQL_C_INTERVAL_SECOND, SQL_C_INTERVAL_YEAR_TO_MONTH,
     SQL_C_INTERVAL_DAY_TO_HOUR, SQL_C_INTERVAL_DAY_TO_MINUTE, SQL_C_INTERVAL_DAY_TO_SECOND,
     SQL_C_INTERVAL_HOUR_TO_MINUTE, SQL_C_INTERVAL_HOUR_TO_SECOND, SQL_C_INTERVAL_MINUTE_TO_SECOND]"

definition to_csql_datetime :: "int list" where
  "to_csql_datetime = [SQL_CHAR, SQL_VARCHAR, SQL_LONGVARCHAR, SQL_WCHAR, SQL_WVARCHAR,
     SQL_WLONGVARCHAR, SQL_TYPE_DATE, SQL_TYPE_TIME, SQL_TYPE_TIMESTAMP]"

definition csql_datetime :: "int list" where
  "csql_datetime = [SQL_C_TYPE_DATE, SQL_C_TYPE_TIME, SQL_C_TYPE_TIMESTAMP]"

definition compat_matrix :: "int \<Rightarrow> int \<Rightarrow> bool" where
  "compat_matrix sql csql \<longleftrightarrow>
    sql \<in> set block_idx_sql \<and> csql \<in> set block_idx_csql \<or>
    csql \<in> set [SQL_C_CHAR, SQL_C_WCHAR, SQL_C_BINARY, SQL_C_DEFAULT] \<or>
    sql = ESODBC_SQL_NULL \<or>
    sql \<in> set to_csql_interval_all \<and> csql \<in> set csql_interval \<or>
    sql \<in> set to_csql_interval_single \<and> csql \<in> set csql_interval_single \<or>
    sql \<in> set sql_interval \<and> csql \<in> set from_sql_interval_all \<or>
    sql \<in> set sql_interval_single \<and> csql \<in> set from_sql_interval_single \<or>
    (sql, csql) \<in> set (zip sql_interval csql_interval) \<or>
    sql \<in> set to_csql_datetime \<and> csql \<in> set csql_datetime \<and>
      \<not> (sql = SQL_TYPE_DATE \<and> csql = SQL_C_TYPE_TIME) \<and>
      \<not> (sql = SQL_TYPE_TIME \<and> csql = SQL_C_TYPE_DATE) \<or>
    sql = SQL_GUID \<and> csql = SQL_C_GUID"

definition ESODBC_TYPES_COMPATIBLE :: "int \<Rightarrow> int \<Rightarrow> bool option" where
  "ESODBC_TYPES_COMPATIBLE sql csql =
    (if ESSQL_TYPE_MAX < sql \<and> csql = SQL_C_BINARY then Some True
     else if ESSQL_TYPE_MIN \<le> sql \<and> sql \<le> ESSQL_TYPE_MAX \<and>
       ESSQL_C_TYPE_MIN \<le> csql \<and> csql \<le> ESSQL_C_TYPE_MAX
     then Some (compat_matrix sql csql)
     else None)"

definition conv_implemented :: "int \<Rightarrow> int \<Rightarrow> bool" where
  "conv_implemented sqltype ctype \<longleftrightarrow> ctype \<noteq> SQL_C_GUID \<and> sqltype \<noteq> SQL_GUID"

section \<open>The check\<close>

datatype conv_code = CONVERSION_VIOLATION | CONVERSION_UNSUPPORTED | CONVERSION_UNCHECKED
  | CONVERSION_SUPPORTED | CONVERSION_SKIPPED

text \<open>The records from \<open>i\<close> on, \<open>n\<close> of them; columns that are not bound are skipped.\<close>

fun convertability_loop ::
    "bool \<Rightarrow> esodbc_rec list \<Rightarrow> esodbc_rec list \<Rightarrow> nat \<Rightarrow> nat \<Rightarrow> (esodbc_state \<times> conv_code) option" where
  "convertability_loop cols axd ixd i 0 = Some (SQL_STATE_00000, CONVERSION_SUPPORTED)"
| "convertability_loop cols axd ixd i (Suc n) = do {
     arec \<leftarrow> mem_read axd i;
     if cols \<and> \<not> REC_IS_BOUND arec then convertability_loop cols axd ixd (Suc i) n
     else do {
       irec \<leftarrow> mem_read ixd i;
       compatible \<leftarrow> ESODBC_TYPES_COMPATIBLE (concise_type irec) (concise_type arec);
       if \<not> compatible then Some (SQL_STATE_07006, CONVERSION_VIOLATION)
       else if \<not> conv_implemented (concise_type irec) (concise_type arec)
         then Some (SQL_STATE_HYC00, CONVERSION_UNSUPPORTED)
       else convertability_loop cols axd ixd (Suc i) n } }"

text \<open>What is checked: all bound columns, one bound column, or one parameter.\<close>

datatype conv_idx = CONV_CHECK_ALL_COLS | CONV_COLUMN nat | CONV_PARAM nat

definition convertability_check ::
    "wstr \<Rightarrow> heap \<Rightarrow> nat \<Rightarrow> conv_idx \<Rightarrow> (heap \<times> sqlreturn \<times> conv_code) option" where
  "convertability_check ver h b idx = do {
     s \<leftarrow> get_stmt h b;
     axd \<leftarrow> get_desc h (case idx of CONV_PARAM _ \<Rightarrow> apd s | _ \<Rightarrow> ard s);
     ixd \<leftarrow> get_desc h (case idx of CONV_PARAM _ \<Rightarrow> ipd s | _ \<Rightarrow> ird s);
     let all = nat (min (count axd) (count ixd));
     (st, code) \<leftarrow> (case idx of
         CONV_CHECK_ALL_COLS \<Rightarrow> convertability_loop True (recs axd) (recs ixd) 0 all
       | CONV_COLUMN n \<Rightarrow> convertability_loop True (recs axd) (recs ixd) (n - 1) (all - (n - 1))
       | CONV_PARAM n \<Rightarrow> convertability_loop False (recs axd) (recs ixd) (n - 1) 1);
     if st = SQL_STATE_00000 then Some (h, SQL_SUCCESS, code)
     else map_option (\<lambda>(h, ret). (h, ret, code)) (RET_STMT ver h b st) }"

section \<open>Properties\<close>

text \<open>The conversions of the ODBC appendix, by the classes of the two types.\<close>

definition compat_spec :: "int \<Rightarrow> int \<Rightarrow> bool" where
  "compat_spec sql csql =
    (if csql \<in> {SQL_C_CHAR, SQL_C_WCHAR, SQL_C_BINARY, SQL_C_DEFAULT} then True
     else (case sqltype_to_meta sql of
       METATYPE_MAX \<Rightarrow> True
     | METATYPE_STRING \<Rightarrow> sqlctype_to_meta csql \<noteq> METATYPE_UID
     | METATYPE_EXACT_NUMERIC \<Rightarrow>
         sqlctype_to_meta csql \<in> {METATYPE_EXACT_NUMERIC, METATYPE_FLOAT_NUMERIC, METATYPE_BIT} \<or>
         csql \<in> {SQL_C_INTERVAL_YEAR..SQL_C_INTERVAL_SECOND}
     | METATYPE_FLOAT_NUMERIC \<Rightarrow>
         sqlctype_to_meta csql \<in> {METATYPE_EXACT_NUMERIC, METATYPE_FLOAT_NUMERIC, METATYPE_BIT}
     | METATYPE_BIT \<Rightarrow>
         sqlctype_to_meta csql \<in> {METATYPE_EXACT_NUMERIC, METATYPE_FLOAT_NUMERIC, METATYPE_BIT}
     | METATYPE_DATE_TIME \<Rightarrow>
         sqlctype_to_meta csql = METATYPE_DATE_TIME \<and>
         (sql = csql \<or> sql = SQL_TYPE_TIMESTAMP \<or> csql = SQL_C_TYPE_TIMESTAMP)
     | METATYPE_UID \<Rightarrow> sqlctype_to_meta csql = METATYPE_UID
     | METATYPE_BIN \<Rightarrow> False
     | METATYPE_UNKNOWN \<Rightarrow> False
     | _ \<Rightarrow> csql = sql \<or> sql \<le> SQL_INTERVAL_SECOND \<and>
         sqlctype_to_meta csql \<in> {METATYPE_EXACT_NUMERIC, METATYPE_BIT}))"

definition known_sql_types :: "int list" where
  "known_sql_types = block_idx_sql @ sql_interval @
    [SQL_BINARY, SQL_VARBINARY, SQL_LONGVARBINARY, SQL_TYPE_DATE, SQL_TYPE_TIME, SQL_TYPE_TIMESTAMP,
     SQL_GUID, ESODBC_SQL_NULL]"

definition known_c_types :: "int list" where
  "known_c_types = block_idx_csql @ csql_interval @ csql_datetime @ [SQL_C_GUID, SQL_C_DEFAULT]"

lemma known_types:
  "sqltype_to_meta t \<noteq> METATYPE_UNKNOWN \<longleftrightarrow> t \<in> set known_sql_types"
  "sqlctype_to_meta t \<noteq> METATYPE_UNKNOWN \<longleftrightarrow> t \<in> set known_c_types"
  by (auto simp: sqltype_to_meta_def sqlctype_to_meta_def known_sql_types_def known_c_types_def
      block_idx_sql_def block_idx_csql_def sql_interval_def csql_interval_def csql_datetime_def)

lemma compat_table:
  "list_all (\<lambda>sql. list_all (\<lambda>csql. ESODBC_TYPES_COMPATIBLE sql csql = Some (compat_spec sql csql))
    known_c_types) known_sql_types"
  by code_simp

text \<open>C29: for every SQL type and every C type the driver knows, the look-up stays within the matrix and
  says what the classes of the two types say. A column of one of the data types beyond the ODBC
  range (unsupported, object, nested) is another matter: a look-up for any C type but the binary
  one reads past the end of the matrix.\<close>
theorem types_compatible_correct:
  shows "(\<forall>sql csql. sqltype_to_meta sql \<noteq> METATYPE_UNKNOWN \<and> sqlctype_to_meta csql \<noteq> METATYPE_UNKNOWN \<longrightarrow>
      ESODBC_TYPES_COMPATIBLE sql csql = Some (compat_spec sql csql)) \<and>
    (\<forall>sql csql. sql \<in> {ESODBC_SQL_UNSUPPORTED, ESODBC_SQL_OBJECT} \<longrightarrow>
      ESODBC_TYPES_COMPATIBLE sql csql = (if csql = SQL_C_BINARY then Some True else None))"
  using compat_table unfolding list_all_iff known_types
  by (auto simp: ESODBC_TYPES_COMPATIBLE_def ESSQL_TYPE_MAX_def)

lemma types_compatible_correct_witness:
  "ESODBC_TYPES_COMPATIBLE SQL_VARCHAR SQL_C_SLONG = Some True \<and>
   ESODBC_TYPES_COMPATIBLE ESODBC_SQL_OBJECT SQL_C_WCHAR = None"
proof -
  have "sqltype_to_meta SQL_VARCHAR \<noteq> METATYPE_UNKNOWN" "sqlctype_to_meta SQL_C_SLONG \<noteq> METATYPE_UNKNOWN"
    "compat_spec SQL_VARCHAR SQL_C_SLONG" by code_simp+
  then show ?thesis
    using types_compatible_correct [THEN conjunct1, THEN spec, THEN spec, of SQL_VARCHAR SQL_C_SLONG]
      types_compatible_correct [THEN conjunct2, THEN spec, THEN spec, of ESODBC_SQL_OBJECT SQL_C_WCHAR]
    by simp
qed

text \<open>What the check says of one pair of records of known types.\<close>

definition known_pair :: "esodbc_rec \<Rightarrow> esodbc_rec \<Rightarrow> bool" where
  "known_pair arec irec \<longleftrightarrow> sqltype_to_meta (concise_type irec) \<noteq> METATYPE_UNKNOWN \<and>
     sqlctype_to_meta (concise_type arec) \<noteq> METATYPE_UNKNOWN"

definition conv_verdict :: "esodbc_rec \<Rightarrow> esodbc_rec \<Rightarrow> esodbc_state \<times> conv_code" where
  "conv_verdict arec irec =
    (if \<not> compat_spec (concise_type irec) (concise_type arec)
       then (SQL_STATE_07006, CONVERSION_VIOLATION)
     else if concise_type arec = SQL_C_GUID \<or> concise_type irec = SQL_GUID
       then (SQL_STATE_HYC00, CONVERSION_UNSUPPORTED)
     else (SQL_STATE_00000, CONVERSION_SUPPORTED))"

lemma known_pair_compatible:
  "known_pair arec irec \<Longrightarrow> ESODBC_TYPES_COMPATIBLE (concise_type irec) (concise_type arec) =
     Some (compat_spec (concise_type irec) (concise_type arec))"
  using compat_table unfolding known_pair_def list_all_iff known_types by blast

definition refused :: "bool \<Rightarrow> esodbc_rec list \<Rightarrow> esodbc_rec list \<Rightarrow> nat \<Rightarrow> bool" where
  "refused cols axd ixd k \<longleftrightarrow> (cols \<longrightarrow> REC_IS_BOUND (axd ! k)) \<and>
     fst (conv_verdict (axd ! k) (ixd ! k)) \<noteq> SQL_STATE_00000"

lemma convertability_loop_eq:
  assumes "i + n \<le> length axd" and "i + n \<le> length ixd"
    and "\<And>k. i \<le> k \<Longrightarrow> k < i + n \<Longrightarrow> (cols \<longrightarrow> REC_IS_BOUND (axd ! k)) \<Longrightarrow> known_pair (axd ! k) (ixd ! k)"
  shows "convertability_loop cols axd ixd i n =
    Some (case find (refused cols axd ixd) [i..<i + n] of
        None \<Rightarrow> (SQL_STATE_00000, CONVERSION_SUPPORTED)
      | Some k \<Rightarrow> conv_verdict (axd ! k) (ixd ! k))"
  using assms
proof (induction n arbitrary: i)
  case (Suc n)
  have rec: "convertability_loop cols axd ixd (Suc i) n =
      Some (case find (refused cols axd ixd) [Suc i..<i + Suc n] of
          None \<Rightarrow> (SQL_STATE_00000, CONVERSION_SUPPORTED)
        | Some k \<Rightarrow> conv_verdict (axd ! k) (ixd ! k))"
    using Suc.prems Suc.IH [of "Suc i"] by simp
  have split: "[i..<i + Suc n] = i # [Suc i..<i + Suc n]"
    by (subst upt_rec) simp
  have mem: "mem_read axd i = Some (axd ! i)" "mem_read ixd i = Some (ixd ! i)"
    using Suc.prems(1,2) by (simp_all add: mem_read_def)
  show ?case
  proof (cases "cols \<and> \<not> REC_IS_BOUND (axd ! i)")
    case True
    then have "\<not> refused cols axd ixd i" by (simp add: refused_def)
    with True show ?thesis unfolding split using mem rec by (simp del: upt_Suc)
  next
    case False
    then have "known_pair (axd ! i) (ixd ! i)"
      using Suc.prems(3) [of i] by simp
    note known = known_pair_compatible [OF this]
    show ?thesis
    proof (cases "fst (conv_verdict (axd ! i) (ixd ! i)) = SQL_STATE_00000")
      case True
      then have "\<not> refused cols axd ixd i" by (simp add: refused_def)
      with True False known mem rec show ?thesis
        unfolding split by (auto simp: conv_verdict_def conv_implemented_def simp del: upt_Suc split: if_splits)
    next
      case bad: False
      then have "refused cols axd ixd i" using False by (simp add: refused_def)
      with bad False known mem show ?thesis
        unfolding split by (auto simp: conv_verdict_def conv_implemented_def simp del: upt_Suc)
    qed
  qed
qed simp

lemma RET_STMT_posts:
  assumes "heap_ok ver h" and "get_stmt h b = Some s" and "st < 120"
  shows "\<exists>dg. RET_STMT ver h b st = Some (put_stmt h b (s\<lparr>stmt_diag := dg\<rparr>), state_retcode (esodbc_errors ! st)) \<and>
    state dg = st \<and> diag_ok ver dg"
proof -
  have d: "diag_ok ver (stmt_diag s)"
    using heap_ok_stmt [OF assms(1,2)] by (simp add: stmt_ok_def)
  then show ?thesis
    using post_ok(1) [OF d assms(3)] assms(2)
    by (intro exI [of _ "posted ver (stmt_diag s) st (default_message st)"])
      (simp add: RET_STMT_def RET_HDIAGS_def)
qed

lemma conv_verdict_error:
  "fst (conv_verdict a i) \<noteq> SQL_STATE_00000 \<Longrightarrow> fst (conv_verdict a i) < 120 \<and>
     state_retcode (esodbc_errors ! fst (conv_verdict a i)) = SQL_ERROR"
proof -
  have "state_retcode (esodbc_errors ! SQL_STATE_07006) = SQL_ERROR"
    "state_retcode (esodbc_errors ! SQL_STATE_HYC00) = SQL_ERROR"
    by code_simp+
  then show "fst (conv_verdict a i) \<noteq> SQL_STATE_00000 \<Longrightarrow> ?thesis"
    by (auto simp: conv_verdict_def)
qed

text \<open>C30: the check of the bound columns. It looks at the columns that both have a record and are
  bound, and passes exactly when each one's conversion is allowed; otherwise it fails for the first
  that is not, with its state and code, and posts that state on the statement and changes nothing
  else.\<close>
theorem convertability_check_correct:
  assumes "heap_ok ver h" and "get_stmt h b = Some s" and "get_desc h (ard s) = Some d"
    and "\<And>k. k < length (recs d) \<Longrightarrow> k < length (recs (i_ird s)) \<Longrightarrow> REC_IS_BOUND (recs d ! k) \<Longrightarrow>
      known_pair (recs d ! k) (recs (i_ird s) ! k)"
  shows "\<exists>dg. convertability_check ver h b CONV_CHECK_ALL_COLS =
    (case find (refused True (recs d) (recs (i_ird s)))
        [0..<min (length (recs d)) (length (recs (i_ird s)))] of
       None \<Rightarrow> Some (h, SQL_SUCCESS, CONVERSION_SUPPORTED)
     | Some k \<Rightarrow> Some (put_stmt h b (s\<lparr>stmt_diag := dg k\<rparr>), SQL_ERROR,
         snd (conv_verdict (recs d ! k) (recs (i_ird s) ! k)))) \<and>
    (\<forall>k. refused True (recs d) (recs (i_ird s)) k \<longrightarrow>
      state (dg k) = fst (conv_verdict (recs d ! k) (recs (i_ird s) ! k)))"
proof -
  let ?v = "\<lambda>k. conv_verdict (recs d ! k) (recs (i_ird s) ! k)"
  let ?bad = "refused True (recs d) (recs (i_ird s))"
  let ?n = "min (length (recs d)) (length (recs (i_ird s)))"
  have s: "stmt_ok ver h b s"
    using heap_ok_stmt [OF assms(1,2)] .
  then have ird: "get_desc h (ird s) = Some (i_ird s)" "desc_ok ver (i_ird s)"
    using assms(2) by (simp_all add: stmt_ok_def embedded_ok_def get_stmt_Some)
  have all: "nat (min (count d) (count (i_ird s))) = ?n"
    using desc_okD(1) [OF ird(2)] desc_okD(1) [OF get_desc_ok [OF assms(1,3)]] by simp
  have loop: "convertability_loop True (recs d) (recs (i_ird s)) 0 ?n =
      Some (case find ?bad [0..<?n] of None \<Rightarrow> (SQL_STATE_00000, CONVERSION_SUPPORTED) | Some k \<Rightarrow> ?v k)"
    using convertability_loop_eq [of 0 ?n "recs d" "recs (i_ird s)" True] assms(4) by simp
  obtain dg where dg: "\<And>k. ?bad k \<Longrightarrow> RET_STMT ver h b (fst (?v k)) =
      Some (put_stmt h b (s\<lparr>stmt_diag := dg k\<rparr>), SQL_ERROR) \<and> state (dg k) = fst (?v k)"
  proof -
    have "\<exists>x. ?bad k \<longrightarrow> RET_STMT ver h b (fst (?v k)) =
        Some (put_stmt h b (s\<lparr>stmt_diag := x\<rparr>), SQL_ERROR) \<and> state x = fst (?v k)" for k
      using RET_STMT_posts [OF assms(1,2), of "fst (?v k)"] conv_verdict_error [of "recs d ! k" "recs (i_ird s) ! k"]
      by (cases "?bad k") (auto simp: refused_def)
    then show ?thesis using that by metis
  qed
  show ?thesis
  proof (cases "find ?bad [0..<?n]")
    case None
    with loop assms(2,3) ird(1) all dg show ?thesis
      by (intro exI [of _ dg]) (simp add: convertability_check_def)
  next
    case (Some k)
    then have bad: "?bad k" by (auto simp: find_Some_iff)
    then have "fst (?v k) \<noteq> SQL_STATE_00000" by (simp add: refused_def)
    with Some loop assms(2,3) ird(1) all dg dg [OF bad] bad show ?thesis
      by (intro exI [of _ dg]) (cases "?v k", simp add: convertability_check_def)
  qed
qed


lemma convertability_check_correct_witness:
  "\<exists>h h' s. get_stmt h 2 = Some s \<and> recs (i_ard s) = [sample_rec, zero_rec] \<and>
    map concise_type (recs (i_ird s)) = [SQL_GUID] \<and>
    convertability_check (wlit ''1.0'') h 2 CONV_CHECK_ALL_COLS = Some (h', SQL_ERROR, CONVERSION_UNSUPPORTED)"
proof -
  obtain h s where h: "reachable (wlit ''1.0'') h" "get_stmt h 2 = Some s" "ard s = PTR 2 I_ARD"
    using sample_reachable by blast
  define rec where "rec = zero_rec\<lparr>concise_type := SQL_GUID\<rparr>"
  define s' where "s' = s\<lparr>i_ard := sample_desc,
    i_ird := sample_desc\<lparr>desc_type := DESC_TYPE_IRD, count := 1, recs := [rec]\<rparr>\<rparr>"
  note ok = reachable_ok [OF h(1) sample_ver_ok]
  have "embedded_ok (wlit ''1.0'') DESC_TYPE_ARD sample_desc"
    using sample_desc_ok by (simp add: embedded_ok_def) (simp add: sample_desc_def)
  moreover have "embedded_ok (wlit ''1.0'') DESC_TYPE_IRD
      (sample_desc\<lparr>desc_type := DESC_TYPE_IRD, count := 1, recs := [rec]\<rparr>)"
    using sample_desc_ok
    by (simp add: embedded_ok_def desc_ok_def rec_def rec_ok_def zero_rec_def) (simp add: sample_desc_def)
  ultimately have "stmt_ok (wlit ''1.0'') h 2 s'"
    using heap_ok_stmt [OF ok h(2)] by (simp add: stmt_ok_def s'_def)
  then have ok': "heap_ok (wlit ''1.0'') (put_stmt h 2 s')"
    by (rule put_stmt_ok [OF ok h(2)])
  have st: "get_stmt (put_stmt h 2 s') 2 = Some s'"
    by simp
  have s': "recs (i_ird s') = [rec]"
    "get_desc (put_stmt h 2 s') (ard s') = Some sample_desc" "recs sample_desc = [sample_rec, zero_rec]"
    "i_ard s' = sample_desc"
    using h(3) by (simp_all add: s'_def put_stmt_def sample_desc_def)
  have v: "known_pair sample_rec rec" "conv_verdict sample_rec rec = (SQL_STATE_HYC00, CONVERSION_UNSUPPORTED)"
    "REC_IS_BOUND sample_rec"
    by (simp_all add: known_pair_def conv_verdict_def compat_spec_def sample_rec_def rec_def zero_rec_def
        sqltype_to_meta_def sqlctype_to_meta_def REC_IS_BOUND_def)
  have bad: "refused True [sample_rec, zero_rec] [rec] 0"
    using v by (simp add: refused_def)
  have "\<exists>dg. convertability_check (wlit ''1.0'') (put_stmt h 2 s') 2 CONV_CHECK_ALL_COLS =
      Some (put_stmt (put_stmt h 2 s') 2 (s'\<lparr>stmt_diag := dg\<rparr>), SQL_ERROR, CONVERSION_UNSUPPORTED)"
    using convertability_check_correct [OF ok' st s'(2)] v bad unfolding s'(1,3) by auto
  with st s' show ?thesis by (fastforce simp: rec_def)
qed

end
