(* ===== verification/Stmt_Bind.thy ===== *)
theory Stmt_Bind
imports Conv_Compat
begin

text \<open>
  Binding columns and parameters (driver/queries.c, driver/convert.c): \<open>SQLBindCol\<close> and
  \<open>SQLBindParameter\<close> as the sequences of descriptor calls they are, with what they do to the
  record counts when one of the calls fails, and the look-up of a parameter's data type.

  \<open>al\<close> answers the allocations while binding, \<open>al'\<close> those while a count is being restored.
  A pointer's size in bytes is 8.
\<close>

section \<open>Sequences of descriptor calls\<close>

definition SQL_LEN_BINARY_ATTR :: "int \<Rightarrow> int" where
  "SQL_LEN_BINARY_ATTR n = - n - 100"

text \<open>The fields of a record set one after the other, until a call is not \<open>good\<close>.\<close>

fun set_fields ::
    "(sqlreturn \<Rightarrow> bool) \<Rightarrow> wstr \<Rightarrow> dbc_types option \<Rightarrow> alloc \<Rightarrow> esodbc_desc \<Rightarrow> int
     \<Rightarrow> (desc_field \<times> int \<times> int) list \<Rightarrow> (esodbc_desc \<times> sqlreturn) option" where
  "set_fields good ver dbc al d n [] = Some (d, SQL_SUCCESS)"
| "set_fields good ver dbc al d n ((f, v, l) # fs) = do {
     (d, ret) \<leftarrow> EsSQLSetDescFieldW ver dbc al ALLOC_FAILS d n f v [] l;
     if good ret then set_fields good ver dbc al d n fs else Some (d, ret) }"

text \<open>The count raised first, if the record is not there yet.\<close>

definition grow_then_set ::
    "(sqlreturn \<Rightarrow> bool) \<Rightarrow> wstr \<Rightarrow> dbc_types option \<Rightarrow> alloc \<Rightarrow> esodbc_desc \<Rightarrow> int
     \<Rightarrow> (desc_field \<times> int \<times> int) list \<Rightarrow> (esodbc_desc \<times> sqlreturn) option" where
  "grow_then_set good ver dbc al d n fs = do {
     (d, ret) \<leftarrow> (if count d < n
        then EsSQLSetDescFieldW ver dbc al ALLOC_FAILS d NO_REC_NR SQL_DESC_COUNT n [] SQL_IS_SMALLINT
        else Some (d, SQL_SUCCESS));
     if SQL_SUCCEEDED ret then set_fields good ver dbc al d (to_i16 n) fs else Some (d, ret) }"

section \<open>Columns\<close>

definition bind_col_fields :: "int \<Rightarrow> int \<Rightarrow> int \<Rightarrow> int \<Rightarrow> (desc_field \<times> int \<times> int) list" where
  "bind_col_fields target_type target_value buffer_length ind =
    [(SQL_DESC_CONCISE_TYPE, target_type, SQL_IS_SMALLINT),
     (SQL_DESC_OCTET_LENGTH, buffer_length, SQL_IS_INTEGER),
     (SQL_DESC_INDICATOR_PTR, ind, SQL_LEN_BINARY_ATTR 8),
     (SQL_DESC_OCTET_LENGTH_PTR, ind, SQL_LEN_BINARY_ATTR 8),
     (SQL_DESC_DATA_PTR, target_value, SQL_IS_POINTER)]"

text \<open>The label \<open>copy_ret\<close>: \<open>prev\<close> is negative if the count is to be restored.\<close>

definition bind_col_failed ::
    "wstr \<Rightarrow> alloc \<Rightarrow> heap \<Rightarrow> nat \<Rightarrow> ptr \<Rightarrow> int \<Rightarrow> (heap \<times> sqlreturn) option" where
  "bind_col_failed ver al' h b ard_ptr prev = do {
     h \<leftarrow> HDIAG_COPY h ard_ptr b;
     h \<leftarrow> (if prev < 0
       then map_option fst (set_desc_field ver al' h ard_ptr NO_REC_NR SQL_DESC_COUNT (- prev) SQL_IS_SMALLINT)
       else Some h);
     s \<leftarrow> get_stmt h b;
     ret \<leftarrow> RET_STATE (state (stmt_diag s));
     Some (h, ret) }"

definition EsSQLBindCol ::
    "wstr \<Rightarrow> alloc \<Rightarrow> alloc \<Rightarrow> heap \<Rightarrow> nat \<Rightarrow> int \<Rightarrow> int \<Rightarrow> int \<Rightarrow> int \<Rightarrow> int \<Rightarrow> (heap \<times> sqlreturn) option" where
  "EsSQLBindCol ver al al' h b col target_type target_value buffer_length ind = do {
     s \<leftarrow> get_stmt h b;
     if buffer_length < 0 then RET_STMT ver h b SQL_STATE_HY090
     else if col = 0 then RET_STMT ver h b SQL_STATE_07009
     else do {
       d \<leftarrow> get_desc h (ard s);
       let dbc = desc_dbc h (ard s);
       let prev = count d;
       (d, ret) \<leftarrow> (if prev < col
          then EsSQLSetDescFieldW ver dbc al ALLOC_FAILS d NO_REC_NR SQL_DESC_COUNT col [] SQL_IS_SMALLINT
          else Some (d, SQL_SUCCESS));
       if \<not> SQL_SUCCEEDED ret then bind_col_failed ver al' (put_desc h (ard s) d) b (ard s) prev
       else do {
         let prev = (if prev < col then - prev else prev);
         (d, ret) \<leftarrow> set_fields (\<lambda>ret. ret = SQL_SUCCESS) ver dbc al d (to_i16 col)
            (bind_col_fields target_type target_value buffer_length ind);
         let h = put_desc h (ard s) d;
         if ret \<noteq> SQL_SUCCESS then bind_col_failed ver al' h b (ard s) prev
         else do {
           s \<leftarrow> get_stmt h b;
           Some (put_stmt h b (s\<lparr>sql2c_conversion := 0\<rparr>), SQL_SUCCESS) } } } }"

section \<open>Parameters\<close>

definition set_param_decdigits ::
    "wstr \<Rightarrow> dbc_types option \<Rightarrow> alloc \<Rightarrow> esodbc_desc \<Rightarrow> int \<Rightarrow> int \<Rightarrow> (esodbc_desc \<times> sqlreturn) option" where
  "set_param_decdigits ver dbc al d n decdigits = do {
     irec \<leftarrow> mem_read (recs d) (nat n - 1);
     (case meta_type irec of
        METATYPE_EXACT_NUMERIC \<Rightarrow>
          if concise_type irec = SQL_DECIMAL \<or> concise_type irec = SQL_NUMERIC
          then EsSQLSetDescFieldW ver dbc al ALLOC_FAILS d n SQL_DESC_SCALE decdigits [] SQL_IS_SMALLINT
          else Some (d, SQL_SUCCESS)
      | mt \<Rightarrow>
          if mt = METATYPE_DATE_TIME \<and> concise_type irec \<noteq> SQL_TYPE_DATE \<or> mt = METATYPE_INTERVAL_WSEC
          then (if decdigits < 0 then RET_DESC ver d SQL_STATE_HY104
            else EsSQLSetDescFieldW ver dbc al ALLOC_FAILS d n SQL_DESC_PRECISION decdigits [] SQL_IS_SMALLINT)
          else Some (d, SQL_SUCCESS)) }"

definition get_param_decdigits :: "esodbc_rec \<Rightarrow> int" where
  "get_param_decdigits irec =
    (case meta_type irec of
       METATYPE_DATE_TIME \<Rightarrow> if concise_type irec = SQL_TYPE_DATE then 0 else precision irec
     | METATYPE_INTERVAL_WSEC \<Rightarrow> precision irec
     | METATYPE_EXACT_NUMERIC \<Rightarrow>
         if concise_type irec = SQL_DECIMAL \<or> concise_type irec = SQL_NUMERIC then scale irec else 0
     | _ \<Rightarrow> 0)"

definition sized_meta :: "esodbc_metatype_et \<Rightarrow> bool" where
  "sized_meta mt \<longleftrightarrow> mt \<in> {METATYPE_STRING, METATYPE_BIN, METATYPE_DATE_TIME, METATYPE_INTERVAL_WSEC,
     METATYPE_INTERVAL_WOSEC}"

definition set_param_size ::
    "wstr \<Rightarrow> dbc_types option \<Rightarrow> alloc \<Rightarrow> esodbc_desc \<Rightarrow> int \<Rightarrow> int \<Rightarrow> (esodbc_desc \<times> sqlreturn) option" where
  "set_param_size ver dbc al d n sz = do {
     irec \<leftarrow> mem_read (recs d) (nat n - 1);
     if sized_meta (meta_type irec)
     then EsSQLSetDescFieldW ver dbc al ALLOC_FAILS d n SQL_DESC_LENGTH sz [] SQL_IS_UINTEGER
     else Some (d, SQL_SUCCESS) }"

definition get_param_size :: "esodbc_rec \<Rightarrow> int option" where
  "get_param_size irec =
    (if sized_meta (meta_type irec) then Some (rec_length irec)
     else if meta_type irec = METATYPE_BIT \<or> meta_type irec = METATYPE_EXACT_NUMERIC then
       (if concise_type irec \<noteq> SQL_DECIMAL \<and> concise_type irec \<noteq> SQL_NUMERIC
        then map_option column_size (es_type irec) else Some (precision irec))
     else if meta_type irec = METATYPE_FLOAT_NUMERIC then Some (precision irec)
     else Some 0)"

text \<open>The data type of a parameter: \<open>None\<close> is a null pointer followed, \<open>Some None\<close> no match.\<close>

definition match_es_type :: "dbc_types \<Rightarrow> esodbc_rec \<Rightarrow> esodbc_estype option option" where
  "match_es_type dbc irec =
    (case find (\<lambda>e. data_type e = concise_type irec) (es_types dbc) of
       Some e \<Rightarrow>
         if concise_type irec = SQL_DOUBLE then Some (max_float_type dbc)
         else if concise_type irec = ES_WVARCHAR_SQL \<or> concise_type irec = ES_VARCHAR_SQL
           then Some (max_varchar_type dbc)
         else Some (Some e)
     | None \<Rightarrow>
         (case meta_type irec of
            METATYPE_EXACT_NUMERIC \<Rightarrow> lookup_es_type dbc SQL_DOUBLE (precision irec)
          | METATYPE_STRING \<Rightarrow> lookup_es_type dbc ES_TEXT_TO_SQL (precision irec)
          | METATYPE_BIN \<Rightarrow> lookup_es_type dbc SQL_BINARY 0
          | METATYPE_DATE_TIME \<Rightarrow> lookup_es_type dbc SQL_TYPE_TIMESTAMP 0
          | METATYPE_BIT \<Rightarrow> lookup_es_type dbc SQL_BIT 0
          | METATYPE_UID \<Rightarrow> lookup_es_type dbc ES_TEXT_TO_SQL 0
          | _ \<Rightarrow> Some None))"

definition SQL_PARAM_INPUT :: int where "SQL_PARAM_INPUT = 1"
definition SQL_DATA_AT_EXEC :: int where "SQL_DATA_AT_EXEC = - 2"
definition SQL_NTSL :: int where "SQL_NTSL = - 3"

definition apd_fields :: "int \<Rightarrow> int \<Rightarrow> int \<Rightarrow> int \<Rightarrow> (desc_field \<times> int \<times> int) list" where
  "apd_fields value_type value_ptr buffer_length ind =
    [(SQL_DESC_CONCISE_TYPE, value_type, SQL_IS_SMALLINT),
     (SQL_DESC_OCTET_LENGTH, buffer_length, SQL_IS_INTEGER),
     (SQL_DESC_OCTET_LENGTH_PTR, ind, SQL_LEN_BINARY_ATTR 8),
     (SQL_DESC_INDICATOR_PTR, ind, SQL_LEN_BINARY_ATTR 8),
     (SQL_DESC_DATA_PTR, value_ptr, SQL_IS_POINTER)]"

definition ipd_fields :: "int \<Rightarrow> int \<Rightarrow> (desc_field \<times> int \<times> int) list" where
  "ipd_fields param_type io_type =
    [(SQL_DESC_CONCISE_TYPE, param_type, SQL_IS_SMALLINT),
     (SQL_DESC_PARAMETER_TYPE, io_type, SQL_IS_SMALLINT)]"

text \<open>The label \<open>err\<close>: the counts that changed are set to the negated previous ones.\<close>

definition bind_param_failed ::
    "wstr \<Rightarrow> alloc \<Rightarrow> heap \<Rightarrow> nat \<Rightarrow> int \<Rightarrow> int \<Rightarrow> (heap \<times> sqlreturn) option" where
  "bind_param_failed ver al' h b apd_prev ipd_prev = do {
     s \<leftarrow> get_stmt h b;
     a \<leftarrow> get_desc h (apd s);
     h \<leftarrow> (if apd_prev \<noteq> count a
       then map_option fst (set_desc_field ver al' h (apd s) NO_REC_NR SQL_DESC_COUNT (- apd_prev) SQL_IS_SMALLINT)
       else Some h);
     i \<leftarrow> get_desc h (ipd s);
     h \<leftarrow> (if ipd_prev \<noteq> count i
       then map_option fst (set_desc_field ver al' h (ipd s) NO_REC_NR SQL_DESC_COUNT (- ipd_prev) SQL_IS_SMALLINT)
       else Some h);
     s \<leftarrow> get_stmt h b;
     ret \<leftarrow> RET_STATE (state (stmt_diag s));
     Some (h, ret) }"

definition copy_then_failed ::
    "wstr \<Rightarrow> alloc \<Rightarrow> heap \<Rightarrow> nat \<Rightarrow> ptr \<Rightarrow> int \<Rightarrow> int \<Rightarrow> (heap \<times> sqlreturn) option" where
  "copy_then_failed ver al' h b desc apd_prev ipd_prev = do {
     h \<leftarrow> HDIAG_COPY h desc b;
     bind_param_failed ver al' h b apd_prev ipd_prev }"

text \<open>After both records are set: the conversion is checked and the data type attached.\<close>

definition bind_param_convert ::
    "wstr \<Rightarrow> alloc \<Rightarrow> heap \<Rightarrow> nat \<Rightarrow> int \<Rightarrow> int \<Rightarrow> int \<Rightarrow> (heap \<times> sqlreturn) option" where
  "bind_param_convert ver al' h b n apd_prev ipd_prev = do {
     (h, ret, code) \<leftarrow> convertability_check ver h b (CONV_PARAM (nat n));
     if \<not> SQL_SUCCEEDED ret then bind_param_failed ver al' h b apd_prev ipd_prev
     else do {
       s \<leftarrow> get_stmt h b;
       i \<leftarrow> get_desc h (ipd s);
       irec \<leftarrow> mem_read (recs i) (nat n - 1);
       dbc \<leftarrow> desc_dbc h (ipd s);
       e \<leftarrow> match_es_type dbc irec;
       let i = upd_rec i (nat n - 1) (irec\<lparr>es_type := e\<rparr>);
       case e of
         Some _ \<Rightarrow> Some (put_desc h (ipd s) i, SQL_SUCCESS)
       | None \<Rightarrow> do {
           (i, _) \<leftarrow> RET_DESC_TEXT ver i SQL_STATE_HY000 ''parameter binding bug'';
           copy_then_failed ver al' (put_desc h (ipd s) i) b (ipd s) apd_prev ipd_prev } } }"

text \<open>\<open>ind_value\<close> is what the indicator points to.\<close>

definition EsSQLBindParameter ::
    "wstr \<Rightarrow> alloc \<Rightarrow> alloc \<Rightarrow> heap \<Rightarrow> nat \<Rightarrow> int \<Rightarrow> int \<Rightarrow> int \<Rightarrow> int \<Rightarrow> int \<Rightarrow> int \<Rightarrow> int \<Rightarrow> int \<Rightarrow> int \<Rightarrow> int
     \<Rightarrow> (heap \<times> sqlreturn) option" where
  "EsSQLBindParameter ver al al' h b n io_type value_type param_type col_size dec_digits
      value_ptr buffer_length ind ind_value = do {
     s \<leftarrow> get_stmt h b;
     if io_type \<noteq> SQL_PARAM_INPUT then
       RET_STMT_TEXT ver h b SQL_STATE_HYC00 ''parameter IO-type not supported''
     else if n < 1 then RET_STMT ver h b SQL_STATE_07009
     else if ind \<noteq> 0 \<and> (ind_value = SQL_DATA_AT_EXEC \<or> ind_value < SQL_NTSL) then
       RET_STMT_TEXT ver h b SQL_STATE_HYC00 ''data-at-exec not supported''
     else if ind = 0 \<and> value_ptr = 0 then RET_STMT ver h b SQL_STATE_HY009
     else do {
       a \<leftarrow> get_desc h (apd s);
       i \<leftarrow> get_desc h (ipd s);
       let dbc = desc_dbc h (apd s);
       let apd_prev = count a;
       let ipd_prev = count i;
       (a, ret) \<leftarrow> grow_then_set SQL_SUCCEEDED ver dbc al a n
          (apd_fields value_type value_ptr buffer_length ind);
       let h = put_desc h (apd s) a;
       if \<not> SQL_SUCCEEDED ret then copy_then_failed ver al' h b (apd s) apd_prev ipd_prev
       else do {
         (i, ret) \<leftarrow> grow_then_set SQL_SUCCEEDED ver dbc al i n (ipd_fields param_type io_type);
         (i, ret) \<leftarrow> (if SQL_SUCCEEDED ret then set_param_decdigits ver dbc al i (to_i16 n) dec_digits
           else Some (i, ret));
         (i, ret) \<leftarrow> (if SQL_SUCCEEDED ret then set_param_size ver dbc al i (to_i16 n) col_size
           else Some (i, ret));
         let h = put_desc h (ipd s) i;
         if \<not> SQL_SUCCEEDED ret then copy_then_failed ver al' h b (ipd s) apd_prev ipd_prev
         else bind_param_convert ver al' h b n apd_prev ipd_prev } } }"

section \<open>Single calls\<close>

definition settable :: "desc_type_et \<Rightarrow> bool" where
  "settable dt \<longleftrightarrow> dt \<in> {DESC_TYPE_ARD, DESC_TYPE_APD, DESC_TYPE_IPD}"

lemma set_count_call:
  assumes "settable (desc_type d)"
  shows "EsSQLSetDescFieldW ver dbc al sal d r SQL_DESC_COUNT n [] SQL_IS_SMALLINT =
    update_rec_count ver al d (to_i16 n)"
  using assms
  by (auto simp: settable_def EsSQLSetDescFieldW_def check_access_def check_buff_def is_header_field_def
      set_header_field_def)

text \<open>A descriptor with a record \<open>r\<close> at position \<open>i\<close>, not bound to a buffer.\<close>

definition has_rec :: "esodbc_desc \<Rightarrow> nat \<Rightarrow> esodbc_rec \<Rightarrow> bool" where
  "has_rec d i r \<longleftrightarrow> settable (desc_type d) \<and> i < length (recs d) \<and> count d = int (length (recs d)) \<and>
     recs d ! i = r \<and> data_ptr r = 0"

lemma has_rec_upd: "has_rec d i r \<Longrightarrow> data_ptr r' = 0 \<Longrightarrow> has_rec (upd_rec d i r') i r'"
  by (simp add: has_rec_def)

lemma upd_rec_twice [simp]: "upd_rec (upd_rec d i r) i r' = upd_rec d i r'"
  by (simp add: upd_rec_def)

lemma nat_position [simp]: "nat (int i + 1) - Suc 0 = i"
  by arith

lemma set_rec_call:
  assumes "has_rec d i r" and "n = int i + 1" and "check_access (desc_type d) f O_RDWR"
    and "check_buff f val len False = SQL_STATE_00000" and "\<not> is_header_field f" and "f \<noteq> SQL_DESC_DATA_PTR"
  shows "EsSQLSetDescFieldW ver dbc al sal d n f val buf len = set_rec_field ver dbc al sal d i n f val buf len"
proof -
  have "(recs d ! i)\<lparr>data_ptr := 0\<rparr> = recs d ! i"
    using assms(1) by (simp add: has_rec_def)
  then have "upd_rec d i ((recs d ! i)\<lparr>data_ptr := 0\<rparr>) = d"
    by (simp add: upd_rec_def)
  then show ?thesis
    using assms by (subst set_existing_record) (auto simp: has_rec_def)
qed

lemma set_simple_field:
  assumes "has_rec d i r" and "n = int i + 1"
  shows "EsSQLSetDescFieldW ver dbc al sal d n SQL_DESC_OCTET_LENGTH v [] SQL_IS_INTEGER =
      Some (upd_rec d i (r\<lparr>octet_length := to_i64 v\<rparr>), SQL_SUCCESS)"
    and "desc_type d \<noteq> DESC_TYPE_IPD \<Longrightarrow>
      EsSQLSetDescFieldW ver dbc al sal d n SQL_DESC_INDICATOR_PTR v [] (SQL_LEN_BINARY_ATTR 8) =
      Some (upd_rec d i (r\<lparr>indicator_ptr := v\<rparr>), SQL_SUCCESS)"
    and "desc_type d \<noteq> DESC_TYPE_IPD \<Longrightarrow>
      EsSQLSetDescFieldW ver dbc al sal d n SQL_DESC_OCTET_LENGTH_PTR v [] (SQL_LEN_BINARY_ATTR 8) =
      Some (upd_rec d i (r\<lparr>octet_length_ptr := v\<rparr>), SQL_SUCCESS)"
  using assms by (auto simp: set_rec_call has_rec_def settable_def check_access_def check_buff_def
      is_header_field_def set_rec_field_def is_string_field_def SQL_LEN_BINARY_ATTR_def
      DESC_TYPE_IS_APPLICATION_def)

lemma set_type_call:
  assumes "has_rec d i r" and "n = int i + 1"
  shows "EsSQLSetDescFieldW ver dbc al sal d n SQL_DESC_CONCISE_TYPE ty [] SQL_IS_SMALLINT =
    set_concise_type ver d i (to_i16 ty)"
  using assms by (auto simp: set_rec_call has_rec_def settable_def check_access_def check_buff_def
      is_header_field_def set_rec_field_def)

lemma bind_rec_call:
  assumes "has_rec d i r" and "n = int i + 1" and "consistency_check dbc (desc_type d) r = Some True" and "p \<noteq> 0"
  shows "EsSQLSetDescFieldW ver dbc al sal d n SQL_DESC_DATA_PTR p [] SQL_IS_POINTER =
    Some (upd_rec d i (r\<lparr>data_ptr := p\<rparr>), SQL_SUCCESS)"
  using assms set_data_ptr_field [of d SQL_IS_POINTER n ver dbc al sal p "[]"]
  by (auto simp: has_rec_def settable_def set_data_ptr_def Let_def)

lemma consistency_check_other_fields:
  "consistency_check dbc dt (rec\<lparr>octet_length := a, indicator_ptr := b, octet_length_ptr := c\<rparr>) =
   consistency_check dbc dt rec"
proof (cases rec)
  case fields
  show ?thesis
    unfolding consistency_check_def numeric_column_size_def fields esodbc_rec.simps ..
qed

text \<open>The record a column or parameter is bound with.\<close>

definition bound_rec :: "desc_type_et \<Rightarrow> int \<Rightarrow> int \<Rightarrow> int \<Rightarrow> int \<Rightarrow> esodbc_rec" where
  "bound_rec dt ty len ind p = (typed_rec dt (to_i16 ty))\<lparr>octet_length := to_i64 len, indicator_ptr := ind,
     octet_length_ptr := ind, data_ptr := p\<rparr>"

text \<open>The descriptor with the records up to \<open>n\<close> there.\<close>

definition grown :: "esodbc_desc \<Rightarrow> int \<Rightarrow> esodbc_desc" where
  "grown d n = d\<lparr>count := n, recs := recs d @ replicate (nat n - length (recs d)) (init_rec (desc_type d))\<rparr>"

lemma grown_call:
  assumes "desc_ok ver d" and "settable (desc_type d)" and "count d < n" and "n \<le> ESODBC_MAX_DESC_COUNT"
    and "al \<noteq> ALLOC_FAILS"
  shows "EsSQLSetDescFieldW ver dbc al sal d NO_REC_NR SQL_DESC_COUNT n [] SQL_IS_SMALLINT =
      Some (grown d n, SQL_SUCCESS)"
    and "has_rec (grown d n) (nat n - 1) (init_rec (desc_type d))"
    and "to_i16 n = n" and "0 < n" and "n = int (nat n - 1) + 1"
proof -
  have c: "count d = int (length (recs d))" "to_i16 n = n"
    using desc_okD(1) [OF assms(1)] assms(3,4) by (simp_all add: to_i16_id ESODBC_MAX_DESC_COUNT_def)
  show "EsSQLSetDescFieldW ver dbc al sal d NO_REC_NR SQL_DESC_COUNT n [] SQL_IS_SMALLINT =
      Some (grown d n, SQL_SUCCESS)"
    using c assms update_rec_count_grows [OF assms(1) _ assms(4,5)] by (simp add: set_count_call grown_def)
  show "has_rec (grown d n) (nat n - 1) (init_rec (desc_type d))"
    using c assms(2,3) by (auto simp: has_rec_def grown_def nth_append init_rec_def zero_rec_def)
  show "to_i16 n = n" "0 < n" "n = int (nat n - 1) + 1"
    using c assms(3) by simp_all
qed

lemma typed_init_rec:
  "concise_to_meta ty dt \<noteq> METATYPE_UNKNOWN \<Longrightarrow> has_rec d i (init_rec dt) \<Longrightarrow> desc_type d = dt \<Longrightarrow>
   set_concise_type ver d i ty = Some (upd_rec d i (typed_rec dt ty), SQL_SUCCESS)"
  by (simp add: set_concise_type_def typed_rec_def has_rec_def)

lemma pointer_fields_commute:
  "r\<lparr>octet_length_ptr := a, indicator_ptr := b\<rparr> = r\<lparr>indicator_ptr := b, octet_length_ptr := a\<rparr>"
  by (cases r) simp

lemma set_fields_binds:
  assumes "has_rec d i (init_rec dt)" and "desc_type d = dt" and "dt = DESC_TYPE_ARD \<or> dt = DESC_TYPE_APD"
    and "n = int i + 1" and "types_loaded dbc" and "concise_to_meta (to_i16 ty) dt \<noteq> METATYPE_UNKNOWN"
    and "p \<noteq> 0" and "good SQL_SUCCESS"
  shows "set_fields good ver (Some dbc) al d n (bind_col_fields ty p len ind) =
      Some (upd_rec d i (bound_rec dt ty len ind p), SQL_SUCCESS)"
    and "set_fields good ver (Some dbc) al d n (apd_fields ty p len ind) =
      Some (upd_rec d i (bound_rec dt ty len ind p), SQL_SUCCESS)"
proof -
  let ?r1 = "typed_rec dt (to_i16 ty)"
  let ?r2 = "?r1\<lparr>octet_length := to_i64 len\<rparr>"
  let ?r3 = "?r2\<lparr>indicator_ptr := ind\<rparr>" let ?r3' = "?r2\<lparr>octet_length_ptr := ind\<rparr>"
  let ?r4 = "?r2\<lparr>indicator_ptr := ind, octet_length_ptr := ind\<rparr>"
  have d1: "has_rec (upd_rec d i ?r1) i ?r1"
    using has_rec_upd [OF assms(1)] by simp
  then have d2: "has_rec (upd_rec d i ?r2) i ?r2"
    using has_rec_upd [OF d1, of ?r2] by simp
  then have d3: "has_rec (upd_rec d i ?r3) i ?r3" "has_rec (upd_rec d i ?r3') i ?r3'"
      "has_rec (upd_rec d i ?r4) i ?r4"
    using has_rec_upd [OF d2, of ?r3] has_rec_upd [OF d2, of ?r3'] has_rec_upd [OF d2, of ?r4] by simp_all
  have "consistency_check (Some dbc) dt ?r1 = Some True"
    using assms(3,5,6) by (intro typed_rec_consistent) auto
  then have chk: "consistency_check (Some dbc) dt ?r4 = Some True"
    by (simp add: consistency_check_other_fields [where a = "to_i64 len" and b = ind and c = ind and rec = ?r1, symmetric])
  have ty: "EsSQLSetDescFieldW ver (Some dbc) al ALLOC_FAILS d n SQL_DESC_CONCISE_TYPE ty [] SQL_IS_SMALLINT =
      Some (upd_rec d i ?r1, SQL_SUCCESS)"
    using set_type_call [OF assms(1,4)] typed_init_rec [OF assms(6,1,2)] by simp
  have ipd: "desc_type d \<noteq> DESC_TYPE_IPD"
    using assms(2,3) by auto
  note calls = ty set_simple_field(1) [OF d1 assms(4)] set_simple_field(2,3) [OF d2 assms(4)]
    set_simple_field(3) [OF d3(1) assms(4)] set_simple_field(2) [OF d3(2) assms(4)]
    bind_rec_call [OF d3(3) assms(4) _ assms(7)]
  show "set_fields good ver (Some dbc) al d n (bind_col_fields ty p len ind) =
      Some (upd_rec d i (bound_rec dt ty len ind p), SQL_SUCCESS)"
    using calls ipd chk assms(2,8) by (simp add: bind_col_fields_def bound_rec_def)
  show "set_fields good ver (Some dbc) al d n (apd_fields ty p len ind) =
      Some (upd_rec d i (bound_rec dt ty len ind p), SQL_SUCCESS)"
    using calls ipd chk assms(2,8) by (simp add: apd_fields_def bound_rec_def pointer_fields_commute)
qed

section \<open>Binding a column\<close>

lemma get_stmt_put_desc:
  assumes "get_stmt h b = Some s" and "get_desc h p = Some d"
  shows "\<exists>s'. get_stmt (put_desc h p d') b = Some s' \<and> ard s' = ard s \<and> apd s' = apd s \<and> ipd s' = ipd s \<and>
    stmt_diag s' = stmt_diag s"
  using assms(2)
proof (cases rule: get_desc_cases)
  case (user c par)
  then show ?thesis using assms(1) by (auto simp: get_stmt_def)
next
  case (embedded c m s')
  then show ?thesis using assms(1) by (auto simp: get_stmt_def)
qed

lemma get_desc_put_stmt:
  assumes "get_stmt h b = Some s" and "get_desc h p = Some d" and "i_ard s' = i_ard s" "i_ird s' = i_ird s"
    "i_apd s' = i_apd s" "i_ipd s' = i_ipd s"
  shows "get_desc (put_stmt h b s') p = Some d"
  using assms(2)
proof (cases rule: get_desc_cases)
  case (user c par)
  then show ?thesis using assms(1) by (auto simp: get_stmt_Some put_stmt_def)
next
  case (embedded c m s'')
  then show ?thesis
    using assms by (cases m) (auto simp: get_stmt_Some put_stmt_def)
qed

text \<open>Binding a new column. With the data types of the connection loaded, a C type the driver knows and
  a buffer, the ARD grows to the column, whose record becomes the one of that type with the buffer, its
  length and its indicator; the columns in between are there and not bound, the others are as they were,
  and the conversions are to be checked again.\<close>
theorem bind_new_column:
  assumes "heap_ok ver h" and "get_stmt h b = Some s" and "get_desc h (ard s) = Some d"
    and "desc_dbc h (ard s) = Some dbc" and "types_loaded dbc" and "al \<noteq> ALLOC_FAILS"
    and "count d < col" and "col \<le> ESODBC_MAX_DESC_COUNT" and "0 \<le> len" and "p \<noteq> 0"
    and "concise_to_meta (to_i16 ty) DESC_TYPE_ARD \<noteq> METATYPE_UNKNOWN"
  shows "\<exists>h' s' d'. EsSQLBindCol ver al al' h b col ty p len ind = Some (h', SQL_SUCCESS) \<and>
    get_stmt h' b = Some s' \<and> sql2c_conversion s' = 0 \<and> ard s' = ard s \<and> get_desc h' (ard s) = Some d' \<and>
    count d' = col \<and>
    recs d' = recs d @ replicate (nat col - 1 - length (recs d)) (init_rec DESC_TYPE_ARD) @
      [bound_rec DESC_TYPE_ARD ty len ind p]"
proof -
  have ok: "desc_ok ver d" and c: "count d = int (length (recs d))"
    using get_desc_ok [OF assms(1,3)] desc_okD(1) by blast+
  have dt: "desc_type d = DESC_TYPE_ARD"
    using heap_ok_stmt [OF assms(1,2)] assms(2,3)
    by (auto simp: stmt_ok_def embedded_ok_def user_ard_def get_stmt_Some
        split: ptr.splits member.splits option.splits handle.splits)
  then have "settable (desc_type d)" by (simp add: settable_def)
  note grow = grown_call [OF ok this assms(7,8,6), unfolded dt]
  define d' where "d' = upd_rec (grown d col) (nat col - 1) (bound_rec DESC_TYPE_ARD ty len ind p)"
  have fields: "set_fields (\<lambda>ret. ret = SQL_SUCCESS) ver (Some dbc) al (grown d col) (to_i16 col)
      (bind_col_fields ty p len ind) = Some (d', SQL_SUCCESS)"
    unfolding d'_def grow(3)
    by (rule set_fields_binds(1) [OF grow(2) _ _ grow(5) assms(5,11,10)]) (simp_all add: grown_def dt)
  obtain s' where s': "get_stmt (put_desc h (ard s) d') b = Some s'" "ard s' = ard s"
    using get_stmt_put_desc [OF assms(2,3)] by blast
  let ?h = "put_stmt (put_desc h (ard s) d') b (s'\<lparr>sql2c_conversion := 0\<rparr>)"
  have "EsSQLBindCol ver al al' h b col ty p len ind = Some (?h, SQL_SUCCESS)"
    using assms(2-4,7,9) grow(1,4) fields s'(1)
    by (simp add: EsSQLBindCol_def Let_def SQL_SUCCEEDED_def)
  moreover have "get_desc ?h (ard s) = Some d'"
    by (rule get_desc_put_stmt [OF s'(1) put_desc_again(1) [OF assms(3)]]) simp_all
  moreover have "recs d' = recs d @ replicate (nat col - 1 - length (recs d)) (init_rec DESC_TYPE_ARD) @
      [bound_rec DESC_TYPE_ARD ty len ind p]"
  proof -
    have "nat col - length (recs d) = Suc (nat col - 1 - length (recs d))"
      using assms(7) c by simp
    then have "recs (grown d col) = (recs d @ replicate (nat col - 1 - length (recs d)) (init_rec DESC_TYPE_ARD))
        @ [init_rec DESC_TYPE_ARD]"
      using dt by (simp add: grown_def replicate_append_same)
    moreover have "nat col - 1 = length (recs d @ replicate (nat col - 1 - length (recs d)) (init_rec DESC_TYPE_ARD))"
      using assms(7) c by simp
    ultimately show ?thesis
      unfolding d'_def by (simp add: list_update_append)
  qed
  moreover have "count d' = col" by (simp add: d'_def grown_def)
  ultimately show ?thesis
    using s'(2) by (intro exI [of _ ?h] exI [of _ "s'\<lparr>sql2c_conversion := 0\<rparr>"] exI [of _ d']) simp
qed

lemma sample_types_loaded: "types_loaded sample_types"
  by (simp add: sample_types_def sample_estype_def types_loaded_def numeric_es_types_def lookup_es_type_def)

lemma bind_new_column_witness:
  "\<exists>h h' s d'. get_stmt h 2 = Some s \<and>
    EsSQLBindCol (wlit ''1.0'') ALLOC_MOVES ALLOC_FAILS h 2 2 SQL_C_SLONG 4096 4 8192 = Some (h', SQL_SUCCESS) \<and>
    get_desc h' (ard s) = Some d' \<and> count d' = 2 \<and> map data_ptr (recs d') = [0, 4096]"
proof -
  obtain h s where h: "reachable (wlit ''1.0'') h" "get_stmt h 2 = Some s" "ard s = PTR 2 I_ARD"
      "i_ard s = new_desc DESC_TYPE_ARD SQL_DESC_ALLOC_AUTO" "desc_dbc h (PTR 2 I_ARD) = Some sample_types"
    using sample_reachable by blast
  have d: "get_desc h (ard s) = Some (new_desc DESC_TYPE_ARD SQL_DESC_ALLOC_AUTO)"
    using h(2-4) by (simp add: get_stmt_Some)
  have known: "concise_to_meta (to_i16 SQL_C_SLONG) DESC_TYPE_ARD \<noteq> METATYPE_UNKNOWN"
    by code_simp
  obtain h' d' where "EsSQLBindCol (wlit ''1.0'') ALLOC_MOVES ALLOC_FAILS h 2 2 SQL_C_SLONG 4096 4 8192 =
      Some (h', SQL_SUCCESS)" "get_desc h' (ard s) = Some d'" "count d' = 2"
    "recs d' = [init_rec DESC_TYPE_ARD, bound_rec DESC_TYPE_ARD SQL_C_SLONG 4 8192 4096]"
    using bind_new_column [OF reachable_ok [OF h(1) sample_ver_ok] h(2) d _ sample_types_loaded _ _ _ _ _ known,
        of ALLOC_MOVES 2 4 4096 ALLOC_FAILS 8192] h(3,5)
    by (auto simp: ESODBC_MAX_DESC_COUNT_def)
  with h(2) show ?thesis
    by (fastforce simp: bound_rec_def init_rec_def zero_rec_def)
qed

text \<open>Asking for a type the driver does not know.\<close>

lemma set_unknown_type:
  assumes "has_rec d i r" and "n = int i + 1" and "concise_to_meta (to_i16 ty) (desc_type d) = METATYPE_UNKNOWN"
    and "desc_type d = DESC_TYPE_ARD \<or> desc_type d = DESC_TYPE_APD" and "diag_ok ver (desc_diag d)"
  shows "EsSQLSetDescFieldW ver dbc al sal d n SQL_DESC_CONCISE_TYPE ty [] SQL_IS_SMALLINT =
    Some ((upd_rec d i (with_concise_type (desc_type d) r (to_i16 ty)))\<lparr>desc_diag :=
      posted ver (desc_diag d) SQL_STATE_HY003 (default_message SQL_STATE_HY003)\<rparr>, SQL_ERROR)"
proof -
  let ?d = "upd_rec d i (with_concise_type (desc_type d) r (to_i16 ty))"
  have "diag_ok ver (desc_diag ?d)" using assms(5) by simp
  from RET_DESC_ok [OF this, of SQL_STATE_HY003]
  have "RET_DESC ver ?d SQL_STATE_HY003 =
      Some (?d\<lparr>desc_diag := posted ver (desc_diag d) SQL_STATE_HY003 (default_message SQL_STATE_HY003)\<rparr>, SQL_ERROR)"
    by (simp add: retcode_error)
  then show ?thesis
    using assms(1-4)
    by (auto simp: set_type_call set_concise_type_def has_rec_def DESC_TYPE_IS_APPLICATION_def)
qed

text \<open>What is left of the count when it is set back to \<open>n\<close>.\<close>

lemma count_set_back:
  assumes "desc_ok ver d" and "settable (desc_type d)" and "n < count d" and "0 \<le> n"
  shows "\<exists>d'. EsSQLSetDescFieldW ver dbc ALLOC_IN_PLACE sal d r SQL_DESC_COUNT n [] SQL_IS_SMALLINT = Some (d', SQL_SUCCESS) \<and>
    count d' = n"
  using assms desc_okD(1,2) [OF assms(1)]
  by (auto simp: set_count_call update_rec_count_def to_i16_id ESODBC_MAX_DESC_COUNT_def)

text \<open>The diagnostic of a descriptor in the heap after it was copied to the statement.\<close>

lemma copied_state:
  assumes "get_stmt h b = Some s" and "get_desc h p = Some d"
  shows "HDIAG_COPY h p b = Some (put_stmt h b (s\<lparr>stmt_diag := desc_diag d\<rparr>))"
    and "get_stmt (put_stmt h b (s\<lparr>stmt_diag := desc_diag d\<rparr>)) b = Some (s\<lparr>stmt_diag := desc_diag d\<rparr>)"
    and "get_desc (put_stmt h b (s\<lparr>stmt_diag := desc_diag d\<rparr>)) p = Some d"
  using assms by (simp_all add: HDIAG_COPY_def get_desc_put_stmt)

lemma desc_dbc_put [simp]:
  assumes "get_desc h p = Some d"
  shows "desc_dbc (put_desc h p d') q = desc_dbc h q"
  using assms
proof (cases rule: get_desc_cases)
  case (user c par)
  have "hdr_parent (put_desc h p d') q = hdr_parent h q" for q
    using user by (cases q) auto
  then show ?thesis
    using user by (simp add: desc_dbc_def cong: ptr.case_cong) (auto split: ptr.splits member.splits Option.bind_splits)
next
  case (embedded c m s)
  have "hdr_parent (put_desc h p d') q = hdr_parent h q" for q
    using embedded by (cases q; cases m) auto
  then show ?thesis
    using embedded by (simp add: desc_dbc_def cong: ptr.case_cong) (auto split: ptr.splits member.splits Option.bind_splits)
qed

text \<open>A failed binding of a new column. The C type is not one the driver knows, and the call fails with
  HY003. The ARD, which had been grown to the column, is to have its count back; it gets it back if
  there were records before, but not if there were none: the previous count is kept negated to tell
  that it is to be restored, and zero negated is still zero. The columns up to the one that failed
  are then left in the descriptor.\<close>
theorem bind_column_failed:
  assumes "heap_ok ver h" and "get_stmt h b = Some s" and "get_desc h (ard s) = Some d"
    and "al \<noteq> ALLOC_FAILS" and "count d < col" and "col \<le> ESODBC_MAX_DESC_COUNT" and "0 \<le> len"
    and "concise_to_meta (to_i16 ty) DESC_TYPE_ARD = METATYPE_UNKNOWN"
  shows "\<exists>h' s' d'. EsSQLBindCol ver al ALLOC_IN_PLACE h b col ty p len ind = Some (h', SQL_ERROR) \<and>
    get_stmt h' b = Some s' \<and> state (stmt_diag s') = SQL_STATE_HY003 \<and> get_desc h' (ard s) = Some d' \<and>
    count d' = (if count d = 0 then col else count d)"
proof -
  have ok: "desc_ok ver d" and c: "count d = int (length (recs d))"
    using get_desc_ok [OF assms(1,3)] desc_okD(1) by blast+
  have dt: "desc_type d = DESC_TYPE_ARD"
    using heap_ok_stmt [OF assms(1,2)] assms(2,3)
    by (auto simp: stmt_ok_def embedded_ok_def user_ard_def get_stmt_Some
        split: ptr.splits member.splits option.splits handle.splits)
  then have set: "settable (desc_type d)" by (simp add: settable_def)
  note grow = grown_call [OF ok set assms(5,6,4), unfolded dt]
  let ?r = "with_concise_type DESC_TYPE_ARD (init_rec DESC_TYPE_ARD) (to_i16 ty)"
  define d1 where "d1 = (upd_rec (grown d col) (nat col - 1) ?r)\<lparr>desc_diag :=
    posted ver (desc_diag d) SQL_STATE_HY003 (default_message SQL_STATE_HY003)\<rparr>"
  have gd: "desc_type (grown d col) = DESC_TYPE_ARD" "desc_diag (grown d col) = desc_diag d" "count (grown d col) = col"
    using dt by (simp_all add: grown_def)
  have "EsSQLSetDescFieldW ver dbc al ALLOC_FAILS (grown d col) (to_i16 col) SQL_DESC_CONCISE_TYPE ty [] SQL_IS_SMALLINT
      = Some (d1, SQL_ERROR)" for dbc
    using set_unknown_type [OF grow(2,5), of ty ver dbc al ALLOC_FAILS] grow(3) gd assms(8) desc_okD(3) [OF ok]
    by (simp add: d1_def)
  then have fields: "set_fields (\<lambda>ret. ret = SQL_SUCCESS) ver dbc al (grown d col) (to_i16 col)
      (bind_col_fields ty p len ind) = Some (d1, SQL_ERROR)" for dbc
    by (simp add: bind_col_fields_def)
  let ?h1 = "put_desc h (ard s) d1"
  obtain s1 where s1: "get_stmt ?h1 b = Some s1" "ard s1 = ard s"
    using get_stmt_put_desc [OF assms(2,3)] by blast
  have d1: "get_desc ?h1 (ard s) = Some d1"
    by (rule put_desc_again(1) [OF assms(3)])
  note copy = copied_state [OF s1(1) d1]
  let ?s2 = "s1\<lparr>stmt_diag := desc_diag d1\<rparr>" let ?h2 = "put_stmt ?h1 b ?s2"
  have st: "state (stmt_diag ?s2) = SQL_STATE_HY003" "RET_STATE SQL_STATE_HY003 = Some SQL_ERROR"
    by (simp add: d1_def, code_simp)
  have unfold: "EsSQLBindCol ver al ALLOC_IN_PLACE h b col ty p len ind =
      bind_col_failed ver ALLOC_IN_PLACE ?h1 b (ard s) (- count d)"
    using assms(2,3,5,7) grow(1,4) fields by (simp add: EsSQLBindCol_def Let_def SQL_SUCCEEDED_def)
  show ?thesis
  proof (cases "count d = 0")
    case True
    then have "bind_col_failed ver ALLOC_IN_PLACE ?h1 b (ard s) (- count d) = Some (?h2, SQL_ERROR)"
      using copy st by (simp add: bind_col_failed_def)
    moreover have "count d1 = col" using gd by (simp add: d1_def)
    ultimately show ?thesis
      using unfold copy(2,3) st(1) True
      by (intro exI [of _ ?h2] exI [of _ ?s2] exI [of _ d1]) simp
  next
    case False
    have ok1: "desc_ok ver d1"
      using ok c assms(5,6) grow(4) dt
      by (auto simp: d1_def grown_def desc_ok_def dest!: set_update_subset_insert [THEN subsetD]
          simp: rec_ok_def init_rec_def zero_rec_def)
    obtain d2 where d2: "\<And>dbc. EsSQLSetDescFieldW ver dbc ALLOC_IN_PLACE ALLOC_FAILS d1 NO_REC_NR SQL_DESC_COUNT
        (count d) [] SQL_IS_SMALLINT = Some (d2, SQL_SUCCESS)" "count d2 = count d"
    proof -
      have s: "settable (desc_type d1)" and l: "count d < count d1" "0 \<le> count d"
        using set gd dt assms(5) c by (simp_all add: d1_def)
      from count_set_back [OF ok1 s l, of None ALLOC_FAILS NO_REC_NR] that set_count_call [OF s]
      show ?thesis by auto
    qed
    let ?h3 = "put_desc ?h2 (ard s) d2"
    obtain s3 where s3: "get_stmt ?h3 b = Some s3" "stmt_diag s3 = stmt_diag ?s2"
      using get_stmt_put_desc [OF copy(2,3)] by blast
    have "set_desc_field ver ALLOC_IN_PLACE ?h2 (ard s) NO_REC_NR SQL_DESC_COUNT (count d) SQL_IS_SMALLINT =
        Some (?h3, SQL_SUCCESS)"
      using copy(3) d2(1) by (simp add: set_desc_field_def)
    then have "bind_col_failed ver ALLOC_IN_PLACE ?h1 b (ard s) (- count d) = Some (?h3, SQL_ERROR)"
      using copy s3 st False c by (simp add: bind_col_failed_def)
    then show ?thesis
      using unfold s3 st(1) d2(2) False put_desc_again(1) [OF copy(3)]
      by (intro exI [of _ ?h3] exI [of _ s3] exI [of _ d2]) simp
  qed
qed

lemma bind_column_failed_witness:
  "\<exists>h h' s d'. get_stmt h 2 = Some s \<and> recs (i_ard s) = [] \<and>
    EsSQLBindCol (wlit ''1.0'') ALLOC_IN_PLACE ALLOC_IN_PLACE h 2 3 1000 4096 4 0 = Some (h', SQL_ERROR) \<and>
    get_desc h' (ard s) = Some d' \<and> count d' = 3"
proof -
  obtain h s where h: "reachable (wlit ''1.0'') h" "get_stmt h 2 = Some s" "ard s = PTR 2 I_ARD"
      "i_ard s = new_desc DESC_TYPE_ARD SQL_DESC_ALLOC_AUTO"
    using sample_reachable by blast
  have d: "get_desc h (ard s) = Some (new_desc DESC_TYPE_ARD SQL_DESC_ALLOC_AUTO)"
    using h(2-4) by (simp add: get_stmt_Some)
  have unknown: "concise_to_meta (to_i16 1000) DESC_TYPE_ARD = METATYPE_UNKNOWN"
    by code_simp
  from bind_column_failed [OF reachable_ok [OF h(1) sample_ver_ok] h(2) d _ _ _ _ unknown,
      of ALLOC_IN_PLACE 3 4 4096 0] h(2,4)
  show ?thesis by (fastforce simp: ESODBC_MAX_DESC_COUNT_def)
qed

section \<open>Binding a parameter\<close>

lemma param_descs:
  assumes "heap_ok ver h" and "get_stmt h b = Some s"
  shows "apd s = PTR b I_APD" and "ipd s = PTR b I_IPD" and "get_desc h (apd s) = Some (i_apd s)"
    and "get_desc h (ipd s) = Some (i_ipd s)" and "desc_ok ver (i_apd s)" and "desc_ok ver (i_ipd s)"
    and "desc_type (i_apd s) = DESC_TYPE_APD" and "desc_type (i_ipd s) = DESC_TYPE_IPD"
  using heap_ok_stmt [OF assms] assms(2) by (simp_all add: stmt_ok_def embedded_ok_def get_stmt_Some)

text \<open>The count of a descriptor set to the negation of what it was.\<close>

lemma count_set_negated:
  assumes "desc_ok ver d" and "settable (desc_type d)" and "0 \<le> n" and "n \<le> ESODBC_MAX_DESC_COUNT"
  shows "\<exists>d' ret. (\<forall>dbc. EsSQLSetDescFieldW ver dbc al sal d r SQL_DESC_COUNT (- n) [] SQL_IS_SMALLINT = Some (d', ret)) \<and>
    count d' = (if n = 0 then 0 else count d)"
proof -
  have "\<exists>d' ret. update_rec_count ver al d (- n) = Some (d', ret) \<and> count d' = (if n = 0 then 0 else count d)"
  proof (cases "n = 0")
    case True
    then show ?thesis by (auto simp: update_rec_count_def ESODBC_MAX_DESC_COUNT_def)
  next
    case False
    then show ?thesis
      using update_rec_count_invalid [OF assms(1), of "- n" al] assms(3) by (auto simp: update_rec_count_def)
  qed
  then show ?thesis
    using assms by (simp add: set_count_call to_i16_id ESODBC_MAX_DESC_COUNT_def)
qed

text \<open>A failed binding of a new parameter. The value's C type is not one the driver knows, and the call
  fails with HY003. The specification asks for the counts of both parameter descriptors to be
  unchanged. The IPD's is, for it was not reached. The APD's is only if it was zero: the count is
  set back to the negated previous one, which is refused as negative, and the records up to the
  parameter that failed stay.\<close>
theorem bind_parameter_failed:
  assumes "heap_ok ver h" and "get_stmt h b = Some s" and "al \<noteq> ALLOC_FAILS"
    and "count (i_apd s) < n" and "n \<le> ESODBC_MAX_DESC_COUNT" and "p \<noteq> 0" and "ind = 0"
    and "concise_to_meta (to_i16 ty) DESC_TYPE_APD = METATYPE_UNKNOWN"
  shows "\<exists>h' s'. EsSQLBindParameter ver al al' h b n SQL_PARAM_INPUT ty sql_ty sz dig p len ind x = Some (h', SQL_ERROR) \<and>
    get_stmt h' b = Some s' \<and> state (stmt_diag s') = SQL_STATE_HY003 \<and> i_ipd s' = i_ipd s \<and>
    count (i_apd s') = (if count (i_apd s) = 0 then 0 else n)"
proof -
  note P = param_descs [OF assms(1,2)]
  have hs: "h b = Some (STMT s)" using assms(2) by (simp add: get_stmt_Some)
  have c: "count (i_apd s) = int (length (recs (i_apd s)))"
    using desc_okD(1) [OF P(5)] .
  have set: "settable (desc_type (i_apd s))" using P(7) by (simp add: settable_def)
  note grow = grown_call [OF P(5) set assms(4,5,3), unfolded P(7)]
  let ?r = "with_concise_type DESC_TYPE_APD (init_rec DESC_TYPE_APD) (to_i16 ty)"
  define a1 where "a1 = (upd_rec (grown (i_apd s) n) (nat n - 1) ?r)\<lparr>desc_diag :=
    posted ver (desc_diag (i_apd s)) SQL_STATE_HY003 (default_message SQL_STATE_HY003)\<rparr>"
  have gd: "desc_type (grown (i_apd s) n) = DESC_TYPE_APD" "desc_diag (grown (i_apd s) n) = desc_diag (i_apd s)"
      "count (grown (i_apd s) n) = n"
    using P(7) by (simp_all add: grown_def)
  have a1: "count a1 = n" "desc_type a1 = DESC_TYPE_APD" "state (desc_diag a1) = SQL_STATE_HY003"
    using gd by (simp_all add: a1_def)
  have ok1: "desc_ok ver a1"
    using P(5) c assms(4,5) grow(4) P(7)
    by (auto simp: a1_def grown_def desc_ok_def dest!: set_update_subset_insert [THEN subsetD]
        simp: rec_ok_def init_rec_def zero_rec_def)
  have "EsSQLSetDescFieldW ver dbc al ALLOC_FAILS (grown (i_apd s) n) (to_i16 n) SQL_DESC_CONCISE_TYPE ty [] SQL_IS_SMALLINT
      = Some (a1, SQL_ERROR)" for dbc
    using set_unknown_type [OF grow(2,5), of ty ver dbc al ALLOC_FAILS] grow(3) gd assms(8) desc_okD(3) [OF P(5)]
    by (simp add: a1_def)
  then have fields: "grow_then_set SQL_SUCCEEDED ver dbc al (i_apd s) n (apd_fields ty p len ind) = Some (a1, SQL_ERROR)" for dbc
    using grow(1) assms(4) by (simp add: grow_then_set_def apd_fields_def SQL_SUCCEEDED_def)
  obtain a2 ret where a2: "\<And>dbc. EsSQLSetDescFieldW ver dbc al' ALLOC_FAILS a1 NO_REC_NR SQL_DESC_COUNT
      (- count (i_apd s)) [] SQL_IS_SMALLINT = Some (a2, ret)" "count a2 = (if count (i_apd s) = 0 then 0 else n)"
    using count_set_negated [OF ok1, of "count (i_apd s)" al' ALLOC_FAILS NO_REC_NR] a1 c assms(4,5)
    by (auto simp: settable_def)
  let ?s1 = "s\<lparr>i_apd := a1\<rparr>" let ?s2 = "?s1\<lparr>stmt_diag := desc_diag a1\<rparr>" let ?s3 = "?s2\<lparr>i_apd := a2\<rparr>"
  let ?h1 = "put_stmt h b ?s1" let ?h2 = "put_stmt h b ?s2" let ?h3 = "put_stmt h b ?s3"
  have h1: "put_desc h (apd s) a1 = ?h1"
    using hs P(1) by (simp add: put_stmt_def)
  have copy: "HDIAG_COPY ?h1 (apd s) b = Some ?h2"
    using P(1) by (simp add: HDIAG_COPY_def put_stmt_def get_stmt_def)
  have reset: "set_desc_field ver al' ?h2 (apd s) NO_REC_NR SQL_DESC_COUNT (- count (i_apd s)) SQL_IS_SMALLINT =
      Some (?h3, ret)"
    using P(1) a2(1) by (simp add: set_desc_field_def put_stmt_def)
  have apd2: "get_desc ?h2 (apd s) = Some a1" and ipd3: "get_desc ?h3 (ipd s) = Some (i_ipd s)"
    using P(1,2) by (simp_all add: put_stmt_def)
  have st: "RET_STATE SQL_STATE_HY003 = Some SQL_ERROR" by code_simp
  have failed: "bind_param_failed ver al' ?h2 b (count (i_apd s)) (count (i_ipd s)) = Some (?h3, SQL_ERROR)"
    using reset apd2 ipd3 a1 assms(4) st by (simp add: bind_param_failed_def)
  have "EsSQLBindParameter ver al al' h b n SQL_PARAM_INPUT ty sql_ty sz dig p len ind x = Some (?h3, SQL_ERROR)"
    using assms(2,6,7) grow(4) P(3,4) fields h1 copy failed
    by (simp add: EsSQLBindParameter_def Let_def SQL_SUCCEEDED_def copy_then_failed_def)
  then show ?thesis
    using a2(2) a1(3) by (intro exI [of _ ?h3] exI [of _ ?s3]) simp
qed

lemma bind_parameter_failed_witness:
  "\<exists>h h' s'. EsSQLBindParameter (wlit ''1.0'') ALLOC_IN_PLACE ALLOC_IN_PLACE h 2 1 SQL_PARAM_INPUT 1000 SQL_INTEGER
      0 0 4096 0 0 0 = Some (h', SQL_ERROR) \<and> get_stmt h' 2 = Some s' \<and> count (i_apd s') = 0"
proof -
  obtain h s where h: "reachable (wlit ''1.0'') h" "get_stmt h 2 = Some s"
      "i_apd s = new_desc DESC_TYPE_APD SQL_DESC_ALLOC_AUTO"
    using sample_reachable by blast
  have unknown: "concise_to_meta (to_i16 1000) DESC_TYPE_APD = METATYPE_UNKNOWN"
    by code_simp
  from bind_parameter_failed [OF reachable_ok [OF h(1) sample_ver_ok] h(2) _ _ _ _ _ unknown,
      of ALLOC_IN_PLACE 1 4096 0 ALLOC_IN_PLACE SQL_INTEGER 0 0 0 0] h(3)
  show ?thesis by (fastforce simp: ESODBC_MAX_DESC_COUNT_def)
qed

section \<open>A parameter bound\<close>

text \<open>The record of a new parameter: of its type, with the digits and the size the type takes.\<close>

definition digits_field :: "int \<Rightarrow> desc_field option" where
  "digits_field ty =
    (case sqltype_to_meta ty of
       METATYPE_DATE_TIME \<Rightarrow> if ty = SQL_TYPE_DATE then None else Some SQL_DESC_PRECISION
     | METATYPE_INTERVAL_WSEC \<Rightarrow> Some SQL_DESC_PRECISION
     | METATYPE_EXACT_NUMERIC \<Rightarrow> if ty = SQL_DECIMAL \<or> ty = SQL_NUMERIC then Some SQL_DESC_SCALE else None
     | _ \<Rightarrow> None)"

definition param_rec :: "int \<Rightarrow> int \<Rightarrow> int \<Rightarrow> esodbc_rec" where
  "param_rec ty digits sz =
    (let r = (typed_rec DESC_TYPE_IPD ty)\<lparr>parameter_type := SQL_PARAM_INPUT\<rparr>;
         r = (case digits_field ty of Some f \<Rightarrow>
             if f = SQL_DESC_SCALE then r\<lparr>scale := to_i16 digits\<rparr> else r\<lparr>precision := to_i16 digits\<rparr>
           | None \<Rightarrow> r)
     in if sized_meta (sqltype_to_meta ty) then r\<lparr>rec_length := to_u64 sz\<rparr> else r)"

lemma set_ipd_field:
  assumes "has_rec d i r" and "n = int i + 1" and "desc_type d = DESC_TYPE_IPD"
  shows "EsSQLSetDescFieldW ver dbc al sal d n SQL_DESC_PARAMETER_TYPE v [] SQL_IS_SMALLINT =
      Some (upd_rec d i (r\<lparr>parameter_type := to_i16 v\<rparr>), SQL_SUCCESS)"
    and "EsSQLSetDescFieldW ver dbc al sal d n SQL_DESC_SCALE v [] SQL_IS_SMALLINT =
      Some (upd_rec d i (r\<lparr>scale := to_i16 v\<rparr>), SQL_SUCCESS)"
    and "EsSQLSetDescFieldW ver dbc al sal d n SQL_DESC_PRECISION v [] SQL_IS_SMALLINT =
      Some (upd_rec d i (r\<lparr>precision := to_i16 v\<rparr>), SQL_SUCCESS)"
    and "EsSQLSetDescFieldW ver dbc al sal d n SQL_DESC_LENGTH v [] SQL_IS_UINTEGER =
      Some (upd_rec d i (r\<lparr>rec_length := to_u64 v\<rparr>), SQL_SUCCESS)"
  using assms by (auto simp: set_rec_call has_rec_def check_access_def check_buff_def is_header_field_def
      set_rec_field_def is_string_field_def)

lemma has_rec_read:
  "has_rec d i r \<Longrightarrow> n = int i + 1 \<Longrightarrow> mem_read (recs d) (nat n - 1) = Some r"
  by (auto simp: has_rec_def mem_read_def)

text \<open>The two calls that follow the type, on a record of the type.\<close>

lemma set_digits_call:
  assumes "has_rec d i r" and "n = int i + 1" and "desc_type d = DESC_TYPE_IPD" and "concise_type r = ty"
    and "meta_type r = sqltype_to_meta ty" and "0 \<le> digits \<or> digits_field ty \<noteq> Some SQL_DESC_PRECISION"
  shows "set_param_decdigits ver dbc al d n digits = Some (case digits_field ty of
      Some f \<Rightarrow> upd_rec d i (if f = SQL_DESC_SCALE then r\<lparr>scale := to_i16 digits\<rparr> else r\<lparr>precision := to_i16 digits\<rparr>)
    | None \<Rightarrow> d, SQL_SUCCESS)"
proof (cases "sqltype_to_meta ty")
  case METATYPE_EXACT_NUMERIC
  then show ?thesis
    using has_rec_read [OF assms(1,2)] set_ipd_field(2) [OF assms(1-3)] assms(4,5)
    by (simp add: set_param_decdigits_def digits_field_def)
next
  case METATYPE_DATE_TIME
  then show ?thesis
    using has_rec_read [OF assms(1,2)] set_ipd_field(3) [OF assms(1-3)] assms(4-6)
    by (auto simp: set_param_decdigits_def digits_field_def)
next
  case METATYPE_INTERVAL_WSEC
  then show ?thesis
    using has_rec_read [OF assms(1,2)] set_ipd_field(3) [OF assms(1-3)] assms(4-6)
    by (auto simp: set_param_decdigits_def digits_field_def)
qed (use has_rec_read [OF assms(1,2)] assms(4,5) in \<open>simp_all add: set_param_decdigits_def digits_field_def\<close>)

lemma set_size_call:
  assumes "has_rec d i r" and "n = int i + 1" and "desc_type d = DESC_TYPE_IPD"
  shows "set_param_size ver dbc al d n sz = Some
    (if sized_meta (meta_type r) then upd_rec d i (r\<lparr>rec_length := to_u64 sz\<rparr>) else d, SQL_SUCCESS)"
  using has_rec_read [OF assms(1,2)] set_ipd_field(4) [OF assms]
  by (simp add: set_param_size_def)

lemma ipd_record_set:
  assumes "desc_ok ver d" and "desc_type d = DESC_TYPE_IPD" and "count d < n" and "n \<le> ESODBC_MAX_DESC_COUNT"
    and "al \<noteq> ALLOC_FAILS" and "sqltype_to_meta ty \<noteq> METATYPE_UNKNOWN" and "to_i16 ty = ty"
    and "0 \<le> digits \<or> digits_field ty \<noteq> Some SQL_DESC_PRECISION"
  shows "\<exists>i1 i2. grow_then_set SQL_SUCCEEDED ver dbc al d n (ipd_fields ty SQL_PARAM_INPUT) = Some (i1, SQL_SUCCESS) \<and>
      set_param_decdigits ver dbc al i1 (to_i16 n) digits = Some (i2, SQL_SUCCESS) \<and>
      set_param_size ver dbc al i2 (to_i16 n) sz =
        Some (upd_rec (grown d n) (nat n - 1) (param_rec ty digits sz), SQL_SUCCESS)"
    and "has_rec (upd_rec (grown d n) (nat n - 1) (param_rec ty digits sz)) (nat n - 1) (param_rec ty digits sz)"
proof -
  have "settable (desc_type d)" using assms(2) by (simp add: settable_def)
  note grow = grown_call [OF assms(1) this assms(3-5), unfolded assms(2)]
  let ?g = "grown d n" let ?i = "nat n - 1"
  let ?r1 = "typed_rec DESC_TYPE_IPD ty" let ?r2 = "?r1\<lparr>parameter_type := SQL_PARAM_INPUT\<rparr>"
  let ?r3 = "case digits_field ty of Some f \<Rightarrow>
      if f = SQL_DESC_SCALE then ?r2\<lparr>scale := to_i16 digits\<rparr> else ?r2\<lparr>precision := to_i16 digits\<rparr> | None \<Rightarrow> ?r2"
  have meta: "concise_to_meta ty DESC_TYPE_IPD = sqltype_to_meta ty"
    by (simp add: concise_to_meta_def)
  have dt: "desc_type ?g = DESC_TYPE_IPD" using assms(2) by (simp add: grown_def)
  have r1: "has_rec (upd_rec ?g ?i ?r1) ?i ?r1"
    using has_rec_upd [OF grow(2)] by simp
  have r2: "has_rec (upd_rec ?g ?i ?r2) ?i ?r2"
    using has_rec_upd [OF r1, of ?r2] by simp
  have r3: "has_rec (upd_rec ?g ?i ?r3) ?i ?r3" "meta_type ?r3 = sqltype_to_meta ty"
    using has_rec_upd [OF r2, of ?r3] meta by (auto split: option.split)
  have ipd: "desc_type (upd_rec ?g ?i r) = DESC_TYPE_IPD" for r
    using dt by simp
  have "concise_to_meta ty DESC_TYPE_IPD \<noteq> METATYPE_UNKNOWN"
    using meta assms(6) by simp
  note calls = set_type_call [OF grow(2) grow(5), of ver dbc al ALLOC_FAILS ty, unfolded assms(7)]
    typed_init_rec [OF this grow(2) dt, of ver]
    set_ipd_field(1) [OF r1 grow(5) ipd, of ver dbc al ALLOC_FAILS SQL_PARAM_INPUT]
  have param: "to_i16 SQL_PARAM_INPUT = SQL_PARAM_INPUT"
    by (simp add: to_i16_def SQL_PARAM_INPUT_def)
  have fields: "grow_then_set SQL_SUCCEEDED ver dbc al d n (ipd_fields ty SQL_PARAM_INPUT) =
      Some (upd_rec ?g ?i ?r2, SQL_SUCCESS)"
    using grow(1,3) assms(3) calls param by (simp add: grow_then_set_def ipd_fields_def SQL_SUCCEEDED_def)
  have digits: "set_param_decdigits ver dbc al (upd_rec ?g ?i ?r2) n digits = Some (upd_rec ?g ?i ?r3, SQL_SUCCESS)"
    using set_digits_call [OF r2 grow(5) ipd _ _ assms(8), of ver dbc al] meta
    by (simp split: option.split)
  have size_set: "set_param_size ver dbc al (upd_rec ?g ?i ?r3) n sz =
      Some (upd_rec ?g ?i (param_rec ty digits sz), SQL_SUCCESS)"
    using set_size_call [OF r3(1) grow(5) ipd, of ver dbc al sz] r3(2)
    by (simp add: param_rec_def Let_def)
  show "\<exists>i1 i2. grow_then_set SQL_SUCCEEDED ver dbc al d n (ipd_fields ty SQL_PARAM_INPUT) = Some (i1, SQL_SUCCESS) \<and>
      set_param_decdigits ver dbc al i1 (to_i16 n) digits = Some (i2, SQL_SUCCESS) \<and>
      set_param_size ver dbc al i2 (to_i16 n) sz =
        Some (upd_rec (grown d n) (nat n - 1) (param_rec ty digits sz), SQL_SUCCESS)"
    using fields digits size_set grow(3) by simp
  show "has_rec (upd_rec (grown d n) (nat n - 1) (param_rec ty digits sz)) (nat n - 1) (param_rec ty digits sz)"
    using has_rec_upd [OF r3(1), of "param_rec ty digits sz"]
    by (auto simp: param_rec_def Let_def split: option.split)
qed

lemma apd_record_set:
  assumes "desc_ok ver d" and "desc_type d = DESC_TYPE_APD" and "count d < n" and "n \<le> ESODBC_MAX_DESC_COUNT"
    and "al \<noteq> ALLOC_FAILS" and "types_loaded dbc" and "concise_to_meta (to_i16 ty) DESC_TYPE_APD \<noteq> METATYPE_UNKNOWN"
    and "p \<noteq> 0"
  shows "grow_then_set SQL_SUCCEEDED ver (Some dbc) al d n (apd_fields ty p len ind) =
    Some (upd_rec (grown d n) (nat n - 1) (bound_rec DESC_TYPE_APD ty len ind p), SQL_SUCCESS)"
proof -
  have "settable (desc_type d)" using assms(2) by (simp add: settable_def)
  note grow = grown_call [OF assms(1) this assms(3-5), unfolded assms(2)]
  have "desc_type (grown d n) = DESC_TYPE_APD" using assms(2) by (simp add: grown_def)
  from set_fields_binds(2) [OF grow(2) this _ grow(5) assms(6,7,8), of SQL_SUCCEEDED] grow(1,3) assms(3)
  show ?thesis by (simp add: grow_then_set_def SQL_SUCCEEDED_def)
qed

lemma param_rec_types [simp]:
  "concise_type (param_rec ty digits sz) = ty"
  "concise_type (bound_rec dt ty len ind p) = to_i16 ty"
  by (auto simp: param_rec_def bound_rec_def Let_def split: option.split)

lemma grown_last:
  "desc_ok ver d \<Longrightarrow> count d < n \<Longrightarrow> nat n - 1 < length (recs (grown d n)) \<and> length (recs (grown d n)) = nat n"
  using desc_okD(1) [of ver d] by (simp add: grown_def)

lemma convertability_param:
  assumes "get_stmt h b = Some s" and "get_desc h (apd s) = Some a" and "get_desc h (ipd s) = Some i"
    and "k < length (recs a)" and "k < length (recs i)"
    and "ESODBC_TYPES_COMPATIBLE (concise_type (recs i ! k)) (concise_type (recs a ! k)) = Some True"
    and "conv_implemented (concise_type (recs i ! k)) (concise_type (recs a ! k))"
  shows "convertability_check ver h b (CONV_PARAM (Suc k)) = Some (h, SQL_SUCCESS, CONVERSION_SUPPORTED)"
  using assms by (simp add: convertability_check_def mem_read_def)

text \<open>C31: binding a new parameter. With the data types of the connection loaded, types the driver knows
  and may convert, and a data type found for the parameter, both descriptors grow to the
  parameter. The APD's record is that of the C type with the buffer, its length and its indicator;
  the IPD's is that of the SQL type, with the size and the digits that the type takes, and the data
  type found.\<close>
theorem bind_new_parameter:
  assumes "heap_ok ver h" and "get_stmt h b = Some s" and "al \<noteq> ALLOC_FAILS"
    and "count (i_apd s) < n" and "count (i_ipd s) < n" and "n \<le> ESODBC_MAX_DESC_COUNT" and "p \<noteq> 0"
    and "ind = 0 \<or> x \<noteq> SQL_DATA_AT_EXEC \<and> SQL_NTSL \<le> x"
    and "desc_dbc h (PTR b I_APD) = Some dbc" and "types_loaded dbc"
    and "to_i16 ty = ty" and "sqlctype_to_meta ty \<noteq> METATYPE_UNKNOWN" and "ty \<noteq> SQL_C_GUID"
    and "to_i16 sql_ty = sql_ty" and "sqltype_to_meta sql_ty \<noteq> METATYPE_UNKNOWN" and "sql_ty \<noteq> SQL_GUID"
    and "compat_spec sql_ty ty"
    and "0 \<le> digits \<or> digits_field sql_ty \<noteq> Some SQL_DESC_PRECISION"
    and "match_es_type dbc (param_rec sql_ty digits sz) = Some (Some e)"
  shows "\<exists>h' s'. EsSQLBindParameter ver al al' h b n SQL_PARAM_INPUT ty sql_ty sz digits p len ind x =
      Some (h', SQL_SUCCESS) \<and> get_stmt h' b = Some s' \<and> count (i_apd s') = n \<and> count (i_ipd s') = n \<and>
    last (recs (i_apd s')) = bound_rec DESC_TYPE_APD ty len ind p \<and>
    last (recs (i_ipd s')) = (param_rec sql_ty digits sz)\<lparr>es_type := Some e\<rparr> \<and>
    i_ard s' = i_ard s \<and> i_ird s' = i_ird s"
proof -
  note P = param_descs [OF assms(1,2)]
  have hs: "h b = Some (STMT s)" using assms(2) by (simp add: get_stmt_Some)
  let ?k = "nat n - 1"
  let ?arec = "bound_rec DESC_TYPE_APD ty len ind p" let ?irec = "param_rec sql_ty digits sz"
  define a where "a = upd_rec (grown (i_apd s) n) ?k ?arec"
  define i where "i = upd_rec (grown (i_ipd s) n) ?k ?irec"
  define i' where "i' = upd_rec i ?k (?irec\<lparr>es_type := Some e\<rparr>)"
  have n: "0 < n" "nat n = Suc ?k" using desc_okD(1) [OF P(5)] assms(4) by simp_all
  have "concise_to_meta (to_i16 ty) DESC_TYPE_APD \<noteq> METATYPE_UNKNOWN"
    using assms(11,12) by (simp add: concise_to_meta_def)
  note apd = apd_record_set [OF P(5,7) assms(4,6,3,10) this assms(7), of len ind, folded a_def]
  obtain i1 i2 where ipd:
      "grow_then_set SQL_SUCCEEDED ver (Some dbc) al (i_ipd s) n (ipd_fields sql_ty SQL_PARAM_INPUT) = Some (i1, SQL_SUCCESS)"
      "set_param_decdigits ver (Some dbc) al i1 (to_i16 n) digits = Some (i2, SQL_SUCCESS)"
      "set_param_size ver (Some dbc) al i2 (to_i16 n) sz = Some (i, SQL_SUCCESS)"
    using ipd_record_set(1) [OF P(6,8) assms(5,6,3,15,14,18), where dbc = "Some dbc" and sz = sz, folded i_def] by blast
  have len: "length (recs a) = nat n" "length (recs i) = nat n" "?k < nat n" "recs a ! ?k = ?arec" "recs i ! ?k = ?irec"
    using grown_last [OF P(5) assms(4)] grown_last [OF P(6) assms(5)] n by (simp_all add: a_def i_def)
  let ?s1 = "s\<lparr>i_apd := a\<rparr>" let ?s2 = "s\<lparr>i_apd := a, i_ipd := i\<rparr>" let ?s3 = "s\<lparr>i_apd := a, i_ipd := i'\<rparr>"
  let ?h2 = "put_stmt h b ?s2" let ?h3 = "put_stmt h b ?s3"
  have h1: "put_desc h (apd s) a = put_stmt h b ?s1" "put_desc (put_stmt h b ?s1) (ipd s) i = ?h2"
      "put_desc ?h2 (ipd s) i' = ?h3"
    using hs P(1,2) by (simp_all add: put_stmt_def)
  have d2: "get_stmt ?h2 b = Some ?s2" "get_desc ?h2 (apd s) = Some a" "get_desc ?h2 (ipd s) = Some i"
    using P(1,2) by (simp_all add: get_stmt_def put_stmt_def)
  have dbc2: "desc_dbc ?h2 (ipd s) = Some dbc"
  proof -
    have "desc_dbc ?h2 (ipd s) = desc_dbc (put_desc h (apd s) a) (ipd s)"
      unfolding h1(2) [symmetric] h1(1)
      by (rule desc_dbc_put [where d = "i_ipd s"]) (simp add: P(2) put_stmt_def)
    also have "\<dots> = desc_dbc h (ipd s)"
      by (rule desc_dbc_put [OF P(3)])
    also have "\<dots> = desc_dbc h (PTR b I_APD)"
      using hs P(2) by (simp add: desc_dbc_def)
    finally show ?thesis using assms(9) by simp
  qed
  have known: "ESODBC_TYPES_COMPATIBLE sql_ty ty = Some True"
    using known_pair_compatible [of ?arec ?irec] assms(11,12,15,17) by (simp add: known_pair_def)
  have "convertability_check ver ?h2 b (CONV_PARAM (Suc ?k)) = Some (?h2, SQL_SUCCESS, CONVERSION_SUPPORTED)"
    by (rule convertability_param [where a = a and i = i, OF d2(1)])
      (use d2 len known assms(11,13,16) in \<open>simp_all add: conv_implemented_def\<close>)
  then have convert: "bind_param_convert ver al' ?h2 b n (count (i_apd s)) (count (i_ipd s)) = Some (?h3, SQL_SUCCESS)"
    using d2 dbc2 len assms(19) n h1(3)
    by (simp add: bind_param_convert_def SQL_SUCCEEDED_def mem_read_def Let_def i'_def)
  have bind: "EsSQLBindParameter ver al al' h b n SQL_PARAM_INPUT ty sql_ty sz digits p len ind x =
      bind_param_convert ver al' ?h2 b n (count (i_apd s)) (count (i_ipd s))"
    using assms(2,7,8,9) n P(1-4) apd ipd h1
    by (auto simp: EsSQLBindParameter_def Let_def SQL_SUCCEEDED_def)
  have ne: "recs a \<noteq> []" "recs i' \<noteq> []"
    using len n by (auto simp: i'_def)
  have "last (recs a) = ?arec" "last (recs i') = ?irec\<lparr>es_type := Some e\<rparr>"
    using len n ne by (simp_all add: last_conv_nth i'_def)
  moreover have "count a = n" "count i' = n"
    by (simp_all add: a_def i'_def i_def grown_def)
  ultimately show ?thesis
    using bind convert by (intro exI [of _ ?h3] exI [of _ ?s3]) simp
qed

text \<open>The size and the digits given are the ones read back, where the type takes them.\<close>

lemma param_rec_meta [simp]: "meta_type (param_rec ty digits sz) = sqltype_to_meta ty"
  by (auto simp: param_rec_def Let_def concise_to_meta_def split: option.split)

lemma param_rec_reads:
  "digits_field ty \<noteq> None \<Longrightarrow> get_param_decdigits (param_rec ty digits sz) = to_i16 digits"
  "sized_meta (sqltype_to_meta ty) \<Longrightarrow> get_param_size (param_rec ty digits sz) = Some (to_u64 sz)"
proof -
  assume "digits_field ty \<noteq> None"
  then have "sqltype_to_meta ty = METATYPE_DATE_TIME \<and> ty \<noteq> SQL_TYPE_DATE \<or> sqltype_to_meta ty = METATYPE_INTERVAL_WSEC \<or>
      sqltype_to_meta ty = METATYPE_EXACT_NUMERIC \<and> (ty = SQL_DECIMAL \<or> ty = SQL_NUMERIC)"
    by (auto simp: digits_field_def split: esodbc_metatype_et.splits if_splits)
  then show "get_param_decdigits (param_rec ty digits sz) = to_i16 digits"
    by (elim disjE conjE)
      (simp_all add: get_param_decdigits_def, simp_all add: param_rec_def digits_field_def Let_def)
next
  assume "sized_meta (sqltype_to_meta ty)"
  then show "get_param_size (param_rec ty digits sz) = Some (to_u64 sz)"
    by (simp add: get_param_size_def) (simp add: param_rec_def Let_def)
qed

lemma bind_new_parameter_witness:
  "\<exists>h h' s'. EsSQLBindParameter (wlit ''1.0'') ALLOC_MOVES ALLOC_FAILS h 2 1 SQL_PARAM_INPUT SQL_C_SLONG SQL_INTEGER
      0 0 4096 0 0 0 = Some (h', SQL_SUCCESS) \<and> get_stmt h' 2 = Some s' \<and>
    es_type (last (recs (i_ipd s'))) = Some (sample_estype SQL_INTEGER)"
proof -
  obtain h s where h: "reachable (wlit ''1.0'') h" "get_stmt h 2 = Some s"
      "i_apd s = new_desc DESC_TYPE_APD SQL_DESC_ALLOC_AUTO" "i_ipd s = new_desc DESC_TYPE_IPD SQL_DESC_ALLOC_AUTO"
      "desc_dbc h (PTR 2 I_ARD) = Some sample_types"
    using sample_reachable by blast
  have dbc: "desc_dbc h (PTR 2 I_APD) = Some sample_types"
    using h(2,5) by (simp add: desc_dbc_def get_stmt_Some)
  have facts: "to_i16 SQL_C_SLONG = SQL_C_SLONG" "to_i16 SQL_INTEGER = SQL_INTEGER"
      "sqlctype_to_meta SQL_C_SLONG \<noteq> METATYPE_UNKNOWN" "sqltype_to_meta SQL_INTEGER \<noteq> METATYPE_UNKNOWN"
      "compat_spec SQL_INTEGER SQL_C_SLONG"
    by code_simp+
  have "match_es_type sample_types (param_rec SQL_INTEGER 0 0) = Some (Some (sample_estype SQL_INTEGER))"
    by (simp add: match_es_type_def sample_types_def sample_estype_def)
  from bind_new_parameter [OF reachable_ok [OF h(1) sample_ver_ok] h(2) _ _ _ _ _ _ dbc sample_types_loaded
      facts(1,3) _ facts(2,4) _ facts(5) _ this, of ALLOC_MOVES 1 4096 0 0 ALLOC_FAILS 0] h(3,4)
  show ?thesis by (fastforce simp: ESODBC_MAX_DESC_COUNT_def)
qed

end
