(* ===== verification/Stmt_Params.thy ===== *)
theory Stmt_Params
imports Handles_Api
begin

text \<open>
  Counting the parameter markers of a statement (driver/queries.c): the scanner that skips quoted
  parts, escaped characters and runs of question marks, and \<open>SQLNumParams\<close>. The count is 16 bits
  wide. The conversion of the stored statement to UTF-16 (\<open>utf8_to_wstr\<close>, the platform's) is a
  parameter.
\<close>

section \<open>The scanner\<close>

definition ESODBC_PARAM_MARKER :: sqlwchar where "ESODBC_PARAM_MARKER = 63"
definition ESODBC_CHAR_ESCAPE :: sqlwchar where "ESODBC_CHAR_ESCAPE = 92"

definition is_quote :: "sqlwchar \<Rightarrow> bool" where
  "is_quote c \<longleftrightarrow> c = 34 \<or> c = 39"

text \<open>The loop: the quoting character (\<open>None\<close> if not quoting), whether escaping, the count, what is
  left of the text; the result is the state and the count at the end.\<close>

function count_param_markers_loop ::
    "sqlwchar option \<Rightarrow> bool \<Rightarrow> int \<Rightarrow> wstr \<Rightarrow> sqlwchar option \<times> bool \<times> int" where
  "count_param_markers_loop quoting escaping cnt [] = (quoting, escaping, cnt)"
| "count_param_markers_loop quoting escaping cnt (crr # pos) =
    (if crr = ESODBC_PARAM_MARKER \<and> \<not> escaping \<and> quoting = None then
       (let rest = dropWhile (\<lambda>c. c = crr) pos in
        count_param_markers_loop quoting False (if rest = pos then to_i16 (cnt + 1) else cnt) rest)
     else if is_quote crr \<and> \<not> escaping then
       (case quoting of
          None \<Rightarrow> count_param_markers_loop (Some crr) False cnt pos
        | Some qchar \<Rightarrow>
            if qchar = crr then count_param_markers_loop None False cnt pos
            else count_param_markers_loop quoting False cnt pos)
     else if crr = ESODBC_CHAR_ESCAPE \<and> \<not> escaping then
       count_param_markers_loop quoting True cnt pos
     else count_param_markers_loop quoting False cnt pos)"
  by pat_completeness auto
termination
  by (relation "measure (\<lambda>(_, _, _, pos). length pos)") (auto simp: less_Suc_eq_le length_dropWhile_le)

definition count_param_markers ::
    "wstr \<Rightarrow> (cstr \<Rightarrow> wstr option) \<Rightarrow> heap \<Rightarrow> nat \<Rightarrow> cstr \<Rightarrow> (heap \<times> int option \<times> sqlreturn) option" where
  "count_param_markers ver utf8_to_wstr h b u8 =
    (case utf8_to_wstr u8 of
       None \<Rightarrow> map_option (\<lambda>(h, ret). (h, None, ret)) (RET_STMT ver h b SQL_STATE_HY000)
     | Some u16 \<Rightarrow>
         (let (quoting, escaping, cnt) = count_param_markers_loop None False 0 u16 in
          if escaping \<or> quoting \<noteq> None then
            map_option (\<lambda>(h, ret). (h, None, ret))
              (RET_STMT_TEXT ver h b SQL_STATE_HY000 ''failed to parse statement'')
          else Some (h, Some cnt, SQL_SUCCESS)))"

definition EsSQLNumParams ::
    "wstr \<Rightarrow> (cstr \<Rightarrow> wstr option) \<Rightarrow> heap \<Rightarrow> nat \<Rightarrow> (heap \<times> int option \<times> sqlreturn) option" where
  "EsSQLNumParams ver utf8_to_wstr h b = do {
     s \<leftarrow> get_stmt h b;
     (case u8sql s of
        None \<Rightarrow> map_option (\<lambda>(h, ret). (h, None, ret)) (RET_STMT ver h b SQL_STATE_HY010)
      | Some u8 \<Rightarrow>
          if u8 = [] then map_option (\<lambda>(h, ret). (h, None, ret)) (RET_STMT ver h b SQL_STATE_HY010)
          else count_param_markers ver utf8_to_wstr h b u8) }"

section \<open>Statements\<close>

text \<open>A statement as the pieces it is made of: a plain or an escaped character, a quoted part, a run of
  question marks. Inside quotes stand plain characters, escaped ones and the other kind of quote.\<close>

datatype piece = Plain sqlwchar | Escaped sqlwchar | Quoted sqlwchar "piece list" | Marks nat

fun quoted_text :: "piece list \<Rightarrow> wstr" where
  "quoted_text [] = []"
| "quoted_text (Plain c # ps) = c # quoted_text ps"
| "quoted_text (Escaped c # ps) = ESODBC_CHAR_ESCAPE # c # quoted_text ps"
| "quoted_text (_ # ps) = quoted_text ps"

fun render_piece :: "piece \<Rightarrow> wstr" where
  "render_piece (Plain c) = [c]"
| "render_piece (Escaped c) = [ESODBC_CHAR_ESCAPE, c]"
| "render_piece (Quoted q ps) = q # quoted_text ps @ [q]"
| "render_piece (Marks n) = replicate n ESODBC_PARAM_MARKER"

definition render :: "piece list \<Rightarrow> wstr" where
  "render ps = concat (map render_piece ps)"

fun quoted_ok :: "sqlwchar \<Rightarrow> piece list \<Rightarrow> bool" where
  "quoted_ok q [] = True"
| "quoted_ok q (Plain c # ps) = (c \<noteq> q \<and> c \<noteq> ESODBC_CHAR_ESCAPE \<and> quoted_ok q ps)"
| "quoted_ok q (Escaped c # ps) = quoted_ok q ps"
| "quoted_ok q (_ # ps) = False"

text \<open>The pieces are told apart: no plain special characters, no empty or adjacent runs of marks.\<close>

fun pieces_ok :: "piece list \<Rightarrow> bool" where
  "pieces_ok [] = True"
| "pieces_ok (Plain c # ps) = (\<not> is_quote c \<and> c \<noteq> ESODBC_CHAR_ESCAPE \<and> c \<noteq> ESODBC_PARAM_MARKER \<and> pieces_ok ps)"
| "pieces_ok (Escaped c # ps) = pieces_ok ps"
| "pieces_ok (Quoted q qs # ps) = (is_quote q \<and> quoted_ok q qs \<and> pieces_ok ps)"
| "pieces_ok (Marks n # ps) = (0 < n \<and> (case ps of Marks _ # _ \<Rightarrow> False | _ \<Rightarrow> True) \<and> pieces_ok ps)"

definition param_count :: "piece list \<Rightarrow> nat" where
  "param_count ps = length (filter (\<lambda>p. p = Marks 1) ps)"

section \<open>Properties\<close>

lemma special_distinct [simp]:
  "\<not> is_quote ESODBC_CHAR_ESCAPE" "\<not> is_quote ESODBC_PARAM_MARKER"
  "ESODBC_CHAR_ESCAPE \<noteq> ESODBC_PARAM_MARKER" "ESODBC_PARAM_MARKER \<noteq> ESODBC_CHAR_ESCAPE"
  by (simp_all add: is_quote_def ESODBC_CHAR_ESCAPE_def ESODBC_PARAM_MARKER_def)

lemma is_quote_special [simp]: "is_quote q \<Longrightarrow> q \<noteq> ESODBC_CHAR_ESCAPE" "is_quote q \<Longrightarrow> q \<noteq> ESODBC_PARAM_MARKER"
  by auto

lemma loop_quoted:
  assumes "is_quote q" and "quoted_ok q qs"
  shows "count_param_markers_loop (Some q) False cnt (quoted_text qs @ rest) =
    count_param_markers_loop (Some q) False cnt rest"
  using assms by (induction q qs rule: quoted_ok.induct) auto

lemma render_starts:
  assumes "pieces_ok ps" and "case ps of Marks _ # _ \<Rightarrow> False | _ \<Rightarrow> True"
  shows "render ps = [] \<or> hd (render ps) \<noteq> ESODBC_PARAM_MARKER"
  using assms by (cases ps rule: pieces_ok.cases) (auto simp: render_def)

lemma dropWhile_marks:
  assumes "s = [] \<or> hd s \<noteq> c"
  shows "dropWhile (\<lambda>x. x = c) (replicate n c @ s) = s"
  using assms by (induction n) (cases s, auto)

lemma loop_marks:
  assumes "0 < n" and "s = [] \<or> hd s \<noteq> ESODBC_PARAM_MARKER"
  shows "count_param_markers_loop None False cnt (replicate n ESODBC_PARAM_MARKER @ s) =
    count_param_markers_loop None False (if n = 1 then to_i16 (cnt + 1) else cnt) s"
proof (cases n)
  case (Suc m)
  have "replicate m ESODBC_PARAM_MARKER @ s = s \<longleftrightarrow> m = 0" by (cases m) auto
  then show ?thesis
    using Suc dropWhile_marks [OF assms(2), of m] by (auto simp: Let_def)
qed (use assms(1) in simp)

lemma to_i16_step: "to_i16 (to_i16 a + b) = to_i16 (a + b)"
  by (simp add: to_i16_def mod_simps ac_simps)

lemma loop_render:
  assumes "pieces_ok ps" and "rest = [] \<or> hd rest \<noteq> ESODBC_PARAM_MARKER"
  shows "count_param_markers_loop None False (to_i16 cnt) (render ps @ rest) =
    count_param_markers_loop None False (to_i16 (cnt + int (param_count ps))) rest"
  using assms(1)
proof (induction ps arbitrary: cnt rule: pieces_ok.induct)
  case (4 q qs ps)
  then show ?case by (simp add: render_def param_count_def loop_quoted)
next
  case (5 n ps)
  have "render ps = [] \<or> hd (render ps) \<noteq> ESODBC_PARAM_MARKER"
    using 5 by (intro render_starts) auto
  then have "render ps @ rest = [] \<or> hd (render ps @ rest) \<noteq> ESODBC_PARAM_MARKER"
    using assms(2) by (cases "render ps") auto
  from loop_marks [OF _ this, of n "to_i16 cnt"] 5
  have "count_param_markers_loop None False (to_i16 cnt) (render (Marks n # ps) @ rest) =
      count_param_markers_loop None False (to_i16 (if n = 1 then cnt + 1 else cnt)) (render ps @ rest)"
    by (simp add: render_def to_i16_step)
  then show ?case
    using 5 by (simp add: param_count_def algebra_simps)
qed (simp_all add: render_def param_count_def)

text \<open>The number of parameters of a statement is that of its question marks that stand alone, outside
  quotes and not escaped, as a 16 bit count, for every statement made of plain and escaped
  characters, quoted parts and runs of marks. A statement that ends within a quoted part or after
  the escape character is refused with HY000.\<close>
theorem num_params_correct:
  assumes "heap_ok ver h" and "get_stmt h b = Some s" and "u8sql s = Some u8" and "u8 \<noteq> []"
    and "utf8_to_wstr u8 = Some (render ps @ rest)" and "pieces_ok ps"
  shows "(rest = [] \<longrightarrow> EsSQLNumParams ver utf8_to_wstr h b =
      Some (h, Some (to_i16 (int (param_count ps))), SQL_SUCCESS)) \<and>
    (rest = [ESODBC_CHAR_ESCAPE] \<or> (\<exists>q qs. is_quote q \<and> quoted_ok q qs \<and> rest = q # quoted_text qs) \<longrightarrow>
      (\<exists>s'. EsSQLNumParams ver utf8_to_wstr h b = Some (put_stmt h b s', None, SQL_ERROR) \<and>
        state (stmt_diag s') = SQL_STATE_HY000))"
proof -
  let ?loop = "count_param_markers_loop None False 0 (render ps @ rest)"
  have zero: "to_i16 0 = 0" by (simp add: to_i16_def)
  have d: "diag_ok ver (stmt_diag s)"
    using heap_ok_stmt [OF assms(1,2)] by (simp add: stmt_ok_def)
  have err: "state_retcode (esodbc_errors ! SQL_STATE_HY000) = SQL_ERROR" by code_simp
  have refused: "\<exists>s'. EsSQLNumParams ver utf8_to_wstr h b = Some (put_stmt h b s', None, SQL_ERROR) \<and>
      state (stmt_diag s') = SQL_STATE_HY000" if "?loop = (quoting, escaping, cnt)" "escaping \<or> quoting \<noteq> None"
    for quoting escaping cnt
  proof -
    have "EsSQLNumParams ver utf8_to_wstr h b = Some (put_stmt h b (s\<lparr>stmt_diag :=
        posted ver (stmt_diag s) SQL_STATE_HY000 (wlit ''failed to parse statement'')\<rparr>), None, SQL_ERROR)"
      using that assms(2-5) post_ok(2) [OF d, of SQL_STATE_HY000 "''failed to parse statement''"] err
      by (auto simp: EsSQLNumParams_def count_param_markers_def RET_STMT_TEXT_def)
    then show ?thesis by auto
  qed
  show ?thesis
  proof (intro conjI impI)
    assume "rest = []"
    then have "?loop = (None, False, to_i16 (int (param_count ps)))"
      using loop_render [OF assms(6), of "[]" 0] zero by simp
    with \<open>rest = []\<close> show "EsSQLNumParams ver utf8_to_wstr h b =
        Some (h, Some (to_i16 (int (param_count ps))), SQL_SUCCESS)"
      using assms(2-5) by (simp add: EsSQLNumParams_def count_param_markers_def)
  next
    assume "rest = [ESODBC_CHAR_ESCAPE] \<or> (\<exists>q qs. is_quote q \<and> quoted_ok q qs \<and> rest = q # quoted_text qs)"
    then show "\<exists>s'. EsSQLNumParams ver utf8_to_wstr h b = Some (put_stmt h b s', None, SQL_ERROR) \<and>
        state (stmt_diag s') = SQL_STATE_HY000"
    proof (elim disjE exE conjE)
      assume "rest = [ESODBC_CHAR_ESCAPE]"
      then have "?loop = (None, True, to_i16 (int (param_count ps)))"
        using loop_render [OF assms(6), of rest 0] zero by simp
      then show ?thesis by (rule refused) simp
    next
      fix q qs assume q: "is_quote q" "quoted_ok q qs" "rest = q # quoted_text qs"
      then have "?loop = (Some q, False, to_i16 (int (param_count ps)))"
        using loop_render [OF assms(6), of rest 0] zero loop_quoted [OF q(1,2), where rest = "[]"] by simp
      then show ?thesis by (rule refused) simp
    qed
  qed
qed

text \<open>A query with one parameter, a quoted question mark and a run of two.\<close>

lemma num_params_correct_witness:
  "\<exists>h s. get_stmt h 2 = Some s \<and>
    EsSQLNumParams (wlit ''1.0'') (\<lambda>_. Some (wlit ''a=? AND b='' @ [39, 63, 39] @ wlit '' ??'')) h 2 =
      Some (h, Some 1, SQL_SUCCESS)"
proof -
  obtain h s where h: "reachable (wlit ''1.0'') h" "get_stmt h 2 = Some s"
    using sample_reachable by blast
  define s' where "s' = s\<lparr>u8sql := Some [97]\<rparr>"
  note ok = reachable_ok [OF h(1) sample_ver_ok]
  have "stmt_ok (wlit ''1.0'') h 2 s'"
    using heap_ok_stmt [OF ok h(2)] by (simp add: stmt_ok_def s'_def)
  then have ok': "heap_ok (wlit ''1.0'') (put_stmt h 2 s')"
    by (rule put_stmt_ok [OF ok h(2)])
  let ?ps = "map Plain (wlit ''a='') @ Marks 1 # map Plain (wlit '' AND b='') @ Quoted 39 [Plain 63] #
    Plain 32 # [Marks 2]"
  have ps: "pieces_ok ?ps" "param_count ?ps = 1"
    "render ?ps = wlit ''a=? AND b='' @ [39, 63, 39] @ wlit '' ??''"
    by code_simp+
  have "get_stmt (put_stmt h 2 s') 2 = Some s'" "u8sql s' = Some [97]" "[97] \<noteq> []"
    by (simp_all add: s'_def)
  from num_params_correct [OF ok' this _ ps(1), of "\<lambda>_. Some (wlit ''a=? AND b='' @ [39, 63, 39] @ wlit '' ??'')" "[]"]
    ps(2,3) show ?thesis
    by (intro exI [of _ "put_stmt h 2 s'"] exI [of _ s']) (simp add: to_i16_def)
qed

end
