(* ===== verification/Diag_Get.thy ===== *)
theory Diag_Get
imports Desc_Records
begin

text \<open>
  Reading a handle's diagnostic record back (driver/info.c): \<open>SQLGetDiagRec\<close> and
  \<open>SQLGetDiagField\<close>, but for the two fields that ask the connection for a name. A handle has one
  record. The buffers of the application are lists of the length they have; \<open>None\<close> is a null
  pointer. A handle is its diagnostic record, \<open>None\<close> a null handle.
\<close>

section \<open>SQLGetDiagRec\<close>

definition wcscpy :: "wstr \<Rightarrow> string \<Rightarrow> wstr option" where
  "wcscpy buf s = (if length s < length buf then Some (wlit s @ 0 # drop (length s + 1) buf) else None)"

text \<open>What the call leaves: the buffer of the SQLSTATE, the native code, the message buffer, the text
  length and the return code.\<close>

record diag_rec_result =
  out_sqlstate :: "wstr option"
  out_native :: "int option"
  out_message :: "wstr option"
  out_length :: "int option"
  out_ret :: sqlreturn

definition EsSQLGetDiagRecW ::
    "wstr \<Rightarrow> bool \<Rightarrow> esodbc_diag option \<Rightarrow> int \<Rightarrow> wstr option \<Rightarrow> bool \<Rightarrow> wstr option \<Rightarrow> int \<Rightarrow> bool
     \<Rightarrow> diag_rec_result option" where
  "EsSQLGetDiagRecW ver senv hnd rec_number sqlstate native_error message_text buffer_length text_length =
    (let nothing = (\<lambda>ret. Some \<lparr>out_sqlstate = sqlstate, out_native = None, out_message = message_text,
       out_length = None, out_ret = ret\<rparr>) in
     if rec_number \<le> 0 then nothing SQL_ERROR
     else if 1 < rec_number then nothing SQL_NO_DATA
     else (case hnd of
         None \<Rightarrow> nothing SQL_ERROR
       | Some diag \<Rightarrow>
           if senv then nothing SQL_INVALID_HANDLE
           else if state diag = SQL_STATE_00000 then nothing SQL_NO_DATA
           else do {
             row \<leftarrow> mem_read esodbc_errors (state diag);
             sqlstate \<leftarrow> (case sqlstate of
                 None \<Rightarrow> Some None
               | Some buf \<Rightarrow> map_option Some (wcscpy buf (state_code row)));
             (dummy, message_text, used, ret) \<leftarrow> write_wstr ver diag message_text (diag_text diag)
               (text_len diag) (to_i16 (buffer_length * 2)) (Some 0);
             Some \<lparr>out_sqlstate = sqlstate,
               out_native = (if native_error then Some (native_code diag) else None),
               out_message = message_text,
               out_length = (if text_length then map_option (\<lambda>u. to_i16 (to_u64 u div 2)) used else None),
               out_ret = ret\<rparr> }))"

section \<open>SQLGetDiagField\<close>

datatype diag_field =
    SQL_DIAG_NUMBER | SQL_DIAG_CURSOR_ROW_COUNT | SQL_DIAG_DYNAMIC_FUNCTION
  | SQL_DIAG_DYNAMIC_FUNCTION_CODE | SQL_DIAG_ROW_COUNT | SQL_DIAG_CLASS_ORIGIN
  | SQL_DIAG_SUBCLASS_ORIGIN | SQL_DIAG_MESSAGE_TEXT | SQL_DIAG_NATIVE | SQL_DIAG_COLUMN_NUMBER
  | SQL_DIAG_ROW_NUMBER | SQL_DIAG_SQLSTATE | SQL_DIAG_OTHER int

definition ORIG_DISCRIM :: string where "ORIG_DISCRIM = ''IM''"
definition ORIG_CLASS_ISO :: string where "ORIG_CLASS_ISO = ''ISO 9075''"
definition ORIG_CLASS_ODBC :: string where "ORIG_CLASS_ODBC = ''ODBC 3.0''"

definition class_origin :: "string \<Rightarrow> string" where
  "class_origin code = (if take 2 code = ORIG_DISCRIM then ORIG_CLASS_ODBC else ORIG_CLASS_ISO)"

text \<open>The states whose subclass is ODBC's, by their codes.\<close>

definition odbc_subclasses :: "string list" where
  "odbc_subclasses = [''01S00'', ''01S01'', ''01S02'', ''01S06'', ''01S07'', ''07S01'', ''08S01'', ''21S01'',
     ''21S02'', ''25S01'', ''25S02'', ''25S03'', ''42S01'', ''42S02'', ''42S11'', ''42S12'', ''42S21'', ''42S22'',
     ''HY095'', ''HY097'', ''HY098'', ''HY099'', ''HY100'', ''HY101'', ''HY105'', ''HY107'', ''HY109'', ''HY110'',
     ''HY111'', ''HYT00'', ''HYT01'', ''IM001'', ''IM002'', ''IM003'', ''IM004'', ''IM005'', ''IM006'', ''IM007'',
     ''IM008'', ''IM010'', ''IM011'', ''IM012'']"

definition subclass_origin :: "string \<Rightarrow> string" where
  "subclass_origin code = (if code \<in> set odbc_subclasses then ORIG_CLASS_ODBC else ORIG_CLASS_ISO)"

text \<open>What the call leaves: the handle's record, the string buffer, the number stored through
  \<open>DiagInfoPtr\<close>, the length stored and the return code.\<close>

record diag_field_result =
  field_diag :: esodbc_diag
  field_text :: "wstr option"
  field_number :: "int option"
  field_length :: "int option"
  field_ret :: sqlreturn

text \<open>\<open>info\<close> is \<open>DiagInfoPtr\<close> taken for a string; \<open>stmt\<close> tells a statement's handle.\<close>

definition EsSQLGetDiagFieldW ::
    "wstr \<Rightarrow> bool \<Rightarrow> esodbc_diag \<Rightarrow> int \<Rightarrow> diag_field \<Rightarrow> wstr option \<Rightarrow> int \<Rightarrow> bool
     \<Rightarrow> diag_field_result option" where
  "EsSQLGetDiagFieldW ver stmt diag rec_number ident info buffer_length has_length =
    (let nothing = (\<lambda>ret. Some \<lparr>field_diag = diag, field_text = info, field_number = None,
         field_length = None, field_ret = ret\<rparr>);
       number = (\<lambda>n. if info = None then do {
             (d, ret) \<leftarrow> RET_HDIAGS ver diag SQL_STATE_HY009;
             Some \<lparr>field_diag = d, field_text = info, field_number = None, field_length = None, field_ret = ret\<rparr> }
           else Some \<lparr>field_diag = diag, field_text = info, field_number = Some n, field_length = None,
             field_ret = SQL_SUCCESS\<rparr>);
       string = (\<lambda>s. do {
         (dummy, info, used, ret) \<leftarrow> write_wstr ver diag info (wlit s @ [0]) (length s) buffer_length
           (if has_length then Some 0 else None);
         Some \<lparr>field_diag = diag, field_text = info, field_number = None, field_length = used,
           field_ret = ret\<rparr> })
     in
     if rec_number \<le> 0 then nothing SQL_ERROR
     else if 1 < rec_number then nothing SQL_NO_DATA
     else (case ident of
         SQL_DIAG_NUMBER \<Rightarrow>
           if info = None then nothing SQL_ERROR
           else Some \<lparr>field_diag = diag, field_text = info,
             field_number = Some (if state diag \<noteq> SQL_STATE_00000 then 1 else 0), field_length = None,
             field_ret = SQL_SUCCESS\<rparr>
       | SQL_DIAG_CLASS_ORIGIN \<Rightarrow>
           Option.bind (mem_read esodbc_errors (state diag)) (\<lambda>row. string (class_origin (state_code row)))
       | SQL_DIAG_SUBCLASS_ORIGIN \<Rightarrow>
           Option.bind (mem_read esodbc_errors (state diag)) (\<lambda>row. string (subclass_origin (state_code row)))
       | SQL_DIAG_MESSAGE_TEXT \<Rightarrow> do {
           (d, info, used, ret) \<leftarrow> write_wstr ver diag info (diag_text diag) (text_len diag)
             (to_i16 (buffer_length * 2)) (if has_length then Some 0 else None);
           Some \<lparr>field_diag = d, field_text = info, field_number = None, field_length = used, field_ret = ret\<rparr> }
       | SQL_DIAG_NATIVE \<Rightarrow> number (native_code diag)
       | SQL_DIAG_COLUMN_NUMBER \<Rightarrow> number (column_number diag)
       | SQL_DIAG_ROW_NUMBER \<Rightarrow> number (row_number diag)
       | SQL_DIAG_SQLSTATE \<Rightarrow>
           if state diag = SQL_STATE_00000 then nothing SQL_NO_DATA
           else Option.bind (mem_read esodbc_errors (state diag)) (\<lambda>row. string (state_code row))
       | _ \<Rightarrow> nothing SQL_ERROR))"

section \<open>Properties\<close>

lemma state_codes: "list_all (\<lambda>e. length (state_code e) = 5) esodbc_errors"
  by code_simp

lemma state_code_length: "st < 120 \<Longrightarrow> length (state_code (esodbc_errors ! st)) = 5"
  using state_codes esodbc_errors_length by (simp add: list_all_length)

text \<open>The text of a posted record.\<close>

definition posted_text :: "wstr \<Rightarrow> wstr \<Rightarrow> wstr" where
  "posted_text ver msg = take (SQL_MAX_MESSAGE_LENGTH - 1) (ESODBC_DIAG_PREFIX ver @ msg)"

lemma posted_fields:
  "diag_text (posted ver d st msg) = posted_text ver msg @ 0 # drop (Suc (length (posted_text ver msg))) (diag_text d)"
  "text_len (posted ver d st msg) = length (posted_text ver msg)" "native_code (posted ver d st msg) = 0"
  by (simp_all add: posted_def posted_text_def Let_def)

lemma posted_text_nul: "0 \<notin> set ver \<Longrightarrow> 0 \<notin> set msg \<Longrightarrow> 0 \<notin> set (posted_text ver msg)"
  using zero_prefix [of ver] by (auto simp: posted_text_def dest: in_set_takeD)

lemma posted_text_length: "length (posted_text ver msg) \<le> 511"
  by (simp add: posted_text_def SQL_MAX_MESSAGE_LENGTH_def)

lemma write_posted:
  assumes "diag_ok ver d" and "0 \<notin> set msg" and "nat (avail div 2) \<le> length buf"
  shows "\<exists>hnd' ret. write_wstr ver (posted ver d st msg) (Some buf) (diag_text (posted ver d st msg))
      (text_len (posted ver d st msg)) avail (Some u) =
    Some (hnd', Some (if 2 \<le> avail \<and> even avail
        then take (nat (avail div 2) - 1) (posted_text ver msg) @
          0 # drop (min (nat (avail div 2)) (length (posted_text ver msg) + 1)) buf
        else buf), Some (2 * int (length (posted_text ver msg))), ret) \<and>
    (if avail < 0 \<or> odd avail then ret = SQL_ERROR \<and> state hnd' = SQL_STATE_HY090
     else if 2 * int (length (posted_text ver msg)) + 2 \<le> avail then ret = SQL_SUCCESS \<and> hnd' = posted ver d st msg
     else ret = SQL_SUCCESS_WITH_INFO \<and> state hnd' = SQL_STATE_01004)"
proof -
  have len: "to_i16 (2 * int (length (posted_text ver msg))) = 2 * int (length (posted_text ver msg))"
    using posted_text_length [of ver msg] by (simp add: to_i16_def)
  have d: "diag_ok ver (posted ver d st msg)" using assms(1) by simp
  show ?thesis
    using write_wstr_result [OF posted_text_nul [OF _ assms(2)] assms(3), of ver "posted ver d st msg" ver
        "drop (Suc (length (posted_text ver msg))) (diag_text d)" u] d
    unfolding posted_fields(1) [symmetric] posted_fields(2) [symmetric]
    by (simp add: diag_ok_def posted_fields len)
qed

text \<open>C38: the record that was posted is the one \<open>SQLGetDiagRec\<close> reads: the state's five letter code, and the
  prefixed message, cut to the buffer and terminated, with its whole length in characters; the call
  tells whether it was cut. A buffer of 16384 characters or more is refused though it has all the
  room it needs: its size in bytes no longer fits the 16 bits it is passed in, and is taken for a
  negative one.\<close>
theorem get_diag_rec_posted:
  assumes "diag_ok ver d" and "0 < st" and "st < 120" and "0 \<notin> set msg"
    and "0 \<le> n" and "n \<le> 32767" and "nat n \<le> length buf" and "6 \<le> length sbuf"
  shows "\<exists>r. EsSQLGetDiagRecW ver False (Some (posted ver d st msg)) 1 (Some sbuf) True (Some buf) n True = Some r \<and>
    out_sqlstate r = Some (wlit (state_code (esodbc_errors ! st)) @ 0 # drop 6 sbuf) \<and>
    out_native r = Some 0 \<and> out_length r = Some (int (length (posted_text ver msg))) \<and>
    (if n \<le> 16383 then
       out_message r = Some (if 0 < n then take (nat n - 1) (posted_text ver msg) @
           0 # drop (min (nat n) (length (posted_text ver msg) + 1)) buf else buf) \<and>
       out_ret r = (if int (length (posted_text ver msg)) < n then SQL_SUCCESS else SQL_SUCCESS_WITH_INFO)
     else out_message r = Some buf \<and> out_ret r = SQL_ERROR)"
proof -
  let ?avail = "to_i16 (n * 2)"
  have avail: "?avail = (if n \<le> 16383 then n * 2 else n * 2 - 65536)"
  proof (cases "n \<le> 16383")
    case False
    have "(n * 2 + 32768) mod 65536 = (n * 2 - 32768 + 65536) mod 65536" by (simp add: add.commute)
    also have "\<dots> = (n * 2 - 32768) mod 65536" by (rule mod_add_self2)
    also have "\<dots> = n * 2 - 32768" using False assms(6) by (intro mod_pos_pos_trivial) auto
    finally show ?thesis using False by (simp add: to_i16_def)
  qed (use assms(5) in \<open>simp add: to_i16_def\<close>)
  then have "nat (?avail div 2) \<le> length buf" "even ?avail"
    using assms(6,7) by auto
  from write_posted [OF assms(1,4) this(1), of st 0] this(2) obtain hnd' ret where w:
    "write_wstr ver (posted ver d st msg) (Some buf) (diag_text (posted ver d st msg))
      (text_len (posted ver d st msg)) ?avail (Some 0) = Some (hnd', Some (if 2 \<le> ?avail
        then take (nat (?avail div 2) - 1) (posted_text ver msg) @
          0 # drop (min (nat (?avail div 2)) (length (posted_text ver msg) + 1)) buf
        else buf), Some (2 * int (length (posted_text ver msg))), ret)"
    "if ?avail < 0 then ret = SQL_ERROR
     else if 2 * int (length (posted_text ver msg)) + 2 \<le> ?avail then ret = SQL_SUCCESS
     else ret = SQL_SUCCESS_WITH_INFO"
    by (auto split: if_splits)
  have len: "to_i16 (to_u64 (2 * int (length (posted_text ver msg))) div 2) = int (length (posted_text ver msg))"
    using posted_text_length [of ver msg] by (simp add: to_i16_def to_u64_def)
  have row: "mem_read esodbc_errors st = Some (esodbc_errors ! st)"
    using assms(3) by (simp add: mem_read_def esodbc_errors_length)
  have code: "wcscpy sbuf (state_code (esodbc_errors ! st)) =
      Some (wlit (state_code (esodbc_errors ! st)) @ 0 # drop 6 sbuf)"
    using assms(8) state_code_length [OF assms(3)] by (simp add: wcscpy_def)
  let ?r = "\<lparr>out_sqlstate = Some (wlit (state_code (esodbc_errors ! st)) @ 0 # drop 6 sbuf), out_native = Some 0,
    out_message = Some (if 2 \<le> ?avail
        then take (nat (?avail div 2) - 1) (posted_text ver msg) @
          0 # drop (min (nat (?avail div 2)) (length (posted_text ver msg) + 1)) buf else buf),
    out_length = Some (int (length (posted_text ver msg))), out_ret = ret\<rparr>"
  have "EsSQLGetDiagRecW ver False (Some (posted ver d st msg)) 1 (Some sbuf) True (Some buf) n True = Some ?r"
    using assms(2) row code w(1) len by (simp add: EsSQLGetDiagRecW_def posted_fields(3))
  moreover have "out_message ?r = Some (if n \<le> 16383 \<and> 0 < n then take (nat n - 1) (posted_text ver msg) @
      0 # drop (min (nat n) (length (posted_text ver msg) + 1)) buf else buf)"
    unfolding avail using assms(5,6) by simp
  moreover have "ret = (if 16383 < n then SQL_ERROR
      else if int (length (posted_text ver msg)) < n then SQL_SUCCESS else SQL_SUCCESS_WITH_INFO)"
    using w(2) assms(5,6) unfolding avail by (simp split: if_splits)
  ultimately show ?thesis
    by (intro exI [of _ ?r]) simp
qed

lemma get_diag_rec_posted_witness:
  "\<exists>r. EsSQLGetDiagRecW (wlit ''1.0'') False
      (Some (posted (wlit ''1.0'') (desc_diag sample_desc) SQL_STATE_HY001 (wlit ''Memory allocation error'')))
      1 (Some (replicate 6 0)) True (Some (replicate 11 7)) 10 True = Some r \<and>
    out_message r = Some (wlit ''[Elastic]'' @ [0, 7]) \<and> out_ret r = SQL_SUCCESS_WITH_INFO"
proof -
  have whole: "posted_text (wlit ''1.0'') (wlit ''Memory allocation error'') =
      wlit ''[Elastic][EsODBC 1.0 Driver]Memory allocation error''"
    by code_simp
  have d: "diag_ok (wlit ''1.0'') (desc_diag sample_desc)"
    using desc_okD(3) [OF sample_desc_ok] .
  have nul: "0 \<notin> set (wlit ''Memory allocation error'')" by (simp add: wlit_def)
  have cut: "take 9 (wlit ''[Elastic][EsODBC 1.0 Driver]Memory allocation error'') = wlit ''[Elastic]''"
    "length (wlit ''[Elastic][EsODBC 1.0 Driver]Memory allocation error'') = 51"
    by (simp_all add: wlit_def)
  show ?thesis
    using get_diag_rec_posted [OF d _ _ nul, of SQL_STATE_HY001 10 "replicate 11 7" "replicate 6 0"] cut
    by (auto simp: whole)
qed

text \<open>Copying more units than the destination has.\<close>

lemma mem_write_list_past: "length m < i + length vs \<Longrightarrow> vs \<noteq> [] \<Longrightarrow> mem_write_list m i vs = None"
proof (induction vs arbitrary: m i)
  case (Cons v vs)
  then show ?case
    by (cases "vs = []") (auto simp: mem_write_def split: Option.bind_splits if_splits)
qed simp

lemma wcsncpy_past:
  assumes "0 \<notin> set s" and "length buf < n" and "n \<le> Suc (length s)"
  shows "wcsncpy buf 0 (s @ 0 # rest) n = None"
proof -
  have "length buf < 0 + length (take n s @ replicate (n - length s) (0 :: sqlwchar))"
    using assms(2,3) by simp
  moreover have "take n s @ replicate (n - length s) (0 :: sqlwchar) \<noteq> []"
    using assms(2,3) by auto
  ultimately have "mem_write_list buf 0 (take n s @ replicate (n - length s) 0) = None"
    by (rule mem_write_list_past)
  then show ?thesis
    using assms(1) by (simp add: wcsncpy_def wcsncpy_units_nts)
qed

lemma write_posted_twice:
  assumes "diag_ok ver d" and "0 \<notin> set msg" and "length buf < length (posted_text ver msg) + 1"
    and "0 < length buf" and "w = 2 * length buf"
  shows "write_wstr ver (posted ver d st msg) (Some buf) (diag_text (posted ver d st msg))
      (text_len (posted ver d st msg)) (2 * int w) (Some u) = None"
proof -
  let ?s = "posted_text ver msg"
  let ?rest = "drop (Suc (length ?s)) (diag_text d)"
  have nul: "0 \<notin> set ?s"
    using posted_text_nul assms(1,2) by (simp add: diag_ok_def)
  show ?thesis
  proof (cases "w \<le> length ?s")
    case True
    have "wcsncpy buf 0 (?s @ 0 # ?rest) (w - 1) = None \<or>
        w - 1 = length buf \<and> wcsncpy buf 0 (?s @ 0 # ?rest) (w - 1) = Some (take (w - 1) ?s)"
    proof (cases "w - 1 = length buf")
      case False
      then show ?thesis using wcsncpy_past [OF nul, of buf "w - 1"] assms(4,5) True by auto
    next
      case eq: True
      then show ?thesis
        using wcsncpy_nts [OF nul, of "w - 1" 0 buf ?rest] True by auto
    qed
    moreover have "0 < w" "length (take (w - 1) ?s) = w - 1" using assms(4,5) True by simp_all
    ultimately show ?thesis
      using True by (auto simp: write_wstr_def posted_fields mem_write_def Let_def)
  next
    case False
    then show ?thesis
      using wcsncpy_past [OF nul, of buf "length ?s + 1" ?rest] assms(3)
      by (simp add: write_wstr_def posted_fields Let_def)
  qed
qed

text \<open>\<open>SQLGetDiagField\<close> for the message. Its buffer's length is given in bytes, and is doubled once more
  before it is handed on. A message that fits the buffer with its terminator is copied with its
  length in bytes; one that does not is not cut but written past the buffer's end.\<close>
theorem get_diag_field_message:
  assumes "diag_ok ver d" and "0 \<notin> set msg" and "0 < length buf" and "length buf \<le> 8191"
  shows "EsSQLGetDiagFieldW ver stmt (posted ver d st msg) 1 SQL_DIAG_MESSAGE_TEXT (Some buf)
      (2 * int (length buf)) True =
    (if length (posted_text ver msg) < length buf then
       Some \<lparr>field_diag = posted ver d st msg,
         field_text = Some (posted_text ver msg @ 0 # drop (length (posted_text ver msg) + 1) buf),
         field_number = None, field_length = Some (2 * int (length (posted_text ver msg))),
         field_ret = SQL_SUCCESS\<rparr>
     else None)"
proof -
  let ?s = "posted_text ver msg"
  have avail: "to_i16 (4 * int (length buf)) = 2 * int (2 * length buf)"
    using assms(4) by (simp add: to_i16_def)
  show ?thesis
  proof (cases "length ?s < length buf")
    case False
    then show ?thesis
      using write_posted_twice [OF assms(1,2) _ assms(3) refl, of st 0]
      by (simp add: EsSQLGetDiagFieldW_def avail [simplified])
  next
    case True
    have nul: "0 \<notin> set ?s"
      using posted_text_nul assms(1,2) by (simp add: diag_ok_def)
    have len: "to_i16 (int (length ?s) * 2) = 2 * int (length ?s)"
      using posted_text_length [of ver msg] by (simp add: to_i16_def)
    have copy: "wcsncpy buf 0 (?s @ 0 # drop (Suc (length ?s)) (diag_text d)) (length ?s + 1) =
        Some (?s @ 0 # drop (length ?s + 1) buf)"
      using wcsncpy_nts [OF nul, of "length ?s + 1" 0 buf] True by simp
    moreover have "\<not> nat (2 * int (length buf)) \<le> length ?s" using True by linarith
    ultimately have "write_wstr ver (posted ver d st msg) (Some buf) (diag_text (posted ver d st msg))
        (text_len (posted ver d st msg)) (2 * int (2 * length buf)) (Some 0) =
      Some (posted ver d st msg, Some (?s @ 0 # drop (length ?s + 1) buf), Some (2 * int (length ?s)), SQL_SUCCESS)"
      using True len by (simp add: write_wstr_def posted_fields Let_def)
    then show ?thesis
      using True by (simp add: EsSQLGetDiagFieldW_def avail [simplified])
  qed
qed

lemma get_diag_field_message_witness:
  "EsSQLGetDiagFieldW (wlit ''1.0'') True
      (posted (wlit ''1.0'') (desc_diag sample_desc) SQL_STATE_HY001 (wlit ''Memory allocation error''))
      1 SQL_DIAG_MESSAGE_TEXT (Some (replicate 51 7)) 102 True = None"
proof -
  have whole: "posted_text (wlit ''1.0'') (wlit ''Memory allocation error'') =
      wlit ''[Elastic][EsODBC 1.0 Driver]Memory allocation error''"
    by code_simp
  have d: "diag_ok (wlit ''1.0'') (desc_diag sample_desc)"
    using desc_okD(3) [OF sample_desc_ok] .
  have nul: "0 \<notin> set (wlit ''Memory allocation error'')" by (simp add: wlit_def)
  have "length (wlit ''[Elastic][EsODBC 1.0 Driver]Memory allocation error'') = 51"
    by (simp add: wlit_def)
  then show ?thesis
    using get_diag_field_message [OF d nul, of "replicate 51 7" True SQL_STATE_HY001] by (simp add: whole)
qed

end
