(* ===== verification/Ivl_Iso.thy ===== *)
theory Ivl_Iso
imports Str_Numbers Str_Buffers Desc_Records
begin

text \<open>
  Intervals in the ISO 8601 form Elasticsearch sends them in (driver/convert.c):
  \<open>SQL_INTERVAL_STRUCT\<close>, \<open>pow10\<close>, \<open>adjust_to_precision\<close>, \<open>parse_iso8601_number\<close> and
  \<open>parse_interval_iso8601\<close>, with the rebalancing of the fields to those of the interval's type.

  A call posts its diagnostics on the statement the record belongs to: \<open>d\<close> is that statement's
  record, passed along. The text is the list of its counted units. \<open>None\<close> is undefined behaviour:
  a variable read before it is set, a shift by 64 or more, a failed \<open>assert\<close> of a debug build.
  \<open>ULONG_MAX\<close> is that of the driver's platform, 32 bits.
\<close>

section \<open>The structure\<close>

type_synonym u32 = "32 word"

definition ULONG_MAX :: u64 where "ULONG_MAX = 4294967295"

text \<open>The members \<open>year_month\<close> and \<open>day_second\<close> are a union: the year is where the day is, the month
  where the hour is.\<close>

record SQL_INTERVAL_STRUCT =
  interval_type :: int
  interval_sign :: bool
  year_day :: u32
  month_hour :: u32
  minute :: u32
  second :: u32
  fraction :: u32

definition zero_interval :: SQL_INTERVAL_STRUCT where
  "zero_interval = \<lparr>interval_type = 0, interval_sign = False, year_day = 0, month_hour = 0, minute = 0,
     second = 0, fraction = 0\<rparr>"

abbreviation (input) "SQL_IS_YEAR \<equiv> 1 :: int"
abbreviation (input) "SQL_IS_MONTH \<equiv> 2 :: int"
abbreviation (input) "SQL_IS_DAY \<equiv> 3 :: int"
abbreviation (input) "SQL_IS_HOUR \<equiv> 4 :: int"
abbreviation (input) "SQL_IS_MINUTE \<equiv> 5 :: int"
abbreviation (input) "SQL_IS_SECOND \<equiv> 6 :: int"
abbreviation (input) "SQL_IS_YEAR_TO_MONTH \<equiv> 7 :: int"
abbreviation (input) "SQL_IS_DAY_TO_HOUR \<equiv> 8 :: int"
abbreviation (input) "SQL_IS_DAY_TO_MINUTE \<equiv> 9 :: int"
abbreviation (input) "SQL_IS_DAY_TO_SECOND \<equiv> 10 :: int"
abbreviation (input) "SQL_IS_HOUR_TO_MINUTE \<equiv> 11 :: int"
abbreviation (input) "SQL_IS_HOUR_TO_SECOND \<equiv> 12 :: int"
abbreviation (input) "SQL_IS_MINUTE_TO_SECOND \<equiv> 13 :: int"

section \<open>Precision\<close>

fun pow10_loop :: "u64 \<Rightarrow> nat \<Rightarrow> u64" where
  "pow10_loop pow 0 = pow"
| "pow10_loop pow (Suc n) = pow10_loop (pow + push_bit 2 pow) n"

definition pow10 :: "nat \<Rightarrow> u64 option" where
  "pow10 n = (if n < 64 then Some (pow10_loop (push_bit n 1) n) else None)"

text \<open>\<open>prec\<close> is the record's precision; the answer is the adjusted value.\<close>

definition adjust_to_precision ::
    "wstr \<Rightarrow> esodbc_diag \<Rightarrow> int \<Rightarrow> u64 \<Rightarrow> int \<Rightarrow> (esodbc_diag \<times> sqlreturn \<times> u64) option" where
  "adjust_to_precision ver d prec val prec_have =
    (if prec_have < prec then do {
       p \<leftarrow> pow10 (nat (prec - prec_have));
       Some (d, SQL_SUCCESS, val * p) }
     else do {
       p \<leftarrow> pow10 (nat (prec_have - prec));
       (d, ret) \<leftarrow> RET_HDIAGS ver d SQL_STATE_01S07;
       Some (d, ret, val div p) })"

section \<open>A number\<close>

text \<open>What a number leaves in the caller's variables; \<open>rest\<close> is the text after it.\<close>

record iso_number =
  num_uint :: u32
  num_sign :: int
  num_fraction :: u32
  num_has_fraction :: bool
  num_rest :: wstr
  num_ret :: sqlreturn

text \<open>The inner \<open>None\<close> is \<open>SQL_ERROR\<close>. The variable \<open>sign\<close> is a \<open>char\<close>; the units read so far all
  have the same sign when it is positive or negative.\<close>

definition iso_number_end ::
    "u64 \<Rightarrow> int \<Rightarrow> u32 \<Rightarrow> bool \<Rightarrow> wstr \<Rightarrow> sqlreturn \<Rightarrow> iso_number option" where
  "iso_number_end bint sign frac has_frac rest ret =
    (let inc = (if sint bint < 0 then - 1 else 1);
         bint = (if sint bint < 0 then - bint else bint) in
     if sint ULONG_MAX < sint bint then None
     else if sign \<noteq> 0 \<and> ((inc < 0) \<noteq> (sign < 0)) then None
     else Some \<lparr>num_uint = ucast bint, num_sign = sign + inc, num_fraction = frac,
       num_has_fraction = has_frac, num_rest = rest, num_ret = ret\<rparr>)"

definition parse_iso8601_number ::
    "wstr \<Rightarrow> esodbc_diag \<Rightarrow> int \<Rightarrow> wstr \<Rightarrow> int \<Rightarrow> u32 \<Rightarrow> (esodbc_diag \<times> iso_number option) option" where
  "parse_iso8601_number ver d prec wstr sign frac =
    (case str2bigint (WStr wstr) False of
       Inl _ \<Rightarrow> Some (d, None)
     | Inr (digits, bint) \<Rightarrow>
         if length wstr \<le> digits then Some (d, None)
         else if wstr ! digits = 46 then
           (let bint = (if digits = 0 then 0 else bint) in
            if length wstr \<le> digits + 1 then Some (d, None)
            else (case str2ubigint (WStr (drop (digits + 1) wstr)) False of
                Inl _ \<Rightarrow> Some (d, None)
              | Inr (fdigits, ubint) \<Rightarrow>
                  if ULONG_MAX < ubint then Some (d, None)
                  else do {
                    (d, ret, ubint) \<leftarrow> adjust_to_precision ver d prec ubint (to_i16 (int fdigits));
                    Some (d, iso_number_end bint sign (ucast ubint) True
                      (drop (digits + fdigits + 1) wstr) ret) }))
         else Some (d, iso_number_end bint sign frac False (drop digits wstr) SQL_SUCCESS))"

section \<open>The fields\<close>

datatype iso_state = ST_UNINITED | ST_PERIOD | ST_TIME | ST_NUMBER

text \<open>The variables of the scan. \<open>iv_number\<close> holds those a number sets (its value, whether it has a
  fraction, the last return code): \<open>None\<close> while they are uninitialised.\<close>

record iso_vars =
  iv_ivl :: SQL_INTERVAL_STRUCT
  iv_sign :: int
  iv_fields :: "16 word"
  iv_fraction :: u32
  iv_number :: "(u32 \<times> bool \<times> sqlreturn) option"
  iv_state :: iso_state
  iv_saved :: iso_state

definition field_bit :: "int \<Rightarrow> 16 word" where
  "field_bit t = push_bit (nat t) 1"

definition SET_BITMASK_OR_ERR :: "int \<Rightarrow> iso_vars \<Rightarrow> iso_vars option" where
  "SET_BITMASK_OR_ERR t v =
    (if and (field_bit t) (iv_fields v) \<noteq> 0 then None
     else Some (v\<lparr>iv_fields := or (iv_fields v) (field_bit t)\<rparr>))"

text \<open>\<open>set_field\<close> stores the number in the interval's member.\<close>

definition ASSIGN_FIELD ::
    "iso_state \<Rightarrow> int \<Rightarrow> (u32 \<Rightarrow> SQL_INTERVAL_STRUCT \<Rightarrow> SQL_INTERVAL_STRUCT) \<Rightarrow> iso_vars \<Rightarrow> iso_vars option" where
  "ASSIGN_FIELD prev t set_field v =
    (if iv_state v \<noteq> ST_NUMBER \<or> iv_saved v \<noteq> prev then None
     else (case iv_number v of
         None \<Rightarrow> None
       | Some (num, has_fraction, _) \<Rightarrow>
           if t \<noteq> SQL_IS_SECOND \<and> has_fraction then None
           else (case SET_BITMASK_OR_ERR t v of
               None \<Rightarrow> None
             | Some v \<Rightarrow> Some (v\<lparr>iv_ivl := set_field num (iv_ivl v), iv_state := iv_saved v\<rparr>))))"

text \<open>The letter \<open>m\<close>: months in the date part, minutes in the time part.\<close>

definition assign_m :: "iso_vars \<Rightarrow> iso_vars option" where
  "assign_m v =
    (if iv_saved v = ST_PERIOD
     then ASSIGN_FIELD ST_PERIOD SQL_IS_MONTH (\<lambda>u. month_hour_update (\<lambda>_. u)) v
     else ASSIGN_FIELD ST_TIME SQL_IS_MINUTE (\<lambda>u. minute_update (\<lambda>_. u)) v)"

definition assign_s :: "iso_vars \<Rightarrow> iso_vars option" where
  "assign_s v =
    map_option (\<lambda>v. if (\<exists>(_, has_fraction, _) \<in> set_option (iv_number v). has_fraction)
        then v\<lparr>iv_ivl := (iv_ivl v)\<lparr>fraction := iv_fraction v\<rparr>\<rparr> else v)
      (ASSIGN_FIELD ST_TIME SQL_IS_SECOND (\<lambda>u. second_update (\<lambda>_. u)) v)"

text \<open>The designator letters (folded by setting bit 5); \<open>None\<close> is a jump to an error label.\<close>

definition iso_letter :: "sqlwchar \<Rightarrow> iso_vars \<Rightarrow> iso_vars option" where
  "iso_letter c v =
    (if c = 112 then (if iv_state v = ST_UNINITED then Some (v\<lparr>iv_state := ST_PERIOD\<rparr>) else None)
     else if c = 116 then (if iv_state v = ST_PERIOD then Some (v\<lparr>iv_state := ST_TIME\<rparr>) else None)
     else if c = 121 then ASSIGN_FIELD ST_PERIOD SQL_IS_YEAR (\<lambda>u. year_day_update (\<lambda>_. u)) v
     else if c = 109 then assign_m v
     else if c = 100 then ASSIGN_FIELD ST_PERIOD SQL_IS_DAY (\<lambda>u. year_day_update (\<lambda>_. u)) v
     else if c = 104 then ASSIGN_FIELD ST_TIME SQL_IS_HOUR (\<lambda>u. month_hour_update (\<lambda>_. u)) v
     else if c = 115 then assign_s v
     else None)"

definition starts_number :: "sqlwchar \<Rightarrow> bool" where
  "starts_number c \<longleftrightarrow> c = 43 \<or> c = 45 \<or> c = 46 \<or> 48 \<le> c \<and> c \<le> 57"

lemma parse_iso8601_number_rest:
  "parse_iso8601_number ver d prec wstr sign frac = Some (d', Some n) \<Longrightarrow>
    length (num_rest n) \<le> length wstr"
  by (auto simp: parse_iso8601_number_def iso_number_end_def Let_def
      split: sum.splits if_splits Option.bind_splits)

text \<open>The scan; the inner \<open>None\<close> is a jump to \<open>err_parse\<close> or \<open>err_format\<close>.\<close>

function iso_scan ::
    "wstr \<Rightarrow> int \<Rightarrow> wstr \<Rightarrow> esodbc_diag \<Rightarrow> iso_vars \<Rightarrow> (esodbc_diag \<times> iso_vars option) option" where
  "iso_scan ver prec [] d v = Some (d, Some v)"
| "iso_scan ver prec (crr # rest) d v =
    (if starts_number (or crr 32) then
       (if iv_state v = ST_PERIOD \<or> iv_state v = ST_TIME then
          (case parse_iso8601_number ver d prec (crr # rest) (iv_sign v) (iv_fraction v) of
             None \<Rightarrow> None
           | Some (d, None) \<Rightarrow> Some (d, None)
           | Some (d, Some n) \<Rightarrow>
               iso_scan ver prec (num_rest n) d
                 (v\<lparr>iv_sign := num_sign n, iv_fraction := num_fraction n,
                    iv_number := Some (num_uint n, num_has_fraction n, num_ret n),
                    iv_saved := iv_state v, iv_state := ST_NUMBER\<rparr>))
        else Some (d, None))
     else (case iso_letter (or crr 32) v of
         None \<Rightarrow> Some (d, None)
       | Some v \<Rightarrow> iso_scan ver prec rest d v))"
  by pat_completeness auto
termination
  by (relation "measure (\<lambda>(_, _, text, _, v). 2 * length text + (if iv_state v = ST_NUMBER then 0 else 1))")
    (auto dest: parse_iso8601_number_rest)

declare iso_scan.simps [simp del]

section \<open>Rebalancing\<close>

definition type2bm :: "16 word list" where
  "type2bm = map (\<lambda>ts. foldr (\<lambda>t bm. or (field_bit t) bm) ts 0)
    [[SQL_IS_YEAR], [SQL_IS_MONTH], [SQL_IS_DAY], [SQL_IS_HOUR], [SQL_IS_MINUTE], [SQL_IS_SECOND],
     [SQL_IS_YEAR, SQL_IS_MONTH], [SQL_IS_DAY, SQL_IS_HOUR], [SQL_IS_DAY, SQL_IS_HOUR, SQL_IS_MINUTE],
     [SQL_IS_DAY, SQL_IS_HOUR, SQL_IS_MINUTE, SQL_IS_SECOND], [SQL_IS_HOUR, SQL_IS_MINUTE],
     [SQL_IS_HOUR, SQL_IS_MINUTE, SQL_IS_SECOND], [SQL_IS_MINUTE, SQL_IS_SECOND]]"

definition ULONG_SAFE_ADD :: "u32 \<Rightarrow> u32 \<Rightarrow> u32 option" where
  "ULONG_SAFE_ADD to from = (if 4294967295 - from < to then None else Some (to + from))"

definition interval_secs :: "SQL_INTERVAL_STRUCT \<Rightarrow> u32 option" where
  "interval_secs ivl = do {
     secs \<leftarrow> ULONG_SAFE_ADD (second ivl) (60 * minute ivl);
     secs \<leftarrow> ULONG_SAFE_ADD secs (3600 * month_hour ivl);
     ULONG_SAFE_ADD secs (24 * 3600 * year_day ivl) }"

text \<open>An \<open>assert\<close>: checked in debug builds only.\<close>

definition c_assert :: "bool \<Rightarrow> bool \<Rightarrow> unit option" where
  "c_assert ndebug p = (if ndebug \<or> p then Some () else None)"

definition has_field :: "16 word \<Rightarrow> int \<Rightarrow> bool" where
  "has_field bm t \<longleftrightarrow> and bm (field_bit t) \<noteq> 0"

text \<open>\<open>secs\<close> spread over the members the type has, from the seconds up.\<close>

definition spread_second :: "16 word \<Rightarrow> u32 \<Rightarrow> SQL_INTERVAL_STRUCT \<Rightarrow> SQL_INTERVAL_STRUCT" where
  "spread_second bm secs ivl = (if has_field bm SQL_IS_SECOND then ivl\<lparr>second := secs\<rparr> else ivl)"

definition spread_minute ::
    "bool \<Rightarrow> 16 word \<Rightarrow> u32 \<Rightarrow> SQL_INTERVAL_STRUCT \<Rightarrow> SQL_INTERVAL_STRUCT option" where
  "spread_minute ndebug bm secs ivl =
    (if \<not> has_field bm SQL_IS_MINUTE then Some ivl
     else if second ivl \<noteq> 0 then Some (ivl\<lparr>minute := second ivl div 60, second := secs mod 60\<rparr>)
     else do {
       c_assert ndebug (secs mod 60 = 0);
       Some (ivl\<lparr>minute := secs div 60\<rparr>) })"

definition spread_hour ::
    "bool \<Rightarrow> 16 word \<Rightarrow> u32 \<Rightarrow> SQL_INTERVAL_STRUCT \<Rightarrow> SQL_INTERVAL_STRUCT option" where
  "spread_hour ndebug bm secs ivl =
    (if \<not> has_field bm SQL_IS_HOUR then Some ivl
     else if minute ivl \<noteq> 0 then Some (ivl\<lparr>month_hour := minute ivl div 60, minute := minute ivl mod 60\<rparr>)
     else do {
       c_assert ndebug (secs mod 3600 = 0);
       Some (ivl\<lparr>month_hour := secs div 3600\<rparr>) })"

definition spread_day ::
    "bool \<Rightarrow> 16 word \<Rightarrow> u32 \<Rightarrow> SQL_INTERVAL_STRUCT \<Rightarrow> SQL_INTERVAL_STRUCT option" where
  "spread_day ndebug bm secs ivl =
    (if \<not> has_field bm SQL_IS_DAY then Some ivl
     else if month_hour ivl \<noteq> 0
       then Some (ivl\<lparr>year_day := month_hour ivl div 24, month_hour := month_hour ivl mod 24\<rparr>)
     else do {
       c_assert ndebug (secs mod (24 * 3600) = 0);
       Some (ivl\<lparr>year_day := secs div (24 * 3600)\<rparr>) })"

definition spread_secs ::
    "bool \<Rightarrow> 16 word \<Rightarrow> u32 \<Rightarrow> SQL_INTERVAL_STRUCT \<Rightarrow> SQL_INTERVAL_STRUCT option" where
  "spread_secs ndebug bm secs ivl = do {
     ivl \<leftarrow> spread_minute ndebug bm secs (spread_second bm secs ivl);
     ivl \<leftarrow> spread_hour ndebug bm secs ivl;
     spread_day ndebug bm secs ivl }"

definition day_time_fields :: "16 word \<Rightarrow> 16 word" where
  "day_time_fields bm = and bm (foldr (\<lambda>t b. or (field_bit t) b)
     [SQL_IS_SECOND, SQL_IS_MINUTE, SQL_IS_HOUR, SQL_IS_DAY] 0)"

datatype iso_error = err_overflow | err_format

text \<open>The interval and its fields when they are not those of a day-time type: \<open>has_fraction\<close> is
  \<open>None\<close> while uninitialised.\<close>

definition iso_rebalance ::
    "bool \<Rightarrow> 16 word \<Rightarrow> u32 \<Rightarrow> bool option \<Rightarrow> SQL_INTERVAL_STRUCT
     \<Rightarrow> (iso_error + SQL_INTERVAL_STRUCT \<times> 16 word) option" where
  "iso_rebalance ndebug bm frac has_fraction ivl =
    (case interval_secs ivl of
       None \<Rightarrow> Some (Inl err_overflow)
     | Some secs \<Rightarrow>
         let ivl = ivl\<lparr>year_day := 0, month_hour := 0, minute := 0, second := 0, fraction := frac\<rparr> in
         if has_field bm SQL_IS_SECOND
         then map_option (\<lambda>ivl. Inr (ivl, day_time_fields bm)) (spread_secs ndebug bm secs ivl)
         else (case has_fraction of
             None \<Rightarrow> None
           | Some True \<Rightarrow> Some (Inl err_format)
           | Some False \<Rightarrow> map_option (\<lambda>ivl. Inr (ivl, day_time_fields bm)) (spread_secs ndebug bm secs ivl)))"

section \<open>The whole value\<close>

definition RET_CONV_TEXT ::
    "wstr \<Rightarrow> esodbc_diag \<Rightarrow> esodbc_state \<Rightarrow> string \<Rightarrow> (esodbc_diag \<times> sqlreturn) option" where
  "RET_CONV_TEXT ver d st txt = post_diagnostic ver d st (Some (wlit txt @ [0])) 0"

text \<open>A call answers the diagnostic, the return code and the interval. That of a failed call is read by
  none of the callers: \<open>zero_interval\<close> stands for it.\<close>

definition iso_fails ::
    "wstr \<Rightarrow> esodbc_diag \<Rightarrow> iso_error \<Rightarrow> (esodbc_diag \<times> sqlreturn \<times> SQL_INTERVAL_STRUCT) option" where
  "iso_fails ver d e = do {
     (d, ret) \<leftarrow> (case e of
         err_overflow \<Rightarrow> RET_HDIAGS ver d SQL_STATE_22015
       | err_format \<Rightarrow> RET_CONV_TEXT ver d SQL_STATE_22018 ''Invalid server answer'');
     Some (d, ret, zero_interval) }"

definition iso_vars_start :: iso_vars where
  "iso_vars_start = \<lparr>iv_ivl = zero_interval, iv_sign = 0, iv_fields = 0, iv_fraction = 0, iv_number = None,
     iv_state = ST_UNINITED, iv_saved = ST_UNINITED\<rparr>"

definition iso_finish ::
    "bool \<Rightarrow> wstr \<Rightarrow> int \<Rightarrow> esodbc_diag \<Rightarrow> iso_vars
     \<Rightarrow> (esodbc_diag \<times> sqlreturn \<times> SQL_INTERVAL_STRUCT) option" where
  "iso_finish ndebug ver ctype d v =
    (if iv_state v \<noteq> ST_PERIOD \<and> iv_state v \<noteq> ST_TIME then iso_fails ver d err_format
     else do {
       let ivl = (iv_ivl v)\<lparr>interval_sign := iv_sign v < 0, interval_type := ctype - 100\<rparr>;
       bm \<leftarrow> (if 0 < ctype - 100 then mem_read type2bm (nat (ctype - 100 - 1)) else None);
       r \<leftarrow> (if bm \<noteq> iv_fields v \<and> \<not> has_field bm SQL_IS_YEAR \<and> \<not> has_field bm SQL_IS_MONTH
             then iso_rebalance ndebug bm (iv_fraction v) (map_option (\<lambda>(_, hf, _). hf) (iv_number v)) ivl
             else Some (Inr (ivl, iv_fields v)));
       case r of
         Inl e \<Rightarrow> iso_fails ver d e
       | Inr (ivl, bits) \<Rightarrow>
           if and (not bm) bits \<noteq> 0 then iso_fails ver d err_format
           else do {
             (_, _, ret) \<leftarrow> iv_number v;
             Some (d, ret, ivl) } })"

definition parse_interval_iso8601 ::
    "bool \<Rightarrow> wstr \<Rightarrow> int \<Rightarrow> int \<Rightarrow> wstr \<Rightarrow> esodbc_diag
     \<Rightarrow> (esodbc_diag \<times> sqlreturn \<times> SQL_INTERVAL_STRUCT) option" where
  "parse_interval_iso8601 ndebug ver prec ctype wstr d = do {
     (d, r) \<leftarrow> iso_scan ver prec wstr d iso_vars_start;
     case r of
       None \<Rightarrow> iso_fails ver d err_format
     | Some v \<Rightarrow> iso_finish ndebug ver ctype d v }"

section \<open>Powers of ten and digits\<close>

lemma pow10_loop_eq: "pow10_loop p n = p * 5 ^ n"
proof (induction n arbitrary: p)
  case (Suc n)
  have "p + push_bit 2 p = 5 * p" by (simp add: push_bit_eq_mult)
  then show ?case using Suc by (simp add: algebra_simps)
qed simp

lemma pow10_eq: "n < 64 \<Longrightarrow> pow10 n = Some (10 ^ n)"
  by (simp add: pow10_def pow10_loop_eq push_bit_eq_mult flip: power_mult_distrib)

lemma pow10_unat: "n \<le> 19 \<Longrightarrow> unat (10 ^ n :: u64) = 10 ^ n"
proof -
  assume "n \<le> 19"
  then have "(10::nat) ^ n \<le> 10 ^ 19" by (intro power_increasing) simp_all
  then have "(10::nat) ^ n < 2 ^ 64" by simp
  moreover have "(10 ^ n :: u64) = of_nat (10 ^ n)" by simp
  ultimately show ?thesis by (simp only: unat_of_nat) simp
qed

text \<open>A run of digits as text, which the scans stop after.\<close>

definition dtext :: "nat list \<Rightarrow> wstr" where
  "dtext ds = map (\<lambda>d. of_nat (48 + d)) ds"

lemma units_dtext: "\<forall>d\<in>set ds. d < 10 \<Longrightarrow> units (WStr (dtext ds @ rest)) = map ((+) 48) ds @ map unat rest"
proof -
  assume a: "\<forall>d\<in>set ds. d < 10"
  have "unat (of_nat (48 + d) :: sqlwchar) = 48 + d" if "d \<in> set ds" for d
    using a that by (simp only: unat_of_nat) auto
  then show ?thesis by (simp add: dtext_def del: of_nat_add)
qed

lemma str2ubigint_dtext:
  assumes "ds \<noteq> []" "\<forall>d\<in>set ds. d < 10" "rest = [] \<or> \<not> digit_unit (unat (hd rest))" "dec_from 0 ds < 2 ^ 64"
  shows "str2ubigint (WStr (dtext ds @ rest)) False = Inr (length ds, of_nat (dec_from 0 ds))"
proof -
  have r: "c < 2 ^ 16" if "c \<in> set (map unat rest)" for c
    using that by (auto intro: order.strict_trans2 [OF unsigned_less])
  have hd: "map unat rest = [] \<or> \<not> digit_unit (hd (map unat rest))"
    using assms(3) by (cases rest) auto
  show ?thesis
    using str2ubigint_digits [of "WStr (dtext ds @ rest)" "[]" ds "map unat rest" False] units_dtext [OF assms(2)]
      assms r hd by (simp add: scan_end_def)
qed

end
