(* ===== verification/Ivl_Literal.thy ===== *)
theory Ivl_Literal
imports Ivl_Iso Desc_SetField
begin

text \<open>
  Interval literals (driver/convert.c): \<open>parse_interval_field\<close>, \<open>parse_interval_second\<close>,
  \<open>parse_interval_literal_value\<close>, \<open>parse_interval_type\<close>, \<open>parse_interval_literal\<close> and the conversion
  \<open>sql2c_interval\<close> that takes either a literal or the ISO 8601 form.

  The code looks at units past the counted ones, and may count more units than there are: a
  \<open>wstr_st\<close> is here the memory from its pointer on with the count of type \<open>size_t\<close>. \<open>None\<close> is a read
  outside that memory. A step of the parser answers \<open>Inl\<close> the return code of its early return, or
  \<open>Inr\<close> what it leaves.
\<close>

section \<open>Strings in memory\<close>

type_synonym wview = "wstr \<times> nat"

text \<open>Subtraction on \<open>size_t\<close>.\<close>

definition size_sub :: "nat \<Rightarrow> nat \<Rightarrow> nat" where
  "size_sub n k = (if k \<le> n then n - k else n + 2 ^ 64 - k)"

definition vskip :: "nat \<Rightarrow> wview \<Rightarrow> wview" where
  "vskip n v = (drop n (fst v), size_sub (snd v) n)"

text \<open>The counted units that a scan may touch: it must stop before it leaves the memory.\<close>

definition vscan :: "(sqlwchar \<Rightarrow> bool) \<Rightarrow> wview \<Rightarrow> nat option" where
  "vscan p v = (let n = length (takeWhile p (take (snd v) (fst v))) in
     if n = length (fst v) \<and> n < snd v then None else Some n)"

definition vltrim :: "(sqlwchar \<Rightarrow> bool) \<Rightarrow> wview \<Rightarrow> wview option" where
  "vltrim iswspace v = do { n \<leftarrow> vscan iswspace v; Some (vskip n v) }"

text \<open>\<open>str2ubigint\<close> in lenient mode. With more units counted than there are, the scan has to end
  within the memory.\<close>

definition vnumber :: "wview \<Rightarrow> (c_errno + nat \<times> u64) option" where
  "vnumber v = (let r = str2ubigint (WStr (take (snd v) (fst v))) False in
     case r of
       Inl e \<Rightarrow> Some (Inl e)
     | Inr (n, _) \<Rightarrow> if n = length (fst v) \<and> n < snd v then None else Some r)"

section \<open>Steps\<close>

type_synonym 'a conv_step = "(esodbc_diag \<times> (sqlreturn + 'a)) option"

definition proceed :: "'a conv_step \<Rightarrow> (esodbc_diag \<Rightarrow> 'a \<Rightarrow> 'b conv_step) \<Rightarrow> 'b conv_step" where
  "proceed m f = do {
     (d, r) \<leftarrow> m;
     case r of Inl ret \<Rightarrow> Some (d, Inl ret) | Inr x \<Rightarrow> f d x }"

definition conv_fail :: "wstr \<Rightarrow> esodbc_diag \<Rightarrow> esodbc_state \<Rightarrow> 'a conv_step" where
  "conv_fail ver d st = do { (d, ret) \<leftarrow> RET_HDIAGS ver d st; Some (d, Inl ret) }"

section \<open>Fields\<close>

text \<open>\<open>limit\<close> is 0 for the leading field, whose number of digits the interval precision \<open>lead_prec\<close>
  bounds.\<close>

definition parse_interval_field ::
    "wstr \<Rightarrow> esodbc_rec \<Rightarrow> u64 \<Rightarrow> wview \<Rightarrow> esodbc_diag \<Rightarrow> (wview \<times> u32) conv_step" where
  "parse_interval_field ver rec limit v d = do {
     r \<leftarrow> vnumber v;
     case r of
       Inl e \<Rightarrow> conv_fail ver d (if e = ERANGE then SQL_STATE_22015 else SQL_STATE_22018)
     | Inr (digits, ubint) \<Rightarrow>
         if digits = 0 then conv_fail ver d SQL_STATE_22018
         else if ULONG_MAX < ubint then conv_fail ver d SQL_STATE_22015
         else if limit = 0 then
           (if datetime_interval_precision rec < int digits then conv_fail ver d SQL_STATE_22018
            else Some (d, Inr (vskip digits v, ucast ubint)))
         else if limit < ubint then conv_fail ver d SQL_STATE_22015
         else Some (d, Inr (vskip digits v, ucast ubint)) }"

text \<open>A single unit, as a separator between fields.\<close>

definition parse_separator_unit :: "wstr \<Rightarrow> sqlwchar \<Rightarrow> wview \<Rightarrow> esodbc_diag \<Rightarrow> wview conv_step" where
  "parse_separator_unit ver c v d = do {
     x \<leftarrow> mem_read (fst v) 0;
     if x \<noteq> c then conv_fail ver d SQL_STATE_22018 else Some (d, Inr (vskip 1 v)) }"

definition PARSE_IVL_FLD_OR_RET ::
    "wstr \<Rightarrow> esodbc_rec \<Rightarrow> u64 \<Rightarrow> bool \<Rightarrow> wview \<Rightarrow> esodbc_diag \<Rightarrow> (wview \<times> u32) conv_step" where
  "PARSE_IVL_FLD_OR_RET ver rec limit at_the_end v d =
    proceed (parse_interval_field ver rec limit v d) (\<lambda>d (v, u).
      if at_the_end \<and> snd v \<noteq> 0 then conv_fail ver d SQL_STATE_22018 else Some (d, Inr (v, u)))"

text \<open>Seconds with their fraction. The code returned by \<open>adjust_to_precision\<close> is a success, which the
  callers take for one.\<close>

definition parse_interval_second ::
    "wstr \<Rightarrow> esodbc_rec \<Rightarrow> u64 \<Rightarrow> wview \<Rightarrow> SQL_INTERVAL_STRUCT \<Rightarrow> esodbc_diag \<Rightarrow> SQL_INTERVAL_STRUCT conv_step" where
  "parse_interval_second ver rec limit v ivl d =
    proceed (parse_interval_field ver rec limit v d) (\<lambda>d (v, u).
      let ivl = ivl\<lparr>second := u\<rparr> in
      if snd v = 0 then Some (d, Inr ivl)
      else proceed (parse_separator_unit ver 46 v d) (\<lambda>d v.
        if snd v = 0 then Some (d, Inr ivl)
        else proceed (parse_interval_field ver rec ULONG_MAX v d) (\<lambda>d (v', f). do {
          let digits = to_i16 (int (size_sub (snd v) (snd v')));
          (d, ret, ull) \<leftarrow> adjust_to_precision ver d (precision rec) (ucast f) digits;
          let ivl = ivl\<lparr>fraction := ucast ull\<rparr>;
          if snd v' \<noteq> 0 then conv_fail ver d SQL_STATE_22018 else Some (d, Inr ivl) })))"

text \<open>Hours or minutes that start the value or follow another field, then what comes after them.\<close>

definition parse_minute_second ::
    "wstr \<Rightarrow> esodbc_rec \<Rightarrow> u64 \<Rightarrow> bool \<Rightarrow> wview \<Rightarrow> SQL_INTERVAL_STRUCT \<Rightarrow> esodbc_diag \<Rightarrow> SQL_INTERVAL_STRUCT conv_step" where
  "parse_minute_second ver rec limit ends v ivl d =
    proceed (PARSE_IVL_FLD_OR_RET ver rec limit ends v d) (\<lambda>d (v, u).
      let ivl = ivl\<lparr>minute := u\<rparr> in
      if ends then Some (d, Inr ivl)
      else proceed (parse_separator_unit ver 58 v d) (\<lambda>d v. parse_interval_second ver rec 59 v ivl d))"

definition parse_single_field ::
    "wstr \<Rightarrow> esodbc_rec \<Rightarrow> (u32 \<Rightarrow> SQL_INTERVAL_STRUCT) \<Rightarrow> wview \<Rightarrow> esodbc_diag \<Rightarrow> SQL_INTERVAL_STRUCT conv_step" where
  "parse_single_field ver rec set_field v d =
    proceed (PARSE_IVL_FLD_OR_RET ver rec 0 True v d) (\<lambda>d (v, u). Some (d, Inr (set_field u)))"

definition parse_year_to_month ::
    "(sqlwchar \<Rightarrow> bool) \<Rightarrow> wstr \<Rightarrow> esodbc_rec \<Rightarrow> wview \<Rightarrow> SQL_INTERVAL_STRUCT \<Rightarrow> esodbc_diag
     \<Rightarrow> SQL_INTERVAL_STRUCT conv_step" where
  "parse_year_to_month iswspace ver rec v ivl d =
    proceed (PARSE_IVL_FLD_OR_RET ver rec 0 False v d) (\<lambda>d (v, y). do {
      v \<leftarrow> vltrim iswspace v;
      proceed (parse_separator_unit ver 45 v d) (\<lambda>d v. do {
        v \<leftarrow> vltrim iswspace v;
        proceed (PARSE_IVL_FLD_OR_RET ver rec 11 True v d) (\<lambda>d (v, m).
          Some (d, Inr (ivl\<lparr>year_day := y, month_hour := m\<rparr>))) }) })"

text \<open>\<open>to\<close> is the type.\<close>

definition parse_day_to ::
    "(sqlwchar \<Rightarrow> bool) \<Rightarrow> wstr \<Rightarrow> esodbc_rec \<Rightarrow> int \<Rightarrow> wview \<Rightarrow> SQL_INTERVAL_STRUCT \<Rightarrow> esodbc_diag
     \<Rightarrow> SQL_INTERVAL_STRUCT conv_step" where
  "parse_day_to iswspace ver rec to v ivl d =
    proceed (PARSE_IVL_FLD_OR_RET ver rec 0 False v d) (\<lambda>d (v, x). do {
      v \<leftarrow> vltrim iswspace v;
      proceed (PARSE_IVL_FLD_OR_RET ver rec 23 (to = SQL_IS_DAY_TO_HOUR) v d) (\<lambda>d (v, h).
        let ivl = ivl\<lparr>year_day := x, month_hour := h\<rparr> in
        if to = SQL_IS_DAY_TO_HOUR then Some (d, Inr ivl)
        else proceed (parse_separator_unit ver 58 v d) (\<lambda>d v.
          parse_minute_second ver rec 59 (to = SQL_IS_DAY_TO_MINUTE) v ivl d)) })"

definition parse_hour_to ::
    "wstr \<Rightarrow> esodbc_rec \<Rightarrow> int \<Rightarrow> wview \<Rightarrow> SQL_INTERVAL_STRUCT \<Rightarrow> esodbc_diag \<Rightarrow> SQL_INTERVAL_STRUCT conv_step" where
  "parse_hour_to ver rec to v ivl d =
    proceed (PARSE_IVL_FLD_OR_RET ver rec 0 False v d) (\<lambda>d (v, h).
      proceed (parse_separator_unit ver 58 v d) (\<lambda>d v.
        parse_minute_second ver rec 59 (to = SQL_IS_HOUR_TO_MINUTE) v (ivl\<lparr>month_hour := h\<rparr>) d))"

definition parse_interval_literal_value ::
    "(sqlwchar \<Rightarrow> bool) \<Rightarrow> wstr \<Rightarrow> esodbc_rec \<Rightarrow> wview \<Rightarrow> SQL_INTERVAL_STRUCT \<Rightarrow> esodbc_diag
     \<Rightarrow> SQL_INTERVAL_STRUCT conv_step" where
  "parse_interval_literal_value iswspace ver rec v ivl d =
    (let to = interval_type ivl in
     if to = SQL_IS_YEAR \<or> to = SQL_IS_DAY then parse_single_field ver rec (\<lambda>u. ivl\<lparr>year_day := u\<rparr>) v d
     else if to = SQL_IS_MONTH \<or> to = SQL_IS_HOUR then parse_single_field ver rec (\<lambda>u. ivl\<lparr>month_hour := u\<rparr>) v d
     else if to = SQL_IS_MINUTE then parse_single_field ver rec (\<lambda>u. ivl\<lparr>minute := u\<rparr>) v d
     else if to = SQL_IS_SECOND then parse_interval_second ver rec 0 v ivl d
     else if to = SQL_IS_YEAR_TO_MONTH then parse_year_to_month iswspace ver rec v ivl d
     else if to = SQL_IS_DAY_TO_HOUR \<or> to = SQL_IS_DAY_TO_MINUTE \<or> to = SQL_IS_DAY_TO_SECOND
       then parse_day_to iswspace ver rec to v ivl d
     else if to = SQL_IS_HOUR_TO_MINUTE \<or> to = SQL_IS_HOUR_TO_SECOND then parse_hour_to ver rec to v ivl d
     else if to = SQL_IS_MINUTE_TO_SECOND then parse_minute_second ver rec 0 False v ivl d
     else Some (d, Inr ivl))"

section \<open>The qualifier\<close>

text \<open>The counted units \<open>w\<close> of which \<open>cnt\<close> are left; the inner \<open>None\<close> is the early return of 0.\<close>

definition TRIM_IF_ENDS_WITH_OR_RET ::
    "(sqlwchar \<Rightarrow> bool) \<Rightarrow> wstr \<Rightarrow> string \<Rightarrow> nat \<Rightarrow> nat option option" where
  "TRIM_IF_ENDS_WITH_OR_RET iswspace w ending cnt =
    (if cnt \<le> length ending then Some None
     else do {
       r \<leftarrow> wmemncasecmp (drop (cnt - length ending) w) (wlit ending) (length ending);
       if r \<noteq> 0 then Some None
       else Some (Some (wrtrim_cnt iswspace w (cnt - length ending))) })"

definition IS_DELIM :: "sqlwchar \<Rightarrow> bool" where
  "IS_DELIM c \<longleftrightarrow> c = 39 \<or> c = 46 \<or> 48 \<le> c \<and> c \<le> 57"

definition last_unit :: "wstr \<Rightarrow> nat \<Rightarrow> sqlwchar option" where
  "last_unit w cnt = mem_read w (size_sub cnt 1)"

text \<open>The type with what is left of the count; a failed match is type 0.\<close>

definition typed :: "int \<Rightarrow> nat \<Rightarrow> nat option \<Rightarrow> int \<times> nat" where
  "typed t cnt r = (case r of None \<Rightarrow> (0, cnt) | Some cnt \<Rightarrow> (t, cnt))"

definition trim_as ::
    "(sqlwchar \<Rightarrow> bool) \<Rightarrow> wstr \<Rightarrow> nat \<Rightarrow> int \<Rightarrow> string \<Rightarrow> (int \<times> nat) option" where
  "trim_as iswspace w cnt t ending =
    map_option (typed t cnt) (TRIM_IF_ENDS_WITH_OR_RET iswspace w ending cnt)"

text \<open>The unit \<open>word\<close> ends the text: alone after a value it is the type \<open>single\<close>, after \<open>to\<close> and another
  unit one of those \<open>after_to\<close> gives.\<close>

definition qualifier_to ::
    "(sqlwchar \<Rightarrow> bool) \<Rightarrow> wstr \<Rightarrow> nat \<Rightarrow> string \<Rightarrow> int \<Rightarrow> (nat \<Rightarrow> (int \<times> nat) option)
     \<Rightarrow> (int \<times> nat) option" where
  "qualifier_to iswspace w cnt word single after_to = do {
     r \<leftarrow> TRIM_IF_ENDS_WITH_OR_RET iswspace w word cnt;
     case r of
       None \<Rightarrow> Some (0, cnt)
     | Some cnt \<Rightarrow> do {
         c \<leftarrow> last_unit w cnt;
         if IS_DELIM c then Some (single, cnt)
         else do {
           r \<leftarrow> TRIM_IF_ENDS_WITH_OR_RET iswspace w ''to'' cnt;
           case r of
             None \<Rightarrow> Some (0, cnt)
           | Some cnt \<Rightarrow> after_to cnt } } }"

definition month_qualifier :: "(sqlwchar \<Rightarrow> bool) \<Rightarrow> wstr \<Rightarrow> nat \<Rightarrow> (int \<times> nat) option" where
  "month_qualifier iswspace w cnt =
    qualifier_to iswspace w cnt ''month'' SQL_IS_MONTH
      (\<lambda>cnt. trim_as iswspace w cnt SQL_IS_YEAR_TO_MONTH ''year'')"

definition parse_interval_type :: "(sqlwchar \<Rightarrow> bool) \<Rightarrow> wstr \<Rightarrow> (int \<times> nat) option" where
  "parse_interval_type iswspace w =
    (let cnt = length w in
     if cnt \<le> 3 then Some (0, cnt)
     else (let c = or (w ! (cnt - 1)) 32; b = or (w ! (cnt - 2)) 32 in
       if c = 121 then trim_as iswspace w cnt SQL_IS_DAY ''day''
       else if c = 114 then
         (if b = 97 then trim_as iswspace w cnt SQL_IS_YEAR ''year''
          else if b = 117 then
            qualifier_to iswspace w cnt ''hour'' SQL_IS_HOUR
              (\<lambda>cnt. trim_as iswspace w cnt SQL_IS_DAY_TO_HOUR ''day'')
          else Some (0, cnt))
       else if c = 101 then
         qualifier_to iswspace w cnt ''minute'' SQL_IS_MINUTE (\<lambda>cnt. do {
           c \<leftarrow> last_unit w cnt;
           if or c 32 = 121 then trim_as iswspace w cnt SQL_IS_DAY_TO_MINUTE ''day''
           else if or c 32 = 114 then trim_as iswspace w cnt SQL_IS_HOUR_TO_MINUTE ''hour''
           else month_qualifier iswspace w cnt })
       else if c = 104 then month_qualifier iswspace w cnt
       else if c = 100 then
         qualifier_to iswspace w cnt ''second'' SQL_IS_SECOND (\<lambda>cnt. do {
           c \<leftarrow> last_unit w cnt;
           if or c 32 = 121 then trim_as iswspace w cnt SQL_IS_DAY_TO_SECOND ''day''
           else if or c 32 = 114 then trim_as iswspace w cnt SQL_IS_HOUR_TO_SECOND ''hour''
           else if or c 32 = 101 then trim_as iswspace w cnt SQL_IS_MINUTE_TO_SECOND ''minute''
           else Some (0, cnt) })
       else Some (0, cnt)))"

section \<open>The literal\<close>

definition ES_INTERVAL :: wstr where "ES_INTERVAL = wlit ''INTERVAL''"

text \<open>Braces around the whole literal.\<close>

definition strip_braces :: "(sqlwchar \<Rightarrow> bool) \<Rightarrow> wview \<Rightarrow> wview option option" where
  "strip_braces iswspace v = do {
     a \<leftarrow> mem_read (fst v) 0;
     z \<leftarrow> mem_read (fst v) (size_sub (snd v) 1);
     if a = 123 \<and> z = 125 then do {
       (s, cnt) \<leftarrow> vltrim iswspace (drop 1 (fst v), size_sub (snd v) 2);
       let cnt = wrtrim_cnt iswspace s cnt;
       Some (if cnt \<le> length ES_INTERVAL then None else Some (s, cnt)) }
     else Some (Some v) }"

definition strip_sign :: "(sqlwchar \<Rightarrow> bool) \<Rightarrow> wview \<Rightarrow> (bool \<times> wview) option" where
  "strip_sign iswspace v = do {
     c \<leftarrow> mem_read (fst v) 0;
     if c = 45 \<or> c = 43 then do {
       v \<leftarrow> vltrim iswspace (vskip 1 v);
       Some (c = 45, v) }
     else Some (False, v) }"

definition strip_quotes :: "wview \<Rightarrow> wview option" where
  "strip_quotes v = do {
     a \<leftarrow> mem_read (fst v) 0;
     if a = 39 then do {
       z \<leftarrow> mem_read (fst v) (size_sub (snd v) 1);
       Some (if z = 39 then (drop 1 (fst v), size_sub (snd v) 2) else v) }
     else Some v }"

text \<open>The answer's interval has the type also when the value fails to parse.\<close>

definition literal_fails ::
    "wstr \<Rightarrow> esodbc_diag \<Rightarrow> (esodbc_diag \<times> sqlreturn \<times> SQL_INTERVAL_STRUCT) option" where
  "literal_fails ver d = do { (d, ret) \<leftarrow> RET_HDIAGS ver d SQL_STATE_22018; Some (d, ret, zero_interval) }"

definition parse_typed_literal ::
    "(sqlwchar \<Rightarrow> bool) \<Rightarrow> wstr \<Rightarrow> esodbc_rec \<Rightarrow> int \<Rightarrow> wview \<Rightarrow> esodbc_diag
     \<Rightarrow> (esodbc_diag \<times> sqlreturn \<times> SQL_INTERVAL_STRUCT) option" where
  "parse_typed_literal iswspace ver rec t v d = do {
     (neg, v) \<leftarrow> strip_sign iswspace v;
     v \<leftarrow> strip_quotes v;
     let ivl = zero_interval\<lparr>interval_type := t, interval_sign := neg\<rparr>;
     (d, r) \<leftarrow> parse_interval_literal_value iswspace ver rec v ivl d;
     case r of
       Inl ret \<Rightarrow> Some (d, ret, ivl)
     | Inr ivl \<Rightarrow> Some (d, SQL_SUCCESS, ivl) }"

definition parse_interval_literal ::
    "(sqlwchar \<Rightarrow> bool) \<Rightarrow> wstr \<Rightarrow> esodbc_rec \<Rightarrow> wview \<Rightarrow> esodbc_diag
     \<Rightarrow> (esodbc_diag \<times> sqlreturn \<times> SQL_INTERVAL_STRUCT) option" where
  "parse_interval_literal iswspace ver rec v d =
    (if snd v < length ES_INTERVAL + 4 then literal_fails ver d
     else do {
       r \<leftarrow> strip_braces iswspace v;
       case r of
         None \<Rightarrow> literal_fails ver d
       | Some v \<Rightarrow> do {
           c \<leftarrow> wmemncasecmp (fst v) ES_INTERVAL (length ES_INTERVAL);
           if c \<noteq> 0 then literal_fails ver d
           else do {
             (s, cnt) \<leftarrow> vltrim iswspace (vskip (length ES_INTERVAL) v);
             (t, cnt) \<leftarrow> (if cnt \<le> length s then parse_interval_type iswspace (take cnt s) else None);
             if t = 0 then literal_fails ver d
             else parse_typed_literal iswspace ver rec t (s, cnt) d } } })"

section \<open>The conversion\<close>

definition ivl_type2c_type :: "int list" where
  "ivl_type2c_type = [SQL_C_INTERVAL_YEAR, SQL_C_INTERVAL_MONTH, SQL_C_INTERVAL_DAY, SQL_C_INTERVAL_HOUR,
     SQL_C_INTERVAL_MINUTE, SQL_C_INTERVAL_SECOND, SQL_C_INTERVAL_YEAR_TO_MONTH, SQL_C_INTERVAL_DAY_TO_HOUR,
     SQL_C_INTERVAL_DAY_TO_MINUTE, SQL_C_INTERVAL_DAY_TO_SECOND, SQL_C_INTERVAL_HOUR_TO_MINUTE,
     SQL_C_INTERVAL_HOUR_TO_SECOND, SQL_C_INTERVAL_MINUTE_TO_SECOND]"

text \<open>Answers the diagnostic, the return code and what is stored at \<open>data_ptr\<close>, if anything is.\<close>

definition sql2c_interval ::
    "(sqlwchar \<Rightarrow> bool) \<Rightarrow> bool \<Rightarrow> wstr \<Rightarrow> esodbc_rec \<Rightarrow> int \<Rightarrow> int \<Rightarrow> wview \<Rightarrow> esodbc_diag
     \<Rightarrow> (esodbc_diag \<times> sqlreturn \<times> SQL_INTERVAL_STRUCT option) option" where
  "sql2c_interval iswspace ndebug ver arec sqltype ctype v d =
    (if snd v = 0 then do { (d, ret) \<leftarrow> RET_HDIAGS ver d SQL_STATE_22018; Some (d, ret, None) }
     else if sqltype = ES_WVARCHAR_SQL \<or> sqltype = ES_VARCHAR_SQL then do {
       (d, ret, ivl) \<leftarrow> parse_interval_literal iswspace ver arec v d;
       c \<leftarrow> (if 0 < interval_type ivl then mem_read ivl_type2c_type (nat (interval_type ivl - 1)) else None);
       if c \<noteq> ctype then do { (d, ret) \<leftarrow> RET_HDIAGS ver d SQL_STATE_07006; Some (d, ret, None) }
       else Some (d, ret, if SQL_SUCCEEDED ret then Some ivl else None) }
     else do {
       c_assert ndebug (sqltype = ctype);
       (d, ret, ivl) \<leftarrow> parse_interval_iso8601 ndebug ver (precision arec) ctype (take (snd v) (fst v)) d;
       Some (d, ret, if SQL_SUCCEEDED ret then Some ivl else None) })"

section \<open>Reading fields\<close>

lemma vnumber_dtext:
  assumes "ds \<noteq> []" "\<forall>d\<in>set ds. d < 10" "dec_from 0 ds < 2 ^ 64"
    and "c \<le> length rest" and "c = 0 \<or> \<not> digit_unit (unat (hd rest))"
  shows "vnumber (dtext ds @ rest, length ds + c) = Some (Inr (length ds, of_nat (dec_from 0 ds)))"
proof -
  have len: "length (dtext ds) = length ds" by (simp add: dtext_def)
  have tk: "take (length ds + c) (dtext ds @ rest) = dtext ds @ take c rest"
    by (simp add: len)
  have "take c rest = [] \<or> \<not> digit_unit (unat (hd (take c rest)))"
    using assms(4,5) by (cases rest; cases c) auto
  then have "str2ubigint (WStr (dtext ds @ take c rest)) False = Inr (length ds, of_nat (dec_from 0 ds))"
    using str2ubigint_dtext [OF assms(1,2)] assms(3) by blast
  moreover have "rest = [] \<Longrightarrow> c = 0" using assms(4) by simp
  ultimately show ?thesis
    by (auto simp: vnumber_def tk len Let_def)
qed

lemma parse_interval_field_dtext:
  assumes "ds \<noteq> []" "\<forall>d\<in>set ds. d < 10" "dec_from 0 ds < 2 ^ 32"
    and "c \<le> length rest" and "c = 0 \<or> \<not> digit_unit (unat (hd rest))"
    and "if limit = 0 then int (length ds) \<le> datetime_interval_precision rec else dec_from 0 ds \<le> unat limit"
  shows "parse_interval_field ver rec limit (dtext ds @ rest, length ds + c) d =
    Some (d, Inr ((rest, c), of_nat (dec_from 0 ds)))"
proof -
  let ?n = "dec_from 0 ds"
  have n: "vnumber (dtext ds @ rest, length ds + c) = Some (Inr (length ds, of_nat ?n))"
    using assms by (intro vnumber_dtext) auto
  have u: "unat (of_nat ?n :: u64) = ?n" using assms(3) by (simp add: unat_of_nat)
  have max: "\<not> ULONG_MAX < (of_nat ?n :: u64)"
    using assms(3) u by (simp add: ULONG_MAX_def word_less_nat_alt)
  have lim: "limit \<noteq> 0 \<Longrightarrow> \<not> limit < (of_nat ?n :: u64)"
    using assms(6) u by (simp add: word_less_nat_alt split: if_splits)
  have cast: "(ucast (of_nat ?n :: u64) :: u32) = of_nat ?n"
    using assms(3) by (simp add: unsigned_of_nat take_bit_nat_eq_self)
  have skip: "vskip (length ds) (dtext ds @ rest, length ds + c) = (rest, c)"
    by (simp add: vskip_def size_sub_def dtext_def)
  show ?thesis
    using n max lim assms(1,6) by (auto simp: parse_interval_field_def cast skip)
qed

end
