(* ===== verification/Ivl_Print.thy ===== *)
theory Ivl_Print
imports Complex_Main Ivl_Literal
begin

text \<open>
  Printing intervals (driver/convert.c): \<open>print_interval_sec\<close>, \<open>print_interval_sql\<close>,
  \<open>print_interval_iso8601\<close> and \<open>interval_iso8601_to_sql\<close>. Both widths print the same characters;
  what is printed is their list.

  The seconds go through a \<open>double\<close>: its values here are non-negative and below 2^53, a pair
  \<open>(m, k)\<close> standing for \<open>m / 2 ^ k\<close>. Operations round to nearest, ties to even, as does the \<open>printf\<close>
  of the C library, which works on the exact value.
\<close>

section \<open>Doubles\<close>

definition round_even_div :: "nat \<Rightarrow> nat \<Rightarrow> nat" where
  "round_even_div n d =
    (let q = n div d; r = n mod d in if 2 * r < d \<or> 2 * r = d \<and> even q then q else q + 1)"

text \<open>The number of binary places that leaves 53 significant bits of \<open>n / d\<close>.\<close>

function double_places :: "nat \<Rightarrow> nat \<Rightarrow> nat \<Rightarrow> nat" where
  "double_places n d k = (if n = 0 \<or> 2 ^ 52 * d \<le> n then k else double_places (2 * n) d (Suc k))"
  by pat_completeness auto
termination by (relation "measure (\<lambda>(n, d, k). 2 ^ 52 * d - n)") auto

declare double_places.simps [simp del]

definition double_of_ratio :: "nat \<Rightarrow> nat \<Rightarrow> nat \<times> nat" where
  "double_of_ratio n d = (let k = double_places n d 0 in (round_even_div (n * 2 ^ k) d, k))"

definition double_div :: "nat \<times> nat \<Rightarrow> nat \<Rightarrow> nat \<times> nat" where
  "double_div x d = double_of_ratio (fst x) (2 ^ snd x * d)"

definition double_add_int :: "nat \<times> nat \<Rightarrow> nat \<Rightarrow> nat \<times> nat" where
  "double_add_int x s = double_of_ratio (fst x + s * 2 ^ snd x) (2 ^ snd x)"

text \<open>The digits of \<open>n\<close>, and with at least \<open>p\<close> of them.\<close>

definition digits_text :: "nat \<Rightarrow> nat list" where
  "digits_text n = map ((+) 48) (dec_digits n)"

definition padded_text :: "nat \<Rightarrow> nat \<Rightarrow> nat list" where
  "padded_text p n = replicate (p - length (dec_digits n)) 48 @ digits_text n"

text \<open>The format \<open>%.<p>lf\<close>, for a positive \<open>p\<close>.\<close>

definition printf_lf :: "nat \<Rightarrow> nat \<times> nat \<Rightarrow> nat list" where
  "printf_lf p x = (let n = round_even_div (fst x * 10 ^ p) (2 ^ snd x) in
     digits_text (n div 10 ^ p) @ 46 # padded_text p (n mod 10 ^ p))"

section \<open>Printing\<close>

text \<open>A positive precision below 10: the \<open>assert\<close>s of the code. \<open>None\<close> where they fail.\<close>

definition print_interval_sec :: "int \<Rightarrow> SQL_INTERVAL_STRUCT \<Rightarrow> nat list option" where
  "print_interval_sec prec ivl =
    (if fraction ivl \<noteq> 0 \<and> prec \<noteq> 0 then
       (if 0 \<le> prec \<and> prec \<le> 9 then do {
          p \<leftarrow> pow10 (nat prec);
          let dbl = double_add_int (double_div (unat (fraction ivl), 0) (unat p)) (unat (second ivl));
          Some (printf_lf (nat prec) dbl) }
        else None)
     else Some (units (ui64tot (ucast (second ivl)) True)))"

definition print_u32 :: "u32 \<Rightarrow> nat list" where
  "print_u32 u = units (ui64tot (ucast u) True)"

text \<open>An unknown type is refused: the returned count is 0, the inner \<open>None\<close>.\<close>

definition print_interval_sql :: "int \<Rightarrow> SQL_INTERVAL_STRUCT \<Rightarrow> nat list option option" where
  "print_interval_sql prec ivl =
    (let t = interval_type ivl;
         sgn = (if interval_sign ivl then [45] else []);
         day = print_u32 (year_day ivl) @ [32];
         hour = print_u32 (month_hour ivl) @ [58];
         min = print_u32 (minute ivl) @ [58] in
     if t = SQL_IS_YEAR \<or> t = SQL_IS_DAY then Some (Some (sgn @ print_u32 (year_day ivl)))
     else if t = SQL_IS_MONTH \<or> t = SQL_IS_HOUR then Some (Some (sgn @ print_u32 (month_hour ivl)))
     else if t = SQL_IS_MINUTE then Some (Some (sgn @ print_u32 (minute ivl)))
     else if t = SQL_IS_YEAR_TO_MONTH
       then Some (Some (sgn @ print_u32 (year_day ivl) @ 45 # print_u32 (month_hour ivl)))
     else if t = SQL_IS_DAY_TO_HOUR then Some (Some (sgn @ day @ print_u32 (month_hour ivl)))
     else if t = SQL_IS_DAY_TO_MINUTE then Some (Some (sgn @ day @ hour @ print_u32 (minute ivl)))
     else if t = SQL_IS_HOUR_TO_MINUTE then Some (Some (sgn @ hour @ print_u32 (minute ivl)))
     else if t = SQL_IS_DAY_TO_SECOND
       then map_option (\<lambda>s. Some (sgn @ day @ hour @ min @ s)) (print_interval_sec prec ivl)
     else if t = SQL_IS_HOUR_TO_SECOND
       then map_option (\<lambda>s. Some (sgn @ hour @ min @ s)) (print_interval_sec prec ivl)
     else if t = SQL_IS_MINUTE_TO_SECOND
       then map_option (\<lambda>s. Some (sgn @ min @ s)) (print_interval_sec prec ivl)
     else if t = SQL_IS_SECOND then map_option (\<lambda>s. Some (sgn @ s)) (print_interval_sec prec ivl)
     else Some None)"

text \<open>One field of the ISO form, unless it is zero: \<open>t_added\<close> tells whether the \<open>T\<close> is there.\<close>

definition PRINT_FIELD :: "bool \<Rightarrow> u32 \<Rightarrow> nat \<Rightarrow> bool \<Rightarrow> nat list \<times> bool \<Rightarrow> nat list \<times> bool" where
  "PRINT_FIELD neg u qualif is_time st =
    (if u = 0 then st
     else (fst st @ (if is_time \<and> \<not> snd st then [84] else []) @ (if neg then [45] else []) @
         print_u32 u @ [qualif], snd st \<or> is_time))"

definition print_iso_seconds :: "int \<Rightarrow> SQL_INTERVAL_STRUCT \<Rightarrow> nat list \<times> bool \<Rightarrow> nat list option" where
  "print_iso_seconds prec ivl st =
    (if or (second ivl) (fraction ivl) = 0 then Some (fst st)
     else do {
       s \<leftarrow> print_interval_sec prec ivl;
       Some (fst st @ (if snd st then [] else [84]) @ (if interval_sign ivl then [45] else []) @ s @ [83]) })"

definition print_interval_iso8601 :: "int \<Rightarrow> SQL_INTERVAL_STRUCT \<Rightarrow> nat list option option" where
  "print_interval_iso8601 prec ivl =
    (let t = interval_type ivl; neg = interval_sign ivl in
     if t = SQL_IS_YEAR \<or> t = SQL_IS_MONTH \<or> t = SQL_IS_YEAR_TO_MONTH then
       (let (out, _) = PRINT_FIELD neg (month_hour ivl) 77 False
           (PRINT_FIELD neg (year_day ivl) 89 False ([80], False)) in
        Some (Some (if length out \<le> 1 then out @ [48, 77] else out)))
     else if SQL_IS_DAY \<le> t \<and> t \<le> SQL_IS_MINUTE_TO_SECOND then do {
       let st = PRINT_FIELD neg (year_day ivl) 68 False ([80], False);
       let st = PRINT_FIELD neg (month_hour ivl) 72 True st;
       let st = PRINT_FIELD neg (minute ivl) 77 True st;
       out \<leftarrow> print_iso_seconds prec ivl st;
       Some (Some (if length out \<le> 1 then out @ [84, 48, 83] else out)) }
     else Some None)"

section \<open>Translation\<close>

text \<open>\<open>lit\<close> is the destination; the answer is it and the count of units with the terminator, or the
  return code of a failure. The type is that of the data of the column.\<close>

definition interval_iso8601_to_sql ::
    "bool \<Rightarrow> wstr \<Rightarrow> int \<Rightarrow> int \<Rightarrow> wstr \<Rightarrow> wstr \<Rightarrow> esodbc_diag
     \<Rightarrow> (esodbc_diag \<times> (sqlreturn + wstr \<times> nat)) option" where
  "interval_iso8601_to_sql ndebug ver prec data_t wstr lit d = do {
     (d, ret, ivl) \<leftarrow> parse_interval_iso8601 ndebug ver prec data_t wstr d;
     if \<not> SQL_SUCCEEDED ret then Some (d, Inl ret)
     else do {
       r \<leftarrow> print_interval_sql prec ivl;
       case r of
         None \<Rightarrow> do {
           (d, ret) \<leftarrow> RET_CONV_TEXT ver d SQL_STATE_HY000 ''internal printing failed'';
           Some (d, Inl ret) }
       | Some txt \<Rightarrow> do {
           lit \<leftarrow> mem_write_list lit 0 (map of_nat txt @ [0]);
           Some (d, Inr (lit, length txt + 1)) } } }"

section \<open>The rounding of the seconds\<close>

lemma double_places_eq:
  assumes "0 < n" and "0 < d"
  shows "\<exists>j. double_places n d k = k + j \<and> 2 ^ 52 * d \<le> n * 2 ^ j"
  using assms
proof (induction n d k rule: double_places.induct)
  case (1 n d k)
  show ?case
  proof (cases "2 ^ 52 * d \<le> n")
    case True
    then show ?thesis by (intro exI [of _ 0]) (simp add: double_places.simps [of n])
  next
    case False
    then obtain j where "double_places (2 * n) d (Suc k) = Suc k + j" "2 ^ 52 * d \<le> (2 * n) * 2 ^ j"
      using 1 by auto
    then show ?thesis
      using False 1(2) by (intro exI [of _ "Suc j"]) (simp add: double_places.simps [of n] mult_ac)
  qed
qed

lemma round_even_div_err:
  assumes "0 < d"
  shows "\<bar>real (round_even_div n d) - real n / real d\<bar> \<le> 1 / 2"
proof -
  let ?q = "n div d" and ?r = "n mod d"
  have "real n = real ?q * real d + real ?r"
    by (metis div_mult_mod_eq of_nat_add of_nat_mult)
  then have v: "real n / real d = real ?q + real ?r / real d" using assms by (simp add: field_simps)
  have r: "?r < d" using assms by simp
  show ?thesis
  proof (cases "2 * ?r < d \<or> 2 * ?r = d \<and> even ?q")
    case True
    then have "real ?r / real d \<le> 1 / 2" using assms by (auto simp: field_simps)
    then show ?thesis using True by (simp add: round_even_div_def v Let_def)
  next
    case False
    then have "1 / 2 \<le> real ?r / real d" using assms by (auto simp: field_simps)
    moreover have "real ?r / real d \<le> 1" using r assms by (simp add: field_simps)
    ultimately show ?thesis using False assms by (auto simp: round_even_div_def v Let_def abs_le_iff)
  qed
qed

lemma double_of_ratio_err:
  assumes "0 < n" "0 < d" "n < 2 ^ t * d" "t \<le> 52"
  shows "\<bar>real (fst (double_of_ratio n d)) / 2 ^ snd (double_of_ratio n d) - real n / real d\<bar> \<le> 1 / 2 ^ (54 - t)"
proof -
  obtain k where k: "double_places n d 0 = k" "2 ^ 52 * d \<le> n * 2 ^ k"
    using double_places_eq [OF assms(1,2), of 0] by auto
  have "2 ^ 52 * d < 2 ^ t * d * 2 ^ k"
    using k(2) assms(3) by (meson le_less_trans mult_less_mono1 zero_less_numeral zero_less_power)
  then have "d * (2::nat) ^ 52 < d * 2 ^ (t + k)" by (simp only: power_add mult_ac)
  then have "(2::nat) ^ 52 < 2 ^ (t + k)" by simp
  then have "52 < t + k" by (simp only: power_strict_increasing_iff) 
  then have kt: "54 - t \<le> k + 1" by simp
  let ?m = "round_even_div (n * 2 ^ k) d"
  have "\<bar>real ?m - real (n * 2 ^ k) / real d\<bar> \<le> 1 / 2"
    using round_even_div_err [OF assms(2)] .
  then have "\<bar>real ?m - real n * 2 ^ k / real d\<bar> / 2 ^ k \<le> (1 / 2) / 2 ^ k"
    by (intro divide_right_mono) simp_all
  then have "\<bar>(real ?m - real n * 2 ^ k / real d) / 2 ^ k\<bar> \<le> (1 / 2) / 2 ^ k"
    by simp
  also have "\<dots> = 1 / 2 ^ (k + 1)" by simp
  also have "\<dots> \<le> 1 / 2 ^ (54 - t)"
    using kt by (intro divide_left_mono power_increasing) simp_all
  finally have "\<bar>(real ?m - real n * 2 ^ k / real d) / 2 ^ k\<bar> \<le> 1 / 2 ^ (54 - t)" .
  moreover have "(real ?m - real n * 2 ^ k / real d) / 2 ^ k = real ?m / 2 ^ k - real n / real d"
    by (simp add: diff_divide_distrib)
  ultimately show ?thesis by (simp add: double_of_ratio_def k(1) Let_def)
qed

lemma abs_chain:
  "\<bar>n - a\<bar> \<le> 1 / 2 \<Longrightarrow> \<bar>a - y\<bar> \<le> e \<Longrightarrow> e \<le> e' \<Longrightarrow> e' < 1 / 2 \<Longrightarrow> y = z \<Longrightarrow> \<bar>n - z\<bar> < (1 :: real)"
  by linarith

lemma near_nat: "\<bar>real a - real b\<bar> < 1 \<Longrightarrow> a = b" by linarith

lemma printed_double_exact:
  assumes "0 < f" "f < 10 ^ p" "p \<le> 9" "s + 2 \<le> 2 ^ 23"
  shows "printf_lf p (double_add_int (double_div (f, 0) (10 ^ p)) s) =
    digits_text s @ 46 # padded_text p f"
proof -
  obtain m1 k1 where 1: "double_of_ratio f (10 ^ p) = (m1, k1)" by (metis surj_pair)
  let ?x1 = "real m1 / 2 ^ k1"
  have e1: "\<bar>?x1 - real f / 10 ^ p\<bar> \<le> 1 / 2 ^ 54"
    using double_of_ratio_err [of f "10 ^ p" 0] assms 1 by simp
  have f1: "real f / 10 ^ p < 1" using assms(2) by (simp add: divide_less_eq_1 flip: of_nat_power)
  have "(1::real) / 2 ^ 54 < 1" by simp
  with e1 f1 have x1: "?x1 < 2" by linarith
  let ?n = "m1 + s * 2 ^ k1"
  have m1: "m1 < 2 * 2 ^ k1"
  proof -
    have "real m1 < 2 * 2 ^ k1" using x1 by (simp add: field_simps)
    then have "real m1 < real (2 * 2 ^ k1)" by simp
    then show ?thesis by (simp only: of_nat_less_iff)
  qed
  have n: "?n < 2 ^ 23 * 2 ^ k1"
  proof -
    have "?n < (s + 2) * 2 ^ k1" using m1 by (simp add: algebra_simps)
    also have "\<dots> \<le> 2 ^ 23 * 2 ^ k1" using assms(4) by (rule mult_le_mono1)
    finally show ?thesis .
  qed
  have "0 < m1"
  proof (rule ccontr)
    assume "\<not> 0 < m1"
    then have "real f / 10 ^ p \<le> 1 / 2 ^ 54" using e1 by simp
    moreover have "1 / 10 ^ p \<le> real f / 10 ^ p" using assms(1) by (simp add: divide_right_mono)
    moreover have "(1::real) / 10 ^ 9 \<le> 1 / 10 ^ p"
      using assms(3) by (intro divide_left_mono power_increasing) simp_all
    moreover have "(1::real) / 2 ^ 54 < 1 / 10 ^ 9" by simp
    ultimately show False by linarith
  qed
  then have n0: "0 < ?n" by simp
  obtain m2 k2 where 2: "double_of_ratio ?n (2 ^ k1) = (m2, k2)" by (metis surj_pair)
  let ?x2 = "real m2 / 2 ^ k2"
  have "\<bar>?x2 - real ?n / 2 ^ k1\<bar> \<le> 1 / 2 ^ 31"
    using double_of_ratio_err [OF n0 _ n] 2 by simp
  moreover have "real ?n / 2 ^ k1 = ?x1 + real s" by (simp add: add_divide_distrib)
  ultimately have e2: "\<bar>?x2 - (real s + real f / 10 ^ p)\<bar> \<le> 1 / 2 ^ 31 + 1 / 2 ^ 54"
    using e1 by (smt (verit, best))
  let ?N = "round_even_div (m2 * 10 ^ p) (2 ^ k2)"
  have "\<bar>real ?N - ?x2 * 10 ^ p\<bar> \<le> 1 / 2"
    using round_even_div_err [of "2 ^ k2" "m2 * 10 ^ p"] by simp
  moreover have "\<bar>?x2 * 10 ^ p - (real s + real f / 10 ^ p) * 10 ^ p\<bar> \<le> (1 / 2 ^ 31 + 1 / 2 ^ 54) * 10 ^ p"
    unfolding left_diff_distrib [symmetric] abs_mult using mult_right_mono [OF e2, of "10 ^ p"] by simp
  moreover have "(1 / 2 ^ 31 + 1 / 2 ^ 54 :: real) * 10 ^ p \<le> (1 / 2 ^ 31 + 1 / 2 ^ 54) * 10 ^ 9"
    using assms(3) by (intro mult_left_mono power_increasing) simp_all
  moreover have "(1 / 2 ^ 31 + 1 / 2 ^ 54 :: real) * 10 ^ 9 < 1 / 2" by simp
  moreover have "(real s + real f / 10 ^ p) * 10 ^ p = real (s * 10 ^ p + f)" by (simp add: algebra_simps)
  ultimately have "\<bar>real ?N - real (s * 10 ^ p + f)\<bar> < 1" by (rule abs_chain)
  then have N: "?N = s * 10 ^ p + f" by (rule near_nat)
  have "(s * 10 ^ p + f) div 10 ^ p = s" "(s * 10 ^ p + f) mod 10 ^ p = f"
    using assms(2) by simp_all
  then show ?thesis
    using 1 2 N by (simp add: printf_lf_def double_add_int_def double_div_def Let_def)
qed

end
