(* ===== verification/Ivl_Roundtrip.thy ===== *)
theory Ivl_Roundtrip
imports Ivl_Print
begin

text \<open>
  Interval literals read back: what \<open>print_interval_sql\<close> prints, put in a literal of its type, is
  parsed to the interval that was printed, in any letter case and with any white space. The fields
  of an interval are bounded as the code bounds them: the leading one by the record's interval
  precision, the others by their unit.
\<close>

section \<open>Well formed intervals\<close>

text \<open>The first and the last of the members a type uses, counted from the year or day.\<close>

definition span :: "int \<Rightarrow> nat \<times> nat" where
  "span t = [(0, 0), (1, 1), (0, 0), (1, 1), (2, 2), (3, 3), (0, 1), (0, 1), (0, 2), (0, 3), (1, 2), (1, 3),
     (2, 3)] ! nat (t - 1)"

definition field_ok :: "int \<Rightarrow> nat \<times> nat \<Rightarrow> nat \<Rightarrow> nat \<Rightarrow> u32 \<Rightarrow> bool" where
  "field_ok lead ab limit i u \<longleftrightarrow>
    (if i < fst ab \<or> snd ab < i then u = 0
     else if i = fst ab then int (length (dec_digits (unat u))) \<le> lead
     else unat u \<le> limit)"

definition interval_ok :: "int \<Rightarrow> int \<Rightarrow> SQL_INTERVAL_STRUCT \<Rightarrow> bool" where
  "interval_ok lead prec ivl \<longleftrightarrow>
     1 \<le> interval_type ivl \<and> interval_type ivl \<le> 13 \<and> 0 \<le> prec \<and> prec \<le> 9 \<and>
     field_ok lead (span (interval_type ivl)) 0 0 (year_day ivl) \<and>
     field_ok lead (span (interval_type ivl)) (if interval_type ivl = SQL_IS_YEAR_TO_MONTH then 11 else 23) 1
       (month_hour ivl) \<and>
     field_ok lead (span (interval_type ivl)) 59 2 (minute ivl) \<and>
     field_ok lead (span (interval_type ivl)) 59 3 (second ivl) \<and>
     unat (second ivl) \<le> 8388606 \<and>
     (if snd (span (interval_type ivl)) = 3 then unat (fraction ivl) < 10 ^ nat prec else fraction ivl = 0)"

lemma type_cases:
  assumes "1 \<le> t" "t \<le> (13 :: int)"
  shows "t = 1 \<or> t = 2 \<or> t = 3 \<or> t = 4 \<or> t = 5 \<or> t = 6 \<or> t = 7 \<or> t = 8 \<or> t = 9 \<or> t = 10 \<or> t = 11 \<or>
    t = 12 \<or> t = 13"
  using assms by presburger

section \<open>The value\<close>

lemma print_u32_text: "map of_nat (print_u32 u) = dtext (dec_digits (unat u))"
proof -
  have "unat (ucast u :: u64) = unat u" by (simp add: unsigned_ucast_eq take_bit_nat_eq_self_iff
      order.strict_trans [OF unsigned_less [of u]])
  then show ?thesis by (simp add: print_u32_def units_ui64tot dtext_def)
qed

lemma length_dtext [simp]: "length (dtext ds) = length ds"
  by (simp add: dtext_def)

lemma dec_u32: "dec_from 0 (dec_digits (unat (u :: u32))) < 2 ^ 32"
  using unsigned_less [of u] by (simp add: dec_digits_value)

lemma field_step:
  assumes "c \<le> length rest" "c = 0 \<or> \<not> digit_unit (unat (hd rest))"
    and "if limit = 0 then int (length (dec_digits (unat u))) \<le> datetime_interval_precision rec
      else unat u \<le> unat limit"
  shows "parse_interval_field ver rec limit
      (dtext (dec_digits (unat u)) @ rest, length (dec_digits (unat u)) + c) d = Some (d, Inr ((rest, c), u))"
  using parse_interval_field_dtext [of "dec_digits (unat u)" c rest limit rec ver d] dec_u32 [of u]
    dec_digits_small [of _ "unat u"] assms
  by (simp add: dec_digits_value)

lemma separator_step: "n < 2 ^ 64 \<Longrightarrow> parse_separator_unit ver c (c # rest, Suc n) d = Some (d, Inr (rest, n))"
  by (simp add: parse_separator_unit_def mem_read_def vskip_def size_sub_def)

lemma proceed_Inr [simp]: "proceed (Some (d, Inr x)) f = f d x"
  by (simp add: proceed_def)

lemma field_or_ret_step:
  assumes "c \<le> length rest" "c = 0 \<or> \<not> ends \<and> \<not> digit_unit (unat (hd rest))"
    and "if limit = 0 then int (length (dec_digits (unat u))) \<le> datetime_interval_precision rec
      else unat u \<le> unat limit"
  shows "PARSE_IVL_FLD_OR_RET ver rec limit ends
      (dtext (dec_digits (unat u)) @ rest, length (dec_digits (unat u)) + c) d = Some (d, Inr ((rest, c), u))"
  using field_step [of c rest limit u rec ver d] assms by (auto simp: PARSE_IVL_FLD_OR_RET_def)

lemma vltrim_none:
  "s \<noteq> [] \<Longrightarrow> \<not> iswspace (hd s) \<Longrightarrow> vltrim iswspace (s, n) = Some (s, n)"
  by (cases s; cases n) (auto simp: vltrim_def vscan_def vskip_def size_sub_def Let_def)

lemma vltrim_run:
  assumes "\<forall>c\<in>set ws. iswspace c" "s \<noteq> []" "\<not> iswspace (hd s)" "0 < n"
  shows "vltrim iswspace (ws @ s, length ws + n) = Some (s, n)"
proof -
  have "takeWhile iswspace (take (length ws + n) (ws @ s)) = ws"
    using assms by (cases s; cases n) (auto simp: takeWhile_append2)
  then show ?thesis
    using assms(2) by (simp add: vltrim_def vscan_def vskip_def size_sub_def Let_def)
qed

definition ws_ok :: "(sqlwchar \<Rightarrow> bool) \<Rightarrow> bool" where
  "ws_ok iswspace \<longleftrightarrow> iswspace 32 \<and> (\<forall>c. 33 \<le> c \<and> c \<le> 126 \<longrightarrow> \<not> iswspace c)"

lemma hd_dtext: "ds \<noteq> [] \<Longrightarrow> \<forall>d\<in>set ds. d < 10 \<Longrightarrow> hd (dtext ds @ rest) = of_nat (48 + hd ds) \<and> hd ds < 10"
  by (cases ds) (simp_all add: dtext_def)

lemma digit_not_ws:
  assumes "ws_ok iswspace"
  shows "\<not> iswspace (hd (dtext (dec_digits n) @ rest))"
proof -
  have h: "hd (dec_digits n) < 10" by (rule dec_digits_small [OF hd_in_set]) simp
  define x where "x = 48 + hd (dec_digits n)"
  then have x: "hd (dtext (dec_digits n) @ rest) = of_nat x" "48 \<le> x" "x < 58"
    using hd_dtext [of "dec_digits n" rest] dec_digits_small [of _ n] by (simp_all del: of_nat_add add: h less_imp_le_nat)
  then have "unat (of_nat x :: sqlwchar) = x" by (simp add: unat_of_nat)
  then have "33 \<le> (of_nat x :: sqlwchar)" "(of_nat x :: sqlwchar) \<le> 126"
    using x by (simp_all add: word_le_nat_alt)
  then show ?thesis using assms x(1) by (simp add: ws_ok_def)
qed

text \<open>Seconds: the digits of the fraction are as many as the precision has, so nothing is cut; still the
  adjustment posts the warning that digits were lost.\<close>

definition after_fraction :: "wstr \<Rightarrow> esodbc_diag \<Rightarrow> SQL_INTERVAL_STRUCT \<Rightarrow> esodbc_diag" where
  "after_fraction ver d ivl =
    (if fraction ivl = 0 then d else posted ver d SQL_STATE_01S07 (default_message SQL_STATE_01S07))"

lemma dec_from_zeros: "dec_from 0 (replicate n 0 @ ds) = dec_from 0 ds"
  by (induction n) simp_all

lemma dec_digits_length_le: "n < 10 ^ p \<Longrightarrow> 0 < p \<Longrightarrow> length (dec_digits n) \<le> p"
proof (induction p arbitrary: n)
  case (Suc p)
  show ?case
  proof (cases "n < 10")
    case False
    then have "p \<noteq> 0" using Suc.prems(1) by (cases p) auto
    moreover have "n div 10 < 10 ^ p" using Suc.prems(1) by (simp add: less_mult_imp_div_less mult.commute)
    ultimately have "length (dec_digits (n div 10)) \<le> p" using Suc.IH [of "n div 10"] by simp
    then show ?thesis using False by (simp add: dec_digits.simps [of n])
  qed (simp add: dec_digits.simps [of n])
qed simp

text \<open>The digits of the fraction, zeros to the left.\<close>

definition fraction_digits :: "nat \<Rightarrow> nat \<Rightarrow> nat list" where
  "fraction_digits p n = replicate (p - length (dec_digits n)) 0 @ dec_digits n"

lemma padded_dtext: "map of_nat (padded_text p n) = dtext (fraction_digits p n)"
  by (simp add: padded_text_def digits_text_def fraction_digits_def dtext_def)

lemma fraction_digits_facts:
  assumes "n < 10 ^ p" "0 < p"
  shows "length (fraction_digits p n) = p" "dec_from 0 (fraction_digits p n) = n"
    "\<forall>d\<in>set (fraction_digits p n). d < 10" "fraction_digits p n \<noteq> []"
  using dec_digits_length_le [OF assms] dec_digits_small [of _ n] assms(2)
  by (auto simp: fraction_digits_def dec_from_zeros dec_digits_value split: if_splits)

lemma digits_dtext: "map of_nat (digits_text n) = dtext (dec_digits n)"
  by (simp add: digits_text_def dtext_def)

definition seconds_text :: "int \<Rightarrow> SQL_INTERVAL_STRUCT \<Rightarrow> wstr" where
  "seconds_text prec ivl = dtext (dec_digits (unat (second ivl))) @
    (if fraction ivl = 0 then [] else 46 # dtext (fraction_digits (nat prec) (unat (fraction ivl))))"

lemma print_seconds_text:
  assumes "0 \<le> prec" "prec \<le> 9" "unat (fraction ivl) < 10 ^ nat prec" "unat (second ivl) \<le> 8388606"
  shows "\<exists>s. print_interval_sec prec ivl = Some s \<and> map of_nat s = seconds_text prec ivl"
proof (cases "fraction ivl = 0")
  case True
  then show ?thesis
    using print_u32_text [of "second ivl"] by (simp add: print_interval_sec_def seconds_text_def print_u32_def)
next
  case False
  then have f: "0 < unat (fraction ivl)" by (simp add: unat_gt_0)
  then have p: "prec \<noteq> 0" using assms(3) by auto
  have ten: "unat (10 ^ nat prec :: u64) = 10 ^ nat prec" using assms(2) by (intro pow10_unat) simp
  have "printf_lf (nat prec) (double_add_int (double_div (unat (fraction ivl), 0) (10 ^ nat prec)) (unat (second ivl)))
      = digits_text (unat (second ivl)) @ 46 # padded_text (nat prec) (unat (fraction ivl))"
    using printed_double_exact [of "unat (fraction ivl)" "nat prec" "unat (second ivl)"] f assms by simp
  then have "print_interval_sec prec ivl =
      Some (digits_text (unat (second ivl)) @ 46 # padded_text (nat prec) (unat (fraction ivl)))"
    using False p assms(1,2) by (simp add: print_interval_sec_def pow10_eq ten)
  then show ?thesis
    using False by (simp add: seconds_text_def padded_dtext digits_dtext)
qed

lemma seconds_step:
  assumes "diag_ok ver d" "0 \<le> precision rec" "precision rec \<le> 9"
    and "unat (fraction ivl) < 10 ^ nat (precision rec)"
    and "if limit = 0 then int (length (dec_digits (unat (second ivl)))) \<le> datetime_interval_precision rec
      else unat (second ivl) \<le> unat limit"
  shows "parse_interval_second ver rec limit (seconds_text (precision rec) ivl @ rest,
      length (seconds_text (precision rec) ivl)) (ivl\<lparr>second := 0, fraction := 0\<rparr>) d =
    Some (after_fraction ver d ivl, Inr ivl)"
proof (cases "fraction ivl = 0")
  case True
  then show ?thesis
    using field_step [of 0 rest limit "second ivl" rec ver d] assms(5)
    by (simp add: parse_interval_second_def seconds_text_def after_fraction_def)
next
  case False
  define p where "p = nat (precision rec)"
  let ?f = "unat (fraction ivl)"
  have p: "0 < p" using False assms(4) by (cases p) (auto simp: p_def unat_eq_0)
  have f: "?f < 10 ^ p" using assms(4) by (simp add: p_def)
  note fd = fraction_digits_facts [OF f p]
  let ?rest = "46 # dtext (fraction_digits p ?f) @ rest"
  have 1: "parse_interval_field ver rec limit (dtext (dec_digits (unat (second ivl))) @ ?rest,
      length (dec_digits (unat (second ivl))) + Suc p) d = Some (d, Inr ((?rest, Suc p), second ivl))"
    using assms(5) fd(1) by (intro field_step) (simp_all add: digit_unit_def)
  have p9: "p \<le> 9" using assms(3) by (simp add: p_def)
  have 2: "parse_separator_unit ver 46 (?rest, Suc p) d = Some (d, Inr (dtext (fraction_digits p ?f) @ rest, p))"
    using p9 by (intro separator_step) simp
  have 3: "parse_interval_field ver rec ULONG_MAX (dtext (fraction_digits p ?f) @ rest, p) d =
      Some (d, Inr ((rest, 0), fraction ivl))"
    using parse_interval_field_dtext [of "fraction_digits p ?f" 0 rest ULONG_MAX rec ver d] fd
      unsigned_less [of "fraction ivl"] by (simp add: ULONG_MAX_def)
  have adj: "adjust_to_precision ver d (precision rec) (ucast (fraction ivl)) (to_i16 (int (size_sub p 0))) =
      Some (posted ver d SQL_STATE_01S07 (default_message SQL_STATE_01S07), SQL_SUCCESS_WITH_INFO,
        ucast (fraction ivl))"
  proof -
    have "to_i16 (int (size_sub p 0)) = precision rec"
      using p9 assms(2) by (simp add: size_sub_def to_i16_id p_def)
    moreover have "state_retcode (esodbc_errors ! SQL_STATE_01S07) = SQL_SUCCESS_WITH_INFO" by code_simp
    ultimately show ?thesis
      using assms(1) by (simp add: adjust_to_precision_def pow10_eq RET_HDIAGS_ok [simplified])
  qed
  have shown: "seconds_text (precision rec) ivl = dtext (dec_digits (unat (second ivl))) @ 46 # dtext (fraction_digits p ?f)"
    using False by (simp add: seconds_text_def p_def)
  have recast: "(ucast (ucast (fraction ivl) :: u64) :: u32) = fraction ivl" by (rule bit_word_eqI) (simp add: bit_ucast_iff)
  show ?thesis
    using 1 2 3 adj fd(1) p False
    by (simp add: parse_interval_second_def shown Let_def after_fraction_def recast)
qed

section \<open>Values of every type\<close>

abbreviation udigits :: "u32 \<Rightarrow> wstr" where "udigits u \<equiv> dtext (dec_digits (unat u))"
abbreviation ulen :: "u32 \<Rightarrow> nat" where "ulen u \<equiv> length (dec_digits (unat u))"

definition value_text :: "int \<Rightarrow> SQL_INTERVAL_STRUCT \<Rightarrow> wstr" where
  "value_text prec ivl =
    (let t = interval_type ivl; y = udigits (year_day ivl); h = udigits (month_hour ivl);
         m = udigits (minute ivl); s = seconds_text prec ivl in
     if t = SQL_IS_YEAR \<or> t = SQL_IS_DAY then y
     else if t = SQL_IS_MONTH \<or> t = SQL_IS_HOUR then h
     else if t = SQL_IS_MINUTE then m
     else if t = SQL_IS_SECOND then s
     else if t = SQL_IS_YEAR_TO_MONTH then y @ 45 # h
     else if t = SQL_IS_DAY_TO_HOUR then y @ 32 # h
     else if t = SQL_IS_DAY_TO_MINUTE then y @ 32 # h @ 58 # m
     else if t = SQL_IS_DAY_TO_SECOND then y @ 32 # h @ 58 # m @ 58 # s
     else if t = SQL_IS_HOUR_TO_MINUTE then h @ 58 # m
     else if t = SQL_IS_HOUR_TO_SECOND then h @ 58 # m @ 58 # s
     else m @ 58 # s)"

lemma print_value_text:
  assumes "interval_ok lead prec ivl"
  shows "\<exists>s. print_interval_sql prec ivl = Some (Some s) \<and>
    map of_nat s = (if interval_sign ivl then [45] else []) @ value_text prec ivl"
proof -
  have range: "1 \<le> interval_type ivl" "interval_type ivl \<le> 13" using assms by (simp_all add: interval_ok_def)
  have frac: "unat (fraction ivl) < 10 ^ nat prec"
    using assms by (auto simp: interval_ok_def split: if_splits)
  obtain s where s: "print_interval_sec prec ivl = Some s" "map of_nat s = seconds_text prec ivl"
    using print_seconds_text [of prec ivl] assms frac by (auto simp: interval_ok_def)
  show ?thesis
    using type_cases [OF range] s
    by (elim disjE) (simp_all add: print_interval_sql_def value_text_def print_u32_text)
qed

lemma unat_u32: "unat (u :: u32) < 4294967296"
proof -
  have "unat u < 2 ^ LENGTH(32)" by (rule unsigned_less)
  then show ?thesis by simp
qed

lemma ulen_le: "ulen u \<le> 10"
  using unat_u32 [of u] by (intro dec_digits_length_le) simp_all

lemma length_seconds_text:
  assumes "0 \<le> prec" "prec \<le> 9" "unat (fraction ivl) < 10 ^ nat prec"
  shows "length (seconds_text prec ivl) \<le> 20"
proof (cases "fraction ivl = 0")
  case True
  then show ?thesis using ulen_le [of "second ivl"] by (simp add: seconds_text_def)
next
  case False
  then have "0 < nat prec" using assms(3) by (cases "nat prec") (auto simp: unat_eq_0)
  then show ?thesis
    using fraction_digits_facts(1) [OF assms(3)] ulen_le [of "second ivl"] assms(2) False
    by (simp add: seconds_text_def)
qed

lemma length_value_text:
  assumes "interval_ok lead prec ivl"
  shows "length (value_text prec ivl) \<le> 53"
proof -
  have "unat (fraction ivl) < 10 ^ nat prec" "0 \<le> prec" "prec \<le> 9"
    using assms by (auto simp: interval_ok_def split: if_splits)
  then have "length (seconds_text prec ivl) \<le> 20" by (intro length_seconds_text) simp_all
  then show ?thesis
    using ulen_le [of "year_day ivl"] ulen_le [of "month_hour ivl"] ulen_le [of "minute ivl"]
    by (simp add: value_text_def Let_def)
qed

lemma single_step:
  assumes "int (ulen u) \<le> datetime_interval_precision rec"
  shows "parse_single_field ver rec set_field (udigits u @ rest, ulen u) d = Some (d, Inr (set_field u))"
  using field_or_ret_step [of 0 rest True 0 u rec ver d] assms by (simp add: parse_single_field_def)

lemma minute_second_step:
  assumes "diag_ok ver d" "0 \<le> precision rec" "precision rec \<le> 9"
    and "unat (fraction ivl) < 10 ^ nat (precision rec)" "unat (second ivl) \<le> 59"
    and "if limit = 0 then int (ulen (minute ivl)) \<le> datetime_interval_precision rec else unat (minute ivl) \<le> unat limit"
    and "ivl' = ivl\<lparr>minute := 0, second := 0, fraction := 0\<rparr>"
  shows "parse_minute_second ver rec limit False
      (udigits (minute ivl) @ 58 # seconds_text (precision rec) ivl @ rest,
       ulen (minute ivl) + Suc (length (seconds_text (precision rec) ivl))) ivl' d =
    Some (after_fraction ver d ivl, Inr ivl)"
proof -
  let ?s = "seconds_text (precision rec) ivl"
  have 1: "PARSE_IVL_FLD_OR_RET ver rec limit False (udigits (minute ivl) @ 58 # ?s @ rest,
      ulen (minute ivl) + Suc (length ?s)) d = Some (d, Inr ((58 # ?s @ rest, Suc (length ?s)), minute ivl))"
    using assms(6) by (intro field_or_ret_step) (simp_all add: digit_unit_def)
  have 2: "parse_separator_unit ver 58 (58 # ?s @ rest, Suc (length ?s)) d = Some (d, Inr (?s @ rest, length ?s))"
    using length_seconds_text [OF assms(2-4)] by (intro separator_step) simp
  have 3: "parse_interval_second ver rec 59 (?s @ rest, length ?s) (ivl\<lparr>second := 0, fraction := 0\<rparr>) d =
      Some (after_fraction ver d ivl, Inr ivl)"
    using assms(1-5) by (intro seconds_step) simp_all
  have "ivl'\<lparr>minute := minute ivl\<rparr> = ivl\<lparr>second := 0, fraction := 0\<rparr>" by (simp add: assms(7))
  then show ?thesis using 1 2 3 by (simp add: parse_minute_second_def)
qed

lemma minute_end_step:
  assumes "limit \<noteq> 0" "unat (minute ivl) \<le> unat limit" "ivl' = ivl\<lparr>minute := 0\<rparr>"
  shows "parse_minute_second ver rec limit True (udigits (minute ivl) @ rest, ulen (minute ivl)) ivl' d =
    Some (d, Inr ivl)"
  using field_or_ret_step [of 0 rest True limit "minute ivl" rec ver d] assms
  by (simp add: parse_minute_second_def)

lemma hour_to_step:
  assumes "int (ulen h) \<le> datetime_interval_precision rec" "n \<le> length w" "n < 2 ^ 64"
  shows "parse_hour_to ver rec t (udigits h @ 58 # w, ulen h + Suc n) z d =
    parse_minute_second ver rec 59 (t = SQL_IS_HOUR_TO_MINUTE) (w, n) (z\<lparr>month_hour := h\<rparr>) d"
proof -
  have "PARSE_IVL_FLD_OR_RET ver rec 0 False (udigits h @ 58 # w, ulen h + Suc n) d =
      Some (d, Inr ((58 # w, Suc n), h))"
    using assms(1,2) by (intro field_or_ret_step) (simp_all add: digit_unit_def)
  then show ?thesis using separator_step [OF assms(3)] by (simp add: parse_hour_to_def)
qed

lemma day_to_step:
  assumes "int (ulen y) \<le> datetime_interval_precision rec" "unat h \<le> 23" "n \<le> length w"
    and "n = 0 \<or> t \<noteq> SQL_IS_DAY_TO_HOUR \<and> hd w = 58" and ws: "ws_ok iswspace"
  shows "parse_day_to iswspace ver rec t (udigits y @ 32 # udigits h @ w, ulen y + Suc (ulen h + n)) z d =
    (if t = SQL_IS_DAY_TO_HOUR then Some (d, Inr (z\<lparr>year_day := y, month_hour := h\<rparr>))
     else proceed (parse_separator_unit ver 58 (w, n) d) (\<lambda>d v. parse_minute_second ver rec 59
       (t = SQL_IS_DAY_TO_MINUTE) v (z\<lparr>year_day := y, month_hour := h\<rparr>) d))"
proof -
  let ?n = "ulen h + n"
  have 1: "PARSE_IVL_FLD_OR_RET ver rec 0 False (udigits y @ 32 # udigits h @ w, ulen y + Suc ?n) d =
      Some (d, Inr ((32 # udigits h @ w, Suc ?n), y))"
    using assms(1,3) by (intro field_or_ret_step) (simp_all add: digit_unit_def)
  have 2: "vltrim iswspace (32 # udigits h @ w, Suc ?n) = Some (udigits h @ w, ?n)"
    using vltrim_run [of "[32]" iswspace "udigits h @ w" ?n] ws digit_not_ws [OF ws, of "unat h" w]
    by (simp add: ws_ok_def dtext_def)
  have 3: "PARSE_IVL_FLD_OR_RET ver rec 23 (t = SQL_IS_DAY_TO_HOUR) (udigits h @ w, ?n) d =
      Some (d, Inr ((w, n), h))"
    using assms(2-4) by (intro field_or_ret_step) (auto simp: digit_unit_def)
  show ?thesis using 1 2 3 by (simp add: parse_day_to_def Let_def)
qed

lemma year_month_step:
  assumes "int (ulen y) \<le> datetime_interval_precision rec" "unat m \<le> 11" and ws: "ws_ok iswspace"
  shows "parse_year_to_month iswspace ver rec (udigits y @ 45 # udigits m @ rest, ulen y + Suc (ulen m)) z d
    = Some (d, Inr (z\<lparr>year_day := y, month_hour := m\<rparr>))"
proof -
  have 1: "PARSE_IVL_FLD_OR_RET ver rec 0 False (udigits y @ 45 # udigits m @ rest, ulen y + Suc (ulen m)) d =
      Some (d, Inr ((45 # udigits m @ rest, Suc (ulen m)), y))"
    using assms(1) by (intro field_or_ret_step) (simp_all add: digit_unit_def)
  have 2: "vltrim iswspace (45 # udigits m @ rest, k) = Some (45 # udigits m @ rest, k)" for k
    using ws by (intro vltrim_none) (simp_all add: ws_ok_def)
  have 3: "parse_separator_unit ver 45 (45 # udigits m @ rest, Suc (ulen m)) d = Some (d, Inr (udigits m @ rest, ulen m))"
    using ulen_le [of m] by (intro separator_step) simp
  have 4: "vltrim iswspace (udigits m @ rest, k) = Some (udigits m @ rest, k)" for k
    using digit_not_ws [OF ws] by (intro vltrim_none) (simp_all add: dtext_def)
  have 5: "PARSE_IVL_FLD_OR_RET ver rec 11 True (udigits m @ rest, ulen m) d = Some (d, Inr ((rest, 0), m))"
    using field_or_ret_step [of 0 rest True 11 m rec ver d] assms(2) by simp
  show ?thesis using 1 2 3 4 5 by (simp add: parse_year_to_month_def)
qed

text \<open>The value of an interval read back, whatever follows it in memory.\<close>

lemma parse_value_text:
  assumes ok: "interval_ok (datetime_interval_precision rec) (precision rec) ivl"
    and ws: "ws_ok iswspace" and d: "diag_ok ver d"
  shows "parse_interval_literal_value iswspace ver rec
      (value_text (precision rec) ivl @ rest, length (value_text (precision rec) ivl))
      (zero_interval\<lparr>interval_type := interval_type ivl, interval_sign := interval_sign ivl\<rparr>) d =
    Some (after_fraction ver d ivl, Inr ivl)"
proof -
  let ?t = "interval_type ivl" and ?p = "precision rec"
  let ?y = "udigits (year_day ivl)" and ?h = "udigits (month_hour ivl)" and ?m = "udigits (minute ivl)"
  let ?s = "seconds_text ?p ivl"
  let ?z = "zero_interval\<lparr>interval_type := ?t, interval_sign := interval_sign ivl\<rparr>"
  have frac: "unat (fraction ivl) < 10 ^ nat ?p" and p: "0 \<le> ?p" "?p \<le> 9"
    using ok by (auto simp: interval_ok_def split: if_splits)
  note slen = length_seconds_text [OF p frac]
  have range: "1 \<le> ?t" "?t \<le> 13" using ok by (simp_all add: interval_ok_def)
  note facts = ok [unfolded interval_ok_def span_def field_ok_def]
  have after: "fraction ivl = 0 \<Longrightarrow> after_fraction ver d ivl = d" by (simp add: after_fraction_def)
  have min_sec: "parse_minute_second ver rec limit False (?m @ 58 # ?s @ rest, ulen (minute ivl) + Suc (length ?s)) ivl' d =
      Some (after_fraction ver d ivl, Inr ivl)"
    if "unat (second ivl) \<le> 59" "ivl' = ivl\<lparr>minute := 0, second := 0, fraction := 0\<rparr>"
      "if limit = 0 then int (ulen (minute ivl)) \<le> datetime_interval_precision rec else unat (minute ivl) \<le> unat limit"
    for limit ivl'
    using minute_second_step [OF d p frac that(1,3,2)] .
  have min_end: "parse_minute_second ver rec 59 True (?m @ rest, ulen (minute ivl)) ivl' d = Some (d, Inr ivl)"
    if "unat (minute ivl) \<le> 59" "ivl' = ivl\<lparr>minute := 0\<rparr>" for ivl'
    using minute_end_step [of 59 ivl ivl' ver rec rest d] that by simp
  consider (y) "?t = 1 \<or> ?t = 3" | (h) "?t = 2 \<or> ?t = 4" | (m) "?t = 5" | (s) "?t = 6" | (ym) "?t = 7"
    | (dh) "?t = 8" | (dm) "?t = 9" | (ds) "?t = 10" | (hm) "?t = 11" | (hs) "?t = 12" | (ms) "?t = 13"
    using type_cases [OF range] by blast
  then show ?thesis
  proof cases
    case y
    have "?z\<lparr>year_day := year_day ivl\<rparr> = ivl"
      by (rule SQL_INTERVAL_STRUCT.equality) (use facts y in \<open>auto simp: zero_interval_def\<close>)
    then show ?thesis
      using facts y single_step [of "year_day ivl" rec] after
      by (auto simp: parse_interval_literal_value_def value_text_def zero_interval_def)
  next
    case h
    have "?z\<lparr>month_hour := month_hour ivl\<rparr> = ivl"
      by (rule SQL_INTERVAL_STRUCT.equality) (use facts h in \<open>auto simp: zero_interval_def\<close>)
    then show ?thesis
      using facts h single_step [of "month_hour ivl" rec] after
      by (auto simp: parse_interval_literal_value_def value_text_def zero_interval_def)
  next
    case m
    have "?z\<lparr>minute := minute ivl\<rparr> = ivl"
      by (rule SQL_INTERVAL_STRUCT.equality) (use facts m in \<open>auto simp: zero_interval_def\<close>)
    then show ?thesis
      using facts m single_step [of "minute ivl" rec] after
      by (auto simp: parse_interval_literal_value_def value_text_def zero_interval_def)
  next
    case s
    have e: "?z = ivl\<lparr>second := 0, fraction := 0\<rparr>"
      by (rule SQL_INTERVAL_STRUCT.equality) (use facts s in \<open>auto simp: zero_interval_def\<close>)
    have "parse_interval_second ver rec 0 (?s @ rest, length ?s) ?z d = Some (after_fraction ver d ivl, Inr ivl)"
      unfolding e using facts s by (intro seconds_step [OF d p frac]) simp
    then show ?thesis
      using s by (simp add: parse_interval_literal_value_def value_text_def)
  next
    case ym
    have "?z\<lparr>year_day := year_day ivl, month_hour := month_hour ivl\<rparr> = ivl"
      by (rule SQL_INTERVAL_STRUCT.equality) (use facts ym in \<open>auto simp: zero_interval_def\<close>)
    then show ?thesis
      using facts ym year_month_step [OF _ _ ws] after
      by (auto simp: parse_interval_literal_value_def value_text_def zero_interval_def)
  next
    case dh
    have "?z\<lparr>year_day := year_day ivl, month_hour := month_hour ivl\<rparr> = ivl"
      by (rule SQL_INTERVAL_STRUCT.equality) (use facts dh in \<open>auto simp: zero_interval_def\<close>)
    then show ?thesis
      using facts dh day_to_step [of "year_day ivl" rec "month_hour ivl" 0 rest _ iswspace] ws after
      by (auto simp: parse_interval_literal_value_def value_text_def zero_interval_def)
  next
    case dm
    have e: "?z\<lparr>year_day := year_day ivl, month_hour := month_hour ivl\<rparr> = ivl\<lparr>minute := 0\<rparr>"
      by (rule SQL_INTERVAL_STRUCT.equality) (use facts dm in \<open>auto simp: zero_interval_def\<close>)
    have "parse_minute_second ver rec 59 True (?m @ rest, ulen (minute ivl)) (?z\<lparr>year_day := year_day ivl, month_hour := month_hour ivl\<rparr>) d = Some (d, Inr ivl)"
      using facts dm by (intro min_end [OF _ e]) simp_all
    moreover have "Suc (ulen (minute ivl)) < 2 ^ 64" using ulen_le [of "minute ivl"] by simp
    ultimately show ?thesis
      using facts dm day_to_step [of "year_day ivl" rec "month_hour ivl" "Suc (ulen (minute ivl))" "58 # ?m @ rest" 9 iswspace] ws after e
        separator_step [of "ulen (minute ivl)" ver 58 "?m @ rest" d]
      by (auto simp: parse_interval_literal_value_def value_text_def zero_interval_def)
  next
    case ds
    have e: "?z\<lparr>year_day := year_day ivl, month_hour := month_hour ivl\<rparr> = ivl\<lparr>minute := 0, second := 0, fraction := 0\<rparr>"
      by (rule SQL_INTERVAL_STRUCT.equality) (use facts ds in \<open>auto simp: zero_interval_def\<close>)
    have "parse_minute_second ver rec 59 False (?m @ 58 # ?s @ rest, ulen (minute ivl) + Suc (length ?s)) (?z\<lparr>year_day := year_day ivl, month_hour := month_hour ivl\<rparr>) d =
        Some (after_fraction ver d ivl, Inr ivl)"
      using facts ds by (intro min_sec [OF _ e]) simp_all
    moreover have "ulen (minute ivl) + Suc (length ?s) < 2 ^ 64" using ulen_le [of "minute ivl"] slen by simp
    ultimately show ?thesis
      using facts ds day_to_step [of "year_day ivl" rec "month_hour ivl" "Suc (ulen (minute ivl) + Suc (length ?s))"
          "58 # ?m @ 58 # ?s @ rest" 10 iswspace] ws e
        separator_step [of "ulen (minute ivl) + Suc (length ?s)" ver 58 "?m @ 58 # ?s @ rest" d]
      by (auto simp: parse_interval_literal_value_def value_text_def zero_interval_def)
  next
    case hm
    have e: "?z\<lparr>month_hour := month_hour ivl\<rparr> = ivl\<lparr>minute := 0\<rparr>"
      by (rule SQL_INTERVAL_STRUCT.equality) (use facts hm in \<open>auto simp: zero_interval_def\<close>)
    have "parse_minute_second ver rec 59 True (?m @ rest, ulen (minute ivl)) (?z\<lparr>month_hour := month_hour ivl\<rparr>) d = Some (d, Inr ivl)"
      using facts hm by (intro min_end [OF _ e]) simp_all
    moreover have "ulen (minute ivl) < 2 ^ 64" using ulen_le [of "minute ivl"] by simp
    ultimately show ?thesis
      using facts hm hour_to_step [of "month_hour ivl" rec "ulen (minute ivl)" "?m @ rest"] after e
      by (auto simp: parse_interval_literal_value_def value_text_def zero_interval_def)
  next
    case hs
    have e: "?z\<lparr>month_hour := month_hour ivl\<rparr> = ivl\<lparr>minute := 0, second := 0, fraction := 0\<rparr>"
      by (rule SQL_INTERVAL_STRUCT.equality) (use facts hs in \<open>auto simp: zero_interval_def\<close>)
    have "parse_minute_second ver rec 59 False (?m @ 58 # ?s @ rest, ulen (minute ivl) + Suc (length ?s)) (?z\<lparr>month_hour := month_hour ivl\<rparr>) d =
        Some (after_fraction ver d ivl, Inr ivl)"
      using facts hs by (intro min_sec [OF _ e]) simp_all
    moreover have "ulen (minute ivl) + Suc (length ?s) < 2 ^ 64" using ulen_le [of "minute ivl"] slen by simp
    ultimately show ?thesis
      using facts hs hour_to_step [of "month_hour ivl" rec "ulen (minute ivl) + Suc (length ?s)" "?m @ 58 # ?s @ rest"] e
      by (auto simp: parse_interval_literal_value_def value_text_def zero_interval_def)
  next
    case ms
    have e: "?z = ivl\<lparr>minute := 0, second := 0, fraction := 0\<rparr>"
      by (rule SQL_INTERVAL_STRUCT.equality) (use facts ms in \<open>auto simp: zero_interval_def\<close>)
    have "parse_minute_second ver rec 0 False (?m @ 58 # ?s @ rest, ulen (minute ivl) + Suc (length ?s)) (?z) d =
        Some (after_fraction ver d ivl, Inr ivl)"
      using facts ms by (intro min_sec [OF _ e]) simp_all
    then show ?thesis
      using facts ms
      by (auto simp: parse_interval_literal_value_def value_text_def zero_interval_def)
  qed
qed

section \<open>Qualifiers\<close>

text \<open>A word in any letter case; \<open>s\<close> is in lower case.\<close>

definition folds :: "wstr \<Rightarrow> string \<Rightarrow> bool" where
  "folds x s \<longleftrightarrow> map towlower x = wlit s"

lemma folds_length: "folds x s \<Longrightarrow> length x = length s"
  unfolding folds_def by (drule arg_cong [where f = length]) simp

lemma fold_cases: "towlower c = l \<Longrightarrow> c = l \<or> c = l - 32"
  by (auto simp: towlower_def split: if_splits)

lemma wmemncasecmp_prefix:
  "map towlower x = map towlower y \<Longrightarrow> wmemncasecmp (x @ z) y (length y) = Some 0"
proof (induction y arbitrary: x)
  case (Cons b y)
  then obtain a x' where "x = a # x'" "towlower a = towlower b" "map towlower x' = map towlower y"
    by (cases x) auto
  then show ?case using Cons.IH [of x'] by simp
qed simp

lemma towlower_idem: "towlower (towlower c) = towlower c"
proof (cases "65 \<le> c \<and> c \<le> 90")
  case True
  then have n: "65 \<le> unat c" "unat c \<le> 90" by (simp_all add: word_le_nat_alt)
  then have "unat (c + 32) = unat c + 32" by (simp add: unat_word_ariths)
  then have "\<not> c + 32 \<le> 90" using n by (simp add: word_le_nat_alt)
  then show ?thesis using True by (simp add: towlower_def)
qed (simp add: towlower_def)

lemma wrtrim_cnt_run:
  assumes "\<forall>c\<in>set ws. f c" "p \<noteq> []" "\<not> f (last p)"
  shows "wrtrim_cnt f (p @ ws @ z) (length p + length ws) = length p"
  using assms(1)
proof (induction ws arbitrary: z rule: rev_induct)
  case Nil
  obtain n where "length p = Suc n" using assms(2) by (cases p) auto
  then show ?case using assms(2,3) by (simp add: nth_append last_conv_nth)
next
  case (snoc c ws)
  have "(p @ (ws @ [c]) @ z) ! (length p + length ws) = c" by (simp add: nth_append)
  then show ?case using snoc.IH [of "c # z"] snoc.prems by simp
qed

lemma trim_word:
  assumes "folds x ending" "\<forall>c\<in>set ws. iswspace c" "p \<noteq> []" "\<not> iswspace (last p)"
    and "w = p @ ws @ x @ z" "cnt = length p + length ws + length x"
  shows "TRIM_IF_ENDS_WITH_OR_RET iswspace w ending cnt = Some (Some (length p))"
proof -
  have len: "length ending = length x" using folds_length [OF assms(1)] by simp
  have "map towlower x = map towlower (wlit ending)"
  proof -
    have "map towlower x = wlit ending" using assms(1) by (simp add: folds_def)
    moreover have "map towlower (map towlower x) = map towlower x" by (simp add: towlower_idem)
    ultimately show ?thesis by metis
  qed
  then have "wmemncasecmp (x @ z) (wlit ending) (length x) = Some 0"
    using wmemncasecmp_prefix [of x "wlit ending" z] len by simp
  moreover have "cnt \<noteq> 0" "\<not> cnt \<le> length x" using assms(3,6) by simp_all
  moreover have "drop (cnt - length x) w = x @ z" by (simp add: assms(5,6))
  moreover have "wrtrim_cnt iswspace w (cnt - length x) = length p"
    using wrtrim_cnt_run [OF assms(2-4), of "x @ z"] by (simp add: assms(5,6))
  ultimately show ?thesis by (simp add: TRIM_IF_ENDS_WITH_OR_RET_def len)
qed

lemma last_unit_append: "p \<noteq> [] \<Longrightarrow> last_unit (p @ z) (length p) = Some (last p)"
  by (cases p rule: rev_cases) (simp_all add: last_unit_def mem_read_def size_sub_def nth_append)

lemma trim_as_word:
  assumes "folds x ending" "\<forall>c\<in>set ws. iswspace c" "p \<noteq> []" "\<not> iswspace (last p)"
  shows "trim_as iswspace (p @ ws @ x @ z) (length p + length ws + length x) t ending = Some (t, length p)"
  using trim_word [OF assms refl refl] by (simp add: trim_as_def typed_def)

lemma qualifier_single:
  assumes "folds x word" "\<forall>c\<in>set ws. iswspace c" "p \<noteq> []" "\<not> iswspace (last p)" "IS_DELIM (last p)"
  shows "qualifier_to iswspace (p @ ws @ x) (length p + length ws + length x) word t f = Some (t, length p)"
  using trim_word [OF assms(1-4), of "p @ ws @ x" "[]"] last_unit_append [OF assms(3), of "ws @ x"] assms(5)
  by (simp add: qualifier_to_def)

lemma qualifier_after_to:
  assumes "folds x word" "folds to ''to''" "\<forall>c\<in>set ws. iswspace c" "\<forall>c\<in>set ws'. iswspace c"
    and "p \<noteq> []" "\<not> iswspace (last p)" "ws_ok iswspace"
  shows "qualifier_to iswspace (p @ ws @ to @ ws' @ x) (length p + length ws + length to + length ws' + length x)
      word t f = f (length p)"
proof -
  obtain a b where to: "to = [a, b]" "towlower b = 111"
    using assms(2) by (auto simp: folds_def wlit_def map_eq_Cons_conv)
  have b: "b = 111 \<or> b = 79" using fold_cases [OF to(2)] by simp
  then have nb: "\<not> iswspace b" "\<not> IS_DELIM b" using assms(7) by (auto simp: ws_ok_def IS_DELIM_def)
  have 1: "TRIM_IF_ENDS_WITH_OR_RET iswspace (p @ ws @ to @ ws' @ x) word
      (length p + length ws + length to + length ws' + length x) = Some (Some (length (p @ ws @ to)))"
    using assms(1,4) nb to by (intro trim_word [where z = "[]" and ws = ws' and x = x]) simp_all
  have 2: "last_unit (p @ ws @ to @ ws' @ x) (length (p @ ws @ to)) = Some b"
    using last_unit_append [of "p @ ws @ to" "ws' @ x"] to by simp
  have 3: "TRIM_IF_ENDS_WITH_OR_RET iswspace (p @ ws @ to @ ws' @ x) ''to'' (length (p @ ws @ to)) = Some (Some (length p))"
    using assms(2,3,5,6) by (intro trim_word [where z = "ws' @ x" and ws = ws and x = to]) simp_all
  show ?thesis using 1 2 3 nb(2) by (simp add: qualifier_to_def)
qed

text \<open>The words of a type's qualifier, in lower case.\<close>

definition qualifier_words :: "int \<Rightarrow> string list" where
  "qualifier_words t = [[''year''], [''month''], [''day''], [''hour''], [''minute''], [''second''],
     [''year'', ''to'', ''month''], [''day'', ''to'', ''hour''], [''day'', ''to'', ''minute''],
     [''day'', ''to'', ''second''], [''hour'', ''to'', ''minute''], [''hour'', ''to'', ''second''],
     [''minute'', ''to'', ''second'']] ! nat (t - 1)"

text \<open>A qualifier as text: each word in any case, after any white space.\<close>

definition qualifier_text :: "(sqlwchar \<Rightarrow> bool) \<Rightarrow> int \<Rightarrow> (wstr \<times> wstr) list \<Rightarrow> bool" where
  "qualifier_text iswspace t q \<longleftrightarrow>
     list_all2 (\<lambda>(ws, x) s. (\<forall>c\<in>set ws. iswspace c) \<and> folds x s) q (qualifier_words t)"

definition qtext :: "(wstr \<times> wstr) list \<Rightarrow> wstr" where
  "qtext q = concat (map (\<lambda>(ws, x). ws @ x) q)"

lemma folds_ends:
  assumes "folds x s" "s \<noteq> []"
  shows "x \<noteq> []" "towlower (last x) = of_char (last s)"
proof -
  show "x \<noteq> []" using folds_length [OF assms(1)] assms(2) by auto
  then show "towlower (last x) = of_char (last s)"
    using assms by (metis folds_def last_map wlit_def)
qed

text \<open>The last units of the text decide which words are tried.\<close>

lemma text_ends:
  assumes "w = p @ x" "2 \<le> length x"
  shows "w ! (length w - 1) = last x" "w ! (length w - 2) = last (butlast x)"
proof -
  obtain y b where y: "x = y @ [b]" using assms(2) by (cases x rule: rev_cases) auto
  then obtain x' a where x: "y = x' @ [a]" using assms(2) by (cases y rule: rev_cases) auto
  show "w ! (length w - 1) = last x" "w ! (length w - 2) = last (butlast x)"
    by (simp_all add: assms(1) x y nth_append butlast_append)
qed

lemma letter_bit:
  "l \<in> {121, 114, 101, 104, 100, 97, 117} \<Longrightarrow> towlower c = l \<Longrightarrow> or c 32 = l"
  using fold_cases [of c l] by auto

lemma last_letter:
  assumes "folds x s" "s \<noteq> []" "of_char (last s) \<in> ({121, 114, 101, 104, 100, 97, 117} :: sqlwchar set)"
  shows "or (last x) 32 = of_char (last s)" "\<not> IS_DELIM (last x)"
proof -
  show "or (last x) 32 = of_char (last s)"
    using letter_bit [OF assms(3) folds_ends(2) [OF assms(1,2)]] .
  show "\<not> IS_DELIM (last x)"
    using fold_cases [OF folds_ends(2) [OF assms(1,2)]] assms(3) by (auto simp: IS_DELIM_def)
qed

lemma year_hour_letter:
  assumes "folds x s" "s \<in> {''year'', ''hour''}"
  shows "or (last (butlast x)) 32 = of_char (s ! 2)"
proof -
  obtain a b c d where x: "x = [a, b, c, d]" "towlower c = of_char (s ! 2)"
    using assms by (auto simp: folds_def wlit_def map_eq_Cons_conv)
  show ?thesis using letter_bit [OF _ x(2)] assms(2) x(1) by auto
qed

lemma delim_not_ws:
  assumes "ws_ok iswspace" "IS_DELIM c"
  shows "\<not> iswspace c"
proof -
  have "33 \<le> c \<and> c \<le> 126"
    using assms(2) by (auto simp: IS_DELIM_def intro: order_trans [of 33 48] order_trans [of _ 57])
  then show ?thesis using assms(1) by (simp add: ws_ok_def)
qed

lemma letter_not_ws:
  assumes "ws_ok iswspace" "folds x s" "s \<noteq> []" "of_char (last s) \<in> ({121, 114, 101, 104, 100, 97, 117} :: sqlwchar set)"
  shows "\<not> iswspace (last x)"
  using fold_cases [OF folds_ends(2) [OF assms(2,3)]] assms(1,4) by (auto simp: ws_ok_def)

text \<open>The type a qualifier names, and the text before it.\<close>

lemma parse_type_single:
  assumes "qualifier_words t = [word]" "1 \<le> t" "t \<le> 6" "folds x word" "\<forall>c\<in>set ws. iswspace c"
    and "ws_ok iswspace" "body \<noteq> []" "IS_DELIM (last body)"
  shows "parse_interval_type iswspace (body @ ws @ x) = Some (t, length body)"
proof -
  have t: "t = 1 \<or> t = 2 \<or> t = 3 \<or> t = 4 \<or> t = 5 \<or> t = 6" using assms(2,3) by presburger
  have nws: "\<not> iswspace (last body)" using delim_not_ws assms(6,8) by blast
  have word: "word \<in> {''year'', ''month'', ''day'', ''hour'', ''minute'', ''second''}"
    using t assms(1) by (auto simp: qualifier_words_def)
  have len: "2 \<le> length x" "\<not> length (body @ ws @ x) \<le> 3"
    using word folds_length [OF assms(4)] assms(7) by (auto simp: Suc_le_eq)
  note ends = text_ends [of "body @ ws @ x" "body @ ws" x, simplified, OF len(1)]
  have l: "or (last x) 32 = of_char (last word)"
    using word assms(4) by (auto intro: last_letter(1))
  have b: "word \<in> {''year'', ''hour''} \<Longrightarrow> or (last (butlast x)) 32 = of_char (word ! 2)"
    using year_hour_letter [OF assms(4)] .
  note steps = trim_as_word [OF assms(4,5,7) nws, of "[]", simplified]
    qualifier_single [OF assms(4,5,7) nws assms(8)]
  show ?thesis
    using t assms(1) l b steps len ends
    by (elim disjE) (auto simp: qualifier_words_def parse_interval_type_def Let_def month_qualifier_def add.assoc)
qed

lemma parse_type_to:
  assumes "qualifier_words t = [w1, ''to'', w3]" "7 \<le> t" "t \<le> 13"
    and "folds x1 w1" "folds to ''to''" "folds x3 w3"
    and "\<forall>c\<in>set ws1. iswspace c" "\<forall>c\<in>set ws2. iswspace c" "\<forall>c\<in>set ws3. iswspace c"
    and "ws_ok iswspace" "body \<noteq> []" "IS_DELIM (last body)"
  shows "parse_interval_type iswspace (body @ ws1 @ x1 @ ws2 @ to @ ws3 @ x3) = Some (t, length body)"
proof -
  have t: "t = 7 \<or> t = 8 \<or> t = 9 \<or> t = 10 \<or> t = 11 \<or> t = 12 \<or> t = 13" using assms(2,3) by presburger
  have nws: "\<not> iswspace (last body)" using delim_not_ws assms(10,12) by blast
  have w3: "w3 \<in> {''month'', ''hour'', ''minute'', ''second''}" and w1: "w1 \<in> {''year'', ''day'', ''hour'', ''minute''}"
    using t assms(1) by (auto simp: qualifier_words_def)
  let ?p = "body @ ws1 @ x1" and ?z = "ws2 @ to @ ws3 @ x3"
  have len: "2 \<le> length x3" "\<not> length (?p @ ?z) \<le> 3"
    using w3 folds_length [OF assms(6)] assms(11) by (auto simp: Suc_le_eq)
  note ends = text_ends [of "?p @ ?z" "?p @ ws2 @ to @ ws3" x3, simplified, OF len(1)]
  have l3: "or (last x3) 32 = of_char (last w3)" using w3 assms(6) by (auto intro: last_letter(1))
  have b: "w3 = ''hour'' \<Longrightarrow> or (last (butlast x3)) 32 = 117"
    using year_hour_letter [OF assms(6)] by simp
  have x1: "x1 \<noteq> []" "or (last x1) 32 = of_char (last w1)" "\<not> iswspace (last x1)"
    using w1 assms(4,10) folds_ends(1) [OF assms(4)]
    by (auto intro: last_letter(1) dest: letter_not_ws)
  have lu: "last_unit (?p @ ?z) (length ?p) = Some (last x1)"
    using last_unit_append [of ?p ?z] x1(1) by simp
  have as: "trim_as iswspace (?p @ ?z) (length ?p) t' w1 = Some (t', length body)" for t'
    using trim_as_word [OF assms(4,7,11) nws, of ?z t'] by (simp add: add.assoc)
  have to: "qualifier_to iswspace (?p @ ?z) (length (?p @ ?z)) w3 t' f = f (length ?p)" for t' f
    using qualifier_after_to [OF assms(6,5,8,9), of ?p t' f] x1(1,3) assms(10) by (simp add: add.assoc)
  define w where "w = ?p @ ?z"
  have w: "w ! (length w - 1) = last x3" "w ! (length w - 2) = last (butlast x3)" "\<not> length w \<le> 3"
    using ends len(2) by (simp_all add: w_def add.assoc)
  note steps = to [folded w_def] as [folded w_def] lu [folded w_def]
  have "parse_interval_type iswspace w = Some (t, length body)"
    using t assms(1) [symmetric] l3 b x1(2) w steps
    by (elim disjE) (simp_all add: qualifier_words_def parse_interval_type_def Let_def month_qualifier_def)
  then show ?thesis by (simp add: w_def)
qed

lemma parse_type_text:
  assumes "1 \<le> t" "t \<le> 13" "qualifier_text iswspace t q" "ws_ok iswspace" "body \<noteq> []" "IS_DELIM (last body)"
  shows "parse_interval_type iswspace (body @ qtext q) = Some (t, length body)"
proof (cases "t \<le> 6")
  case True
  then have t: "t = 1 \<or> t = 2 \<or> t = 3 \<or> t = 4 \<or> t = 5 \<or> t = 6" using assms(1) by presburger
  then obtain word where w: "qualifier_words t = [word]" by (auto simp: qualifier_words_def)
  then obtain ws x where "q = [(ws, x)]" "\<forall>c\<in>set ws. iswspace c" "folds x word"
    using assms(3) by (auto simp: qualifier_text_def list_all2_Cons2)
  then show ?thesis using parse_type_single [OF w assms(1) True _ _ assms(4-6)] by (simp add: qtext_def)
next
  case False
  then have t: "t = 7 \<or> t = 8 \<or> t = 9 \<or> t = 10 \<or> t = 11 \<or> t = 12 \<or> t = 13" using assms(2) by presburger
  then obtain w1 w3 where w: "qualifier_words t = [w1, ''to'', w3]" by (auto simp: qualifier_words_def)
  then obtain ws1 x1 ws2 to ws3 x3 where q: "q = [(ws1, x1), (ws2, to), (ws3, x3)]" "\<forall>c\<in>set ws1. iswspace c"
      "\<forall>c\<in>set ws2. iswspace c" "\<forall>c\<in>set ws3. iswspace c" "folds x1 w1" "folds to ''to''" "folds x3 w3"
    using assms(3) by (auto simp: qualifier_text_def list_all2_Cons2)
  show ?thesis
    using parse_type_to [OF w _ assms(2) q(5-7) q(2-4) assms(4-6)] False by (simp add: qtext_def q(1))
qed

section \<open>The whole literal\<close>

definition sign_text :: "bool \<Rightarrow> wstr \<Rightarrow> bool" where
  "sign_text neg s \<longleftrightarrow> (if neg then s = [45] else s = [] \<or> s = [43])"

lemma strip_quotes_text:
  assumes "length v < 2 ^ 63"
  shows "strip_quotes (39 # v @ 39 # z, length v + 2) = Some (v @ 39 # z, length v)"
  using assms by (simp add: strip_quotes_def mem_read_def size_sub_def nth_append)

lemma strip_sign_text:
  assumes "sign_text neg s" "\<forall>c\<in>set w2. iswspace c" "ws_ok iswspace"
  shows "strip_sign iswspace (s @ (if s = [] then [] else w2) @ 39 # v, length s + (if s = [] then 0 else length w2) + Suc n) =
    Some (neg, 39 # v, Suc n)"
proof (cases "s = []")
  case True
  then show ?thesis using assms(1) by (simp add: strip_sign_def mem_read_def sign_text_def split: if_splits)
next
  case False
  then obtain c where c: "s = [c]" "c = (if neg then 45 else 43)"
    using assms(1) by (auto simp: sign_text_def split: if_splits)
  have "vltrim iswspace (w2 @ 39 # v, length w2 + Suc n) = Some (39 # v, Suc n)"
    using assms(2,3) by (intro vltrim_run) (simp_all add: ws_ok_def)
  then show ?thesis using c by (simp add: strip_sign_def mem_read_def vskip_def size_sub_def)
qed

lemma interval_keyword:
  assumes "folds kw ''interval''"
  shows "length kw = 8" "kw \<noteq> []" "hd kw \<noteq> 123" "wmemncasecmp (kw @ z) ES_INTERVAL (length ES_INTERVAL) = Some 0"
proof -
  show len: "length kw = 8" using folds_length [OF assms] by simp
  then show ne: "kw \<noteq> []" by auto
  have "towlower (hd kw) = 105"
    using assms ne by (cases kw) (simp_all add: folds_def wlit_def)
  then show "hd kw \<noteq> 123" using fold_cases [of "hd kw" 105] by auto
  have "map towlower kw = map towlower ES_INTERVAL"
    using assms by (simp add: folds_def ES_INTERVAL_def wlit_def towlower_def)
  then show "wmemncasecmp (kw @ z) ES_INTERVAL (length ES_INTERVAL) = Some 0"
    by (rule wmemncasecmp_prefix)
qed

lemma qtext_length:
  assumes "1 \<le> t" "t \<le> 13" "qualifier_text iswspace t q"
  shows "3 \<le> length (qtext q)"
proof -
  obtain word ss where w: "qualifier_words t = word # ss" "3 \<le> length word"
    using type_cases [OF assms(1,2)] by (elim disjE) (simp_all add: qualifier_words_def)
  then obtain ws x q' where "q = (ws, x) # q'" "folds x word"
    using assms(3) by (auto simp: qualifier_text_def list_all2_Cons2)
  then show ?thesis using w(2) folds_length [of x word] by (simp add: qtext_def)
qed

lemma value_text_nonempty: "value_text prec ivl \<noteq> []"
  by (simp add: value_text_def Let_def seconds_text_def dtext_def)

lemma typed_literal_parsed:
  assumes ok: "interval_ok (datetime_interval_precision rec) (precision rec) ivl"
    and ws: "ws_ok iswspace" and d: "diag_ok ver d"
    and sgn: "sign_text (interval_sign ivl) s" and w: "\<forall>c\<in>set w2. iswspace c"
  shows "parse_typed_literal iswspace ver rec (interval_type ivl)
      (s @ (if s = [] then [] else w2) @ 39 # value_text (precision rec) ivl @ 39 # z,
       length s + (if s = [] then 0 else length w2) + Suc (length (value_text (precision rec) ivl) + 1)) d =
    Some (after_fraction ver d ivl, SQL_SUCCESS, ivl)"
proof -
  let ?v = "value_text (precision rec) ivl"
  have "strip_quotes (39 # ?v @ 39 # z, length ?v + 2) = Some (?v @ 39 # z, length ?v)"
    using length_value_text [OF ok] by (intro strip_quotes_text) simp
  then show ?thesis
    using strip_sign_text [OF sgn w ws, of "?v @ 39 # z" "length ?v + 1"] parse_value_text [OF ok ws d, of "39 # z"]
    by (simp add: parse_typed_literal_def Let_def)
qed

lemma literal_text_parsed:
  assumes ok: "interval_ok (datetime_interval_precision rec) (precision rec) ivl"
    and ws: "ws_ok iswspace" and d: "diag_ok ver d"
    and kw: "folds kw ''interval''" and w: "\<forall>c\<in>set w1. iswspace c" "\<forall>c\<in>set w2. iswspace c"
    and sgn: "sign_text (interval_sign ivl) s"
    and q: "qualifier_text iswspace (interval_type ivl) q"
    and whole: "txt = kw @ w1 @ s @ (if s = [] then [] else w2) @ 39 # value_text (precision rec) ivl @ 39 # qtext q"
  shows "parse_interval_literal iswspace ver rec (txt, length txt) d = Some (after_fraction ver d ivl, SQL_SUCCESS, ivl)"
proof -
  let ?t = "interval_type ivl" and ?v = "value_text (precision rec) ivl"
  define body where "body = s @ (if s = [] then [] else w2) @ 39 # ?v @ [39]"
  define rest where "rest = body @ qtext q"
  have t: "1 \<le> ?t" "?t \<le> 13" using ok by (simp_all add: interval_ok_def)
  note k = interval_keyword [OF kw]
  have parts: "txt = kw @ w1 @ rest" by (simp add: whole rest_def body_def)
  have ty: "parse_interval_type iswspace rest = Some (?t, length body)"
    unfolding rest_def using t q ws by (intro parse_type_text) (simp_all add: IS_DELIM_def body_def)
  have "3 \<le> length (qtext q)" "?v \<noteq> []" using qtext_length [OF t q] value_text_nonempty by simp_all
  then have "4 \<le> length rest" by (cases ?v) (simp_all add: rest_def body_def)
  then have long: "\<not> length txt < length ES_INTERVAL + 4" by (simp add: parts k(1) ES_INTERVAL_def)
  have read0: "mem_read txt 0 = Some (hd kw)" using k(2) by (cases kw) (simp_all add: parts mem_read_def)
  have braces: "strip_braces iswspace (txt, length txt) = Some (Some (txt, length txt))"
    using long read0 k(3) by (simp add: strip_braces_def mem_read_def size_sub_def Let_def)
  have cmp: "wmemncasecmp txt ES_INTERVAL (length ES_INTERVAL) = Some 0"
    unfolding parts by (rule k(4))
  have "hd rest \<in> {45, 43, 39}" "rest \<noteq> []"
    using sgn by (auto simp: sign_text_def rest_def body_def split: if_splits)
  moreover from this(1) have "\<not> iswspace (hd rest)" using ws by (auto simp: ws_ok_def)
  ultimately have "vltrim iswspace (w1 @ rest, length w1 + length rest) = Some (rest, length rest)"
    using w(1) by (intro vltrim_run) simp_all
  moreover have "vskip (length ES_INTERVAL) (txt, length txt) = (w1 @ rest, length w1 + length rest)"
    using k(1) by (simp add: vskip_def size_sub_def parts ES_INTERVAL_def)
  moreover have "parse_typed_literal iswspace ver rec ?t (rest, length body) d = Some (after_fraction ver d ivl, SQL_SUCCESS, ivl)"
    using typed_literal_parsed [OF ok ws d sgn w(2), of "qtext q"] by (auto simp: rest_def body_def add.assoc)
  ultimately show ?thesis
    using ty t long braces cmp by (simp add: parse_interval_literal_def)
qed

section \<open>Properties\<close>

text \<open>C5: an interval printed as SQL text and put in a literal of its type (\<open>INTERVAL\<close>, the sign, the
  value in quotes, the qualifier; in any letter case, with any white space between the parts) converts
  back to that interval, for each of the thirteen types. A fraction of the seconds survives the
  printing through a \<open>double\<close> and leaves a warning posted on the statement, although no digit of it is
  lost.\<close>
theorem literal_roundtrip:
  assumes "interval_ok (datetime_interval_precision rec) (precision rec) ivl"
    and "ws_ok iswspace" and "diag_ok ver d"
    and "print_interval_sql (precision rec) (ivl\<lparr>interval_sign := False\<rparr>) = Some (Some value)"
    and "folds kw ''interval''" and "\<forall>c\<in>set w1 \<union> set w2. iswspace c"
    and "sign_text (interval_sign ivl) s" and "qualifier_text iswspace (interval_type ivl) q"
    and "lit = kw @ w1 @ s @ (if s = [] then [] else w2) @ 39 # map of_nat value @ 39 # qtext q"
  shows "sql2c_interval iswspace ndebug ver rec ES_WVARCHAR_SQL (ivl_type2c_type ! nat (interval_type ivl - 1))
      (lit, length lit) d = Some (after_fraction ver d ivl, SQL_SUCCESS, Some ivl)"
proof -
  have t: "1 \<le> interval_type ivl" "interval_type ivl \<le> 13" using assms(1) by (simp_all add: interval_ok_def)
  have "interval_ok (datetime_interval_precision rec) (precision rec) (ivl\<lparr>interval_sign := False\<rparr>)"
    using assms(1) by (simp add: interval_ok_def)
  from print_value_text [OF this] assms(4) have shown: "map of_nat value = value_text (precision rec) ivl"
    by (simp add: value_text_def seconds_text_def)
  have "mem_read ivl_type2c_type (nat (interval_type ivl - 1)) =
      Some (ivl_type2c_type ! nat (interval_type ivl - 1))"
    using t by (simp add: mem_read_def ivl_type2c_type_def)
  moreover have "parse_interval_literal iswspace ver rec (lit, length lit) d = Some (after_fraction ver d ivl, SQL_SUCCESS, ivl)"
    using assms(6,9) shown by (intro literal_text_parsed [OF assms(1-3,5) _ _ assms(7,8)]) auto
  moreover have "length lit \<noteq> 0" using assms(9) by simp
  ultimately show ?thesis using t by (simp add: sql2c_interval_def SQL_SUCCEEDED_def)
qed

definition c_iswspace :: "sqlwchar \<Rightarrow> bool" where
  "c_iswspace c \<longleftrightarrow> c = 32 \<or> c = 9 \<or> c = 10 \<or> c = 11 \<or> c = 12 \<or> c = 13"

lemma c_iswspace_ok: "ws_ok c_iswspace"
  by (auto simp: ws_ok_def c_iswspace_def)

definition sample_rec :: esodbc_rec where
  "sample_rec = (init_rec DESC_TYPE_ARD)\<lparr>precision := 3, datetime_interval_precision := 2\<rparr>"

definition sample_interval :: SQL_INTERVAL_STRUCT where
  "sample_interval = \<lparr>interval_type = 10, interval_sign = True, year_day = 3, month_hour = 4, minute = 5,
     second = 6, fraction = 250\<rparr>"

lemma literal_roundtrip_witness:
  "\<exists>d'. sql2c_interval c_iswspace True (wlit ''1.0'') sample_rec ES_WVARCHAR_SQL SQL_C_INTERVAL_DAY_TO_SECOND
      (wlit ''Interval - '' @ wlit [CHR 0x27] @ wlit ''3 4:5:6.250'' @ wlit [CHR 0x27] @ wlit '' day  TO second'', 39)
      (desc_diag sample_desc) = Some (d', SQL_SUCCESS, Some sample_interval)"
proof -
  have d: "diag_ok (wlit ''1.0'') (desc_diag sample_desc)"
    using desc_okD(3) [OF sample_desc_ok] .
  have ok: "interval_ok (datetime_interval_precision sample_rec) (precision sample_rec) sample_interval"
    by (simp add: interval_ok_def field_ok_def span_def sample_rec_def sample_interval_def dec_digits.simps)
  have "interval_ok (datetime_interval_precision sample_rec) (precision sample_rec)
      (sample_interval\<lparr>interval_sign := False\<rparr>)"
    using ok by (simp add: interval_ok_def)
  moreover have "value_text (precision sample_rec) (sample_interval\<lparr>interval_sign := False\<rparr>) = wlit ''3 4:5:6.250''"
    by code_simp
  ultimately obtain shown where p: "print_interval_sql (precision sample_rec) (sample_interval\<lparr>interval_sign := False\<rparr>) =
      Some (Some shown)" and shown: "map of_nat shown = wlit ''3 4:5:6.250''"
    using print_value_text by fastforce
  have kw: "folds (wlit ''Interval'') ''interval''" by code_simp
  have q: "qualifier_text c_iswspace (interval_type sample_interval)
      [(wlit '' '', wlit ''day''), (wlit ''  '', wlit ''TO''), (wlit '' '', wlit ''second'')]"
    by code_simp
  have ws: "\<forall>c\<in>set (wlit '' '') \<union> set (wlit '' ''). c_iswspace c" by code_simp
  have sgn: "sign_text (interval_sign sample_interval) (wlit ''-'')" by code_simp
  have lit: "wlit ''Interval - '' @ wlit [CHR 0x27] @ wlit ''3 4:5:6.250'' @ wlit [CHR 0x27] @ wlit '' day  TO second'' =
      wlit ''Interval'' @ wlit '' '' @ wlit ''-'' @ (if wlit ''-'' = [] then [] else wlit '' '') @ 39 #
      map of_nat shown @ 39 #
      qtext [(wlit '' '', wlit ''day''), (wlit ''  '', wlit ''TO''), (wlit '' '', wlit ''second'')]"
    unfolding shown by code_simp
  have len: "length (wlit ''Interval - '' @ wlit [CHR 0x27] @ wlit ''3 4:5:6.250'' @ wlit [CHR 0x27] @
      wlit '' day  TO second'') = 39" by code_simp
  have c: "ivl_type2c_type ! nat (interval_type sample_interval - 1) = SQL_C_INTERVAL_DAY_TO_SECOND" by code_simp
  show ?thesis
    by (rule exI, rule literal_roundtrip [OF ok c_iswspace_ok d p kw ws sgn q lit, unfolded len c])
qed

end
