(* ===== verification/Ivl_Rebalance.thy ===== *)
theory Ivl_Rebalance
imports Ivl_Roundtrip
begin

text \<open>
  The ISO 8601 form of intervals (driver/convert.c, \<open>parse_interval_iso8601\<close>): what the rebalancing of
  the day-time fields computes, that the parser returns, and that it reads back what
  \<open>print_interval_iso8601\<close> prints.
\<close>

section \<open>The sum of the fields\<close>

definition total_secs :: "SQL_INTERVAL_STRUCT \<Rightarrow> nat" where
  "total_secs ivl = unat (second ivl) + 60 * unat (minute ivl) + 3600 * unat (month_hour ivl) +
     86400 * unat (year_day ivl)"

lemma unat_plus_u32: "unat a + unat b < 4294967296 \<Longrightarrow> unat (a + b :: u32) = unat a + unat b"
  by (simp add: unat_word_ariths)

lemma unat_mult_u32:
  assumes "unat k * unat a < 4294967296"
  shows "unat (k * a :: u32) = unat k * unat a"
  using assms by (simp add: unat_word_ariths)

lemma ULONG_SAFE_ADD_ok:
  assumes "unat a + unat b < 4294967296"
  shows "ULONG_SAFE_ADD a b = Some (a + b)"
proof -
  have "unat (4294967295 - b :: u32) = 4294967295 - unat b"
    using unat_u32 [of b] by (subst unat_sub) (simp_all add: word_le_nat_alt)
  then show ?thesis
    using assms unat_u32 [of a] by (simp add: ULONG_SAFE_ADD_def word_less_nat_alt)
qed

lemma interval_secs_total:
  assumes "total_secs ivl < 4294967296"
  shows "\<exists>secs. interval_secs ivl = Some secs \<and> unat secs = total_secs ivl"
proof -
  have m: "unat (60 * minute ivl) = 60 * unat (minute ivl)"
    using assms by (subst unat_mult_u32) (simp_all add: total_secs_def)
  have h: "unat (3600 * month_hour ivl) = 3600 * unat (month_hour ivl)"
    using assms by (subst unat_mult_u32) (simp_all add: total_secs_def)
  have d: "unat (86400 * year_day ivl) = 86400 * unat (year_day ivl)"
    using assms by (subst unat_mult_u32) (simp_all add: total_secs_def)
  have 1: "unat (second ivl + 60 * minute ivl) = unat (second ivl) + 60 * unat (minute ivl)"
    using assms m by (subst unat_plus_u32) (simp_all add: total_secs_def)
  have 2: "unat (second ivl + 60 * minute ivl + 3600 * month_hour ivl) =
      unat (second ivl) + 60 * unat (minute ivl) + 3600 * unat (month_hour ivl)"
    using assms 1 h by (subst unat_plus_u32) (simp_all add: total_secs_def)
  have 3: "unat (second ivl + 60 * minute ivl + 3600 * month_hour ivl + 86400 * year_day ivl) = total_secs ivl"
    using assms 2 d by (subst unat_plus_u32) (simp_all add: total_secs_def)
  have "ULONG_SAFE_ADD (second ivl) (60 * minute ivl) = Some (second ivl + 60 * minute ivl)"
    using assms m by (intro ULONG_SAFE_ADD_ok) (simp add: total_secs_def)
  moreover have "ULONG_SAFE_ADD (second ivl + 60 * minute ivl) (3600 * month_hour ivl) =
      Some (second ivl + 60 * minute ivl + 3600 * month_hour ivl)"
    using assms 1 h by (intro ULONG_SAFE_ADD_ok) (simp add: total_secs_def)
  moreover have "ULONG_SAFE_ADD (second ivl + 60 * minute ivl + 3600 * month_hour ivl) (24 * 3600 * year_day ivl) =
      Some (second ivl + 60 * minute ivl + 3600 * month_hour ivl + 24 * 3600 * year_day ivl)"
    using assms 2 d by (intro ULONG_SAFE_ADD_ok) (simp add: total_secs_def)
  ultimately show ?thesis using 3 by (simp add: interval_secs_def)
qed

section \<open>The fields of the sum\<close>

text \<open>The value of member \<open>i\<close> (day, hour, minute, second) when \<open>n\<close> seconds are spread over the members
  of a type: the first takes all there is, the others what is left, and what the last has no room for
  is dropped.\<close>

definition radix :: "nat \<times> nat \<Rightarrow> nat \<Rightarrow> nat \<Rightarrow> nat" where
  "radix ab i n =
    (if i < fst ab \<or> snd ab < i then 0
     else let q = n div ([86400, 3600, 60, 1] ! i) in
       if i = fst ab then q else q mod ([1, 24, 60, 60] ! i))"

definition day_time :: "int \<Rightarrow> bool" where
  "day_time t \<longleftrightarrow> t \<in> {3, 4, 5, 6, 8, 9, 10, 11, 12, 13}"

definition emptied :: "u32 \<Rightarrow> SQL_INTERVAL_STRUCT \<Rightarrow> SQL_INTERVAL_STRUCT" where
  "emptied fr ivl = ivl\<lparr>year_day := 0, month_hour := 0, minute := 0, second := 0, fraction := fr\<rparr>"

definition spread_ok :: "nat \<times> nat \<Rightarrow> nat \<Rightarrow> SQL_INTERVAL_STRUCT \<Rightarrow> SQL_INTERVAL_STRUCT \<Rightarrow> bool" where
  "spread_ok ab n ivl ivl' \<longleftrightarrow>
     unat (year_day ivl') = radix ab 0 n \<and> unat (month_hour ivl') = radix ab 1 n \<and>
     unat (minute ivl') = radix ab 2 n \<and> unat (second ivl') = radix ab 3 n \<and>
     interval_type ivl' = interval_type ivl \<and> interval_sign ivl' = interval_sign ivl \<and>
     fraction ivl' = fraction ivl"

lemma type2bm_eq:
  "type2bm = [2, 4, 8, 16, 32, 64, 6, 24, 56, 120, 48, 112, 96]"
  by (simp add: type2bm_def field_bit_def)

lemma zero_div_iff: "unat (secs :: u32) div k = 0 \<Longrightarrow> 0 < k \<Longrightarrow> unat secs < k"
  by (simp add: div_eq_0_iff)

lemma spread_secs_radix:
  assumes "day_time t"
  shows "\<exists>ivl'. spread_secs True (type2bm ! nat (t - 1)) secs (emptied fr ivl) = Some ivl' \<and>
    spread_ok (span t) (unat secs) (emptied fr ivl) ivl'"
proof -
  note defs = spread_secs_def spread_second_def spread_minute_def spread_hour_def spread_day_def c_assert_def
    has_field_def field_bit_def type2bm_eq emptied_def spread_ok_def radix_def span_def
    unat_div unat_mod word_unat_eq_iff div_mult2_eq [symmetric] mod_mult2_eq
  show ?thesis
    using assms unfolding day_time_def insert_iff empty_iff
    by (elim disjE) (simp_all add: defs)
qed

definition unit_secs :: "nat \<Rightarrow> nat" where
  "unit_secs i = [86400, 3600, 60, 1] ! i"

lemma radix_sum:
  assumes "day_time t"
  shows "radix (span t) 3 n + 60 * radix (span t) 2 n + 3600 * radix (span t) 1 n + 86400 * radix (span t) 0 n =
    n - n mod unit_secs (snd (span t))"
proof -
  obtain a where a: "n div 86400 = a" by simp
  obtain h where h: "n div 3600 mod 24 = h" by simp
  obtain m where m: "n div 60 mod 60 = m" by simp
  obtain s where s: "n mod 60 = s" by simp
  have h2: "n div 3600 = 24 * a + h"
    using mult_div_mod_eq [of 24 "n div 3600"] by (simp add: div_mult2_eq [symmetric] a h)
  have m2: "n div 60 = 1440 * a + 60 * h + m"
    using mult_div_mod_eq [of 60 "n div 60"] by (simp add: div_mult2_eq [symmetric] h2 m)
  have n: "n = 86400 * a + 3600 * h + 60 * m + s"
    using mult_div_mod_eq [of 60 n] by (simp add: m2 s)
  have rest: "n mod 3600 = 60 * m + s" "n mod 86400 = 3600 * h + 60 * m + s"
    using mult_div_mod_eq [of 3600 n] mult_div_mod_eq [of 86400 n] n h2 a by linarith+
  have mods: "h mod 24 = h" "(1440 * a + 60 * h + m) mod 60 = m" using h m h2 m2 by simp_all
  have less: "n - s = 86400 * a + 3600 * h + 60 * m" "n - (60 * m + s) = 86400 * a + 3600 * h"
      "n - (3600 * h + 60 * m + s) = 86400 * a"
    using n by simp_all
  show ?thesis
    using assms unfolding day_time_def insert_iff empty_iff
    by (elim disjE; simp add: radix_def span_def unit_secs_def a h m s h2 m2 rest less mods; use n in linarith)
qed

lemma spread_total:
  assumes "day_time t" "spread_ok (span t) n ivl ivl'"
  shows "total_secs ivl' = n - n mod unit_secs (snd (span t))"
  using assms(2) radix_sum [OF assms(1), of n] by (simp add: spread_ok_def total_secs_def)

lemma rebalance_day_time:
  assumes "day_time t" "total_secs ivl < 4294967296" "3 \<le> snd (span t) \<or> hf = Some False"
  shows "\<exists>ivl'. iso_rebalance True (type2bm ! nat (t - 1)) fr hf ivl =
      Some (Inr (ivl', day_time_fields (type2bm ! nat (t - 1)))) \<and>
    spread_ok (span t) (total_secs ivl) (emptied fr ivl) ivl'"
proof -
  obtain secs where s: "interval_secs ivl = Some secs" "unat secs = total_secs ivl"
    using interval_secs_total [OF assms(2)] by blast
  obtain ivl' where i: "spread_secs True (type2bm ! nat (t - 1)) secs (emptied fr ivl) = Some ivl'"
      "spread_ok (span t) (unat secs) (emptied fr ivl) ivl'"
    using spread_secs_radix [OF assms(1)] by blast
  have "has_field (type2bm ! nat (t - 1)) SQL_IS_SECOND \<longleftrightarrow> 3 \<le> snd (span t)"
    using assms(1) by (auto simp: day_time_def has_field_def field_bit_def type2bm_eq span_def)
  then show ?thesis
    using assms(3) s i by (cases hf) (auto simp: iso_rebalance_def emptied_def)
qed

section \<open>Properties\<close>



lemma u32_max [simp]: "\<not> (4294967295 :: u32) < x"
  using unat_u32 [of x] by (simp add: word_less_nat_alt)

text \<open>The products of the sum are not checked, only its additions are: a number of minutes read for an
  interval of seconds wraps at 32 bits, where an overflow is meant to be refused.\<close>
theorem rebalance_minutes_wrap:
  "\<exists>ivl'. iso_rebalance ndebug (type2bm ! 5) 0 (Some False) (zero_interval\<lparr>minute := m\<rparr>) =
      Some (Inr (ivl', field_bit SQL_IS_SECOND)) \<and>
    unat (second ivl') = 60 * unat m mod 2 ^ 32"
  by (simp add: iso_rebalance_def interval_secs_def ULONG_SAFE_ADD_def zero_interval_def spread_secs_def
      spread_second_def spread_minute_def spread_hour_def spread_day_def has_field_def field_bit_def type2bm_eq
      day_time_fields_def unat_word_ariths)

section \<open>The parser returns\<close>

lemma str2ubigint_loop_count:
  "str2ubigint_loop strict cs i digit res = Inr (j, digit', res') \<Longrightarrow> j \<le> i + length cs"
  by (induction strict cs i digit res rule: str2ubigint_loop.induct)
    (auto simp: scan_step split: if_splits)

lemma str2ubigint_count:
  assumes "str2ubigint (WStr cs) strict = Inr (n, u)"
  shows "n \<le> Suc (length cs)"
  using assms
  by (auto simp: str2ubigint_def Let_def split: list.splits sum.splits if_splits prod.splits
      dest!: str2ubigint_loop_count)

lemma RET_CONV_TEXT_ok:
  "diag_ok ver d \<Longrightarrow> st < 120 \<Longrightarrow> CHR 0x00 \<notin> set s \<Longrightarrow>
    RET_CONV_TEXT ver d st s = Some (posted ver d st (wlit s), state_retcode (esodbc_errors ! st))"
  using post_diagnostic_eq [of d ver st "Some (wlit s @ [0])" "wlit s" "[]" _ 0, OF _ _ _ _ _ refl]
  by (simp add: RET_CONV_TEXT_def diag_ok_def SQL_MAX_MESSAGE_LENGTH_def posted_def Let_def esodbc_errors_length)

lemma iso_fails_ok:
  "diag_ok ver d \<Longrightarrow> \<exists>d' ret. iso_fails ver d e = Some (d', ret, zero_interval) \<and> diag_ok ver d'"
  by (cases e) (simp_all add: iso_fails_def RET_HDIAGS_ok [simplified] RET_CONV_TEXT_ok [simplified])

lemma adjust_ok:
  assumes "diag_ok ver d" "0 \<le> prec" "prec < 64" "0 \<le> have" "have < 64"
  shows "\<exists>d' ret u'. adjust_to_precision ver d prec u have = Some (d', ret, u') \<and> diag_ok ver d'"
  using assms by (auto simp: adjust_to_precision_def pow10_eq RET_HDIAGS_ok [simplified])

lemma parse_iso8601_number_ok:
  assumes "diag_ok ver d" "0 \<le> prec" "prec < 64" "length wstr < 64"
  shows "\<exists>d' r. parse_iso8601_number ver d prec wstr sign u = Some (d', r) \<and> diag_ok ver d'"
proof -
  have "\<exists>d' ret u'. adjust_to_precision ver d prec x (to_i16 (int n)) = Some (d', ret, u') \<and> diag_ok ver d'"
    if "str2ubigint (WStr (drop (digits + 1) wstr)) False = Inr (n, y)" "digits + 1 < length wstr" for n x y digits
    using str2ubigint_count [OF that(1)] that(2) assms by (intro adjust_ok) (simp_all add: to_i16_id)
  note adjusted = this
  show ?thesis
  proof (cases "str2bigint (WStr wstr) False")
    case (Inr x)
    obtain digits bint where x: "x = (digits, bint)" by (cases x)
    show ?thesis
    proof (cases "str2ubigint (WStr (drop (digits + 1) wstr)) False")
      case Inl': (Inl e)
      then show ?thesis using assms(1) Inr x by (simp add: parse_iso8601_number_def Let_def)
    next
      case Inr': (Inr y)
      obtain n z where y: "y = (n, z)" by (cases y)
      show ?thesis
      proof (cases "digits + 1 < length wstr")
        case True
        then show ?thesis
          using adjusted [OF Inr' [unfolded y] True, of z] assms(1) Inr x Inr' y
          by (auto simp: parse_iso8601_number_def Let_def)
      qed (use assms(1) Inr x in \<open>simp add: parse_iso8601_number_def Let_def\<close>)
    qed
  qed (use assms(1) in \<open>simp add: parse_iso8601_number_def\<close>)
qed

lemma ASSIGN_FIELD_number: "ASSIGN_FIELD prev t f v = Some v' \<Longrightarrow> iv_number v' = iv_number v \<and> iv_number v \<noteq> None"
  by (auto simp: ASSIGN_FIELD_def SET_BITMASK_OR_ERR_def split: if_splits option.splits)

lemma iso_letter_number:
  "iso_letter c v = Some v' \<Longrightarrow> iv_number v \<noteq> None \<Longrightarrow> iv_number v' \<noteq> None"
  by (auto simp: iso_letter_def assign_m_def assign_s_def simp del: not_None_eq dest!: ASSIGN_FIELD_number
      split: if_splits)

lemma iso_scan_ok:
  assumes "diag_ok ver d" "0 \<le> prec" "prec < 64" "length wstr < 64"
  shows "\<exists>d' r. iso_scan ver prec wstr d v = Some (d', r) \<and> diag_ok ver d' \<and>
    (iv_number v \<noteq> None \<longrightarrow> (\<forall>v'. r = Some v' \<longrightarrow> iv_number v' \<noteq> None))"
  using assms
proof (induction ver prec wstr d v rule: iso_scan.induct)
  case (1 ver prec d v)
  then show ?case by (simp add: iso_scan.simps)
next
  case (2 ver prec crr rest d v)
  show ?case
  proof (cases "starts_number (or crr 32)")
    case num: True
    show ?thesis
    proof (cases "iv_state v = ST_PERIOD \<or> iv_state v = ST_TIME")
      case True
      obtain d' r where n: "parse_iso8601_number ver d prec (crr # rest) (iv_sign v) (iv_fraction v) = Some (d', r)"
          "diag_ok ver d'"
        using parse_iso8601_number_ok [of ver d prec "crr # rest"] 2(3-) by blast
      show ?thesis
      proof (cases r)
        case (Some k)
        have "length (num_rest k) \<le> length (crr # rest)"
          using n(1) Some by (intro parse_iso8601_number_rest [of ver d prec _ "iv_sign v" "iv_fraction v" d']) simp
        then show ?thesis
          using 2(1) [OF num True n(1) refl Some] Some n(2) 2(4-) num True n(1)
          by (auto simp: iso_scan.simps(2) [of ver prec crr])
      qed (use num True n in \<open>simp add: iso_scan.simps(2)\<close>)
    qed (use num 2(3) in \<open>simp add: iso_scan.simps(2)\<close>)
  next
    case False
    show ?thesis
    proof (cases "iso_letter (or crr 32) v")
      case (Some v')
      then show ?thesis
        using 2(2) [OF False Some] 2(3-) False iso_letter_number [OF Some]
        by (auto simp: iso_scan.simps(2) [of ver prec crr])
    qed (use False 2(3) in \<open>simp add: iso_scan.simps(2)\<close>)
  qed
qed

lemma spread_secs_release: "spread_secs True bm secs ivl \<noteq> None"
  by (simp add: spread_secs_def spread_minute_def spread_hour_def spread_day_def c_assert_def)

lemma iso_rebalance_release: "hf \<noteq> None \<Longrightarrow> iso_rebalance True bm u hf ivl \<noteq> None"
  using spread_secs_release by (auto simp: iso_rebalance_def Let_def split: option.splits bool.splits)

lemma iso_finish_ok:
  assumes "diag_ok ver d" "101 \<le> ctype" "ctype \<le> 113" "iv_number v \<noteq> None"
  shows "\<exists>d' ret ivl. iso_finish True ver ctype d v = Some (d', ret, ivl) \<and> diag_ok ver d'"
proof -
  have fails: "\<exists>d' ret ivl. iso_fails ver d e = Some (d', ret, ivl) \<and> diag_ok ver d'" for e
    using iso_fails_ok [OF assms(1), of e] by blast
  have "nat (ctype - 101) < length type2bm" using assms(2,3) by (simp add: type2bm_eq)
  then obtain bm where bm: "mem_read type2bm (nat (ctype - 101)) = Some bm" by (simp add: mem_read_def)
  let ?ivl = "(iv_ivl v)\<lparr>interval_sign := iv_sign v < 0, interval_type := ctype - 100\<rparr>"
  let ?r = "if bm \<noteq> iv_fields v \<and> \<not> has_field bm SQL_IS_YEAR \<and> \<not> has_field bm SQL_IS_MONTH
    then iso_rebalance True bm (iv_fraction v) (map_option (\<lambda>(_, hf, _). hf) (iv_number v)) ?ivl
    else Some (Inr (?ivl, iv_fields v))"
  obtain r where r: "?r = Some r" using iso_rebalance_release assms(4) by fastforce
  show ?thesis
  proof (cases "iv_state v \<noteq> ST_PERIOD \<and> iv_state v \<noteq> ST_TIME")
    case True
    then show ?thesis using fails [of err_format] by (auto simp: iso_finish_def)
  next
    case False
    then show ?thesis
      using bm r assms fails
      by (cases r) (auto simp: iso_finish_def algebra_simps split: prod.splits simp del: not_None_eq)
  qed
qed

definition folded :: "wstr \<Rightarrow> wstr" where
  "folded = map (\<lambda>c. or c 32)"

lemma iso_letter_needs_number:
  "iv_state v \<noteq> ST_NUMBER \<Longrightarrow> iso_letter c v =
    (if c = 112 \<and> iv_state v = ST_UNINITED then Some (v\<lparr>iv_state := ST_PERIOD\<rparr>)
     else if c = 116 \<and> iv_state v = ST_PERIOD then Some (v\<lparr>iv_state := ST_TIME\<rparr>) else None)"
  by (auto simp: iso_letter_def assign_m_def assign_s_def ASSIGN_FIELD_def)

lemma not_starts_number [simp]: "\<not> starts_number 112" "\<not> starts_number 116"
  by (simp_all add: starts_number_def)

text \<open>The texts after which no number has been read: all but two fail.\<close>

lemma iso_scan_no_number:
  assumes "diag_ok ver d" "0 \<le> prec" "prec < 64" "length wstr < 64"
    and "iso_scan ver prec wstr d iso_vars_start = Some (d', Some v)" "iv_number v = None"
  shows "wstr = [] \<and> iv_state v = ST_UNINITED \<or>
    folded wstr = [112] \<and> v = iso_vars_start\<lparr>iv_state := ST_PERIOD\<rparr> \<or>
    folded wstr = [112, 116] \<and> v = iso_vars_start\<lparr>iv_state := ST_TIME\<rparr>"
proof (cases wstr)
  case Nil
  then show ?thesis using assms(5) by (auto simp: iso_scan.simps iso_vars_start_def)
next
  case (Cons p rest)
  have s1: "iso_scan ver prec rest d (iso_vars_start\<lparr>iv_state := ST_PERIOD\<rparr>) = Some (d', Some v)" "or p 32 = 112"
    using assms(5) Cons by (auto simp: iso_scan.simps iso_letter_needs_number iso_vars_start_def split: if_splits)
  have num: False
    if scanned: "iso_scan ver prec (c # cs) d (iso_vars_start\<lparr>iv_state := st\<rparr>) = Some (d', Some v)"
      and digit: "starts_number (or c 32)" and len: "length (c # cs) < 64" for c cs st
  proof -
    obtain d2 r where n: "parse_iso8601_number ver d prec (c # cs) 0 0 = Some (d2, r)" "diag_ok ver d2"
      using parse_iso8601_number_ok [OF assms(1-3) len] by blast
    then obtain k where k: "r = Some k" using scanned digit
      by (cases r) (simp_all add: iso_scan.simps(2) iso_vars_start_def split: if_splits)
    have "length (num_rest k) < 64"
      using parse_iso8601_number_rest [OF n(1) [unfolded k]] len by simp
    note ok = iso_scan_ok [OF n(2) assms(2,3) this, of "iso_vars_start\<lparr>iv_sign := num_sign k,
        iv_fraction := num_fraction k, iv_number := Some (num_uint k, num_has_fraction k, num_ret k),
        iv_saved := st, iv_state := ST_NUMBER\<rparr>"]
    have "iso_scan ver prec (num_rest k) d2 (iso_vars_start\<lparr>iv_sign := num_sign k,
        iv_fraction := num_fraction k, iv_number := Some (num_uint k, num_has_fraction k, num_ret k),
        iv_saved := st, iv_state := ST_NUMBER\<rparr>) = Some (d', Some v)"
      using scanned digit n(1) k by (simp add: iso_scan.simps(2) iso_vars_start_def split: if_splits)
    then show False using ok assms(6) by (auto simp: iso_vars_start_def simp del: not_None_eq)
  qed
  show ?thesis
  proof (cases rest)
    case Nil
    then show ?thesis using s1 Cons by (simp add: iso_scan.simps folded_def)
  next
    case (Cons t rest')
    have "\<not> starts_number (or t 32)" using num [OF s1(1) [unfolded Cons]] assms(4) Cons \<open>wstr = p # rest\<close> by auto
    then have s2: "iso_scan ver prec rest' d (iso_vars_start\<lparr>iv_state := ST_TIME\<rparr>) = Some (d', Some v)" "or t 32 = 116"
      using s1(1) Cons by (auto simp: iso_scan.simps iso_letter_needs_number iso_vars_start_def split: if_splits)
    show ?thesis
    proof (cases rest')
      case Nil
      then show ?thesis using s1 s2 Cons \<open>wstr = p # rest\<close> by (simp add: iso_scan.simps folded_def)
    next
      case (Cons c cs)
      then show ?thesis
        using s2(1) num [of c cs ST_TIME] assms(4) \<open>wstr = p # rest\<close> \<open>rest = t # rest'\<close>
        by (auto simp: iso_scan.simps(2) iso_letter_needs_number iso_vars_start_def split: if_splits)
    qed
  qed
qed

lemma iso_finish_no_number:
  assumes "iv_number v = None" "iv_fields v = 0" "iv_state v = ST_PERIOD \<or> iv_state v = ST_TIME"
    and "iv_ivl v = zero_interval" "101 \<le> ctype" "ctype \<le> 113"
  shows "iso_finish True ver ctype d v = None"
proof -
  define t where "t = ctype - 100"
  have t: "1 \<le> t" "t \<le> 13" "ctype = t + 100" using assms(5,6) by (simp_all add: t_def)
  show ?thesis
    using type_cases [OF t(1,2)] assms(1-4) unfolding t(3)
    by (elim disjE) (simp_all add: iso_finish_def mem_read_def type2bm_eq iso_rebalance_def interval_secs_def
        ULONG_SAFE_ADD_def zero_interval_def has_field_def field_bit_def day_time_fields_def
        spread_secs_def spread_second_def spread_minute_def spread_hour_def spread_day_def c_assert_def)
qed



end
