(* ===== verification/Ivl_Iso_Roundtrip.thy ===== *)
theory Ivl_Iso_Roundtrip
imports Ivl_Rebalance
begin

text \<open>
  What \<open>print_interval_iso8601\<close> prints, \<open>parse_interval_iso8601\<close> reads back (driver/convert.c): the
  scan of one printed field, of all the fields of a type, and the rebalancing of the fields that were
  zero and so not printed.
\<close>

section \<open>Fields that are in range are those of their sum\<close>

lemma div_parts:
  assumes "s < 60" "m < 60" "n = 3600 * h + 60 * m + (s :: nat)"
  shows "n div 60 = 60 * h + m" "n mod 60 = s" "n div 60 mod 60 = m" "n div 3600 = h"
proof -
  show 1: "n div 60 = 60 * h + m" using assms by (intro div_nat_eqI) simp_all
  show "n div 3600 = h" using assms by (intro div_nat_eqI) simp_all
  show "n div 60 mod 60 = m" using assms(2) by (simp add: 1)
  show "n mod 60 = s" using 1 assms mult_div_mod_eq [of 60 n] by linarith
qed

lemma hour_parts:
  assumes "h < 24" "n = 24 * d + (h :: nat)"
  shows "n div 24 = d" "n mod 24 = h"
  using assms by simp_all

lemma radix_normal:
  assumes "interval_ok lead prec ivl" "day_time (interval_type ivl)"
  shows "radix (span (interval_type ivl)) 0 (total_secs ivl) = unat (year_day ivl)"
    "radix (span (interval_type ivl)) 1 (total_secs ivl) = unat (month_hour ivl)"
    "radix (span (interval_type ivl)) 2 (total_secs ivl) = unat (minute ivl)"
    "radix (span (interval_type ivl)) 3 (total_secs ivl) = unat (second ivl)"
proof -
  define t where "t = interval_type ivl"
  obtain d where d: "unat (year_day ivl) = d" by simp
  obtain h where h: "unat (month_hour ivl) = h" by simp
  obtain m where m: "unat (minute ivl) = m" by simp
  obtain s where s: "unat (second ivl) = s" by simp
  have z: "(x :: u32) = 0 \<longleftrightarrow> unat x = 0" for x by (simp add: unat_eq_0)
  note ok = assms(1) [unfolded interval_ok_def field_ok_def z d h m s, folded t_def]
  have zero: "0 < fst (span t) \<Longrightarrow> d = 0" "1 < fst (span t) \<or> snd (span t) < 1 \<Longrightarrow> h = 0"
      "2 < fst (span t) \<or> snd (span t) < 2 \<Longrightarrow> m = 0" "snd (span t) < 3 \<Longrightarrow> s = 0"
    using ok by (auto split: if_splits)
  have n: "total_secs ivl = s + 60 * m + 3600 * h + 86400 * d" by (simp add: total_secs_def d h m s)
  have "radix (span t) 0 (total_secs ivl) = d \<and> radix (span t) 1 (total_secs ivl) = h \<and>
    radix (span t) 2 (total_secs ivl) = m \<and> radix (span t) 3 (total_secs ivl) = s"
  proof -
    have "t = 3 \<or> t = 8 \<or> t = 9 \<or> t = 10 \<or> t = 4 \<or> t = 11 \<or> t = 12 \<or> t = 5 \<or> t = 13 \<or> t = 6"
      using assms(2) by (auto simp: t_def [symmetric] day_time_def)
    moreover
    { assume t: "t = 3 \<or> t = 8 \<or> t = 9 \<or> t = 10"
      then have lim: "s < 60" "m < 60" "h < 24" using ok by (auto simp: span_def)
      have n': "total_secs ivl = 3600 * (24 * d + h) + 60 * m + s" using n by simp
      have "total_secs ivl div 86400 = total_secs ivl div 3600 div 24" by (simp flip: div_mult2_eq)
      then have "total_secs ivl div 86400 = d" using div_parts(4) [OF lim(1,2) n'] lim(3) by simp
      then have ?thesis
        using t div_parts [OF lim(1,2) n'] lim(3) zero by (elim disjE) (simp_all add: radix_def span_def) }
    moreover
    { assume t: "t = 4 \<or> t = 11 \<or> t = 12"
      then have lim: "s < 60" "m < 60" "d = 0" using ok by (auto simp: span_def)
      have n': "total_secs ivl = 3600 * h + 60 * m + s" using n lim(3) by simp
      have ?thesis
        using t div_parts [OF lim(1,2) n'] lim(3) zero by (elim disjE) (simp_all add: radix_def span_def) }
    moreover
    { assume t: "t = 5 \<or> t = 13"
      then have lim: "s < 60" "d = 0" "h = 0" using ok by (auto simp: span_def)
      have n': "total_secs ivl = 60 * m + s" using n lim(2,3) by simp
      then have "total_secs ivl div 60 = m" "total_secs ivl mod 60 = s" using lim(1) by simp_all
      then have ?thesis
        using t lim(2,3) zero by (elim disjE) (simp_all add: radix_def span_def) }
    moreover
    { assume "t = 6"
      then have ?thesis using zero n by (simp add: radix_def span_def) }
    ultimately show ?thesis by blast
  qed
  then show "radix (span (interval_type ivl)) 0 (total_secs ivl) = unat (year_day ivl)"
    "radix (span (interval_type ivl)) 1 (total_secs ivl) = unat (month_hour ivl)"
    "radix (span (interval_type ivl)) 2 (total_secs ivl) = unat (minute ivl)"
    "radix (span (interval_type ivl)) 3 (total_secs ivl) = unat (second ivl)"
    by (simp_all add: t_def d h m s)
qed

section \<open>The scan of a number\<close>

definition sgn_text :: "bool \<Rightarrow> wstr" where
  "sgn_text neg = (if neg then [45] else [])"

lemma digit_units: "\<forall>d\<in>set ds. d < 10 \<Longrightarrow> ds \<noteq> [] \<Longrightarrow> \<exists>x. hd (dtext ds @ rest) = of_nat x \<and> 48 \<le> x \<and> x < 58"
  using hd_dtext [of ds rest] by (intro exI [of _ "48 + hd ds"]) simp

lemma str2bigint_dtext:
  assumes "ds \<noteq> []" "\<forall>d\<in>set ds. d < 10" "rest = [] \<or> \<not> digit_unit (unat (hd rest))" "dec_from 0 ds < 2 ^ 63"
  shows "str2bigint (WStr (sgn_text neg @ dtext ds @ rest)) False =
    Inr (length (sgn_text neg) + length ds, if neg then - of_nat (dec_from 0 ds) else of_nat (dec_from 0 ds))"
proof -
  let ?v = "of_nat (dec_from 0 ds) :: u64"
  have u: "str2ubigint (WStr (dtext ds @ rest)) False = Inr (length ds, ?v)"
    using assms by (intro str2ubigint_dtext) simp_all
  have small: "\<not> 9223372036854775807 < ?v" "\<not> 9223372036854775808 < ?v"
    using u64_of_nat_less [of 9223372036854775807 "dec_from 0 ds"] u64_of_nat_less [of 9223372036854775808 "dec_from 0 ds"]
      assms(4) by simp_all
  show ?thesis
  proof (cases neg)
    case True
    then show ?thesis using u small assms(1) by (simp add: str2bigint_def sgn_text_def)
  next
    case False
    obtain x where x: "hd (dtext ds @ rest) = of_nat x" "48 \<le> x" "x < 58" using digit_units [OF assms(2,1)] by blast
    then have "unat (of_nat x :: sqlwchar) = x" by (simp add: unat_of_nat)
    moreover obtain c cs where c: "dtext ds @ rest = c # cs" using assms(1) by (cases "dtext ds @ rest") (auto simp: dtext_def)
    ultimately have "unat c \<noteq> 45" "unat c \<noteq> 43" using x by auto
    then show ?thesis using u small False c assms(1) by (simp add: str2bigint_def sgn_text_def)
  qed
qed

definition sign_fits :: "bool \<Rightarrow> int \<Rightarrow> bool" where
  "sign_fits neg s \<longleftrightarrow> (if neg then s \<le> 0 else 0 \<le> s)"

lemma sint_of_int_u64: "- 9223372036854775808 \<le> k \<Longrightarrow> k < 9223372036854775808 \<Longrightarrow> sint (of_int k :: u64) = k"
  by (simp add: signed_of_int signed_take_bit_int_eq_self)

lemma uint_u32: "0 \<le> uint (u :: u32)" "uint u < 4294967296"
  using unat_u32 [of u] by (simp, metis of_nat_less_iff of_nat_numeral uint_nat)

lemma sint_u32: "sint (ucast (u :: u32) :: u64) = uint u"
  unfolding ucast_eq using uint_u32 [of u] by (intro sint_of_int_u64) linarith+

lemma sint_minus_u32: "sint (- ucast (u :: u32) :: u64) = - uint u"
  unfolding ucast_eq of_int_minus [symmetric] using uint_u32 [of u] by (intro sint_of_int_u64) linarith+

lemma iso_number_end_ok:
  assumes "sign_fits neg s" "neg \<Longrightarrow> u \<noteq> 0"
  shows "iso_number_end (if neg then - of_nat (unat u) else of_nat (unat u)) s fr has_fr rest ret =
    Some \<lparr>num_uint = u, num_sign = s + (if neg then - 1 else 1), num_fraction = fr,
      num_has_fraction = has_fr, num_rest = rest, num_ret = ret\<rparr>"
proof -
  have cast: "ucast (of_nat (unat u) :: u64) = u"
    by (rule bit_word_eqI) (simp add: bit_ucast_iff)
  have max: "sint ULONG_MAX = 4294967295" by (simp add: ULONG_MAX_def)
  show ?thesis
  proof (cases neg)
    case True
    then have "0 < uint u" using assms(2) uint_u32(1) [of u] by (simp add: order_less_le uint_0_iff)
    then show ?thesis using True assms(1) cast max uint_u32(2) [of u]
      by (simp add: iso_number_end_def Let_def sint_minus_u32 sint_u32 sign_fits_def)
  next
    case False
    then show ?thesis using assms(1) cast max uint_u32 [of u]
      by (simp add: iso_number_end_def Let_def sint_u32 sign_fits_def)
  qed
qed

lemma whole_number_scanned:
  assumes "sign_fits neg s" "neg \<Longrightarrow> u \<noteq> 0" "\<not> digit_unit (unat c)" "c \<noteq> 46"
  shows "parse_iso8601_number ver d prec (sgn_text neg @ udigits u @ c # rest) s fr =
    Some (d, Some \<lparr>num_uint = u, num_sign = s + (if neg then - 1 else 1), num_fraction = fr,
      num_has_fraction = False, num_rest = c # rest, num_ret = SQL_SUCCESS\<rparr>)"
proof -
  have "dec_from 0 (dec_digits (unat u)) < 2 ^ 63" using dec_u32 [of u] by simp
  then have "str2bigint (WStr (sgn_text neg @ udigits u @ c # rest)) False =
      Inr (length (sgn_text neg) + ulen u, if neg then - of_nat (unat u) else of_nat (unat u))"
    using str2bigint_dtext [of "dec_digits (unat u)" "c # rest" neg] assms(3)
    by (simp add: dec_digits_small dec_digits_value)
  then show ?thesis
    using iso_number_end_ok [OF assms(1,2)] assms(4)
    by (simp add: parse_iso8601_number_def nth_append)
qed

lemma fraction_number_scanned:
  assumes "sign_fits neg s" "neg \<Longrightarrow> u \<noteq> 0" and d: "diag_ok ver d"
    and p: "0 < p" "p \<le> 9" "unat (f :: u32) < 10 ^ p" and c: "\<not> digit_unit (unat c)"
  shows "parse_iso8601_number ver d (int p)
      (sgn_text neg @ udigits u @ 46 # dtext (fraction_digits p (unat f)) @ c # rest) s fr =
    Some (posted ver d SQL_STATE_01S07 (default_message SQL_STATE_01S07),
      Some \<lparr>num_uint = u, num_sign = s + (if neg then - 1 else 1), num_fraction = f,
        num_has_fraction = True, num_rest = c # rest, num_ret = SQL_SUCCESS_WITH_INFO\<rparr>)"
proof -
  note fd = fraction_digits_facts [OF p(3,1)]
  let ?rest = "46 # dtext (fraction_digits p (unat f)) @ c # rest"
  have "dec_from 0 (dec_digits (unat u)) < 2 ^ 63" using dec_u32 [of u] by simp
  then have 1: "str2bigint (WStr (sgn_text neg @ udigits u @ ?rest)) False =
      Inr (length (sgn_text neg) + ulen u, if neg then - of_nat (unat u) else of_nat (unat u))"
    using str2bigint_dtext [of "dec_digits (unat u)" ?rest neg]
    by (simp add: dec_digits_small dec_digits_value digit_unit_def)
  have fr: "unat f < 2 ^ 64" using unat_u32 [of f] by simp
  have 2: "str2ubigint (WStr (dtext (fraction_digits p (unat f)) @ c # rest)) False = Inr (p, of_nat (unat f))"
    using str2ubigint_dtext [of "fraction_digits p (unat f)" "c # rest"] fd c fr by simp
  have "to_i16 (int p) = int p" using p(2) by (intro to_i16_id) simp_all
  moreover have "state_retcode (esodbc_errors ! SQL_STATE_01S07) = SQL_SUCCESS_WITH_INFO" by code_simp
  ultimately have 3: "adjust_to_precision ver d (int p) (ucast f) (to_i16 (int p)) =
      Some (posted ver d SQL_STATE_01S07 (default_message SQL_STATE_01S07), SQL_SUCCESS_WITH_INFO, ucast f)"
    using d by (simp add: adjust_to_precision_def pow10_eq RET_HDIAGS_ok [simplified])
  have small: "\<not> ULONG_MAX < ucast f"
    using unat_u32 [of f] by (simp add: ULONG_MAX_def word_less_nat_alt unsigned_ucast_eq take_bit_nat_eq_self)
  have recast: "(ucast (ucast f :: u64) :: u32) = f" by (rule bit_word_eqI) (simp add: bit_ucast_iff)
  have at: "(sgn_text neg @ udigits u @ ?rest) ! (length (sgn_text neg) + ulen u) = 46"
    by (simp add: nth_append)
  have dropped: "drop (Suc (length (sgn_text neg) + ulen u)) (sgn_text neg @ udigits u @ ?rest) =
      dtext (fraction_digits p (unat f)) @ c # rest"
    "drop (Suc (length (sgn_text neg) + ulen u + p)) (sgn_text neg @ udigits u @ ?rest) = c # rest"
    using fd(1) by simp_all
  show ?thesis
    using 1 2 3 small recast iso_number_end_ok [OF assms(1,2)] at dropped
    by (simp add: parse_iso8601_number_def Let_def fd(1))
qed

section \<open>The scan of a field\<close>

lemma starts_number_text: "starts_number (or (hd (sgn_text neg @ udigits u @ rest)) 32)"
proof (cases neg)
  case False
  obtain x where x: "hd (dtext (dec_digits (unat u)) @ rest) = of_nat x" "48 \<le> x" "x < 58"
    using digit_units [of "dec_digits (unat u)" rest] dec_digits_small by fastforce
  then have "x = 48 \<or> x = 49 \<or> x = 50 \<or> x = 51 \<or> x = 52 \<or> x = 53 \<or> x = 54 \<or> x = 55 \<or> x = 56 \<or> x = 57"
    by presburger
  then show ?thesis using False x(1) by (auto simp: sgn_text_def starts_number_def)
qed (simp add: sgn_text_def starts_number_def)

text \<open>The variables after a field: its number, and what the letter stores.\<close>

definition numbered :: "bool \<Rightarrow> u32 \<Rightarrow> u32 \<Rightarrow> bool \<Rightarrow> sqlreturn \<Rightarrow> iso_vars \<Rightarrow> iso_vars" where
  "numbered neg u fr has_fr ret v =
    v\<lparr>iv_sign := iv_sign v + (if neg then - 1 else 1), iv_fraction := fr, iv_number := Some (u, has_fr, ret),
      iv_saved := iv_state v, iv_state := ST_NUMBER\<rparr>"

lemma scan_number:
  assumes "parse_iso8601_number ver d prec cs (iv_sign v) (iv_fraction v) = Some (d', Some n)"
    and "starts_number (or (hd cs) 32)" "cs \<noteq> []" "iv_state v = ST_PERIOD \<or> iv_state v = ST_TIME"
  shows "iso_scan ver prec cs d v = iso_scan ver prec (num_rest n) d'
    (v\<lparr>iv_sign := num_sign n, iv_fraction := num_fraction n,
       iv_number := Some (num_uint n, num_has_fraction n, num_ret n), iv_saved := iv_state v, iv_state := ST_NUMBER\<rparr>)"
  using assms by (cases cs) (simp_all add: iso_scan.simps(2))

lemma scan_letter:
  "\<not> starts_number (or c 32) \<Longrightarrow> iso_letter (or c 32) v = Some v' \<Longrightarrow>
    iso_scan ver prec (c # rest) d v = iso_scan ver prec rest d v'"
  by (simp add: iso_scan.simps(2))

lemma scan_field:
  assumes "sign_fits neg (iv_sign v)" "neg \<Longrightarrow> u \<noteq> 0" "iv_state v = ST_PERIOD \<or> iv_state v = ST_TIME"
    and "c \<in> {68, 72, 77, 83, 89}"
    and "iso_letter (or c 32) (numbered neg u (iv_fraction v) False SQL_SUCCESS v) = Some v'"
  shows "iso_scan ver prec (sgn_text neg @ udigits u @ c # rest) d v = iso_scan ver prec rest d v'"
proof -
  have c: "\<not> digit_unit (unat c)" "c \<noteq> 46" "\<not> starts_number (or c 32)"
    using assms(4) by (auto simp: digit_unit_def starts_number_def)
  have "iso_scan ver prec (sgn_text neg @ udigits u @ c # rest) d v =
      iso_scan ver prec (c # rest) d (numbered neg u (iv_fraction v) False SQL_SUCCESS v)"
    using scan_number [OF whole_number_scanned [OF assms(1) assms(2) c(1,2)] starts_number_text _ assms(3)]
    by (simp add: numbered_def)
  then show ?thesis using scan_letter [OF c(3) assms(5)] by simp
qed

lemma scan_T:
  "iv_state v = ST_PERIOD \<Longrightarrow> iso_scan ver prec (84 # rest) d v = iso_scan ver prec rest d (v\<lparr>iv_state := ST_TIME\<rparr>)"
  by (rule scan_letter) (simp_all add: starts_number_def iso_letter_def)

text \<open>The variables after a field, zero or not; \<open>t\<close> is the field, \<open>st\<close> the part of the text it is in.\<close>

definition put_field ::
    "int \<Rightarrow> (u32 \<Rightarrow> SQL_INTERVAL_STRUCT \<Rightarrow> SQL_INTERVAL_STRUCT) \<Rightarrow> iso_state \<Rightarrow> bool \<Rightarrow> u32 \<Rightarrow> iso_vars \<Rightarrow> iso_vars" where
  "put_field t f st neg u v =
    (if u = 0 then v
     else v\<lparr>iv_ivl := f u (iv_ivl v), iv_sign := iv_sign v + (if neg then - 1 else 1),
       iv_fields := or (iv_fields v) (field_bit t), iv_number := Some (u, False, SQL_SUCCESS),
       iv_saved := st, iv_state := st\<rparr>)"

lemma ASSIGN_FIELD_put:
  assumes "iv_state v = st" "and (field_bit t) (iv_fields v) = 0" "u \<noteq> 0"
  shows "ASSIGN_FIELD st t f (numbered neg u (iv_fraction v) False SQL_SUCCESS v) = Some (put_field t f st neg u v)"
  using assms by (simp add: ASSIGN_FIELD_def numbered_def put_field_def SET_BITMASK_OR_ERR_def)

abbreviation part :: "bool \<Rightarrow> iso_state" where "part t_added \<equiv> if t_added then ST_TIME else ST_PERIOD"

text \<open>One call of \<open>PRINT_FIELD\<close> and the scan of what it appends.\<close>

lemma PRINT_FIELD_scanned:
  assumes "sign_fits neg (iv_sign v)" "iv_state v = part t_added" "t_added \<longrightarrow> is_time"
    and "q \<in> {68, 72, 77, 83, 89}" "and (field_bit t) (iv_fields v) = 0"
    and letter: "\<And>w. u \<noteq> 0 \<Longrightarrow> iv_state w = ST_NUMBER \<Longrightarrow> iv_saved w = part is_time \<Longrightarrow>
      (\<exists>n ret. iv_number w = Some (n, False, ret)) \<Longrightarrow>
      iso_letter (or (of_nat q) 32) w = ASSIGN_FIELD (part is_time) t f w"
    and "PRINT_FIELD neg u q is_time (out, t_added) = (out', t_added')"
  shows "\<exists>piece. out' = out @ piece \<and> (piece = [] \<longleftrightarrow> u = 0) \<and>
    t_added' = (t_added \<or> is_time \<and> u \<noteq> 0) \<and>
    iso_scan ver prec (map of_nat piece @ rest) d v = iso_scan ver prec rest d (put_field t f (part is_time) neg u v)"
proof (cases "u = 0")
  case True
  then show ?thesis using assms(7) by (auto simp: PRINT_FIELD_def put_field_def)
next
  case False
  let ?v = "if is_time \<and> \<not> t_added then v\<lparr>iv_state := ST_TIME\<rparr> else v"
  have st: "iv_state ?v = part is_time" using assms(2,3) by auto
  have same: "put_field t f (part is_time) neg u ?v = put_field t f (part is_time) neg u v"
    using False by (simp add: put_field_def)
  have "iso_letter (or (of_nat q) 32) (numbered neg u (iv_fraction ?v) False SQL_SUCCESS ?v) =
      Some (put_field t f (part is_time) neg u v)"
    using letter [OF False, of "numbered neg u (iv_fraction ?v) False SQL_SUCCESS ?v"]
      ASSIGN_FIELD_put [of ?v "part is_time" t u f neg] assms(5) st False same
    by (simp add: numbered_def)
  moreover have "(of_nat q :: sqlwchar) \<in> {68, 72, 77, 83, 89}" using assms(4) by auto
  ultimately have "iso_scan ver prec (sgn_text neg @ udigits u @ of_nat q # rest) d ?v =
      iso_scan ver prec rest d (put_field t f (part is_time) neg u v)"
    using assms(1) st False by (intro scan_field) auto
  then show ?thesis
    using assms(2,7) False scan_T [of v ver prec _ d]
    by (auto simp: PRINT_FIELD_def sgn_text_def print_u32_text)
qed

definition put_seconds :: "bool \<Rightarrow> SQL_INTERVAL_STRUCT \<Rightarrow> iso_vars \<Rightarrow> iso_vars" where
  "put_seconds neg ivl v =
    (if second ivl = 0 \<and> fraction ivl = 0 then v
     else v\<lparr>iv_ivl := (iv_ivl v)\<lparr>second := second ivl,
         fraction := if fraction ivl = 0 then fraction (iv_ivl v) else fraction ivl\<rparr>,
       iv_sign := iv_sign v + (if neg then - 1 else 1),
       iv_fields := or (iv_fields v) (field_bit SQL_IS_SECOND),
       iv_fraction := if fraction ivl = 0 then iv_fraction v else fraction ivl,
       iv_number := Some (second ivl, fraction ivl \<noteq> 0,
         if fraction ivl = 0 then SQL_SUCCESS else SQL_SUCCESS_WITH_INFO),
       iv_saved := ST_TIME, iv_state := ST_TIME\<rparr>)"

lemma letter_s: "iso_letter 115 w = assign_s w"
  by (simp add: iso_letter_def)

lemma scan_seconds:
  assumes "sign_fits neg (iv_sign v)" "iv_state v = ST_TIME" "and (field_bit SQL_IS_SECOND) (iv_fields v) = 0"
    and "diag_ok ver d" "0 \<le> prec" "prec \<le> 9" "unat (fraction ivl) < 10 ^ nat prec"
    and "neg \<Longrightarrow> second ivl \<noteq> 0" "second ivl \<noteq> 0 \<or> fraction ivl \<noteq> 0"
  shows "iso_scan ver prec (sgn_text neg @ seconds_text prec ivl @ 83 # rest) d v =
    iso_scan ver prec rest (after_fraction ver d ivl) (put_seconds neg ivl v)"
proof (cases "fraction ivl = 0")
  case True
  have "iso_letter (or 83 32) (numbered neg (second ivl) (iv_fraction v) False SQL_SUCCESS v) = Some (put_seconds neg ivl v)"
    using assms(2,3,9) True ASSIGN_FIELD_put [of v ST_TIME SQL_IS_SECOND "second ivl" _ neg]
    by (simp add: letter_s assign_s_def put_field_def put_seconds_def)
  then show ?thesis
    using assms(1,2,9) True scan_field [of neg v "second ivl" 83]
    by (simp add: seconds_text_def after_fraction_def)
next
  case False
  define p where "p = nat prec"
  have "prec \<noteq> 0" using assms(7) False by (auto simp: unat_eq_0)
  then have p: "prec = int p" "0 < p" "p \<le> 9" "unat (fraction ivl) < 10 ^ p"
    using assms(5-7) by (simp_all add: p_def)
  have s: "seconds_text prec ivl = udigits (second ivl) @ 46 # dtext (fraction_digits p (unat (fraction ivl)))"
    using False by (simp add: seconds_text_def p_def)
  let ?w = "numbered neg (second ivl) (fraction ivl) True SQL_SUCCESS_WITH_INFO v"
  have "iso_scan ver prec (sgn_text neg @ seconds_text prec ivl @ 83 # rest) d v =
      iso_scan ver prec (83 # rest) (after_fraction ver d ivl) ?w"
    using scan_number [OF fraction_number_scanned [OF assms(1,8,4) p(2-4), of 83 rest "iv_fraction v"],
        OF _ _ _ _ disjI2 [OF assms(2)]]
      starts_number_text [of neg "second ivl" "46 # dtext (fraction_digits p (unat (fraction ivl))) @ 83 # rest"]
      False by (cases neg) (simp_all add: s [unfolded p(1)] p(1) numbered_def after_fraction_def digit_unit_def)
  also have "\<dots> = iso_scan ver prec rest (after_fraction ver d ivl) (put_seconds neg ivl v)"
    using assms(2,3,9) False
    by (intro scan_letter) (simp_all add: starts_number_def letter_s assign_s_def ASSIGN_FIELD_def numbered_def
        SET_BITMASK_OR_ERR_def put_seconds_def)
  finally show ?thesis .
qed

lemma print_iso_seconds_scanned:
  assumes "sign_fits neg (iv_sign v)" "iv_state v = part t_added" "and (field_bit SQL_IS_SECOND) (iv_fields v) = 0"
    and "diag_ok ver d" "0 \<le> prec" "prec \<le> 9" "unat (fraction ivl) < 10 ^ nat prec"
    and "interval_sign ivl \<Longrightarrow> fraction ivl \<noteq> 0 \<Longrightarrow> second ivl \<noteq> 0" "unat (second ivl) \<le> 8388606"
    and "print_iso_seconds prec ivl (out, t_added) = Some out'" "neg = interval_sign ivl"
  shows "\<exists>piece. out' = out @ piece \<and> (piece = [] \<longleftrightarrow> second ivl = 0 \<and> fraction ivl = 0) \<and>
    iso_scan ver prec (map of_nat piece @ rest) d v =
      iso_scan ver prec rest (after_fraction ver d ivl) (put_seconds neg ivl v)"
proof (cases "second ivl = 0 \<and> fraction ivl = 0")
  case True
  then show ?thesis using assms(10) by (simp add: print_iso_seconds_def put_seconds_def after_fraction_def)
next
  case False
  obtain s where s: "print_interval_sec prec ivl = Some s" "map of_nat s = seconds_text prec ivl"
    using print_seconds_text [OF assms(5-7,9)] by blast
  let ?v = "if t_added then v else v\<lparr>iv_state := ST_TIME\<rparr>"
  have "iso_scan ver prec (sgn_text neg @ seconds_text prec ivl @ 83 # rest) d ?v =
      iso_scan ver prec rest (after_fraction ver d ivl) (put_seconds neg ivl ?v)"
    using assms(1-9,11) False by (intro scan_seconds) auto
  moreover have "put_seconds neg ivl ?v = put_seconds neg ivl v"
    using False by (cases "second ivl = 0") (simp_all add: put_seconds_def)
  ultimately have "iso_scan ver prec ((if t_added then [] else [84]) @ sgn_text neg @ seconds_text prec ivl @ 83 # rest) d v =
      iso_scan ver prec rest (after_fraction ver d ivl) (put_seconds neg ivl v)"
    using assms(2) scan_T [of v] by auto
  then show ?thesis
    using assms(10,11) False s
    by (auto simp: print_iso_seconds_def or_eq_0_iff sgn_text_def)
qed

section \<open>The end of the parse\<close>

lemma finish_day_time:
  assumes ok: "interval_ok lead prec ivl" and t: "day_time (interval_type ivl)" and total: "total_secs ivl < 4294967296"
    and v: "iv_ivl v = ivl\<lparr>interval_type := 0, interval_sign := False\<rparr>" "(iv_sign v < 0) = interval_sign ivl"
      "iv_fraction v = fraction ivl" "iv_number v = Some (n, fraction ivl \<noteq> 0, ret)"
      "iv_state v = ST_PERIOD \<or> iv_state v = ST_TIME"
  shows "iso_finish True ver (interval_type ivl + 100) d v = Some (d, ret, ivl)"
proof -
  let ?t = "interval_type ivl" and ?bm = "type2bm ! nat (interval_type ivl - 1)"
  have range: "1 \<le> ?t" "?t \<le> 13" using ok by (simp_all add: interval_ok_def)
  then have bm: "mem_read type2bm (nat (?t - 1)) = Some ?bm" by (simp add: mem_read_def type2bm_eq)
  have nodate: "\<not> has_field ?bm SQL_IS_YEAR" "\<not> has_field ?bm SQL_IS_MONTH" "and (not ?bm) (day_time_fields ?bm) = 0"
    using t by (auto simp: day_time_def type2bm_eq has_field_def field_bit_def day_time_fields_def)
  have set: "(iv_ivl v)\<lparr>interval_sign := iv_sign v < 0, interval_type := ?t\<rparr> = ivl" using v(1,2) by simp
  have fr: "3 \<le> snd (span ?t) \<or> Some (fraction ivl \<noteq> 0) = Some False"
    using t ok by (auto simp: day_time_def interval_ok_def span_def)
  obtain ivl' where ivl': "iso_rebalance True ?bm (fraction ivl) (Some (fraction ivl \<noteq> 0)) ivl =
      Some (Inr (ivl', day_time_fields ?bm))" "spread_ok (span ?t) (total_secs ivl) (emptied (fraction ivl) ivl) ivl'"
    using rebalance_day_time [OF t total fr] by blast
  have "ivl' = ivl"
    using ivl'(2) radix_normal [OF ok t]
    by (intro SQL_INTERVAL_STRUCT.equality) (simp_all add: spread_ok_def emptied_def flip: word_unat_eq_iff)
  with ivl'(1) show ?thesis
    using bm nodate set v(3-5) range
    by (cases "?bm = iv_fields v") (auto simp: iso_finish_def)
qed

lemma finish_year_month:
  assumes "interval_type ivl \<in> {1, 2, 7}" "and (not (type2bm ! nat (interval_type ivl - 1))) (iv_fields v) = 0"
    and "iv_ivl v = ivl\<lparr>interval_type := 0, interval_sign := False\<rparr>" "(iv_sign v < 0) = interval_sign ivl"
      "iv_number v = Some (n, hf, ret)" "iv_state v = ST_PERIOD \<or> iv_state v = ST_TIME"
  shows "iso_finish True ver (interval_type ivl + 100) d v = Some (d, ret, ivl)"
proof -
  let ?t = "interval_type ivl" and ?bm = "type2bm ! nat (interval_type ivl - 1)"
  have range: "1 \<le> ?t" "?t \<le> 13" using assms(1) by auto
  then have bm: "mem_read type2bm (nat (?t - 1)) = Some ?bm" by (simp add: mem_read_def type2bm_eq)
  have date: "has_field ?bm SQL_IS_YEAR \<or> has_field ?bm SQL_IS_MONTH"
    using assms(1) by (auto simp: type2bm_eq has_field_def field_bit_def)
  have "(iv_ivl v)\<lparr>interval_sign := iv_sign v < 0, interval_type := ?t\<rparr> = ivl" using assms(3,4) by simp
  then show ?thesis
    using bm date assms(2,5,6) range by (auto simp: iso_finish_def)
qed

section \<open>All the fields\<close>

abbreviation after_P :: iso_vars where "after_P \<equiv> iso_vars_start\<lparr>iv_state := ST_PERIOD\<rparr>"

lemma scan_P: "iso_scan ver prec (80 # rest) d iso_vars_start = iso_scan ver prec rest d after_P"
  by (rule scan_letter) (simp_all add: starts_number_def iso_letter_def iso_vars_start_def)

lemma sign_fits_put: "sign_fits neg (iv_sign v) \<Longrightarrow> sign_fits neg (iv_sign (put_field t f st neg u v))"
  by (auto simp: sign_fits_def put_field_def)

lemma put_field_bits:
  "iv_fields (put_field t f st neg u v) = or (iv_fields v) (if u = 0 then 0 else field_bit t)"
  by (simp add: put_field_def)

lemma put_field_state:
  "iv_state v = part t_added \<Longrightarrow> iv_state (put_field t f (part is_time) neg u v) = part (t_added \<or> is_time \<and> u \<noteq> 0)
    \<or> \<not> (t_added \<longrightarrow> is_time)"
  by (auto simp: put_field_def)

definition day_time_vars :: "SQL_INTERVAL_STRUCT \<Rightarrow> iso_vars" where
  "day_time_vars ivl = (let neg = interval_sign ivl in
     put_seconds neg ivl
      (put_field SQL_IS_MINUTE (\<lambda>u. minute_update (\<lambda>_. u)) ST_TIME neg (minute ivl)
        (put_field SQL_IS_HOUR (\<lambda>u. month_hour_update (\<lambda>_. u)) ST_TIME neg (month_hour ivl)
          (put_field SQL_IS_DAY (\<lambda>u. year_day_update (\<lambda>_. u)) ST_PERIOD neg (year_day ivl) after_P))))"

definition some_time :: "SQL_INTERVAL_STRUCT \<Rightarrow> bool" where
  "some_time ivl \<longleftrightarrow> year_day ivl \<noteq> 0 \<or> month_hour ivl \<noteq> 0 \<or> minute ivl \<noteq> 0 \<or> second ivl \<noteq> 0 \<or> fraction ivl \<noteq> 0"

lemma day_time_vars_facts:
  assumes "some_time ivl"
  shows "iv_ivl (day_time_vars ivl) = ivl\<lparr>interval_type := 0, interval_sign := False\<rparr>"
    "(iv_sign (day_time_vars ivl) < 0) = interval_sign ivl"
    "iv_fraction (day_time_vars ivl) = fraction ivl"
    "\<exists>n. iv_number (day_time_vars ivl) =
      Some (n, fraction ivl \<noteq> 0, if fraction ivl = 0 then SQL_SUCCESS else SQL_SUCCESS_WITH_INFO)"
    "iv_state (day_time_vars ivl) = ST_PERIOD \<or> iv_state (day_time_vars ivl) = ST_TIME"
proof -
  show "iv_ivl (day_time_vars ivl) = ivl\<lparr>interval_type := 0, interval_sign := False\<rparr>"
    by (intro SQL_INTERVAL_STRUCT.equality)
      (simp_all add: day_time_vars_def Let_def put_seconds_def put_field_def iso_vars_start_def zero_interval_def)
  show "(iv_sign (day_time_vars ivl) < 0) = interval_sign ivl"
    using assms by (simp add: some_time_def day_time_vars_def Let_def put_seconds_def put_field_def iso_vars_start_def)
  show "iv_fraction (day_time_vars ivl) = fraction ivl"
    by (simp add: day_time_vars_def Let_def put_seconds_def put_field_def iso_vars_start_def)
  show "\<exists>n. iv_number (day_time_vars ivl) =
      Some (n, fraction ivl \<noteq> 0, if fraction ivl = 0 then SQL_SUCCESS else SQL_SUCCESS_WITH_INFO)"
    using assms by (simp add: some_time_def day_time_vars_def Let_def put_seconds_def put_field_def iso_vars_start_def)
  show "iv_state (day_time_vars ivl) = ST_PERIOD \<or> iv_state (day_time_vars ivl) = ST_TIME"
    by (simp add: day_time_vars_def Let_def put_seconds_def put_field_def iso_vars_start_def)
qed

lemma day_time_scanned:
  assumes ok: "interval_ok lead prec ivl" and t: "day_time (interval_type ivl)" and d: "diag_ok ver d"
    and sgn: "interval_sign ivl \<Longrightarrow> fraction ivl \<noteq> 0 \<Longrightarrow> second ivl \<noteq> 0" and some: "some_time ivl"
    and shown: "print_interval_iso8601 prec ivl = Some (Some out)"
  shows "iso_scan ver prec (map of_nat out) d iso_vars_start =
    Some (after_fraction ver d ivl, Some (day_time_vars ivl))"
proof -
  let ?neg = "interval_sign ivl"
  obtain o1 t1 where 1: "PRINT_FIELD ?neg (year_day ivl) 68 False ([80], False) = (o1, t1)" by fastforce
  obtain o2 t2 where 2: "PRINT_FIELD ?neg (month_hour ivl) 72 True (o1, t1) = (o2, t2)" by fastforce
  obtain o3 t3 where 3: "PRINT_FIELD ?neg (minute ivl) 77 True (o2, t2) = (o3, t3)" by fastforce
  have range: "SQL_IS_DAY \<le> interval_type ivl" "interval_type ivl \<le> SQL_IS_MINUTE_TO_SECOND"
      "interval_type ivl \<noteq> SQL_IS_YEAR_TO_MONTH"
    using t by (auto simp: day_time_def)
  have ok2: "0 \<le> prec" "prec \<le> 9" "unat (fraction ivl) < 10 ^ nat prec" "unat (second ivl) \<le> 8388606"
    using ok by (auto simp: interval_ok_def split: if_splits)
  obtain o4 where 4: "print_iso_seconds prec ivl (o3, t3) = Some o4" and
    out: "out = (if length o4 \<le> 1 then o4 @ [84, 48, 83] else o4)"
    using shown range by (cases "print_iso_seconds prec ivl (o3, t3)") (auto simp: print_interval_iso8601_def Let_def 1 2 3)
  define v1 where "v1 = put_field SQL_IS_DAY (\<lambda>u. year_day_update (\<lambda>_. u)) (part False) ?neg (year_day ivl) after_P"
  define v2 where "v2 = put_field SQL_IS_HOUR (\<lambda>u. month_hour_update (\<lambda>_. u)) (part True) ?neg (month_hour ivl) v1"
  define v3 where "v3 = put_field SQL_IS_MINUTE (\<lambda>u. minute_update (\<lambda>_. u)) (part True) ?neg (minute ivl) v2"
  have final: "put_seconds ?neg ivl v3 = day_time_vars ivl"
    by (simp add: day_time_vars_def Let_def v1_def v2_def v3_def)
  have base: "sign_fits ?neg (iv_sign after_P)" by (simp add: iso_vars_start_def sign_fits_def)
  then have fits: "sign_fits ?neg (iv_sign after_P)" "sign_fits ?neg (iv_sign v1)" "sign_fits ?neg (iv_sign v2)"
      "sign_fits ?neg (iv_sign v3)"
    unfolding v1_def v2_def v3_def using base by (simp_all only: sign_fits_put)
  have bits: "and (field_bit SQL_IS_DAY) (iv_fields after_P) = 0" "and (field_bit SQL_IS_HOUR) (iv_fields v1) = 0"
      "and (field_bit SQL_IS_MINUTE) (iv_fields v2) = 0" "and (field_bit SQL_IS_SECOND) (iv_fields v3) = 0"
    by (simp_all add: v1_def v2_def v3_def put_field_bits iso_vars_start_def field_bit_def)
  have "\<exists>p. o1 = [80] @ p \<and> (p = [] \<longleftrightarrow> year_day ivl = 0) \<and> t1 = (False \<or> False \<and> year_day ivl \<noteq> 0) \<and>
      iso_scan ver prec (map of_nat p @ rest) d after_P = iso_scan ver prec rest d v1" for rest d
    unfolding v1_def using fits(1) bits(1) 1
    by (intro PRINT_FIELD_scanned) (simp_all add: iso_vars_start_def iso_letter_def)
  then obtain p1 where p1: "o1 = [80] @ p1" "p1 = [] \<longleftrightarrow> year_day ivl = 0" "\<not> t1"
      "\<And>rest d. iso_scan ver prec (map of_nat p1 @ rest) d after_P = iso_scan ver prec rest d v1"
    by (metis same_append_eq)
  have s1: "iv_state v1 = part t1" using p1(3) by (simp add: v1_def put_field_def iso_vars_start_def)
  have "\<exists>p. o2 = o1 @ p \<and> (p = [] \<longleftrightarrow> month_hour ivl = 0) \<and> t2 = (t1 \<or> True \<and> month_hour ivl \<noteq> 0) \<and>
      iso_scan ver prec (map of_nat p @ rest) d v1 = iso_scan ver prec rest d v2" for rest d
    unfolding v2_def using fits(2) bits(2) 2 s1
    by (intro PRINT_FIELD_scanned) (simp_all add: iso_letter_def)
  then obtain p2 where p2: "o2 = o1 @ p2" "p2 = [] \<longleftrightarrow> month_hour ivl = 0" "t2 = (t1 \<or> month_hour ivl \<noteq> 0)"
      "\<And>rest d. iso_scan ver prec (map of_nat p2 @ rest) d v1 = iso_scan ver prec rest d v2"
    by (metis same_append_eq)
  have s2: "iv_state v2 = part t2" using p2(3) s1 by (simp add: v2_def put_field_def)
  have "\<exists>p. o3 = o2 @ p \<and> (p = [] \<longleftrightarrow> minute ivl = 0) \<and> t3 = (t2 \<or> True \<and> minute ivl \<noteq> 0) \<and>
      iso_scan ver prec (map of_nat p @ rest) d v2 = iso_scan ver prec rest d v3" for rest d
    unfolding v3_def using fits(3) bits(3) 3 s2
    by (intro PRINT_FIELD_scanned) (simp_all add: iso_letter_def assign_m_def)
  then obtain p3 where p3: "o3 = o2 @ p3" "p3 = [] \<longleftrightarrow> minute ivl = 0" "t3 = (t2 \<or> minute ivl \<noteq> 0)"
      "\<And>rest d. iso_scan ver prec (map of_nat p3 @ rest) d v2 = iso_scan ver prec rest d v3"
    by (metis same_append_eq)
  have s3: "iv_state v3 = part t3" using p3(3) s2 by (simp add: v3_def put_field_def)
  obtain p4 where p4: "o4 = o3 @ p4" "p4 = [] \<longleftrightarrow> second ivl = 0 \<and> fraction ivl = 0"
      "iso_scan ver prec (map of_nat p4 @ []) d v3 = iso_scan ver prec [] (after_fraction ver d ivl) (day_time_vars ivl)"
    using print_iso_seconds_scanned [OF fits(4) s3 bits(4) d ok2(1-3) sgn ok2(4) 4 refl, of "[]"] final by auto
  have "p1 @ p2 @ p3 @ p4 \<noteq> []" using some p1(2) p2(2) p3(2) p4(2) by (auto simp: some_time_def)
  then have "out = 80 # p1 @ p2 @ p3 @ p4"
    using out p1(1) p2(1) p3(1) p4(1) by (auto simp: Suc_le_eq)
  then show ?thesis
    using p1(4) [of "map of_nat (p2 @ p3 @ p4)" d] p2(4) [of "map of_nat (p3 @ p4)" d] p3(4) [of "map of_nat p4" d] p4(3)
    by (simp add: scan_P iso_scan.simps(1))
qed

lemma zero_day_time_parsed:
  assumes ok: "interval_ok lead prec ivl" and t: "day_time (interval_type ivl)"
    and zero: "\<not> some_time ivl" "\<not> interval_sign ivl"
    and shown: "print_interval_iso8601 prec ivl = Some (Some out)"
  shows "parse_interval_iso8601 True ver prec (interval_type ivl + 100) (map of_nat out) d = Some (d, SQL_SUCCESS, ivl)"
proof -
  have out: "out = [80, 84, 48, 83]"
    using shown zero t by (auto simp: some_time_def print_interval_iso8601_def PRINT_FIELD_def print_iso_seconds_def day_time_def)
  let ?v = "numbered False 0 0 False SQL_SUCCESS (after_P\<lparr>iv_state := ST_TIME\<rparr>)"
  let ?v' = "?v\<lparr>iv_fields := field_bit SQL_IS_SECOND, iv_state := ST_TIME\<rparr>"
  have "iso_letter (or 83 32) ?v = Some ?v'"
    by (simp add: letter_s assign_s_def ASSIGN_FIELD_def numbered_def SET_BITMASK_OR_ERR_def iso_vars_start_def
        zero_interval_def)
  then have "iso_scan ver prec (sgn_text False @ udigits 0 @ 83 # []) d (after_P\<lparr>iv_state := ST_TIME\<rparr>) =
      iso_scan ver prec [] d ?v'"
    by (intro scan_field) (simp_all add: sign_fits_def iso_vars_start_def)
  then have scanned: "iso_scan ver prec (map of_nat out) d iso_vars_start = Some (d, Some ?v')"
    using scan_T [of after_P ver prec "[48, 83]" d]
    by (simp add: out scan_P iso_scan.simps(1) sgn_text_def dtext_def dec_digits.simps) 
  have "total_secs ivl < 4294967296" using zero by (simp add: total_secs_def some_time_def)
  moreover have "iv_ivl ?v' = ivl\<lparr>interval_type := 0, interval_sign := False\<rparr>"
    using zero by (intro SQL_INTERVAL_STRUCT.equality)
      (simp_all add: some_time_def numbered_def iso_vars_start_def zero_interval_def)
  ultimately have "iso_finish True ver (interval_type ivl + 100) d ?v' = Some (d, SQL_SUCCESS, ivl)"
    using zero by (intro finish_day_time [OF ok t]) (simp_all add: numbered_def iso_vars_start_def some_time_def)
  then show ?thesis using scanned by (simp add: parse_interval_iso8601_def)
qed

lemma year_month_parsed:
  assumes ok: "interval_ok lead prec ivl" and t: "interval_type ivl \<in> {1, 2, 7}"
    and sgn: "interval_sign ivl \<Longrightarrow> year_day ivl \<noteq> 0 \<or> month_hour ivl \<noteq> 0"
    and year: "interval_type ivl = SQL_IS_YEAR \<Longrightarrow> year_day ivl \<noteq> 0"
    and shown: "print_interval_iso8601 prec ivl = Some (Some out)"
  shows "parse_interval_iso8601 True ver prec (interval_type ivl + 100) (map of_nat out) d = Some (d, SQL_SUCCESS, ivl)"
proof -
  let ?neg = "interval_sign ivl"
  have zero: "minute ivl = 0" "second ivl = 0" "fraction ivl = 0" "interval_type ivl = 1 \<Longrightarrow> month_hour ivl = 0"
      "interval_type ivl = 2 \<Longrightarrow> year_day ivl = 0"
    using ok t by (auto simp: interval_ok_def field_ok_def span_def)
  obtain o1 t1 where 1: "PRINT_FIELD ?neg (year_day ivl) 89 False ([80], False) = (o1, t1)" by fastforce
  obtain o2 t2 where 2: "PRINT_FIELD ?neg (month_hour ivl) 77 False (o1, t1) = (o2, t2)" by fastforce
  have out: "out = (if length o2 \<le> 1 then o2 @ [48, 77] else o2)"
    using shown t by (auto simp: print_interval_iso8601_def Let_def 1 2)
  define v1 where "v1 = put_field SQL_IS_YEAR (\<lambda>u. year_day_update (\<lambda>_. u)) (part False) ?neg (year_day ivl) after_P"
  define v2 where "v2 = put_field SQL_IS_MONTH (\<lambda>u. month_hour_update (\<lambda>_. u)) (part False) ?neg (month_hour ivl) v1"
  have base: "sign_fits ?neg (iv_sign after_P)" by (simp add: iso_vars_start_def sign_fits_def)
  have fits: "sign_fits ?neg (iv_sign v1)" unfolding v1_def using base by (rule sign_fits_put)
  have bits: "and (field_bit SQL_IS_YEAR) (iv_fields after_P) = 0" "and (field_bit SQL_IS_MONTH) (iv_fields v1) = 0"
    by (simp_all add: v1_def put_field_bits iso_vars_start_def field_bit_def)
  have "\<exists>p. o1 = [80] @ p \<and> (p = [] \<longleftrightarrow> year_day ivl = 0) \<and> t1 = (False \<or> False \<and> year_day ivl \<noteq> 0) \<and>
      iso_scan ver prec (map of_nat p @ rest) d after_P = iso_scan ver prec rest d v1" for rest d
    unfolding v1_def using base bits(1) 1
    by (intro PRINT_FIELD_scanned) (simp_all add: iso_vars_start_def iso_letter_def)
  then obtain p1 where p1: "o1 = [80] @ p1" "p1 = [] \<longleftrightarrow> year_day ivl = 0" "\<not> t1"
      "\<And>rest d. iso_scan ver prec (map of_nat p1 @ rest) d after_P = iso_scan ver prec rest d v1"
    by (metis same_append_eq)
  have s1: "iv_state v1 = part t1" using p1(3) by (simp add: v1_def put_field_def iso_vars_start_def)
  have "\<exists>p. o2 = o1 @ p \<and> (p = [] \<longleftrightarrow> month_hour ivl = 0) \<and> t2 = (t1 \<or> False \<and> month_hour ivl \<noteq> 0) \<and>
      iso_scan ver prec (map of_nat p @ rest) d v1 = iso_scan ver prec rest d v2" for rest d
    unfolding v2_def using fits bits(2) 2 s1 p1(3)
    by (intro PRINT_FIELD_scanned) (simp_all add: iso_letter_def assign_m_def)
  then obtain p2 where p2: "o2 = o1 @ p2" "p2 = [] \<longleftrightarrow> month_hour ivl = 0"
      "\<And>rest d. iso_scan ver prec (map of_nat p2 @ rest) d v1 = iso_scan ver prec rest d v2"
    by (metis same_append_eq)
  have scanned: "iso_scan ver prec (80 # map of_nat (p1 @ p2) @ rest) d iso_vars_start = iso_scan ver prec rest d v2" for rest
    using p1(4) [of "map of_nat p2 @ rest" d] p2(3) [of rest d] by (simp add: scan_P)
  note facts = v2_def v1_def put_field_def iso_vars_start_def zero_interval_def
  show ?thesis
  proof (cases "year_day ivl = 0 \<and> month_hour ivl = 0")
    case True
    let ?v' = "(numbered False 0 0 False SQL_SUCCESS after_P)\<lparr>iv_fields := field_bit SQL_IS_MONTH, iv_state := ST_PERIOD\<rparr>"
    have "iso_letter (or 77 32) (numbered False 0 (iv_fraction after_P) False SQL_SUCCESS after_P) = Some ?v'"
      by (simp add: iso_letter_def assign_m_def ASSIGN_FIELD_def numbered_def SET_BITMASK_OR_ERR_def iso_vars_start_def
          zero_interval_def)
    then have "iso_scan ver prec (sgn_text False @ udigits 0 @ 77 # []) d after_P = iso_scan ver prec [] d ?v'"
      by (intro scan_field) (simp_all add: sign_fits_def iso_vars_start_def)
    moreover have "out = [80, 48, 77]" using out p1(1,2) p2(1,2) True by simp
    ultimately have "iso_scan ver prec (map of_nat out) d iso_vars_start = Some (d, Some ?v')"
      by (simp add: scan_P iso_scan.simps(1) sgn_text_def dtext_def dec_digits.simps)
    moreover have "iso_finish True ver (interval_type ivl + 100) d ?v' = Some (d, SQL_SUCCESS, ivl)"
    proof (rule finish_year_month [OF t])
      show "and (not (type2bm ! nat (interval_type ivl - 1))) (iv_fields ?v') = 0"
        using t year True by (auto simp: type2bm_eq field_bit_def)
      show "iv_ivl ?v' = ivl\<lparr>interval_type := 0, interval_sign := False\<rparr>"
        using True zero by (intro SQL_INTERVAL_STRUCT.equality) (simp_all add: numbered_def iso_vars_start_def zero_interval_def)
    qed (use sgn True in \<open>auto simp: numbered_def iso_vars_start_def\<close>)
    ultimately show ?thesis by (simp add: parse_interval_iso8601_def)
  next
    case False
    then have "out = 80 # p1 @ p2" using out p1(1,2) p2(1,2) by (auto simp: Suc_le_eq)
    then have "iso_scan ver prec (map of_nat out) d iso_vars_start = Some (d, Some v2)"
      using scanned [of "[]"] by (simp add: iso_scan.simps(1))
    moreover have "\<exists>n. iso_finish True ver (interval_type ivl + 100) d v2 = Some (d, SQL_SUCCESS, ivl)"
    proof (rule exI, rule finish_year_month [OF t])
      show "and (not (type2bm ! nat (interval_type ivl - 1))) (iv_fields v2) = 0"
        using t zero(4,5) by (auto simp: type2bm_eq field_bit_def facts)
      show "iv_ivl v2 = ivl\<lparr>interval_type := 0, interval_sign := False\<rparr>"
        using zero by (intro SQL_INTERVAL_STRUCT.equality) (simp_all add: facts)
      show "(iv_sign v2 < 0) = interval_sign ivl" using False by (simp add: facts)
      show "iv_number v2 = Some (if month_hour ivl = 0 then year_day ivl else month_hour ivl, False, SQL_SUCCESS)"
        using False by (simp add: facts)
    qed (simp add: facts)
    ultimately show ?thesis by (simp add: parse_interval_iso8601_def)
  qed
qed

section \<open>Properties\<close>

lemma iso_ok_parsed:
  assumes ok: "interval_ok lead prec ivl" and d: "diag_ok ver d"
    and total: "day_time (interval_type ivl) \<Longrightarrow> total_secs ivl < 4294967296"
    and sgn: "interval_sign ivl \<Longrightarrow> some_time ivl \<and> (fraction ivl \<noteq> 0 \<longrightarrow> second ivl \<noteq> 0)"
    and year: "interval_type ivl = SQL_IS_YEAR \<Longrightarrow> year_day ivl \<noteq> 0"
    and shown: "print_interval_iso8601 prec ivl = Some (Some out)"
  shows "parse_interval_iso8601 True ver prec (interval_type ivl + 100) (map of_nat out) d =
    Some (after_fraction ver d ivl, if fraction ivl = 0 then SQL_SUCCESS else SQL_SUCCESS_WITH_INFO, ivl)"
proof (cases "day_time (interval_type ivl)")
  case True
  show ?thesis
  proof (cases "some_time ivl")
    case some: True
    obtain n where n: "iv_number (day_time_vars ivl) =
        Some (n, fraction ivl \<noteq> 0, if fraction ivl = 0 then SQL_SUCCESS else SQL_SUCCESS_WITH_INFO)"
      using day_time_vars_facts(4) [OF some] by blast
    have "iso_scan ver prec (map of_nat out) d iso_vars_start =
        Some (after_fraction ver d ivl, Some (day_time_vars ivl))"
      using sgn by (intro day_time_scanned [OF ok True d _ some shown]) simp
    then show ?thesis
      using finish_day_time [OF ok True total [OF True] day_time_vars_facts(1-3) [OF some] n day_time_vars_facts(5) [OF some]]
      by (simp add: parse_interval_iso8601_def)
  next
    case False
    then have "fraction ivl = 0" by (simp add: some_time_def)
    then show ?thesis
      using zero_day_time_parsed [OF ok True False _ shown] sgn False by (auto simp: after_fraction_def)
  qed
next
  case False
  have "1 \<le> interval_type ivl" "interval_type ivl \<le> 13" using ok by (simp_all add: interval_ok_def)
  then have t: "interval_type ivl \<in> {1, 2, 7}" using False type_cases by (auto simp: day_time_def)
  then have "fraction ivl = 0" "minute ivl = 0" "second ivl = 0"
    using ok by (auto simp: interval_ok_def field_ok_def span_def)
  then show ?thesis
    using year_month_parsed [OF ok t _ year shown] sgn by (auto simp: after_fraction_def some_time_def)
qed



text \<open>A zero interval of years is printed as \<open>P0M\<close>, a text the parser refuses for that type as an
  invalid answer of the server, like \<open>P0D\<close>: only fields of day-time types are rebalanced.\<close>
theorem zero_years_refused:
  assumes "diag_ok ver d"
  shows "print_interval_iso8601 prec (zero_interval\<lparr>interval_type := SQL_IS_YEAR\<rparr>) = Some (Some (map of_char ''P0M''))
    \<and> (\<forall>x \<in> {wlit ''P0M'', wlit ''P0D''}. parse_interval_iso8601 ndebug ver prec SQL_C_INTERVAL_YEAR x d =
        Some (posted ver d SQL_STATE_22018 (wlit ''Invalid server answer''), SQL_ERROR, zero_interval))"
proof (intro conjI ballI)
  fix x
  assume "x \<in> {wlit ''P0M'', wlit ''P0D''}"
  then obtain c where x: "x = 80 # 48 # [c]" "c = 77 \<or> c = 68" by (auto simp: wlit_def)
  have num: "parse_iso8601_number ver d prec (48 # [c]) 0 0 =
      Some (d, Some \<lparr>num_uint = 0, num_sign = 1, num_fraction = 0, num_has_fraction = False, num_rest = [c],
        num_ret = SQL_SUCCESS\<rparr>)"
    using whole_number_scanned [of False 0 0 c ver d prec "[]" 0] x(2)
    by (auto simp: sign_fits_def sgn_text_def dtext_def dec_digits.simps digit_unit_def)
  have "\<exists>v. iso_scan ver prec x d iso_vars_start = Some (d, Some v) \<and> iv_state v = ST_PERIOD \<and>
      iv_fields v \<in> {field_bit SQL_IS_MONTH, field_bit SQL_IS_DAY}"
    using x num
    by (auto simp: iso_scan.simps starts_number_def iso_letter_def iso_vars_start_def assign_m_def ASSIGN_FIELD_def
        SET_BITMASK_OR_ERR_def)
  moreover have "state_retcode (esodbc_errors ! SQL_STATE_22018) = SQL_ERROR" by code_simp
  ultimately show "parse_interval_iso8601 ndebug ver prec SQL_C_INTERVAL_YEAR x d =
      Some (posted ver d SQL_STATE_22018 (wlit ''Invalid server answer''), SQL_ERROR, zero_interval)"
    using RET_CONV_TEXT_ok [OF assms, of SQL_STATE_22018 "''Invalid server answer''"]
    by (auto simp: parse_interval_iso8601_def iso_finish_def mem_read_def type2bm_eq has_field_def field_bit_def iso_fails_def)
qed (simp add: print_interval_iso8601_def PRINT_FIELD_def zero_interval_def)

lemma zero_years_refused_witness:
  "parse_interval_iso8601 True (wlit ''1.0'') 0 SQL_C_INTERVAL_YEAR (wlit ''P0D'') (desc_diag sample_desc) =
    Some (posted (wlit ''1.0'') (desc_diag sample_desc) SQL_STATE_22018 (wlit ''Invalid server answer''), SQL_ERROR,
      zero_interval)"
  using zero_years_refused [OF desc_okD(3) [OF sample_desc_ok], of 0 True] by simp

end
