(* ===== verification/Ivl_Param.thy ===== *)
theory Ivl_Param
imports Ivl_Iso_Roundtrip
begin

text \<open>
  Intervals as parameters (driver/convert.c): \<open>c2sql_str2interval\<close>, \<open>c2sql_interval\<close>. The first call
  of \<open>c2sql_interval\<close>, without a destination, asks for the room the value may take; the second writes
  the quoted value there.

  The application's data is what its pointer is read as: \<open>ivl_data\<close> has one constructor per way to read
  it; the integer is the value the C type of the parameter reads. \<open>stack\<close> is what the local
  buffer holds before it is written.
\<close>

section \<open>From a string\<close>

abbreviation (input) "SQL_NTSL \<equiv> - 3 :: int"

definition app_strlen :: "xstr \<Rightarrow> nat option" where
  "app_strlen data = (case data of WStr w \<Rightarrow> mem_strlen w | CStr c \<Rightarrow> mem_strlen c)"

text \<open>The literal as wide units. The inner \<open>Inl\<close> is the state of a failure.\<close>

definition interval_units ::
    "(nat \<Rightarrow> sqlwchar) \<Rightarrow> bool \<Rightarrow> xstr \<Rightarrow> nat \<Rightarrow> (esodbc_state + wstr) option" where
  "interval_units stack alloc_ok data octet_len =
    (case data of
       WStr w \<Rightarrow> Some (Inr w)
     | CStr c \<Rightarrow>
         if 128 < octet_len \<and> \<not> alloc_ok then Some (Inl SQL_STATE_HY001)
         else do {
           (buf, ret) \<leftarrow> ascii_c2w c (map stack [0..<(if 128 < octet_len then octet_len + 1 else 128)]) octet_len;
           Some (if ret \<le> 0 then Inl SQL_STATE_22018 else Inr buf) })"

definition c2sql_str2interval ::
    "(sqlwchar \<Rightarrow> bool) \<Rightarrow> (nat \<Rightarrow> sqlwchar) \<Rightarrow> bool \<Rightarrow> wstr \<Rightarrow> esodbc_rec \<Rightarrow> xstr \<Rightarrow> int option \<Rightarrow> esodbc_diag
     \<Rightarrow> (esodbc_diag \<times> sqlreturn \<times> SQL_INTERVAL_STRUCT) option" where
  "c2sql_str2interval iswspace stack alloc_ok ver irec data octet_len_ptr d =
    (let fails = (\<lambda>st. do { (d, ret) \<leftarrow> RET_HDIAGS ver d st; Some (d, ret, zero_interval) }) in
     case (case octet_len_ptr of
             None \<Rightarrow> map_option Inr (app_strlen data)
           | Some n \<Rightarrow> if n = SQL_NTSL then map_option Inr (app_strlen data)
               else if n \<le> 0 then Some (Inl SQL_STATE_HY090) else Some (Inr (nat n))) of
       None \<Rightarrow> None
     | Some (Inl st) \<Rightarrow> fails st
     | Some (Inr octet_len) \<Rightarrow>
         (case interval_units stack alloc_ok data octet_len of
            None \<Rightarrow> None
          | Some (Inl st) \<Rightarrow> fails st
          | Some (Inr str) \<Rightarrow> do {
              last \<leftarrow> (if octet_len = 0 then None else mem_read str (octet_len - 1));
              parse_interval_literal iswspace ver irec
                (str, if last = 0 then octet_len - 1 else octet_len) d }))"

section \<open>The parameter\<close>

definition INTERVAL_VAL_MAX_LEN :: nat where "INTERVAL_VAL_MAX_LEN = 5 * 11"

datatype ivl_data = D_text xstr | D_integer int | D_struct SQL_INTERVAL_STRUCT

definition SQL_C_signed_integers :: "int set" where
  "SQL_C_signed_integers = {SQL_C_SHORT, SQL_C_SSHORT, SQL_C_LONG, SQL_C_SLONG, SQL_C_TINYINT, SQL_C_STINYINT, SQL_C_SBIGINT}"

definition SQL_C_unsigned_integers :: "int set" where
  "SQL_C_unsigned_integers = {SQL_C_USHORT, SQL_C_ULONG, SQL_C_UTINYINT, SQL_C_UBIGINT}"

text \<open>\<open>ubint\<close> and the sign; the negation of the least \<open>SQLBIGINT\<close> wraps to itself.\<close>

definition interval_integer :: "int \<Rightarrow> int \<Rightarrow> bool \<times> u64" where
  "interval_integer ctype k =
    (if ctype = SQL_C_BIT then (False, if k \<noteq> 0 then 1 else 0)
     else if ctype \<in> SQL_C_signed_integers then (if k < 0 then (True, - of_int k) else (False, of_int k))
     else (False, of_int k))"

definition single_field :: "int \<Rightarrow> u32 \<Rightarrow> SQL_INTERVAL_STRUCT \<Rightarrow> SQL_INTERVAL_STRUCT option" where
  "single_field data_t u ivl =
    (if data_t = SQL_C_INTERVAL_YEAR \<or> data_t = SQL_C_INTERVAL_DAY then Some (ivl\<lparr>year_day := u\<rparr>)
     else if data_t = SQL_C_INTERVAL_MONTH \<or> data_t = SQL_C_INTERVAL_HOUR then Some (ivl\<lparr>month_hour := u\<rparr>)
     else if data_t = SQL_C_INTERVAL_MINUTE then Some (ivl\<lparr>minute := u\<rparr>)
     else if data_t = SQL_C_INTERVAL_SECOND then Some (ivl\<lparr>second := u\<rparr>)
     else None)"

text \<open>The interval, or the return code of a failure.\<close>

definition param_interval ::
    "(sqlwchar \<Rightarrow> bool) \<Rightarrow> (nat \<Rightarrow> sqlwchar) \<Rightarrow> bool \<Rightarrow> bool \<Rightarrow> wstr \<Rightarrow> esodbc_rec \<Rightarrow> int \<Rightarrow> ivl_data \<Rightarrow> int option
     \<Rightarrow> esodbc_diag \<Rightarrow> (esodbc_diag \<times> (sqlreturn + SQL_INTERVAL_STRUCT)) option" where
  "param_interval iswspace stack alloc_ok ndebug ver irec ctype data octet_len_ptr d =
    (let fails = (\<lambda>st. do { (d, ret) \<leftarrow> RET_HDIAGS ver d st; Some (d, Inl ret) }) in
     if ctype = SQL_C_CHAR \<or> ctype = SQL_C_WCHAR then
       (case data of
          D_text x \<Rightarrow>
            if (ctype = SQL_C_WCHAR) = (\<exists>w. x = WStr w) then do {
              (d, ret, ivl) \<leftarrow> c2sql_str2interval iswspace stack alloc_ok ver irec x octet_len_ptr d;
              Some (d, if SQL_SUCCEEDED ret then Inr ivl else Inl ret) }
            else None
        | _ \<Rightarrow> None)
     else if ctype = SQL_C_BIT \<or> ctype \<in> SQL_C_signed_integers \<or> ctype \<in> SQL_C_unsigned_integers then
       (case data of
          D_integer k \<Rightarrow> do {
            e \<leftarrow> es_type irec;
            let (neg, ubint) = interval_integer ctype k;
            if ULONG_MAX < ubint then fails SQL_STATE_22015
            else (case single_field (data_type e) (ucast ubint)
                (zero_interval\<lparr>interval_sign := neg, interval_type := to_i16 (data_type e - 100)\<rparr>) of
               None \<Rightarrow> fails SQL_STATE_HY000
             | Some ivl \<Rightarrow> Some (d, Inr ivl)) }
        | _ \<Rightarrow> None)
     else if SQL_C_INTERVAL_YEAR \<le> ctype \<and> ctype \<le> SQL_C_INTERVAL_MINUTE_TO_SECOND then
       (case data of
          D_struct ivl \<Rightarrow> do {
            e \<leftarrow> es_type irec;
            c_assert ndebug (data_type e = ctype);
            Some (d, Inr ivl) }
        | _ \<Rightarrow> None)
     else if ctype = SQL_C_BINARY then
       (case data of D_struct ivl \<Rightarrow> Some (d, Inr ivl) | _ \<Rightarrow> None)
     else if ctype = SQL_C_NUMERIC then fails SQL_STATE_HYC00
     else do {
       (d, ret) \<leftarrow> RET_CONV_TEXT ver d SQL_STATE_HY000 ''bug converting parameter'';
       Some (d, Inl ret) })"

text \<open>\<open>dest\<close> is \<open>None\<close> in the first call; the answer is the diagnostic, the return code, what is at
  \<open>dest\<close> and the length, when it is set.\<close>

definition c2sql_interval ::
    "(sqlwchar \<Rightarrow> bool) \<Rightarrow> (nat \<Rightarrow> sqlwchar) \<Rightarrow> bool \<Rightarrow> bool \<Rightarrow> wstr \<Rightarrow> esodbc_rec \<Rightarrow> int \<Rightarrow> ivl_data \<Rightarrow> int option
     \<Rightarrow> cstr option \<Rightarrow> esodbc_diag \<Rightarrow> (esodbc_diag \<times> sqlreturn \<times> cstr option \<times> nat) option" where
  "c2sql_interval iswspace stack alloc_ok ndebug ver irec ctype data octet_len_ptr dest d =
    (case dest of
       None \<Rightarrow> Some (d, SQL_SUCCESS, None, INTERVAL_VAL_MAX_LEN)
     | Some dest \<Rightarrow> do {
         dest \<leftarrow> mem_write dest 0 34;
         (d, r) \<leftarrow> param_interval iswspace stack alloc_ok ndebug ver irec ctype data octet_len_ptr d;
         case r of
           Inl ret \<Rightarrow> Some (d, ret, Some dest, 1)
         | Inr ivl \<Rightarrow> do {
             p \<leftarrow> print_interval_iso8601 (precision irec) ivl;
             case p of
               None \<Rightarrow> do {
                 dest \<leftarrow> mem_write dest 1 80;
                 (d, ret) \<leftarrow> RET_CONV_TEXT ver d SQL_STATE_HY000 ''interval printing failed'';
                 Some (d, ret, Some dest, 1) }
             | Some out \<Rightarrow> do {
                 dest \<leftarrow> mem_write_list dest 1 (map of_nat out @ [34]);
                 Some (d, SQL_SUCCESS, Some dest, length out + 2) } } })"

section \<open>Lengths\<close>

lemma dec_digits_length: "n < 10000000000 \<Longrightarrow> length (dec_digits n) \<le> 10"
  using dec_digits_length_le [of n 10] by simp

lemma double_of_ratio_zero: "double_of_ratio 0 d = (0, 0)"
  by (cases "d = 0") (simp_all add: double_of_ratio_def double_places.simps round_even_div_def)

lemma printed_seconds_below:
  assumes "0 < f" "f < 4294967296" "s < 4294967296" "0 < p" "p \<le> 9"
    and "double_add_int (double_div (f, 0) (10 ^ p)) s = (m, k)"
  shows "round_even_div (m * 10 ^ p) (2 ^ k) div 10 ^ p < 10000000000"
proof -
  obtain m1 k1 where 1: "double_of_ratio f (10 ^ p) = (m1, k1)" by (metis surj_pair)
  have ten: "(10::nat) \<le> 10 ^ p" "(10::real) \<le> 10 ^ p" using assms(4) by (cases p; simp)+
  let ?x1 = "real m1 / 2 ^ k1"
  have "real f / 10 ^ p \<le> real f / 10" using ten(2) by (intro divide_left_mono) simp_all
  also have "\<dots> \<le> 429496730" using assms(2) by simp
  finally have f: "real f / 10 ^ p \<le> 429496730" .
  have "f < 2 ^ 32 * 10 ^ p" using assms(2) ten(1) by (simp add: less_le_trans)
  then have "\<bar>?x1 - real f / 10 ^ p\<bar> \<le> 1 / 2 ^ 22"
    using double_of_ratio_err [of f "10 ^ p" 32] assms(1) 1 by simp
  moreover have "(1::real) / 2 ^ 22 < 1" by simp
  ultimately have x1: "?x1 < 429496731" using f by linarith
  let ?n = "m1 + s * 2 ^ k1"
  have x1s: "real ?n / 2 ^ k1 = ?x1 + real s" by (simp add: add_divide_distrib)
  have 2: "double_of_ratio ?n (2 ^ k1) = (m, k)" using assms(6) 1 by (simp add: double_add_int_def double_div_def)
  have m: "real m / 2 ^ k < 4724464028"
  proof (cases "?n = 0")
    case True
    then have "m = 0" using 2 by (simp add: double_of_ratio_zero)
    then show ?thesis by simp
  next
    case False
    have "real ?n / 2 ^ k1 < 4724464027" using x1s x1 assms(3) by linarith
    then have "real ?n < 4724464027 * 2 ^ k1" by (simp add: field_simps)
    also have "\<dots> \<le> 2 ^ 33 * 2 ^ k1" by (intro mult_right_mono) simp_all
    finally have "real ?n < real (2 ^ 33 * 2 ^ k1)" by simp
    then have "?n < 2 ^ 33 * 2 ^ k1" by (simp only: of_nat_less_iff)
    then have "\<bar>real m / 2 ^ k - real ?n / 2 ^ k1\<bar> \<le> 1 / 2 ^ 21"
      using double_of_ratio_err [of ?n "2 ^ k1" 33] False 2 by simp
    moreover have "(1::real) / 2 ^ 21 < 1" by simp
    ultimately show ?thesis using \<open>real ?n / 2 ^ k1 < 4724464027\<close> by linarith
  qed
  let ?N = "round_even_div (m * 10 ^ p) (2 ^ k)"
  have "\<bar>real ?N - real m / 2 ^ k * 10 ^ p\<bar> \<le> 1 / 2"
    using round_even_div_err [of "2 ^ k" "m * 10 ^ p"] by simp
  moreover have "real m / 2 ^ k * 10 ^ p \<le> 4724464028 * 10 ^ p" using m by (intro mult_right_mono) simp_all
  ultimately have "real ?N \<le> 4724464028 * 10 ^ p + 1 / 2" by linarith
  also have "\<dots> \<le> 4724464028 * 10 ^ p + 10 ^ p" using ten(2) by linarith
  also have "\<dots> = real (4724464029 * 10 ^ p)" by simp
  finally have "?N \<le> 4724464029 * 10 ^ p" by (simp only: of_nat_le_iff)
  then have "?N div 10 ^ p \<le> 4724464029 * 10 ^ p div 10 ^ p" by (rule div_le_mono)
  then show ?thesis by simp
qed

lemma printed_seconds_length:
  assumes "print_interval_sec prec ivl = Some out"
  shows "length out \<le> 20"
proof (cases "fraction ivl \<noteq> 0 \<and> prec \<noteq> 0")
  case True
  then have p: "0 < nat prec" "nat prec \<le> 9" "0 \<le> prec" "prec \<le> 9"
    using assms by (auto simp: print_interval_sec_def split: if_splits)
  have ten: "unat (10 ^ nat prec :: u64) = 10 ^ nat prec" using p(2) by (intro pow10_unat) simp
  obtain m k where mk: "double_add_int (double_div (unat (fraction ivl), 0) (10 ^ nat prec)) (unat (second ivl)) = (m, k)"
    by (metis surj_pair)
  have "0 < unat (fraction ivl)" using True by (simp add: unat_gt_0)
  then have "round_even_div (m * 10 ^ nat prec) (2 ^ k) div 10 ^ nat prec < 10000000000"
    by (intro printed_seconds_below [OF _ _ _ p(1,2) mk]) (simp_all add: unat_u32)
  then have 1: "length (digits_text (round_even_div (m * 10 ^ nat prec) (2 ^ k) div 10 ^ nat prec)) \<le> 10"
    by (simp add: digits_text_def dec_digits_length)
  have "length (dec_digits (n mod 10 ^ nat prec)) \<le> nat prec" for n
    using p(1) by (intro dec_digits_length_le) simp_all
  then have 2: "length (padded_text (nat prec) (n mod 10 ^ nat prec)) = nat prec" for n
    by (simp add: padded_text_def digits_text_def)
  have "out = printf_lf (nat prec) (m, k)"
    using assms True p(2-4) mk by (simp add: print_interval_sec_def pow10_eq ten)
  then show ?thesis using 1 2 p(2) by (simp add: printf_lf_def Let_def)
next
  case False
  then have "out = print_u32 (second ivl)" using assms by (auto simp: print_interval_sec_def print_u32_def)
  then have "map of_nat out = udigits (second ivl)" by (simp add: print_u32_text)
  then have "length out = ulen (second ivl)" by (metis length_map length_dtext)
  then show ?thesis using ulen_le [of "second ivl"] by simp
qed

lemma print_u32_length: "length (print_u32 u) \<le> 10"
proof -
  have "length (print_u32 u) = ulen u" using print_u32_text [of u] by (metis length_map length_dtext)
  then show ?thesis using ulen_le by simp
qed

lemma PRINT_FIELD_length:
  assumes "PRINT_FIELD neg u q is_time (out, t) = (out', t')"
  shows "length out' + (if t' then 0 else 1) \<le> length out + (if t then 0 else 1) + 12" "length out \<le> length out'"
  using assms print_u32_length [of u] by (auto simp: PRINT_FIELD_def split: if_splits)

lemma print_interval_iso8601_length:
  assumes "print_interval_iso8601 prec ivl = Some (Some out)"
  shows "length out \<le> 60"
proof (cases "interval_type ivl = 1 \<or> interval_type ivl = 2 \<or> interval_type ivl = 7")
  case True
  obtain o1 t1 where 1: "PRINT_FIELD (interval_sign ivl) (year_day ivl) 89 False ([80], False) = (o1, t1)" by fastforce
  obtain o2 t2 where 2: "PRINT_FIELD (interval_sign ivl) (month_hour ivl) 77 False (o1, t1) = (o2, t2)" by fastforce
  show ?thesis
    using assms True PRINT_FIELD_length [OF 1] PRINT_FIELD_length [OF 2]
    by (auto simp: print_interval_iso8601_def Let_def 1 2 split: if_splits)
next
  case False
  obtain o1 t1 where 1: "PRINT_FIELD (interval_sign ivl) (year_day ivl) 68 False ([80], False) = (o1, t1)" by fastforce
  obtain o2 t2 where 2: "PRINT_FIELD (interval_sign ivl) (month_hour ivl) 72 True (o1, t1) = (o2, t2)" by fastforce
  obtain o3 t3 where 3: "PRINT_FIELD (interval_sign ivl) (minute ivl) 77 True (o2, t2) = (o3, t3)" by fastforce
  obtain o4 where 4: "print_iso_seconds prec ivl (o3, t3) = Some o4" and
    out: "out = (if length o4 \<le> 1 then o4 @ [84, 48, 83] else o4)"
    using assms False by (cases "print_iso_seconds prec ivl (o3, t3)")
      (auto simp: print_interval_iso8601_def Let_def 1 2 3 split: if_splits)
  have "length o3 + (if t3 then 0 else 1) \<le> 38"
    using PRINT_FIELD_length(1) [OF 1] PRINT_FIELD_length(1) [OF 2] PRINT_FIELD_length(1) [OF 3] by simp
  then have "length o4 \<le> 60"
    using 4 printed_seconds_length [of prec ivl] by (force simp: print_iso_seconds_def split: if_splits Option.bind_splits)
  then show ?thesis using out by simp
qed

lemma print_interval_sql_length:
  assumes "print_interval_sql prec ivl = Some (Some out)"
  shows "length out \<le> 54"
proof -
  have sec: "print_interval_sec prec ivl = Some s \<Longrightarrow> length s \<le> 20" for s by (rule printed_seconds_length)
  note len = print_u32_length [of "year_day ivl"] print_u32_length [of "month_hour ivl"] print_u32_length [of "minute ivl"]
  show ?thesis
  proof (cases "print_interval_sec prec ivl")
    case None
    then show ?thesis using assms len by (auto simp: print_interval_sql_def Let_def split: if_splits)
  next
    case (Some s)
    then show ?thesis using assms len sec [OF Some] by (auto simp: print_interval_sql_def Let_def split: if_splits)
  qed
qed

section \<open>Properties\<close>

text \<open>Whatever the interval, its SQL text is at most 54 units, so that with its terminator it fits the
  buffer of \<open>INTERVAL_VAL_MAX_LEN\<close> units and a terminator the conversion of a column gives it.\<close>
theorem interval_to_sql_fits:
  assumes "parse_interval_iso8601 ndebug ver prec data_t w d = Some (d', ret, ivl)" and "SQL_SUCCEEDED ret"
    and "print_interval_sql prec ivl = Some (Some out)" and "INTERVAL_VAL_MAX_LEN + 1 \<le> length lit"
  shows "interval_iso8601_to_sql ndebug ver prec data_t w lit d =
    Some (d', Inr (map of_nat out @ 0 # drop (length out + 1) lit, length out + 1))"
proof -
  have "length out + 1 \<le> length lit"
    using print_interval_sql_length [OF assms(3)] assms(4) by (simp add: INTERVAL_VAL_MAX_LEN_def)
  then have "mem_write_list lit 0 (map of_nat out @ [0]) = Some (map of_nat out @ 0 # drop (length out + 1) lit)"
    using mem_write_list_fits [of 0 "map of_nat out @ [0]" lit] by simp
  then show ?thesis using assms(1-3) by (simp add: interval_iso8601_to_sql_def)
qed

lemma interval_to_sql_fits_witness:
  "\<exists>d'. interval_iso8601_to_sql True (wlit ''1.0'') 0 SQL_C_INTERVAL_MONTH (wlit ''P7M'') (replicate 56 1)
      (desc_diag sample_desc) = Some (d', Inr (55 # 0 # replicate 54 1, 2))"
proof -
  let ?i = "\<lparr>interval_type = 2, interval_sign = False, year_day = 0, month_hour = 7, minute = 0, second = 0, fraction = 0\<rparr>"
  have "interval_ok 2 0 ?i" by (simp add: interval_ok_def field_ok_def span_def dec_digits.simps)
  moreover have "print_interval_iso8601 0 ?i = Some (Some [80, 55, 77])" by code_simp
  ultimately have p: "\<exists>d'. parse_interval_iso8601 True (wlit ''1.0'') 0 SQL_C_INTERVAL_MONTH (wlit ''P7M'') (desc_diag sample_desc)
      = Some (d', SQL_SUCCESS, ?i)"
    using iso_ok_parsed [OF _ desc_okD(3) [OF sample_desc_ok], of 2 0 ?i "[80, 55, 77]"]
    by (auto simp: day_time_def wlit_def)
  have out: "print_interval_sql 0 ?i = Some (Some [55])" by code_simp
  have len: "INTERVAL_VAL_MAX_LEN + 1 \<le> length (replicate 56 (1 :: sqlwchar))" by (simp add: INTERVAL_VAL_MAX_LEN_def)
  have drop: "drop (length [55 :: nat] + 1) (replicate 56 (1 :: sqlwchar)) = replicate 54 1" by simp
  from p obtain d' where "parse_interval_iso8601 True (wlit ''1.0'') 0 SQL_C_INTERVAL_MONTH (wlit ''P7M'')
      (desc_diag sample_desc) = Some (d', SQL_SUCCESS, ?i)" by blast
  from interval_to_sql_fits [OF this _ out len, unfolded drop] show ?thesis
    by (simp add: SQL_SUCCEEDED_def)
qed

text \<open>A structure given as parameter is written as its ISO text in quotes, of at most 62 octets,
  provided the destination has room for them: nothing else is checked.\<close>
theorem interval_param_written:
  assumes "es_type irec = Some e" and "data_type e = ctype"
    and "SQL_C_INTERVAL_YEAR \<le> ctype" "ctype \<le> SQL_C_INTERVAL_MINUTE_TO_SECOND"
    and "print_interval_iso8601 (precision irec) ivl = Some (Some out)"
  shows "length out + 2 \<le> 62 \<and>
    c2sql_interval iswspace stack alloc_ok ndebug ver irec ctype (D_struct ivl) ind (Some dest) d =
    (if length out + 2 \<le> length dest
     then Some (d, SQL_SUCCESS, Some (34 # map of_nat out @ 34 # drop (length out + 2) dest), length out + 2)
     else None)"
proof
  show "length out + 2 \<le> 62" using print_interval_iso8601_length [OF assms(5)] by simp
  have short: "mem_write_list m i vs = None" if "length m < i + length vs" "vs \<noteq> []" for m :: cstr and i vs
    using that
  proof (induction vs arbitrary: m i)
    case (Cons v vs)
    then show ?case by (cases "vs = []") (auto simp: mem_write_def)
  qed simp
  have "param_interval iswspace stack alloc_ok ndebug ver irec ctype (D_struct ivl) ind d = Some (d, Inr ivl)"
    using assms(1-4)
    by (auto simp: param_interval_def SQL_C_signed_integers_def SQL_C_unsigned_integers_def c_assert_def)
  then have *: "c2sql_interval iswspace stack alloc_ok ndebug ver irec ctype (D_struct ivl) ind (Some dest) d =
      do { dest \<leftarrow> mem_write dest 0 34; dest \<leftarrow> mem_write_list dest 1 (map of_nat out @ [34]);
        Some (d, SQL_SUCCESS, Some dest, length out + 2) }"
    using assms(5) by (simp add: c2sql_interval_def)
  show "c2sql_interval iswspace stack alloc_ok ndebug ver irec ctype (D_struct ivl) ind (Some dest) d =
    (if length out + 2 \<le> length dest
     then Some (d, SQL_SUCCESS, Some (34 # map of_nat out @ 34 # drop (length out + 2) dest), length out + 2)
     else None)"
  proof (cases dest)
    case (Cons b bs)
    then show ?thesis
      using * mem_write_list_fits [of 1 "map of_nat out @ [34]" "34 # bs"] short [of "34 # bs" 1 "map of_nat out @ [34]"]
      by (simp add: mem_write_def)
  qed (use * in \<open>simp add: mem_write_def\<close>)
qed

lemma interval_param_written_witness:
  "c2sql_interval c_iswspace (\<lambda>_. 0) True True (wlit ''1.0'')
      (sample_rec\<lparr>es_type := Some (sample_estype SQL_C_INTERVAL_MONTH)\<rparr>) SQL_C_INTERVAL_MONTH
      (D_struct \<lparr>interval_type = 2, interval_sign = False, year_day = 0, month_hour = 7, minute = 0, second = 0,
        fraction = 0\<rparr>) None (Some (replicate 6 0)) (desc_diag sample_desc) =
    Some (desc_diag sample_desc, SQL_SUCCESS, Some [34, 80, 55, 77, 34, 0], 5)"
proof -
  let ?i = "\<lparr>interval_type = 2, interval_sign = False, year_day = 0, month_hour = 7, minute = 0, second = 0, fraction = 0\<rparr>"
  let ?r = "sample_rec\<lparr>es_type := Some (sample_estype SQL_C_INTERVAL_MONTH)\<rparr>"
  have "print_interval_iso8601 3 ?i = Some (Some [80, 55, 77])" by code_simp
  then have out: "print_interval_iso8601 (precision ?r) ?i = Some (Some [80, 55, 77])" by (simp add: sample_rec_def)
  show ?thesis
    using interval_param_written [OF _ _ _ _ out, of "sample_estype SQL_C_INTERVAL_MONTH" SQL_C_INTERVAL_MONTH c_iswspace
        "\<lambda>_. 0" True True "wlit ''1.0''" None "replicate 6 0" "desc_diag sample_desc"]
    by (simp add: sample_estype_def numeral_eq_Suc)
qed

definition longest_sample :: SQL_INTERVAL_STRUCT where
  "longest_sample = \<lparr>interval_type = 10, interval_sign = True, year_day = 4294967295, month_hour = 4294967295,
     minute = 4294967295, second = 8388606, fraction = 1\<rparr>"

definition sample_irec :: esodbc_rec where
  "sample_irec = (init_rec DESC_TYPE_IPD)\<lparr>precision := 9, es_type :=
     Some (sample_estype SQL_C_INTERVAL_DAY_TO_SECOND)\<rparr>"

lemma longest_printed:
  "\<exists>out. print_interval_iso8601 9 longest_sample = Some (Some out) \<and> length out = 57"
proof -
  obtain s where s: "print_interval_sec 9 longest_sample = Some s" "map of_nat s = seconds_text 9 longest_sample"
    using print_seconds_text [of 9 longest_sample] by (auto simp: longest_sample_def)
  have "length (seconds_text 9 longest_sample) = 17"
    by (simp add: seconds_text_def longest_sample_def dec_digits.simps fraction_digits_def)
  then have len: "length s = 17" using s(2) by (metis length_map)
  have "length (print_u32 4294967295) = length (udigits 4294967295)"
    using print_u32_text [of 4294967295] by (metis length_map)
  also have "\<dots> = 10" by (simp add: dec_digits.simps)
  finally have u: "length (print_u32 4294967295) = 10" .
  have f: "interval_type longest_sample = 10" "interval_sign longest_sample" "year_day longest_sample = 4294967295"
      "month_hour longest_sample = 4294967295" "minute longest_sample = 4294967295" "second longest_sample \<noteq> 0"
    by (simp_all add: longest_sample_def)
  show ?thesis
    using s(1) len u by (simp add: print_interval_iso8601_def print_iso_seconds_def PRINT_FIELD_def or_eq_0_iff f)
qed

text \<open>The room the first call asks for is not always enough: with a destination of just that length, the
  second call writes past it for some structures the application may give.\<close>
theorem interval_param_overruns:
  "c2sql_interval iswspace stack alloc_ok ndebug ver sample_irec SQL_C_INTERVAL_DAY_TO_SECOND
      (D_struct longest_sample) ind None d = Some (d, SQL_SUCCESS, None, INTERVAL_VAL_MAX_LEN) \<and>
   c2sql_interval iswspace stack alloc_ok ndebug ver sample_irec SQL_C_INTERVAL_DAY_TO_SECOND
      (D_struct longest_sample) ind (Some (replicate INTERVAL_VAL_MAX_LEN b)) d = None"
proof -
  obtain out where out: "print_interval_iso8601 9 longest_sample = Some (Some out)" "length out = 57"
    using longest_printed by blast
  have "param_interval iswspace stack alloc_ok ndebug ver sample_irec SQL_C_INTERVAL_DAY_TO_SECOND
      (D_struct longest_sample) ind d = Some (d, Inr longest_sample)"
    by (simp add: param_interval_def SQL_C_signed_integers_def SQL_C_unsigned_integers_def c_assert_def
        sample_irec_def sample_estype_def)
  moreover have "precision sample_irec = 9" by (simp add: sample_irec_def)
  moreover have "mem_write_list m i vs = None" if "length m < i + length vs" "vs \<noteq> []" for m :: cstr and i vs
    using that
  proof (induction vs arbitrary: m i)
    case (Cons v vs)
    then show ?case by (cases "vs = []") (auto simp: mem_write_def)
  qed simp
  ultimately show ?thesis
    using out by (simp add: c2sql_interval_def mem_write_def INTERVAL_VAL_MAX_LEN_def)
qed

lemma ascii_c2w_overrun:
  assumes "0 < n" "n \<le> length src" "length dst = n" "\<forall>j < n. src ! j \<noteq> 0"
  shows "ascii_c2w src dst n = None"
proof -
  have "ascii_copy_loop (\<lambda>c. uint c < 0) ucast src dst n 0 = Some (Inr (take 0 dst @ map ucast (drop 0 (take n src)) @ drop n dst, n))"
    using ascii_copy_loop_prefix [of 0 n n src dst "\<lambda>c. uint c < 0" ucast] assms by simp
  then show ?thesis using assms by (simp add: ascii_c2w_def mem_write_def)
qed

text \<open>The length of a wide string given in octets is taken for its count of units, so a literal without
  a terminator is read past its end; and a narrow literal of exactly 128 characters overruns the local
  buffer by the terminator the copy adds.\<close>
theorem str2interval_bounds:
  assumes "w \<noteq> []" and "length c = 128" and "0 \<notin> set c"
  shows "c2sql_str2interval iswspace stack alloc_ok ver irec (WStr w) (Some (2 * int (length w))) d = None \<and>
    c2sql_str2interval iswspace stack alloc_ok ver irec (CStr (c @ rest)) (Some 128) d = None"
proof
  have "2 * int (length w) \<noteq> SQL_NTSL" "\<not> 2 * int (length w) \<le> 0" using assms(1) by simp_all
  moreover have "mem_read w (nat (2 * int (length w)) - 1) = None" using assms(1) by (cases w) (simp_all add: mem_read_def)
  ultimately show "c2sql_str2interval iswspace stack alloc_ok ver irec (WStr w) (Some (2 * int (length w))) d = None"
    by (simp add: c2sql_str2interval_def interval_units_def Let_def)
  have "\<forall>j < 128. (c @ rest) ! j \<noteq> 0" using assms(2,3) by (auto simp: nth_append in_set_conv_nth)
  then have "ascii_c2w (c @ rest) (map stack [0..<128]) 128 = None"
    using assms(2) by (intro ascii_c2w_overrun) simp_all
  then show "c2sql_str2interval iswspace stack alloc_ok ver irec (CStr (c @ rest)) (Some 128) d = None"
    by (simp add: c2sql_str2interval_def interval_units_def)
qed

lemma str2interval_bounds_witness:
  "c2sql_str2interval c_iswspace (\<lambda>_. 0) True (wlit ''1.0'') sample_irec (WStr (wlit ''INTERVAL''))
    (Some 16) (desc_diag sample_desc) = None"
  using str2interval_bounds [of "wlit ''INTERVAL''" "replicate 128 1" c_iswspace "\<lambda>_. 0" True "wlit ''1.0''" sample_irec
      "desc_diag sample_desc" "[]"] by (simp add: wlit_def)

end
