(* ===== verification/Conv_Xfer.thy ===== *)
theory Conv_Xfer
imports Handles Str_Numbers
begin

text \<open>
  The transfer of text to the application's buffers (driver/convert.c): \<open>deferred_address\<close>,
  \<open>buff_octet_size\<close>, \<open>write_out_octets\<close>, \<open>get_rec_c_type\<close>, \<open>gd_offset_apply\<close>, \<open>gd_offset_update\<close> and
  \<open>transfer_xstr0\<close>, and with them the piecewise reading of a column by repeated \<open>SQLGetData\<close> calls.

  \<open>s\<close> is the statement. A buffer of the application is the list of its units, \<open>None\<close> the null pointer;
  so is the cell for the length. Text is the list of its counted units: a terminator follows it. Wide and
  narrow text are the same but for \<open>char_sz\<close>, the octets of a unit.
\<close>

section \<open>Addresses\<close>

abbreviation (input) "SQL_BIND_BY_COLUMN \<equiv> 0 :: int"

text \<open>\<open>deref\<close> reads the offset of a row-wise binding. The sum wraps as pointers do.\<close>

definition deferred_address :: "(int \<Rightarrow> int) \<Rightarrow> desc_field \<Rightarrow> nat \<Rightarrow> esodbc_rec \<Rightarrow> esodbc_desc \<Rightarrow> int" where
  "deferred_address deref field_id pos rec desc =
    (let by_column = (bind_type desc = SQL_BIND_BY_COLUMN);
         offt = (if by_column then 0 else if bind_offset_ptr desc \<noteq> 0 then deref (bind_offset_ptr desc) else 0);
         addr = (\<lambda>base elem_size. if base \<noteq> 0 then to_u64 (base + offt + int pos * elem_size) else 0) in
     case field_id of
       SQL_DESC_DATA_PTR \<Rightarrow> addr (data_ptr rec) (to_u64 (if by_column then octet_length rec else bind_type desc))
     | SQL_DESC_INDICATOR_PTR \<Rightarrow> addr (indicator_ptr rec) (if by_column then 8 else to_u64 (bind_type desc))
     | SQL_DESC_OCTET_LENGTH_PTR \<Rightarrow> addr (octet_length_ptr rec) (if by_column then 8 else to_u64 (bind_type desc))
     | _ \<Rightarrow> 0)"

section \<open>Sizes\<close>

definition STMT_GD_CALLING :: "esodbc_stmt \<Rightarrow> bool" where
  "STMT_GD_CALLING s \<longleftrightarrow> 0 \<le> gd_col s"

text \<open>The octets to copy and the state to post.\<close>

definition network_max :: "esodbc_stmt \<Rightarrow> esodbc_rec \<Rightarrow> nat" where
  "network_max s irec =
    (if meta_type irec = METATYPE_STRING \<or> meta_type irec = METATYPE_BIN then nat (to_u64 (max_length s)) else 0)"

definition buff_octet_size ::
    "esodbc_stmt \<Rightarrow> esodbc_rec \<Rightarrow> esodbc_rec \<Rightarrow> nat \<Rightarrow> nat \<Rightarrow> nat \<times> esodbc_state" where
  "buff_octet_size s arec irec avail unit_size =
    (let room = nat (to_u64 (octet_length arec));
         max = network_max s irec;
         max_copy = (if 0 < max \<and> max < avail then max else avail);
         (max_copy, st) = (if room < max_copy then (room, SQL_STATE_01004) else (max_copy, SQL_STATE_00000)) in
     (max_copy - max_copy mod unit_size, st))"

definition write_out_octets :: "esodbc_stmt \<Rightarrow> esodbc_rec \<Rightarrow> int option \<Rightarrow> nat \<Rightarrow> int option" where
  "write_out_octets s irec octet_len_ptr avail =
    map_option (\<lambda>_. if 0 < network_max s irec then to_i64 (int (network_max s irec)) else to_i64 (int avail)) octet_len_ptr"

text \<open>\<open>c_concise\<close> is \<open>es_type->c_concise_type\<close>.\<close>

definition get_rec_c_type :: "esodbc_rec \<Rightarrow> int \<Rightarrow> int" where
  "get_rec_c_type arec c_concise = (if concise_type arec \<noteq> SQL_C_DEFAULT then concise_type arec else c_concise)"

section \<open>Text\<close>

definition gd_offset_apply :: "esodbc_stmt \<Rightarrow> 'c list \<Rightarrow> 'c list option" where
  "gd_offset_apply s src =
    (if \<not> STMT_GD_CALLING s then Some src
     else if 0 \<le> gd_offt s \<and> gd_offt s \<le> int (length src) then Some (drop (nat (gd_offt s)) src)
     else None)"

definition gd_offset_update :: "esodbc_stmt \<Rightarrow> nat \<Rightarrow> nat \<Rightarrow> esodbc_stmt" where
  "gd_offset_update s cnt xfed =
    (if \<not> STMT_GD_CALLING s then s
     else if cnt \<le> xfed then s\<lparr>gd_offt := - 1\<rparr>
     else s\<lparr>gd_offt := gd_offt s + int xfed\<rparr>)"

text \<open>\<open>RET_HDIAGS\<close> on the statement.\<close>

definition RET_STMT_DIAG :: "wstr \<Rightarrow> esodbc_stmt \<Rightarrow> esodbc_state \<Rightarrow> (esodbc_stmt \<times> sqlreturn) option" where
  "RET_STMT_DIAG ver s st = do {
     (d, ret) \<leftarrow> RET_HDIAGS ver (stmt_diag s) st;
     Some (s\<lparr>stmt_diag := d\<rparr>, ret) }"

text \<open>The copy, for a count of octets that is not 0: the units, then the terminator when something was cut.\<close>

definition copy_text :: "bool \<Rightarrow> 'c::zero list \<Rightarrow> nat \<Rightarrow> esodbc_state \<Rightarrow> 'c list \<Rightarrow> 'c list option" where
  "copy_text ndebug src in_chars st dst =
    (case mem_write_list dst 0 (take (Suc in_chars) (src @ [0])) of
       None \<Rightarrow> None
     | Some dst \<Rightarrow>
         if st \<noteq> SQL_STATE_00000 then mem_write dst in_chars 0
         else if ndebug \<or> mem_read dst in_chars = Some 0 then Some dst else None)"

definition transfer_xstr0 ::
    "bool \<Rightarrow> wstr \<Rightarrow> esodbc_stmt \<Rightarrow> esodbc_rec \<Rightarrow> esodbc_rec \<Rightarrow> nat \<Rightarrow> 'c::zero list \<Rightarrow> 'c list option \<Rightarrow> int option
     \<Rightarrow> (esodbc_stmt \<times> sqlreturn \<times> 'c list option \<times> int option) option" where
  "transfer_xstr0 ndebug ver s arec irec char_sz src dest octet_len_ptr =
    (case gd_offset_apply s src of
       None \<Rightarrow> None
     | Some src \<Rightarrow>
         let ind = write_out_octets s irec octet_len_ptr (length src * char_sz);
             (in_bytes, st) = (if dest = None then (0, SQL_STATE_00000)
               else buff_octet_size s arec irec ((length src + 1) * char_sz) char_sz);
             in_chars = in_bytes div char_sz - 1 in
         (case (if in_bytes = 0 then Some (s, dest)
                else map_option (\<lambda>dst. (gd_offset_update s (length src) in_chars, Some dst))
                  (copy_text ndebug src in_chars st (the dest))) of
            None \<Rightarrow> None
          | Some (s, data) \<Rightarrow>
              if st \<noteq> SQL_STATE_00000 then
                map_option (\<lambda>(s, ret). (s, ret, data, ind)) (RET_STMT_DIAG ver s st)
              else Some (s, SQL_SUCCESS, data, ind)))"

section \<open>What a transfer does\<close>

lemma posted_01004: "state_retcode (esodbc_errors ! SQL_STATE_01004) = SQL_SUCCESS_WITH_INFO"
  by code_simp

lemma RET_STMT_DIAG_ok:
  "diag_ok ver (stmt_diag s) \<Longrightarrow> st < 120 \<Longrightarrow> RET_STMT_DIAG ver s st =
    Some (s\<lparr>stmt_diag := posted ver (stmt_diag s) st (default_message st)\<rparr>, state_retcode (esodbc_errors ! st))"
  by (simp add: RET_STMT_DIAG_def RET_HDIAGS_ok)

lemma mem_write_list_front: "length vs \<le> length m \<Longrightarrow> mem_write_list m 0 vs = Some (vs @ drop (length vs) m)"
  using mem_write_list_fits [of 0 vs m] by simp

lemma copy_text_whole:
  "Suc (length src) \<le> length dst \<Longrightarrow>
    copy_text ndebug src (length src) SQL_STATE_00000 dst = Some (src @ 0 # drop (Suc (length src)) dst)"
  by (cases dst) (auto simp: copy_text_def mem_write_list_front mem_read_def nth_append)

lemma copy_text_cut:
  assumes "k \<le> length src" "Suc k \<le> length dst" "st \<noteq> SQL_STATE_00000"
  shows "copy_text ndebug src k st dst = Some (take k src @ 0 # drop (Suc k) dst)"
proof -
  have t: "take (Suc k) (src @ [0]) = take k src @ [(src @ [0]) ! k]"
    using assms(1) take_Suc_conv_app_nth [of k "src @ [0]"] by simp
  have "mem_write_list dst 0 (take (Suc k) (src @ [0])) = Some (take (Suc k) (src @ [0]) @ drop (Suc k) dst)"
    unfolding t using assms(1,2) mem_write_list_front [of "take k src @ [(src @ [0]) ! k]" dst] by simp
  then show ?thesis
    using assms unfolding copy_text_def t by (simp add: mem_write_def list_update_append)
qed

definition room :: "esodbc_rec \<Rightarrow> nat" where
  "room arec = nat (to_u64 (octet_length arec))"

text \<open>One transfer, with no limit set on the statement; \<open>dst\<close> has the room its length tells.\<close>

lemma transfer_step:
  assumes "0 < char_sz" "network_max s irec = 0" "diag_ok ver (stmt_diag s)"
    and "gd_offset_apply s src0 = Some src" "room arec div char_sz \<le> length dst"
    and "ind' = map_option (\<lambda>_. to_i64 (int (length src * char_sz))) ind"
  shows "transfer_xstr0 ndebug ver s arec irec char_sz src0 (Some dst) ind =
    (if (length src + 1) * char_sz \<le> room arec
     then Some (gd_offset_update s (length src) (length src), SQL_SUCCESS,
       Some (src @ 0 # drop (Suc (length src)) dst), ind')
     else if room arec < char_sz
     then Some (s\<lparr>stmt_diag := posted ver (stmt_diag s) SQL_STATE_01004 (default_message SQL_STATE_01004)\<rparr>,
       SQL_SUCCESS_WITH_INFO, Some dst, ind')
     else Some ((gd_offset_update s (length src) (room arec div char_sz - 1))\<lparr>stmt_diag :=
         posted ver (stmt_diag s) SQL_STATE_01004 (default_message SQL_STATE_01004)\<rparr>,
       SQL_SUCCESS_WITH_INFO,
       Some (take (room arec div char_sz - 1) src @ 0 # drop (room arec div char_sz) dst), ind'))"
proof -
  let ?r = "room arec div char_sz" and ?n = "length src"
  have diag: "stmt_diag (gd_offset_update s a b) = stmt_diag s" for a b by (simp add: gd_offset_update_def)
  have ind: "write_out_octets s irec ind (?n * char_sz) = ind'"
    using assms(2,6) by (simp add: write_out_octets_def)
  have size: "buff_octet_size s arec irec ((?n + 1) * char_sz) char_sz =
      (if room arec < (?n + 1) * char_sz then (?r * char_sz, SQL_STATE_01004) else ((?n + 1) * char_sz, SQL_STATE_00000))"
    using assms(2) by (simp add: buff_octet_size_def room_def Let_def minus_mod_eq_div_mult)
  show ?thesis
  proof (cases "(?n + 1) * char_sz \<le> room arec")
    case True
    then have "?n + 1 \<le> ?r" using assms(1) by (metis div_le_mono nonzero_mult_div_cancel_right not_gr0)
    then have "Suc ?n \<le> length dst" using assms(5) by simp
    then show ?thesis
      using True assms(1,4) ind size copy_text_whole [of src dst ndebug]
      by (simp add: transfer_xstr0_def Let_def)
  next
    case False
    then have "?r \<le> ?n" using assms(1) by (metis Suc_eq_plus1 less_mult_imp_div_less not_le less_Suc_eq_le)
    show ?thesis
    proof (cases "room arec < char_sz")
      case True
      then show ?thesis
        using False assms(3,4) ind size RET_STMT_DIAG_ok [of ver s SQL_STATE_01004] posted_01004
        by (simp add: transfer_xstr0_def Let_def)
    next
      case large: False
      then have r: "0 < ?r" using assms(1) by (simp add: div_greater_zero_iff)
      then have "copy_text ndebug src (?r - 1) SQL_STATE_01004 dst = Some (take (?r - 1) src @ 0 # drop ?r dst)"
        using copy_text_cut [of "?r - 1" src dst SQL_STATE_01004 ndebug] \<open>?r \<le> ?n\<close> assms(5) by simp
      then show ?thesis
        using False large r assms(1,3,4) ind size diag posted_01004
          RET_STMT_DIAG_ok [of ver "gd_offset_update s ?n (?r - 1)" SQL_STATE_01004]
        by (simp add: transfer_xstr0_def Let_def)
    qed
  qed
qed

section \<open>Reading in pieces\<close>

text \<open>An application that reads a column with one \<open>SQLGetData\<close> call per buffer, until there is no more data:
  what is in the buffers up to their terminators.\<close>

fun gd_calls ::
    "bool \<Rightarrow> wstr \<Rightarrow> esodbc_rec \<Rightarrow> esodbc_rec \<Rightarrow> nat \<Rightarrow> 'c::zero list \<Rightarrow> 'c list list \<Rightarrow> esodbc_stmt
     \<Rightarrow> (esodbc_stmt \<times> 'c list list) option" where
  "gd_calls ndebug ver arec irec char_sz src [] s = Some (s, [])"
| "gd_calls ndebug ver arec irec char_sz src (buf # bufs) s =
    (if gd_offt s < 0 then Some (s, [])
     else (case transfer_xstr0 ndebug ver s (arec\<lparr>octet_length := int (length buf * char_sz)\<rparr>) irec char_sz src
         (Some buf) None of
       Some (s, _, Some dst, _) \<Rightarrow>
         map_option (\<lambda>(s, pieces). (s, takeWhile (\<lambda>c. c \<noteq> 0) dst # pieces))
           (gd_calls ndebug ver arec irec char_sz src bufs s)
     | _ \<Rightarrow> None))"

lemma gd_calls_exhausted: "gd_offt s < 0 \<Longrightarrow> gd_calls ndebug ver arec irec char_sz src bufs s = Some (s, [])"
  by (cases bufs) simp_all

lemma takeWhile_terminated: "0 \<notin> set cs \<Longrightarrow> takeWhile (\<lambda>c. c \<noteq> 0) (cs @ 0 # rest) = cs"
  by (induction cs) auto

definition room_for :: "'c list list \<Rightarrow> nat" where
  "room_for bufs = (\<Sum>b\<leftarrow>bufs. length b - 1)"

lemma gd_calls_pieces:
  assumes "0 < char_sz" "network_max s irec = 0" "diag_ok ver (stmt_diag s)" "0 \<notin> set src"
    and "STMT_GD_CALLING s" "0 \<le> gd_offt s" "gd_offt s \<le> int (length src)"
    and "\<forall>b\<in>set bufs. 2 \<le> length b \<and> length b * char_sz < 2 ^ 63"
  shows "\<exists>s' pieces. gd_calls ndebug ver arec irec char_sz src bufs s = Some (s', pieces) \<and>
    concat pieces = take (room_for bufs) (drop (nat (gd_offt s)) src) \<and>
    (gd_offt s' < 0 \<longleftrightarrow> bufs \<noteq> [] \<and> length src - nat (gd_offt s) \<le> room_for bufs)"
  using assms
proof (induction bufs arbitrary: s)
  case Nil
  then show ?case by (simp add: room_for_def)
next
  case (Cons buf bufs)
  define left where "left = drop (nat (gd_offt s)) src"
  have left: "gd_offset_apply s src = Some left" "0 \<notin> set left" "length left = length src - nat (gd_offt s)"
    using Cons.prems by (auto simp: gd_offset_apply_def left_def dest: in_set_dropD)
  have buf: "2 \<le> length buf" "length buf * char_sz < 2 ^ 63" using Cons.prems(8) by simp_all
  let ?arec = "arec\<lparr>octet_length := int (length buf * char_sz)\<rparr>"
  have "to_u64 (int (length buf * char_sz)) = int (length buf * char_sz)"
    using buf(2) by (simp add: to_u64_def flip: of_nat_mult)
  then have room: "room ?arec = length buf * char_sz" "room ?arec div char_sz = length buf"
    using Cons.prems(1) by (simp_all add: room_def flip: of_nat_mult)
  have fits: "(length left + 1) * char_sz \<le> room ?arec \<longleftrightarrow> length left + 1 \<le> length buf"
    unfolding room(1) using Cons.prems(1) by (simp only: mult_le_cancel2) simp
  have small: "\<not> room ?arec < char_sz" using room(1) buf(1) by auto
  note step = transfer_step [OF Cons.prems(1-3) left(1), of ?arec buf None None, simplified fits small if_False room(2)]
  have split: "room_for (buf # bufs) = (length buf - 1) + room_for bufs" by (simp add: room_for_def)
  show ?case
  proof (cases "length left + 1 \<le> length buf")
    case True
    let ?s = "s\<lparr>gd_offt := - 1\<rparr>"
    have "transfer_xstr0 ndebug ver s ?arec irec char_sz src (Some buf) None =
        Some (?s, SQL_SUCCESS, Some (left @ 0 # drop (Suc (length left)) buf), None)"
      using step True Cons.prems(5) by (simp add: gd_offset_update_def)
    then have "gd_calls ndebug ver arec irec char_sz src (buf # bufs) s = Some (?s, [left])"
      using Cons.prems(6) left(2) by (simp add: gd_calls_exhausted takeWhile_terminated)
    then show ?thesis using True left(3) split by (simp add: left_def)
  next
    case False
    let ?k = "length buf - 1"
    let ?s = "s\<lparr>stmt_diag := posted ver (stmt_diag s) SQL_STATE_01004 (default_message SQL_STATE_01004),
      gd_offt := gd_offt s + int ?k\<rparr>"
    have k: "?k < length left" "0 < ?k" using False buf(1) by simp_all
    have t: "transfer_xstr0 ndebug ver s ?arec irec char_sz src (Some buf) None =
        Some (?s, SQL_SUCCESS_WITH_INFO, Some (take ?k left @ 0 # drop (length buf) buf), None)"
      using step False k Cons.prems(5) by (simp add: gd_offset_update_def)
    have off: "nat (gd_offt ?s) = nat (gd_offt s) + ?k" using Cons.prems(6) by simp
    have "\<exists>s' pieces. gd_calls ndebug ver arec irec char_sz src bufs ?s = Some (s', pieces) \<and>
        concat pieces = take (room_for bufs) (drop (nat (gd_offt ?s)) src) \<and>
        (gd_offt s' < 0 \<longleftrightarrow> bufs \<noteq> [] \<and> length src - nat (gd_offt ?s) \<le> room_for bufs)"
      using Cons.prems left(3) k
      by (intro Cons.IH) (auto simp: network_max_def STMT_GD_CALLING_def)
    then obtain s' pieces where rest: "gd_calls ndebug ver arec irec char_sz src bufs ?s = Some (s', pieces)"
        "concat pieces = take (room_for bufs) (drop ?k left)"
        "gd_offt s' < 0 \<longleftrightarrow> bufs \<noteq> [] \<and> length left - ?k \<le> room_for bufs"
      unfolding off left_def left(3) by (auto simp: add.commute)
    have "takeWhile (\<lambda>c. c \<noteq> 0) (take ?k left @ 0 # drop (length buf) buf) = take ?k left"
      using left(2) by (intro takeWhile_terminated) (auto dest: in_set_takeD)
    then have "gd_calls ndebug ver arec irec char_sz src (buf # bufs) s = Some (s', take ?k left # pieces)"
      using t rest(1) Cons.prems(6) by simp
    moreover have "take ?k left @ concat pieces = take (room_for (buf # bufs)) left"
      unfolding rest(2) split by (simp add: take_add)
    moreover have "bufs = [] \<Longrightarrow> room_for bufs = 0" by (simp add: room_for_def)
    ultimately show ?thesis
      using rest(3) k split left(3) by (auto simp: left_def)
  qed
qed

section \<open>Properties\<close>

text \<open>C8: reading a column with repeated calls, whatever their buffers (of two units at least), gives the text
  in order with nothing lost or repeated, each piece terminated; the calls end exactly when the buffers
  had room for all of it. No call writes past its buffer.\<close>
theorem getdata_reassembles:
  assumes "0 < char_sz" and "network_max s irec = 0" and "diag_ok ver (stmt_diag s)" and "0 \<notin> set src"
    and "STMT_GD_CALLING s" and "gd_offt s = 0"
    and "\<forall>b\<in>set bufs. 2 \<le> length b \<and> length b * char_sz < 2 ^ 63"
  shows "\<exists>s' pieces. gd_calls ndebug ver arec irec char_sz src bufs s = Some (s', pieces) \<and>
    concat pieces = take (room_for bufs) src \<and>
    (gd_offt s' < 0 \<longleftrightarrow> bufs \<noteq> [] \<and> length src \<le> room_for bufs)"
  using gd_calls_pieces [OF assms(1-5) _ _ assms(7)] assms(6) by simp

text \<open>A limit on the length of the data (\<open>SQL_ATTR_MAX_LENGTH\<close>) that cuts the text leaves it without a
  terminator in the application's buffer, with no warning; a debug build stops there.\<close>
theorem max_length_unterminated:
  assumes "0 < char_sz" and "\<not> STMT_GD_CALLING s" and "0 \<notin> set src"
    and "char_sz \<le> network_max s irec" and "network_max s irec \<le> length src * char_sz"
    and "network_max s irec \<le> room arec" and "room arec div char_sz \<le> length dst"
  shows "transfer_xstr0 ndebug ver s arec irec char_sz src (Some dst) None =
    (if ndebug
     then Some (s, SQL_SUCCESS, Some (take (network_max s irec div char_sz) src @
         drop (network_max s irec div char_sz) dst), None)
     else None)"
proof -
  define k where "k = network_max s irec div char_sz - 1"
  have k: "Suc k = network_max s irec div char_sz"
    using assms(1,4) by (simp add: k_def div_greater_zero_iff)
  have "network_max s irec div char_sz \<le> length src * char_sz div char_sz"
    using assms(5) by (rule div_le_mono)
  then have le: "Suc k \<le> length src" using assms(1) k by simp
  have "network_max s irec div char_sz \<le> room arec div char_sz" using assms(6) by (rule div_le_mono)
  then have dst: "Suc k \<le> length dst" using assms(7) k by simp
  have "network_max s irec < (length src + 1) * char_sz" using assms(1,5) by simp
  then have size: "buff_octet_size s arec irec ((length src + 1) * char_sz) char_sz = (Suc k * char_sz, SQL_STATE_00000)"
    using assms(1,4,6) unfolding k by (simp add: buff_octet_size_def room_def minus_mod_eq_div_mult)
  have w: "mem_write_list dst 0 (take (Suc k) src) = Some (take (Suc k) src @ drop (Suc k) dst)"
    using le dst mem_write_list_front [of "take (Suc k) src" dst] by simp
  have "src ! k \<noteq> 0" using assms(3) le by (metis Suc_le_eq nth_mem)
  then have "mem_read (take (Suc k) src @ drop (Suc k) dst) k \<noteq> Some 0"
    using le by (simp add: mem_read_def nth_append)
  then have "copy_text ndebug src k SQL_STATE_00000 dst =
      (if ndebug then Some (take (Suc k) src @ drop (Suc k) dst) else None)"
    using w le by (simp add: copy_text_def)
  then show ?thesis
    using size assms(1,2) unfolding k [symmetric]
    by (simp add: transfer_xstr0_def gd_offset_apply_def Let_def write_out_octets_def gd_offset_update_def)
qed

definition reading_stmt :: esodbc_stmt where
  "reading_stmt = \<lparr>stmt_diag = desc_diag sample_desc, stmt_dbc = NULL, u8sql = None, ard = NULL, ird = NULL, apd = NULL,
     ipd = NULL, i_ard = sample_desc, i_ird = sample_desc, i_apd = sample_desc, i_ipd = sample_desc, bookmarks = 0,
     metadata_id = 0, max_length = 0, query_timeout = 0, has_resultset = True, has_cursor = True, nset = 0, tv_rows = 0,
     sql2c_conversion = 0, early_executed = False, gd_col = 1, gd_ctype = SQL_C_WCHAR, gd_offt = 0\<rparr>"

definition text_irec :: esodbc_rec where
  "text_irec = (init_rec DESC_TYPE_IRD)\<lparr>meta_type := METATYPE_STRING\<rparr>"

lemma getdata_reassembles_witness:
  "\<exists>s' pieces. gd_calls True (wlit ''1.0'') text_irec text_irec 2 (wlit ''Elasticsearch'') [replicate 8 1, replicate 8 1] reading_stmt
      = Some (s', pieces) \<and> concat pieces = wlit ''Elasticsearch'' \<and> gd_offt s' < 0"
  using getdata_reassembles [of 2 reading_stmt text_irec "wlit ''1.0''" "wlit ''Elasticsearch''"
      "[replicate 8 1, replicate 8 1]" True text_irec] desc_okD(3) [OF sample_desc_ok]
  by (simp add: network_max_def reading_stmt_def to_u64_def STMT_GD_CALLING_def room_for_def)

lemma max_length_unterminated_witness:
  "transfer_xstr0 True (wlit ''1.0'') (reading_stmt\<lparr>gd_col := - 1, max_length := 4\<rparr>) (text_irec\<lparr>octet_length := 20\<rparr>)
      text_irec 2 (wlit ''abc'') (Some (replicate 10 120)) None =
    Some (reading_stmt\<lparr>gd_col := - 1, max_length := 4\<rparr>, SQL_SUCCESS, Some (wlit ''ab'' @ replicate 8 120), None)"
proof -
  have "take 2 (wlit ''abc'') = wlit ''ab''" by code_simp
  then show ?thesis
    using max_length_unterminated [of 2 "reading_stmt\<lparr>gd_col := - 1, max_length := 4\<rparr>" "wlit ''abc''" text_irec
        "text_irec\<lparr>octet_length := 20\<rparr>" "replicate 10 120" True "wlit ''1.0''"]
    by (simp add: network_max_def to_u64_def STMT_GD_CALLING_def room_def text_irec_def)
qed

end
