(* ===== verification/Conv_Int.thy ===== *)
theory Conv_Int
imports Conv_Xfer Ivl_Roundtrip
begin

text \<open>
  Integers of a result set converted to what the application bound (driver/convert.c):
  \<open>double_to_numeric\<close>, \<open>llong_to_binary\<close>, \<open>quadword_to_str\<close> and \<open>sql2c_quadword\<close>.

  The application's buffer is seen as the C type makes of it (\<open>app_buf\<close>): octets, wide units or one of
  the structures. Numbers are stored in octets, the least first. A finite double is a sign and a pair
  \<open>(m, k)\<close> for \<open>m / 2 ^ k\<close>. \<open>None\<close> is undefined behaviour, or a view that is not the C type's.
\<close>

section \<open>Stored numbers\<close>

primrec le_bytes :: "nat \<Rightarrow> int \<Rightarrow> cstr" where
  "le_bytes 0 k = []"
| "le_bytes (Suc n) k = of_int k # le_bytes n (k div 256)"

record SQL_NUMERIC_STRUCT =
  n_precision :: int
  n_scale :: int
  n_sign :: int
  n_val :: cstr

datatype app_buf = Octets cstr | Wide wstr | Interval SQL_INTERVAL_STRUCT | Numeric SQL_NUMERIC_STRUCT

text \<open>An integer rounded to a binary floating point number of \<open>p\<close> fraction bits, ties to even.\<close>

fun log2_floor :: "nat \<Rightarrow> nat" where
  "log2_floor n = (if n < 2 then 0 else Suc (log2_floor (n div 2)))"

declare log2_floor.simps [simp del]

definition ieee_bits :: "nat \<Rightarrow> nat \<Rightarrow> nat \<Rightarrow> nat" where
  "ieee_bits p bias n =
    (if n = 0 then 0
     else let e = log2_floor n;
              m = (if e \<le> p then n * 2 ^ (p - e) else round_even_div n (2 ^ (e - p))) in
       (e + bias) * 2 ^ p + m - 2 ^ p)"

definition ieee_bytes :: "nat \<Rightarrow> nat \<Rightarrow> nat \<Rightarrow> int \<Rightarrow> cstr" where
  "ieee_bytes sz p bias k =
    le_bytes sz (int (ieee_bits p bias (nat \<bar>k\<bar>)) + (if k < 0 then 2 ^ (8 * sz - 1) else 0))"

section \<open>Numeric\<close>

function dbl_shift :: "nat \<Rightarrow> nat \<Rightarrow> nat \<Rightarrow> nat" where
  "dbl_shift n d j = (if d = 0 \<or> n < 2 ^ 53 * d then j else dbl_shift n (2 * d) (Suc j))"
  by pat_completeness auto
termination by (relation "measure (\<lambda>(n, d, j). n - d)") auto

declare dbl_shift.simps [simp del]

definition dbl_ratio :: "nat \<Rightarrow> nat \<Rightarrow> nat \<times> nat" where
  "dbl_ratio n d =
    (if n < 2 ^ 53 * d then double_of_ratio n d
     else let j = dbl_shift n d 0 in (round_even_div n (d * 2 ^ j) * 2 ^ j, 0))"

definition DBL_MAX :: "nat \<times> nat" where "DBL_MAX = ((2 ^ 53 - 1) * 2 ^ 971, 0)"

definition dbl_less :: "nat \<times> nat \<Rightarrow> nat \<times> nat \<Rightarrow> bool" where
  "dbl_less x y \<longleftrightarrow> fst x * 2 ^ snd y < fst y * 2 ^ snd x"

definition dbl_div :: "nat \<times> nat \<Rightarrow> nat \<times> nat \<Rightarrow> nat \<times> nat" where
  "dbl_div x y = dbl_ratio (fst x * 2 ^ snd y) (fst y * 2 ^ snd x)"

definition dbl_mult :: "nat \<times> nat \<Rightarrow> nat \<times> nat \<Rightarrow> nat \<times> nat" where
  "dbl_mult x y = dbl_ratio (fst x * fst y) (2 ^ snd x * 2 ^ snd y)"

definition dbl_trunc :: "nat \<times> nat \<Rightarrow> nat" where
  "dbl_trunc x = fst x div 2 ^ snd x"

text \<open>The conversions of a magnitude to 64 bits, undefined out of their range.\<close>

definition to_ullong :: "nat \<times> nat \<Rightarrow> nat option" where
  "to_ullong x = (if dbl_trunc x < 2 ^ 64 then Some (dbl_trunc x) else None)"

definition to_llong :: "nat \<times> nat \<Rightarrow> nat option" where
  "to_llong x = (if dbl_trunc x < 2 ^ 63 then Some (dbl_trunc x) else None)"

text \<open>The scaled magnitude; the inner \<open>None\<close> is the failed check of the range.\<close>

definition numeric_scaled :: "int \<Rightarrow> bool \<Rightarrow> nat \<times> nat \<Rightarrow> nat option option" where
  "numeric_scaled sc neg src =
    (if sc < 0 then do {
       pow \<leftarrow> pow10 (nat (- sc));
       n \<leftarrow> to_llong (dbl_div src (dbl_ratio (unat pow) 1));
       Some (Some n) }
     else if 0 < sc then do {
       pow \<leftarrow> pow10 (nat sc);
       if \<not> neg \<and> dbl_less (dbl_div DBL_MAX (dbl_ratio (unat pow) 1)) src then Some None
       else do {
         n \<leftarrow> to_llong (dbl_mult src (dbl_ratio (unat pow) 1));
         Some (Some n) } }
     else map_option Some (to_llong src))"

definition double_to_numeric ::
    "bool \<Rightarrow> wstr \<Rightarrow> esodbc_stmt \<Rightarrow> esodbc_rec \<Rightarrow> bool \<Rightarrow> nat \<times> nat
     \<Rightarrow> (esodbc_stmt \<times> sqlreturn \<times> SQL_NUMERIC_STRUCT option) option" where
  "double_to_numeric ndebug ver s arec neg src = do {
     whole \<leftarrow> to_ullong src;
     r \<leftarrow> numeric_scaled (scale arec) neg src;
     let prec = to_i16 ((if whole = 0 then 0 else int (length (dec_digits whole))) + scale arec);
     case r of
       None \<Rightarrow> map_option (\<lambda>(s, ret). (s, ret, None)) (RET_STMT_DIAG ver s SQL_STATE_22003)
     | Some ullng \<Rightarrow>
         if 255 < prec \<or> 0 < precision arec \<and> precision arec < prec
         then map_option (\<lambda>(s, ret). (s, ret, None)) (RET_STMT_DIAG ver s SQL_STATE_22003)
         else if prec < 0 \<and> ullng \<noteq> 0 \<and> \<not> ndebug then None
         else Some (s, SQL_SUCCESS, Some \<lparr>n_precision = (if prec < 0 then 0 else prec),
           n_scale = scale arec mod 256, n_sign = (if neg \<and> fst src \<noteq> 0 then 0 else 1),
           n_val = le_bytes 8 (int ullng) @ replicate 8 0\<rparr>) }"

section \<open>Binary and text\<close>

definition REJECT :: "wstr \<Rightarrow> esodbc_stmt \<Rightarrow> esodbc_state \<Rightarrow> app_buf option \<Rightarrow> int option
    \<Rightarrow> (esodbc_stmt \<times> sqlreturn \<times> app_buf option \<times> int option) option" where
  "REJECT ver s st data ind = map_option (\<lambda>(s, ret). (s, ret, data, ind)) (RET_STMT_DIAG ver s st)"

definition llong_octets :: "u64 \<Rightarrow> nat" where
  "llong_octets src =
    (let ull = (if sint src < 0 then - src else src) in
     if ull < 127 then 1 else if ull < 32767 then 2 else if ull < 2147483647 then 4 else if ull < 2147483647 then 4 else 8)"

definition llong_to_binary ::
    "wstr \<Rightarrow> esodbc_stmt \<Rightarrow> esodbc_rec \<Rightarrow> esodbc_rec \<Rightarrow> u64 \<Rightarrow> app_buf option \<Rightarrow> int option
     \<Rightarrow> (esodbc_stmt \<times> sqlreturn \<times> app_buf option \<times> int option) option" where
  "llong_to_binary ver s arec irec src data ind =
    (let (cnt, st) = buff_octet_size s arec irec (llong_octets src) 1 in
     if st \<noteq> SQL_STATE_00000 then REJECT ver s SQL_STATE_22003 data ind
     else (case (case data of
             None \<Rightarrow> Some None
           | Some (Octets buf) \<Rightarrow> map_option (\<lambda>b. Some (Octets b)) (mem_write_list buf 0 (take cnt (le_bytes 8 (sint src))))
           | _ \<Rightarrow> None) of
         None \<Rightarrow> None
       | Some data \<Rightarrow> Some (s, SQL_SUCCESS, data, write_out_octets s irec ind cnt)))"

definition quadword_xstr :: "u64 \<Rightarrow> bool \<Rightarrow> bool \<Rightarrow> xstr" where
  "quadword_xstr qword unsignd wide = (if unsignd then ui64tot qword wide else i64tot qword wide)"

definition quadword_transfer ::
    "bool \<Rightarrow> wstr \<Rightarrow> esodbc_stmt \<Rightarrow> esodbc_rec \<Rightarrow> esodbc_rec \<Rightarrow> xstr \<Rightarrow> app_buf option \<Rightarrow> int option
     \<Rightarrow> (esodbc_stmt \<times> sqlreturn \<times> app_buf option \<times> int option) option" where
  "quadword_transfer ndebug ver s arec irec src data ind =
    (case (src, data) of
       (WStr w, None) \<Rightarrow> map_option (\<lambda>(s, ret, _, ind). (s, ret, None, ind)) (transfer_xstr0 ndebug ver s arec irec 2 w None ind)
     | (WStr w, Some (Wide buf)) \<Rightarrow>
         map_option (\<lambda>(s, ret, buf, ind). (s, ret, map_option Wide buf, ind)) (transfer_xstr0 ndebug ver s arec irec 2 w (Some buf) ind)
     | (CStr c, None) \<Rightarrow> map_option (\<lambda>(s, ret, _, ind). (s, ret, None, ind)) (transfer_xstr0 ndebug ver s arec irec 1 c None ind)
     | (CStr c, Some (Octets buf)) \<Rightarrow>
         map_option (\<lambda>(s, ret, buf, ind). (s, ret, map_option Octets buf, ind)) (transfer_xstr0 ndebug ver s arec irec 1 c (Some buf) ind)
     | _ \<Rightarrow> None)"

definition quadword_to_str ::
    "bool \<Rightarrow> wstr \<Rightarrow> esodbc_stmt \<Rightarrow> esodbc_rec \<Rightarrow> esodbc_rec \<Rightarrow> u64 \<Rightarrow> bool \<Rightarrow> bool \<Rightarrow> app_buf option \<Rightarrow> int option
     \<Rightarrow> (esodbc_stmt \<times> sqlreturn \<times> app_buf option \<times> int option) option" where
  "quadword_to_str ndebug ver s arec irec qword unsignd wide data ind = do {
     (s, ret, data, ind) \<leftarrow> quadword_transfer ndebug ver s arec irec (quadword_xstr qword unsignd wide) data ind;
     if ret = SQL_SUCCESS_WITH_INFO \<and> state (stmt_diag s) = SQL_STATE_01004 then
       (if STMT_GD_CALLING s then Some (s, ret, data, ind) else REJECT ver s SQL_STATE_22003 data ind)
     else Some (s, SQL_SUCCESS, data, ind) }"

section \<open>The conversion\<close>

text \<open>\<open>lo\<close> and \<open>hi\<close> are the limits of the C type, \<open>sz\<close> its size.\<close>

definition TRANSFER_QW ::
    "wstr \<Rightarrow> esodbc_stmt \<Rightarrow> esodbc_rec \<Rightarrow> int \<Rightarrow> int \<Rightarrow> nat \<Rightarrow> u64 \<Rightarrow> bool \<Rightarrow> app_buf option \<Rightarrow> int option
     \<Rightarrow> (esodbc_stmt \<times> sqlreturn \<times> app_buf option \<times> int option) option" where
  "TRANSFER_QW ver s irec lo hi sz qword unsignd data ind =
    (case data of
       None \<Rightarrow> REJECT ver s SQL_STATE_HY009 data ind
     | Some (Octets buf) \<Rightarrow>
         (let v = (if unsignd then uint qword else sint qword);
              lo = (if unsignd then 0 else lo) in
          if v < lo \<or> hi < v then REJECT ver s SQL_STATE_22003 data ind
          else map_option (\<lambda>buf. (s, SQL_SUCCESS, Some (Octets buf), write_out_octets s irec ind sz))
            (mem_write_list buf 0 (le_bytes sz v)))
     | _ \<Rightarrow> None)"

definition quadword_to_bit ::
    "wstr \<Rightarrow> esodbc_stmt \<Rightarrow> esodbc_rec \<Rightarrow> u64 \<Rightarrow> app_buf option \<Rightarrow> int option
     \<Rightarrow> (esodbc_stmt \<times> sqlreturn \<times> app_buf option \<times> int option) option" where
  "quadword_to_bit ver s irec qword data ind =
    (case data of
       None \<Rightarrow> REJECT ver s SQL_STATE_HY009 data ind
     | Some (Octets buf) \<Rightarrow>
         if sint qword \<noteq> 0 \<and> sint qword \<noteq> 1 then REJECT ver s SQL_STATE_22003 data ind
         else map_option (\<lambda>buf. (s, SQL_SUCCESS, Some (Octets buf), write_out_octets s irec ind 1))
           (mem_write buf 0 (of_int (sint qword)))
     | _ \<Rightarrow> None)"

definition quadword_to_real ::
    "wstr \<Rightarrow> esodbc_stmt \<Rightarrow> esodbc_rec \<Rightarrow> nat \<Rightarrow> nat \<Rightarrow> nat \<Rightarrow> u64 \<Rightarrow> bool \<Rightarrow> app_buf option \<Rightarrow> int option
     \<Rightarrow> (esodbc_stmt \<times> sqlreturn \<times> app_buf option \<times> int option) option" where
  "quadword_to_real ver s irec sz p bias qword unsignd data ind =
    (case data of
       None \<Rightarrow> REJECT ver s SQL_STATE_HY009 data ind
     | Some (Octets buf) \<Rightarrow>
         map_option (\<lambda>buf. (s, SQL_SUCCESS, Some (Octets buf), write_out_octets s irec ind sz))
           (mem_write_list buf 0 (ieee_bytes sz p bias (if unsignd then uint qword else sint qword)))
     | _ \<Rightarrow> None)"

definition quadword_to_numeric ::
    "bool \<Rightarrow> wstr \<Rightarrow> esodbc_stmt \<Rightarrow> esodbc_rec \<Rightarrow> esodbc_rec \<Rightarrow> u64 \<Rightarrow> bool \<Rightarrow> app_buf option \<Rightarrow> int option
     \<Rightarrow> (esodbc_stmt \<times> sqlreturn \<times> app_buf option \<times> int option) option" where
  "quadword_to_numeric ndebug ver s arec irec qword unsignd data ind =
    (if data = None then REJECT ver s SQL_STATE_HY009 data ind
     else do {
       let v = (if unsignd then uint qword else sint qword);
       (s, ret, n) \<leftarrow> double_to_numeric ndebug ver s arec (v < 0) (dbl_ratio (nat \<bar>v\<bar>) 1);
       case n of
         None \<Rightarrow> Some (s, ret, data, ind)
       | Some n \<Rightarrow> Some (s, SQL_SUCCESS, Some (Numeric n), write_out_octets s irec ind 19) })"

text \<open>\<open>sizeof(SQL_INTERVAL_STRUCT)\<close> is 28. Negating the least quad word leaves it as it is.\<close>

definition quadword_to_interval ::
    "wstr \<Rightarrow> esodbc_stmt \<Rightarrow> esodbc_rec \<Rightarrow> int \<Rightarrow> (u32 \<Rightarrow> SQL_INTERVAL_STRUCT \<Rightarrow> SQL_INTERVAL_STRUCT) \<Rightarrow> u64 \<Rightarrow> bool
     \<Rightarrow> app_buf option \<Rightarrow> int option \<Rightarrow> (esodbc_stmt \<times> sqlreturn \<times> app_buf option \<times> int option) option" where
  "quadword_to_interval ver s irec ivl_type set_comp qword unsignd data ind =
    (if data = None then REJECT ver s SQL_STATE_HY009 data ind
     else
       (let neg = (\<not> unsignd \<and> sint qword < 0);
            ivl_val = (if neg then - qword else qword);
            v = (if unsignd then uint ivl_val else sint ivl_val) in
        if v < 0 \<or> 4294967295 < v then REJECT ver s SQL_STATE_22003 data ind
        else Some (s, SQL_SUCCESS,
          Some (Interval (set_comp (ucast ivl_val) (zero_interval\<lparr>interval_sign := neg, interval_type := ivl_type\<rparr>))),
          write_out_octets s irec ind 28)))"

definition sql2c_quadword ::
    "bool \<Rightarrow> wstr \<Rightarrow> esodbc_stmt \<Rightarrow> esodbc_rec \<Rightarrow> esodbc_rec \<Rightarrow> int \<Rightarrow> u64 \<Rightarrow> bool \<Rightarrow> app_buf option \<Rightarrow> int option
     \<Rightarrow> (esodbc_stmt \<times> sqlreturn \<times> app_buf option \<times> int option) option" where
  "sql2c_quadword ndebug ver s arec irec c_concise qword unsignd data ind =
    (let ctype = get_rec_c_type arec c_concise;
         transfer = (\<lambda>lo hi sz. TRANSFER_QW ver s irec lo hi sz qword unsignd data ind);
         interval = (\<lambda>t set. quadword_to_interval ver s irec t set qword unsignd data ind) in
     if ctype = SQL_C_CHAR \<or> ctype = SQL_C_WCHAR
       then quadword_to_str ndebug ver s arec irec qword unsignd (ctype = SQL_C_WCHAR) data ind
     else if ctype = SQL_C_TINYINT \<or> ctype = SQL_C_STINYINT then transfer (- 128) 127 1
     else if ctype = SQL_C_UTINYINT then transfer 0 255 1
     else if ctype = SQL_C_SHORT \<or> ctype = SQL_C_SSHORT then transfer (- 32768) 32767 2
     else if ctype = SQL_C_USHORT then transfer 0 65535 2
     else if ctype = SQL_C_LONG \<or> ctype = SQL_C_SLONG then transfer (- 2147483648) 2147483647 4
     else if ctype = SQL_C_ULONG then transfer 0 4294967295 4
     else if ctype = SQL_C_SBIGINT then transfer (- 9223372036854775808) 9223372036854775807 8
     else if ctype = SQL_C_UBIGINT then transfer 0 18446744073709551615 8
     else if ctype = SQL_C_BIT then quadword_to_bit ver s irec qword data ind
     else if ctype = SQL_C_NUMERIC then quadword_to_numeric ndebug ver s arec irec qword unsignd data ind
     else if ctype = SQL_C_FLOAT then quadword_to_real ver s irec 4 23 127 qword unsignd data ind
     else if ctype = SQL_C_DOUBLE then quadword_to_real ver s irec 8 52 1023 qword unsignd data ind
     else if ctype = SQL_C_BINARY then llong_to_binary ver s arec irec qword data ind
     else if ctype = SQL_C_INTERVAL_YEAR then interval SQL_IS_YEAR (\<lambda>u. year_day_update (\<lambda>_. u))
     else if ctype = SQL_C_INTERVAL_MONTH then interval SQL_IS_MONTH (\<lambda>u. month_hour_update (\<lambda>_. u))
     else if ctype = SQL_C_INTERVAL_DAY then interval SQL_IS_DAY (\<lambda>u. year_day_update (\<lambda>_. u))
     else if ctype = SQL_C_INTERVAL_HOUR then interval SQL_IS_HOUR (\<lambda>u. month_hour_update (\<lambda>_. u))
     else if ctype = SQL_C_INTERVAL_MINUTE then interval SQL_IS_MINUTE (\<lambda>u. minute_update (\<lambda>_. u))
     else if ctype = SQL_C_INTERVAL_SECOND then interval SQL_IS_SECOND (\<lambda>u. second_update (\<lambda>_. u))
     else do {
       (d, ret) \<leftarrow> post_diagnostic ver (stmt_diag s) SQL_STATE_HY000
         (Some (wlit ''Unexpected application data type for source of type long'' @ [0])) 0;
       Some (s\<lparr>stmt_diag := d\<rparr>, ret, data, ind) })"

section \<open>What is stored is the number\<close>

primrec le_value :: "cstr \<Rightarrow> int" where
  "le_value [] = 0"
| "le_value (b # bs) = uint b + 256 * le_value bs"

text \<open>An object of the C type: its octets read as unsigned or as two's complement.\<close>

definition get_le :: "bool \<Rightarrow> cstr \<Rightarrow> int" where
  "get_le signd bs =
    (if signd \<and> 2 ^ (8 * length bs - 1) \<le> le_value bs then le_value bs - 2 ^ (8 * length bs) else le_value bs)"

lemma length_le_bytes [simp]: "length (le_bytes n k) = n"
  by (induction n arbitrary: k) simp_all

lemma le_value_bytes: "le_value (le_bytes n k) = k mod 256 ^ n"
proof (induction n arbitrary: k)
  case (Suc n)
  have "uint (of_int k :: sqlchar) = k mod 256" by (simp add: uint_word_of_int)
  moreover have "k mod (256 * 256 ^ n) = 256 * (k div 256 mod 256 ^ n) + k mod 256"
    by (rule zmod_zmult2_eq) simp
  ultimately show ?case using Suc by simp
qed simp

lemma pow256: "(256 :: int) ^ n = 2 ^ (8 * n)"
  by (simp add: power_mult)

lemma get_le_unsigned: "0 \<le> k \<Longrightarrow> k < 256 ^ n \<Longrightarrow> get_le False (le_bytes n k) = k"
  by (simp add: get_le_def le_value_bytes)

lemma get_le_signed:
  assumes "0 < n" "- (2 ^ (8 * n - 1)) \<le> k" "k < 2 ^ (8 * n - 1)"
  shows "get_le True (le_bytes n k) = k"
proof -
  have two: "(2 :: int) ^ (8 * n) = 2 * 2 ^ (8 * n - 1)" using assms(1) by (cases "8 * n") simp_all
  show ?thesis
  proof (cases "0 \<le> k")
    case True
    then have "k mod 2 ^ (8 * n) = k" using assms(3) two by simp
    then show ?thesis using assms(3) by (simp add: get_le_def le_value_bytes pow256)
  next
    case False
    have "(k + 2 ^ (8 * n)) mod 2 ^ (8 * n) = k + 2 ^ (8 * n)"
      using False assms(2) two by (intro mod_pos_pos_trivial) simp_all
    then have "k mod 2 ^ (8 * n) = k + 2 ^ (8 * n)" by simp
    then show ?thesis using False assms(2) two by (simp add: get_le_def le_value_bytes pow256)
  qed
qed

section \<open>The integer types of C\<close>

text \<open>What the transfer to an integer type relies on: its limits, and that a number within them is stored in
  \<open>sz\<close> octets from which \<open>get\<close> reads it.\<close>

locale c_integer =
  fixes lo hi :: int and sz :: nat and get :: "cstr \<Rightarrow> int"
  assumes get_stored: "lo \<le> k \<Longrightarrow> k \<le> hi \<Longrightarrow> get (le_bytes sz k) = k"
    and limits: "lo \<le> 0" "0 \<le> hi"
begin

text \<open>The number or a refusal that leaves the buffer as it was.\<close>

lemma transfer_exact:
  assumes "diag_ok ver (stmt_diag s)" "sz \<le> length buf"
    and "v = (if unsignd then uint qword else sint (qword :: u64))"
  shows "if lo \<le> v \<and> v \<le> hi
    then \<exists>buf'. TRANSFER_QW ver s irec lo hi sz qword unsignd (Some (Octets buf)) ind =
        Some (s, SQL_SUCCESS, Some (Octets buf'), write_out_octets s irec ind sz) \<and>
      length buf' = length buf \<and> get (take sz buf') = v \<and> drop sz buf' = drop sz buf
    else \<exists>s' ret. TRANSFER_QW ver s irec lo hi sz qword unsignd (Some (Octets buf)) ind =
        Some (s', ret, Some (Octets buf), ind) \<and> ret = state_retcode (esodbc_errors ! SQL_STATE_22003) \<and>
        state (stmt_diag s') = SQL_STATE_22003"
proof -
  have low: "v < (if unsignd then 0 else lo) \<longleftrightarrow> v < lo"
  proof (cases unsignd)
    case True
    then have "0 \<le> v" using assms(3) by simp
    then show ?thesis using True limits(1) by simp
  qed simp
  have w: "mem_write_list buf 0 (le_bytes sz v) = Some (le_bytes sz v @ drop sz buf)"
    using mem_write_list_front [of "le_bytes sz v" buf] assms(2) by simp
  show ?thesis
  proof (cases "lo \<le> v \<and> v \<le> hi")
    case True
    then show ?thesis
      using w low assms(2) get_stored [of v]
      by (simp add: TRANSFER_QW_def Let_def flip: assms(3))
  next
    case False
    then show ?thesis
      using low assms(1)
      by (auto simp: TRANSFER_QW_def Let_def REJECT_def RET_STMT_DIAG_ok [simplified] simp flip: assms(3))
  qed
qed

end

interpretation schar: c_integer "- 128" 127 1 "get_le True"
  by unfold_locales (use get_le_signed [of 1] in simp_all)

interpretation uchar: c_integer 0 255 1 "get_le False"
  by unfold_locales (use get_le_unsigned [of _ 1] in simp_all)

interpretation sshort: c_integer "- 32768" 32767 2 "get_le True"
  by unfold_locales (use get_le_signed [of 2] in simp_all)

interpretation ushort: c_integer 0 65535 2 "get_le False"
  by unfold_locales (use get_le_unsigned [of _ 2] in simp_all)

interpretation slong: c_integer "- 2147483648" 2147483647 4 "get_le True"
  by unfold_locales (use get_le_signed [of 4] in simp_all)

interpretation ulong: c_integer 0 4294967295 4 "get_le False"
  by unfold_locales (use get_le_unsigned [of _ 4] in simp_all)

interpretation sbigint: c_integer "- 9223372036854775808" 9223372036854775807 8 "get_le True"
  by unfold_locales (use get_le_signed [of 8] in simp_all)

interpretation ubigint: c_integer 0 18446744073709551615 8 "get_le False"
  by unfold_locales (use get_le_unsigned [of _ 8] in simp_all)

text \<open>The type of an integer target: whether it is signed and its octets.\<close>

definition int_target :: "int \<Rightarrow> (bool \<times> nat) option" where
  "int_target ctype = map_of
     [(SQL_C_TINYINT, (True, 1)), (SQL_C_STINYINT, (True, 1)), (SQL_C_UTINYINT, (False, 1)),
      (SQL_C_SHORT, (True, 2)), (SQL_C_SSHORT, (True, 2)), (SQL_C_USHORT, (False, 2)),
      (SQL_C_LONG, (True, 4)), (SQL_C_SLONG, (True, 4)), (SQL_C_ULONG, (False, 4)),
      (SQL_C_SBIGINT, (True, 8)), (SQL_C_UBIGINT, (False, 8))] ctype"

definition in_range :: "bool \<Rightarrow> nat \<Rightarrow> int \<Rightarrow> bool" where
  "in_range signd sz v \<longleftrightarrow>
    (if signd then - (2 ^ (8 * sz - 1)) \<le> v \<and> v < 2 ^ (8 * sz - 1) else 0 \<le> v \<and> v < 2 ^ (8 * sz))"

lemma int_target_sizes:
  "int_target ctype = Some (signd, sz) \<Longrightarrow> sz = 1 \<or> sz = 2 \<or> sz = 4 \<or> sz = 8"
  by (auto simp: int_target_def split: if_splits)

lemma int_target_transfer:
  assumes "int_target (get_rec_c_type arec c_concise) = Some (signd, sz)"
  shows "sql2c_quadword ndebug ver s arec irec c_concise qword unsignd data ind =
    TRANSFER_QW ver s irec (if signd then - (2 ^ (8 * sz - 1)) else 0)
      (if signd then 2 ^ (8 * sz - 1) - 1 else 2 ^ (8 * sz) - 1) sz qword unsignd data ind"
proof -
  obtain ctype where c: "get_rec_c_type arec c_concise = ctype" by simp
  have "ctype \<in> set (map fst [(SQL_C_TINYINT, 0), (SQL_C_STINYINT, 0), (SQL_C_UTINYINT, 0), (SQL_C_SHORT, 0),
      (SQL_C_SSHORT, 0), (SQL_C_USHORT, 0), (SQL_C_LONG, 0), (SQL_C_SLONG, 0), (SQL_C_ULONG, 0), (SQL_C_SBIGINT, 0),
      (SQL_C_UBIGINT, 0 :: int)])"
    using assms unfolding c by (auto simp: int_target_def split: if_splits)
  then have "ctype = - 6 \<or> ctype = - 26 \<or> ctype = - 28 \<or> ctype = 5 \<or> ctype = - 15 \<or> ctype = - 17 \<or> ctype = 4 \<or>
      ctype = - 16 \<or> ctype = - 18 \<or> ctype = - 25 \<or> ctype = - 27"
    by simp
  then show ?thesis
    using assms unfolding sql2c_quadword_def Let_def c
    by (elim disjE) (auto simp: int_target_def)
qed

lemma transfer_exact_sized:
  assumes "sz = 1 \<or> sz = 2 \<or> sz = 4 \<or> sz = 8" "diag_ok ver (stmt_diag s)" "sz \<le> length buf"
    and "v = (if unsignd then uint qword else sint (qword :: u64))"
    and "lo = (if signd then - (2 ^ (8 * sz - 1)) else 0)" "hi = (if signd then 2 ^ (8 * sz - 1) - 1 else 2 ^ (8 * sz) - 1)"
  shows "if lo \<le> v \<and> v \<le> hi
    then \<exists>buf'. TRANSFER_QW ver s irec lo hi sz qword unsignd (Some (Octets buf)) ind =
        Some (s, SQL_SUCCESS, Some (Octets buf'), write_out_octets s irec ind sz) \<and>
      length buf' = length buf \<and> get_le signd (take sz buf') = v \<and> drop sz buf' = drop sz buf
    else \<exists>s' ret. TRANSFER_QW ver s irec lo hi sz qword unsignd (Some (Octets buf)) ind =
        Some (s', ret, Some (Octets buf), ind) \<and> ret = state_retcode (esodbc_errors ! SQL_STATE_22003) \<and>
        state (stmt_diag s') = SQL_STATE_22003"
proof (cases signd)
  case True
  then have l: "signd = True" "lo = - (2 ^ (8 * sz - 1))" "hi = 2 ^ (8 * sz - 1) - 1" using assms(5,6) by simp_all
  from assms(1) show ?thesis
  proof (elim disjE)
    assume sz: "sz = 1"
    then have n: "lo = - 128" "hi = 127" using l by simp_all
    show ?thesis unfolding n l(1) sz by (rule schar.transfer_exact [OF assms(2) assms(3) [unfolded sz] assms(4)])
  next
    assume sz: "sz = 2"
    then have n: "lo = - 32768" "hi = 32767" using l by simp_all
    show ?thesis unfolding n l(1) sz by (rule sshort.transfer_exact [OF assms(2) assms(3) [unfolded sz] assms(4)])
  next
    assume sz: "sz = 4"
    then have n: "lo = - 2147483648" "hi = 2147483647" using l by simp_all
    show ?thesis unfolding n l(1) sz by (rule slong.transfer_exact [OF assms(2) assms(3) [unfolded sz] assms(4)])
  next
    assume sz: "sz = 8"
    then have n: "lo = - 9223372036854775808" "hi = 9223372036854775807" using l by simp_all
    show ?thesis unfolding n l(1) sz by (rule sbigint.transfer_exact [OF assms(2) assms(3) [unfolded sz] assms(4)])
  qed
next
  case False
  then have l: "signd = False" "lo = 0" "hi = 2 ^ (8 * sz) - 1" using assms(5,6) by simp_all
  from assms(1) show ?thesis
  proof (elim disjE)
    assume sz: "sz = 1"
    then have n: "lo = 0" "hi = 255" using l by simp_all
    show ?thesis unfolding n l(1) sz by (rule uchar.transfer_exact [OF assms(2) assms(3) [unfolded sz] assms(4)])
  next
    assume sz: "sz = 2"
    then have n: "lo = 0" "hi = 65535" using l by simp_all
    show ?thesis unfolding n l(1) sz by (rule ushort.transfer_exact [OF assms(2) assms(3) [unfolded sz] assms(4)])
  next
    assume sz: "sz = 4"
    then have n: "lo = 0" "hi = 4294967295" using l by simp_all
    show ?thesis unfolding n l(1) sz by (rule ulong.transfer_exact [OF assms(2) assms(3) [unfolded sz] assms(4)])
  next
    assume sz: "sz = 8"
    then have n: "lo = 0" "hi = 18446744073709551615" using l by simp_all
    show ?thesis unfolding n l(1) sz by (rule ubigint.transfer_exact [OF assms(2) assms(3) [unfolded sz] assms(4)])
  qed
qed

section \<open>Properties\<close>

text \<open>C9: an integer converted to one of the eleven integer types of C is stored exactly, in the octets of the
  type and no others, or, when it is out of the type's range, refused with state 22003 and the buffer
  left as it was.\<close>
theorem sql2c_quadword_exact:
  assumes "int_target (get_rec_c_type arec c_concise) = Some (signd, sz)"
    and "diag_ok ver (stmt_diag s)" and "sz \<le> length buf"
    and "v = (if unsignd then uint qword else sint qword)"
  shows "if in_range signd sz v
    then \<exists>buf'. sql2c_quadword ndebug ver s arec irec c_concise qword unsignd (Some (Octets buf)) ind =
        Some (s, SQL_SUCCESS, Some (Octets buf'), write_out_octets s irec ind sz) \<and>
      length buf' = length buf \<and> get_le signd (take sz buf') = v \<and> drop sz buf' = drop sz buf
    else \<exists>s' ret. sql2c_quadword ndebug ver s arec irec c_concise qword unsignd (Some (Octets buf)) ind =
        Some (s', ret, Some (Octets buf), ind) \<and> ret = state_retcode (esodbc_errors ! SQL_STATE_22003) \<and>
        state (stmt_diag s') = SQL_STATE_22003"
proof -
  let ?lo = "if signd then - (2 ^ (8 * sz - 1)) else 0 :: int"
  let ?hi = "if signd then 2 ^ (8 * sz - 1) - 1 else 2 ^ (8 * sz) - 1 :: int"
  have range: "in_range signd sz v \<longleftrightarrow> ?lo \<le> v \<and> v \<le> ?hi" by (auto simp: in_range_def)
  show ?thesis
    unfolding int_target_transfer [OF assms(1)] range
    by (rule transfer_exact_sized [OF int_target_sizes [OF assms(1)] assms(2-4) refl refl])
qed

lemma sql2c_quadword_exact_witness:
  "\<exists>s' ret. sql2c_quadword True (wlit ''1.0'') reading_stmt (text_irec\<lparr>concise_type := SQL_C_STINYINT\<rparr>) text_irec 0 200 True
      (Some (Octets [7, 8])) None = Some (s', ret, Some (Octets [7, 8]), None) \<and>
    ret = state_retcode (esodbc_errors ! SQL_STATE_22003) \<and> state (stmt_diag s') = SQL_STATE_22003"
  using sql2c_quadword_exact [of "text_irec\<lparr>concise_type := SQL_C_STINYINT\<rparr>" 0 True 1 "wlit ''1.0''" reading_stmt "[7, 8]"
      200 True 200 True text_irec None] desc_okD(3) [OF sample_desc_ok]
  by (simp add: get_rec_c_type_def int_target_def reading_stmt_def in_range_def)

lemma le_bytes_take: "m \<le> n \<Longrightarrow> take m (le_bytes n k) = le_bytes m k"
  by (induction m arbitrary: n k) (simp_all add: Suc_le_D split: nat.splits, metis Suc_le_D Suc_le_mono le_bytes.simps(2) take_Suc_Cons)

lemma uint_magnitude: "uint (if sint (src :: u64) < 0 then - src else src) = \<bar>sint src\<bar>"
proof -
  have v: "of_int (sint src) = src" by simp
  have range: "- 9223372036854775808 \<le> sint src" "sint src \<le> 9223372036854775807" by (rule sint_64_range)+
  have w: "uint (of_int k :: u64) = k mod 18446744073709551616" for k by (simp add: uint_word_of_int)
  show ?thesis
  proof (cases "sint src < 0")
    case True
    have "uint (- src) = uint (of_int (- sint src) :: u64)" by (simp only: of_int_minus v)
    then show ?thesis using True range w [of "- sint src"] by simp
  next
    case False
    have "uint src = uint (of_int (sint src) :: u64)" by (simp only: v)
    then show ?thesis using False range w [of "sint src"] by simp
  qed
qed

lemma llong_octets_enough:
  "llong_octets src \<in> {1, 2, 4, 8} \<and>
    - (2 ^ (8 * llong_octets src - 1)) \<le> sint src \<and> sint src < 2 ^ (8 * llong_octets src - 1)"
proof -
  define ull where "ull = (if sint src < 0 then - src else src)"
  have u: "uint ull = \<bar>sint src\<bar>" unfolding ull_def by (rule uint_magnitude)
  have less: "ull < 127 \<longleftrightarrow> \<bar>sint src\<bar> < 127" "ull < 32767 \<longleftrightarrow> \<bar>sint src\<bar> < 32767"
      "ull < 2147483647 \<longleftrightarrow> \<bar>sint src\<bar> < 2147483647"
    by (simp_all add: word_less_def u)
  show ?thesis
    using sint_64_range [of src] by (auto simp: llong_octets_def Let_def less simp flip: ull_def)
qed

text \<open>Bound as binary data, an integer is stored in the fewest octets of a C type that hold it, sign
  included, so that reading that many octets back gives the integer; a buffer too short for them is
  refused.\<close>
theorem llong_to_binary_exact:
  assumes "network_max s irec = 0" and "diag_ok ver (stmt_diag s)" and "room arec \<le> length buf"
  shows "if llong_octets src \<le> room arec
    then \<exists>buf'. llong_to_binary ver s arec irec src (Some (Octets buf)) ind =
        Some (s, SQL_SUCCESS, Some (Octets buf'), map_option (\<lambda>_. int (llong_octets src)) ind) \<and>
      get_le True (take (llong_octets src) buf') = sint src \<and> drop (llong_octets src) buf' = drop (llong_octets src) buf
    else \<exists>s' ret. llong_to_binary ver s arec irec src (Some (Octets buf)) ind = Some (s', ret, Some (Octets buf), ind) \<and>
      state (stmt_diag s') = SQL_STATE_22003"
proof -
  let ?n = "llong_octets src"
  have size: "buff_octet_size s arec irec ?n 1 = (if room arec < ?n then (room arec, SQL_STATE_01004) else (?n, SQL_STATE_00000))"
    using assms(1) by (simp add: buff_octet_size_def room_def Let_def)
  have n: "?n \<le> 8" "0 < ?n" using llong_octets_enough [of src] by auto
  have get: "get_le True (le_bytes ?n (sint src)) = sint src"
    using llong_octets_enough [of src] n(2) by (intro get_le_signed) simp_all
  have ind: "write_out_octets s irec ind ?n = map_option (\<lambda>_. int ?n) ind"
    using assms(1) n(1) by (simp add: write_out_octets_def to_i64_def)
  show ?thesis
  proof (cases "?n \<le> room arec")
    case True
    have "mem_write_list buf 0 (le_bytes ?n (sint src)) = Some (le_bytes ?n (sint src) @ drop ?n buf)"
      using mem_write_list_front [of "le_bytes ?n (sint src)" buf] True assms(3) by simp
    then show ?thesis
      using True size ind get n(1) by (simp add: llong_to_binary_def le_bytes_take)
  next
    case False
    then show ?thesis
      using size assms(2) by (simp add: llong_to_binary_def REJECT_def RET_STMT_DIAG_ok)
  qed
qed

lemma llong_to_binary_exact_witness:
  "\<exists>buf'. llong_to_binary (wlit ''1.0'') reading_stmt (text_irec\<lparr>octet_length := 4\<rparr>) text_irec (- 200)
      (Some (Octets [0, 0, 9, 9])) (Some 0) =
      Some (reading_stmt, SQL_SUCCESS, Some (Octets buf'), Some 2) \<and> get_le True (take 2 buf') = - 200 \<and> drop 2 buf' = [9, 9]"
proof -
  have n: "llong_octets (- 200) = 2" by (simp add: llong_octets_def)
  show ?thesis
    using llong_to_binary_exact [of reading_stmt text_irec "wlit ''1.0''" "text_irec\<lparr>octet_length := 4\<rparr>" "[0, 0, 9, 9]" "- 200" "Some 0"]
      desc_okD(3) [OF sample_desc_ok] unfolding n
    by (simp add: network_max_def reading_stmt_def to_u64_def room_def)
qed

lemma quadword_xstr_reads_back:
  obtains w where "quadword_xstr qword unsignd True = WStr w"
    "(if unsignd then str2ubigint (WStr w) True else str2bigint (WStr w) True) = Inr (length w, qword)"
proof -
  obtain w where w: "quadword_xstr qword unsignd True = WStr w"
    by (cases unsignd) (simp_all add: quadword_xstr_def ui64tot_def i64tot_def mk_xstr_def)
  have "(if unsignd then str2ubigint (WStr w) True else str2bigint (WStr w) True) = Inr (length w, qword)"
  proof (cases unsignd)
    case True
    then show ?thesis using w ui64_roundtrip [of qword True True] by (simp add: quadword_xstr_def)
  next
    case False
    then show ?thesis
      using w i64_roundtrip_nonneg [of qword True True] i64_roundtrip_neg [of qword True True]
      by (cases "0 \<le> sint qword") (simp_all add: quadword_xstr_def)
  qed
  with w show thesis by (rule that)
qed

text \<open>C40: bound as wide text, outside of \<open>SQLGetData\<close>, an integer is given as digits that read back as that
  integer, terminated, or refused with state 22003 when the buffer has no room for all of them: never cut.\<close>
theorem quadword_text_whole:
  assumes "get_rec_c_type arec c_concise = SQL_C_WCHAR" and "\<not> STMT_GD_CALLING s" and "network_max s irec = 0"
    and "diag_ok ver (stmt_diag s)" and "room arec div 2 \<le> length buf"
  shows "\<exists>w. (if unsignd then str2ubigint (WStr w) True else str2bigint (WStr w) True) = Inr (length w, qword) \<and>
    (if (length w + 1) * 2 \<le> room arec
     then sql2c_quadword ndebug ver s arec irec c_concise qword unsignd (Some (Wide buf)) ind =
       Some (s, SQL_SUCCESS, Some (Wide (w @ 0 # drop (Suc (length w)) buf)),
         map_option (\<lambda>_. to_i64 (int (length w * 2))) ind)
     else \<exists>s' buf' ind'. sql2c_quadword ndebug ver s arec irec c_concise qword unsignd (Some (Wide buf)) ind =
       Some (s', SQL_ERROR, Some (Wide buf'), ind') \<and> state (stmt_diag s') = SQL_STATE_22003 \<and> length buf' = length buf)"
proof -
  obtain w where w: "quadword_xstr qword unsignd True = WStr w"
    "(if unsignd then str2ubigint (WStr w) True else str2bigint (WStr w) True) = Inr (length w, qword)"
    by (rule quadword_xstr_reads_back)
  have "gd_offset_apply s w = Some w" using assms(2) by (simp add: gd_offset_apply_def)
  note step = transfer_step [OF _ assms(3,4) this assms(5) refl, of ndebug ind]
  have diag: "diag_ok ver (posted ver (stmt_diag s) SQL_STATE_01004 (default_message SQL_STATE_01004))"
    using assms(4) by simp
  have err: "state_retcode (esodbc_errors ! SQL_STATE_22003) = SQL_ERROR" by code_simp
  have eq: "sql2c_quadword ndebug ver s arec irec c_concise qword unsignd (Some (Wide buf)) ind =
      quadword_to_str ndebug ver s arec irec qword unsignd True (Some (Wide buf)) ind"
    using assms(1) by (simp add: sql2c_quadword_def)
  show ?thesis
  proof (intro exI conjI)
    show "if (length w + 1) * 2 \<le> room arec
     then sql2c_quadword ndebug ver s arec irec c_concise qword unsignd (Some (Wide buf)) ind =
       Some (s, SQL_SUCCESS, Some (Wide (w @ 0 # drop (Suc (length w)) buf)),
         map_option (\<lambda>_. to_i64 (int (length w * 2))) ind)
     else \<exists>s' buf' ind'. sql2c_quadword ndebug ver s arec irec c_concise qword unsignd (Some (Wide buf)) ind =
       Some (s', SQL_ERROR, Some (Wide buf'), ind') \<and> state (stmt_diag s') = SQL_STATE_22003 \<and> length buf' = length buf"
    proof (cases "(length w + 1) * 2 \<le> room arec")
      case True
      then show ?thesis
        using step w(1) assms(2) unfolding eq
        by (simp add: quadword_to_str_def quadword_transfer_def gd_offset_update_def)
    next
      case False
      then have "room arec div 2 - 1 \<le> length w" "0 < room arec div 2 \<or> room arec < 2" by auto
      then show ?thesis
        using False step w(1) assms(2,5) diag err
        unfolding eq
        by (cases "room arec < 2")
          (simp_all add: quadword_to_str_def quadword_transfer_def gd_offset_update_def REJECT_def STMT_GD_CALLING_def
            RET_STMT_DIAG_ok)
    qed
  qed (rule w(2))
qed

lemma quadword_text_whole_witness:
  "sql2c_quadword True (wlit ''1.0'') (reading_stmt\<lparr>gd_col := - 1\<rparr>)
      (text_irec\<lparr>concise_type := SQL_C_WCHAR, octet_length := 2\<rparr>) text_irec 0 (- 12) False (Some (Wide [7])) None \<noteq> None"
proof -
  have r: "room (text_irec\<lparr>concise_type := SQL_C_WCHAR, octet_length := 2\<rparr>) = 2" by (simp add: room_def to_u64_def)
  have 1: "get_rec_c_type (text_irec\<lparr>concise_type := SQL_C_WCHAR, octet_length := 2\<rparr>) 0 = SQL_C_WCHAR"
    by (simp add: get_rec_c_type_def)
  have 2: "\<not> STMT_GD_CALLING (reading_stmt\<lparr>gd_col := - 1\<rparr>)" by (simp add: STMT_GD_CALLING_def)
  have 3: "network_max (reading_stmt\<lparr>gd_col := - 1\<rparr>) text_irec = 0"
    by (simp add: network_max_def reading_stmt_def to_u64_def)
  have 4: "diag_ok (wlit ''1.0'') (stmt_diag (reading_stmt\<lparr>gd_col := - 1\<rparr>))"
    using desc_okD(3) [OF sample_desc_ok] by (simp add: reading_stmt_def)
  have 5: "room (text_irec\<lparr>concise_type := SQL_C_WCHAR, octet_length := 2\<rparr>) div 2 \<le> length [7 :: sqlwchar]"
    by (simp add: r)
  show ?thesis
    using quadword_text_whole [OF 1 2 3 4 5, of False "- 12" True None] by (auto split: if_splits)
qed

section \<open>Numeric is exact below 2^53\<close>

lemma dbl_shift_eq:
  assumes "0 < d"
  shows "\<exists>i. dbl_shift n d j = j + i \<and> n < 2 ^ 53 * (d * 2 ^ i) \<and> (i = 0 \<or> 2 ^ 53 * (d * 2 ^ (i - 1)) \<le> n)"
  using assms
proof (induction n d j rule: dbl_shift.induct)
  case (1 n d j)
  show ?case
  proof (cases "n < 2 ^ 53 * d")
    case True
    then show ?thesis by (intro exI [of _ 0]) (simp add: dbl_shift.simps)
  next
    case False
    then obtain i where i: "dbl_shift n (2 * d) (Suc j) = Suc j + i" "n < 2 ^ 53 * (2 * d * 2 ^ i)"
        "i = 0 \<or> 2 ^ 53 * (2 * d * 2 ^ (i - 1)) \<le> n"
      using 1 by auto
    have "2 ^ 53 * (d * 2 ^ i) \<le> n" using i(3) False by (cases i) (simp_all add: mult_ac)
    then show ?thesis
      using i False 1(2) by (intro exI [of _ "Suc i"]) (simp add: dbl_shift.simps [of n d] mult_ac)
  qed
qed

lemma round_even_div_exact: "0 < d \<Longrightarrow> round_even_div (a * d) d = a"
  by (simp add: round_even_div_def)

lemma round_even_div_ge: "n div d \<le> round_even_div n d"
  by (simp add: round_even_div_def Let_def)

lemma dbl_ratio_exact:
  assumes "0 < d" "v < 2 ^ 53"
  shows "\<exists>j. dbl_ratio (v * d) d = (v * 2 ^ j, j)"
proof -
  have "round_even_div (v * d * 2 ^ double_places (v * d) d 0) d = v * 2 ^ double_places (v * d) d 0"
    using round_even_div_exact [OF assms(1), of "v * 2 ^ double_places (v * d) d 0"] by (simp add: mult_ac)
  moreover have "v * d < 2 ^ 53 * d" using assms by (simp only: mult_less_cancel2)
  ultimately show ?thesis by (simp add: dbl_ratio_def double_of_ratio_def Let_def)
qed

lemma dbl_ratio_large:
  assumes "0 < d" "2 ^ 53 * d \<le> n"
  shows "\<exists>x. dbl_ratio n d = (x, 0) \<and> 2 ^ 53 \<le> x"
proof -
  obtain i where i: "dbl_shift n d 0 = i" "i = 0 \<or> 2 ^ 53 * (d * 2 ^ (i - 1)) \<le> n" "n < 2 ^ 53 * (d * 2 ^ i)"
    using dbl_shift_eq [OF assms(1), of n 0] by auto
  have "i \<noteq> 0"
  proof
    assume "i = 0"
    then show False using i(3) assms(2) by simp
  qed
  then obtain i' where i': "i = Suc i'" by (cases i) auto
  have "2 ^ 52 * (d * 2 ^ i) \<le> n" using i(2) unfolding i' by simp
  then have "2 ^ 52 * (d * 2 ^ i) div (d * 2 ^ i) \<le> n div (d * 2 ^ i)" by (rule div_le_mono)
  then have "2 ^ 52 \<le> n div (d * 2 ^ i)" using assms(1) by simp
  then have "2 ^ 52 \<le> round_even_div n (d * 2 ^ i)" using round_even_div_ge le_trans by blast
  then have "2 ^ 52 * 2 ^ i \<le> round_even_div n (d * 2 ^ i) * 2 ^ i" by (rule mult_le_mono1)
  moreover have "(2 :: nat) ^ 53 \<le> 2 ^ 52 * 2 ^ i" unfolding i' by simp
  ultimately have "2 ^ 53 \<le> round_even_div n (d * 2 ^ i) * 2 ^ i" by linarith
  then show ?thesis using assms(2) i(1) by (simp add: dbl_ratio_def)
qed

lemma dbl_trunc_exact: "dbl_trunc (v * 2 ^ j, j) = v"
  by (simp add: dbl_trunc_def)

lemma numeric_scaled_exact:
  assumes "0 \<le> sc" "sc \<le> 15" "n * 10 ^ nat sc < 2 ^ 53"
  shows "numeric_scaled sc neg (dbl_ratio n 1) = Some (Some (n * 10 ^ nat sc))"
proof (cases "sc = 0")
  case True
  then obtain j where "dbl_ratio n 1 = (n * 2 ^ j, j)" using dbl_ratio_exact [of 1 n] assms(3) by auto
  then show ?thesis using True assms(3) by (simp add: numeric_scaled_def to_llong_def dbl_trunc_exact)
next
  case False
  have "(10 :: nat) ^ nat sc \<le> 10 ^ 15" using assms(2) by (intro power_increasing) simp_all
  then have p: "(10 :: nat) ^ nat sc < 2 ^ 53" by simp
  have n: "n < 2 ^ 53"
  proof -
    have "n * 1 \<le> n * 10 ^ nat sc" by (intro mult_le_mono2) simp
    then show ?thesis using assms(3) by linarith
  qed
  obtain j where j: "dbl_ratio n 1 = (n * 2 ^ j, j)" using dbl_ratio_exact [of 1 n] n by auto
  obtain i where i: "dbl_ratio (10 ^ nat sc) 1 = (10 ^ nat sc * 2 ^ i, i)" using dbl_ratio_exact [of 1 "10 ^ nat sc"] p by auto
  have pow: "pow10 (nat sc) = Some (10 ^ nat sc)" "unat (10 ^ nat sc :: u64) = 10 ^ nat sc"
    using assms(2) by (simp_all add: pow10_eq pow10_unat)
  obtain l where l: "dbl_ratio ((n * 10 ^ nat sc) * (2 ^ j * 2 ^ i)) (2 ^ j * 2 ^ i) = ((n * 10 ^ nat sc) * 2 ^ l, l)"
    using dbl_ratio_exact [of "2 ^ j * 2 ^ i" "n * 10 ^ nat sc"] assms(3) by auto
  then have mult: "dbl_mult (dbl_ratio n 1) (dbl_ratio (10 ^ nat sc) 1) = ((n * 10 ^ nat sc) * 2 ^ l, l)"
    unfolding i j dbl_mult_def by (simp add: mult_ac)
  have big: "2 ^ 53 * (10 ^ nat sc * 2 ^ i) \<le> ((2 ^ 53 - 1) * 2 ^ 971 :: nat) * 2 ^ i"
  proof -
    have "2 ^ 53 * 10 ^ nat sc \<le> (2 ^ 53 :: nat) * 2 ^ 53" using p by simp
    also have "\<dots> \<le> (2 ^ 53 - 1) * 2 ^ 971" by simp
    finally have "2 ^ 53 * 10 ^ nat sc * 2 ^ i \<le> ((2 ^ 53 - 1) * 2 ^ 971 :: nat) * 2 ^ i" by (rule mult_le_mono1)
    then show ?thesis by (simp only: mult.assoc)
  qed
  obtain x where x: "dbl_div DBL_MAX (dbl_ratio (10 ^ nat sc) 1) = (x, 0)" "2 ^ 53 \<le> x"
    using dbl_ratio_large [OF _ big] unfolding i dbl_div_def DBL_MAX_def by auto
  have "\<not> dbl_less (x, 0) (n * 2 ^ j, j)"
  proof -
    have "n \<le> x" using n x(2) by linarith
    then show ?thesis by (simp add: dbl_less_def)
  qed
  then show ?thesis
    using False assms pow mult x(1) j i
    by (simp add: numeric_scaled_def to_llong_def dbl_trunc_exact)
qed

lemma le_value_padded:
  assumes "k < 2 ^ 53"
  shows "le_value (le_bytes 8 (int k) @ replicate 8 0) = int k"
proof -
  have app: "le_value (a @ b) = le_value a + 256 ^ length a * le_value b" for a b
    by (induction a) (simp_all add: algebra_simps)
  have zero: "le_value (replicate n 0) = 0" for n by (induction n) simp_all
  have "int k < 256 ^ 8" using assms by simp
  then show ?thesis by (simp only: app zero le_value_bytes) simp
qed

text \<open>Fetched as a \<open>SQL_NUMERIC_STRUCT\<close>, an integer goes through a \<open>double\<close>; while the scaled value stays below
  2^53 nothing is lost: the structure holds the magnitude times the power of ten of the bound scale, the
  sign, and as precision the digits with the scale, unless they exceed a bound precision.\<close>
theorem quadword_numeric_exact:
  assumes "get_rec_c_type arec c_concise = SQL_C_NUMERIC"
    and "v = (if unsignd then uint qword else sint qword)" and "nat \<bar>v\<bar> * 10 ^ nat (scale arec) < 2 ^ 53"
    and "0 \<le> scale arec" "scale arec \<le> 15"
    and "digits = (if v = 0 then 0 else int (length (dec_digits (nat \<bar>v\<bar>))))"
    and "precision arec \<le> 0 \<or> digits + scale arec \<le> precision arec"
  shows "\<exists>n. sql2c_quadword ndebug ver s arec irec c_concise qword unsignd (Some data) ind =
      Some (s, SQL_SUCCESS, Some (Numeric n), write_out_octets s irec ind 19) \<and>
    le_value (n_val n) = \<bar>v\<bar> * 10 ^ nat (scale arec) \<and> n_sign n = (if v < 0 then 0 else 1) \<and>
    n_scale n = scale arec \<and> n_precision n = digits + scale arec"
proof -
  define m where "m = nat \<bar>v\<bar>"
  have "m * 1 \<le> m * 10 ^ nat (scale arec)" by (intro mult_le_mono2) simp
  then have small: "m < 2 ^ 53" using assms(3) unfolding m_def by linarith
  obtain j where j: "dbl_ratio m 1 = (m * 2 ^ j, j)" using dbl_ratio_exact [of 1 m] small by auto
  have whole: "to_ullong (dbl_ratio m 1) = Some m"
    unfolding j to_ullong_def dbl_trunc_exact using small by simp
  have scaled: "numeric_scaled (scale arec) (v < 0) (dbl_ratio m 1) = Some (Some (m * 10 ^ nat (scale arec)))"
    using assms(3-5) by (intro numeric_scaled_exact) (simp_all add: m_def)
  have "length (dec_digits m) \<le> 16" using dec_digits_length_le [of m 16] small by simp
  then have dig: "0 \<le> digits" "digits \<le> 16" using assms(6) by (simp_all add: m_def)
  have prec: "to_i16 ((if m = 0 then 0 else int (length (dec_digits m))) + scale arec) = digits + scale arec"
  proof -
    have "(if m = 0 then 0 else int (length (dec_digits m))) = digits" using assms(6) by (simp add: m_def)
    then show ?thesis using dig assms(4,5) by (simp only: to_i16_id)
  qed
  have val: "le_value (le_bytes 8 (int (m * 10 ^ nat (scale arec))) @ replicate 8 0) = int (m * 10 ^ nat (scale arec))"
    using assms(3) by (intro le_value_padded) (simp add: m_def)
  define num where "num = \<lparr>n_precision = digits + scale arec, n_scale = scale arec mod 256,
    n_sign = (if v < 0 \<and> m \<noteq> 0 then 0 else 1), n_val = le_bytes 8 (int (m * 10 ^ nat (scale arec))) @ replicate 8 0\<rparr>"
  have "double_to_numeric ndebug ver s arec (v < 0) (dbl_ratio m 1) = Some (s, SQL_SUCCESS, Some num)"
    using whole scaled prec dig assms(4,5,7) j [unfolded One_nat_def]
    by (auto simp: double_to_numeric_def Let_def num_def)
  then have "sql2c_quadword ndebug ver s arec irec c_concise qword unsignd (Some data) ind =
      Some (s, SQL_SUCCESS, Some (Numeric num), write_out_octets s irec ind 19)"
    using assms(1) by (simp add: sql2c_quadword_def quadword_to_numeric_def m_def flip: assms(2))
  moreover have "le_value (n_val num) = \<bar>v\<bar> * 10 ^ nat (scale arec)"
    using val by (simp add: num_def m_def)
  moreover have "n_sign num = (if v < 0 then 0 else 1)" "n_scale num = scale arec" "n_precision num = digits + scale arec"
    using assms(4,5) by (auto simp: num_def m_def)
  ultimately show ?thesis by blast
qed

lemma quadword_numeric_exact_witness:
  "\<exists>n. sql2c_quadword True (wlit ''1.0'') reading_stmt (text_irec\<lparr>concise_type := SQL_C_NUMERIC, scale := 2, precision := 0\<rparr>)
      text_irec 0 (- 12) False (Some (Octets [])) None =
      Some (reading_stmt, SQL_SUCCESS, Some (Numeric n), write_out_octets reading_stmt text_irec None 19) \<and>
    le_value (n_val n) = 1200 \<and> n_sign n = 0 \<and> n_scale n = 2 \<and> n_precision n = 4"
proof -
  have 1: "get_rec_c_type (text_irec\<lparr>concise_type := SQL_C_NUMERIC, scale := 2, precision := 0\<rparr>) 0 = SQL_C_NUMERIC"
    by (simp add: get_rec_c_type_def)
  have 2: "(- 12 :: int) = (if False then uint (- 12 :: u64) else sint (- 12 :: u64))" by simp
  have 3: "(2 :: int) = (if (- 12 :: int) = 0 then 0 else int (length (dec_digits (nat \<bar>- 12\<bar>))))"
    by (simp add: dec_digits.simps)
  show ?thesis
    using quadword_numeric_exact [OF 1 2 _ _ _ 3, of True "wlit ''1.0''" reading_stmt text_irec "Octets []" None]
    by simp
qed

text \<open>Above 2^53 it is not: the digits lost are neither refused nor told of.\<close>

lemma numeric_rounds:
  "\<exists>n. sql2c_quadword ndebug ver s (text_irec\<lparr>concise_type := SQL_C_NUMERIC, scale := 0, precision := 0\<rparr>)
      irec 0 9007199254740993 False (Some data) ind =
      Some (s, SQL_SUCCESS, Some (Numeric n), write_out_octets s irec ind 19) \<and>
    le_value (n_val n) = 9007199254740992"
proof -
  have r: "dbl_ratio 9007199254740993 1 = (9007199254740992, 0)"
    by (simp add: dbl_ratio_def dbl_shift.simps round_even_div_def)
  have "length (dec_digits 9007199254740992) \<le> 16" by (intro dec_digits_length_le) simp_all
  then have p: "to_i16 (int (length (dec_digits 9007199254740992))) \<le> 16" "0 \<le> to_i16 (int (length (dec_digits 9007199254740992)))"
    by (simp_all add: to_i16_id)
  have v: "le_value (le_bytes 8 9007199254740992 @ replicate 8 0) = 9007199254740992" by code_simp
  show ?thesis
    using p v by (simp add: sql2c_quadword_def get_rec_c_type_def quadword_to_numeric_def double_to_numeric_def to_ullong_def
        numeric_scaled_def to_llong_def dbl_trunc_def r [unfolded One_nat_def] Let_def)
qed

end
