(* ===== verification/Param_Number.thy ===== *)
theory Param_Number
imports Conv_Int Ivl_Param Stmt_Bind Diag_Get
begin

text \<open>
  Numbers given as parameters, written as JSON for the server: \<open>c2sql_null\<close>, \<open>c2sql_boolean\<close>,
  \<open>c2sql_number\<close> and what they call, of driver/convert.c, and the limits \<open>convert_param_val\<close> of
  driver/queries.c gives them. A conversion is called twice: without a destination, for the room it takes at
  most, then with one. \<open>irec\<close> is the record of the parameter in the IPD, \<open>data\<close> what is at the data pointer of
  the application, \<open>ulong\<close> the connection's type of that name.

  A \<open>double\<close> of the application is its sign with a magnitude \<open>m / 2 ^ k\<close>, as in \<open>Conv_Int\<close>: infinities and
  NaNs are left out. Binary data is converted for the integer types only.
\<close>

section \<open>Doubles with a sign\<close>

type_synonym c_double = "bool \<times> nat \<times> nat"

definition cd_of_int :: "int \<Rightarrow> c_double" where
  "cd_of_int i = (i < 0, dbl_ratio (nat \<bar>i\<bar>) 1)"

definition cd_numerator :: "c_double \<Rightarrow> int" where
  "cd_numerator x = (if fst x then - int (fst (snd x)) else int (fst (snd x)))"

definition cd_less :: "c_double \<Rightarrow> c_double \<Rightarrow> bool" where
  "cd_less x y \<longleftrightarrow> cd_numerator x * 2 ^ snd (snd y) < cd_numerator y * 2 ^ snd (snd x)"

text \<open>\<open>x < 0 ? -x : x\<close>\<close>

definition cd_abs :: "c_double \<Rightarrow> c_double" where
  "cd_abs x = (False, snd x)"

definition FLT_MIN :: c_double where "FLT_MIN = (False, 1, 126)"
definition FLT_MAX :: c_double where "FLT_MAX = (False, (2 ^ 24 - 1) * 2 ^ 104, 0)"
definition DBL_MIN :: c_double where "DBL_MIN = (False, 1, 1022)"

section \<open>Numbers, limits and data\<close>

text \<open>\<open>t_number_st\<close>: the type and the member of the union it selects.\<close>

datatype t_number = N_SBIGINT u64 | N_UBIGINT u64 | N_DOUBLE c_double

text \<open>\<open>min\<close> and \<open>max\<close>: those of an integer type, \<open>min->bint\<close> and \<open>max->ubint\<close>, or of a floating point one.\<close>

datatype limits = Fixed int int | Floating c_double c_double

datatype num_data = N_text xstr | N_integer int | N_octets cstr | N_double c_double | N_numeric SQL_NUMERIC_STRUCT

text \<open>\<open>SQL_SMALLINT\<close> goes on to the case of \<open>SQL_TINYINT\<close>, which sets the limits again.\<close>

definition param_limits :: "int \<Rightarrow> limits option" where
  "param_limits data_t =
    (if data_t = SQL_BIGINT then Some (Fixed (- 9223372036854775808) 18446744073709551615)
     else if data_t = SQL_INTEGER then Some (Fixed (- 2147483648) 2147483647)
     else if data_t = SQL_SMALLINT \<or> data_t = SQL_TINYINT then Some (Fixed (- 128) 127)
     else if data_t = SQL_REAL then Some (Floating FLT_MIN FLT_MAX)
     else if data_t = SQL_FLOAT \<or> data_t = SQL_DOUBLE then Some (Floating DBL_MIN (False, DBL_MAX))
     else None)"

text \<open>What a call leaves: \<open>cv_len\<close> is \<open>None\<close> when the length is not set.\<close>

record conversion =
  cv_diag :: esodbc_diag
  cv_ret :: sqlreturn
  cv_irec :: esodbc_rec
  cv_dest :: "cstr option"
  cv_len :: "nat option"

definition converted :: "esodbc_diag \<Rightarrow> esodbc_rec \<Rightarrow> cstr option \<Rightarrow> nat \<Rightarrow> conversion option" where
  "converted d irec dest len = Some \<lparr>cv_diag = d, cv_ret = SQL_SUCCESS, cv_irec = irec, cv_dest = dest, cv_len = Some len\<rparr>"

definition not_converted :: "wstr \<Rightarrow> esodbc_diag \<Rightarrow> esodbc_state \<Rightarrow> esodbc_rec \<Rightarrow> cstr option \<Rightarrow> conversion option" where
  "not_converted ver d st irec dest = do {
     (d, ret) \<leftarrow> RET_HDIAGS ver d st;
     Some \<lparr>cv_diag = d, cv_ret = ret, cv_irec = irec, cv_dest = dest, cv_len = None\<rparr> }"

definition conversion_bug :: "wstr \<Rightarrow> esodbc_diag \<Rightarrow> string \<Rightarrow> esodbc_rec \<Rightarrow> cstr option \<Rightarrow> conversion option" where
  "conversion_bug ver d msg irec dest = do {
     (d, ret) \<leftarrow> RET_CONV_TEXT ver d SQL_STATE_HY000 msg;
     Some \<lparr>cv_diag = d, cv_ret = ret, cv_irec = irec, cv_dest = dest, cv_len = None\<rparr> }"

definition cstr_of :: "xstr \<Rightarrow> cstr" where
  "cstr_of x = map of_nat (units x)"

section \<open>Null\<close>

definition JSON_VAL_NULL :: cstr where "JSON_VAL_NULL = clit ''null''"
definition JSON_VAL_TRUE :: cstr where "JSON_VAL_TRUE = clit ''true''"
definition JSON_VAL_FALSE :: cstr where "JSON_VAL_FALSE = clit ''false''"

definition c2sql_null :: "esodbc_diag \<Rightarrow> esodbc_rec \<Rightarrow> cstr option \<Rightarrow> conversion option" where
  "c2sql_null d irec dest = do {
     dest \<leftarrow> (case dest of None \<Rightarrow> Some None | Some m \<Rightarrow> map_option Some (mem_write_list m 0 JSON_VAL_NULL));
     converted d irec dest (length JSON_VAL_NULL) }"

section \<open>Integers\<close>

text \<open>\<open>irec->es_type == stmt->hdr.dbc->ulong\<close> afterwards is the case when the type was promoted.\<close>

definition irec_promote_bigint_type :: "esodbc_estype option \<Rightarrow> t_number \<Rightarrow> esodbc_rec \<Rightarrow> esodbc_rec option" where
  "irec_promote_bigint_type ulong tnr irec = do {
     e \<leftarrow> es_type irec;
     Some (if data_type e \<noteq> SQL_BIGINT then irec
       else (case tnr of
           N_SBIGINT _ \<Rightarrow> irec
         | N_UBIGINT u \<Rightarrow> if uint u \<le> 9223372036854775807 then irec else irec\<lparr>es_type := ulong\<rparr>
         | N_DOUBLE x \<Rightarrow>
             if \<not> cd_less (cd_of_int 9223372036854775807) x \<or> cd_less (cd_of_int 18446744073709551615) x
             then irec else irec\<lparr>es_type := ulong\<rparr>)) }"

definition sfixed_to_number ::
    "bool \<Rightarrow> wstr \<Rightarrow> esodbc_diag \<Rightarrow> esodbc_rec \<Rightarrow> u64 \<Rightarrow> limits option \<Rightarrow> cstr option \<Rightarrow> conversion option" where
  "sfixed_to_number ndebug ver d irec src lims dest =
    (case dest of
       None \<Rightarrow> converted d irec None 19
     | Some m \<Rightarrow>
         if (case lims of
               None \<Rightarrow> False
             | Some (Fixed lo hi) \<Rightarrow> sint src < lo \<or> 0 < sint src \<and> hi < uint src
             | Some (Floating lo hi) \<Rightarrow> cd_less (cd_of_int (sint src)) lo \<or> cd_less hi (cd_of_int (sint src)))
         then not_converted ver d SQL_STATE_22003 irec dest
         else do {
           let txt = cstr_of (i64tot src False);
           m \<leftarrow> mem_write_list m 0 (txt @ [0]);
           c_assert ndebug (length txt \<le> 19);
           converted d irec (Some m) (length txt) })"

definition ufixed_to_number ::
    "bool \<Rightarrow> wstr \<Rightarrow> esodbc_estype option \<Rightarrow> esodbc_diag \<Rightarrow> esodbc_rec \<Rightarrow> u64 \<Rightarrow> limits option \<Rightarrow> cstr option
     \<Rightarrow> conversion option" where
  "ufixed_to_number ndebug ver ulong d irec src lims dest = do {
     irec \<leftarrow> irec_promote_bigint_type ulong (N_UBIGINT src) irec;
     (case dest of
        None \<Rightarrow> converted d irec None 20
      | Some m \<Rightarrow>
          if (case lims of Some (Fixed lo hi) \<Rightarrow> hi < uint src | _ \<Rightarrow> False)
          then not_converted ver d SQL_STATE_22003 irec dest
          else do {
            let txt = cstr_of (ui64tot src False);
            m \<leftarrow> mem_write_list m 0 (txt @ [0]);
            c_assert ndebug (length txt \<le> 20);
            converted d irec (Some m) (length txt) }) }"

section \<open>Floating point\<close>

text \<open>The format \<open>%.<p>f\<close>.\<close>

definition printf_f :: "nat \<Rightarrow> c_double \<Rightarrow> nat list" where
  "printf_f p x = (if fst x then [45] else []) @
    (if p = 0 then digits_text (round_even_div (fst (snd x)) (2 ^ snd (snd x))) else printf_lf p (snd x))"

definition cd_negative :: "c_double \<Rightarrow> bool" where
  "cd_negative x \<longleftrightarrow> fst x \<and> fst (snd x) \<noteq> 0"

definition DBL_BASE10_MAX_LEN :: nat where "DBL_BASE10_MAX_LEN = 3 + 15 + 307"

text \<open>The length of the printed text in a string of \<open>colsize\<close>: the inner \<open>None\<close> when digits before the point would
  be cut. The unit before the text is a quote.\<close>

definition cut_decimals :: "int \<Rightarrow> c_double \<Rightarrow> nat list \<Rightarrow> nat option option" where
  "cut_decimals colsize x txt = do {
     whole \<leftarrow> to_ullong (snd x);
     pow \<leftarrow> pow10 (nat ((colsize mod 2 ^ 32 - (if cd_negative x then 1 else 0)) mod 2 ^ 32));
     Some (if unat pow \<le> whole then None
       else (let len = (if int (length txt) < colsize then length txt else nat colsize) in
         Some (if 0 < len \<and> txt ! (len - 1) = 46 then len - 1 else len))) }"

definition floating_to_number ::
    "bool \<Rightarrow> wstr \<Rightarrow> esodbc_estype option \<Rightarrow> esodbc_diag \<Rightarrow> esodbc_rec \<Rightarrow> c_double \<Rightarrow> limits option \<Rightarrow> cstr option
     \<Rightarrow> conversion option" where
  "floating_to_number ndebug ver ulong d irec src lims dest = do {
     irec \<leftarrow> irec_promote_bigint_type ulong (N_DOUBLE src) irec;
     (case dest of
        None \<Rightarrow> converted d irec None (DBL_BASE10_MAX_LEN + 1)
      | Some m \<Rightarrow>
          if (case lims of
                None \<Rightarrow> False
              | Some (Fixed lo hi) \<Rightarrow> cd_less src (cd_of_int lo) \<or> cd_less (cd_of_int hi) src
              | Some (Floating lo hi) \<Rightarrow> cd_less (cd_abs src) lo \<or> cd_less hi (cd_abs src))
          then not_converted ver d SQL_STATE_22003 irec dest
          else do {
            e \<leftarrow> es_type irec;
            if et_meta_type e \<noteq> METATYPE_EXACT_NUMERIC \<and> et_meta_type e \<noteq> METATYPE_FLOAT_NUMERIC \<and>
                et_meta_type e \<noteq> METATYPE_STRING
            then not_converted ver d SQL_STATE_HY000 irec dest
            else do {
              prec \<leftarrow> (if et_meta_type e = METATYPE_STRING then Some 16
                 else if 0 \<le> et_maximum_scale e then Some (nat (et_maximum_scale e)) else None);
              let txt = printf_f prec src;
              m \<leftarrow> mem_write_list m 0 (map of_nat (take DBL_BASE10_MAX_LEN txt) @ [0]);
              if et_meta_type e = METATYPE_STRING then do {
                colsize \<leftarrow> get_param_size irec;
                r \<leftarrow> cut_decimals colsize src (take DBL_BASE10_MAX_LEN txt);
                (case r of
                   None \<Rightarrow> not_converted ver d SQL_STATE_22003 irec (Some m)
                 | Some len \<Rightarrow> converted d irec (Some m) len) }
              else converted d irec (Some m) (length txt) } }) }"

text \<open>The inner \<open>None\<close> is out of range.\<close>

definition numeric_to_double :: "esodbc_rec \<Rightarrow> SQL_NUMERIC_STRUCT \<Rightarrow> c_double option option" where
  "numeric_to_double irec num =
    (let sc = (if 128 \<le> n_scale num then n_scale num - 256 else n_scale num);
         ullng = nat (le_value (take 8 (n_val num)));
         dbl = dbl_ratio ullng 1;
         prec = int (if ullng = 0 then 0 else length (dec_digits ullng)) - sc;
         fits = (\<lambda>dbl. if 255 < prec \<or> 0 < precision irec \<and> precision irec < prec then None
           else Some (n_sign num = 0, dbl)) in
     if length (n_val num) \<noteq> 16 then None
     else if le_value (drop 8 (n_val num)) \<noteq> 0 then Some None
     else if sc < 0 then do {
       pow \<leftarrow> pow10 (nat (- sc));
       let p = dbl_ratio (unat pow) 1;
       Some (if dbl_less (dbl_div DBL_MAX p) dbl then None else fits (dbl_mult dbl p)) }
     else if 0 < sc then do {
       pow \<leftarrow> pow10 (nat sc);
       Some (fits (dbl_div dbl (dbl_ratio (unat pow) 1))) }
     else Some (fits dbl))"

definition numeric_to_number ::
    "bool \<Rightarrow> wstr \<Rightarrow> esodbc_estype option \<Rightarrow> esodbc_diag \<Rightarrow> esodbc_rec \<Rightarrow> SQL_NUMERIC_STRUCT \<Rightarrow> cstr option
     \<Rightarrow> conversion option" where
  "numeric_to_number ndebug ver ulong d irec num dest =
    (if dest = None then floating_to_number ndebug ver ulong d irec (False, 0, 0) None None
     else do {
       r \<leftarrow> numeric_to_double irec num;
       (case r of
          None \<Rightarrow> not_converted ver d SQL_STATE_22003 irec dest
        | Some x \<Rightarrow> floating_to_number ndebug ver ulong d irec x None dest) })"

section \<open>Binary data\<close>

text \<open>A stored \<open>double\<close> or \<open>float\<close>, of \<open>p\<close> bits of fraction; \<open>None\<close> for infinities and NaNs.\<close>

definition ieee_value :: "nat \<Rightarrow> nat \<Rightarrow> nat \<Rightarrow> c_double option" where
  "ieee_value width p n =
    (let ex = n div 2 ^ p mod 2 ^ (width - 1 - p); frac = n mod 2 ^ p; bias = 2 ^ (width - 2 - p) - 1;
         neg = (2 ^ (width - 1) \<le> n) in
     if ex = 2 ^ (width - 1 - p) - 1 then None
     else if ex = 0 then Some (neg, frac, bias - 1 + p)
     else if ex \<le> bias + p then Some (neg, 2 ^ p + frac, bias + p - ex)
     else Some (neg, (2 ^ p + frac) * 2 ^ (ex - bias - p), 0))"

definition binary_size :: "int \<Rightarrow> nat option" where
  "binary_size data_t =
    (if data_t = SQL_BIGINT \<or> data_t = SQL_DOUBLE then Some 8
     else if data_t = SQL_INTEGER \<or> data_t = SQL_FLOAT \<or> data_t = SQL_REAL then Some 4
     else if data_t = SQL_SMALLINT then Some 2
     else if data_t = SQL_TINYINT then Some 1
     else None)"

definition binary_to_number ::
    "bool \<Rightarrow> wstr \<Rightarrow> esodbc_estype option \<Rightarrow> esodbc_diag \<Rightarrow> esodbc_rec \<Rightarrow> esodbc_rec \<Rightarrow> cstr \<Rightarrow> int option \<Rightarrow> cstr option
     \<Rightarrow> conversion option" where
  "binary_to_number ndebug ver ulong d arec irec data ind dest =
    (if dest = None then
       (if meta_type irec = METATYPE_EXACT_NUMERIC then sfixed_to_number ndebug ver d irec 0 None None
        else do {
          c_assert ndebug (meta_type irec = METATYPE_FLOAT_NUMERIC);
          floating_to_number ndebug ver ulong d irec (False, 0, 0) None None })
     else do {
       osize \<leftarrow> (case ind of
           Some n \<Rightarrow> Some n
         | None \<Rightarrow> if 0 < octet_length arec then Some (octet_length arec) else map_option int (mem_strlen data));
       e \<leftarrow> es_type irec;
       (case binary_size (data_type e) of
          None \<Rightarrow> conversion_bug ver d ''parameter conversion bug'' irec dest
        | Some sz \<Rightarrow>
            if osize \<noteq> int sz then not_converted ver d SQL_STATE_HY090 irec dest
            else if length data < sz then None
            else if data_type e = SQL_DOUBLE then do {
              x \<leftarrow> ieee_value 64 52 (nat (le_value (take 8 data)));
              floating_to_number ndebug ver ulong d irec x None dest }
            else if data_type e = SQL_FLOAT \<or> data_type e = SQL_REAL then do {
              x \<leftarrow> ieee_value 32 23 (nat (le_value (take 4 data)));
              floating_to_number ndebug ver ulong d irec x None dest }
            else sfixed_to_number ndebug ver d irec (of_int (get_le True (take sz data))) None dest) })"

section \<open>Text\<close>

text \<open>What the conversion takes of the C library: the classes of white space, and the scanning of doubles, with
  \<open>scanf\<close>, and with \<open>strtod\<close>, which answers the units read and whether \<open>errno\<close> is set.\<close>

record c_library =
  lib_iswspace :: "sqlwchar \<Rightarrow> bool"
  lib_isspace :: "sqlchar \<Rightarrow> bool"
  lib_scanf :: "nat list \<Rightarrow> c_double option"
  lib_strtod :: "nat list \<Rightarrow> c_double \<times> nat \<times> bool"

text \<open>\<open>next\<close> is the unit after the counted ones.\<close>

definition str2double :: "c_library \<Rightarrow> xstr \<Rightarrow> nat \<Rightarrow> bool \<Rightarrow> (nat \<times> c_double) option" where
  "str2double lib val next strict =
    (if next \<noteq> 0 then map_option (\<lambda>x. (length (units val), x)) (lib_scanf lib (units val))
     else (let (x, digits, err) = lib_strtod lib (takeWhile (\<lambda>u. u \<noteq> 0) (units val)) in
       if err \<or> strict \<and> length (units val) \<noteq> digits then None else Some (digits, x)))"

text \<open>The count of units at the application's pointer.\<close>

definition app_count :: "xstr \<Rightarrow> int option \<Rightarrow> nat option" where
  "app_count data ind =
    (case ind of
       None \<Rightarrow> app_strlen data
     | Some n \<Rightarrow> if n = SQL_NTSL then app_strlen data
         else Some (nat (to_u64 n) div (case data of WStr _ \<Rightarrow> 2 | CStr _ \<Rightarrow> 1)))"

text \<open>The trimmed text with the position of its first unit.\<close>

definition xstr_trimmed :: "c_library \<Rightarrow> nat \<Rightarrow> xstr \<Rightarrow> nat \<times> xstr" where
  "xstr_trimmed lib cnt data =
    (case data of
       WStr w \<Rightarrow> (let l = wltrim_ws (lib_iswspace lib) (take cnt w) in
         (cnt - length l, WStr (wrtrim_ws (lib_iswspace lib) l)))
     | CStr c \<Rightarrow> (let l = trim_ws_left (lib_isspace lib) (take cnt c) in
         (cnt - length l, CStr (trim_ws (lib_isspace lib) (take cnt c)))))"

text \<open>The trimmed text and the number; the inner \<open>None\<close> when there is none.\<close>

definition xstr_to_number :: "c_library \<Rightarrow> xstr \<Rightarrow> int option \<Rightarrow> (xstr \<times> t_number option) option" where
  "xstr_to_number lib data ind = do {
     cnt \<leftarrow> app_count data ind;
     if length (units data) < cnt then None
     else (let (pos, xstr) = xstr_trimmed lib cnt data in
       case str2bigint xstr True of
         Inr (_, v) \<Rightarrow> Some (xstr, Some (N_SBIGINT v))
       | Inl _ \<Rightarrow>
           (case str2ubigint xstr True of
              Inr (_, v) \<Rightarrow> Some (xstr, Some (N_UBIGINT v))
            | Inl _ \<Rightarrow> do {
                next \<leftarrow> mem_read (units data) (pos + length (units xstr));
                Some (xstr, map_option (\<lambda>(_, x). N_DOUBLE x) (str2double lib xstr next True)) })) }"

text \<open>A double cast to 64 bits, undefined out of their range.\<close>

definition cd_to_sbigint :: "c_double \<Rightarrow> u64 option" where
  "cd_to_sbigint x = (let t = dbl_trunc (snd x) in
     if t < 2 ^ 63 \<or> fst x \<and> t = 2 ^ 63 then Some (if fst x then - of_nat t else of_nat t) else None)"

definition cd_to_ubigint :: "c_double \<Rightarrow> u64 option" where
  "cd_to_ubigint x = (let t = dbl_trunc (snd x) in
     if t < 2 ^ 64 \<and> (fst x \<longrightarrow> t = 0) then Some (of_nat t) else None)"

text \<open>The text to copy to the destination and its length, for the number \<open>xnr\<close> read from \<open>data\<close>, or the state of
  a failure. A text that is copied from the application is so from the data pointer on.\<close>

definition number_source ::
    "esodbc_estype option \<Rightarrow> esodbc_rec \<Rightarrow> xstr \<Rightarrow> nat \<Rightarrow> t_number \<Rightarrow> limits option \<Rightarrow> (esodbc_state + xstr \<times> nat) option" where
  "number_source ulong irec data cnt xnr lims =
    (let as_is = Some (Inr (data, cnt)); wide = (\<exists>w. data = WStr w) in
     case lims of
       None \<Rightarrow> as_is
     | Some lims \<Rightarrow>
         (case xnr of
            N_SBIGINT v \<Rightarrow>
              (case lims of
                 Fixed lo hi \<Rightarrow> if sint v < lo \<or> 0 < sint v \<and> hi < uint v then Some (Inl SQL_STATE_22003) else as_is
               | Floating _ _ \<Rightarrow> as_is)
          | N_UBIGINT v \<Rightarrow>
              (case lims of
                 Fixed lo hi \<Rightarrow> if hi < uint v then Some (Inl SQL_STATE_22003) else as_is
               | Floating _ _ \<Rightarrow> as_is)
          | N_DOUBLE x \<Rightarrow>
              (case lims of
                 Fixed lo hi \<Rightarrow>
                   if cd_less x (cd_of_int lo) \<or> cd_less (cd_of_int hi) x then Some (Inl SQL_STATE_22003)
                   else do {
                     ull \<leftarrow> cd_to_ubigint (cd_abs x);
                     if unat ull * 2 ^ snd (snd x) < fst (snd x) then Some (Inl SQL_STATE_22001)
                     else do {
                       src \<leftarrow> (if es_type irec = ulong then map_option (\<lambda>u. ui64tot u wide) (cd_to_ubigint x)
                         else map_option (\<lambda>u. i64tot u wide) (cd_to_sbigint x));
                       Some (Inr (src, length (units src))) } }
               | Floating lo hi \<Rightarrow>
                   if cd_less (cd_abs x) lo \<or> cd_less hi (cd_abs x) then Some (Inl SQL_STATE_22003) else as_is)))"

definition string_to_number ::
    "c_library \<Rightarrow> bool \<Rightarrow> wstr \<Rightarrow> esodbc_estype option \<Rightarrow> esodbc_diag \<Rightarrow> esodbc_rec \<Rightarrow> xstr \<Rightarrow> int option
     \<Rightarrow> limits option \<Rightarrow> cstr option \<Rightarrow> conversion option" where
  "string_to_number lib ndebug ver ulong d irec data ind lims dest = do {
     (xstr, xnr) \<leftarrow> xstr_to_number lib data ind;
     (case xnr of
        None \<Rightarrow> not_converted ver d SQL_STATE_22018 irec dest
      | Some xnr \<Rightarrow> do {
          irec \<leftarrow> irec_promote_bigint_type ulong xnr irec;
          (case dest of
             None \<Rightarrow> converted d irec None (length (units xstr))
           | Some m \<Rightarrow> do {
               r \<leftarrow> number_source ulong irec data (length (units xstr)) xnr lims;
               (case r of
                  Inl st \<Rightarrow> not_converted ver d st irec dest
                | Inr (WStr w, cnt) \<Rightarrow> do {
                    (m, ret) \<leftarrow> ascii_w2c w m cnt;
                    c_assert ndebug (0 < ret);
                    converted d irec (Some m) cnt }
                | Inr (CStr c, cnt) \<Rightarrow> do {
                    m \<leftarrow> (if cnt \<le> length c then mem_write_list m 0 (take cnt c) else None);
                    converted d irec (Some m) cnt }) }) }) }"

section \<open>Any source\<close>

text \<open>\<open>ctype\<close> is the C type of the bound data, \<open>ind\<close> what is at the octet length pointer; the data must be of the
  kind of the type.\<close>

definition c2sql_number ::
    "c_library \<Rightarrow> bool \<Rightarrow> wstr \<Rightarrow> esodbc_estype option \<Rightarrow> esodbc_diag \<Rightarrow> esodbc_rec \<Rightarrow> esodbc_rec \<Rightarrow> int \<Rightarrow> num_data
     \<Rightarrow> int option \<Rightarrow> limits option \<Rightarrow> cstr option \<Rightarrow> conversion option" where
  "c2sql_number lib ndebug ver ulong d arec irec ctype data ind lims dest =
    (if ctype = SQL_C_CHAR \<or> ctype = SQL_C_WCHAR then
       (case data of
          N_text x \<Rightarrow> if (ctype = SQL_C_WCHAR) = (\<exists>w. x = WStr w)
            then string_to_number lib ndebug ver ulong d irec x ind lims dest else None
        | _ \<Rightarrow> None)
     else if ctype = SQL_C_BINARY then
       (case data of N_octets bs \<Rightarrow> binary_to_number ndebug ver ulong d arec irec bs ind dest | _ \<Rightarrow> None)
     else if ctype \<in> SQL_C_signed_integers then
       (case data of N_integer k \<Rightarrow> sfixed_to_number ndebug ver d irec (of_int k) lims dest | _ \<Rightarrow> None)
     else if ctype = SQL_C_BIT \<or> ctype \<in> SQL_C_unsigned_integers then
       (case data of N_integer k \<Rightarrow> ufixed_to_number ndebug ver ulong d irec (of_int k) lims dest | _ \<Rightarrow> None)
     else if ctype = SQL_C_FLOAT \<or> ctype = SQL_C_DOUBLE then
       (case data of N_double x \<Rightarrow> floating_to_number ndebug ver ulong d irec x lims dest | _ \<Rightarrow> None)
     else if ctype = SQL_C_NUMERIC then
       (case data of N_numeric n \<Rightarrow> numeric_to_number ndebug ver ulong d irec n dest | _ \<Rightarrow> None)
     else conversion_bug ver d ''bug converting parameter'' irec dest)"

section \<open>Booleans\<close>

definition t_number_double :: "t_number \<Rightarrow> c_double" where
  "t_number_double n = (case n of N_SBIGINT v \<Rightarrow> cd_of_int (sint v) | N_UBIGINT v \<Rightarrow> cd_of_int (uint v) | N_DOUBLE x \<Rightarrow> x)"

definition double_to_bool :: "c_double \<Rightarrow> bool" where
  "double_to_bool x \<longleftrightarrow> fst (snd x) \<noteq> 0"

text \<open>The value as a double, or the state of a failure.\<close>

definition boolean_source ::
    "c_library \<Rightarrow> esodbc_rec \<Rightarrow> int \<Rightarrow> num_data \<Rightarrow> int option \<Rightarrow> (esodbc_state + c_double) option" where
  "boolean_source lib irec ctype data ind =
    (case data of
       N_text x \<Rightarrow>
         if ctype = (case x of WStr _ \<Rightarrow> SQL_C_WCHAR | CStr _ \<Rightarrow> SQL_C_CHAR) then do {
           (_, xnr) \<leftarrow> xstr_to_number lib x ind;
           Some (case xnr of None \<Rightarrow> Inl SQL_STATE_22018 | Some n \<Rightarrow> Inr (t_number_double n)) }
         else None
     | N_octets bs \<Rightarrow>
         if ctype = SQL_C_BINARY then
           (if (\<exists>n \<in> set_option ind. n \<noteq> 1) then Some (Inl SQL_STATE_22003)
            else do {
              b \<leftarrow> mem_read bs 0;
              Some (if ind = None \<and> b \<noteq> 0 then Inl SQL_STATE_22003 else Inr (cd_of_int (uint b))) })
         else None
     | N_integer k \<Rightarrow>
         if ctype = SQL_C_BIT \<or> ctype \<in> SQL_C_signed_integers \<or> ctype \<in> SQL_C_unsigned_integers
         then Some (Inr (cd_of_int k)) else None
     | N_double x \<Rightarrow> if ctype = SQL_C_FLOAT \<or> ctype = SQL_C_DOUBLE then Some (Inr x) else None
     | N_numeric n \<Rightarrow>
         if ctype = SQL_C_NUMERIC then do {
           r \<leftarrow> numeric_to_double irec n;
           Some (case r of None \<Rightarrow> Inl SQL_STATE_22003 | Some x \<Rightarrow> Inr x) }
         else None)"

definition boolean_types :: "int set" where
  "boolean_types = {SQL_C_CHAR, SQL_C_WCHAR, SQL_C_BINARY, SQL_C_BIT, SQL_C_FLOAT, SQL_C_DOUBLE, SQL_C_NUMERIC} \<union>
    SQL_C_signed_integers \<union> SQL_C_unsigned_integers"

definition c2sql_boolean ::
    "c_library \<Rightarrow> wstr \<Rightarrow> esodbc_diag \<Rightarrow> esodbc_rec \<Rightarrow> int \<Rightarrow> num_data \<Rightarrow> int option \<Rightarrow> cstr option \<Rightarrow> conversion option" where
  "c2sql_boolean lib ver d irec ctype data ind dest =
    (case dest of
       None \<Rightarrow> converted d irec None (length JSON_VAL_FALSE)
     | Some m \<Rightarrow>
         if ctype \<notin> boolean_types then conversion_bug ver d ''bug converting parameter'' irec dest
         else do {
           r \<leftarrow> boolean_source lib irec ctype data ind;
           (case r of
              Inl st \<Rightarrow> not_converted ver d st irec dest
            | Inr x \<Rightarrow> do {
                let val = (if double_to_bool x then JSON_VAL_TRUE else JSON_VAL_FALSE);
                m \<leftarrow> mem_write_list m 0 val;
                converted d irec (Some m) (length val) }) })"

section \<open>Integers are written exactly or refused\<close>

definition sql_integer_types :: "int set" where
  "sql_integer_types = SQL_C_signed_integers \<union> SQL_C_unsigned_integers"

definition c_integer_value :: "int \<Rightarrow> int \<Rightarrow> bool" where
  "c_integer_value ctype k \<longleftrightarrow>
    (if ctype \<in> SQL_C_signed_integers then - 9223372036854775808 \<le> k \<and> k \<le> 9223372036854775807
     else 0 \<le> k \<and> k \<le> 18446744073709551615)"

lemma sint_of_int_64: "- 9223372036854775808 \<le> k \<Longrightarrow> k \<le> 9223372036854775807 \<Longrightarrow> sint (of_int k :: u64) = k"
  by (simp add: sint_sbintrunc' signed_take_bit_int_eq_self)

lemma uint_of_int_64: "0 \<le> k \<Longrightarrow> k \<le> 18446744073709551615 \<Longrightarrow> uint (of_int k :: u64) = k"
  by (simp add: uint_word_of_int)

lemma c_type_kinds: "SQL_C_signed_integers \<inter> SQL_C_unsigned_integers = {}"
  "ctype \<in> sql_integer_types \<Longrightarrow> ctype \<notin> {SQL_C_CHAR, SQL_C_WCHAR, SQL_C_BINARY, SQL_C_BIT, SQL_C_FLOAT, SQL_C_DOUBLE, SQL_C_NUMERIC}"
  by (auto simp: sql_integer_types_def SQL_C_signed_integers_def SQL_C_unsigned_integers_def)

lemma c2sql_number_integer:
  assumes "ctype \<in> sql_integer_types"
  shows "c2sql_number lib ndebug ver ulong d arec irec ctype (N_integer k) ind lims dest =
    (if ctype \<in> SQL_C_signed_integers then sfixed_to_number ndebug ver d irec (of_int k) lims dest
     else ufixed_to_number ndebug ver ulong d irec (of_int k) lims dest)"
  using c_type_kinds(2) [OF assms] assms by (auto simp: c2sql_number_def sql_integer_types_def)

lemma not_converted_ok:
  "diag_ok ver d \<Longrightarrow> st < 120 \<Longrightarrow> not_converted ver d st irec dest =
    Some \<lparr>cv_diag = posted ver d st (default_message st), cv_ret = state_retcode (esodbc_errors ! st), cv_irec = irec,
      cv_dest = dest, cv_len = None\<rparr>"
  by (simp add: not_converted_def RET_HDIAGS_ok)

lemma length_printed: "length (cstr_of (ui64tot v False)) \<le> 20" "length (cstr_of (i64tot v False)) \<le> 20"
proof -
  have "unat v < 2 ^ LENGTH(64)" by (rule unsigned_less)
  then have "unat v < 10 ^ 20" by simp
  then show "length (cstr_of (ui64tot v False)) \<le> 20"
    using dec_digits_length_le [of "unat v" 20] by (simp add: cstr_of_def units_ui64tot)
  have "\<bar>sint v\<bar> < 10 ^ 19" using sint_64_range [of v] by simp
  then have "nat \<bar>sint v\<bar> < 10 ^ 19" by (simp add: nat_less_iff)
  then show "length (cstr_of (i64tot v False)) \<le> 20"
    using dec_digits_length_le [of "nat \<bar>sint v\<bar>" 19] by (auto simp: cstr_of_def units_i64tot)
qed

lemma CStr_cstr_of: "CStr (cstr_of (ui64tot v False)) = ui64tot v False" "CStr (cstr_of (i64tot v False)) = i64tot v False"
proof -
  have *: "map (of_nat \<circ> (\<lambda>c. unat c)) c = c" for c :: cstr by (rule map_idI) simp
  show "CStr (cstr_of (ui64tot v False)) = ui64tot v False"
    using * by (auto simp: cstr_of_def ui64tot_def mk_xstr_def)
  show "CStr (cstr_of (i64tot v False)) = i64tot v False"
    using * by (auto simp: cstr_of_def i64tot_def mk_xstr_def)
qed

lemma written_text:
  "length txt < length m \<Longrightarrow> mem_write_list m 0 (txt @ [0]) = Some (txt @ 0 # drop (Suc (length txt)) m)"
  using mem_write_list_front [of "txt @ [0]" m] by simp

text \<open>The text of an integer: it reads back as the integer.\<close>

definition reads_as :: "cstr \<Rightarrow> int \<Rightarrow> bool" where
  "reads_as txt k \<longleftrightarrow>
    (if k < 0 then str2bigint (CStr txt) True = Inr (length txt, of_int k)
     else str2ubigint (CStr txt) True = Inr (length txt, of_int k))"

lemma reads_as_unsigned: "reads_as (cstr_of (ui64tot v False)) (uint v)"
proof -
  have "length (units (ui64tot v False)) = length (cstr_of (ui64tot v False))" by (simp add: cstr_of_def)
  then show ?thesis
    using ui64_roundtrip [of v False True] by (simp add: reads_as_def CStr_cstr_of)
qed

lemma reads_as_signed: "reads_as (cstr_of (i64tot v False)) (sint v)"
proof (cases "sint v < 0")
  case True
  have "length (units (i64tot v False)) = length (cstr_of (i64tot v False))" by (simp add: cstr_of_def)
  then show ?thesis
    using i64_roundtrip_neg [OF True, of False True] True by (simp add: reads_as_def CStr_cstr_of)
next
  case False
  then have eq: "sint v = uint v" using uint_magnitude [of v] by simp
  have "nat (sint v) = unat v" by (simp only: eq unat_eq_nat_uint)
  with False have "i64tot v False = ui64tot v False" by (simp only: i64tot_def ui64tot_def if_False)
  then show ?thesis using reads_as_unsigned [of v] eq by simp
qed

text \<open>How an integer is handed to the server: \<open>lo\<close> and \<open>hi\<close> are the limits of the type of the parameter.\<close>

lemma sfixed_written:
  assumes "length (cstr_of (i64tot v False)) < length m"
    and "\<not> (case lims of None \<Rightarrow> False | Some (Fixed lo hi) \<Rightarrow> sint v < lo \<or> 0 < sint v \<and> hi < uint v
      | Some (Floating lo hi) \<Rightarrow> cd_less (cd_of_int (sint v)) lo \<or> cd_less hi (cd_of_int (sint v)))"
  shows "sfixed_to_number True ver d irec v lims (Some m) =
    (let txt = cstr_of (i64tot v False) in
     converted d irec (Some (txt @ 0 # drop (Suc (length txt)) m)) (length txt))"
  using assms(2) written_text [OF assms(1)] by (simp add: sfixed_to_number_def c_assert_def Let_def)

lemma ufixed_written:
  assumes "length (cstr_of (ui64tot v False)) < length m" and "irec_promote_bigint_type ulong (N_UBIGINT v) irec = Some irec'"
    and "\<not> (case lims of Some (Fixed lo hi) \<Rightarrow> hi < uint v | _ \<Rightarrow> False)"
  shows "ufixed_to_number True ver ulong d irec v lims (Some m) =
    (let txt = cstr_of (ui64tot v False) in
     converted d irec' (Some (txt @ 0 # drop (Suc (length txt)) m)) (length txt))"
  using assms(2,3) written_text [OF assms(1)] by (auto simp: ufixed_to_number_def c_assert_def Let_def)

text \<open>The record of the parameter afterwards.\<close>

definition promoted :: "esodbc_estype option \<Rightarrow> int \<Rightarrow> int \<Rightarrow> esodbc_rec \<Rightarrow> esodbc_rec" where
  "promoted ulong ctype k irec =
    (if ctype \<in> SQL_C_unsigned_integers \<and> 9223372036854775807 < k \<and>
        (\<exists>e. es_type irec = Some e \<and> data_type e = SQL_BIGINT)
     then irec\<lparr>es_type := ulong\<rparr> else irec)"

lemma promoted_unsigned:
  assumes "es_type irec = Some e" "ctype \<in> SQL_C_unsigned_integers" "uint v = k"
  shows "irec_promote_bigint_type ulong (N_UBIGINT v) irec = Some (promoted ulong ctype k irec)"
  using assms by (auto simp: irec_promote_bigint_type_def promoted_def)

lemma fixed_limits: "param_limits t = Some (Fixed lo hi) \<Longrightarrow> lo < 0 \<and> 0 < hi"
  by (auto simp: param_limits_def split: if_splits)


text \<open>A C library of the "C" locale; its scanning of doubles finds none.\<close>

definition sample_library :: c_library where
  "sample_library = \<lparr>lib_iswspace = c_iswspace, lib_isspace = (\<lambda>c. c = 32 \<or> 9 \<le> c \<and> c \<le> 13),
     lib_scanf = (\<lambda>_. None), lib_strtod = (\<lambda>_. ((False, 0, 0), 0, False))\<rparr>"


text \<open>A parameter of type \<open>SMALLINT\<close> is given the limits of \<open>TINYINT\<close>: integers from 128 to 32767, which the
  type holds, are refused.\<close>
theorem smallint_param_refused:
  assumes "ctype \<in> sql_integer_types" and "c_integer_value ctype k" and "128 \<le> k" "k \<le> 32767"
    and "es_type irec = Some e" and "data_type e = SQL_SMALLINT"
  shows "\<exists>lims. param_limits (data_type e) = Some lims \<and>
    c2sql_number lib ndebug ver ulong d arec irec ctype (N_integer k) ind (Some lims) (Some m) =
      not_converted ver d SQL_STATE_22003 irec (Some m)"
proof -
  have lims: "param_limits (data_type e) = Some (Fixed (- 128) 127)" using assms(6) by (simp add: param_limits_def)
  have k: "sint (of_int k :: u64) = k" "uint (of_int k :: u64) = k"
    using assms(3,4) by (simp_all add: sint_of_int_64 uint_of_int_64)
  have "irec_promote_bigint_type ulong (N_UBIGINT (of_int k)) irec = Some irec"
    using assms(5,6) by (simp add: irec_promote_bigint_type_def)
  then show ?thesis
    using assms(1,3) k lims by (simp add: c2sql_number_integer sfixed_to_number_def ufixed_to_number_def)
qed

lemma smallint_param_refused_witness:
  "\<exists>lims. param_limits (data_type (sample_estype SQL_SMALLINT)) = Some lims \<and>
    c2sql_number sample_library True (wlit ''1.0'') None (desc_diag sample_desc) sample_rec
      (sample_rec\<lparr>es_type := Some (sample_estype SQL_SMALLINT)\<rparr>) SQL_C_SSHORT (N_integer 1000) None (Some lims) (Some []) =
    not_converted (wlit ''1.0'') (desc_diag sample_desc) SQL_STATE_22003 (sample_rec\<lparr>es_type := Some (sample_estype SQL_SMALLINT)\<rparr>) (Some [])"
  by (rule smallint_param_refused)
    (simp_all add: sql_integer_types_def c_integer_value_def SQL_C_signed_integers_def sample_estype_def)

lemma round_even_div_le: "round_even_div n d \<le> n div d + 1"
  by (simp add: round_even_div_def Let_def)

lemma dbl_ratio_bounds:
  obtains m j where "dbl_ratio n 1 = (m, j)" "m \<le> 2 * n * 2 ^ j" "0 < n \<Longrightarrow> 2 ^ j \<le> m" "n = 0 \<Longrightarrow> m = 0"
proof (cases "n < 2 ^ 53")
  case True
  then obtain j where "dbl_ratio n 1 = (n * 2 ^ j, j)" using dbl_ratio_exact [of 1 n] by auto
  then show ?thesis using that by simp
next
  case False
  obtain i where i: "dbl_shift n 1 0 = i" "i = 0 \<or> 2 ^ 53 * 2 ^ (i - 1) \<le> n" "n < 2 ^ 53 * 2 ^ i"
    using dbl_shift_eq [of 1 n 0] by auto
  have pos: "i \<noteq> 0"
  proof
    assume "i = 0"
    then show False using i(3) False by simp
  qed
  have "(2::nat) ^ i = 2 * 2 ^ (i - 1)" using pos by (cases i) simp_all
  also have "\<dots> \<le> 2 ^ 53 * 2 ^ (i - 1)" by simp
  also have "\<dots> \<le> n" using i(2) pos by simp
  finally have "2 ^ i \<le> n" .
  define q where "q = round_even_div n (2 ^ i)"
  have r: "dbl_ratio n 1 = (q * 2 ^ i, 0)" using False i(1) by (simp add: dbl_ratio_def Let_def q_def)
  have "q * 2 ^ i \<le> (n div 2 ^ i + 1) * 2 ^ i" unfolding q_def by (intro mult_right_mono round_even_div_le) simp
  also have "\<dots> \<le> n + 2 ^ i" by simp
  finally have up: "q * 2 ^ i \<le> 2 * n" using \<open>2 ^ i \<le> n\<close> by simp
  have "1 \<le> n div 2 ^ i" using \<open>2 ^ i \<le> n\<close> by (simp add: Suc_le_eq div_greater_zero_iff)
  then have "1 \<le> q" unfolding q_def using round_even_div_ge [of n "2 ^ i"] by simp
  then show ?thesis using that [OF r] up False by simp
qed

lemma integer_within_floating:
  assumes "param_limits t = Some (Floating lo hi)" and "\<bar>k\<bar> \<le> 2 ^ 64"
  shows "cd_less (cd_of_int k) lo \<longleftrightarrow> k \<le> 0" and "\<not> cd_less hi (cd_of_int k)"
proof -
  have lims: "lo = (False, 1, 126) \<and> hi = (False, (2 ^ 24 - 1) * 2 ^ 104, 0) \<or>
      lo = (False, 1, 1022) \<and> hi = (False, (2 ^ 53 - 1) * 2 ^ 971, 0)"
    using assms(1) by (auto simp: param_limits_def FLT_MIN_def FLT_MAX_def DBL_MIN_def DBL_MAX_def split: if_splits)
  obtain m j where mj: "dbl_ratio (nat \<bar>k\<bar>) 1 = (m, j)" "m \<le> 2 * nat \<bar>k\<bar> * 2 ^ j" "0 < nat \<bar>k\<bar> \<Longrightarrow> 2 ^ j \<le> m"
      "nat \<bar>k\<bar> = 0 \<Longrightarrow> m = 0"
    using dbl_ratio_bounds [of "nat \<bar>k\<bar>"] by blast
  have "2 * nat \<bar>k\<bar> \<le> 2 ^ 65" using assms(2) by (simp add: nat_le_iff)
  then have "2 * nat \<bar>k\<bar> * 2 ^ j \<le> 2 ^ 65 * 2 ^ j" by (rule mult_right_mono) simp
  then have "int m \<le> int (2 ^ 65 * 2 ^ j)" using mj(2) by (intro of_nat_mono) (rule order_trans)
  then have up: "int m \<le> 2 ^ 65 * 2 ^ j" by (simp only: of_nat_mult of_nat_power of_nat_numeral)
  have low: "(2::int) ^ j \<le> int m" if "0 < k"
  proof -
    have "2 ^ j \<le> m" using mj(3) that by simp
    then have "int (2 ^ j) \<le> int m" by (rule of_nat_mono)
    then show ?thesis by (simp only: of_nat_power of_nat_numeral)
  qed
  have num: "cd_numerator (cd_of_int k) = (if k < 0 then - int m else int m)" "snd (snd (cd_of_int k)) = j"
    unfolding cd_of_int_def cd_numerator_def mj(1) by simp_all
  have less: "cd_less (cd_of_int k) (False, 1, e) \<longleftrightarrow> k \<le> 0" for e
  proof (cases "0 < k")
    case True
    have "(2::int) ^ j * 1 \<le> int m * 2 ^ e" using low [OF True] by (intro mult_mono) simp_all
    then show ?thesis using True num by (simp add: cd_less_def cd_numerator_def)
  next
    case False
    then have "(if k < 0 then - int m else int m) \<le> 0" using mj(4) by auto
    then have "(if k < 0 then - int m else int m) * 2 ^ e \<le> 0" by (intro mult_nonpos_nonneg) simp_all
    moreover have "(0::int) < 2 ^ j" by simp
    ultimately have "(if k < 0 then - int m else int m) * 2 ^ e < 2 ^ j" by linarith
    then show ?thesis using False num by (simp add: cd_less_def cd_numerator_def)
  qed
  then show "cd_less (cd_of_int k) lo \<longleftrightarrow> k \<le> 0" using lims by auto
  have most: "\<not> cd_less (False, h, 0) (cd_of_int k)" if "2 ^ 65 \<le> int h" for h
  proof -
    have "(2::int) ^ 65 * 2 ^ j \<le> int h * 2 ^ j" using that by (rule mult_right_mono) simp
    then have "int m \<le> int h * 2 ^ j" using up by linarith
    then have "(if k < 0 then - int m else int m) \<le> int h * 2 ^ j" by (simp add: order_trans [of "- int m" "int m"])
    then show ?thesis using num by (simp add: cd_less_def cd_numerator_def)
  qed
  have "(2::int) ^ 65 \<le> int ((2 ^ 24 - 1) * 2 ^ 104)" "(2::int) ^ 65 \<le> int ((2 ^ 53 - 1) * 2 ^ 971)" by simp_all
  then show "\<not> cd_less hi (cd_of_int k)" using lims most by metis
qed

text \<open>The least value of a floating point type that the limits name is its least positive one (\<open>DBL_MIN\<close>,
  \<open>FLT_MIN\<close>), so that a signed integer that is zero or negative, and a floating point zero, are out of range for
  a parameter of such a type, while a positive integer is written as its digits.\<close>
theorem floating_param_refuses:
  assumes "param_limits (data_type e) = Some (Floating lo hi)" and "es_type irec = Some e"
    and "ctype \<in> SQL_C_signed_integers" and "c_integer_value ctype k" and "21 \<le> length m"
  shows "(if k \<le> 0
      then c2sql_number lib True ver ulong d arec irec ctype (N_integer k) ind (Some (Floating lo hi)) (Some m) =
        not_converted ver d SQL_STATE_22003 irec (Some m)
      else \<exists>txt. c2sql_number lib True ver ulong d arec irec ctype (N_integer k) ind (Some (Floating lo hi)) (Some m) =
        converted d irec (Some (txt @ 0 # drop (Suc (length txt)) m)) (length txt) \<and> reads_as txt k) \<and>
    c2sql_number lib True ver ulong d arec irec SQL_C_DOUBLE (N_double (neg, 0, j)) ind (Some (Floating lo hi)) (Some m) =
      not_converted ver d SQL_STATE_22003 irec (Some m)"
proof
  have k: "sint (of_int k :: u64) = k" using assms(3,4) by (simp add: c_integer_value_def sint_of_int_64)
  have "\<bar>k\<bar> \<le> 2 ^ 64" using assms(3,4) by (simp add: c_integer_value_def abs_le_iff)
  note w = integer_within_floating [OF assms(1) this]
  have ty: "ctype \<in> sql_integer_types" using assms(3) by (simp add: sql_integer_types_def)
  show "if k \<le> 0
      then c2sql_number lib True ver ulong d arec irec ctype (N_integer k) ind (Some (Floating lo hi)) (Some m) =
        not_converted ver d SQL_STATE_22003 irec (Some m)
      else \<exists>txt. c2sql_number lib True ver ulong d arec irec ctype (N_integer k) ind (Some (Floating lo hi)) (Some m) =
        converted d irec (Some (txt @ 0 # drop (Suc (length txt)) m)) (length txt) \<and> reads_as txt k"
  proof (cases "k \<le> 0")
    case True
    then show ?thesis using assms(3) ty k w by (simp add: c2sql_number_integer sfixed_to_number_def)
  next
    case False
    then show ?thesis
      using assms(3,5) ty k w length_printed(2) [of "of_int k"] reads_as_signed [of "of_int k"]
      by (auto simp: c2sql_number_integer sfixed_written Let_def)
  qed
  have "data_type e \<noteq> SQL_BIGINT" using assms(1) by (auto simp: param_limits_def)
  moreover have "cd_less (cd_abs (neg, 0, j)) lo"
    using assms(1) by (auto simp: param_limits_def cd_less_def cd_abs_def cd_numerator_def FLT_MIN_def DBL_MIN_def split: if_splits)
  ultimately show "c2sql_number lib True ver ulong d arec irec SQL_C_DOUBLE (N_double (neg, 0, j)) ind (Some (Floating lo hi)) (Some m) =
      not_converted ver d SQL_STATE_22003 irec (Some m)"
    using assms(2) by (simp add: c2sql_number_def floating_to_number_def irec_promote_bigint_type_def
        SQL_C_signed_integers_def SQL_C_unsigned_integers_def)
qed

lemma floating_param_refuses_witness:
  "c2sql_number sample_library True (wlit ''1.0'') None (desc_diag sample_desc) sample_rec
      (sample_rec\<lparr>es_type := Some (sample_estype SQL_DOUBLE)\<rparr>) SQL_C_SLONG (N_integer 0) None
      (Some (Floating DBL_MIN (False, DBL_MAX))) (Some (replicate 30 0)) =
    not_converted (wlit ''1.0'') (desc_diag sample_desc) SQL_STATE_22003
      (sample_rec\<lparr>es_type := Some (sample_estype SQL_DOUBLE)\<rparr>) (Some (replicate 30 0))"
proof -
  have "param_limits (data_type (sample_estype SQL_DOUBLE)) = Some (Floating DBL_MIN (False, DBL_MAX))"
    by (simp add: param_limits_def sample_estype_def)
  note f = floating_param_refuses [OF this, of "sample_rec\<lparr>es_type := Some (sample_estype SQL_DOUBLE)\<rparr>" SQL_C_SLONG 0
      "replicate 30 0" sample_library "wlit ''1.0''" None "desc_diag sample_desc" sample_rec None False 0]
  show ?thesis
    by (rule f [THEN conjunct1, unfolded if_P [OF order_refl]])
      (simp_all add: SQL_C_signed_integers_def c_integer_value_def)
qed

lemma dec_digits_length_ge: "10 ^ p \<le> n \<Longrightarrow> p < length (dec_digits n)"
proof (induction p arbitrary: n)
  case 0
  then show ?case using dec_digits_nonempty [of n] by simp
next
  case (Suc p)
  have "10 ^ p * 10 \<le> n" using Suc.prems by simp
  then have "10 ^ p \<le> n div 10" by (simp add: less_eq_div_iff_mult_less_eq)
  moreover have "10 \<le> n" using Suc.prems by (meson order_trans one_le_power self_le_power one_le_numeral zero_less_Suc)
  ultimately show ?case using Suc.IH [of "n div 10"] by (simp add: dec_digits.simps [of n])
qed

text \<open>For a signed integer the first call asks for 19 octets, the digits of the largest, but no sign: a negative
  number of 19 digits takes 20 and a terminator, a debug build stops on it, and a release build writes past
  a destination of the room asked for.\<close>
theorem bigint_param_room:
  assumes "sint src \<le> - 1000000000000000000"
  shows "sfixed_to_number ndebug ver d irec src lims None = converted d irec None 19 \<and>
    sfixed_to_number False ver d irec src None (Some m) = None \<and>
    (if length m \<le> 20 then sfixed_to_number True ver d irec src None (Some m) = None
     else \<exists>txt. sfixed_to_number True ver d irec src None (Some m) =
       converted d irec (Some (txt @ 0 # drop 21 m)) 20 \<and> length txt = 20)"
proof -
  define out where "out = cstr_of (i64tot src False)"
  have "10 ^ 18 \<le> nat (- sint src)" using assms by (simp add: le_nat_iff)
  then have "18 < length (dec_digits (nat (- sint src)))" by (rule dec_digits_length_ge)
  then have "20 \<le> length out" using assms by (simp add: out_def cstr_of_def units_i64tot)
  then have len: "length out = 20" using length_printed(2) [of src] by (simp add: out_def)
  have over: "mem_write_list m 0 (out @ [0]) = None" if "length m \<le> 20"
    using that len by (intro mem_write_list_past) simp_all
  have fits: "mem_write_list m 0 (out @ [0]) = Some (out @ 0 # drop 21 m)" if "\<not> length m \<le> 20"
    using written_text [of out m] that len by simp
  show ?thesis
    using over fits len unfolding sfixed_to_number_def out_def [symmetric]
    by (cases "length m \<le> 20") (auto simp: c_assert_def)
qed

lemma bigint_param_room_witness:
  "sfixed_to_number True (wlit ''1.0'') (desc_diag sample_desc) sample_rec (- 9223372036854775808) None (Some (replicate 19 0)) = None"
  using bigint_param_room [of "- 9223372036854775808" True "wlit ''1.0''" "desc_diag sample_desc" sample_rec None "replicate 19 0"]
  by simp

lemma trimmed_text:
  assumes "\<forall>b\<in>set blanks \<union> set trail. lib_isspace lib b" and "\<forall>b\<in>set t. \<not> lib_isspace lib b" and "t \<noteq> []"
  shows "trim_ws (lib_isspace lib) (blanks @ t @ trail) = t"
    and "trim_ws_left (lib_isspace lib) (blanks @ t @ trail) = t @ trail"
proof -
  have "dropWhile (lib_isspace lib) (blanks @ t @ trail) = dropWhile (lib_isspace lib) (t @ trail)"
    using assms(1) by (intro dropWhile_append2) simp
  also have "\<dots> = t @ trail" using assms(2,3) by (cases t) simp_all
  finally show left: "trim_ws_left (lib_isspace lib) (blanks @ t @ trail) = t @ trail" by (simp add: trim_ws_left_eq)
  have "dropWhile (lib_isspace lib) (rev trail @ rev t) = rev t"
  proof -
    have "dropWhile (lib_isspace lib) (rev trail @ rev t) = dropWhile (lib_isspace lib) (rev t)"
      using assms(1) by (intro dropWhile_append2) simp
    also have "\<dots> = rev t" using assms(2,3) by (cases t rule: rev_cases) simp_all
    finally show ?thesis .
  qed
  then show "trim_ws (lib_isspace lib) (blanks @ t @ trail) = t"
    unfolding trim_ws_def Let_def left by (subst wrtrim_cnt_eq) simp_all
qed



end
