(* ===== verification/Param_Text.thy ===== *)
theory Param_Text
imports Param_Number Str_Escape
begin

text \<open>
  Strings given as parameters, written as quoted JSON for the server: \<open>c2sql_cstr2qstr\<close>, \<open>c2sql_wstr2qstr\<close>
  and \<open>c2sql_number2qstr\<close> of driver/convert.c. As for numbers, a first call without a destination gives the room,
  a second one writes. \<open>data\<close> is the application's buffer, \<open>utf8\<close> the conversion to UTF-8 of the Windows API:
  \<open>None\<close> is its failure.
\<close>

section \<open>Lengths\<close>

text \<open>The count of units; -1 after a stop in a debug build.\<close>

definition get_octet_len :: "bool \<Rightarrow> xstr \<Rightarrow> int option \<Rightarrow> int option" where
  "get_octet_len ndebug data ind =
    (case ind of
       None \<Rightarrow> map_option int (app_strlen data)
     | Some n \<Rightarrow>
         if n = SQL_NTSL then map_option int (app_strlen data)
         else if n = - 1 then do { c_assert ndebug False; Some (- 1) }
         else Some (to_i64 (to_u64 n div (case data of WStr _ \<Rightarrow> 2 | CStr _ \<Rightarrow> 1))))"

section \<open>Narrow text\<close>

text \<open>\<open>json_escape\<close> of \<open>cnt\<close> octets of \<open>src\<close> to \<open>dest\<close>, which are apart. Both count as text up to a terminator
  when \<open>cnt\<close> is 0.\<close>

definition escape_into :: "cstr \<Rightarrow> nat \<Rightarrow> cstr \<Rightarrow> (cstr \<times> nat) option" where
  "escape_into src cnt dest = do {
     n \<leftarrow> (if cnt = 0 then mem_strlen src else if cnt \<le> length src then Some cnt else None);
     (mem, len) \<leftarrow> json_escape (src @ dest) 0 n (Some (length src)) 18446744073709551615;
     Some (drop (length src) mem, len) }"

definition c2sql_cstr2qstr ::
    "bool \<Rightarrow> wstr \<Rightarrow> esodbc_diag \<Rightarrow> esodbc_rec \<Rightarrow> cstr \<Rightarrow> int option \<Rightarrow> cstr option \<Rightarrow> conversion option" where
  "c2sql_cstr2qstr ndebug ver d irec data ind dest = do {
     cnt \<leftarrow> get_octet_len ndebug (CStr data) ind;
     (case dest of
        Some m \<Rightarrow> do {
          m \<leftarrow> mem_write m 0 34;
          (out, len) \<leftarrow> escape_into data (nat (to_u64 cnt)) (drop 1 m);
          m \<leftarrow> mem_write (take 1 m @ out) (len + 1) 34;
          converted d irec (Some m) (len + 2) }
      | None \<Rightarrow> do {
          sz \<leftarrow> get_param_size irec;
          if to_i64 sz < cnt then not_converted ver d SQL_STATE_22001 irec None
          else do {
            (_, len) \<leftarrow> json_escape data 0 (nat (to_u64 cnt)) None 18446744073709551615;
            converted d irec None (len + 2) } }) }"

section \<open>Wide text\<close>

text \<open>The units the API is given: for a count of -1 those up to a terminator and with it.\<close>

definition api_units :: "wstr \<Rightarrow> int \<Rightarrow> wstr option" where
  "api_units data cnt =
    (if cnt = - 1 then map_option (\<lambda>n. take (n + 1) data) (mem_strlen data)
     else if 0 \<le> cnt \<and> cnt \<le> int (length data) then Some (take (nat cnt) data)
     else None)"

definition c2sql_wstr2qstr ::
    "(wstr \<Rightarrow> cstr option) \<Rightarrow> bool \<Rightarrow> wstr \<Rightarrow> esodbc_diag \<Rightarrow> esodbc_rec \<Rightarrow> wstr \<Rightarrow> int option \<Rightarrow> cstr option
     \<Rightarrow> conversion option" where
  "c2sql_wstr2qstr utf8 ndebug ver d irec data ind dest = do {
     cnt \<leftarrow> get_octet_len ndebug (WStr data) ind;
     sz \<leftarrow> (if dest = None then get_param_size irec else Some 0);
     if dest = None \<and> to_i64 sz < cnt then not_converted ver d SQL_STATE_22001 irec None
     else do {
       dest \<leftarrow> (case dest of None \<Rightarrow> Some None | Some m \<Rightarrow> map_option Some (mem_write m 0 34));
       u8 \<leftarrow> (if cnt = 0 then Some (Some []) else map_option utf8 (api_units data cnt));
       (case u8 of
          None \<Rightarrow> not_converted ver d SQL_STATE_HY000 irec dest
        | Some u8 \<Rightarrow> do {
            c_assert ndebug (cnt = 0 \<or> u8 \<noteq> []);
            (case dest of
               None \<Rightarrow> converted d irec None (length u8 * JSON_ESC_SEQ_SZ + 2)
             | Some m \<Rightarrow> do {
                 m \<leftarrow> mem_write_list m 1 u8;
                 (m, len) \<leftarrow> json_escape_overlapping m 1 (length u8) (JSON_ESC_SEQ_SZ * length u8);
                 m \<leftarrow> mem_write m (len + 1) 34;
                 converted d irec (Some m) (len + 2) }) }) } }"

section \<open>Numbers in quotes\<close>

text \<open>The length is looked at also when the number was not converted, and so not set.\<close>

definition c2sql_number2qstr ::
    "c_library \<Rightarrow> bool \<Rightarrow> wstr \<Rightarrow> esodbc_estype option \<Rightarrow> esodbc_diag \<Rightarrow> esodbc_rec \<Rightarrow> esodbc_rec \<Rightarrow> int \<Rightarrow> num_data
     \<Rightarrow> int option \<Rightarrow> cstr option \<Rightarrow> conversion option" where
  "c2sql_number2qstr lib ndebug ver ulong d arec irec ctype data ind dest =
    (case dest of
       None \<Rightarrow> do {
         r \<leftarrow> c2sql_number lib ndebug ver ulong d arec irec ctype data ind None None;
         Some (r\<lparr>cv_len := map_option (\<lambda>len. len + 2) (cv_len r)\<rparr>) }
     | Some m \<Rightarrow> do {
         m \<leftarrow> mem_write m 0 34;
         r \<leftarrow> c2sql_number lib ndebug ver ulong d arec irec ctype data ind None (Some (drop 1 m));
         len \<leftarrow> cv_len r;
         out \<leftarrow> cv_dest r;
         sz \<leftarrow> get_param_size (cv_irec r);
         let m = take 1 m @ out;
         if to_u64 sz < int len then not_converted ver (cv_diag r) SQL_STATE_22003 (cv_irec r) (Some m)
         else do {
           m \<leftarrow> mem_write m (len + 1) 34;
           Some (r\<lparr>cv_dest := Some m, cv_len := Some (len + 2)\<rparr>) } })"

section \<open>Escaping with no limit\<close>

lemma json_loop_whole:
  assumes "src + n \<le> jout + pos" and "cs = take n (drop src mem)" and "src + n \<le> length mem"
    and "jout + pos + length (json.encode cs) \<le> length mem" and "pos + length (json.encode cs) \<le> outlen"
  shows "json_escape_loop mem src n jout outlen pos =
    Some (take (jout + pos) mem @ json.encode cs @ drop (jout + pos + length (json.encode cs)) mem,
      pos + length (json.encode cs))"
  using assms
proof (induction n arbitrary: mem src pos cs)
  case 0
  then show ?case by (simp add: json.encode_Nil)
next
  case (Suc n)
  define c where "c = mem ! src"
  define rs where "rs = take n (drop (Suc src) mem)"
  have cs: "cs = c # rs" and rd: "mem_read mem src = Some c"
    using Suc.prems by (simp_all add: c_def rs_def mem_read_def Cons_nth_drop_Suc [symmetric])
  let ?e = "json_esc1 c" and ?w = "jout + pos"
  define mem' where "mem' = take ?w mem @ ?e @ drop (?w + length ?e) mem"
  have len: "length (json.encode cs) = length ?e + length (json.encode rs)" by (simp add: cs json.encode_Cons)
  have w: "?w + length ?e \<le> length mem" using Suc.prems(4) len by linarith
  have rs: "rs = take n (drop (Suc src) mem')"
    unfolding rs_def mem'_def using Suc.prems(1) w by (intro take_drop_before_write [symmetric]) auto
  have "json_escape_loop mem src (Suc n) jout outlen pos =
      json_escape_loop mem' (Suc src) n jout outlen (pos + length ?e)"
    using Suc.prems(5) len w by (simp add: json_escape_loop_Suc rd mem_write_list_fits mem'_def)
  also have "\<dots> = Some (take (jout + (pos + length ?e)) mem' @ json.encode rs @
      drop (jout + (pos + length ?e) + length (json.encode rs)) mem', pos + length ?e + length (json.encode rs))"
    by (rule Suc.IH [OF _ rs]) (use Suc.prems len w in \<open>simp_all add: mem'_def\<close>)
  also have "\<dots> = Some (take ?w mem @ json.encode cs @ drop (?w + length (json.encode cs)) mem,
      pos + length (json.encode cs))"
    using w by (simp add: cs json.encode_Cons mem'_def ac_simps)
  finally show ?case .
qed

lemma escape_into_whole:
  assumes "0 < cnt" "cnt \<le> length src" "length (json.encode (take cnt src)) \<le> length dest"
    and "length (json.encode (take cnt src)) \<le> 18446744073709551615"
  shows "escape_into src cnt dest = Some (json.encode (take cnt src) @ drop (length (json.encode (take cnt src))) dest,
    length (json.encode (take cnt src)))"
proof -
  have "json_escape_loop (src @ dest) 0 cnt (length src) 18446744073709551615 0 =
      Some (take (length src + 0) (src @ dest) @ json.encode (take cnt src) @
        drop (length src + 0 + length (json.encode (take cnt src))) (src @ dest), 0 + length (json.encode (take cnt src)))"
    using assms by (intro json_loop_whole) simp_all
  then show ?thesis using assms by (simp add: escape_into_def json_escape_def)
qed

section \<open>What is sent is the text\<close>

lemma octet_len_given: "cnt < 2 ^ 63 \<Longrightarrow> get_octet_len ndebug (CStr data) (Some (int cnt)) = Some (int cnt)"
proof -
  assume c: "cnt < 2 ^ 63"
  have "int cnt \<noteq> - 3" "int cnt \<noteq> - 1" by linarith+
  moreover have "to_i64 (int cnt) = int cnt" "to_u64 (int cnt) = int cnt" using c by (simp_all add: to_i64_def to_u64_def)
  ultimately show ?thesis by (simp add: get_octet_len_def SQL_NTSL_def)
qed

lemma quoted_write:
  assumes "length out + 2 \<le> length m"
  shows "mem_write (take 1 (m[0 := 34]) @ out @ drop (length out) (drop 1 (m[0 := 34]))) (length out + 1) 34 =
    Some (34 # out @ 34 # drop (length out + 2) m)"
proof -
  obtain a m' where m: "m = a # m'" using assms by (cases m) auto
  have "m' = take (length out) m' @ m' ! length out # drop (Suc (length out)) m'"
    using assms m by (intro id_take_nth_drop) simp
  then obtain xs b ys where m': "m' = xs @ b # ys" "length xs = length out" "ys = drop (Suc (length out)) m'"
    using assms m by (metis length_take min.absorb2 add_2_eq_Suc' length_Cons not_less_eq_eq Suc_leD)
  show ?thesis by (simp add: m m'(1,2) mem_write_def list_update_append)
qed

lemma cstr2qstr_written:
  assumes "if cnt = 0 then mem_strlen data = Some n \<and> 0 < n else cnt = n \<and> n \<le> length data"
    and "n \<le> length data" and "0 < n" and "n < 2 ^ 60" and "json_escaped_len (take n data) + 2 \<le> length m"
  shows "c2sql_cstr2qstr ndebug ver d irec data (Some (int cnt)) (Some m) =
    converted d irec (Some (34 # json.encode (take n data) @ 34 # drop (length (json.encode (take n data)) + 2) m))
      (length (json.encode (take n data)) + 2)"
proof -
  have "json_escaped_len (take n data) \<le> 6 * n"
    using json_escaped_len_bound [of "take n data"] assms(2) by (simp add: JSON_ESC_SEQ_SZ_def JSON_ESC_GEN_PREF_def)
  then have small: "length (json.encode (take n data)) \<le> 18446744073709551615" using assms(4) by (simp add: json_escaped_len_eq)
  have cnt: "cnt < 2 ^ 63" using assms(1,4) by (auto split: if_splits)
  then have c: "nat (to_u64 (int cnt)) = cnt" by (simp add: to_u64_def)
  have m: "mem_write m 0 34 = Some (m[0 := 34])" using assms(5) by (cases m) (simp_all add: mem_write_def)
  have room: "length (json.encode (take n data)) \<le> length (drop 1 (m[0 := 34]))"
    "length (json.encode (take n data)) + 2 \<le> length m"
    using assms(5) by (simp_all add: json_escaped_len_eq)
  have "escape_into data cnt (drop 1 (m[0 := 34])) = escape_into data n (drop 1 (m[0 := 34]))"
    using assms(1,2,3) by (simp add: escape_into_def split: if_splits)
  also have "\<dots> = Some (json.encode (take n data) @ drop (length (json.encode (take n data))) (drop 1 (m[0 := 34])),
      length (json.encode (take n data)))"
    using assms(2,3) room(1) small by (rule_tac escape_into_whole) simp_all
  finally show ?thesis
    unfolding c2sql_cstr2qstr_def octet_len_given [OF cnt]
    using c m quoted_write [OF room(2)] by simp
qed

text \<open>C13: a narrow string given with its length is written in quotes, with JSON escapes that a reader decodes to it, in
  exactly the room the first call asks for; a string longer than the size of the parameter is refused by the
  first call with state 22001.\<close>
theorem quoted_text_roundtrip:
  assumes "0 < cnt" "cnt \<le> length data" "cnt < 2 ^ 60" and "get_param_size irec = Some sz" "0 \<le> sz" "sz < 2 ^ 63"
    and "json_escaped_len (take cnt data) + 2 \<le> length m"
  shows "c2sql_cstr2qstr ndebug ver d irec data (Some (int cnt)) None =
      (if int cnt \<le> sz then converted d irec None (json_escaped_len (take cnt data) + 2)
       else not_converted ver d SQL_STATE_22001 irec None) \<and>
    (\<exists>out. c2sql_cstr2qstr ndebug ver d irec data (Some (int cnt)) (Some m) =
        converted d irec (Some (34 # out @ 34 # drop (json_escaped_len (take cnt data) + 2) m))
          (json_escaped_len (take cnt data) + 2) \<and>
      length out = json_escaped_len (take cnt data) \<and> decode_all json_unesc1 cnt out = Some (take cnt data))"
proof
  have c: "cnt < 2 ^ 63" "nat (to_u64 (int cnt)) = cnt" using assms(3) by (simp_all add: to_u64_def)
  have sz: "to_i64 sz = sz" using assms(5,6) by (simp add: to_i64_def)
  show "c2sql_cstr2qstr ndebug ver d irec data (Some (int cnt)) None =
      (if int cnt \<le> sz then converted d irec None (json_escaped_len (take cnt data) + 2)
       else not_converted ver d SQL_STATE_22001 irec None)"
    unfolding c2sql_cstr2qstr_def octet_len_given [OF c(1)]
    using assms(1,2,4) c(2) sz by (simp add: json_escape_def)
  have "decode_all json_unesc1 cnt (json.encode (take cnt data)) = Some (take cnt data)"
    by (rule json.decode_encode) simp
  then show "\<exists>out. c2sql_cstr2qstr ndebug ver d irec data (Some (int cnt)) (Some m) =
        converted d irec (Some (34 # out @ 34 # drop (json_escaped_len (take cnt data) + 2) m))
          (json_escaped_len (take cnt data) + 2) \<and>
      length out = json_escaped_len (take cnt data) \<and> decode_all json_unesc1 cnt out = Some (take cnt data)"
    using cstr2qstr_written [of cnt data cnt m ndebug ver d irec] assms(1-3,7)
    by (intro exI [of _ "json.encode (take cnt data)"]) (simp add: json_escaped_len_eq)
qed

text \<open>A string given with length zero is not taken for the empty one: the escaping reads the buffer up to a
  terminator, and the server is sent what is there.\<close>
theorem empty_text_sends_buffer:
  assumes "s \<noteq> []" and "0 \<notin> set s" and "length s < 2 ^ 60" and "json_escaped_len s + 2 \<le> length m"
  shows "\<exists>out. c2sql_cstr2qstr ndebug ver d irec (s @ 0 # rest) (Some 0) (Some m) =
      converted d irec (Some (34 # out @ 34 # drop (length out + 2) m)) (length out + 2) \<and>
    decode_all json_unesc1 (length s) out = Some s"
proof -
  have "mem_strlen (s @ 0 # rest) = Some (length s)" using mem_strlen_nts [OF assms(2)] .
  then have "c2sql_cstr2qstr ndebug ver d irec (s @ 0 # rest) (Some (int 0)) (Some m) =
      converted d irec (Some (34 # json.encode s @ 34 # drop (length (json.encode s) + 2) m)) (length (json.encode s) + 2)"
    using cstr2qstr_written [of 0 "s @ 0 # rest" "length s" m ndebug ver d irec] assms(1,3,4) by simp
  moreover have "decode_all json_unesc1 (length s) (json.encode s) = Some s" by (rule json.decode_encode) simp
  ultimately show ?thesis by auto
qed

lemma quoted_text_roundtrip_witness:
  "c2sql_cstr2qstr True (wlit ''1.0'') (desc_diag sample_desc) (sample_rec\<lparr>meta_type := METATYPE_STRING, rec_length := 1\<rparr>)
      (clit ''ab'') (Some (int 2)) None =
    not_converted (wlit ''1.0'') (desc_diag sample_desc) SQL_STATE_22001 (sample_rec\<lparr>meta_type := METATYPE_STRING, rec_length := 1\<rparr>) None"
proof -
  have "json_escaped_len (take 2 (clit ''ab'')) + 2 \<le> length (replicate 9 0 :: cstr)" by code_simp
  from quoted_text_roundtrip [of 2 "clit ''ab''" "sample_rec\<lparr>meta_type := METATYPE_STRING, rec_length := 1\<rparr>" 1
      "replicate 9 0" True "wlit ''1.0''" "desc_diag sample_desc", OF _ _ _ _ _ _ this]
  show ?thesis by (simp add: get_param_size_def sized_meta_def)
qed

lemma empty_text_sends_buffer_witness:
  "\<exists>out. c2sql_cstr2qstr True (wlit ''1.0'') (desc_diag sample_desc) sample_rec (clit ''old'' @ 0 # []) (Some 0) (Some (replicate 9 0)) =
      converted (desc_diag sample_desc) sample_rec (Some (34 # out @ 34 # drop (length out + 2) (replicate 9 0))) (length out + 2) \<and>
    decode_all json_unesc1 (length (clit ''old'')) out = Some (clit ''old'')"
proof -
  have "json_escaped_len (clit ''old'') + 2 \<le> length (replicate 9 0 :: cstr)" "clit ''old'' \<noteq> []" "0 \<notin> set (clit ''old'')"
    by code_simp+
  then show ?thesis by (intro empty_text_sends_buffer) simp_all
qed

lemma wstr2qstr_written:
  assumes "0 < cnt" "cnt \<le> length data" "cnt < 2 ^ 62" and "get_param_size irec = Some sz" "int cnt \<le> sz" "sz < 2 ^ 63"
    and "utf8 (take cnt data) = Some u8" "u8 \<noteq> []" and "length m = length u8 * JSON_ESC_SEQ_SZ + 2"
  shows "c2sql_wstr2qstr utf8 ndebug ver d irec data (Some (int (cnt * 2))) None = converted d irec None (length m) \<and>
    (\<exists>rest. c2sql_wstr2qstr utf8 ndebug ver d irec data (Some (int (cnt * 2))) (Some (m @ after)) =
        converted d irec (Some (34 # json.encode u8 @ 34 # rest @ after)) (length (json.encode u8) + 2) \<and>
      length (json.encode u8) + length rest + 2 = length m)"
proof
  have "int (cnt * 2) \<noteq> - 3" "int (cnt * 2) \<noteq> - 1" by linarith+
  moreover have "to_u64 (int (cnt * 2)) = int cnt * 2" "to_i64 (int cnt) = int cnt"
    using assms(3) by (simp_all add: to_i64_def to_u64_def)
  ultimately have len: "get_octet_len ndebug (WStr data) (Some (int (cnt * 2))) = Some (int cnt)"
    by (simp add: get_octet_len_def SQL_NTSL_def)
  have units: "api_units data (int cnt) = Some (take cnt data)" using assms(1,2) by (simp add: api_units_def)
  have sz: "to_i64 sz = sz" using assms(5,6) by (simp add: to_i64_def)
  show "c2sql_wstr2qstr utf8 ndebug ver d irec data (Some (int (cnt * 2))) None = converted d irec None (length m)"
    unfolding c2sql_wstr2qstr_def len
    using units sz assms(1,4,5,7-9) by (simp add: c_assert_def)
  define esc where "esc = json.encode u8"
  have e: "json_escaped_len u8 = length esc" "length esc \<le> length u8 * JSON_ESC_SEQ_SZ"
    using json_escaped_len_bound [of u8] by (simp_all add: esc_def json_escaped_len_eq mult.commute)
  have six: "JSON_ESC_SEQ_SZ = 6" by (simp add: JSON_ESC_SEQ_SZ_def JSON_ESC_GEN_PREF_def)
  obtain a m' where m: "m = a # m'" using assms(9) by (cases m) auto
  define mem where "mem = 34 # u8 @ drop (length u8) (m' @ after)"
  have w: "mem_write (m @ after) 0 34 = Some (34 # m' @ after)" by (simp add: m mem_write_def)
  have u: "mem_write_list (34 # m' @ after) 1 u8 = Some mem"
    using mem_write_list_fits [of 1 u8 "34 # m' @ after"] assms(9) by (simp add: m mem_def six)
  have "length mem = length (m @ after)" using assms(9) by (simp add: mem_def m six)
  then have "1 + JSON_ESC_SEQ_SZ * length u8 \<le> length mem" using assms(9) by (simp add: mult.commute)
  moreover have "take (length u8) (drop 1 mem) = u8" by (simp add: mem_def)
  moreover have "length u8 \<le> JSON_ESC_SEQ_SZ * length u8" by (simp add: six)
  ultimately obtain tl where tl:
      "json_escape_overlapping mem 1 (length u8) (JSON_ESC_SEQ_SZ * length u8) = Some (take 1 mem @ esc @ tl, length esc)"
      "drop (1 + JSON_ESC_SEQ_SZ * length u8) mem = drop (JSON_ESC_SEQ_SZ * length u8 - length esc) tl"
      "length tl + length esc + 1 = length mem"
    using json_overlapping_result [of "length u8" 1 "JSON_ESC_SEQ_SZ * length u8" mem] assms(8) e
    by (auto simp: esc_def mult.commute)
  show "\<exists>rest. c2sql_wstr2qstr utf8 ndebug ver d irec data (Some (int (cnt * 2))) (Some (m @ after)) =
        converted d irec (Some (34 # json.encode u8 @ 34 # rest @ after)) (length (json.encode u8) + 2) \<and>
      length (json.encode u8) + length rest + 2 = length m"
  proof -
    have "length (drop (JSON_ESC_SEQ_SZ * length u8) m') = Suc 0" using assms(9) m by (simp add: mult.commute)
    then obtain b where b: "drop (JSON_ESC_SEQ_SZ * length u8) m' = [b]" unfolding length_Suc_conv by auto
    define q where "q = JSON_ESC_SEQ_SZ * length u8 - length esc"
    have "drop (1 + JSON_ESC_SEQ_SZ * length u8) mem = drop (JSON_ESC_SEQ_SZ * length u8) (m' @ after)"
      using assms(9) m by (simp add: mem_def six)
    also have "\<dots> = b # after" using b assms(9) m by (simp add: mult.commute)
    finally have tail: "drop q tl = b # after" using tl(2) by (simp add: q_def)
    then have split: "tl = (take q tl @ [b]) @ after" by (metis append.assoc append_Cons append_Nil append_take_drop_id)
    define rest where "rest = drop 1 (take q tl @ [b])"
    have "drop 1 tl = rest @ after" using split by (metis append_is_Nil_conv drop_append diff_is_0_eq drop0 length_append_singleton le_add1 plus_1_eq_Suc rest_def add.commute)
    moreover have "tl \<noteq> []" using tail by auto
    ultimately obtain t where t: "tl = t # rest @ after" by (cases tl) simp_all
    have "mem_write (34 # esc @ tl) (length esc + 1) 34 = Some (34 # esc @ 34 # rest @ after)"
      by (simp add: t mem_write_def list_update_append)
    moreover have "take 1 mem = [34]" by (simp add: mem_def)
    ultimately have wr: "mem_write (take 1 mem @ esc @ tl) (length esc + 1) 34 = Some (34 # esc @ 34 # rest @ after)" by simp
    have "c2sql_wstr2qstr utf8 ndebug ver d irec data (Some (int (cnt * 2))) (Some (m @ after)) =
        converted d irec (Some (34 # esc @ 34 # rest @ after)) (length esc + 2)"
      unfolding c2sql_wstr2qstr_def len
      using units w u tl(1) wr assms(1,7,8) by (simp add: c_assert_def)
    moreover have "length esc + length rest + 2 = length m"
      using tl(3) t assms(9) m by (simp add: mem_def six)
    ultimately show ?thesis unfolding esc_def by blast
  qed
qed

text \<open>C12: a wide string is first asked six octets for each of its UTF-8 form, and two; written in a buffer of that
  room, it is in quotes and the JSON escapes in them are read back as the UTF-8 form, nothing past the room is
  touched.\<close>
theorem quoted_wide_text_roundtrip:
  assumes "0 < cnt" "cnt \<le> length data" "cnt < 2 ^ 62" and "get_param_size irec = Some sz" "int cnt \<le> sz" "sz < 2 ^ 63"
    and "utf8 (take cnt data) = Some u8" "u8 \<noteq> []" and "length m = length u8 * JSON_ESC_SEQ_SZ + 2"
  shows "c2sql_wstr2qstr utf8 ndebug ver d irec data (Some (int (cnt * 2))) None = converted d irec None (length m) \<and>
    (\<exists>out rest. c2sql_wstr2qstr utf8 ndebug ver d irec data (Some (int (cnt * 2))) (Some (m @ after)) =
        converted d irec (Some (34 # out @ 34 # rest @ after)) (length out + 2) \<and>
      length out + length rest + 2 = length m \<and> decode_all json_unesc1 (length u8) out = Some u8)"
proof -
  have "decode_all json_unesc1 (length u8) (json.encode u8) = Some u8" by (rule json.decode_encode) simp
  then show ?thesis using wstr2qstr_written [of cnt data irec sz utf8 u8 m ndebug ver d after, OF assms] by blast
qed

lemma quoted_wide_text_roundtrip_witness:
  "\<exists>out rest. c2sql_wstr2qstr (\<lambda>w. Some (map ucast w)) True (wlit ''1.0'') (desc_diag sample_desc)
      (sample_rec\<lparr>meta_type := METATYPE_STRING, rec_length := 2\<rparr>) [34, 65] (Some (int (2 * 2))) (Some (replicate 14 0 @ [7])) =
    converted (desc_diag sample_desc) (sample_rec\<lparr>meta_type := METATYPE_STRING, rec_length := 2\<rparr>)
      (Some (34 # out @ 34 # rest @ [7])) (length out + 2) \<and>
    length out + length rest + 2 = length (replicate 14 0 :: cstr) \<and> decode_all json_unesc1 (length [34, 65 :: sqlchar]) out = Some [34, 65]"
proof -
  have "(\<lambda>w. Some (map ucast w)) (take 2 [34, 65 :: sqlwchar]) = Some [34, 65 :: sqlchar]" by simp
  moreover have "length (replicate 14 0 :: cstr) = length [34, 65 :: sqlchar] * JSON_ESC_SEQ_SZ + 2"
    by (simp add: JSON_ESC_SEQ_SZ_def JSON_ESC_GEN_PREF_def)
  ultimately show ?thesis
    by (intro quoted_wide_text_roundtrip [where sz = 2, THEN conjunct2])
      (simp_all add: get_param_size_def sized_meta_def)
qed

end
