(* ===== verification/Answer_Columns.thy ===== *)
theory Answer_Columns
imports Stmt_Bind Ivl_Iso Handles_Api
begin

text \<open>
  The columns of an answer become the records of the IRD (driver/queries.c): \<open>attach_one_column\<close> with
  \<open>set_col_size\<close>, and the two ways to it, from a JSON and from a CBOR answer. What the vendored libraries
  read from the answer is an argument: the count of the columns and, in order, the name and type of
  each, \<open>None\<close> for one that cannot be read.
\<close>

section \<open>One column\<close>

definition set_col_size :: "bool \<Rightarrow> esodbc_rec \<Rightarrow> esodbc_rec option" where
  "set_col_size ndebug rec =
    (case meta_type rec of
       METATYPE_UNKNOWN \<Rightarrow> Some rec
     | METATYPE_BIT \<Rightarrow> Some rec
     | METATYPE_EXACT_NUMERIC \<Rightarrow> Some rec
     | METATYPE_FLOAT_NUMERIC \<Rightarrow> Some rec
     | METATYPE_STRING \<Rightarrow> map_option (\<lambda>e. rec\<lparr>rec_length := to_u64 (column_size e)\<rparr>) (es_type rec)
     | METATYPE_BIN \<Rightarrow> map_option (\<lambda>e. rec\<lparr>rec_length := to_u64 (column_size e)\<rparr>) (es_type rec)
     | METATYPE_DATE_TIME \<Rightarrow> map_option (\<lambda>e. rec\<lparr>rec_length := to_u64 (column_size e)\<rparr>) (es_type rec)
     | METATYPE_INTERVAL_WSEC \<Rightarrow> map_option (\<lambda>e. rec\<lparr>rec_length := to_u64 (et_display_size e)\<rparr>) (es_type rec)
     | METATYPE_INTERVAL_WOSEC \<Rightarrow> map_option (\<lambda>e. rec\<lparr>rec_length := to_u64 (et_display_size e)\<rparr>) (es_type rec)
     | _ \<Rightarrow> do { c_assert ndebug False; Some rec })"

definition SQL_UNKNOWN_TYPE :: int where "SQL_UNKNOWN_TYPE = 0"
definition SQL_NAMED :: int where "SQL_NAMED = 0"
definition SQL_UNNAMED :: int where "SQL_UNNAMED = 1"

text \<open>The part that depends on the type, and whether it is found.\<close>

definition attach_type :: "bool \<Rightarrow> dbc_types \<Rightarrow> esodbc_rec \<Rightarrow> wstr \<Rightarrow> (esodbc_rec \<times> bool) option" where
  "attach_type ndebug dbc rec col_type = do {
     c_assert ndebug (es_type rec = None);
     let rec = (case find (\<lambda>e. EQ_CASE_WSTR (et_type_name e) col_type) (es_types dbc) of
         Some e \<Rightarrow> rec\<lparr>es_type := Some e\<rparr> | None \<Rightarrow> rec);
     (case es_type rec of
        Some e \<Rightarrow> do {
          let rec = rec\<lparr>concise_type := data_type e, rec_type := et_sql_data_type e,
            datetime_interval_code := et_sql_datetime_sub e, meta_type := et_meta_type e\<rparr>;
          if meta_type rec = METATYPE_INTERVAL_WSEC then do {
            c_assert ndebug (precision rec = 0);
            Some (rec\<lparr>precision := et_maximum_scale e\<rparr>, True) }
          else Some (rec, True) }
      | None \<Rightarrow>
          if es_types dbc = [] then
            Some (rec\<lparr>concise_type := SQL_UNKNOWN_TYPE, rec_type := SQL_UNKNOWN_TYPE, datetime_interval_code := 0,
              meta_type := METATYPE_UNKNOWN\<rparr>, True)
          else Some (rec, False)) }"

definition attach_one_column ::
    "bool \<Rightarrow> dbc_types \<Rightarrow> esodbc_rec \<Rightarrow> wstr \<Rightarrow> wstr \<Rightarrow> (esodbc_rec \<times> bool) option" where
  "attach_one_column ndebug dbc rec col_name col_type = do {
     (rec, found) \<leftarrow> attach_type ndebug dbc (rec\<lparr>rec_name := Some col_name\<rparr>) col_type;
     if \<not> found then Some (rec, False)
     else do {
       rec \<leftarrow> set_col_size ndebug rec;
       Some (rec\<lparr>base_column_name := Some [], rec_label := Some col_name,
         unnamed := (if col_name \<noteq> [] then SQL_NAMED else SQL_UNNAMED), base_table_name := Some [],
         catalog_name := Some [], schema_name := Some [], table_name := Some []\<rparr>, True) } }"

section \<open>A JSON answer\<close>

definition MSG_INV_SRV_ANS :: string where "MSG_INV_SRV_ANS = ''Invalid server answer''"

fun attach_columns_iter ::
    "bool \<Rightarrow> dbc_types \<Rightarrow> esodbc_rec list \<Rightarrow> nat \<Rightarrow> (wstr \<times> wstr) option list \<Rightarrow> (esodbc_rec list \<times> bool) option" where
  "attach_columns_iter ndebug dbc rs recno [] = Some (rs, True)"
| "attach_columns_iter ndebug dbc rs recno (None # cols) = Some (rs, False)"
| "attach_columns_iter ndebug dbc rs recno (Some (name, type) # cols) = do {
     rec \<leftarrow> mem_read rs recno;
     (rec, ok) \<leftarrow> attach_one_column ndebug dbc rec name type;
     if ok then attach_columns_iter ndebug dbc (rs[recno := rec]) (Suc recno) cols
     else Some (rs[recno := rec], False) }"

text \<open>What both ways start with. A failure leaves the IRD's diagnostic on the statement.\<close>

definition set_column_count ::
    "wstr \<Rightarrow> alloc \<Rightarrow> heap \<Rightarrow> nat \<Rightarrow> nat \<Rightarrow> (heap \<times> sqlreturn) option" where
  "set_column_count ver al h b ncols = do {
     s \<leftarrow> get_stmt h b;
     d \<leftarrow> get_desc h (ird s);
     (d, ret) \<leftarrow> update_rec_count ver al d (to_i16 (int ncols));
     let h = put_desc h (ird s) d;
     if SQL_SUCCEEDED ret then Some (h, ret) else map_option (\<lambda>h. (h, ret)) (HDIAG_COPY h (ird s) b) }"

text \<open>\<open>iter\<close>: the elements of the array, if it can be iterated.\<close>

definition attach_columns_json ::
    "wstr \<Rightarrow> bool \<Rightarrow> alloc \<Rightarrow> heap \<Rightarrow> nat \<Rightarrow> nat \<Rightarrow> (wstr \<times> wstr) option list option \<Rightarrow> (heap \<times> sqlreturn) option" where
  "attach_columns_json ver ndebug al h b ncols iter = do {
     (h, ret) \<leftarrow> set_column_count ver al h b ncols;
     if \<not> SQL_SUCCEEDED ret then Some (h, ret)
     else (case iter of
         None \<Rightarrow> RET_STMT_TEXT ver h b SQL_STATE_HY000 MSG_INV_SRV_ANS
       | Some cols \<Rightarrow> do {
           s \<leftarrow> get_stmt h b;
           d \<leftarrow> get_desc h (ird s);
           dbc \<leftarrow> desc_dbc h (ird s);
           (rs, ok) \<leftarrow> attach_columns_iter ndebug dbc (recs d) 0 cols;
           let h = put_desc h (ird s) (d\<lparr>recs := rs\<rparr>);
           if ok then Some (h, SQL_SUCCESS) else RET_STMT_TEXT ver h b SQL_STATE_HY000 MSG_INV_SRV_ANS }) }"

section \<open>A CBOR answer\<close>

text \<open>
  \<open>iterate_on_columns\<close> goes twice over the columns: to add up the units the wide form of their texts takes, and,
  in a buffer of that size, to convert and attach them. \<open>u16\<close> is the API's conversion (\<open>None\<close> when it fails); it
  answers with what it needs when it is given no room, and 0 when it fails or the room is too small.
\<close>

definition U8MB_TO_U16WC :: "(cstr \<Rightarrow> wstr option) \<Rightarrow> cstr \<Rightarrow> int \<Rightarrow> nat" where
  "U8MB_TO_U16WC u16 src left =
    (case u16 src of
       None \<Rightarrow> 0
     | Some w \<Rightarrow> if left = 0 \<or> int (length w) \<le> left then length w else 0)"

fun columns_need ::
    "bool \<Rightarrow> (cstr \<Rightarrow> wstr option) \<Rightarrow> nat \<Rightarrow> (cstr \<times> cstr) option list \<Rightarrow> (nat \<times> bool) option" where
  "columns_need ndebug u16 need [] = Some (need, True)"
| "columns_need ndebug u16 need (None # cols) = Some (need, False)"
| "columns_need ndebug u16 need (Some (name, type) # cols) = do {
     let n = U8MB_TO_U16WC u16 name 0;
     if n = 0 then Some (need, False)
     else do {
       let need = need + n + 1;
       c_assert ndebug (type \<noteq> []);
       let n = U8MB_TO_U16WC u16 type 0;
       if n = 0 then Some (need, False)
       else (let need = need + n + 1 in
         if 2147483647 < need then None else columns_need ndebug u16 need cols) } }"

text \<open>A text converted to the buffer from \<open>pos\<close> on, where \<open>left\<close> units are left, and terminated: the new position
  and room, or the inner \<open>None\<close> when the conversion fails.\<close>

definition convert_text ::
    "(cstr \<Rightarrow> wstr option) \<Rightarrow> wstr \<Rightarrow> nat \<Rightarrow> int \<Rightarrow> cstr \<Rightarrow> (wstr \<times> (wstr \<times> nat \<times> int) option) option" where
  "convert_text u16 buff pos left src = do {
     let n = U8MB_TO_U16WC u16 src left;
     if n = 0 then Some (buff, None)
     else do {
       w \<leftarrow> u16 src;
       buff \<leftarrow> (if left = 0 then Some buff else mem_write_list buff pos w);
       buff \<leftarrow> mem_write buff (pos + n) 0;
       Some (buff, Some (take n (drop pos buff), pos + n + 1, left - int n - 1)) } }"

fun columns_attach ::
    "bool \<Rightarrow> (cstr \<Rightarrow> wstr option) \<Rightarrow> dbc_types \<Rightarrow> esodbc_rec list \<Rightarrow> nat \<Rightarrow> wstr \<Rightarrow> nat \<Rightarrow> int
     \<Rightarrow> (cstr \<times> cstr) option list \<Rightarrow> (esodbc_rec list \<times> wstr \<times> bool) option" where
  "columns_attach ndebug u16 dbc rs recno buff pos left [] = do {
     c_assert ndebug (left = 0);
     Some (rs, buff, True) }"
| "columns_attach ndebug u16 dbc rs recno buff pos left (None # cols) = Some (rs, buff, False)"
| "columns_attach ndebug u16 dbc rs recno buff pos left (Some (name, type) # cols) = do {
     (buff, r) \<leftarrow> convert_text u16 buff pos left name;
     (case r of
        None \<Rightarrow> Some (rs, buff, False)
      | Some (name, pos, left) \<Rightarrow> do {
          c_assert ndebug (type \<noteq> []);
          (buff, r) \<leftarrow> convert_text u16 buff pos left type;
          (case r of
             None \<Rightarrow> Some (rs, buff, False)
           | Some (type, pos, left) \<Rightarrow> do {
               rec \<leftarrow> mem_read rs recno;
               (rec, ok) \<leftarrow> attach_one_column ndebug dbc rec name type;
               if ok then columns_attach ndebug u16 dbc (rs[recno := rec]) (Suc recno) buff pos left cols
               else Some (rs[recno := rec], buff, False) }) }) }"

text \<open>\<open>ncols\<close> is \<open>None\<close> when the array's count cannot be had; \<open>slab\<close> is the memory \<open>malloc\<close> answers with, of the size
  asked for, if it does. The buffer is the statement's \<open>cols_buff\<close>, empty before and returned. With no columns
  there is none, and the second round is one more first round.\<close>

definition attach_columns_cbor ::
    "wstr \<Rightarrow> bool \<Rightarrow> alloc \<Rightarrow> (nat \<Rightarrow> wstr option) \<Rightarrow> (cstr \<Rightarrow> wstr option) \<Rightarrow> heap \<Rightarrow> nat \<Rightarrow> nat option
     \<Rightarrow> (cstr \<times> cstr) option list option \<Rightarrow> (heap \<times> wstr \<times> sqlreturn) option" where
  "attach_columns_cbor ver ndebug al slab u16 h b ncols iter =
    (let bad = (\<lambda>h buff. map_option (\<lambda>(h, ret). (h, buff, ret)) (RET_STMT_TEXT ver h b SQL_STATE_HY000 MSG_INV_SRV_ANS)) in
     case ncols of
       None \<Rightarrow> bad h []
     | Some ncols \<Rightarrow> do {
         (h, ret) \<leftarrow> set_column_count ver al h b ncols;
         if \<not> SQL_SUCCEEDED ret then Some (h, [], ret)
         else (case iter of
             None \<Rightarrow> bad h []
           | Some cols \<Rightarrow> do {
               (need, ok) \<leftarrow> columns_need ndebug u16 0 cols;
               if \<not> ok then bad h []
               else if need = 0 then Some (h, [], SQL_SUCCESS)
               else (case slab need of
                   None \<Rightarrow> bad h []
                 | Some buff \<Rightarrow> do {
                     s \<leftarrow> get_stmt h b;
                     d \<leftarrow> get_desc h (ird s);
                     dbc \<leftarrow> desc_dbc h (ird s);
                     (rs, buff, ok) \<leftarrow> columns_attach ndebug u16 dbc (recs d) 0 buff 0 (int need) cols;
                     let h = put_desc h (ird s) (d\<lparr>recs := rs\<rparr>);
                     if ok then Some (h, buff, SQL_SUCCESS) else bad h buff }) }) })"

section \<open>Both ways agree\<close>

text \<open>The texts of a column in UTF-8 and as wide text.\<close>

definition same_column :: "(cstr \<Rightarrow> wstr option) \<Rightarrow> cstr \<times> cstr \<Rightarrow> wstr \<times> wstr \<Rightarrow> bool" where
  "same_column u16 c w \<longleftrightarrow> u16 (fst c) = Some (fst w) \<and> u16 (snd c) = Some (snd w) \<and>
     fst w \<noteq> [] \<and> snd w \<noteq> [] \<and> snd c \<noteq> []"

definition slab_size :: "(wstr \<times> wstr) list \<Rightarrow> nat" where
  "slab_size cols = sum_list (map (\<lambda>(name, type). length name + length type + 2) cols)"

lemma slab_size_simps [simp]:
  "slab_size [] = 0" "slab_size (w # cols) = length (fst w) + length (snd w) + 2 + slab_size cols"
  by (simp_all add: slab_size_def split_def)

lemma columns_need_sum:
  assumes "list_all2 (same_column u16) cols wcols" and "need + slab_size wcols \<le> 2147483647"
  shows "columns_need ndebug u16 need (map Some cols) = Some (need + slab_size wcols, True)"
  using assms
proof (induction arbitrary: need rule: list_all2_induct)
  case (Cons c cs w ws)
  obtain name type where c: "c = (name, type)" by (cases c)
  have n: "U8MB_TO_U16WC u16 name 0 = length (fst w)" "U8MB_TO_U16WC u16 type 0 = length (snd w)"
    using Cons.hyps(1) by (simp_all add: c same_column_def U8MB_TO_U16WC_def)
  have ne: "fst w \<noteq> []" "snd w \<noteq> []" "type \<noteq> []" using Cons.hyps(1) by (simp_all add: c same_column_def)
  have "columns_need ndebug u16 (need + length (fst w) + 1 + length (snd w) + 1) (map Some cs) =
      Some (need + length (fst w) + 1 + length (snd w) + 1 + slab_size ws, True)"
    using Cons.prems by (intro Cons.IH) simp
  then show ?case using Cons.prems ne by (simp add: c n c_assert_def Let_def add.commute add.left_commute)
qed simp

lemma convert_text_ok:
  assumes "u16 src = Some w" and "w \<noteq> []" and "pos + length w < length buff" and "int (length w) < left"
  shows "\<exists>buff'. convert_text u16 buff pos left src =
      Some (buff', Some (w, pos + length w + 1, left - int (length w) - 1)) \<and> length buff' = length buff"
proof -
  have n: "U8MB_TO_U16WC u16 src left = length w" "left \<noteq> 0"
    using assms(1,4) by (auto simp: U8MB_TO_U16WC_def)
  have wr: "mem_write_list buff pos w = Some (take pos buff @ w @ drop (pos + length w) buff)"
    using assms(3) by (intro mem_write_list_fits) simp
  let ?b = "take pos buff @ w @ drop (pos + length w) buff"
  have "mem_write ?b (pos + length w) 0 = Some (?b[pos + length w := 0])" using assms(3) by (simp add: mem_write_def)
  moreover have "take (length w) (drop pos (?b[pos + length w := 0])) = w"
    using assms(3) by (simp add: drop_update_swap take_update_swap list_update_append)
  ultimately show ?thesis using assms n wr by (simp add: convert_text_def Let_def)
qed

lemma columns_attach_same:
  assumes "list_all2 (same_column u16) cols wcols"
    and "pos + slab_size wcols = length buff" and "left = int (slab_size wcols)"
  shows "map_option (\<lambda>(rs, buff, ok). (rs, ok)) (columns_attach ndebug u16 dbc rs recno buff pos left (map Some cols)) =
    attach_columns_iter ndebug dbc rs recno (map Some wcols)"
  using assms
proof (induction arbitrary: rs recno buff pos left rule: list_all2_induct)
  case Nil
  then show ?case by (simp add: c_assert_def)
next
  case (Cons c cs w ws)
  obtain name type where c: "c = (name, type)" by (cases c)
  obtain wname wtype where w: "w = (wname, wtype)" by (cases w)
  have col: "u16 name = Some wname" "u16 type = Some wtype" "wname \<noteq> []" "wtype \<noteq> []" "type \<noteq> []"
    using Cons.hyps(1) by (simp_all add: c w same_column_def)
  obtain b1 where b1: "convert_text u16 buff pos left name =
      Some (b1, Some (wname, pos + length wname + 1, left - int (length wname) - 1))" "length b1 = length buff"
    using convert_text_ok [of u16 name wname pos buff left] col(1,3) Cons.prems by (auto simp: w)
  obtain b2 where b2: "convert_text u16 b1 (pos + length wname + 1) (left - int (length wname) - 1) type =
      Some (b2, Some (wtype, pos + length wname + 1 + length wtype + 1, left - int (length wname) - 1 - int (length wtype) - 1))"
      "length b2 = length buff"
    using convert_text_ok [of u16 type wtype "pos + length wname + 1" b1 "left - int (length wname) - 1"] col(2,4) Cons.prems b1(2)
    by (auto simp: w)
  have IH: "map_option (\<lambda>(rs, buff, ok). (rs, ok)) (columns_attach ndebug u16 dbc rs' (Suc recno) b2
      (pos + length wname + 1 + length wtype + 1) (left - int (length wname) - 1 - int (length wtype) - 1) (map Some cs)) =
    attach_columns_iter ndebug dbc rs' (Suc recno) (map Some ws)" for rs'
    using Cons.prems b2(2) by (intro Cons.IH) (simp_all add: w)
  show ?case
    using b1(1) b2(1) col(5) IH
    by (simp add: c w c_assert_def split: option.splits bind_splits prod.splits) 
qed

text \<open>C15: a result set described in CBOR and the same one in JSON leave the same handles and return the same: the buffer
  the first round over the CBOR columns asks for has the room the second one fills, exactly.\<close>
theorem cbor_columns_as_json:
  assumes "list_all2 (same_column u16) cols wcols" and "cols \<noteq> []" and "slab_size wcols \<le> 2147483647"
    and "slab (slab_size wcols) = Some buff" and "length buff = slab_size wcols"
  shows "map_option (\<lambda>(h, buff, ret). (h, ret)) (attach_columns_cbor ver ndebug al slab u16 h b (Some ncols) (Some (map Some cols))) =
    attach_columns_json ver ndebug al h b ncols (Some (map Some wcols))"
proof -
  have need: "columns_need ndebug u16 0 (map Some cols) = Some (slab_size wcols, True)" for ndebug
    using columns_need_sum [OF assms(1), of 0] assms(3) by simp
  have pos: "slab_size wcols \<noteq> 0" using assms(1,2) by (cases wcols) auto
  have same: "map_option (\<lambda>(rs, buff, ok). (rs, ok)) (columns_attach ndebug u16 dbc rs 0 buff 0 (int (slab_size wcols)) (map Some cols)) =
      attach_columns_iter ndebug dbc rs 0 (map Some wcols)" for ndebug dbc rs
    using columns_attach_same [OF assms(1), of 0 buff] assms(5) by simp
  have *: "attach_columns_iter ndebug dbc rs 0 (map Some wcols) =
      map_option (\<lambda>(rs, buff, ok). (rs, ok)) (columns_attach ndebug u16 dbc rs 0 buff 0 (int (slab_size wcols)) (map Some cols))" for dbc rs
    by (simp add: same)
  have if_map: "map_option f (if c then x else y) = (if c then map_option f x else map_option f y)" for f :: "heap \<times> wstr \<times> sqlreturn \<Rightarrow> heap \<times> sqlreturn" and c x y
    by simp
  show ?thesis
    using pos
    by (simp add: attach_columns_cbor_def attach_columns_json_def need assms(4) * Let_def option.map_comp comp_def
        map_option_bind bind_map_option if_map split_def option.map_ident del: map_option_eq_Some cong: if_cong)
qed

section \<open>The records attached\<close>

text \<open>What the connection's cached types must satisfy: the meta type is the data type's, and is one a column can have.\<close>

definition estype_ok :: "esodbc_estype \<Rightarrow> bool" where
  "estype_ok e \<longleftrightarrow> concise_to_meta (data_type e) DESC_TYPE_IRD = et_meta_type e \<and>
     et_meta_type e \<notin> {METATYPE_UNKNOWN, METATYPE_UID, METATYPE_MAX}"

definition column_type :: "dbc_types \<Rightarrow> wstr \<Rightarrow> esodbc_estype option" where
  "column_type dbc name = find (\<lambda>e. EQ_CASE_WSTR (et_type_name e) name) (es_types dbc)"

text \<open>The length a column of the type has, and the whole record.\<close>

definition column_length :: "esodbc_estype \<Rightarrow> int" where
  "column_length e =
    (if et_meta_type e \<in> {METATYPE_STRING, METATYPE_BIN, METATYPE_DATE_TIME} then to_u64 (column_size e)
     else if et_meta_type e \<in> {METATYPE_INTERVAL_WSEC, METATYPE_INTERVAL_WOSEC} then to_u64 (et_display_size e)
     else 0)"

definition column_rec :: "wstr \<Rightarrow> esodbc_estype \<Rightarrow> esodbc_rec" where
  "column_rec name e = zero_rec\<lparr>es_type := Some e, meta_type := et_meta_type e, concise_type := data_type e,
     rec_type := et_sql_data_type e, datetime_interval_code := et_sql_datetime_sub e, rec_length := column_length e,
     precision := (if et_meta_type e = METATYPE_INTERVAL_WSEC then et_maximum_scale e else 0),
     rec_name := Some name, rec_label := Some name, unnamed := (if name \<noteq> [] then SQL_NAMED else SQL_UNNAMED),
     base_column_name := Some [], base_table_name := Some [], catalog_name := Some [], schema_name := Some [],
     table_name := Some []\<rparr>"

lemma rec_ok_column: "estype_ok e \<Longrightarrow> rec_ok DESC_TYPE_IRD (column_rec name e)"
  by (simp add: rec_ok_def column_rec_def estype_ok_def)

lemma attach_column_known:
  assumes "column_type dbc type = Some e" and "estype_ok e"
  shows "attach_one_column ndebug dbc zero_rec name type = Some (column_rec name e, True)"
proof -
  have e: "et_meta_type e \<notin> {METATYPE_UNKNOWN, METATYPE_UID, METATYPE_MAX}" using assms(2) by (simp add: estype_ok_def)
  show ?thesis
    using assms(1) e
    by (cases "et_meta_type e")
      (simp_all add: attach_one_column_def attach_type_def set_col_size_def column_type_def column_rec_def
        column_length_def zero_rec_def c_assert_def Let_def)
qed

lemma attach_column_unknown:
  assumes "column_type dbc type = None" and "es_types dbc \<noteq> []"
  shows "attach_one_column ndebug dbc zero_rec name type = Some (zero_rec\<lparr>rec_name := Some name\<rparr>, False)"
  using assms by (simp add: attach_one_column_def attach_type_def column_type_def zero_rec_def c_assert_def Let_def)

text \<open>The records when the types up to the first unknown one are attached.\<close>

fun column_recs :: "dbc_types \<Rightarrow> (wstr \<times> wstr) list \<Rightarrow> esodbc_rec list" where
  "column_recs dbc [] = []"
| "column_recs dbc ((name, type) # cols) =
    (case column_type dbc type of
       Some e \<Rightarrow> column_rec name e # column_recs dbc cols
     | None \<Rightarrow> zero_rec\<lparr>rec_name := Some name\<rparr> # replicate (length cols) zero_rec)"

lemma length_column_recs [simp]: "length (column_recs dbc cols) = length cols"
  by (induction dbc cols rule: column_recs.induct) (auto split: option.splits)

lemma rec_ok_column_recs:
  "\<forall>e \<in> set (es_types dbc). estype_ok e \<Longrightarrow> rec \<in> set (column_recs dbc cols) \<Longrightarrow> rec_ok DESC_TYPE_IRD rec"
proof (induction dbc cols rule: column_recs.induct)
  case (2 dbc name type cols)
  have "estype_ok e" if "column_type dbc type = Some e" for e
    using that 2(2) by (auto simp: column_type_def find_Some_iff)
  with 2 show ?case
    by (auto simp: rec_ok_column split: option.splits) (simp_all add: rec_ok_def zero_rec_def)
qed simp

lemma attach_columns_iter_eq:
  assumes "\<forall>e \<in> set (es_types dbc). estype_ok e" and "es_types dbc \<noteq> []"
    and "rs = pre @ replicate (length cols) zero_rec" and "recno = length pre"
  shows "attach_columns_iter ndebug dbc rs recno (map Some cols) =
    Some (pre @ column_recs dbc cols, \<forall>c \<in> set cols. column_type dbc (snd c) \<noteq> None)"
  using assms(3,4)
proof (induction cols arbitrary: rs recno pre)
  case (Cons c cols)
  obtain name type where c: "c = (name, type)" by (cases c)
  have rd: "mem_read rs recno = Some zero_rec" using Cons.prems by (simp add: mem_read_def nth_append)
  show ?case
  proof (cases "column_type dbc type")
    case None
    then show ?thesis
      using rd Cons.prems assms(2) by (simp add: c attach_column_unknown list_update_append)
  next
    case (Some e)
    then have "estype_ok e" using assms(1) by (auto simp: column_type_def find_Some_iff)
    with Some have "attach_one_column ndebug dbc zero_rec name type = Some (column_rec name e, True)"
      by (rule attach_column_known)
    moreover have "attach_columns_iter ndebug dbc (rs[recno := column_rec name e]) (Suc recno) (map Some cols) =
        Some ((pre @ [column_rec name e]) @ column_recs dbc cols, \<forall>c \<in> set cols. column_type dbc (snd c) \<noteq> None)"
      using Cons.prems by (intro Cons.IH) (simp_all add: list_update_append)
    ultimately show ?thesis using rd Some by (simp add: c)
  qed
qed simp

text \<open>The whole of it, on a statement whose IRD has no records.\<close>

lemma attach_columns_result:
  assumes "heap_ok ver h" and "get_stmt h b = Some s" and "recs (i_ird s) = []"
    and "desc_dbc h (ird s) = Some dbc" and "es_types dbc \<noteq> []" and "\<forall>e \<in> set (es_types dbc). estype_ok e"
    and "length cols \<le> 32767" and "al \<noteq> ALLOC_FAILS"
  defines "d \<equiv> (i_ird s)\<lparr>count := int (length cols), recs := column_recs dbc cols\<rparr>"
  shows "attach_columns_json ver ndebug al h b (length cols) (Some (map Some cols)) =
      (if \<forall>c \<in> set cols. column_type dbc (snd c) \<noteq> None then Some (put_desc h (ird s) d, SQL_SUCCESS)
       else RET_STMT_TEXT ver (put_desc h (ird s) d) b SQL_STATE_HY000 MSG_INV_SRV_ANS)"
    and "heap_ok ver (put_desc h (ird s) d)"
    and "get_stmt (put_desc h (ird s) d) b = Some (s\<lparr>i_ird := d\<rparr>)"
proof -
  have s: "stmt_ok ver h b s" using heap_ok_stmt [OF assms(1,2)] .
  then have ird: "ird s = PTR b I_IRD" "desc_ok ver (i_ird s)" "desc_type (i_ird s) = DESC_TYPE_IRD"
    by (simp_all add: stmt_ok_def embedded_ok_def)
  have gd: "get_desc h (ird s) = Some (i_ird s)" using assms(2) ird(1) by (simp add: get_stmt_Some)
  have n: "to_i16 (int (length cols)) = int (length cols)" using assms(7) by (simp add: to_i16_def)
  have grow: "update_rec_count ver al (i_ird s) (int (length cols)) =
      Some ((i_ird s)\<lparr>count := int (length cols), recs := replicate (length cols) zero_rec\<rparr>, SQL_SUCCESS)"
    using update_rec_count_grows [OF ird(2), of "int (length cols)" al] assms(3,7,8) desc_okD(1) [OF ird(2)] ird(3)
    by (simp add: ESODBC_MAX_DESC_COUNT_def init_rec_def)
  let ?d0 = "(i_ird s)\<lparr>count := int (length cols), recs := replicate (length cols) zero_rec\<rparr>"
  let ?h0 = "put_desc h (ird s) ?d0"
  have hb: "h b = Some (STMT s)" using assms(2) by (simp add: get_stmt_Some)
  have put: "put_desc h (ird s) x = h(b \<mapsto> STMT (s\<lparr>i_ird := x\<rparr>))" for x using ird(1) hb by simp
  have dbc: "desc_dbc ?h0 (ird s) = Some dbc"
  proof -
    obtain bc c where bc: "stmt_dbc s = PTR bc WHOLE" "h bc = Some (DBC c)" "dbc_types c = dbc"
      using assms(4) ird(1) hb by (auto simp: desc_dbc_def split: bind_splits ptr.splits member.splits handle.splits option.splits)
    then have "bc \<noteq> b" using hb by auto
    then show ?thesis using bc ird(1) hb put by (simp add: desc_dbc_def)
  qed
  have iter: "attach_columns_iter ndebug dbc (replicate (length cols) zero_rec) 0 (map Some cols) =
      Some (column_recs dbc cols, \<forall>c \<in> set cols. column_type dbc (snd c) \<noteq> None)"
    using attach_columns_iter_eq [OF assms(6,5), of _ "[]" cols 0 ndebug] by simp
  have count: "set_column_count ver al h b (length cols) = Some (?h0, SQL_SUCCESS)"
    using assms(2) gd n grow by (simp add: set_column_count_def SQL_SUCCEEDED_def)
  have st: "get_stmt ?h0 b = Some (s\<lparr>i_ird := ?d0\<rparr>)" "get_desc ?h0 (ird s) = Some ?d0" "ird (s\<lparr>i_ird := ?d0\<rparr>) = ird s"
    using put ird(1) by (simp_all add: get_stmt_def)
  have put2: "put_desc ?h0 (ird s) d = put_desc h (ird s) d" using put_desc_again(2) [OF gd] .
  show "attach_columns_json ver ndebug al h b (length cols) (Some (map Some cols)) =
      (if \<forall>c \<in> set cols. column_type dbc (snd c) \<noteq> None then Some (put_desc h (ird s) d, SQL_SUCCESS)
       else RET_STMT_TEXT ver (put_desc h (ird s) d) b SQL_STATE_HY000 MSG_INV_SRV_ANS)"
    unfolding attach_columns_json_def count
    using st dbc iter put2 by (simp add: SQL_SUCCEEDED_def d_def Let_def del: not_None_eq)
  have "desc_ok ver d"
    using ird(2,3) rec_ok_column_recs [OF assms(6)] assms(7) by (auto simp: d_def desc_ok_def ESODBC_MAX_DESC_COUNT_def)
  then show "heap_ok ver (put_desc h (ird s) d)" using put_desc_ok [OF assms(1) gd] by (simp add: d_def)
  show "get_stmt (put_desc h (ird s) d) b = Some (s\<lparr>i_ird := d\<rparr>)" by (simp add: put get_stmt_def)
qed

end
