(* ===== verification/Column_Info.thy ===== *)
theory Column_Info
imports Answer_Columns Desc_GetField Handles_Api
begin

text \<open>
  What an application is told of the columns of a result (driver/queries.c): \<open>SQLDescribeCol\<close>,
  \<open>SQLColAttribute\<close> and \<open>SQLNumResultCols\<close>, which read the records of the IRD; and the text of a query,
  \<open>SQLNativeSql\<close>. A buffer of the application is \<open>None\<close> for a null pointer, and so is a value that is not
  written.
\<close>

section \<open>The record of a column\<close>

text \<open>\<open>get_record\<close> takes the column for a \<open>SQLSMALLINT\<close>: 32768 and more are negative and lead before the array.\<close>

definition get_column :: "bool \<Rightarrow> esodbc_desc \<Rightarrow> int \<Rightarrow> esodbc_rec option option" where
  "get_column ndebug d icol = do {
     let rec_no = to_i16 icol;
     c_assert ndebug (0 < rec_no);
     if count d < rec_no then Some None
     else if 0 < rec_no then map_option Some (mem_read (recs d) (nat rec_no - 1))
     else None }"

definition get_col_size :: "bool \<Rightarrow> esodbc_rec \<Rightarrow> int option" where
  "get_col_size ndebug rec =
    (case meta_type rec of
       METATYPE_EXACT_NUMERIC \<Rightarrow> map_option (\<lambda>e. to_u64 (column_size e)) (es_type rec)
     | METATYPE_FLOAT_NUMERIC \<Rightarrow> map_option (\<lambda>e. to_u64 (column_size e)) (es_type rec)
     | METATYPE_STRING \<Rightarrow> Some (rec_length rec)
     | METATYPE_BIN \<Rightarrow> Some (rec_length rec)
     | METATYPE_DATE_TIME \<Rightarrow> Some (rec_length rec)
     | METATYPE_INTERVAL_WSEC \<Rightarrow> Some (rec_length rec)
     | METATYPE_INTERVAL_WOSEC \<Rightarrow> Some (rec_length rec)
     | METATYPE_BIT \<Rightarrow> Some (rec_length rec)
     | METATYPE_UID \<Rightarrow> do { c_assert ndebug False; Some 0 }
     | _ \<Rightarrow> Some 0)"

definition ESODBC_DEF_SEC_PRECISION :: int where "ESODBC_DEF_SEC_PRECISION = 3"

definition get_col_decdigits :: "esodbc_rec \<Rightarrow> int option" where
  "get_col_decdigits rec =
    (case meta_type rec of
       METATYPE_DATE_TIME \<Rightarrow> Some ESODBC_DEF_SEC_PRECISION
     | METATYPE_INTERVAL_WSEC \<Rightarrow> Some ESODBC_DEF_SEC_PRECISION
     | METATYPE_EXACT_NUMERIC \<Rightarrow> map_option et_maximum_scale (es_type rec)
     | _ \<Rightarrow> Some 0)"

text \<open>A string of a record written on behalf of a statement; an unset one is a null pointer and counts 0.\<close>

definition write_rec_text ::
    "wstr \<Rightarrow> heap \<Rightarrow> nat \<Rightarrow> wstr option \<Rightarrow> wstr option \<Rightarrow> int \<Rightarrow> int option
     \<Rightarrow> (heap \<times> wstr option \<times> int option \<times> sqlreturn) option" where
  "write_rec_text ver h b dest str avail usedp = do {
     s \<leftarrow> get_stmt h b;
     (d, dest, usedp, ret) \<leftarrow> write_wstr ver (stmt_diag s) dest (case str of None \<Rightarrow> [] | Some w \<Rightarrow> w @ [0])
       (case str of None \<Rightarrow> 0 | Some w \<Rightarrow> length w) avail usedp;
     Some (put_stmt h b (s\<lparr>stmt_diag := d\<rparr>), dest, usedp, ret) }"

section \<open>SQLDescribeCol\<close>

record col_description =
  dc_heap :: heap
  dc_ret :: sqlreturn
  dc_name :: "wstr option"
  dc_len :: "int option"
  dc_type :: "int option"
  dc_size :: "int option"
  dc_digits :: "int option"
  dc_nullable :: "int option"

definition describe_failed :: "(heap \<times> sqlreturn) option \<Rightarrow> col_description \<Rightarrow> col_description option" where
  "describe_failed r out = map_option (\<lambda>(h, ret). out\<lparr>dc_heap := h, dc_ret := ret\<rparr>) r"

text \<open>From the type on: the values are written in order, until a pointer is null.\<close>

definition describe_values ::
    "wstr \<Rightarrow> bool \<Rightarrow> nat \<Rightarrow> esodbc_rec \<Rightarrow> bool \<Rightarrow> bool \<Rightarrow> bool \<Rightarrow> bool \<Rightarrow> col_description \<Rightarrow> col_description option" where
  "describe_values ver ndebug b rec has_type has_size has_scale has_nullable out =
    (let missing = (\<lambda>msg out. describe_failed (RET_STMT_TEXT ver (dc_heap out) b SQL_STATE_HY090 msg) out) in
     if \<not> has_type then missing ''no column data type buffer provided'' out
     else do {
       let out = out\<lparr>dc_type := Some (concise_type rec)\<rparr>;
       if \<not> has_size then missing ''no column size buffer provided'' out
       else do {
         sz \<leftarrow> get_col_size ndebug rec;
         let out = out\<lparr>dc_size := Some sz\<rparr>;
         if \<not> has_scale then missing ''no column decimal digits buffer provided'' out
         else do {
           digits \<leftarrow> get_col_decdigits rec;
           let out = out\<lparr>dc_digits := Some digits\<rparr>;
           if \<not> has_nullable then missing ''no column decimal digits buffer provided'' out
           else do {
             e \<leftarrow> es_type rec;
             Some (out\<lparr>dc_nullable := Some (et_nullable e), dc_ret := SQL_SUCCESS\<rparr>) } } } })"

definition EsSQLDescribeColW ::
    "wstr \<Rightarrow> bool \<Rightarrow> heap \<Rightarrow> nat \<Rightarrow> int \<Rightarrow> wstr option \<Rightarrow> int \<Rightarrow> bool \<Rightarrow> bool \<Rightarrow> bool \<Rightarrow> bool \<Rightarrow> bool
     \<Rightarrow> col_description option" where
  "EsSQLDescribeColW ver ndebug h b icol name_buf name_max has_len has_type has_size has_scale has_nullable =
    (let out = \<lparr>dc_heap = h, dc_ret = SQL_SUCCESS, dc_name = name_buf, dc_len = None, dc_type = None,
         dc_size = None, dc_digits = None, dc_nullable = None\<rparr> in do {
     s \<leftarrow> get_stmt h b;
     if \<not> has_resultset s then describe_failed (RET_STMT ver h b SQL_STATE_HY010) out
     else if icol < 1 then describe_failed (RET_STMT ver h b SQL_STATE_HYC00) out
     else do {
       d \<leftarrow> get_desc h (ird s);
       r \<leftarrow> get_column ndebug d icol;
       (case r of
          None \<Rightarrow> describe_failed (RET_STMT ver h b SQL_STATE_07009) out
        | Some rec \<Rightarrow> do {
            (h, nm, blen, ret) \<leftarrow> (case name_buf of
                Some _ \<Rightarrow> write_rec_text ver h b name_buf (rec_name rec) (to_i16 (name_max * 2)) (Some 0)
              | None \<Rightarrow> Some (h, None, Some (- 1), SQL_SUCCESS));
            let out = out\<lparr>dc_heap := h, dc_name := nm\<rparr>;
            if \<not> SQL_SUCCEEDED ret then Some (out\<lparr>dc_ret := ret\<rparr>)
            else if \<not> has_len then
              describe_failed (RET_STMT_TEXT ver h b SQL_STATE_HY090 ''no column name length buffer provided'') out
            else do {
              blen \<leftarrow> blen;
              let out = out\<lparr>dc_len := Some (if 0 \<le> blen then to_i16 (blen div 2)
                else to_i16 (int (case rec_name rec of None \<Rightarrow> 0 | Some w \<Rightarrow> length w)))\<rparr>;
              describe_values ver ndebug b rec has_type has_size has_scale has_nullable out } }) } })"

section \<open>SQLColAttribute\<close>

text \<open>The names of ODBC 2.x that are not also those of a field.\<close>

abbreviation (input) SQL_COLUMN_NAME :: desc_field where "SQL_COLUMN_NAME \<equiv> SQL_DESC_OTHER 1"
abbreviation (input) SQL_COLUMN_LENGTH :: desc_field where "SQL_COLUMN_LENGTH \<equiv> SQL_DESC_OTHER 3"
abbreviation (input) SQL_COLUMN_PRECISION :: desc_field where "SQL_COLUMN_PRECISION \<equiv> SQL_DESC_OTHER 4"
abbreviation (input) SQL_COLUMN_SCALE :: desc_field where "SQL_COLUMN_SCALE \<equiv> SQL_DESC_OTHER 5"
abbreviation (input) SQL_COLUMN_NULLABLE :: desc_field where "SQL_COLUMN_NULLABLE \<equiv> SQL_DESC_OTHER 7"

text \<open>The numeric fields: \<open>None\<close> if the field is not one, \<open>Some None\<close> if \<open>es_type\<close> is null.\<close>

definition col_attr_number :: "esodbc_desc \<Rightarrow> esodbc_rec \<Rightarrow> desc_field \<Rightarrow> int option option" where
  "col_attr_number d rec f =
    (let et = (\<lambda>sel. Some (map_option sel (es_type rec))) in
     if f = SQL_DESC_CONCISE_TYPE then Some (Some (concise_type rec))
     else if f = SQL_DESC_TYPE then Some (Some (rec_type rec))
     else if f = SQL_DESC_UNNAMED then Some (Some (unnamed rec))
     else if f = SQL_COLUMN_NULLABLE \<or> f = SQL_DESC_NULLABLE then et et_nullable
     else if f = SQL_DESC_SEARCHABLE then et et_searchable
     else if f = SQL_DESC_UNSIGNED then et et_unsigned_attribute
     else if f = SQL_DESC_UPDATABLE then Some (Some (updatable rec))
     else if f = SQL_COLUMN_PRECISION \<or> f = SQL_DESC_PRECISION then et et_fixed_prec_scale
     else if f = SQL_COLUMN_SCALE \<or> f = SQL_DESC_SCALE then et et_maximum_scale
     else if f = SQL_DESC_FIXED_PREC_SCALE then et et_fixed_prec_scale
     else if f = SQL_DESC_DISPLAY_SIZE then et et_display_size
     else if f = SQL_COLUMN_LENGTH \<or> f = SQL_DESC_OCTET_LENGTH then Some (Some (octet_length rec))
     else if f = SQL_DESC_LENGTH then Some (Some (to_i64 (rec_length rec)))
     else if f = SQL_DESC_AUTO_UNIQUE_VALUE then et et_auto_unique_value
     else if f = SQL_DESC_CASE_SENSITIVE then et et_case_sensitive
     else if f = SQL_DESC_NUM_PREC_RADIX then et et_num_prec_radix
     else if f = SQL_DESC_COUNT then Some (Some (count d))
     else None)"

text \<open>The text fields, likewise; the innermost \<open>None\<close> is an unset string.\<close>

definition col_attr_text :: "esodbc_rec \<Rightarrow> desc_field \<Rightarrow> wstr option option option" where
  "col_attr_text rec f =
    (let et = (\<lambda>sel. Some (map_option (\<lambda>e. Some (sel e)) (es_type rec))) in
     if f = SQL_DESC_BASE_COLUMN_NAME then Some (Some (base_column_name rec))
     else if f = SQL_DESC_LABEL then Some (Some (rec_label rec))
     else if f = SQL_DESC_BASE_TABLE_NAME then Some (Some (base_table_name rec))
     else if f = SQL_DESC_CATALOG_NAME then Some (Some (catalog_name rec))
     else if f = SQL_COLUMN_NAME \<or> f = SQL_DESC_NAME then Some (Some (rec_name rec))
     else if f = SQL_DESC_SCHEMA_NAME then Some (Some (schema_name rec))
     else if f = SQL_DESC_TABLE_NAME then Some (Some (table_name rec))
     else if f = SQL_DESC_LITERAL_PREFIX then et et_literal_prefix
     else if f = SQL_DESC_LITERAL_SUFFIX then et et_literal_suffix
     else if f = SQL_DESC_LOCAL_TYPE_NAME \<or> f = SQL_DESC_TYPE_NAME then et et_type_name
     else None)"

text \<open>The result: the heap, the buffer, its length, the number and the return code.\<close>

type_synonym col_attribute = "(heap \<times> wstr option \<times> int option \<times> int option \<times> sqlreturn) option"

definition EsSQLColAttributeW ::
    "wstr \<Rightarrow> bool \<Rightarrow> heap \<Rightarrow> nat \<Rightarrow> int \<Rightarrow> desc_field \<Rightarrow> wstr option \<Rightarrow> int \<Rightarrow> int option \<Rightarrow> bool \<Rightarrow> col_attribute" where
  "EsSQLColAttributeW ver ndebug h b icol f char_attr desc_max char_len has_num =
    (let failed = (\<lambda>st. map_option (\<lambda>(h, ret). (h, char_attr, char_len, None, ret)) (RET_STMT ver h b st)) in do {
     s \<leftarrow> get_stmt h b;
     if \<not> has_resultset s then failed SQL_STATE_HY010
     else if icol < 1 then failed SQL_STATE_HYC00
     else do {
       d \<leftarrow> get_desc h (ird s);
       r \<leftarrow> get_column ndebug d icol;
       (case r of
          None \<Rightarrow> failed SQL_STATE_07009
        | Some rec \<Rightarrow> do {
            c_assert ndebug (DESC_TYPE_IS_IMPLEMENTATION (desc_type d) \<and> es_type rec \<noteq> None);
            (case col_attr_number d rec f of
               Some v \<Rightarrow> do {
                 v \<leftarrow> v;
                 if has_num then Some (h, char_attr, char_len, Some v, SQL_SUCCESS) else None }
             | None \<Rightarrow>
                 (case col_attr_text rec f of
                    Some str \<Rightarrow> do {
                      str \<leftarrow> str;
                      (h, char_attr, char_len, ret) \<leftarrow> write_rec_text ver h b char_attr str desc_max char_len;
                      Some (h, char_attr, char_len, None, ret) }
                  | None \<Rightarrow> failed SQL_STATE_HY091)) }) } })"

definition EsSQLNumResultCols ::
    "wstr \<Rightarrow> heap \<Rightarrow> nat \<Rightarrow> int \<Rightarrow> (heap \<times> desc_value option \<times> sqlreturn) option" where
  "EsSQLNumResultCols ver h b column_count = do {
     s \<leftarrow> get_stmt h b;
     d \<leftarrow> get_desc h (ird s);
     (d, v, len, ret) \<leftarrow> EsSQLGetDescFieldW ver d NO_REC_NR SQL_DESC_COUNT column_count SQL_IS_SMALLINT False;
     Some (put_desc h (ird s) d, v, ret) }"

section \<open>SQLNativeSql\<close>

text \<open>The text is passed back as it is. \<open>d\<close> is the connection's diagnostic; the count of what is copied becomes a
  \<open>size_t\<close>.\<close>

definition EsSQLNativeSqlW ::
    "wstr \<Rightarrow> esodbc_diag \<Rightarrow> wstr option \<Rightarrow> int \<Rightarrow> wstr option \<Rightarrow> int \<Rightarrow> bool
     \<Rightarrow> (esodbc_diag \<times> wstr option \<times> int option \<times> sqlreturn) option" where
  "EsSQLNativeSqlW ver d str_in len_in dest dest_max has_len =
    (case str_in of
       None \<Rightarrow> map_option (\<lambda>(d, ret). (d, dest, None, ret)) (RET_HDIAGS ver d SQL_STATE_HY009)
     | Some src \<Rightarrow> do {
         len_in \<leftarrow> (if len_in = SQL_NTSL then map_option (\<lambda>n. to_i32 (int n)) (mem_strlen src) else Some len_in);
         let len = (if has_len then Some len_in else None);
         (case dest of
            None \<Rightarrow> Some (d, None, len, SQL_SUCCESS)
          | Some buf \<Rightarrow> do {
              let cut = (dest_max \<le> len_in);
              let to_copy = (if cut then dest_max - 1 else len_in);
              buf \<leftarrow> (if 0 \<le> to_copy \<and> to_copy \<le> int (length src) then mem_write_list buf 0 (take (nat to_copy) src)
                else None);
              buf \<leftarrow> mem_write buf (nat to_copy) 0;
              if cut then map_option (\<lambda>(d, ret). (d, Some buf, len, ret)) (RET_HDIAGS ver d SQL_STATE_01004)
              else Some (d, Some buf, len, SQL_SUCCESS) }) })"

section \<open>What is described is what was answered\<close>

text \<open>The size and decimal digits of a column, by its type.\<close>

definition described_size :: "esodbc_estype \<Rightarrow> int" where
  "described_size e =
    (if et_meta_type e = METATYPE_BIT then 0
     else if et_meta_type e \<in> {METATYPE_INTERVAL_WSEC, METATYPE_INTERVAL_WOSEC} then to_u64 (et_display_size e)
     else to_u64 (column_size e))"

definition described_digits :: "esodbc_estype \<Rightarrow> int" where
  "described_digits e =
    (if et_meta_type e \<in> {METATYPE_DATE_TIME, METATYPE_INTERVAL_WSEC} then 3
     else if et_meta_type e = METATYPE_EXACT_NUMERIC then et_maximum_scale e else 0)"

lemma get_col_described:
  assumes "estype_ok e"
  shows "get_col_size ndebug (column_rec name e) = Some (described_size e)"
    and "get_col_decdigits (column_rec name e) = Some (described_digits e)"
proof -
  have "et_meta_type e \<notin> {METATYPE_UNKNOWN, METATYPE_UID, METATYPE_MAX}" using assms by (simp add: estype_ok_def)
  then show "get_col_size ndebug (column_rec name e) = Some (described_size e)"
    and "get_col_decdigits (column_rec name e) = Some (described_digits e)"
    by (cases "et_meta_type e"; simp add: get_col_size_def get_col_decdigits_def column_rec_def described_size_def
        described_digits_def column_length_def ESODBC_DEF_SEC_PRECISION_def)+
qed

lemma put_stmt_same: "get_stmt h b = Some s \<Longrightarrow> put_stmt h b s = h"
  by (auto simp: get_stmt_Some put_stmt_def)

lemma write_rec_text_fits:
  assumes "get_stmt h b = Some s" and "0 \<notin> set str" and "length str < length buf" and "length buf \<le> 16383"
  shows "write_rec_text ver h b (Some buf) (Some str) (to_i16 (int (length buf) * 2)) (Some u) =
    Some (h, Some (str @ 0 # drop (length str + 1) buf), Some (2 * int (length str)), SQL_SUCCESS)"
proof -
  have av: "to_i16 (int (length buf) * 2) = int (length buf) * 2" "to_i16 (int (length str) * 2) = int (length str) * 2"
    using assms(3,4) by (simp_all add: to_i16_def)
  have "wcsncpy buf 0 (str @ [0]) (length str + 1) = Some (str @ 0 # drop (length str + 1) buf)"
    using wcsncpy_nts [OF assms(2), of "length str + 1" 0 buf "[]"] assms(3) by simp
  moreover have "\<not> nat (int (length buf)) \<le> length str" using assms(3) by simp
  ultimately show ?thesis
    using assms(1,3) av put_stmt_same [OF assms(1)] by (simp add: write_rec_text_def write_wstr_def Let_def)
qed

lemma get_column_at:
  assumes "i < length (recs d)" and "count d = int (length (recs d))" and "length (recs d) \<le> 32767"
  shows "get_column ndebug d (int i + 1) = Some (Some (recs d ! i))"
proof -
  have "to_i16 (int i + 1) = int i + 1" using assms by (simp add: to_i16_def)
  moreover have "nat (int i + 1) - 1 = i" by simp
  ultimately show ?thesis using assms by (simp add: get_column_def c_assert_def mem_read_def)
qed

lemma column_recs_known:
  "\<forall>c \<in> set cols. column_type dbc (snd c) \<noteq> None \<Longrightarrow> i < length cols \<Longrightarrow>
    column_recs dbc cols ! i = column_rec (fst (cols ! i)) (the (column_type dbc (snd (cols ! i))))"
proof (induction dbc cols arbitrary: i rule: column_recs.induct)
  case (2 dbc name type cols)
  then show ?case by (cases i) auto
qed simp

text \<open>C14: the columns of an answer, their types known to the connection, become the columns of the result: it has as
  many, and each is described by the name it was answered with, terminated in the application's buffer, and
  the data type, size, decimal digits and nullability of its type. A boolean column has size 0.\<close>
theorem answer_described:
  assumes "heap_ok ver h" and "get_stmt h b = Some s" and "recs (i_ird s) = []" and "has_resultset s"
    and "desc_dbc h (ird s) = Some dbc" and "es_types dbc \<noteq> []" and "\<forall>e \<in> set (es_types dbc). estype_ok e"
    and "length cols \<le> 32767" and "al \<noteq> ALLOC_FAILS" and "\<forall>c \<in> set cols. column_type dbc (snd c) \<noteq> None"
    and "i < length cols" and "cols ! i = (name, type)" and "column_type dbc type = Some e"
    and "0 \<notin> set name" and "length name < length buf" and "length buf \<le> 16383" and "ptr \<noteq> 0"
  shows "\<exists>h1. attach_columns_json ver ndebug al h b (length cols) (Some (map Some cols)) = Some (h1, SQL_SUCCESS) \<and>
    heap_ok ver h1 \<and>
    EsSQLNumResultCols ver h1 b ptr = Some (h1, Some (SMALLINT (int (length cols))), SQL_SUCCESS) \<and>
    EsSQLDescribeColW ver ndebug h1 b (int i + 1) (Some buf) (int (length buf)) True True True True True =
      Some \<lparr>dc_heap = h1, dc_ret = SQL_SUCCESS, dc_name = Some (name @ 0 # drop (length name + 1) buf),
        dc_len = Some (int (length name)), dc_type = Some (data_type e), dc_size = Some (described_size e),
        dc_digits = Some (described_digits e), dc_nullable = Some (et_nullable e)\<rparr>"
proof -
  define d where "d = (i_ird s)\<lparr>count := int (length cols), recs := column_recs dbc cols\<rparr>"
  define h1 where "h1 = put_desc h (ird s) d"
  note res = attach_columns_result [OF assms(1-3,5-9), folded d_def, folded h1_def]
  have s: "stmt_ok ver h b s" using heap_ok_stmt [OF assms(1,2)] .
  then have ird: "ird s = PTR b I_IRD" "desc_type (i_ird s) = DESC_TYPE_IRD"
    by (simp_all add: stmt_ok_def embedded_ok_def)
  have gd: "get_desc h1 (ird (s\<lparr>i_ird := d\<rparr>)) = Some d" using res(3) ird(1) by (simp add: get_stmt_Some)
  have same: "put_desc h1 (ird (s\<lparr>i_ird := d\<rparr>)) d = h1"
    using res(3) ird(1) by (simp add: get_stmt_Some) (metis fun_upd_triv)
  have "recs d ! i = column_rec name e"
    using column_recs_known [OF assms(10,11)] assms(12,13) by (simp add: d_def)
  then have col: "get_column ndebug d (int i + 1) = Some (Some (column_rec name e))"
    using get_column_at [of i d ndebug] assms(8,11) by (simp add: d_def)
  have "e \<in> set (es_types dbc)" using assms(13) by (auto simp: column_type_def find_Some_iff)
  then have e: "estype_ok e" using assms(7) by blast
  have len: "to_i16 (int (length name)) = int (length name)" using assms(15,16) by (simp add: to_i16_def)
  have nm: "rec_name (column_rec name e) = Some name" "concise_type (column_rec name e) = data_type e"
    "es_type (column_rec name e) = Some e" by (simp_all add: column_rec_def)
  have "EsSQLDescribeColW ver ndebug h1 b (int i + 1) (Some buf) (int (length buf)) True True True True True =
      Some \<lparr>dc_heap = h1, dc_ret = SQL_SUCCESS, dc_name = Some (name @ 0 # drop (length name + 1) buf),
        dc_len = Some (int (length name)), dc_type = Some (data_type e), dc_size = Some (described_size e),
        dc_digits = Some (described_digits e), dc_nullable = Some (et_nullable e)\<rparr>"
    using res(3) gd col nm len write_rec_text_fits [OF res(3) assms(14-16), of ver 0] assms(4)
    by (simp add: EsSQLDescribeColW_def describe_values_def get_col_described [OF e] SQL_SUCCEEDED_def Let_def)
  moreover have "EsSQLNumResultCols ver h1 b ptr = Some (h1, Some (SMALLINT (int (length cols))), SQL_SUCCESS)"
  proof -
    have "EsSQLGetDescFieldW ver d NO_REC_NR SQL_DESC_COUNT ptr SQL_IS_SMALLINT False =
        Some (d, Some (SMALLINT (int (length cols))), None, SQL_SUCCESS)"
      using ird(2) assms(17) by (simp add: EsSQLGetDescFieldW_def d_def check_access_def check_buff_def is_header_field_def
          get_done_def get_header_field_def)
    then show ?thesis using res(3) gd same by (simp add: EsSQLNumResultCols_def)
  qed
  ultimately show ?thesis using res(1,2) assms(10) by auto
qed


section \<open>A name that is cut\<close>

lemma write_rec_text_cut:
  assumes "get_stmt h b = Some s" and "diag_ok ver (stmt_diag s)" and "0 \<notin> set str" and "buf \<noteq> []"
    and "length buf \<le> length str" and "length buf \<le> 16383"
  shows "write_rec_text ver h b (Some buf) (Some str) (to_i16 (int (length buf) * 2)) (Some u) =
    Some (put_stmt h b (s\<lparr>stmt_diag := posted ver (stmt_diag s) SQL_STATE_01004 (default_message SQL_STATE_01004)\<rparr>),
      Some (take (length buf - 1) str @ [0]), Some (to_i16 (2 * int (length str))), SQL_SUCCESS_WITH_INFO)"
proof -
  have st: "SQL_STATE_01004 < 120" "state_retcode (esodbc_errors ! SQL_STATE_01004) = SQL_SUCCESS_WITH_INFO" by code_simp+
  have av: "to_i16 (int (length buf) * 2) = int (length buf) * 2" using assms(6) by (simp add: to_i16_def)
  let ?n = "length buf - 1"
  have "wcsncpy buf 0 (str @ [0]) ?n = Some (take ?n str @ drop ?n buf)"
    using wcsncpy_nts [OF assms(3), of ?n 0 buf "[]"] assms(4,5) by simp
  moreover have "mem_write (take ?n str @ drop ?n buf) ?n 0 = Some (take ?n str @ [0])"
  proof -
    have "drop ?n buf = [last buf]" using assms(4) by (cases buf rule: rev_cases) simp_all
    then show ?thesis using assms(5) by (simp add: mem_write_def list_update_append)
  qed
  ultimately show ?thesis
    using assms(1,4,5) av RET_HDIAGS_ok [OF assms(2) st(1)] st(2)
    by (simp add: write_rec_text_def write_wstr_def Let_def mult.commute)
qed

text \<open>A name with no room is cut to the buffer and terminated, its whole length reported and 01004 posted; but the
  call goes on and returns success, not success with information.\<close>
theorem describe_name_cut:
  assumes "heap_ok ver h" and "get_stmt h b = Some s" and "has_resultset s" and "i < length (recs (i_ird s))"
    and "recs (i_ird s) ! i = column_rec name e" and "estype_ok e"
    and "0 \<notin> set name" and "buf \<noteq> []" and "length buf \<le> length name" and "length name \<le> 16383"
  shows "\<exists>s'. EsSQLDescribeColW ver ndebug h b (int i + 1) (Some buf) (int (length buf)) True True True True True =
      Some \<lparr>dc_heap = put_stmt h b s', dc_ret = SQL_SUCCESS, dc_name = Some (take (length buf - 1) name @ [0]),
        dc_len = Some (int (length name)), dc_type = Some (data_type e), dc_size = Some (described_size e),
        dc_digits = Some (described_digits e), dc_nullable = Some (et_nullable e)\<rparr> \<and>
    state (stmt_diag s') = SQL_STATE_01004"
proof -
  have s: "stmt_ok ver h b s" using heap_ok_stmt [OF assms(1,2)] .
  then have ird: "ird s = PTR b I_IRD" "desc_ok ver (i_ird s)" "diag_ok ver (stmt_diag s)"
    by (simp_all add: stmt_ok_def embedded_ok_def)
  have gd: "get_desc h (ird s) = Some (i_ird s)" using assms(2) ird(1) by (simp add: get_stmt_Some)
  have col: "get_column ndebug (i_ird s) (int i + 1) = Some (Some (column_rec name e))"
    using get_column_at [OF assms(4) desc_okD(1,2) [OF ird(2)]] assms(5) by simp
  have len: "to_i16 (2 * int (length name)) = 2 * int (length name)" "to_i16 (int (length name)) = int (length name)"
    using assms(10) by (simp_all add: to_i16_def)
  have nm: "rec_name (column_rec name e) = Some name" "concise_type (column_rec name e) = data_type e"
    "es_type (column_rec name e) = Some e" by (simp_all add: column_rec_def)
  have small: "length buf \<le> 16383" using assms(9,10) by simp
  show ?thesis
    using assms(2,3) gd col nm len write_rec_text_cut [OF assms(2) ird(3) assms(7-9) small, of 0]
    by (intro exI [of _ "s\<lparr>stmt_diag := posted ver (stmt_diag s) SQL_STATE_01004 (default_message SQL_STATE_01004)\<rparr>"])
      (simp add: EsSQLDescribeColW_def describe_values_def get_col_described [OF assms(6)] SQL_SUCCEEDED_def Let_def)
qed

section \<open>The two ways to ask for a field\<close>

definition desc_number :: "desc_value \<Rightarrow> int" where
  "desc_number v = (case v of SMALLINT n \<Rightarrow> n | INTEGER n \<Rightarrow> n | UINTEGER n \<Rightarrow> n | LEN n \<Rightarrow> n | ULEN n \<Rightarrow> to_i64 n
     | POINTER n \<Rightarrow> n | BYTES _ \<Rightarrow> 0)"

lemma field_values_agree:
  assumes "get_rec_value DESC_TYPE_IRD rec f = Some (Some v)" and "col_attr_number d rec f = Some (Some n)"
    and "f \<noteq> SQL_DESC_PRECISION"
  shows "n = desc_number v"
  using assms
  by (cases f) (auto simp: get_rec_value_def col_attr_number_def desc_number_def DESC_TYPE_IS_IMPLEMENTATION_def)

lemma number_no_text: "col_attr_number d rec f = Some v \<Longrightarrow> f \<noteq> SQL_DESC_COUNT \<Longrightarrow> \<not> is_header_field f \<and> f \<noteq> SQL_DESC_ALLOC_TYPE \<and> get_string rec f = None"
  by (cases f) (auto simp: col_attr_number_def is_header_field_def get_string_def)

text \<open>C34: a numeric field of a column that both \<open>SQLColAttribute\<close> and \<open>SQLGetDescField\<close> on the IRD answer is the same
  number, the precision excepted: there the one answers whether precision and scale are fixed, the other the
  column size.\<close>
theorem col_attribute_agrees:
  assumes "get_stmt h b = Some s" and "get_desc h (ird s) = Some d" and "desc_ok ver d" and "desc_type d = DESC_TYPE_IRD"
    and "1 \<le> icol" "icol \<le> count d" and "recs d ! (nat icol - 1) = rec" "es_type rec = Some e"
    and "EsSQLColAttributeW ver ndebug h b icol f buf mx len True = Some (h', buf', len', Some n, SQL_SUCCESS)"
    and "EsSQLGetDescFieldW ver d icol f ptr blen hl = Some (d', Some v, len'', SQL_SUCCESS)"
  shows "if f = SQL_DESC_PRECISION then n = et_fixed_prec_scale e \<and> desc_number v = to_i16 (column_size e)
    else n = desc_number v"
proof -
  have cnt: "count d = int (length (recs d))" "length (recs d) \<le> 32767" using desc_okD(1,2) [OF assms(3)] .
  obtain i where i: "icol = int i + 1" "i < length (recs d)"
  proof
    show "icol = int (nat (icol - 1)) + 1" using assms(5) by simp
    show "nat (icol - 1) < length (recs d)" using assms(5,6) cnt(1) by linarith
  qed
  have rec: "recs d ! i = rec" using assms(7) i(1) by simp
  have col: "get_column ndebug d icol = Some (Some rec)"
    using get_column_at [OF i(2) cnt] rec i(1) by simp
  have num: "col_attr_number d rec f = Some (Some n)"
    using assms(9) assms(1,2,8) col
    by (auto simp: EsSQLColAttributeW_def RET_STMT_def Let_def split: if_splits option.splits bind_splits)
  show ?thesis
  proof (cases "f = SQL_DESC_COUNT")
    case True
    then have "v = SMALLINT (count d)"
      using assms(10) by (auto simp: EsSQLGetDescFieldW_def is_header_field_def get_done_def get_header_field_def get_failed_def
          split: if_splits)
    then show ?thesis using num True by (simp add: col_attr_number_def desc_number_def)
  next
    case False
    note nt = number_no_text [OF num False]
    have gr: "get_record ver ALLOC_FAILS d icol False = Some (d, Some i)" using i cnt(1) by (simp add: get_record_def)
    have "mem_read (recs d) i = Some rec" using i(2) rec by (simp add: mem_read_def)
    then have val: "get_rec_value DESC_TYPE_IRD rec f = Some (Some v)"
      using assms(10) nt gr assms(4,5)
      by (auto simp: EsSQLGetDescFieldW_def get_rec_field_def get_done_def get_failed_def
          split: if_splits option.splits bind_splits)
    show ?thesis
    proof (cases "f = SQL_DESC_PRECISION")
      case True
      then show ?thesis using num val assms(8) by (auto simp: col_attr_number_def get_rec_value_def desc_number_def)
    qed (use field_values_agree [OF val num] in simp)
  qed
qed

section \<open>The native text\<close>

text \<open>C35: the native form of a query is the query, given with its length or terminated: as much of it as the buffer has
  room for, terminated, nothing past the room touched; its whole length is reported, and 01004 when it was
  cut. With no room at all a negative count is copied.\<close>
theorem native_sql_copied:
  assumes "diag_ok ver d" and "0 \<notin> set sql" and "int (length sql) < 2147483648" and "room \<le> length buf"
    and "len_in = int (length sql) \<or> len_in = SQL_NTSL"
  shows "if room = 0 then EsSQLNativeSqlW ver d (Some (sql @ 0 # rest)) len_in (Some buf) 0 hl = None
    else \<exists>d' ret. EsSQLNativeSqlW ver d (Some (sql @ 0 # rest)) len_in (Some buf) (int room) True =
      Some (d', Some (take (room - 1) sql @ 0 # drop (min room (length sql + 1)) buf), Some (int (length sql)), ret) \<and>
      (if length sql < room then ret = SQL_SUCCESS \<and> d' = d
       else ret = SQL_SUCCESS_WITH_INFO \<and> state d' = SQL_STATE_01004)"
proof -
  have st: "SQL_STATE_01004 < 120" "state_retcode (esodbc_errors ! SQL_STATE_01004) = SQL_SUCCESS_WITH_INFO" by code_simp+
  have "to_i32 (int (length sql)) = int (length sql)" using assms(3) by (simp add: to_i32_def)
  then have len: "(if len_in = SQL_NTSL then map_option (\<lambda>n. to_i32 (int n)) (mem_strlen (sql @ 0 # rest)) else Some len_in) =
      Some (int (length sql))"
    using assms(5) mem_strlen_nts [OF assms(2), of rest] by auto
  show ?thesis
  proof (cases "room = 0")
    case True
    then show ?thesis unfolding EsSQLNativeSqlW_def option.case len by (simp add: Let_def)
  next
    case room: False
    define n where "n = (if room \<le> length sql then room - 1 else length sql)"
    have n: "n \<le> length sql" "n < length buf" using room assms(4) by (auto simp: n_def)
    have wr: "mem_write_list buf 0 (take n sql) = Some (take n sql @ drop n buf)"
      using mem_write_list_fits [of 0 "take n sql" buf] n by simp
    have "mem_write (take n sql @ drop n buf) n 0 = Some (take n sql @ 0 # drop (Suc n) buf)"
      using n by (simp add: mem_write_def list_update_append upd_conv_take_nth_drop)
    moreover have "take n sql @ 0 # drop (Suc n) buf = take (room - 1) sql @ 0 # drop (min room (length sql + 1)) buf"
      using room by (auto simp: n_def min_def le_Suc_eq)
    ultimately have wr2: "mem_write (take n sql @ drop n buf) n 0 =
        Some (take (room - 1) sql @ 0 # drop (min room (length sql + 1)) buf)" by simp
    show ?thesis
    proof (cases "room \<le> length sql")
      case True
      then have "n = room - 1" "nat (int room - 1) = room - 1" using room by (simp_all add: n_def nat_diff_distrib)
      then show ?thesis
        unfolding EsSQLNativeSqlW_def option.case len
        using True room n wr wr2 RET_HDIAGS_ok [OF assms(1) st(1)] st(2) by (simp add: Let_def)
    next
      case False
      then have "n = length sql" by (simp add: n_def)
      then show ?thesis
        unfolding EsSQLNativeSqlW_def option.case len
        using False room n wr wr2 by (simp add: Let_def)
    qed
  qed
qed


section \<open>Witnesses\<close>

text \<open>A statement of the sample heap, reading a result whose IRD has the records given.\<close>

definition sample_ird :: "esodbc_rec list \<Rightarrow> esodbc_desc" where
  "sample_ird rs = sample_desc\<lparr>desc_type := DESC_TYPE_IRD, count := int (length rs), recs := rs\<rparr>"

lemma sample_ird_ok:
  assumes "\<forall>rec \<in> set rs. rec_ok DESC_TYPE_IRD rec" and "length rs \<le> 32767"
  shows "embedded_ok (wlit ''1.0'') DESC_TYPE_IRD (sample_ird rs)"
  using sample_desc_ok assms
  by (simp add: embedded_ok_def sample_ird_def desc_ok_def ESODBC_MAX_DESC_COUNT_def) (simp add: sample_desc_def)

lemma sample_result:
  assumes "\<forall>rec \<in> set rs. rec_ok DESC_TYPE_IRD rec" and "length rs \<le> 32767"
  shows "\<exists>h s. heap_ok (wlit ''1.0'') h \<and> get_stmt h 2 = Some s \<and> i_ird s = sample_ird rs \<and> has_resultset s \<and>
    ird s = PTR 2 I_IRD \<and> desc_dbc h (ird s) = Some sample_types \<and> ard s = PTR 2 I_ARD \<and>
    i_ard s = new_desc DESC_TYPE_ARD SQL_DESC_ALLOC_AUTO \<and> h 3 = None \<and> gd_col s = - 1"
proof -
  obtain h s where h: "reachable (wlit ''1.0'') h" "get_stmt h 2 = Some s" "desc_dbc h (PTR 2 I_ARD) = Some sample_types"
    "ard s = PTR 2 I_ARD" "i_ard s = new_desc DESC_TYPE_ARD SQL_DESC_ALLOC_AUTO" "h 3 = None"
    using sample_reachable by blast
  note ok = reachable_ok [OF h(1) sample_ver_ok]
  define s' where "s' = s\<lparr>i_ird := sample_ird rs, has_resultset := True, gd_col := - 1\<rparr>"
  have "stmt_ok (wlit ''1.0'') h 2 s'"
    using heap_ok_stmt [OF ok h(2)] sample_ird_ok [OF assms] by (simp add: stmt_ok_def s'_def)
  then have ok': "heap_ok (wlit ''1.0'') (put_stmt h 2 s')" by (rule put_stmt_ok [OF ok h(2)])
  have hb: "h 2 = Some (STMT s)" using h(2) by (simp add: get_stmt_Some)
  have "ird s = PTR 2 I_IRD" using heap_ok_stmt [OF ok h(2)] by (simp add: stmt_ok_def)
  moreover have "desc_dbc (put_stmt h 2 s') (PTR 2 I_IRD) = Some sample_types"
  proof -
    obtain bc c where bc: "stmt_dbc s = PTR bc WHOLE" "h bc = Some (DBC c)" "dbc_types c = sample_types"
      using h(3) hb by (auto simp: desc_dbc_def split: bind_splits ptr.splits member.splits handle.splits option.splits)
    then have "bc \<noteq> 2" using hb by auto
    then show ?thesis using bc by (simp add: desc_dbc_def put_stmt_def s'_def)
  qed
  ultimately show ?thesis
    using ok' h(4-6) by (intro exI [of _ "put_stmt h 2 s'"] exI [of _ s']) (simp add: s'_def, simp add: put_stmt_def)
qed

lemma sample_types_ok: "\<forall>e \<in> set (es_types sample_types). estype_ok e" "es_types sample_types \<noteq> []"
  by code_simp+

lemma answer_described_witness:
  "\<exists>h h1 r. attach_columns_json (wlit ''1.0'') True ALLOC_IN_PLACE h 2 1 (Some [Some (wlit ''id'', wlit ''t'')]) = Some (h1, SQL_SUCCESS) \<and>
    EsSQLDescribeColW (wlit ''1.0'') True h1 2 1 (Some (replicate 4 7)) 4 True True True True True = Some r \<and>
    dc_name r = Some (wlit ''id'' @ [0, 7]) \<and> dc_size r = Some 17"
proof -
  obtain h s where h: "heap_ok (wlit ''1.0'') h" "get_stmt h 2 = Some s" "i_ird s = sample_ird []" "has_resultset s"
      "desc_dbc h (ird s) = Some sample_types"
    using sample_result [of "[]"] by auto
  define e where "e = sample_estype SQL_INTEGER"
  have "EQ_CASE_WSTR (wlit ''T'') (wlit ''t'')" "described_size (sample_estype SQL_INTEGER) = 17" by code_simp+
  then have e: "column_type sample_types (wlit ''t'') = Some e" "described_size e = 17"
    by (simp_all add: column_type_def sample_types_def e_def) (simp add: sample_estype_def)
  have nul: "0 \<notin> set (wlit ''id'')" by simp
  have empty: "recs (i_ird s) = []" by (simp add: h(3) sample_ird_def)
  from answer_described [OF h(1,2) empty h(4,5) sample_types_ok(2,1), of "[(wlit ''id'', wlit ''t'')]" ALLOC_IN_PLACE 0
      "wlit ''id''" "wlit ''t''" e "replicate 4 7" 1 True] e nul
  show ?thesis by fastforce
qed

lemma describe_name_cut_witness:
  "\<exists>h r s'. EsSQLDescribeColW (wlit ''1.0'') True h 2 1 (Some [7, 7]) 2 True True True True True = Some r \<and>
    dc_ret r = SQL_SUCCESS \<and> dc_name r = Some [of_char (CHR ''i''), 0] \<and> get_stmt (dc_heap r) 2 = Some s' \<and>
    state (stmt_diag s') = SQL_STATE_01004"
proof -
  obtain e where e: "estype_ok e" using sample_types_ok by (meson last_in_set)
  obtain h s where h: "heap_ok (wlit ''1.0'') h" "get_stmt h 2 = Some s" "i_ird s = sample_ird [column_rec (wlit ''id'') e]"
      "has_resultset s"
    using sample_result [of "[column_rec (wlit ''id'') e]"] rec_ok_column [OF e] by auto
  have recs: "0 < length (recs (i_ird s))" "recs (i_ird s) ! 0 = column_rec (wlit ''id'') e"
    by (simp_all add: h(3) sample_ird_def)
  have nul: "0 \<notin> set (wlit ''id'')" by simp
  from describe_name_cut [OF h(1,2,4) recs e nul, of "[7, 7]" True]
  show ?thesis by (fastforce simp: wlit_def)
qed

lemma col_attribute_agrees_witness:
  "\<exists>h d v n. EsSQLColAttributeW (wlit ''1.0'') True h 2 1 SQL_DESC_LENGTH None 0 None True = Some (h, None, None, Some n, SQL_SUCCESS) \<and>
    EsSQLGetDescFieldW (wlit ''1.0'') d 1 SQL_DESC_LENGTH 4096 SQL_IS_UINTEGER False = Some (d, Some v, None, SQL_SUCCESS) \<and>
    n = desc_number v"
proof -
  obtain e where e: "estype_ok e" using sample_types_ok by (meson last_in_set)
  let ?rec = "column_rec (wlit ''id'') e"
  let ?d = "sample_ird [?rec]"
  obtain h s where h: "heap_ok (wlit ''1.0'') h" "get_stmt h 2 = Some s" "i_ird s = ?d" "has_resultset s" "ird s = PTR 2 I_IRD"
    using sample_result [of "[?rec]"] rec_ok_column [OF e] by auto
  have gd: "get_desc h (ird s) = Some ?d" using h(2,3,5) by (simp add: get_stmt_Some)
  have ok: "desc_ok (wlit ''1.0'') ?d" using sample_ird_ok [of "[?rec]"] rec_ok_column [OF e] by (simp add: embedded_ok_def)
  have d: "desc_type ?d = DESC_TYPE_IRD" "count ?d = 1" "recs ?d = [?rec]" by (simp_all add: sample_ird_def)
  have es: "es_type ?rec = Some e" by (simp add: column_rec_def)
  have col: "get_column True ?d 1 = Some (Some ?rec)"
    using get_column_at [of 0 ?d True] d by simp
  have 1: "EsSQLColAttributeW (wlit ''1.0'') True h 2 1 SQL_DESC_LENGTH None 0 None True =
      Some (h, None, None, Some (to_i64 (rec_length ?rec)), SQL_SUCCESS)"
    using h(2,4) gd col es by (simp add: EsSQLColAttributeW_def c_assert_def col_attr_number_def)
  have 2: "EsSQLGetDescFieldW (wlit ''1.0'') ?d 1 SQL_DESC_LENGTH 4096 SQL_IS_UINTEGER False =
      Some (?d, Some (ULEN (rec_length ?rec)), None, SQL_SUCCESS)"
    using d by (simp add: EsSQLGetDescFieldW_def check_access_def check_buff_def is_header_field_def get_record_def mem_read_def
        get_rec_field_def get_string_def get_rec_value_def get_done_def)
  have "(if SQL_DESC_LENGTH = SQL_DESC_PRECISION then to_i64 (rec_length ?rec) = et_fixed_prec_scale e \<and>
        desc_number (ULEN (rec_length ?rec)) = to_i16 (column_size e)
      else to_i64 (rec_length ?rec) = desc_number (ULEN (rec_length ?rec)))"
    by (rule col_attribute_agrees [OF h(2) gd ok d(1) _ _ _ es 1 2]) (simp_all add: d)
  with 1 2 show ?thesis by auto
qed

lemma native_sql_copied_witness:
  "\<exists>d'. EsSQLNativeSqlW (wlit ''1.0'') (desc_diag sample_desc) (Some (wlit ''SELECT 1'' @ 0 # [])) SQL_NTSL (Some (replicate 9 7)) 7 True =
    Some (d', Some (wlit ''SELECT'' @ [0, 7, 7]), Some 8, SQL_SUCCESS_WITH_INFO)"
proof -
  have nul: "0 \<notin> set (wlit ''SELECT 1'')" by simp
  from native_sql_copied [OF desc_okD(3) [OF sample_desc_ok] nul, of 7 "replicate 9 7" SQL_NTSL "[]"]
  show ?thesis by (auto simp: wlit_def numeral_2_eq_2)
qed

lemma cbor_columns_as_json_witness:
  "\<exists>h h1 buff. attach_columns_cbor (wlit ''1.0'') True ALLOC_IN_PLACE (\<lambda>n. Some (replicate n 0)) (\<lambda>c. Some (map ucast c)) h 2
      (Some 1) (Some (map Some [(clit ''id'', clit ''t'')])) = Some (h1, buff, SQL_SUCCESS)"
proof -
  obtain h s where h: "heap_ok (wlit ''1.0'') h" "get_stmt h 2 = Some s" "i_ird s = sample_ird []" "has_resultset s"
      "desc_dbc h (ird s) = Some sample_types"
    using sample_result [of "[]"] by auto
  have w: "map ucast (clit ''id'') = wlit ''id''" "map ucast (clit ''t'') = wlit ''t''" 
    by (simp_all add: clit_def wlit_def)
  have "EQ_CASE_WSTR (wlit ''T'') (wlit ''t'')" by code_simp
  then have known: "column_type sample_types (wlit ''t'') \<noteq> None"
    by (simp add: column_type_def sample_types_def) (simp add: sample_estype_def)
  have empty: "recs (i_ird s) = []" by (simp add: h(3) sample_ird_def)
  have json: "\<exists>h1. attach_columns_json (wlit ''1.0'') True ALLOC_IN_PLACE h 2 1 (Some (map Some [(wlit ''id'', wlit ''t'')])) = Some (h1, SQL_SUCCESS)"
    using attach_columns_result(1) [OF h(1,2) empty h(5) sample_types_ok(2,1), of "[(wlit ''id'', wlit ''t'')]" ALLOC_IN_PLACE True]
      known by simp
  have col: "list_all2 (same_column (\<lambda>c. Some (map ucast c))) [(clit ''id'', clit ''t'')] [(wlit ''id'', wlit ''t'')]"
    using w(1,2) by (simp add: same_column_def) (simp add: clit_def wlit_def)
  have five: "slab_size [(wlit ''id'', wlit ''t'')] = 5" by (simp add: eval_nat_numeral)
  have "map_option (\<lambda>(h, buff, ret). (h, ret)) (attach_columns_cbor (wlit ''1.0'') True ALLOC_IN_PLACE (\<lambda>n. Some (replicate n 0))
      (\<lambda>c. Some (map ucast c)) h 2 (Some 1) (Some (map Some [(clit ''id'', clit ''t'')]))) =
    attach_columns_json (wlit ''1.0'') True ALLOC_IN_PLACE h 2 1 (Some (map Some [(wlit ''id'', wlit ''t'')]))"
    by (rule cbor_columns_as_json [OF col, where buff = "replicate 5 0"]) (simp_all add: five del: slab_size_simps)
  with json obtain h1 where "map_option (\<lambda>(h, buff, ret). (h, ret)) (attach_columns_cbor (wlit ''1.0'') True ALLOC_IN_PLACE
      (\<lambda>n. Some (replicate n 0)) (\<lambda>c. Some (map ucast c)) h 2 (Some 1) (Some (map Some [(clit ''id'', clit ''t'')]))) =
    Some (h1, SQL_SUCCESS)" by metis
  then show ?thesis unfolding map_option_eq_Some split_paired_Ex prod.case prod.inject by blast
qed

end
