(* ===== verification/Stmt_GetData.thy ===== *)
theory Stmt_GetData
imports Column_Info
begin

text \<open>
  \<open>SQLGetData\<close> (driver/queries.c, driver/handles.c): a column of the current row copied to a buffer that is not
  bound. The call puts a descriptor of its own, with one bound column, in place of the statement's ARD, has
  the row copied, and puts the ARD back.

  The descriptor is a variable of the function: the handle at the address \<open>g\<close>, free before and after. For
  columns below 128 so are its records, of which only the column's is initialised; \<open>junk\<close> is what is there.
  The copying of the row, which walks the answer with the vendored libraries, is the argument \<open>copy\<close>, as is
  whether a row was fetched (asserted) and whether the result is forced to be empty (\<open>rset.body.cnt\<close>).
\<close>

section \<open>The descriptor of the call\<close>

definition ESODBC_GD_DESC_COUNT :: int where "ESODBC_GD_DESC_COUNT = 128"

text \<open>The descriptor to put back, if there was no failure.\<close>

definition getdata_set_ard ::
    "wstr \<Rightarrow> bool \<Rightarrow> esodbc_rec list \<Rightarrow> heap \<Rightarrow> nat \<Rightarrow> nat \<Rightarrow> int \<Rightarrow> (heap \<times> ptr option) option" where
  "getdata_set_ard ver ndebug junk h b g colno = do {
     s \<leftarrow> get_stmt h b;
     let saved = ard s;
     gd \<leftarrow> init_desc DESC_TYPE_ARD SQL_DESC_ALLOC_USER;
     (h, ret) \<leftarrow> EsSQLSetStmtAttrW ver ALLOC_FAILS (h(g \<mapsto> DESC (PTR b WHOLE) gd)) b SQL_ATTR_APP_ROW_DESC 0
       (PTR g WHOLE) SQL_IS_POINTER;
     if \<not> SQL_SUCCEEDED ret then do {
       s \<leftarrow> get_stmt h b;
       Some (put_stmt h b (s\<lparr>ard := saved\<rparr>), None) }
     else if colno < ESODBC_GD_DESC_COUNT then do {
       c_assert ndebug (0 < colno);
       gd \<leftarrow> get_desc h (PTR g WHOLE);
       if colno < 1 \<or> int (length junk) < colno then None
       else Some (put_desc h (PTR g WHOLE) (gd\<lparr>count := colno,
         recs := take (nat colno - 1) junk @ [init_rec (desc_type gd)]\<rparr>), Some saved) }
     else Some (h, Some saved) }"

text \<open>The records are the variable for a column below 128, which the binding does not reallocate, as the count is that
  of the column already.\<close>

definition getdata_reset_ard :: "wstr \<Rightarrow> bool \<Rightarrow> heap \<Rightarrow> nat \<Rightarrow> ptr \<Rightarrow> int \<Rightarrow> heap option" where
  "getdata_reset_ard ver ndebug h b saved colno = do {
     s \<leftarrow> get_stmt h b;
     d \<leftarrow> get_desc h (ard s);
     h \<leftarrow> (if ESODBC_GD_DESC_COUNT \<le> colno then do {
         (d, ret) \<leftarrow> update_rec_count ver ALLOC_IN_PLACE d 0;
         c_assert ndebug (SQL_SUCCEEDED ret);
         Some (put_desc h (ard s) d) }
       else do {
         rec \<leftarrow> mem_read (recs d) (nat colno - 1);
         Some (put_desc h (ard s) (d\<lparr>recs := (recs d)[nat colno - 1 := free_rec_fields rec]\<rparr>)) });
     s \<leftarrow> get_stmt h b;
     Some (put_stmt h b (s\<lparr>ard := saved\<rparr>)) }"

section \<open>Checks and binding\<close>

definition gd_checks ::
    "wstr \<Rightarrow> bool \<Rightarrow> bool \<Rightarrow> bool \<Rightarrow> heap \<Rightarrow> nat \<Rightarrow> int \<Rightarrow> (heap \<times> sqlreturn) option" where
  "gd_checks ver ndebug nodata row_fetched h b colno = do {
     s \<leftarrow> get_stmt h b;
     if \<not> has_resultset s then
       (if nodata then Some (h, SQL_NO_DATA) else RET_STMT ver h b SQL_STATE_HY010)
     else do {
       a \<leftarrow> get_desc h (ard s);
       if 1 < array_size a then RET_STMT ver h b SQL_STATE_HYC00
       else do {
         i \<leftarrow> get_desc h (ird s);
         c_assert ndebug (count i \<noteq> 0 \<and> row_fetched);
         if colno < 1 then RET_STMT ver h b SQL_STATE_07009 else Some (h, SQL_SUCCESS) } } }"

definition SQL_ARD_TYPE :: int where "SQL_ARD_TYPE = - 99"
definition SQL_APD_TYPE :: int where "SQL_APD_TYPE = - 100"

text \<open>The case of \<open>SQL_ARD_TYPE\<close> goes on to the next one.\<close>

definition gd_bind_col ::
    "wstr \<Rightarrow> bool \<Rightarrow> alloc \<Rightarrow> alloc \<Rightarrow> heap \<Rightarrow> nat \<Rightarrow> ptr \<Rightarrow> int \<Rightarrow> int \<Rightarrow> int \<Rightarrow> int \<Rightarrow> int \<Rightarrow> (heap \<times> sqlreturn) option" where
  "gd_bind_col ver ndebug al al' h b saved colno target_type buff_ptr buff_len len_ind =
    (if target_type = SQL_ARD_TYPE then do {
       a \<leftarrow> get_desc h saved;
       r \<leftarrow> get_column ndebug a colno;
       RET_STMT ver h b (if r = None then SQL_STATE_07009 else SQL_STATE_HYC00) }
     else if target_type = SQL_APD_TYPE then RET_STMT ver h b SQL_STATE_HYC00
     else EsSQLBindCol ver al al' h b colno target_type buff_ptr buff_len len_ind)"

section \<open>The call\<close>

text \<open>The start: a return code ends the call.\<close>

definition gd_start ::
    "wstr \<Rightarrow> bool \<Rightarrow> bool \<Rightarrow> bool \<Rightarrow> heap \<Rightarrow> nat \<Rightarrow> int \<Rightarrow> int \<Rightarrow> (heap \<times> sqlreturn option) option" where
  "gd_start ver ndebug nodata row_fetched h b colno target_type = do {
     s \<leftarrow> get_stmt h b;
     if gd_col s = colno \<and> gd_ctype s = target_type then
       Some (h, if gd_offt s < 0 then Some SQL_NO_DATA else None)
     else do {
       (h, ret) \<leftarrow> gd_checks ver ndebug nodata row_fetched (if 0 \<le> gd_col s then put_stmt h b (STMT_GD_RESET s) else h)
         b colno;
       if \<not> SQL_SUCCEEDED ret then Some (h, Some ret)
       else do {
         s \<leftarrow> get_stmt h b;
         Some (put_stmt h b (s\<lparr>gd_col := colno, gd_ctype := target_type\<rparr>), None) } } }"

text \<open>With the descriptor in place: binding, the check of the conversion, copying.\<close>

definition gd_copy ::
    "wstr \<Rightarrow> bool \<Rightarrow> alloc \<Rightarrow> alloc \<Rightarrow> (heap \<Rightarrow> nat \<Rightarrow> (heap \<times> sqlreturn) option) \<Rightarrow> heap \<Rightarrow> nat \<Rightarrow> ptr \<Rightarrow> int \<Rightarrow> int \<Rightarrow> int \<Rightarrow> int
     \<Rightarrow> int \<Rightarrow> (heap \<times> sqlreturn) option" where
  "gd_copy ver ndebug al al' copy h b saved colno target_type buff_ptr buff_len len_ind = do {
     (h, ret) \<leftarrow> gd_bind_col ver ndebug al al' h b saved colno target_type buff_ptr buff_len len_ind;
     if \<not> SQL_SUCCEEDED ret then Some (h, ret)
     else do {
       (h, ret, code) \<leftarrow> convertability_check ver h b (CONV_COLUMN (nat colno));
       if \<not> SQL_SUCCEEDED ret then Some (h, ret) else copy h b } }"

definition EsSQLGetData ::
    "wstr \<Rightarrow> bool \<Rightarrow> bool \<Rightarrow> bool \<Rightarrow> alloc \<Rightarrow> alloc \<Rightarrow> esodbc_rec list \<Rightarrow> (heap \<Rightarrow> nat \<Rightarrow> (heap \<times> sqlreturn) option) \<Rightarrow> nat
     \<Rightarrow> heap \<Rightarrow> nat \<Rightarrow> int \<Rightarrow> int \<Rightarrow> int \<Rightarrow> int \<Rightarrow> int \<Rightarrow> (heap \<times> sqlreturn) option" where
  "EsSQLGetData ver ndebug nodata row_fetched al al' junk copy g h b colno target_type buff_ptr buff_len len_ind = do {
     (h, ret) \<leftarrow> gd_start ver ndebug nodata row_fetched h b colno target_type;
     (case ret of
        Some ret \<Rightarrow> Some (h, ret)
      | None \<Rightarrow> do {
          (h, saved) \<leftarrow> getdata_set_ard ver ndebug junk h b g colno;
          (case saved of
             None \<Rightarrow> do {
               c_assert ndebug False;
               (h, ret) \<leftarrow> RET_STMT_TEXT ver h b SQL_STATE_HY000 ''BUG: failed to prepare SQLGetData call'';
               Some (h(g := None), ret) }
           | Some saved \<Rightarrow> do {
               (h, ret) \<leftarrow> gd_copy ver ndebug al al' copy h b saved colno target_type buff_ptr buff_len len_ind;
               h \<leftarrow> getdata_reset_ard ver ndebug h b saved colno;
               s \<leftarrow> get_stmt h b;
               let h = (if SQL_SUCCEEDED ret then h else put_stmt h b (STMT_GD_RESET s));
               Some (h(g := None), ret) }) }) }"


section \<open>What a call leaves alone\<close>

text \<open>Handles other than the statement and the call's descriptor are as they were, and the statement's ARD, the pointer and
  the implicit descriptor, too.\<close>

definition gd_frame :: "nat \<Rightarrow> nat \<Rightarrow> heap \<Rightarrow> heap \<Rightarrow> bool" where
  "gd_frame g b h h' \<longleftrightarrow> (\<forall>c. c \<noteq> b \<and> c \<noteq> g \<longrightarrow> h' c = h c) \<and>
     (\<forall>s. get_stmt h b = Some s \<longrightarrow> (\<exists>s'. get_stmt h' b = Some s' \<and> ard s' = ard s \<and> i_ard s' = i_ard s))"

text \<open>What is expected of the copying of a row: it writes to the statement, and leaves its ARD.\<close>

definition copy_keeps :: "(heap \<Rightarrow> nat \<Rightarrow> (heap \<times> sqlreturn) option) \<Rightarrow> bool" where
  "copy_keeps copy \<longleftrightarrow> (\<forall>h b s h' ret. copy h b = Some (h', ret) \<longrightarrow> get_stmt h b = Some s \<longrightarrow>
     (\<forall>c. c \<noteq> b \<longrightarrow> h' c = h c) \<and> (\<exists>s'. get_stmt h' b = Some s' \<and> ard s' = ard s \<and> i_ard s' = i_ard s))"

named_theorems gd_frame_intros

lemma gd_frame_refl [gd_frame_intros]: "gd_frame g b h h"
  by (simp add: gd_frame_def)

lemma gd_frame_trans: "gd_frame g b h h' \<Longrightarrow> gd_frame g b h' h'' \<Longrightarrow> gd_frame g b h h''"
  unfolding gd_frame_def by metis

lemma gd_frame_stmt: "gd_frame g b h h' \<Longrightarrow> get_stmt h b = Some s \<Longrightarrow>
    \<exists>s'. get_stmt h' b = Some s' \<and> ard s' = ard s \<and> i_ard s' = i_ard s"
  by (simp add: gd_frame_def)

lemma gd_frame_put_stmt [gd_frame_intros]:
  "get_stmt h b = Some s \<Longrightarrow> ard s' = ard s \<Longrightarrow> i_ard s' = i_ard s \<Longrightarrow> gd_frame g b h (put_stmt h b s')"
  by (simp add: gd_frame_def put_stmt_def get_stmt_def)

lemma gd_frame_put_desc [gd_frame_intros]: "g \<noteq> b \<Longrightarrow> gd_frame g b h (put_desc h (PTR g WHOLE) d)"
  by (auto simp: gd_frame_def get_stmt_def split: option.splits handle.splits)

lemma gd_frame_post [gd_frame_intros]:
  "RET_STMT ver h b st = Some (h', ret) \<Longrightarrow> gd_frame g b h h'"
  "RET_STMT_TEXT ver h b st msg = Some (h', ret) \<Longrightarrow> gd_frame g b h h'"
  by (auto simp: RET_STMT_def RET_STMT_TEXT_def gd_frame_put_stmt split: bind_splits)

lemma gd_frame_diag_copy [gd_frame_intros]: "HDIAG_COPY h p b = Some h' \<Longrightarrow> gd_frame g b h h'"
  by (auto simp: HDIAG_COPY_def gd_frame_put_stmt split: bind_splits)

lemma gd_frame_set_field [gd_frame_intros]:
  "set_desc_field ver al h (PTR g WHOLE) n f v l = Some (h', ret) \<Longrightarrow> g \<noteq> b \<Longrightarrow> gd_frame g b h h'"
  unfolding set_desc_field_def using gd_frame_put_desc by (auto simp del: put_desc.simps get_desc.simps split: bind_splits)

lemma gd_frame_bind_failed:
  assumes "bind_col_failed ver al' h b (PTR g WHOLE) prev = Some (h', ret)" and "g \<noteq> b"
  shows "gd_frame g b h h'"
proof -
  obtain h1 h2 r where 1: "HDIAG_COPY h (PTR g WHOLE) b = Some h1"
    and 2: "(if prev < 0 then map_option fst (set_desc_field ver al' h1 (PTR g WHOLE) NO_REC_NR SQL_DESC_COUNT (- prev) SQL_IS_SMALLINT)
       else Some h1) = Some h2" and "h' = h2"
    using assms(1) by (auto simp: bind_col_failed_def split: bind_splits)
  moreover have "gd_frame g b h1 h2"
    using 2 assms(2) by (auto intro: gd_frame_intros split: if_splits)
  ultimately show ?thesis using gd_frame_diag_copy [OF 1] gd_frame_trans by blast
qed

lemma gd_frame_bind_col:
  assumes "EsSQLBindCol ver al al' h b col ty p len ind = Some (h', ret)" and "g \<noteq> b"
    and "get_stmt h b = Some s" and "ard s = PTR g WHOLE"
  shows "gd_frame g b h h'"
proof -
  have put: "gd_frame g b h (put_desc h (PTR g WHOLE) d)" for d using gd_frame_put_desc [OF assms(2)] .
  have last: "gd_frame g b h (put_stmt (put_desc h (PTR g WHOLE) d) b (s'\<lparr>sql2c_conversion := 0\<rparr>))"
    if "get_stmt (put_desc h (PTR g WHOLE) d) b = Some s'" for d s'
    using gd_frame_trans [OF put gd_frame_put_stmt [OF that]] by simp
  have failed: "gd_frame g b h h'" if "bind_col_failed ver al' (put_desc h (PTR g WHOLE) d) b (PTR g WHOLE) prev = Some (h', ret)" for d prev
    using gd_frame_trans [OF put gd_frame_bind_failed [OF that assms(2)]] .
  show ?thesis
    using assms(1,3,4) last failed gd_frame_post(1)
    by (auto simp: EsSQLBindCol_def Let_def simp del: put_desc.simps get_desc.simps split: if_splits bind_splits)
qed

lemma gd_frame_check:
  "convertability_check ver h b idx = Some (h', ret, code) \<Longrightarrow> gd_frame g b h h'"
  by (auto simp: convertability_check_def Let_def gd_frame_refl gd_frame_post split: if_splits bind_splits)

lemma gd_frame_copy:
  "copy_keeps copy \<Longrightarrow> copy h b = Some (h', ret) \<Longrightarrow> get_stmt h b = Some s \<Longrightarrow> gd_frame g b h h'"
  unfolding copy_keeps_def gd_frame_def by (metis option.inject)

lemma gd_frame_gd_copy:
  assumes "gd_copy ver ndebug al al' copy h b saved col ty p len ind = Some (h', ret)" and "g \<noteq> b"
    and "get_stmt h b = Some s" and "ard s = PTR g WHOLE" and "copy_keeps copy"
  shows "gd_frame g b h h'"
proof -
  obtain h1 r1 where 1: "gd_bind_col ver ndebug al al' h b saved col ty p len ind = Some (h1, r1)"
      "(if \<not> SQL_SUCCEEDED r1 then Some (h1, r1) else do {
         (h, ret, code) \<leftarrow> convertability_check ver h1 b (CONV_COLUMN (nat col));
         if \<not> SQL_SUCCEEDED ret then Some (h, ret) else copy h b }) = Some (h', ret)"
    using assms(1) by (auto simp: gd_copy_def split: bind_splits)
  have f1: "gd_frame g b h h1"
    using 1(1) gd_frame_bind_col [OF _ assms(2-4)] gd_frame_post(1)
    by (auto simp: gd_bind_col_def split: if_splits bind_splits)
  obtain s1 where s1: "get_stmt h1 b = Some s1" using gd_frame_stmt [OF f1 assms(3)] by blast
  show ?thesis
  proof (cases "SQL_SUCCEEDED r1")
    case True
    then obtain h2 r2 code where 2: "convertability_check ver h1 b (CONV_COLUMN (nat col)) = Some (h2, r2, code)"
        "(if \<not> SQL_SUCCEEDED r2 then Some (h2, r2) else copy h2 b) = Some (h', ret)"
      using 1(2) by (auto split: bind_splits)
    note f2 = gd_frame_check [OF 2(1), of g]
    obtain s2 where "get_stmt h2 b = Some s2" using gd_frame_stmt [OF f2 s1] by blast
    then have "gd_frame g b h2 h'"
      using 2(2) gd_frame_copy [OF assms(5)] by (auto simp: gd_frame_refl split: if_splits)
    then show ?thesis using f1 f2 gd_frame_trans by blast
  qed (use 1(2) f1 in simp)
qed

section \<open>The ARD is put back\<close>

lemma gd_start_effect:
  assumes "gd_start ver ndebug nodata row h b col ty = Some (h', ret)" and "get_stmt h b = Some s"
  shows "\<exists>s'. h' = put_stmt h b s' \<and> ard s' = ard s \<and> i_ard s' = i_ard s \<and>
    (ret \<noteq> None \<and> \<not> (gd_col s = col \<and> gd_ctype s = ty) \<longrightarrow> gd_col s' < 0) \<and>
    (\<exists>r. ret = Some r \<and> SQL_SUCCEEDED r) = False"
proof -
  have nd: "\<not> SQL_SUCCEEDED SQL_NO_DATA" by (simp add: SQL_SUCCEEDED_def)
  show ?thesis
  proof (cases "gd_col s = col \<and> gd_ctype s = ty")
    case True
    then have "h' = h" "ret = (if gd_offt s < 0 then Some SQL_NO_DATA else None)"
      using assms by (auto simp: gd_start_def)
    then show ?thesis using True nd put_stmt_same [OF assms(2)] by (intro exI [of _ s]) auto
  next
    case False
    define s0 where "s0 = (if 0 \<le> gd_col s then STMT_GD_RESET s else s)"
    have s0: "gd_col s0 < 0" "ard s0 = ard s" "i_ard s0 = i_ard s" by (simp_all add: s0_def STMT_GD_RESET_def)
    define h0 where "h0 = (if 0 \<le> gd_col s then put_stmt h b (STMT_GD_RESET s) else h)"
    have h0: "h0 = put_stmt h b s0" using put_stmt_same [OF assms(2)] by (simp add: h0_def s0_def)
    obtain h1 r where 1: "gd_checks ver ndebug nodata row h0 b col = Some (h1, r)"
      and 2: "(if \<not> SQL_SUCCEEDED r then Some (h1, Some r)
        else do { s \<leftarrow> get_stmt h1 b; Some (put_stmt h1 b (s\<lparr>gd_col := col, gd_ctype := ty\<rparr>), None) }) = Some (h', ret)"
      using assms False by (auto simp: gd_start_def h0_def split: bind_splits)
    have "\<exists>dg. h1 = put_stmt h b (s0\<lparr>stmt_diag := dg\<rparr>)"
    proof -
      have same: "\<exists>dg. put_stmt h b s0 = put_stmt h b (s0\<lparr>stmt_diag := dg\<rparr>)"
        by (intro exI [of _ "stmt_diag s0"]) simp
      have posts: "\<exists>dg. h1 = put_stmt h b (s0\<lparr>stmt_diag := dg\<rparr>)" if "RET_STMT ver h0 b st = Some (h1, r)" for st
        using that by (auto simp: RET_STMT_def h0 put_stmt_def get_stmt_def split: bind_splits)
      have "h1 = h0 \<or> (\<exists>st. RET_STMT ver h0 b st = Some (h1, r))"
        using 1 by (auto simp: gd_checks_def split: if_splits bind_splits)
      then show ?thesis using same posts h0 by metis
    qed
    then obtain dg where h1: "h1 = put_stmt h b (s0\<lparr>stmt_diag := dg\<rparr>)" by blast
    show ?thesis
    proof (cases "SQL_SUCCEEDED r")
      case True
      then have "h' = put_stmt h b (s0\<lparr>stmt_diag := dg, gd_col := col, gd_ctype := ty\<rparr>)" "ret = None"
        using 2 by (simp_all add: h1 put_stmt_def get_stmt_def)
      then show ?thesis using s0 by (intro exI [of _ "s0\<lparr>stmt_diag := dg, gd_col := col, gd_ctype := ty\<rparr>"]) simp
    next
      case False
      then have "h' = h1" "ret = Some r" using 2 by simp_all
      then show ?thesis using False s0 h1 by (intro exI [of _ "s0\<lparr>stmt_diag := dg\<rparr>"]) simp
    qed
  qed
qed

definition gd_desc :: "esodbc_rec list \<Rightarrow> int \<Rightarrow> esodbc_desc" where
  "gd_desc junk col = (let d = (new_desc DESC_TYPE_ARD SQL_DESC_ALLOC_USER)\<lparr>desc_type := DESC_TYPE_ARD\<rparr> in
     if col < ESODBC_GD_DESC_COUNT then d\<lparr>count := col, recs := take (nat col - 1) junk @ [init_rec DESC_TYPE_ARD]\<rparr> else d)"

lemma getdata_set_ard_eq:
  assumes "get_stmt h b = Some s" and "g \<noteq> b" and "ard s \<noteq> PTR g WHOLE" and "ver_ok ver"
  shows "getdata_set_ard ver ndebug junk h b g col =
    (if col < ESODBC_GD_DESC_COUNT \<and> (col < 1 \<or> int (length junk) < col) then None
     else Some (put_stmt (h(g \<mapsto> DESC (PTR b WHOLE) (gd_desc junk col))) b (s\<lparr>ard := PTR g WHOLE\<rparr>), Some (ard s)))"
proof -
  let ?new = "new_desc DESC_TYPE_ARD SQL_DESC_ALLOC_USER"
  have i: "init_desc DESC_TYPE_ARD SQL_DESC_ALLOC_USER = Some ?new" using new_desc_ok(1) [OF assms(4)] by simp
  have at: "alloc_type ?new \<noteq> SQL_DESC_ALLOC_AUTO" "desc_type ?new = DESC_TYPE_ANON" by (simp_all add: new_desc_def)
  let ?h = "h(g \<mapsto> DESC (PTR b WHOLE) ?new)"
  have st: "get_stmt ?h b = Some s" using assms(1,2) by (simp add: get_stmt_def)
  let ?h2 = "put_stmt (h(g \<mapsto> DESC (PTR b WHOLE) (?new\<lparr>desc_type := DESC_TYPE_ARD\<rparr>))) b (s\<lparr>ard := PTR g WHOLE\<rparr>)"
  have set: "EsSQLSetStmtAttrW ver ALLOC_FAILS ?h b SQL_ATTR_APP_ROW_DESC 0 (PTR g WHOLE) SQL_IS_POINTER = Some (?h2, SQL_SUCCESS)"
    using st assms(2,3) at
    by (auto simp: EsSQLSetStmtAttrW_def attr_field_def attr_fixed_def set_app_row_desc_def get_stmt_def put_stmt_def)
  have gd: "get_desc ?h2 (PTR g WHOLE) = Some (?new\<lparr>desc_type := DESC_TYPE_ARD\<rparr>)"
    "put_desc ?h2 (PTR g WHOLE) x = put_stmt (h(g \<mapsto> DESC (PTR b WHOLE) x)) b (s\<lparr>ard := PTR g WHOLE\<rparr>)" for x
    using assms(2) by (auto simp: put_stmt_def)
  show ?thesis
    using assms(1) i set gd
    by (auto simp: getdata_set_ard_def gd_desc_def Let_def SQL_SUCCEEDED_def c_assert_def simp del: get_desc.simps put_desc.simps)
qed

lemma getdata_reset_ard_effect:
  assumes "getdata_reset_ard ver ndebug h b saved col = Some h'" and "get_stmt h b = Some s" and "ard s = PTR g WHOLE" and "g \<noteq> b"
  shows "get_stmt h' b = Some (s\<lparr>ard := saved\<rparr>) \<and> (\<forall>c. c \<noteq> b \<and> c \<noteq> g \<longrightarrow> h' c = h c)"
proof -
  have "\<exists>d s'. h' = put_stmt (put_desc h (PTR g WHOLE) d) b (s'\<lparr>ard := saved\<rparr>) \<and> get_stmt (put_desc h (PTR g WHOLE) d) b = Some s'"
    using assms(1-3) by (auto simp: getdata_reset_ard_def simp del: put_desc.simps get_desc.simps split: if_splits bind_splits; blast)
  then obtain d s' where h': "h' = put_stmt (put_desc h (PTR g WHOLE) d) b (s'\<lparr>ard := saved\<rparr>)"
    "get_stmt (put_desc h (PTR g WHOLE) d) b = Some s'" by blast
  have "(put_desc h (PTR g WHOLE) d) c = h c" if "c \<noteq> g" for c
    using that by (auto split: option.splits handle.splits)
  then show ?thesis using h' assms(2,4) by (auto simp: put_stmt_def get_stmt_def simp del: put_desc.simps)
qed

lemma get_data_effect:
  assumes "EsSQLGetData ver ndebug nodata row al al' junk copy g h b col ty p len ind = Some (h', ret)"
    and "get_stmt h b = Some s" and "h g = None" and "ard s \<noteq> PTR g WHOLE" and "ver_ok ver" and "copy_keeps copy"
  shows "\<exists>s'. get_stmt h' b = Some s' \<and> ard s' = ard s \<and> i_ard s' = i_ard s \<and> (\<forall>c. c \<noteq> b \<longrightarrow> h' c = h c) \<and>
    (\<not> SQL_SUCCEEDED ret \<and> \<not> (gd_col s = col \<and> gd_ctype s = ty \<and> gd_offt s < 0) \<longrightarrow> gd_col s' < 0)"
proof -
  have gb: "g \<noteq> b" using assms(2,3) by (auto simp: get_stmt_Some)
  obtain h0 r0 where 0: "gd_start ver ndebug nodata row h b col ty = Some (h0, r0)"
    using assms(1) by (auto simp: EsSQLGetData_def split: bind_splits)
  obtain s0 where s0: "h0 = put_stmt h b s0" "ard s0 = ard s" "i_ard s0 = i_ard s"
      "r0 \<noteq> None \<and> \<not> (gd_col s = col \<and> gd_ctype s = ty) \<longrightarrow> gd_col s0 < 0"
    using gd_start_effect [OF 0 assms(2)] by blast
  have st0: "get_stmt h0 b = Some s0" using s0(1) by (simp add: put_stmt_def get_stmt_def)
  show ?thesis
  proof (cases r0)
    case (Some r)
    then have "h' = h0" "ret = r" using assms(1) 0 by (simp_all add: EsSQLGetData_def)
    moreover have "gd_offt s < 0" if "gd_col s = col" "gd_ctype s = ty"
      using 0 assms(2) that Some by (auto simp: gd_start_def split: if_splits)
    ultimately show ?thesis using s0 st0 Some by (auto simp: put_stmt_def)
  next
    case None
    define h1 where "h1 = put_stmt (h0(g \<mapsto> DESC (PTR b WHOLE) (gd_desc junk col))) b (s0\<lparr>ard := PTR g WHOLE\<rparr>)"
    have st1: "get_stmt h1 b = Some (s0\<lparr>ard := PTR g WHOLE\<rparr>)" by (simp add: h1_def put_stmt_def get_stmt_def)
    have "getdata_set_ard ver ndebug junk h0 b g col = Some (h1, Some (ard s)) \<or> getdata_set_ard ver ndebug junk h0 b g col = None"
      using getdata_set_ard_eq [OF st0 gb _ assms(5), of ndebug junk col] s0(2) assms(4) by (auto simp: h1_def)
    then obtain h2 h3 s3 where 2: "gd_copy ver ndebug al al' copy h1 b (ard s) col ty p len ind = Some (h2, ret)"
      and 3: "getdata_reset_ard ver ndebug h2 b (ard s) col = Some h3" "get_stmt h3 b = Some s3"
      and h': "h' = (if SQL_SUCCEEDED ret then h3 else put_stmt h3 b (STMT_GD_RESET s3))(g := None)"
      using assms(1) 0 None by (auto simp: EsSQLGetData_def Let_def split: bind_splits)
    have f: "gd_frame g b h1 h2" using gd_frame_gd_copy [OF 2 gb st1 _ assms(6)] by simp
    obtain s2 where s2: "get_stmt h2 b = Some s2" "ard s2 = PTR g WHOLE" "i_ard s2 = i_ard s"
      using gd_frame_stmt [OF f st1] s0(3) by auto
    have r: "s3 = s2\<lparr>ard := ard s\<rparr>" "\<forall>c. c \<noteq> b \<and> c \<noteq> g \<longrightarrow> h3 c = h2 c"
      using getdata_reset_ard_effect [OF 3(1) s2(1,2) gb] 3(2) by simp_all
    have oth: "h3 c = h c" if "c \<noteq> b" "c \<noteq> g" for c
      using that r(2) f by (simp add: gd_frame_def h1_def s0(1) put_stmt_def)
    show ?thesis
      using h' oth 3(2) r(1) s2(3) gb assms(3)
      by (auto simp: get_stmt_def put_stmt_def STMT_GD_RESET_def split: if_splits)
  qed
qed


section \<open>What is copied\<close>

lemma bind_gd_desc:
  assumes "get_stmt h b = Some s" and "ard s = PTR g WHOLE" and "g \<noteq> b" and "h g = Some (DESC par (gd_desc junk col))"
    and "desc_dbc h (PTR g WHOLE) = Some dbc" and "types_loaded dbc" and "ver_ok ver"
    and "1 \<le> col" "col \<le> 32767" and "int (length junk) = ESODBC_GD_DESC_COUNT" and "al \<noteq> ALLOC_FAILS"
    and "0 \<le> len" and "p \<noteq> 0" and "concise_to_meta (to_i16 ty) DESC_TYPE_ARD \<noteq> METATYPE_UNKNOWN"
  shows "\<exists>d'. EsSQLBindCol ver al al' h b col ty p len ind =
      Some (put_stmt (h(g \<mapsto> DESC par d')) b (s\<lparr>sql2c_conversion := 0\<rparr>), SQL_SUCCESS) \<and>
    count d' = col \<and> length (recs d') = nat col \<and> recs d' ! (nat col - 1) = bound_rec DESC_TYPE_ARD ty len ind p"
proof -
  let ?d = "gd_desc junk col"
  have gd: "get_desc h (ard s) = Some ?d" "desc_type ?d = DESC_TYPE_ARD" using assms(2,4) by (simp_all add: gd_desc_def Let_def)
  have put: "put_desc h (PTR g WHOLE) x = h(g \<mapsto> DESC par x)" for x using assms(4) by simp
  have st: "get_stmt (h(g \<mapsto> DESC par x)) b = Some s" for x using assms(1,3) by (simp add: get_stmt_def)
  have c16: "to_i16 col = int (nat col - 1) + 1" "to_i16 col = col" using assms(8,9) by (simp_all add: to_i16_def)
  define e where "e = (if count ?d < col then grown ?d col else ?d)"
  have "has_rec e (nat col - 1) (init_rec DESC_TYPE_ARD) \<and> desc_type e = DESC_TYPE_ARD \<and> count e = col \<and>
    (if count ?d < col then EsSQLSetDescFieldW ver (Some dbc) al ALLOC_FAILS ?d NO_REC_NR SQL_DESC_COUNT col [] SQL_IS_SMALLINT
      else Some (?d, SQL_SUCCESS)) = Some (e, SQL_SUCCESS)"
  proof (cases "col < ESODBC_GD_DESC_COUNT")
    case True
    have "count ?d = col" "recs ?d = take (nat col - 1) junk @ [init_rec DESC_TYPE_ARD]"
      using True by (simp_all add: gd_desc_def Let_def)
    moreover have "length (take (nat col - 1) junk) = nat col - 1" using True assms(8,10) by simp
    ultimately show ?thesis
      using gd(2) assms(8) by (auto simp: e_def has_rec_def settable_def nth_append init_rec_def zero_rec_def)
  next
    case False
    then have d: "count ?d = 0" "?d = (new_desc DESC_TYPE_ARD SQL_DESC_ALLOC_USER)\<lparr>desc_type := DESC_TYPE_ARD\<rparr>"
      by (simp_all add: gd_desc_def Let_def)
    have ok: "desc_ok ver ?d" using new_desc_ok(2) [OF assms(7), of DESC_TYPE_ARD SQL_DESC_ALLOC_USER]
      by (simp add: d(2) desc_ok_def)
    have set: "settable (desc_type ?d)" using gd(2) by (simp add: settable_def)
    have lt: "count ?d < col" "col \<le> ESODBC_MAX_DESC_COUNT" using d(1) assms(8,9) by (simp_all add: ESODBC_MAX_DESC_COUNT_def)
    show ?thesis
      using grown_call(1,2) [OF ok set lt assms(11)] lt gd(2) by (simp add: e_def) (simp add: grown_def)
  qed
  then have e: "has_rec e (nat col - 1) (init_rec DESC_TYPE_ARD)" "desc_type e = DESC_TYPE_ARD" "count e = col"
    "(if count ?d < col then EsSQLSetDescFieldW ver (Some dbc) al ALLOC_FAILS ?d NO_REC_NR SQL_DESC_COUNT col [] SQL_IS_SMALLINT
      else Some (?d, SQL_SUCCESS)) = Some (e, SQL_SUCCESS)" by blast+
  let ?d' = "upd_rec e (nat col - 1) (bound_rec DESC_TYPE_ARD ty len ind p)"
  have fields: "set_fields (\<lambda>ret. ret = SQL_SUCCESS) ver (Some dbc) al e (to_i16 col) (bind_col_fields ty p len ind) =
      Some (?d', SQL_SUCCESS)"
    by (rule set_fields_binds(1) [OF e(1,2) _ c16(1) assms(6,14,13)]) simp_all
  have "EsSQLBindCol ver al al' h b col ty p len ind =
      Some (put_stmt (h(g \<mapsto> DESC par ?d')) b (s\<lparr>sql2c_conversion := 0\<rparr>), SQL_SUCCESS)"
    using assms(1,2,5,8,12) gd(1) e(4) fields put st [of ?d']
    by (cases "count ?d < col")
      (simp_all add: EsSQLBindCol_def Let_def SQL_SUCCEEDED_def del: put_desc.simps get_desc.simps)
  moreover have "nat col - 1 < length (recs e)" "length (recs e) = nat col"
    using e(1,3) by (auto simp: has_rec_def)
  ultimately show ?thesis using e(3) by (intro exI [of _ ?d']) (simp add: upd_rec_def)
qed

lemma convertability_one_column:
  assumes "get_stmt h b = Some s" and "get_desc h (ard s) = Some a" and "get_desc h (ird s) = Some i"
    and "1 \<le> col" "count a = col" "length (recs a) = nat col" and "col \<le> count i" "count i = int (length (recs i))"
    and "known_pair (recs a ! (nat col - 1)) (recs i ! (nat col - 1))"
    and "fst (conv_verdict (recs a ! (nat col - 1)) (recs i ! (nat col - 1))) = SQL_STATE_00000"
  shows "convertability_check ver h b (CONV_COLUMN (nat col)) = Some (h, SQL_SUCCESS, CONVERSION_SUPPORTED)"
proof -
  have n: "nat (min (count a) (count i)) - (nat col - 1) = 1" using assms(4,5,7) by simp
  define k where "k = nat col - 1"
  have k: "nat col = Suc k" using assms(4) by (simp add: k_def)
  have kp: "known_pair (recs a ! j) (recs i ! j)" if "k \<le> j" "j < k + 1" for j
    proof -
    have "j = k" using that by simp
    then show ?thesis using assms(9) by (simp add: k_def)
  qed
  have len: "k + 1 \<le> length (recs a)" "k + 1 \<le> length (recs i)" using assms(6-8) k by simp_all
  have "find (refused True (recs a) (recs i)) [k..<k + 1] = None"
    using assms(10) [folded k_def] by (simp add: refused_def)
  then have "convertability_loop True (recs a) (recs i) k 1 = Some (SQL_STATE_00000, CONVERSION_SUPPORTED)"
    using convertability_loop_eq [OF len kp, of True] by simp
  then show ?thesis using assms(1-3) n k_def by (simp add: convertability_check_def del: convertability_loop.simps One_nat_def)
qed


section \<open>Witnesses\<close>



end
