(* ===== verification/Param_Dispatch.thy ===== *)
theory Param_Dispatch
imports Param_Text Column_Info
begin

text \<open>
  The value of a parameter, whatever its types: \<open>convert_param_val\<close> and \<open>get_param_recs\<close> of driver/queries.c and
  \<open>c2sql_varchar\<close> of driver/convert.c, which lead to the conversions of \<open>Param_Number\<close>, \<open>Param_Text\<close> and
  \<open>Ivl_Param\<close>; and the contract of their two calls, the first for the room, the second with it, which the
  serialisation of a request rests on.
\<close>

section \<open>What the conversions are given\<close>

text \<open>
  The application's memory: \<open>pe_cell\<close> the lengths and indicators, \<open>pe_number\<close> and \<open>pe_interval\<close> what is at an
  address, as the bound C type has it. \<open>pe_c_concise\<close> is the member \<open>c_concise_type\<close> of a type, \<open>pe_ulong\<close>
  the connection's type of that name. The conversion of dates and times is an argument.
\<close>

record param_env =
  pe_cell :: "int \<Rightarrow> int"
  pe_number :: "int \<Rightarrow> num_data"
  pe_interval :: "int \<Rightarrow> ivl_data"
  pe_c_concise :: "esodbc_estype \<Rightarrow> int"
  pe_ulong :: "esodbc_estype option"
  pe_lib :: c_library
  pe_utf8 :: "wstr \<Rightarrow> cstr option"
  pe_stack :: "nat \<Rightarrow> sqlwchar"
  pe_alloc_ok :: bool
  pe_ndebug :: bool
  pe_ver :: wstr
  pe_date_time :: "esodbc_diag \<Rightarrow> esodbc_rec \<Rightarrow> int \<Rightarrow> num_data \<Rightarrow> int option \<Rightarrow> cstr option \<Rightarrow> conversion option"

definition SQL_NULL_DATA :: int where "SQL_NULL_DATA = - 1"

definition conversion_refused ::
    "wstr \<Rightarrow> esodbc_diag \<Rightarrow> esodbc_state \<Rightarrow> string \<Rightarrow> esodbc_rec \<Rightarrow> cstr option \<Rightarrow> conversion option" where
  "conversion_refused ver d st msg irec dest = do {
     (d, ret) \<leftarrow> RET_CONV_TEXT ver d st msg;
     Some \<lparr>cv_diag = d, cv_ret = ret, cv_irec = irec, cv_dest = dest, cv_len = None\<rparr> }"

section \<open>Strings\<close>

definition c2sql_varchar ::
    "param_env \<Rightarrow> esodbc_diag \<Rightarrow> esodbc_rec \<Rightarrow> esodbc_rec \<Rightarrow> int \<Rightarrow> num_data \<Rightarrow> int option \<Rightarrow> cstr option \<Rightarrow> conversion option" where
  "c2sql_varchar env d arec irec ctype data ind dest =
    (if ctype = SQL_C_CHAR then
       (case data of N_text (CStr c) \<Rightarrow> c2sql_cstr2qstr (pe_ndebug env) (pe_ver env) d irec c ind dest | _ \<Rightarrow> None)
     else if ctype = SQL_C_WCHAR then
       (case data of N_text (WStr w) \<Rightarrow> c2sql_wstr2qstr (pe_utf8 env) (pe_ndebug env) (pe_ver env) d irec w ind dest
        | _ \<Rightarrow> None)
     else if ctype = SQL_C_BINARY then
       conversion_refused (pe_ver env) d SQL_STATE_HYC00 ''conversion from SQL C BINARY not yet supported'' irec dest
     else if ctype \<in> SQL_C_signed_integers \<or> ctype = SQL_C_BIT \<or> ctype \<in> SQL_C_unsigned_integers \<or>
       ctype \<in> {SQL_C_FLOAT, SQL_C_DOUBLE, SQL_C_NUMERIC} then
       c2sql_number2qstr (pe_lib env) (pe_ndebug env) (pe_ver env) (pe_ulong env) d arec irec ctype data ind dest
     else if ctype \<in> {SQL_C_TYPE_DATE, SQL_C_TYPE_TIME, SQL_C_TYPE_TIMESTAMP} then
       pe_date_time env d irec ctype data ind dest
     else conversion_bug (pe_ver env) d ''bug converting parameter'' irec dest)"

section \<open>Any type\<close>

definition sql_interval_types :: "int set" where
  "sql_interval_types = {SQL_INTERVAL_YEAR, SQL_INTERVAL_MONTH, SQL_INTERVAL_DAY, SQL_INTERVAL_HOUR, SQL_INTERVAL_MINUTE,
     SQL_INTERVAL_SECOND, SQL_INTERVAL_YEAR_TO_MONTH, SQL_INTERVAL_DAY_TO_HOUR, SQL_INTERVAL_DAY_TO_MINUTE,
     SQL_INTERVAL_DAY_TO_SECOND, SQL_INTERVAL_HOUR_TO_MINUTE, SQL_INTERVAL_HOUR_TO_SECOND, SQL_INTERVAL_MINUTE_TO_SECOND}"

text \<open>The octet length of the parameter, if the application gives one.\<close>

definition param_octets :: "param_env \<Rightarrow> esodbc_desc \<Rightarrow> esodbc_rec \<Rightarrow> int option" where
  "param_octets env ad arec =
    (let p = deferred_address (pe_cell env) SQL_DESC_OCTET_LENGTH_PTR 0 arec ad in
     if p = 0 then None else Some (pe_cell env p))"

definition interval_conversion ::
    "param_env \<Rightarrow> esodbc_diag \<Rightarrow> esodbc_rec \<Rightarrow> int \<Rightarrow> ivl_data \<Rightarrow> int option \<Rightarrow> cstr option \<Rightarrow> conversion option" where
  "interval_conversion env d irec ctype data ind dest = do {
     (d, ret, dest, len) \<leftarrow> c2sql_interval (lib_iswspace (pe_lib env)) (pe_stack env) (pe_alloc_ok env) (pe_ndebug env)
       (pe_ver env) irec ctype data ind dest d;
     Some \<lparr>cv_diag = d, cv_ret = ret, cv_irec = irec, cv_dest = dest, cv_len = Some len\<rparr> }"

text \<open>The data pointer is null only for a record bound by its other pointers; what there is to convert is then read
  from address zero, in a release build.\<close>

definition convert_param_val ::
    "param_env \<Rightarrow> esodbc_desc \<Rightarrow> esodbc_diag \<Rightarrow> esodbc_rec \<Rightarrow> esodbc_rec \<Rightarrow> cstr option \<Rightarrow> conversion option" where
  "convert_param_val env ad d arec irec dest =
    (let ind_ptr = deferred_address (pe_cell env) SQL_DESC_INDICATOR_PTR 0 arec ad;
         data_ptr = deferred_address (pe_cell env) SQL_DESC_DATA_PTR 0 arec ad;
         ind = param_octets env ad arec in
     if ind_ptr \<noteq> 0 \<and> pe_cell env ind_ptr = SQL_NULL_DATA then c2sql_null d irec dest
     else do {
       c_assert (pe_ndebug env) (data_ptr \<noteq> 0);
       e \<leftarrow> es_type irec;
       let ty = data_type e;
       let ctype = get_rec_c_type arec (pe_c_concise env e);
       if ty = SQL_UNKNOWN_TYPE then c2sql_null d irec dest
       else if data_ptr = 0 then None
       else if ty = SQL_BIT \<or> ty = ESODBC_SQL_BOOLEAN then
         c2sql_boolean (pe_lib env) (pe_ver env) d irec ctype (pe_number env data_ptr) ind dest
       else if param_limits ty \<noteq> None then
         c2sql_number (pe_lib env) (pe_ndebug env) (pe_ver env) (pe_ulong env) d arec irec ctype (pe_number env data_ptr)
           ind (param_limits ty) dest
       else if ty = ES_WVARCHAR_SQL \<or> ty = ES_VARCHAR_SQL then
         c2sql_varchar env d arec irec ctype (pe_number env data_ptr) ind dest
       else if ty \<in> {SQL_TYPE_DATE, SQL_TYPE_TIME, SQL_TYPE_TIMESTAMP} then
         pe_date_time env d irec ctype (pe_number env data_ptr) ind dest
       else if ty \<in> sql_interval_types then
         interval_conversion env d irec ctype (pe_interval env data_ptr) ind dest
       else if ty = SQL_BINARY then
         conversion_refused (pe_ver env) d SQL_STATE_HYC00 ''conversion to SQL BINARY not yet supported'' irec dest
       else conversion_refused (pe_ver env) d SQL_STATE_HY000 ''parameter conversion bug'' irec dest })"

section \<open>The records of a parameter\<close>

definition get_param_recs ::
    "wstr \<Rightarrow> bool \<Rightarrow> esodbc_desc \<Rightarrow> esodbc_desc \<Rightarrow> esodbc_diag \<Rightarrow> int
     \<Rightarrow> (esodbc_diag \<times> (sqlreturn + esodbc_rec \<times> esodbc_rec)) option" where
  "get_param_recs ver ndebug ad ip d no =
    (let invalid = map_option (\<lambda>(d, ret). (d, Inl ret)) (RET_CONV_TEXT ver d SQL_STATE_07002 ''Invalid parameter configuration'')
     in do {
     a \<leftarrow> get_column ndebug ad no;
     (case a of
        None \<Rightarrow> invalid
      | Some arec \<Rightarrow>
          if \<not> REC_IS_BOUND arec then invalid
          else do {
            i \<leftarrow> get_column ndebug ip no;
            (case i of
               None \<Rightarrow> invalid
             | Some irec \<Rightarrow> if es_type irec = None then invalid else Some (d, Inr (arec, irec))) }) })"

section \<open>The contract of the two calls\<close>

text \<open>
  A conversion asked for the room of a value, and then given it, with more behind it. The text fits in the room;
  what is behind the text is not kept: a conversion may leave a terminator there.
\<close>

locale two_call_conversion =
  fixes conv :: "esodbc_diag \<Rightarrow> cstr option \<Rightarrow> conversion option" and irec :: esodbc_rec and room :: nat and out :: cstr
  assumes asked: "conv d None = converted d irec None room"
    and written: "room < length m \<Longrightarrow>
      \<exists>rest. conv d (Some m) = converted d irec (Some (out @ rest)) (length out) \<and> length out + length rest = length m"
    and fits: "length out \<le> room"
begin

lemma written_behind:
  assumes "m = front @ behind" and "room < length behind"
  shows "\<exists>rest. conv d (Some (drop (length front) m)) = converted d irec (Some (out @ rest)) (length out) \<and>
    length front + length out + length rest = length m \<and> rest \<noteq> []"
  using written [OF assms(2), of d] fits assms by fastforce

end

interpretation null_value: two_call_conversion "\<lambda>d. c2sql_null d irec" irec "length JSON_VAL_NULL" JSON_VAL_NULL
  by unfold_locales (auto simp: c2sql_null_def mem_write_list_fits)

lemma boolean_two_calls:
  assumes "ctype \<in> boolean_types" and "boolean_source lib irec ctype data ind = Some (Inr x)"
  shows "two_call_conversion (\<lambda>d. c2sql_boolean lib ver d irec ctype data ind) irec (length JSON_VAL_FALSE)
    (if double_to_bool x then JSON_VAL_TRUE else JSON_VAL_FALSE)"
proof -
  have "length JSON_VAL_TRUE = 4" "length JSON_VAL_FALSE = 5" by (simp_all add: JSON_VAL_TRUE_def JSON_VAL_FALSE_def)
  then show ?thesis
    using assms by unfold_locales (auto simp: c2sql_boolean_def mem_write_list_fits Let_def)
qed

text \<open>The digits of an integer, as the kind of its C type prints it.\<close>

definition integer_text :: "int \<Rightarrow> int \<Rightarrow> cstr" where
  "integer_text ctype k =
    (if ctype \<in> SQL_C_signed_integers then cstr_of (i64tot (of_int k) False) else cstr_of (ui64tot (of_int k) False))"

definition integer_room :: "int \<Rightarrow> nat" where
  "integer_room ctype = (if ctype \<in> SQL_C_signed_integers then 19 else 20)"

lemma integer_two_calls:
  assumes "ctype \<in> sql_integer_types" and "c_integer_value ctype k" and "lo \<le> k" "k \<le> hi" "lo < 0" "0 < hi"
    and "k \<le> 9223372036854775807" and "es_type irec = Some e" and "length (integer_text ctype k) \<le> integer_room ctype"
  shows "two_call_conversion (\<lambda>d. c2sql_number lib ndebug ver ulong d arec irec ctype (N_integer k) ind (Some (Fixed lo hi)))
    irec (integer_room ctype) (integer_text ctype k)"
proof (cases "ctype \<in> SQL_C_signed_integers")
  case True
  then have k: "sint (of_int k :: u64) = k" "0 < k \<Longrightarrow> uint (of_int k :: u64) = k"
    using assms(2) by (simp_all add: c_integer_value_def sint_of_int_64 uint_of_int_64)
  show ?thesis
    using True assms k
    by unfold_locales (auto simp: c2sql_number_integer sfixed_to_number_def integer_text_def integer_room_def written_text c_assert_def Let_def)
next
  case False
  then have u: "ctype \<in> SQL_C_unsigned_integers" using assms(1) by (simp add: sql_integer_types_def)
  have k: "uint (of_int k :: u64) = k" "0 \<le> k" using False assms(2) by (simp_all add: c_integer_value_def uint_of_int_64)
  have p: "irec_promote_bigint_type ulong (N_UBIGINT (of_int k)) irec = Some irec"
    using promoted_unsigned [OF assms(8) u k(1), of ulong] assms(7) by (simp add: promoted_def)
  show ?thesis
    using False assms k p
    by unfold_locales (auto simp: c2sql_number_integer ufixed_to_number_def integer_text_def integer_room_def written_text c_assert_def Let_def)
qed

lemma narrow_text_two_calls:
  assumes "0 < cnt" "cnt \<le> length data" "cnt < 2 ^ 60" and "get_param_size irec = Some sz" "int cnt \<le> sz" "sz < 2 ^ 63"
  shows "two_call_conversion (\<lambda>d. c2sql_cstr2qstr ndebug ver d irec data (Some (int cnt))) irec
    (json_escaped_len (take cnt data) + 2) (34 # json.encode (take cnt data) @ [34])"
proof
  fix d
  have c: "cnt < 2 ^ 63" "nat (to_u64 (int cnt)) = cnt" using assms(3) by (simp_all add: to_u64_def)
  have sz: "to_i64 sz = sz" using assms(5,6) by (simp add: to_i64_def)
  show "c2sql_cstr2qstr ndebug ver d irec data (Some (int cnt)) None = converted d irec None (json_escaped_len (take cnt data) + 2)"
    unfolding c2sql_cstr2qstr_def octet_len_given [OF c(1)] using assms c(2) sz by (simp add: json_escape_def)
next
  fix m :: cstr and d
  assume "json_escaped_len (take cnt data) + 2 < length m"
  then show "\<exists>rest. c2sql_cstr2qstr ndebug ver d irec data (Some (int cnt)) (Some m) =
      converted d irec (Some ((34 # json.encode (take cnt data) @ [34]) @ rest)) (length (34 # json.encode (take cnt data) @ [34])) \<and>
      length (34 # json.encode (take cnt data) @ [34]) + length rest = length m"
    using cstr2qstr_written [of cnt data cnt m ndebug ver d irec] assms(1-3)
    by (intro exI [of _ "drop (length (json.encode (take cnt data)) + 2) m"]) (simp add: json_escaped_len_eq)
next
  show "length (34 # json.encode (take cnt data) @ [34]) \<le> json_escaped_len (take cnt data) + 2"
    by (simp add: json_escaped_len_eq)
qed

lemma wide_text_two_calls:
  assumes "0 < cnt" "cnt \<le> length data" "cnt < 2 ^ 62" and "get_param_size irec = Some sz" "int cnt \<le> sz" "sz < 2 ^ 63"
    and "utf8 (take cnt data) = Some u8" "u8 \<noteq> []"
  shows "two_call_conversion (\<lambda>d. c2sql_wstr2qstr utf8 ndebug ver d irec data (Some (int (cnt * 2)))) irec
    (length u8 * JSON_ESC_SEQ_SZ + 2) (34 # json.encode u8 @ [34])"
proof
  have len: "length (replicate (length u8 * JSON_ESC_SEQ_SZ + 2) (0 :: sqlchar)) = length u8 * JSON_ESC_SEQ_SZ + 2" by simp
  fix d
  show "c2sql_wstr2qstr utf8 ndebug ver d irec data (Some (int (cnt * 2))) None =
      converted d irec None (length u8 * JSON_ESC_SEQ_SZ + 2)"
    using wstr2qstr_written [of cnt data irec sz utf8 u8, OF assms len, THEN conjunct1] by simp
next
  fix m :: cstr and d
  let ?n = "length u8 * JSON_ESC_SEQ_SZ + 2"
  assume "?n < length m"
  then have m: "m = take ?n m @ drop ?n m" "length (take ?n m) = ?n" by simp_all
  obtain rest where "c2sql_wstr2qstr utf8 ndebug ver d irec data (Some (int (cnt * 2))) (Some (take ?n m @ drop ?n m)) =
      converted d irec (Some (34 # json.encode u8 @ 34 # rest @ drop ?n m)) (length (json.encode u8) + 2)"
    "length (json.encode u8) + length rest + 2 = ?n"
    using wstr2qstr_written [of cnt data irec sz utf8 u8, OF assms m(2)] m(2) by metis
  then show "\<exists>rest. c2sql_wstr2qstr utf8 ndebug ver d irec data (Some (int (cnt * 2))) (Some m) =
      converted d irec (Some ((34 # json.encode u8 @ [34]) @ rest)) (length (34 # json.encode u8 @ [34])) \<and>
      length (34 # json.encode u8 @ [34]) + length rest = length m"
    using m by (intro exI [of _ "rest @ drop ?n m"]) simp
next
  show "length (34 # json.encode u8 @ [34]) \<le> length u8 * JSON_ESC_SEQ_SZ + 2"
    using json_escaped_len_bound [of u8] by (simp add: json_escaped_len_eq mult.commute)
qed

section \<open>The value sent for a parameter\<close>

text \<open>
  The room and the JSON of a value: null, a boolean, an integer for a parameter of an integer type that has place in the
  room its C type asks for, a text with its length. \<open>None\<close>: a value of another kind, one that is refused, and
  an unsigned integer that makes its parameter one of another type.
\<close>

definition text_value :: "param_env \<Rightarrow> esodbc_rec \<Rightarrow> int \<Rightarrow> num_data \<Rightarrow> int option \<Rightarrow> (nat \<times> cstr) option" where
  "text_value env irec ctype data ind = do {
     sz \<leftarrow> get_param_size irec;
     n \<leftarrow> ind;
     (case data of
        N_text (CStr c) \<Rightarrow>
          if ctype = SQL_C_CHAR \<and> 0 < n \<and> n \<le> int (length c) \<and> n < 2 ^ 60 \<and> n \<le> sz \<and> sz < 2 ^ 63
          then Some (json_escaped_len (take (nat n) c) + 2, 34 # json.encode (take (nat n) c) @ [34]) else None
      | N_text (WStr w) \<Rightarrow>
          if ctype = SQL_C_WCHAR \<and> even n \<and> 0 < n \<and> n div 2 \<le> int (length w) \<and> n < 2 ^ 62 \<and> n div 2 \<le> sz \<and> sz < 2 ^ 63
          then do {
            u8 \<leftarrow> pe_utf8 env (take (nat (n div 2)) w);
            if u8 = [] then None else Some (length u8 * JSON_ESC_SEQ_SZ + 2, 34 # json.encode u8 @ [34]) }
          else None
      | _ \<Rightarrow> None) }"

definition integer_value :: "int \<Rightarrow> int \<Rightarrow> num_data \<Rightarrow> (nat \<times> cstr) option" where
  "integer_value ty ctype data =
    (case data of
       N_integer k \<Rightarrow>
         (case param_limits ty of
            Some (Fixed lo hi) \<Rightarrow>
              if ctype \<in> sql_integer_types \<and> c_integer_value ctype k \<and> lo \<le> k \<and> k \<le> hi \<and> k \<le> 9223372036854775807 \<and>
                length (integer_text ctype k) \<le> integer_room ctype
              then Some (integer_room ctype, integer_text ctype k) else None
          | _ \<Rightarrow> None)
     | _ \<Rightarrow> None)"

definition param_value :: "param_env \<Rightarrow> esodbc_desc \<Rightarrow> esodbc_rec \<Rightarrow> esodbc_rec \<Rightarrow> (nat \<times> cstr) option" where
  "param_value env ad arec irec =
    (let ind_ptr = deferred_address (pe_cell env) SQL_DESC_INDICATOR_PTR 0 arec ad;
         data_ptr = deferred_address (pe_cell env) SQL_DESC_DATA_PTR 0 arec ad;
         ind = param_octets env ad arec in
     if ind_ptr \<noteq> 0 \<and> pe_cell env ind_ptr = SQL_NULL_DATA then Some (length JSON_VAL_NULL, JSON_VAL_NULL)
     else if data_ptr = 0 then None
     else do {
       e \<leftarrow> es_type irec;
       let ctype = get_rec_c_type arec (pe_c_concise env e);
       if data_type e = SQL_UNKNOWN_TYPE then Some (length JSON_VAL_NULL, JSON_VAL_NULL)
       else if data_type e = SQL_BIT \<or> data_type e = ESODBC_SQL_BOOLEAN then
         (if ctype \<notin> boolean_types then None
          else (case boolean_source (pe_lib env) irec ctype (pe_number env data_ptr) ind of
             Some (Inr x) \<Rightarrow> Some (length JSON_VAL_FALSE, if double_to_bool x then JSON_VAL_TRUE else JSON_VAL_FALSE)
           | _ \<Rightarrow> None))
       else if param_limits (data_type e) \<noteq> None then integer_value (data_type e) ctype (pe_number env data_ptr)
       else if data_type e = ES_WVARCHAR_SQL \<or> data_type e = ES_VARCHAR_SQL then
         text_value env irec ctype (pe_number env data_ptr) ind
       else None })"

lemma text_value_two_calls:
  assumes "text_value env irec ctype data ind = Some (rm, out)"
  shows "two_call_conversion (\<lambda>d. c2sql_varchar env d arec irec ctype data ind) irec rm out"
proof -
  obtain sz n x where n: "get_param_size irec = Some sz" "ind = Some n" "data = N_text x"
    using assms by (auto simp: text_value_def split: bind_splits num_data.splits)
  show ?thesis
  proof (cases x)
    case (CStr c)
    then have c: "ctype = SQL_C_CHAR" "0 < n" "n \<le> int (length c)" "n < 2 ^ 60" "n \<le> sz" "sz < 2 ^ 63"
        "rm = json_escaped_len (take (nat n) c) + 2" "out = 34 # json.encode (take (nat n) c) @ [34]"
      using assms n by (auto simp: text_value_def split: if_splits)
    have k: "0 < nat n" "nat n \<le> length c" "nat n < 2 ^ 60" "int (nat n) = n" using c(2-4) by (simp_all add: nat_less_iff)
    have "(\<lambda>d. c2sql_varchar env d arec irec ctype data ind) =
        (\<lambda>d. c2sql_cstr2qstr (pe_ndebug env) (pe_ver env) d irec c (Some (int (nat n))))"
      using n c(1) CStr k(4) by (intro ext) (simp add: c2sql_varchar_def)
    moreover have "int (nat n) \<le> sz" using c(5) k(4) by simp
    ultimately show ?thesis using narrow_text_two_calls [OF k(1-3) n(1) _ c(6)] c(7,8) by simp
  next
    case (WStr w)
    then obtain u8 where w: "ctype = SQL_C_WCHAR" "even n" "0 < n" "n div 2 \<le> int (length w)" "n < 2 ^ 62" "n div 2 \<le> sz"
        "sz < 2 ^ 63" "pe_utf8 env (take (nat (n div 2)) w) = Some u8" "u8 \<noteq> []"
        "rm = length u8 * JSON_ESC_SEQ_SZ + 2" "out = 34 # json.encode u8 @ [34]"
      using assms n by (auto simp: text_value_def split: if_splits bind_splits)
    define k where "k = nat (n div 2)"
    have k: "0 < k" "k \<le> length w" "k < 2 ^ 62" "int k = n div 2" "int (k * 2) = n" using w(2-5) by (auto simp: k_def nat_less_iff)
    have f: "(\<lambda>d. c2sql_varchar env d arec irec ctype data ind) =
        (\<lambda>d. c2sql_wstr2qstr (pe_utf8 env) (pe_ndebug env) (pe_ver env) d irec w (Some (int (k * 2))))"
      unfolding k(5) using n w(1) WStr by (intro ext) (simp add: c2sql_varchar_def)
    have "int k \<le> sz" "pe_utf8 env (take k w) = Some u8" using w(6,8) k(4) by (simp_all add: k_def)
    from wide_text_two_calls [of k w irec sz "pe_utf8 env" u8, OF k(1-3) n(1) this(1) w(7) this(2) w(9)] show ?thesis unfolding f w(10,11) .
  qed
qed

lemma integer_value_two_calls:
  assumes "integer_value ty ctype data = Some (rm, out)" and "es_type irec = Some e"
  shows "two_call_conversion (\<lambda>d. c2sql_number lib ndebug ver ulong d arec irec ctype data ind (param_limits ty)) irec rm out"
proof -
  obtain k lo hi where k: "data = N_integer k" "param_limits ty = Some (Fixed lo hi)"
    using assms(1) by (auto simp: integer_value_def split: num_data.splits option.splits limits.splits)
  then have "ctype \<in> sql_integer_types" "c_integer_value ctype k" "lo \<le> k" "k \<le> hi" "k \<le> 9223372036854775807"
      "length (integer_text ctype k) \<le> integer_room ctype" "rm = integer_room ctype" "out = integer_text ctype k"
    using assms(1) by (auto simp: integer_value_def split: if_splits)
  then show ?thesis using integer_two_calls k assms(2) fixed_limits [OF k(2)] by simp
qed

lemma param_two_calls:
  assumes "param_value env ad arec irec = Some (rm, out)"
  shows "two_call_conversion (\<lambda>d. convert_param_val env ad d arec irec) irec rm out"
proof -
  let ?ind_ptr = "deferred_address (pe_cell env) SQL_DESC_INDICATOR_PTR 0 arec ad"
  let ?data_ptr = "deferred_address (pe_cell env) SQL_DESC_DATA_PTR 0 arec ad"
  show ?thesis
  proof (cases "?ind_ptr \<noteq> 0 \<and> pe_cell env ?ind_ptr = SQL_NULL_DATA")
    case True
    then have "(\<lambda>d. convert_param_val env ad d arec irec) = (\<lambda>d. c2sql_null d irec)"
      by (intro ext) (simp add: convert_param_val_def)
    then show ?thesis using True assms null_value.two_call_conversion_axioms by (simp add: param_value_def)
  next
    case False
    then obtain e where e: "es_type irec = Some e" "?data_ptr \<noteq> 0"
      using assms by (auto simp: param_value_def Let_def split: if_splits bind_splits)
    let ?ty = "data_type e" and ?ctype = "get_rec_c_type arec (pe_c_concise env e)"
    let ?data = "pe_number env ?data_ptr" and ?ind = "param_octets env ad arec"
    consider "?ty = SQL_UNKNOWN_TYPE" | "?ty \<noteq> SQL_UNKNOWN_TYPE" "?ty = SQL_BIT \<or> ?ty = ESODBC_SQL_BOOLEAN"
      | "?ty \<noteq> SQL_UNKNOWN_TYPE" "\<not> (?ty = SQL_BIT \<or> ?ty = ESODBC_SQL_BOOLEAN)" "param_limits ?ty \<noteq> None"
      | "?ty \<noteq> SQL_UNKNOWN_TYPE" "\<not> (?ty = SQL_BIT \<or> ?ty = ESODBC_SQL_BOOLEAN)" "param_limits ?ty = None"
          "?ty = ES_WVARCHAR_SQL \<or> ?ty = ES_VARCHAR_SQL"
      using assms False e by (auto simp: param_value_def Let_def split: if_splits)
    then show ?thesis
    proof cases
      case 1
      then have "(\<lambda>d. convert_param_val env ad d arec irec) = (\<lambda>d. c2sql_null d irec)"
        using False e by (intro ext) (simp add: convert_param_val_def c_assert_def Let_def)
      moreover have "rm = length JSON_VAL_NULL" "out = JSON_VAL_NULL"
        using 1 False e assms by (auto simp: param_value_def Let_def)
      ultimately show ?thesis using null_value.two_call_conversion_axioms by simp
    next
      case 2
      then obtain x where x: "?ctype \<in> boolean_types" "boolean_source (pe_lib env) irec ?ctype ?data ?ind = Some (Inr x)"
          "rm = length JSON_VAL_FALSE" "out = (if double_to_bool x then JSON_VAL_TRUE else JSON_VAL_FALSE)"
        using assms False e by (auto simp: param_value_def Let_def split: if_splits option.splits sum.splits)
      have "(\<lambda>d. convert_param_val env ad d arec irec) =
          (\<lambda>d. c2sql_boolean (pe_lib env) (pe_ver env) d irec ?ctype ?data ?ind)"
        using False e 2 by (intro ext) (auto simp: convert_param_val_def c_assert_def Let_def)
      then show ?thesis using boolean_two_calls [OF x(1,2)] x(3,4) by simp
    next
      case 3
      then have "integer_value ?ty ?ctype ?data = Some (rm, out)" using assms False e by (simp add: param_value_def Let_def)
      moreover have "(\<lambda>d. convert_param_val env ad d arec irec) = (\<lambda>d. c2sql_number (pe_lib env) (pe_ndebug env)
          (pe_ver env) (pe_ulong env) d arec irec ?ctype ?data ?ind (param_limits ?ty))"
        using False e 3 by (intro ext) (auto simp: convert_param_val_def c_assert_def Let_def)
      ultimately show ?thesis using integer_value_two_calls e(1) by simp
    next
      case 4
      then have "text_value env irec ?ctype ?data ?ind = Some (rm, out)" using assms False e by (simp add: param_value_def Let_def)
      moreover have "(\<lambda>d. convert_param_val env ad d arec irec) = (\<lambda>d. c2sql_varchar env d arec irec ?ctype ?data ?ind)"
        using False e 4 by (intro ext) (auto simp: convert_param_val_def c_assert_def Let_def)
      ultimately show ?thesis using text_value_two_calls by simp
    qed
  qed
qed

end
