(* ===== verification/Request_Json.thy ===== *)
theory Request_Json
imports Param_Dispatch
begin

text \<open>
  A query as the JSON object of a request (driver/queries.c): \<open>serialize_params_json\<close>, \<open>statement_len_json\<close> and
  \<open>serialize_to_json\<close>, with \<open>print_tz_param\<close>. A first pass adds up the octets the object takes, at most; the second
  writes it in a buffer of as many, and its parts are written without a look at the room. A write position
  is a pair of the memory, from the start of the buffer on, and the offset; with no memory the offset is
  counted only.
\<close>

section \<open>The members a request is made of\<close>

text \<open>Those of the connection, then the variables \<open>tz_param\<close> and \<open>version\<close>; a string's count is its length. \<open>rq_lgst_name\<close>
  is the type with the longest name.\<close>

record request_env =
  rq_lgst_name :: "esodbc_estype option"
  rq_fetch :: cstr
  rq_mfield_lenient :: bool
  rq_idx_inc_frozen :: bool
  rq_apply_tz :: bool
  rq_catalog :: cstr
  rq_tz_param :: cstr
  rq_version :: cstr

text \<open>\<open>type_name_c\<close>: the name of a type as narrow text.\<close>

definition type_name_c :: "esodbc_estype \<Rightarrow> cstr" where
  "type_name_c e = map ucast (et_type_name e)"

definition JSON_KEY_QUERY :: cstr where "JSON_KEY_QUERY = clit (CHR 0x22 # ''query'' @ CHR 0x22 # '': '')"
definition JSON_KEY_CURSOR :: cstr where "JSON_KEY_CURSOR = clit (CHR 0x22 # ''cursor'' @ CHR 0x22 # '': '')"
definition json_nth_key :: "string \<Rightarrow> cstr" where
  "json_nth_key key = clit ('', '' @ CHR 0x22 # key @ CHR 0x22 # '': '')"
definition json_quoted :: "string \<Rightarrow> cstr" where
  "json_quoted s = clit (CHR 0x22 # s @ [CHR 0x22])"
definition JSON_KEY_PARAMS :: cstr where "JSON_KEY_PARAMS = json_nth_key ''params''"
definition JSON_KEY_FETCH :: cstr where "JSON_KEY_FETCH = json_nth_key ''fetch_size''"
definition JSON_KEY_VAL_MODE :: cstr where "JSON_KEY_VAL_MODE = json_nth_key ''mode'' @ json_quoted ''ODBC''"
definition JSON_KEY_CLT_ID :: cstr where "JSON_KEY_CLT_ID = json_nth_key ''client_id'' @ json_quoted ''odbc64''"
definition JSON_KEY_VERSION :: cstr where "JSON_KEY_VERSION = json_nth_key ''version''"
definition JSON_KEY_MULTIVAL :: cstr where "JSON_KEY_MULTIVAL = json_nth_key ''field_multi_value_leniency''"
definition JSON_KEY_IDX_FROZEN :: cstr where "JSON_KEY_IDX_FROZEN = json_nth_key ''index_include_frozen''"
definition JSON_KEY_TIMEZONE :: cstr where "JSON_KEY_TIMEZONE = json_nth_key ''time_zone''"
definition JSON_KEY_CATALOG :: cstr where "JSON_KEY_CATALOG = json_nth_key ''catalog''"
definition JSON_KEY_BINARY_FMT :: cstr where "JSON_KEY_BINARY_FMT = json_nth_key ''binary_format''"
definition JSON_VAL_TIMEZONE_Z :: cstr where "JSON_VAL_TIMEZONE_Z = json_quoted ''Z''"

section \<open>Writing at a position\<close>

type_synonym wpos = "cstr option \<times> nat"

definition put :: "cstr \<Rightarrow> wpos \<Rightarrow> wpos option" where
  "put t w = (case fst w of
     None \<Rightarrow> Some (None, snd w + length t)
   | Some m \<Rightarrow> map_option (\<lambda>m. (Some m, snd w + length t)) (mem_write_list m (snd w) t))"

text \<open>\<open>json_escape\<close> of a string object to the position, with the room given. A count of 0 lets it look for a terminator,
  which follows.\<close>

definition put_escaped :: "cstr \<Rightarrow> nat \<Rightarrow> wpos \<Rightarrow> wpos option" where
  "put_escaped src room_left w = (case fst w of
     None \<Rightarrow> map_option (\<lambda>(_, l). (None, snd w + l)) (json_escape (src @ [0]) 0 (length src) None room_left)
   | Some m \<Rightarrow> map_option (\<lambda>(mem, l). (Some (take (snd w) m @ drop (length src + 1) mem), snd w + l))
       (json_escape (src @ 0 # drop (snd w) m) 0 (length src) (Some (length src + 1)) room_left))"

section \<open>Parameters\<close>

definition j_type :: cstr where "j_type = clit (''{'' @ CHR 0x22 # ''type'' @ CHR 0x22 # '': '' @ [CHR 0x22])"
definition j_val :: cstr where "j_val = clit (CHR 0x22 # '', '' @ CHR 0x22 # ''value'' @ CHR 0x22 # '': '')"

text \<open>One turn of the loop; the records of the IPD are those the conversions leave.\<close>

definition serialize_param ::
    "param_env \<Rightarrow> request_env \<Rightarrow> esodbc_desc \<Rightarrow> esodbc_desc \<Rightarrow> esodbc_diag \<Rightarrow> nat \<Rightarrow> wpos
     \<Rightarrow> (esodbc_diag \<times> esodbc_desc \<times> wpos \<times> sqlreturn) option" where
  "serialize_param env rq ad ip d i w = do {
     (d, r) \<leftarrow> get_param_recs (pe_ver env) (pe_ndebug env) ad ip d (int i + 1);
     (case r of
        Inl ret \<Rightarrow> Some (d, ip, w, ret)
      | Inr (arec, irec) \<Rightarrow> do {
          w \<leftarrow> put (if i \<noteq> 0 then clit '', '' else []) w;
          w \<leftarrow> put j_type w;
          e \<leftarrow> (if fst w \<noteq> None then es_type irec else rq_lgst_name rq);
          w \<leftarrow> put_escaped (type_name_c e) 18446744073709551615 w;
          w \<leftarrow> put j_val w;
          c \<leftarrow> convert_param_val env ad d arec irec (map_option (drop (snd w)) (fst w));
          let ip = ip\<lparr>recs := (recs ip)[i := cv_irec c]\<rparr>;
          let m = (case fst w of None \<Rightarrow> None | Some m \<Rightarrow> map_option (\<lambda>out. take (snd w) m @ out) (cv_dest c));
          if SQL_SUCCEEDED (cv_ret c) then do {
            l \<leftarrow> cv_len c;
            w \<leftarrow> put (clit ''}'') (m, snd w + l);
            Some (cv_diag c, ip, w, SQL_SUCCESS) }
          else Some (cv_diag c, ip, (m, snd w), cv_ret c) }) }"

fun serialize_params_loop ::
    "param_env \<Rightarrow> request_env \<Rightarrow> esodbc_desc \<Rightarrow> esodbc_desc \<Rightarrow> esodbc_diag \<Rightarrow> nat \<Rightarrow> nat \<Rightarrow> wpos
     \<Rightarrow> (esodbc_diag \<times> esodbc_desc \<times> wpos \<times> sqlreturn) option" where
  "serialize_params_loop env rq ad ip d i 0 w = Some (d, ip, w, SQL_SUCCESS)"
| "serialize_params_loop env rq ad ip d i (Suc n) w = do {
     (d, ip, w, ret) \<leftarrow> serialize_param env rq ad ip d i w;
     if SQL_SUCCEEDED ret then serialize_params_loop env rq ad ip d (Suc i) n w
     else Some (d, ip, w, ret) }"

text \<open>The array is written from the given position on.\<close>

definition serialize_params_json ::
    "param_env \<Rightarrow> request_env \<Rightarrow> heap \<Rightarrow> nat \<Rightarrow> wpos \<Rightarrow> (heap \<times> wpos \<times> sqlreturn) option" where
  "serialize_params_json env rq h b w = do {
     s \<leftarrow> get_stmt h b;
     ad \<leftarrow> get_desc h (apd s);
     ip \<leftarrow> get_desc h (ipd s);
     w \<leftarrow> put (clit ''['') w;
     (d, ip, w, ret) \<leftarrow> serialize_params_loop env rq ad ip (stmt_diag s) 0 (nat (count_bound ad)) w;
     let h = put_desc h (ipd s) ip;
     s \<leftarrow> get_stmt h b;
     let h = put_stmt h b (s\<lparr>stmt_diag := d\<rparr>);
     if SQL_SUCCEEDED ret then do {
       w \<leftarrow> put (clit '']'') w;
       Some (h, w, SQL_SUCCESS) }
     else Some (h, w, ret) }"

section \<open>The length of the object\<close>

text \<open>\<open>curs\<close>: the cursor, wide when the answer was JSON; it is empty when there is none.\<close>

definition statement_len_json ::
    "param_env \<Rightarrow> request_env \<Rightarrow> xstr \<Rightarrow> heap \<Rightarrow> nat \<Rightarrow> (heap \<times> (sqlreturn + nat)) option" where
  "statement_len_json env rq curs h b = do {
     s \<leftarrow> get_stmt h b;
     let curslen = length (units curs);
     let tail = length JSON_KEY_VAL_MODE + length JSON_KEY_CLT_ID + length JSON_KEY_BINARY_FMT + length (clit ''false'') + 1;
     if curslen \<noteq> 0 then Some (h, Inr (1 + length JSON_KEY_CURSOR + curslen + 2 + tail))
     else do {
       sql \<leftarrow> u8sql s;
       (_, l) \<leftarrow> json_escape (sql @ [0]) 0 (length sql) None 0;
       let len = 1 + length JSON_KEY_QUERY + l + 2;
       ad \<leftarrow> get_desc h (apd s);
       (h, w, ret) \<leftarrow> (if count_bound ad \<noteq> 0 then serialize_params_json env rq h b (None, 0)
         else Some (h, (None, 0), SQL_SUCCESS));
       if \<not> SQL_SUCCEEDED ret then Some (h, Inl ret)
       else Some (h, Inr (len + (if count_bound ad \<noteq> 0 then length JSON_KEY_PARAMS + snd w else 0) +
         (if rq_fetch rq \<noteq> [] then length JSON_KEY_FETCH + length (rq_fetch rq) else 0) +
         length JSON_KEY_MULTIVAL + 5 + length JSON_KEY_IDX_FROZEN + 5 +
         length JSON_KEY_TIMEZONE + length (rq_tz_param rq) +
         (if rq_catalog rq \<noteq> [] then length JSON_KEY_CATALOG + length (rq_catalog rq) + 2 else 0) +
         length JSON_KEY_VERSION + length (rq_version rq) + 2 + tail)) } }"

section \<open>The object\<close>

definition copy_bool_val :: "bool \<Rightarrow> wpos \<Rightarrow> wpos option" where
  "copy_bool_val b w = (if b then put (clit ''true'') w else put (clit ''false'') w)"

text \<open>A wide cursor is narrowed at its place, with a terminator; a character that is not ASCII ends the call.\<close>

definition put_cursor ::
    "wstr \<Rightarrow> bool \<Rightarrow> xstr \<Rightarrow> heap \<Rightarrow> nat \<Rightarrow> wpos \<Rightarrow> (heap \<times> wpos \<times> sqlreturn) option" where
  "put_cursor ver ndebug curs h b w = do {
     w \<leftarrow> put JSON_KEY_CURSOR w;
     w \<leftarrow> put [34] w;
     (case curs of
        WStr c \<Rightarrow> do {
          m \<leftarrow> fst w;
          (out, n) \<leftarrow> ascii_w2c (c @ [0]) (drop (snd w) m) (length c);
          let m = take (snd w) m @ out;
          if n \<le> 0 then map_option (\<lambda>(h, ret). (h, (Some m, snd w), ret)) (RET_STMT ver h b SQL_STATE_24000)
          else do {
            (_, l) \<leftarrow> json_escape m (snd w) (length c) None 0;
            c_assert ndebug (length c = l);
            w \<leftarrow> put [34] (Some m, snd w + length c);
            Some (h, w, SQL_SUCCESS) } }
      | CStr c \<Rightarrow> do {
          w \<leftarrow> put c w;
          w \<leftarrow> put [34] w;
          Some (h, w, SQL_SUCCESS) }) }"

text \<open>What follows the parameters in a query.\<close>

definition put_options :: "request_env \<Rightarrow> wpos \<Rightarrow> wpos option" where
  "put_options rq w = do {
     w \<leftarrow> (if rq_fetch rq \<noteq> [] then do {
         w \<leftarrow> put JSON_KEY_FETCH w;
         put (rq_fetch rq) w } else Some w);
     w \<leftarrow> put JSON_KEY_MULTIVAL w;
     w \<leftarrow> copy_bool_val (rq_mfield_lenient rq) w;
     w \<leftarrow> put JSON_KEY_IDX_FROZEN w;
     w \<leftarrow> copy_bool_val (rq_idx_inc_frozen rq) w;
     w \<leftarrow> put JSON_KEY_TIMEZONE w;
     w \<leftarrow> put (if rq_apply_tz rq then rq_tz_param rq else JSON_VAL_TIMEZONE_Z) w;
     w \<leftarrow> (if rq_catalog rq \<noteq> [] then do {
         w \<leftarrow> put JSON_KEY_CATALOG w;
         w \<leftarrow> put [34] w;
         w \<leftarrow> put (rq_catalog rq) w;
         put [34] w } else Some w);
     w \<leftarrow> put JSON_KEY_VERSION w;
     w \<leftarrow> put [34] w;
     w \<leftarrow> put (rq_version rq) w;
     put [34] w }"

definition put_query ::
    "param_env \<Rightarrow> request_env \<Rightarrow> nat \<Rightarrow> heap \<Rightarrow> nat \<Rightarrow> wpos \<Rightarrow> (heap \<times> wpos \<times> sqlreturn) option" where
  "put_query env rq cnt h b w = do {
     s \<leftarrow> get_stmt h b;
     sql \<leftarrow> u8sql s;
     w \<leftarrow> put JSON_KEY_QUERY w;
     w \<leftarrow> put [34] w;
     w \<leftarrow> put_escaped sql (cnt - snd w) w;
     w \<leftarrow> put [34] w;
     ad \<leftarrow> get_desc h (apd s);
     (h, w, ret) \<leftarrow> (if count_bound ad \<noteq> 0 then do {
         w \<leftarrow> put JSON_KEY_PARAMS w;
         serialize_params_json env rq h b w }
       else Some (h, w, SQL_SUCCESS));
     if \<not> SQL_SUCCEEDED ret then Some (h, w, ret)
     else do {
       w \<leftarrow> put_options rq w;
       Some (h, w, SQL_SUCCESS) } }"

text \<open>The answer: the memory of the buffer and the octets written, the new count.\<close>

definition serialize_to_json ::
    "param_env \<Rightarrow> request_env \<Rightarrow> xstr \<Rightarrow> heap \<Rightarrow> nat \<Rightarrow> cstr \<Rightarrow> (heap \<times> cstr \<times> nat \<times> sqlreturn) option" where
  "serialize_to_json env rq curs h b body = do {
     w \<leftarrow> put (clit ''{'') (Some body, 0);
     (h, w, ret) \<leftarrow> (if units curs \<noteq> [] then put_cursor (pe_ver env) (pe_ndebug env) curs h b w
       else put_query env rq (length body) h b w);
     if \<not> SQL_SUCCEEDED ret then do {
       m \<leftarrow> fst w;
       Some (h, m, length body, ret) }
     else do {
       w \<leftarrow> put JSON_KEY_VAL_MODE w;
       w \<leftarrow> put JSON_KEY_CLT_ID w;
       w \<leftarrow> put JSON_KEY_BINARY_FMT w;
       w \<leftarrow> copy_bool_val False w;
       w \<leftarrow> put (clit ''}'') w;
       c_assert (pe_ndebug env) (snd w \<le> length body);
       m \<leftarrow> fst w;
       Some (h, m, snd w, SQL_SUCCESS) } }"

section \<open>Runs of writes\<close>

lemma mem_write_list_append:
  "mem_write_list m i (xs @ ys) = Option.bind (mem_write_list m i xs) (\<lambda>m. mem_write_list m (i + length xs) ys)"
  by (induction xs arbitrary: m i) (auto split: option.splits)

lemma put_put: "Option.bind (put xs w) (put ys) = put (xs @ ys) w"
  by (cases "fst w"; cases "mem_write_list (the (fst w)) (snd w) xs") (simp_all add: put_def mem_write_list_append ac_simps)

lemma put_then_put: "Option.bind (put xs w) (\<lambda>w. Option.bind (put ys w) k) = Option.bind (put (xs @ ys) w) k"
  by (simp add: put_put [symmetric])

lemma put_counts [simp]: "put t (None, k) = Some (None, k + length t)"
  by (simp add: put_def)

lemma put_behind [simp]:
  "length u \<le> length rest \<Longrightarrow> put u (Some (t @ rest), length t) = Some (Some ((t @ u) @ drop (length u) rest), length (t @ u))"
  by (simp add: put_def mem_write_list_fits)

lemma escape_counts: "put_escaped src r (None, k) = Some (None, k + length (json.encode src))"
  by (cases "src = []") (simp_all add: put_escaped_def json_escape_def json_escaped_len_eq)

lemma escape_behind:
  assumes "length (json.encode src) \<le> length rest" and "length (json.encode src) \<le> r"
  shows "put_escaped src r (Some (t @ rest), length t) =
    Some (Some ((t @ json.encode src) @ drop (length (json.encode src)) rest), length (t @ json.encode src))"
proof -
  let ?e = "json.encode src" and ?m = "src @ 0 # rest"
  have loop: "json_escape_loop ?m 0 (length src) (length src + 1) r 0 =
      Some (take (length src + 1 + 0) ?m @ ?e @ drop (length src + 1 + 0 + length ?e) ?m, 0 + length ?e)"
    using assms by (intro json_loop_whole) simp_all
  have "json_escape ?m 0 (length src) (Some (length src + 1)) r = json_escape_loop ?m 0 (length src) (length src + 1) r 0"
    by (cases src) (simp_all add: json_escape_def)
  then show ?thesis using loop by (simp add: put_escaped_def)
qed

section \<open>What is to be sent\<close>

text \<open>The object of a parameter, and the room it is given: the longest name of a type in place of its own.\<close>

definition param_object :: "nat \<Rightarrow> cstr \<Rightarrow> cstr \<Rightarrow> cstr" where
  "param_object i name val = (if i \<noteq> 0 then clit '', '' else []) @ j_type @ json.encode name @ j_val @ val @ clit ''}''"

definition param_sent :: "param_env \<Rightarrow> esodbc_desc \<Rightarrow> esodbc_desc \<Rightarrow> nat \<Rightarrow> cstr" where
  "param_sent env ad ip i = param_object i (type_name_c (the (es_type (recs ip ! i))))
     (snd (the (param_value env ad (recs ad ! i) (recs ip ! i))))"

definition param_need :: "param_env \<Rightarrow> esodbc_estype \<Rightarrow> esodbc_desc \<Rightarrow> esodbc_desc \<Rightarrow> nat \<Rightarrow> nat" where
  "param_need env lg ad ip i = length (param_object i (type_name_c lg) []) +
     fst (the (param_value env ad (recs ad ! i) (recs ip ! i)))"

text \<open>A parameter that is bound, of a type, with a value that can be sent.\<close>

definition param_ready :: "param_env \<Rightarrow> esodbc_estype \<Rightarrow> esodbc_desc \<Rightarrow> esodbc_desc \<Rightarrow> nat \<Rightarrow> bool" where
  "param_ready env lg ad ip i \<longleftrightarrow> i < length (recs ad) \<and> i < length (recs ip) \<and> REC_IS_BOUND (recs ad ! i) \<and>
     param_value env ad (recs ad ! i) (recs ip ! i) \<noteq> None \<and>
     (case es_type (recs ip ! i) of None \<Rightarrow> False
      | Some e \<Rightarrow> length (json.encode (type_name_c e)) \<le> length (json.encode (type_name_c lg)) \<and>
          length (json.encode (type_name_c e)) \<le> 18446744073709551615)"

lemma param_ready_recs:
  assumes "param_ready env lg ad ip i" and "desc_ok ver ad" "desc_ok ver ip"
  obtains e rm out where "get_param_recs v nd ad ip d (int i + 1) = Some (d, Inr (recs ad ! i, recs ip ! i))"
    "es_type (recs ip ! i) = Some e" "param_value env ad (recs ad ! i) (recs ip ! i) = Some (rm, out)"
    "two_call_conversion (\<lambda>d. convert_param_val env ad d (recs ad ! i) (recs ip ! i)) (recs ip ! i) rm out"
    "length (json.encode (type_name_c e)) \<le> length (json.encode (type_name_c lg))"
    "length (json.encode (type_name_c e)) \<le> 18446744073709551615"
proof -
  obtain e where e: "es_type (recs ip ! i) = Some e" "length (json.encode (type_name_c e)) \<le> length (json.encode (type_name_c lg))"
    "length (json.encode (type_name_c e)) \<le> 18446744073709551615"
    using assms(1) by (auto simp: param_ready_def split: option.splits)
  obtain rm out where v: "param_value env ad (recs ad ! i) (recs ip ! i) = Some (rm, out)"
    using assms(1) by (auto simp: param_ready_def)
  have "get_column nd ad (int i + 1) = Some (Some (recs ad ! i))" "get_column nd ip (int i + 1) = Some (Some (recs ip ! i))"
    using assms get_column_at desc_okD(1,2) by (simp_all add: param_ready_def)
  then have "get_param_recs v nd ad ip d (int i + 1) = Some (d, Inr (recs ad ! i, recs ip ! i))"
    using assms(1) e(1) by (simp add: get_param_recs_def param_ready_def)
  then show thesis using that e v param_two_calls [OF v] by blast
qed

lemma param_asked:
  assumes "param_ready env lg ad ip i" and "desc_ok ver ad" "desc_ok ver ip" and "rq_lgst_name rq = Some lg"
  shows "serialize_param env rq ad ip d i (None, k) = Some (d, ip, (None, k + param_need env lg ad ip i), SQL_SUCCESS)"
proof -
  obtain e rm out where r: "get_param_recs (pe_ver env) (pe_ndebug env) ad ip d (int i + 1) = Some (d, Inr (recs ad ! i, recs ip ! i))"
    "es_type (recs ip ! i) = Some e" "param_value env ad (recs ad ! i) (recs ip ! i) = Some (rm, out)"
    "two_call_conversion (\<lambda>d. convert_param_val env ad d (recs ad ! i) (recs ip ! i)) (recs ip ! i) rm out"
    using param_ready_recs [OF assms(1-3)] by metis
  have same: "ip\<lparr>recs := (recs ip)[i := recs ip ! i]\<rparr> = ip" by simp
  show ?thesis
    using r(1,3) assms(4) two_call_conversion.asked [OF r(4), of d] same
    by (simp add: serialize_param_def escape_counts converted_def SQL_SUCCEEDED_def param_need_def param_object_def Let_def)
qed

lemma param_written:
  assumes "param_ready env lg ad ip i" and "desc_ok ver ad" "desc_ok ver ip" and "param_need env lg ad ip i < length rest"
  shows "\<exists>rest'. serialize_param env rq ad ip d i (Some (t @ rest), length t) =
      Some (d, ip, (Some ((t @ param_sent env ad ip i) @ rest'), length (t @ param_sent env ad ip i)), SQL_SUCCESS) \<and>
    length (param_sent env ad ip i) + length rest' = length rest \<and> length (param_sent env ad ip i) \<le> param_need env lg ad ip i"
proof -
  obtain e rm out where r: "get_param_recs (pe_ver env) (pe_ndebug env) ad ip d (int i + 1) = Some (d, Inr (recs ad ! i, recs ip ! i))"
    "es_type (recs ip ! i) = Some e" "param_value env ad (recs ad ! i) (recs ip ! i) = Some (rm, out)"
    "two_call_conversion (\<lambda>d. convert_param_val env ad d (recs ad ! i) (recs ip ! i)) (recs ip ! i) rm out"
    and name: "length (json.encode (type_name_c e)) \<le> length (json.encode (type_name_c lg))"
    "length (json.encode (type_name_c e)) \<le> 18446744073709551615"
    using param_ready_recs [OF assms(1-3)] by metis
  define a where "a = (if i \<noteq> 0 then clit '', '' else []) @ j_type"
  define n where "n = json.encode (type_name_c e)"
  define pre where "pre = t @ a @ n @ j_val"
  define behind where "behind = drop (length a + length n + length j_val) rest"
  have out: "length out \<le> rm" using two_call_conversion.fits [OF r(4)] .
  have need: "length a + length n + length j_val + rm + 1 < length rest"
    using assms(4) name(1) r(3) by (simp add: param_need_def param_object_def a_def n_def)
  have w: "Option.bind (put (if i \<noteq> 0 then clit '', '' else []) (Some (t @ rest), length t)) (\<lambda>w. Option.bind (put j_type w) k) =
      k (Some ((t @ a) @ drop (length a) rest), length (t @ a))" for k :: "wpos \<Rightarrow> 'z option"
    using need unfolding put_then_put a_def by simp
  have es: "put_escaped (type_name_c e) 18446744073709551615 (Some ((t @ a) @ drop (length a) rest), length (t @ a)) =
      Some (Some (((t @ a) @ n) @ drop (length n) (drop (length a) rest)), length ((t @ a) @ n))"
    unfolding n_def using need name(2) by (intro escape_behind) (simp_all add: n_def)
  have jv: "put j_val (Some (((t @ a) @ n) @ drop (length n) (drop (length a) rest)), length ((t @ a) @ n)) =
      Some (Some (pre @ behind), length pre)"
    using need by (subst put_behind) (simp_all add: pre_def behind_def add.commute add.left_commute)
  have behind: "rm < length behind" "length behind = length rest - (length a + length n + length j_val)" using need by (simp_all add: behind_def)
  obtain m where m: "convert_param_val env ad d (recs ad ! i) (recs ip ! i) (Some behind) = converted d (recs ip ! i) (Some (out @ m)) (length out)"
    "length out + length m = length behind"
    using two_call_conversion.written [OF r(4) behind(1), of d] by blast
  have "1 \<le> length m" using m(2) behind out by simp
  then have close: "put (clit ''}'') (Some ((pre @ out) @ m), length (pre @ out)) =
      Some (Some (((pre @ out) @ clit ''}'') @ drop 1 m), length ((pre @ out) @ clit ''}''))"
    by (subst put_behind) simp_all
  have sent: "t @ param_sent env ad ip i = (pre @ out) @ clit ''}''"
    using r(2,3) by (simp add: param_sent_def param_object_def pre_def a_def n_def)
  have len: "length (param_sent env ad ip i) = length a + length n + length j_val + length out + 1"
    using arg_cong [OF sent, of length] by (simp add: pre_def)
  have same: "ip\<lparr>recs := (recs ip)[i := recs ip ! i]\<rparr> = ip" by simp
  have at: "drop (length pre) (pre @ behind) = behind"
    "take (length pre) (pre @ behind) @ out @ m = (pre @ out) @ m" "length pre + length out = length (pre @ out)" by simp_all
  have "serialize_param env rq ad ip d i (Some (t @ rest), length t) =
      Some (d, ip, (Some ((t @ param_sent env ad ip i) @ drop 1 m), length (t @ param_sent env ad ip i)), SQL_SUCCESS)"
    unfolding sent
    by (simp only: serialize_param_def r(1,2) Option.bind.simps prod.case sum.case w fst_conv snd_conv option.distinct
        not_False_eq_True if_True es jv at(1) m(1) converted_def conversion.simps same Let_def option.case option.map at(2,3)
        SQL_SUCCEEDED_def simp_thms close)
  moreover have "length (param_sent env ad ip i) + length (drop 1 m) = length rest"
    using len m(2) behind(2) need \<open>1 \<le> length m\<close> by simp
  moreover have "length (param_sent env ad ip i) \<le> param_need env lg ad ip i"
    using len out name(1) r(3) by (simp add: param_need_def param_object_def a_def n_def)
  ultimately show ?thesis by blast
qed

section \<open>The parameters\<close>

definition params_sent :: "param_env \<Rightarrow> esodbc_desc \<Rightarrow> esodbc_desc \<Rightarrow> nat \<Rightarrow> cstr" where
  "params_sent env ad ip n = concat (map (param_sent env ad ip) [0..<n])"

lemma params_asked:
  assumes "\<forall>k. i \<le> k \<and> k < i + n \<longrightarrow> param_ready env lg ad ip k" and "desc_ok ver ad" "desc_ok ver ip" and "rq_lgst_name rq = Some lg"
  shows "serialize_params_loop env rq ad ip d i n (None, l) =
    Some (d, ip, (None, l + sum_list (map (param_need env lg ad ip) [i..<i + n])), SQL_SUCCESS)"
  using assms(1)
proof (induction n arbitrary: i l)
  case (Suc n)
  have "param_ready env lg ad ip i" using Suc.prems by simp
  note one = param_asked [OF this assms(2-4), of d l]
  have "\<forall>k. Suc i \<le> k \<and> k < Suc i + n \<longrightarrow> param_ready env lg ad ip k" using Suc.prems by simp
  from Suc.IH [OF this] show ?case
    by (simp add: one SQL_SUCCEEDED_def upt_conv_Cons del: upt_Suc)
qed simp

lemma params_written:
  assumes "\<forall>k. i \<le> k \<and> k < i + n \<longrightarrow> param_ready env lg ad ip k" and "desc_ok ver ad" "desc_ok ver ip"
    and "sum_list (map (param_need env lg ad ip) [i..<i + n]) < length rest"
  shows "\<exists>rest'. serialize_params_loop env rq ad ip d i n (Some (t @ rest), length t) =
      Some (d, ip, (Some ((t @ concat (map (param_sent env ad ip) [i..<i + n])) @ rest'),
        length (t @ concat (map (param_sent env ad ip) [i..<i + n]))), SQL_SUCCESS) \<and>
    length (concat (map (param_sent env ad ip) [i..<i + n])) + length rest' = length rest \<and>
    length (concat (map (param_sent env ad ip) [i..<i + n])) \<le> sum_list (map (param_need env lg ad ip) [i..<i + n])"
  using assms(1,4)
proof (induction n arbitrary: i t rest)
  case (Suc n)
  let ?p = "param_sent env ad ip i" and ?ps = "concat (map (param_sent env ad ip) [Suc i..<Suc i + n])"
  have upt: "[i..<i + Suc n] = i # [Suc i..<Suc i + n]" by (simp add: upt_conv_Cons del: upt_Suc)
  have "param_ready env lg ad ip i" "param_need env lg ad ip i < length rest"
    using Suc.prems unfolding upt by simp_all
  from param_written [OF this(1) assms(2,3) this(2), of rq d t] obtain r1 where
    one: "serialize_param env rq ad ip d i (Some (t @ rest), length t) =
      Some (d, ip, (Some ((t @ ?p) @ r1), length (t @ ?p)), SQL_SUCCESS)"
    and r1: "length ?p + length r1 = length rest" "length ?p \<le> param_need env lg ad ip i" by blast
  have "\<forall>k. Suc i \<le> k \<and> k < Suc i + n \<longrightarrow> param_ready env lg ad ip k" using Suc.prems(1) by simp
  moreover have "sum_list (map (param_need env lg ad ip) [Suc i..<Suc i + n]) < length r1"
    using Suc.prems(2) r1 unfolding upt by simp
  ultimately obtain r2 where
    two: "serialize_params_loop env rq ad ip d (Suc i) n (Some ((t @ ?p) @ r1), length (t @ ?p)) =
      Some (d, ip, (Some (((t @ ?p) @ ?ps) @ r2), length ((t @ ?p) @ ?ps)), SQL_SUCCESS)"
    and r2: "length ?ps + length r2 = length r1" "length ?ps \<le> sum_list (map (param_need env lg ad ip) [Suc i..<Suc i + n])"
    using Suc.IH [of "Suc i" r1 "t @ ?p"] by blast
  have "serialize_params_loop env rq ad ip d i (Suc n) (Some (t @ rest), length t) =
      Some (d, ip, (Some (((t @ ?p) @ ?ps) @ r2), length ((t @ ?p) @ ?ps)), SQL_SUCCESS)"
    unfolding serialize_params_loop.simps one using two by (simp add: SQL_SUCCEEDED_def)
  then show ?case using r1 r2 unfolding upt by (intro exI [of _ r2]) simp
qed simp

lemma put_desc_same:
  assumes "get_desc h p = Some d"
  shows "put_desc h p d = h"
  using assms
proof (cases rule: get_desc_cases)
  case (user b par)
  then show ?thesis by (simp add: fun_upd_idem)
next
  case (embedded b m s)
  then have "with_member m s d = s" by (cases m) auto
  then show ?thesis using embedded by (simp add: fun_upd_idem)
qed

section \<open>The request of a query\<close>

definition bool_text :: "bool \<Rightarrow> cstr" where
  "bool_text b = (if b then clit ''true'' else clit ''false'')"

definition options_sent :: "request_env \<Rightarrow> cstr" where
  "options_sent rq =
    (if rq_fetch rq \<noteq> [] then JSON_KEY_FETCH @ rq_fetch rq else []) @
    JSON_KEY_MULTIVAL @ bool_text (rq_mfield_lenient rq) @ JSON_KEY_IDX_FROZEN @ bool_text (rq_idx_inc_frozen rq) @
    JSON_KEY_TIMEZONE @ (if rq_apply_tz rq then rq_tz_param rq else JSON_VAL_TIMEZONE_Z) @
    (if rq_catalog rq \<noteq> [] then JSON_KEY_CATALOG @ [34] @ rq_catalog rq @ [34] else []) @
    JSON_KEY_VERSION @ [34] @ rq_version rq @ [34]"

definition request_end :: cstr where
  "request_end = JSON_KEY_VAL_MODE @ JSON_KEY_CLT_ID @ JSON_KEY_BINARY_FMT @ clit ''false}''"

text \<open>The object, with what is written for the parameters in it.\<close>

definition query_request :: "request_env \<Rightarrow> cstr \<Rightarrow> cstr \<Rightarrow> cstr" where
  "query_request rq sql params = clit ''{'' @ JSON_KEY_QUERY @ [34] @ json.encode sql @ [34] @ params @ options_sent rq @ request_end"

definition params_part :: "param_env \<Rightarrow> esodbc_desc \<Rightarrow> esodbc_desc \<Rightarrow> cstr" where
  "params_part env ad ip =
    (if count_bound ad \<noteq> 0 then JSON_KEY_PARAMS @ clit ''['' @ params_sent env ad ip (nat (count_bound ad)) @ clit '']'' else [])"

lemma copy_bool_val_put: "copy_bool_val b = put (bool_text b)"
  by (simp add: copy_bool_val_def bool_text_def fun_eq_iff)

lemma put_when: "(if c then put xs w else Some w) = put (if c then xs else []) w"
  by (cases w) (auto simp: put_def split: option.splits)

lemma put_options_put: "put_options rq w = put (options_sent rq) w"
  by (simp only: put_options_def options_sent_def copy_bool_val_put put_then_put put_put put_when append_assoc)

lemma query_asked:
  assumes "get_stmt h b = Some s" and "get_desc h (apd s) = Some ad" "get_desc h (ipd s) = Some ip"
    and "desc_ok ver ad" "desc_ok ver ip" and "rq_lgst_name rq = Some lg"
    and "\<forall>k < nat (count_bound ad). param_ready env lg ad ip k"
  shows "serialize_params_json env rq h b (None, 0) =
    Some (h, (None, 2 + sum_list (map (param_need env lg ad ip) [0..<nat (count_bound ad)])), SQL_SUCCESS)"
proof -
  have "\<forall>k. 0 \<le> k \<and> k < 0 + nat (count_bound ad) \<longrightarrow> param_ready env lg ad ip k" using assms(7) by simp
  from params_asked [OF this assms(4,5,6), of "stmt_diag s" 1] show ?thesis
    using assms(1-3) put_desc_same [OF assms(3)] put_stmt_same [OF assms(1)]
    by (simp add: serialize_params_json_def SQL_SUCCEEDED_def Let_def)
qed

lemma query_params_written:
  assumes "get_stmt h b = Some s" and "get_desc h (apd s) = Some ad" "get_desc h (ipd s) = Some ip"
    and "desc_ok ver ad" "desc_ok ver ip" and "\<forall>k < nat (count_bound ad). param_ready env lg ad ip k"
    and "2 + sum_list (map (param_need env lg ad ip) [0..<nat (count_bound ad)]) \<le> length rest"
  shows "\<exists>rest'. serialize_params_json env rq h b (Some (t @ rest), length t) =
      Some (h, (Some ((t @ clit ''['' @ params_sent env ad ip (nat (count_bound ad)) @ clit '']'') @ rest'),
        length (t @ clit ''['' @ params_sent env ad ip (nat (count_bound ad)) @ clit '']'')), SQL_SUCCESS) \<and>
    2 + length (params_sent env ad ip (nat (count_bound ad))) + length rest' = length rest \<and>
    length (params_sent env ad ip (nat (count_bound ad))) \<le> sum_list (map (param_need env lg ad ip) [0..<nat (count_bound ad)])"
proof -
  let ?n = "nat (count_bound ad)"
  have ready: "\<forall>k. 0 \<le> k \<and> k < 0 + ?n \<longrightarrow> param_ready env lg ad ip k" using assms(6) by simp
  have open_: "put (clit ''['') (Some (t @ rest), length t) =
      Some (Some ((t @ clit ''['') @ drop 1 rest), length (t @ clit ''[''))"
    using assms(7) by (subst put_behind) simp_all
  have "sum_list (map (param_need env lg ad ip) [0..<0 + ?n]) < length (drop 1 rest)" using assms(7) by simp
  from params_written [OF ready assms(4,5) this, of rq "stmt_diag s" "t @ clit ''[''"] obtain r where
    r: "serialize_params_loop env rq ad ip (stmt_diag s) 0 ?n (Some ((t @ clit ''['') @ drop 1 rest), length (t @ clit ''['')) =
      Some (stmt_diag s, ip, (Some (((t @ clit ''['') @ params_sent env ad ip ?n) @ r),
        length ((t @ clit ''['') @ params_sent env ad ip ?n)), SQL_SUCCESS)"
      "length (params_sent env ad ip ?n) + length r = length (drop 1 rest)"
      "length (params_sent env ad ip ?n) \<le> sum_list (map (param_need env lg ad ip) [0..<?n])"
    unfolding params_sent_def add_0 by blast
  have "1 \<le> length r" using r(2,3) assms(7) by simp
  then have close: "put (clit '']'') (Some (((t @ clit ''['') @ params_sent env ad ip ?n) @ r), length ((t @ clit ''['') @ params_sent env ad ip ?n)) =
      Some (Some ((((t @ clit ''['') @ params_sent env ad ip ?n) @ clit '']'') @ drop 1 r),
        length (((t @ clit ''['') @ params_sent env ad ip ?n) @ clit '']''))"
    by (subst put_behind) simp_all
  have "serialize_params_json env rq h b (Some (t @ rest), length t) =
      Some (h, (Some ((((t @ clit ''['') @ params_sent env ad ip ?n) @ clit '']'') @ drop 1 r),
        length (((t @ clit ''['') @ params_sent env ad ip ?n) @ clit '']'')), SQL_SUCCESS)"
    by (simp only: serialize_params_json_def assms(1-3) Option.bind.simps open_ r(1) prod.case put_desc_same [OF assms(3)]
        esodbc_stmt.surjective esodbc_stmt.update_convs Let_def SQL_SUCCEEDED_def simp_thms if_True close)
      (simp add: put_stmt_same [OF assms(1)])
  moreover have "2 + length (params_sent env ad ip ?n) + length (drop 1 r) = length rest"
    using r(2) assms(7) \<open>1 \<le> length r\<close> by simp
  ultimately show ?thesis using r(3) by (intro exI [of _ "drop 1 r"]) simp
qed

lemma escape_asked: "json_escape (src @ [0]) 0 (length src) None r = Some (src @ [0], length (json.encode src))"
  by (cases src) (simp_all add: json_escape_def json_escaped_len_eq)

lemma options_bound:
  assumes "rq_apply_tz rq \<or> 3 \<le> length (rq_tz_param rq)"
  shows "length (options_sent rq) \<le> (if rq_fetch rq \<noteq> [] then length JSON_KEY_FETCH + length (rq_fetch rq) else 0) +
    length JSON_KEY_MULTIVAL + 5 + length JSON_KEY_IDX_FROZEN + 5 + length JSON_KEY_TIMEZONE + length (rq_tz_param rq) +
    (if rq_catalog rq \<noteq> [] then length JSON_KEY_CATALOG + length (rq_catalog rq) + 2 else 0) +
    length JSON_KEY_VERSION + length (rq_version rq) + 2"
proof -
  have "length (bool_text v) \<le> 5" for v by (simp add: bool_text_def)
  then have "length (bool_text (rq_mfield_lenient rq)) + length (bool_text (rq_idx_inc_frozen rq)) \<le> 5 + 5"
    by (intro add_mono)
  moreover have "length (if rq_apply_tz rq then rq_tz_param rq else JSON_VAL_TIMEZONE_Z) \<le> length (rq_tz_param rq)"
    using assms by (auto simp: JSON_VAL_TIMEZONE_Z_def json_quoted_def)
  ultimately show ?thesis by (simp add: options_sent_def split: if_split)
qed

lemma put_query_writes:
  assumes "get_stmt h b = Some s" and "get_desc h (apd s) = Some ad" "get_desc h (ipd s) = Some ip"
    and "desc_ok ver ad" "desc_ok ver ip" and "u8sql s = Some sql" and "\<forall>k < nat (count_bound ad). param_ready env lg ad ip k"
    and "length JSON_KEY_QUERY + length (json.encode sql) + 2 + length (options_sent rq) +
      (if count_bound ad \<noteq> 0 then length JSON_KEY_PARAMS + 2 +
        sum_list (map (param_need env lg ad ip) [0..<nat (count_bound ad)]) else 0) \<le> length rest"
  shows "\<exists>rest'. put_query env rq (length t + length rest) h b (Some (t @ rest), length t) =
      Some (h, (Some ((t @ JSON_KEY_QUERY @ [34] @ json.encode sql @ [34] @ params_part env ad ip @ options_sent rq) @ rest'),
        length (t @ JSON_KEY_QUERY @ [34] @ json.encode sql @ [34] @ params_part env ad ip @ options_sent rq)), SQL_SUCCESS) \<and>
    length (JSON_KEY_QUERY @ [34] @ json.encode sql @ [34] @ params_part env ad ip @ options_sent rq) + length rest' = length rest"
proof -
  let ?q = "JSON_KEY_QUERY @ [34]" and ?e = "json.encode sql" and ?n = "nat (count_bound ad)"
  define a where "a = t @ ?q @ ?e @ [34]"
  define r where "r = drop (length JSON_KEY_QUERY + length ?e + 2) rest"
  have len: "length a + length r = length t + length rest" using assms(8) by (simp add: a_def r_def)
  have q: "Option.bind (put JSON_KEY_QUERY (Some (t @ rest), length t)) (\<lambda>w. Option.bind (put [34] w) k) =
      k (Some ((t @ ?q) @ drop (length ?q) rest), length (t @ ?q))" for k :: "wpos \<Rightarrow> 'z option"
    using assms(8) unfolding put_then_put by simp
  have "length ?e \<le> length t + length rest - length (t @ ?q)" using assms(8) by simp
  then have e: "put_escaped sql (length t + length rest - length (t @ ?q)) (Some ((t @ ?q) @ drop (length ?q) rest), length (t @ ?q)) =
      Some (Some (((t @ ?q) @ ?e) @ drop (length ?e) (drop (length ?q) rest)), length ((t @ ?q) @ ?e))"
    using assms(8) by (intro escape_behind) simp_all
  have c: "put [34] (Some (((t @ ?q) @ ?e) @ drop (length ?e) (drop (length ?q) rest)), length ((t @ ?q) @ ?e)) = Some (Some (a @ r), length a)"
    using assms(8) by (subst put_behind) (simp_all add: a_def r_def add.commute)
  have "\<exists>r'. (if count_bound ad \<noteq> 0 then do {
         w \<leftarrow> put JSON_KEY_PARAMS (Some (a @ r), length a);
         serialize_params_json env rq h b w }
       else Some (h, (Some (a @ r), length a), SQL_SUCCESS)) =
      Some (h, (Some ((a @ params_part env ad ip) @ r'), length (a @ params_part env ad ip)), SQL_SUCCESS) \<and>
      length (params_part env ad ip) + length r' = length r \<and> length (options_sent rq) \<le> length r'"
  proof (cases "count_bound ad = 0")
    case True
    then show ?thesis using assms(8) by (intro exI [of _ r]) (simp add: params_part_def r_def)
  next
    case False
    have p: "put JSON_KEY_PARAMS (Some (a @ r), length a) = Some (Some ((a @ JSON_KEY_PARAMS) @ drop (length JSON_KEY_PARAMS) r), length (a @ JSON_KEY_PARAMS))"
      using assms(8) False by (subst put_behind) (simp_all add: r_def)
    have "2 + sum_list (map (param_need env lg ad ip) [0..<?n]) \<le> length (drop (length JSON_KEY_PARAMS) r)"
      using assms(8) False by (simp add: r_def)
    from query_params_written [OF assms(1-5,7) this, of rq "a @ JSON_KEY_PARAMS"] obtain r' where
      r': "serialize_params_json env rq h b (Some ((a @ JSON_KEY_PARAMS) @ drop (length JSON_KEY_PARAMS) r), length (a @ JSON_KEY_PARAMS)) =
        Some (h, (Some (((a @ JSON_KEY_PARAMS) @ clit ''['' @ params_sent env ad ip ?n @ clit '']'') @ r'),
          length ((a @ JSON_KEY_PARAMS) @ clit ''['' @ params_sent env ad ip ?n @ clit '']'')), SQL_SUCCESS)"
      "2 + length (params_sent env ad ip ?n) + length r' = length (drop (length JSON_KEY_PARAMS) r)"
      "length (params_sent env ad ip ?n) \<le> sum_list (map (param_need env lg ad ip) [0..<?n])" by blast
    have part: "params_part env ad ip = JSON_KEY_PARAMS @ clit ''['' @ params_sent env ad ip ?n @ clit '']''"
      using False by (simp add: params_part_def)
    have "length (params_part env ad ip) + length r' = length r" "length (options_sent rq) \<le> length r'"
      using r'(2,3) assms(8) False by (simp_all add: part r_def)
    then show ?thesis using False p r'(1) unfolding part append_assoc by (intro exI [of _ r']) simp
  qed
  then obtain r' where p: "(if count_bound ad \<noteq> 0 then do {
         w \<leftarrow> put JSON_KEY_PARAMS (Some (a @ r), length a);
         serialize_params_json env rq h b w }
       else Some (h, (Some (a @ r), length a), SQL_SUCCESS)) =
      Some (h, (Some ((a @ params_part env ad ip) @ r'), length (a @ params_part env ad ip)), SQL_SUCCESS)"
    and r': "length (params_part env ad ip) + length r' = length r" "length (options_sent rq) \<le> length r'" by blast
  have o: "put_options rq (Some ((a @ params_part env ad ip) @ r'), length (a @ params_part env ad ip)) =
      Some (Some (((a @ params_part env ad ip) @ options_sent rq) @ drop (length (options_sent rq)) r'),
        length ((a @ params_part env ad ip) @ options_sent rq))"
    unfolding put_options_put using r'(2) by (rule put_behind)
  have "put_query env rq (length t + length rest) h b (Some (t @ rest), length t) =
      Some (h, (Some (((a @ params_part env ad ip) @ options_sent rq) @ drop (length (options_sent rq)) r'),
        length ((a @ params_part env ad ip) @ options_sent rq)), SQL_SUCCESS)"
    by (simp only: put_query_def assms(1,2,6) Option.bind.simps q snd_conv e c p prod.case SQL_SUCCEEDED_def simp_thms if_False o)
  then show ?thesis
    using len r' by (intro exI [of _ "drop (length (options_sent rq)) r'"]) (simp add: a_def)
qed

lemma length_request_end:
  "length request_end = length JSON_KEY_VAL_MODE + length JSON_KEY_CLT_ID + length JSON_KEY_BINARY_FMT + 5 + 1"
  by (simp add: request_end_def)


section \<open>Witnesses\<close>

definition sample_param_env :: param_env where
  "sample_param_env = \<lparr>pe_cell = (\<lambda>_. 0), pe_number = (\<lambda>_. N_integer 7), pe_interval = (\<lambda>_. D_integer 0),
     pe_c_concise = (\<lambda>_. SQL_C_CHAR), pe_ulong = None, pe_lib = sample_library, pe_utf8 = (\<lambda>_. None), pe_stack = (\<lambda>_. 0),
     pe_alloc_ok = True, pe_ndebug = False, pe_ver = wlit ''1.0'', pe_date_time = (\<lambda>_ _ _ _ _ _. None)\<rparr>"

definition sample_request_env :: request_env where
  "sample_request_env = \<lparr>rq_lgst_name = Some (sample_estype SQL_INTEGER), rq_fetch = clit ''10'', rq_mfield_lenient = True,
     rq_idx_inc_frozen = False, rq_apply_tz = False, rq_catalog = [], rq_tz_param = clit ''xxxxxxxx'', rq_version = clit ''7.0''\<rparr>"

text \<open>One parameter, bound to an integer that is 7.\<close>

definition sample_apd :: esodbc_desc where
  "sample_apd = sample_desc\<lparr>desc_type := DESC_TYPE_APD, count := 1, recs := [zero_rec\<lparr>concise_type := SQL_C_SLONG, data_ptr := 4096\<rparr>]\<rparr>"

definition sample_ipd :: esodbc_desc where
  "sample_ipd = sample_desc\<lparr>desc_type := DESC_TYPE_IPD, count := 1, recs := [zero_rec\<lparr>es_type := Some (sample_estype SQL_INTEGER)\<rparr>]\<rparr>"

lemma sample_params_ok: "desc_ok (wlit ''1.0'') sample_apd" "desc_ok (wlit ''1.0'') sample_ipd"
proof -
  have "meta_type zero_rec = METATYPE_UNKNOWN" by (simp add: zero_rec_def)
  then show "desc_ok (wlit ''1.0'') sample_apd" "desc_ok (wlit ''1.0'') sample_ipd"
    using sample_desc_ok by (simp_all add: desc_ok_def sample_apd_def sample_ipd_def rec_ok_def ESODBC_MAX_DESC_COUNT_def)
qed

lemma sample_param_heap:
  "\<exists>h s. get_stmt h 2 = Some s \<and> get_desc h (apd s) = Some sample_apd \<and> get_desc h (ipd s) = Some sample_ipd \<and>
    u8sql s = Some (clit ''SELECT ?'')"
proof -
  obtain h s where "get_stmt h 2 = Some s" using sample_reachable by blast
  define s' where "s' = s\<lparr>apd := PTR 2 I_APD, ipd := PTR 2 I_IPD, i_apd := sample_apd, i_ipd := sample_ipd, u8sql := Some (clit ''SELECT ?'')\<rparr>"
  show ?thesis by (intro exI [of _ "put_stmt h 2 s'"] exI [of _ s']) (simp add: s'_def put_stmt_def get_stmt_def)
qed

text \<open>The request, with backquotes for quotes.\<close>

definition sample_text :: cstr where
  "sample_text = clit (map (\<lambda>c. if c = CHR 0x60 then CHR 0x22 else c)
      (''{`query`: `SELECT ?`, `params`: [{`type`: `T`, `value`: 7}], `fetch_size`: 10'' @
       '', `field_multi_value_leniency`: true, `index_include_frozen`: false, `time_zone`: `Z`, `version`: `7.0`'' @
       '', `mode`: `ODBC`, `client_id`: `odbc64`, `binary_format`: false}''))"

lemma sample_param_value:
  "param_value sample_param_env sample_apd (recs sample_apd ! 0) (recs sample_ipd ! 0) = Some (19, clit ''7'')"
  by code_simp

lemma sample_param_facts:
  "count_bound sample_apd = 1" "param_ready sample_param_env (sample_estype SQL_INTEGER) sample_apd sample_ipd 0"
  "query_request sample_request_env (clit ''SELECT ?'') (params_part sample_param_env sample_apd sample_ipd) =
    sample_text"
proof -
  show "count_bound sample_apd = 1" by code_simp
  have "REC_IS_BOUND (recs sample_apd ! 0)" "es_type (recs sample_ipd ! 0) = Some (sample_estype SQL_INTEGER)"
    "length (recs sample_apd) = 1" "length (recs sample_ipd) = 1"
    "length (concat (map json_esc1 (type_name_c (sample_estype SQL_INTEGER)))) = 1"
    by code_simp+
  then show "param_ready sample_param_env (sample_estype SQL_INTEGER) sample_apd sample_ipd 0"
    by (simp add: param_ready_def sample_param_value json.encode_def)
  show "query_request sample_request_env (clit ''SELECT ?'') (params_part sample_param_env sample_apd sample_ipd) =
    sample_text"
    unfolding query_request_def params_part_def params_sent_def param_sent_def param_object_def json.encode_def by code_simp
qed


section \<open>The time zone\<close>

text \<open>\<open>print_tz_param\<close> prints in a buffer of nine octets and fails when the text has no room in it. The offset is negative
  east of Greenwich.\<close>

definition print_tz_param :: "int \<Rightarrow> cstr option" where
  "print_tz_param tz_dst_offt =
    (let abs_tz = nat \<bar>tz_dst_offt\<bar>;
         out = [34, if tz_dst_offt \<le> 0 then 43 else 45] @ map of_nat (padded_text 2 (abs_tz div 3600)) @ [58] @
           map of_nat (padded_text 2 (abs_tz mod 3600 div 60)) @ [34] in
     if 9 \<le> length out then None else Some out)"

text \<open>The members of \<open>struct tm\<close> the offset is computed from, and the offset.\<close>

record tm =
  tm_yday :: int
  tm_hour :: int
  tm_min :: int

definition tz_dst_offset :: "tm \<Rightarrow> tm \<Rightarrow> int" where
  "tz_dst_offset gm local =
    tm_yday gm * 24 * 3600 + tm_hour gm * 3600 + tm_min gm * 60 - tm_yday local * 24 * 3600 -
      (tm_hour local * 3600 + tm_min local * 60)"

text \<open>The variables that \<open>update_tz_param\<close> keeps. \<open>crr_date\<close>: whether the date is updated.\<close>

record tz_vars =
  tz_dst_offt :: int
  tz_yday :: int
  tz_param :: cstr

definition update_tz_param :: "bool \<Rightarrow> tm option \<Rightarrow> tm \<Rightarrow> tz_vars \<Rightarrow> tz_vars \<times> bool" where
  "update_tz_param crr_date gm local v =
    (case gm of
       None \<Rightarrow> (v, False)
     | Some gm \<Rightarrow>
         (let offset = tz_dst_offset gm local in
          if tz_dst_offt v = offset \<and> tz_yday v = tm_yday local then (v, True)
          else (let v = v\<lparr>tz_dst_offt := offset, tz_yday := tm_yday local\<rparr> in
            case print_tz_param offset of
              None \<Rightarrow> (v, False)
            | Some p \<Rightarrow> (v\<lparr>tz_param := p\<rparr>, crr_date))))"

text \<open>The time \<open>m\<close> minutes into a year, where a negative time is in a year of \<open>before\<close> minutes, and one past \<open>this\<close>
  minutes in the year after.\<close>

definition tm_in_year :: "int \<Rightarrow> int \<Rightarrow> int \<Rightarrow> tm" where
  "tm_in_year before this m =
    (let k = (if m < 0 then m + before else if this \<le> m then m - this else m) in
     \<lparr>tm_yday = k div 1440, tm_hour = k mod 1440 div 60, tm_min = k mod 60\<rparr>)"

definition year_minutes :: "int set" where "year_minutes = {365 * 1440, 366 * 1440}"

lemma tz_dst_offset_minutes:
  "tz_dst_offset (tm_in_year b y u) (tm_in_year b' y' v) =
    60 * ((if u < 0 then u + b else if y \<le> u then u - y else u) - (if v < 0 then v + b' else if y' \<le> v then v - y' else v))"
proof -
  have "k div 1440 * 24 * 3600 + k mod 1440 div 60 * 3600 + k mod 60 * 60 = 60 * k" for k :: int
  proof -
    have "k mod 60 = k mod 1440 mod 60" by (simp add: mod_mod_cancel)
    moreover have "k = 1440 * (k div 1440) + k mod 1440" "k mod 1440 = 60 * (k mod 1440 div 60) + k mod 1440 mod 60" by simp_all
    ultimately show ?thesis by linarith
  qed
  then show ?thesis unfolding tz_dst_offset_def tm_in_year_def Let_def tm.simps by (simp add: algebra_simps)
qed

lemma padded_two: "n < 100 \<Longrightarrow> length (padded_text 2 n) = 2" "100 \<le> n \<Longrightarrow> 3 \<le> length (padded_text 2 n)"
proof -
  show "n < 100 \<Longrightarrow> length (padded_text 2 n) = 2"
    using dec_digits_length_le [of n 2] dec_digits_nonempty [of n] by (simp add: padded_text_def digits_text_def)
  show "100 \<le> n \<Longrightarrow> 3 \<le> length (padded_text 2 n)"
    using dec_digits_length_ge [of 2 n] by (simp add: padded_text_def digits_text_def)
qed



end
